(* ===== verification/Prelude.thy ===== *)
theory Prelude
  imports Main "HOL-Library.List_Lexorder" "HOL-Library.Char_ord" "HOL-Library.Product_Lexorder"
begin

text \<open>
  Shared vocabulary of the development: results of code that may throw, the row lists
  that stand for SQLite tables, the string primitives of the daemon's path and header checks,
  and the interfaces (locales) that several components share: a step system with an invariant,
  a consumer of a chunked byte stream, and a keyed row store.

  A JavaScript string is represented by the bytes of its UTF-8 encoding (an Isabelle
  \<open>string\<close>, a list of 8-bit characters). Splitting at an ASCII character, comparing with an
  ASCII prefix and measuring \<open>Buffer.byteLength\<close> agree on both representations.
\<close>

named_theorems table_simps "what the row-list operations return and keep"
named_theorems res_simps "when a composed computation returns and when it throws"

section \<open>Results of code that may throw\<close>

text \<open>
  \<open>Inl e\<close> is a thrown value, \<open>Inr x\<close> a return value. A SQLite statement or transaction that
  throws leaves the database unchanged, so a database operation is
  \<open>db \<Rightarrow> 'e + db\<close>: on \<open>Inl\<close> the caller keeps the old database.
\<close>

definition bind_res :: "'e + 'a \<Rightarrow> ('a \<Rightarrow> 'e + 'b) \<Rightarrow> 'e + 'b" where
  "bind_res m f = (case m of Inl e \<Rightarrow> Inl e | Inr x \<Rightarrow> f x)"

definition ensure_res :: "bool \<Rightarrow> 'e \<Rightarrow> 'a \<Rightarrow> 'e + 'a" where
  "ensure_res ok e x = (if ok then Inr x else Inl e)"

definition is_ok :: "'e + 'a \<Rightarrow> bool" where
  "is_ok r = (case r of Inl _ \<Rightarrow> False | Inr _ \<Rightarrow> True)"

lemma bind_res_simps [simp]:
  "bind_res (Inl e) f = Inl e"
  "bind_res (Inr x) f = f x"
  by (simp_all add: bind_res_def)

lemma bind_res_Inr [res_simps]:
  "bind_res m f = Inr y \<longleftrightarrow> (\<exists>x. m = Inr x \<and> f x = Inr y)"
  by (cases m) auto

lemma bind_res_Inl [res_simps]:
  "bind_res m f = Inl e \<longleftrightarrow> m = Inl e \<or> (\<exists>x. m = Inr x \<and> f x = Inl e)"
  by (cases m) auto

lemma ensure_res_iff [res_simps]:
  "ensure_res ok e x = Inr y \<longleftrightarrow> ok \<and> y = x"
  "ensure_res ok e x = Inl e' \<longleftrightarrow> \<not> ok \<and> e' = e"
  by (auto simp: ensure_res_def)

lemma ensure_res_True [simp]: "ensure_res True e x = Inr x"
  by (simp add: ensure_res_def)

lemma ensure_res_False [simp]: "ensure_res False e x = Inl e"
  by (simp add: ensure_res_def)

lemma is_ok_simps [simp]: "is_ok (Inr x)" "\<not> is_ok (Inl e)"
  by (simp_all add: is_ok_def)

text \<open>JavaScript's \<open>a ? a : undefined\<close> on a string that may be absent: the empty string
  counts as absent.\<close>

fun truthy :: "string option \<Rightarrow> string option" where
  "truthy None = None"
| "truthy (Some s) = (if s = '''' then None else Some s)"

lemma truthy_Some [simp]: "truthy x = Some s \<longleftrightarrow> x = Some s \<and> s \<noteq> ''''"
  by (cases x) auto

lemma truthy_None: "truthy x = None \<longleftrightarrow> x = None \<or> x = Some ''''"
  by (cases x) auto

lemma truthy_idem [simp]: "truthy (truthy x) = truthy x"
  by (cases x) auto

section \<open>Tables as row lists\<close>

text \<open>
  A table is its list of rows in insertion order. \<open>select1\<close> is drizzle's
  \<open>select().from(t).where(p).get()\<close>, \<open>select_all\<close> its \<open>.all()\<close>, \<open>update_where\<close> its
  \<open>update(t).set(f).where(p)\<close> and \<open>delete_where\<close> its \<open>delete(t).where(p)\<close>.
\<close>

fun select1 :: "('r \<Rightarrow> bool) \<Rightarrow> 'r list \<Rightarrow> 'r option" where
  "select1 P [] = None"
| "select1 P (r # rs) = (if P r then Some r else select1 P rs)"

definition select_all :: "('r \<Rightarrow> bool) \<Rightarrow> 'r list \<Rightarrow> 'r list" where
  "select_all P rs = filter P rs"

definition update_where :: "('r \<Rightarrow> bool) \<Rightarrow> ('r \<Rightarrow> 'r) \<Rightarrow> 'r list \<Rightarrow> 'r list" where
  "update_where P f rs = map (\<lambda>r. if P r then f r else r) rs"

definition delete_where :: "('r \<Rightarrow> bool) \<Rightarrow> 'r list \<Rightarrow> 'r list" where
  "delete_where P rs = filter (\<lambda>r. \<not> P r) rs"

lemma select1_Some: "select1 P rs = Some r \<Longrightarrow> r \<in> set rs \<and> P r"
  by (induction rs) (auto split: if_splits)

lemma select1_None [table_simps]: "select1 P rs = None \<longleftrightarrow> (\<forall>r\<in>set rs. \<not> P r)"
  by (induction rs) auto

lemma select1_append [table_simps]:
  "select1 P (rs @ ss) = (case select1 P rs of None \<Rightarrow> select1 P ss | Some r \<Rightarrow> Some r)"
  by (induction rs) auto

lemma select1_ex: "r \<in> set rs \<Longrightarrow> P r \<Longrightarrow> \<exists>r'. select1 P rs = Some r'"
  by (induction rs) auto

lemma select1_cong: "(\<And>r. r \<in> set rs \<Longrightarrow> P r = Q r) \<Longrightarrow> select1 P rs = select1 Q rs"
  by (induction rs) auto

text \<open>Under a primary key the selected row is the one with that key.\<close>

lemma select1_key:
  "distinct (map key rs) \<Longrightarrow> select1 (\<lambda>r. key r = k) rs = Some r \<longleftrightarrow> r \<in> set rs \<and> key r = k"
proof (induction rs)
  case (Cons a rs)
  then show ?case by (auto simp: image_iff)
qed simp

lemma distinct_keyD:
  "distinct (map key rs) \<Longrightarrow> r \<in> set rs \<Longrightarrow> r' \<in> set rs \<Longrightarrow> key r = key r' \<Longrightarrow> r = r'"
  by (induction rs) (auto simp: image_iff)

lemma update_where_simps [simp]:
  "update_where P f [] = []"
  "update_where P f (r # rs) = (if P r then f r else r) # update_where P f rs"
  by (simp_all add: update_where_def)

lemma set_update_where [table_simps]:
  "set (update_where P f rs) = (\<lambda>r. if P r then f r else r) ` set rs"
  by (simp add: update_where_def)

lemma update_where_mem:
  "r' \<in> set (update_where P f rs) \<longleftrightarrow>
     (\<exists>r\<in>set rs. P r \<and> r' = f r) \<or> (r' \<in> set rs \<and> \<not> P r')"
  by (auto simp: set_update_where)

lemma map_key_update_where [table_simps]:
  "(\<And>r. key (f r) = key r) \<Longrightarrow> map key (update_where P f rs) = map key rs"
  by (induction rs) auto

lemma length_update_where [table_simps]: "length (update_where P f rs) = length rs"
  by (simp add: update_where_def)

lemma update_where_id: "(\<And>r. r \<in> set rs \<Longrightarrow> \<not> P r) \<Longrightarrow> update_where P f rs = rs"
  by (induction rs) auto

lemma select1_update_where:
  "(\<And>r. P r \<Longrightarrow> Q (f r) = Q r) \<Longrightarrow>
   select1 Q (update_where P f rs) = map_option (\<lambda>r. if P r then f r else r) (select1 Q rs)"
  by (induction rs) auto

lemma set_delete_where [table_simps]: "set (delete_where P rs) = {r \<in> set rs. \<not> P r}"
  by (auto simp: delete_where_def)

lemma delete_where_Nil [simp]: "delete_where P [] = []"
  by (simp add: delete_where_def)

lemma delete_where_Cons [simp]:
  "delete_where P (r # rs) = (if P r then delete_where P rs else r # delete_where P rs)"
  by (simp add: delete_where_def)

lemma delete_where_id: "(\<And>r. r \<in> set rs \<Longrightarrow> \<not> P r) \<Longrightarrow> delete_where P rs = rs"
  by (induction rs) auto

lemma distinct_delete_where:
  "distinct (map key rs) \<Longrightarrow> distinct (map key (delete_where P rs))"
  by (simp add: delete_where_def distinct_map_filter)

lemma set_select_all [table_simps]: "set (select_all P rs) = {r \<in> set rs. P r}"
  by (auto simp: select_all_def)

section \<open>Strings\<close>

text \<open>\<open>s.startsWith(p)\<close>, \<open>s.endsWith(p)\<close>, \<open>s.includes(p)\<close>, \<open>s.split(c)\<close> (never empty)
  and \<open>parts.join(c)\<close>.\<close>

fun starts_with :: "string \<Rightarrow> string \<Rightarrow> bool" where
  "starts_with [] s = True"
| "starts_with (p # ps) [] = False"
| "starts_with (p # ps) (c # cs) = (p = c \<and> starts_with ps cs)"

definition ends_with :: "string \<Rightarrow> string \<Rightarrow> bool" where
  "ends_with p s = starts_with (rev p) (rev s)"

fun contains_str :: "string \<Rightarrow> string \<Rightarrow> bool" where
  "contains_str p [] = (p = [])"
| "contains_str p (c # cs) = (starts_with p (c # cs) \<or> contains_str p cs)"

fun split_on :: "char \<Rightarrow> string \<Rightarrow> string list" where
  "split_on c [] = [[]]"
| "split_on c (x # xs) =
     (if x = c then [] # split_on c xs
      else (case split_on c xs of [] \<Rightarrow> [[x]] | p # ps \<Rightarrow> (x # p) # ps))"

fun join_with :: "char \<Rightarrow> string list \<Rightarrow> string" where
  "join_with c [] = []"
| "join_with c [p] = p"
| "join_with c (p # q # ps) = p @ c # join_with c (q # ps)"

lemma starts_with_iff: "starts_with p s \<longleftrightarrow> (\<exists>t. s = p @ t)"
  by (induction p s rule: starts_with.induct) auto

lemma starts_with_append [simp]: "starts_with p (p @ s)"
  by (auto simp: starts_with_iff)

lemma contains_iff: "contains_str p s \<longleftrightarrow> (\<exists>u v. s = u @ p @ v)"
proof (induction s)
  case (Cons c cs)
  then show ?case
    by (simp add: starts_with_iff) (metis append_Cons append_Nil list.exhaust list.inject)
qed simp

lemma contains_single: "contains_str [c] s \<longleftrightarrow> c \<in> set s"
  by (induction s) auto

lemma split_on_not_Nil [simp]: "split_on c s \<noteq> []"
  by (cases s) (auto split: list.splits)

lemma join_split [simp]: "join_with c (split_on c s) = s"
proof (induction s)
  case (Cons x xs)
  then show ?case
    by (cases "split_on c xs"; cases "tl (split_on c xs)") (auto split: list.splits)
qed simp

lemma split_on_parts: "p \<in> set (split_on c s) \<Longrightarrow> c \<notin> set p"
proof (induction s arbitrary: p)
  case (Cons x xs)
  then show ?case by (fastforce split: if_splits list.splits)
qed simp

lemma split_on_no_sep: "c \<notin> set s \<Longrightarrow> split_on c s = [s]"
  by (induction s) auto

lemma split_on_append: "c \<notin> set p \<Longrightarrow> split_on c (p @ c # s) = p # split_on c s"
  by (induction p) auto

lemma split_join:
  "ps \<noteq> [] \<Longrightarrow> list_all (\<lambda>p. c \<notin> set p) ps \<Longrightarrow> split_on c (join_with c ps) = ps"
proof (induction c ps rule: join_with.induct)
  case (3 c p q ps)
  then show ?case by (simp add: split_on_append)
qed (simp_all add: split_on_no_sep)

text \<open>\<open>join\<close> of a normal path with plain names, and \<open>dirname\<close> of a path without a trailing slash.\<close>

definition path_join :: "string list \<Rightarrow> string" where
  "path_join parts = join_with (CHR ''/'') parts"

definition dirname :: "string \<Rightarrow> string" where
  "dirname p = join_with (CHR ''/'') (butlast (split_on (CHR ''/'') p))"

definition NUL :: char where "NUL = CHR 0x00"

definition NL :: char where "NL = CHR 0x0A"

text \<open>\<open>resolve(base, target)\<close> of an absolute base: the parts of the path, without empty parts and
  dots, where \<open>..\<close> takes the part before it away (at the root, nothing).\<close>

definition add_part :: "string list \<Rightarrow> string \<Rightarrow> string list" where
  "add_part acc p =
     (if p = [] \<or> p = ''.'' then acc else if p = ''..'' then butlast acc else acc @ [p])"

definition normal_parts :: "string \<Rightarrow> string list" where
  "normal_parts path = foldl add_part [] (split_on (CHR ''/'') path)"

definition abs_path :: "string list \<Rightarrow> string" where
  "abs_path parts = CHR ''/'' # join_with (CHR ''/'') parts"

definition resolve_path :: "string \<Rightarrow> string \<Rightarrow> string" where
  "resolve_path base target =
     abs_path (normal_parts (if starts_with ''/'' target then target else base @ CHR ''/'' # target))"

text \<open>A relative path whose parts are all plain names.\<close>

definition plain_part :: "string \<Rightarrow> bool" where
  "plain_part p \<longleftrightarrow> p \<noteq> [] \<and> p \<noteq> ''.'' \<and> p \<noteq> ''..''"

text \<open>A number in decimal, as template literals print it.\<close>

function nat_str :: "nat \<Rightarrow> string" where
  "nat_str n = (if n < 10 then [char_of (48 + n)] else nat_str (n div 10) @ [char_of (48 + n mod 10)])"
  by pat_completeness auto
termination
  by (relation "measure id") auto

declare nat_str.simps [simp del]

section \<open>Step systems and their invariants\<close>

text \<open>
  A component whose operations interleave is an initial predicate and a step relation over its
  state; \<open>reach\<close> is the set of states of its runs. The interface \<open>invariant_system\<close> asks for
  an invariant that holds initially and that every step keeps, and gives it in every reachable
  state and along every run.
\<close>

inductive reach :: "('s \<Rightarrow> bool) \<Rightarrow> ('s \<Rightarrow> 's \<Rightarrow> bool) \<Rightarrow> 's \<Rightarrow> bool"
  for I :: "'s \<Rightarrow> bool" and R :: "'s \<Rightarrow> 's \<Rightarrow> bool" where
  reach_init: "I s \<Longrightarrow> reach I R s"
| reach_step: "reach I R s \<Longrightarrow> R s t \<Longrightarrow> reach I R t"

locale invariant_system =
  fixes init :: "'s \<Rightarrow> bool"
    and step :: "'s \<Rightarrow> 's \<Rightarrow> bool"
    and inv :: "'s \<Rightarrow> bool"
  assumes inv_init: "init s \<Longrightarrow> inv s"
    and inv_step: "step s t \<Longrightarrow> inv s \<Longrightarrow> inv t"
begin

lemma reach_inv: "reach init step s \<Longrightarrow> inv s"
  by (induction rule: reach.induct) (auto intro: inv_init inv_step)

lemma run_inv: "step\<^sup>*\<^sup>* s t \<Longrightarrow> inv s \<Longrightarrow> inv t"
  by (induction rule: rtranclp_induct) (auto intro: inv_step)

end

section \<open>Consumers of a chunked byte stream\<close>

text \<open>
  A socket delivers a byte stream cut into chunks at arbitrary places. A consumer is
  insensitive to the cuts when feeding two chunks one after the other is feeding their
  concatenation; then any two ways to cut the same stream leave it in the same state.
\<close>

locale chunk_consumer =
  fixes feed :: "'s \<Rightarrow> 'b list \<Rightarrow> 's"
    and good :: "'s \<Rightarrow> bool"
  assumes feed_append: "good s \<Longrightarrow> feed (feed s xs) ys = feed s (xs @ ys)"
    and good_feed: "good s \<Longrightarrow> good (feed s xs)"
begin

lemma feed_chunks: "good s \<Longrightarrow> foldl feed (feed s xs) cs = feed s (xs @ concat cs)"
proof (induction cs arbitrary: xs)
  case (Cons c cs)
  then show ?case by (simp add: feed_append)
qed simp

lemma chunking_irrelevant:
  assumes "good s" and "concat (c # cs) = concat (d # ds)"
  shows "foldl feed s (c # cs) = foldl feed s (d # ds)"
  using assms feed_chunks [of s c cs] feed_chunks [of s d ds] by simp

end

section \<open>Keyed row stores\<close>

text \<open>
  A table whose rows are read and updated by key: after a successful \<open>put k u\<close> the row at
  \<open>k\<close> is the old one with \<open>u\<close> applied and every other row is as before. \<open>put_each\<close> is a
  loop of such updates.
\<close>

fun put_each :: "('k \<Rightarrow> 'u \<Rightarrow> 'd \<Rightarrow> 'e + 'd) \<Rightarrow> ('k \<times> 'u) list \<Rightarrow> 'd \<Rightarrow> 'e + 'd" where
  "put_each put [] d = Inr d"
| "put_each put ((k, u) # kus) d = bind_res (put k u d) (put_each put kus)"

locale row_store =
  fixes get :: "'d \<Rightarrow> 'k \<Rightarrow> 'r option"
    and put :: "'k \<Rightarrow> 'u \<Rightarrow> 'd \<Rightarrow> 'e + 'd"
    and app :: "'u \<Rightarrow> 'r \<Rightarrow> 'r"
  assumes get_put: "put k u d = Inr d' \<Longrightarrow>
    get d' j = (if j = k then map_option (app u) (get d j) else get d j)"
begin

lemma get_put_same: "put k u d = Inr d' \<Longrightarrow> get d' k = map_option (app u) (get d k)"
  by (simp add: get_put)

lemma get_put_other: "put k u d = Inr d' \<Longrightarrow> j \<noteq> k \<Longrightarrow> get d' j = get d j"
  by (simp add: get_put)

lemma get_put_each_other:
  "put_each put kus d = Inr d' \<Longrightarrow> j \<notin> fst ` set kus \<Longrightarrow> get d' j = get d j"
proof (induction kus arbitrary: d)
  case (Cons ku kus)
  obtain k u where "ku = (k, u)" by force
  with Cons.prems obtain d1 where "put k u d = Inr d1" "put_each put kus d1 = Inr d'" "j \<noteq> k"
    by (auto simp: bind_res_Inr)
  with Cons show ?case by (auto simp: get_put_other)
qed simp

lemma get_put_each:
  "put_each put kus d = Inr d' \<Longrightarrow> distinct (map fst kus) \<Longrightarrow> (k, u) \<in> set kus \<Longrightarrow>
   get d' k = map_option (app u) (get d k)"
proof (induction kus arbitrary: d)
  case (Cons ku kus)
  obtain k1 u1 where ku: "ku = (k1, u1)" by force
  with Cons.prems obtain d1 where d1: "put k1 u1 d = Inr d1" "put_each put kus d1 = Inr d'"
    by (auto simp: bind_res_Inr)
  show ?case
  proof (cases "(k, u) \<in> set kus")
    case True
    with Cons.prems ku have "k \<noteq> k1" by force
    then show ?thesis using Cons.IH [OF d1(2)] Cons.prems ku True d1(1)
      by (simp add: get_put_other)
  next
    case False
    then have "k = k1" "u = u1" "k \<notin> fst ` set kus" using Cons.prems ku by auto
    then show ?thesis using get_put_each_other [OF d1(2)] d1(1) by (simp add: get_put_same)
  qed
qed simp

end

end
