(* ===== verification/Domain.thy ===== *)
theory Domain
  imports Prelude
begin

text \<open>
  The daemon's shared vocabulary: the enumerations and records of \<open>src/domain/types.ts\<close> and
  the error codes and \<open>ServiceError\<close> of \<open>src/domain/errors.ts\<close>. A thrown JavaScript value is
  a \<open>js_error\<close>: a \<open>ServiceError\<close> with its code, message and details, or any other \<open>Error\<close>,
  of which the daemon only ever reads the message.
\<close>

section \<open>Types (\<open>src/domain/types.ts\<close>)\<close>

datatype backend = Docker | Firecracker

datatype sandbox_kind = Instant | Durable

datatype instance_state =
    I_PROVISIONING | I_READY | I_RUNNING | I_COMMITTING | I_TERMINATING
  | I_TERMINATED | I_FAILED | I_LOST

datatype execution_state =
    X_RUNNING | X_COMPLETED | X_FAILED | X_TIMED_OUT | X_CANCELED | X_LOST

datatype network_profile = Net_none | Net_egress

type_synonym digest = string

definition is_hex :: "char \<Rightarrow> bool" where
  "is_hex c \<longleftrightarrow> c \<in> set ''0123456789abcdef''"

text \<open>\<open>DIGEST_PATTERN = /^sha256:[0-9a-f]{64}$/\<close>.\<close>

definition is_digest :: "string \<Rightarrow> bool" where
  "is_digest s \<longleftrightarrow> starts_with ''sha256:'' s \<and> length s = 71 \<and> list_all is_hex (drop 7 s)"

text \<open>A digest of bytes, where \<open>sha\<close> is \<open>createHash('sha256')\<close> in hexadecimal.\<close>

definition digest_of :: "(string \<Rightarrow> string) \<Rightarrow> string \<Rightarrow> digest" where
  "digest_of sha bytes = ''sha256:'' @ sha bytes"

definition EMPTY_CONTRACT_DIGEST :: digest where
  "EMPTY_CONTRACT_DIGEST =
     ''sha256:51f89ad00a9aa7d89091a52d3b49a5da84067536a9532cd883115d19d15ecbf6''"

record resource_profile =
  memoryMiB :: int
  vcpus :: int
  diskMiB :: int
  pidsMax :: int
  timeoutMs :: int

definition DEFAULT_RESOURCE_PROFILE :: resource_profile where
  "DEFAULT_RESOURCE_PROFILE =
     \<lparr>memoryMiB = 512, vcpus = 1, diskMiB = 1024, pidsMax = 128, timeoutMs = 0\<rparr>"

record workspace_view =
  wv_workspaceId :: string
  wv_ref :: string
  wv_headCommit :: digest

record instance_view =
  iv_instantId :: string
  iv_kind :: sandbox_kind
  iv_backend :: backend
  iv_nodeId :: string
  iv_state :: instance_state
  iv_baseCommit :: digest
  iv_workspaceId :: "string option"
  iv_network :: network_profile
  iv_resourceProfile :: resource_profile

section \<open>Errors (\<open>src/domain/errors.ts\<close>)\<close>

datatype error_code =
    INVALID_ARGUMENT | AUTH_REQUIRED | FORBIDDEN | NOT_FOUND | INSTANCE_BUSY | HEAD_CONFLICT
  | THREAD_BUSY | TURN_CLOSED | SNAPSHOT_LIMIT | SNAPSHOT_UNSUPPORTED_ENTRY | BACKEND_ERROR
  | BACKEND_UNAVAILABLE | EXECUTION_TIMED_OUT | STORAGE_EXHAUSTED | SESSION_CAPACITY
  | SESSION_STDIN_CLOSED

fun statusByCode :: "error_code \<Rightarrow> nat" where
  "statusByCode INVALID_ARGUMENT = 400"
| "statusByCode AUTH_REQUIRED = 401"
| "statusByCode FORBIDDEN = 403"
| "statusByCode NOT_FOUND = 404"
| "statusByCode INSTANCE_BUSY = 409"
| "statusByCode HEAD_CONFLICT = 409"
| "statusByCode THREAD_BUSY = 409"
| "statusByCode TURN_CLOSED = 409"
| "statusByCode SNAPSHOT_LIMIT = 413"
| "statusByCode SNAPSHOT_UNSUPPORTED_ENTRY = 422"
| "statusByCode BACKEND_ERROR = 500"
| "statusByCode BACKEND_UNAVAILABLE = 500"
| "statusByCode EXECUTION_TIMED_OUT = 504"
| "statusByCode STORAGE_EXHAUSTED = 507"
| "statusByCode SESSION_CAPACITY = 409"
| "statusByCode SESSION_STDIN_CLOSED = 409"

text \<open>
  The \<open>details\<close> the daemon attaches: the commit a conflicting publication captured with the
  head it met, the current digest of an edited file, and the issue list of a failed validation.
\<close>

datatype error_details =
    CommitConflict digest "digest option"
  | StaleDigest "digest option"
  | ValidationIssues

datatype js_error =
    ServiceError error_code string "error_details option"
  | PlainError string

type_synonym 'a res = "js_error + 'a"

abbreviation service_err :: "error_code \<Rightarrow> string \<Rightarrow> js_error" where
  "service_err c m \<equiv> ServiceError c m None"

text \<open>\<open>error instanceof Error ? error.message : String(error)\<close>.\<close>

fun error_message :: "js_error \<Rightarrow> string" where
  "error_message (ServiceError c m d) = m"
| "error_message (PlainError m) = m"

fun error_status :: "js_error \<Rightarrow> nat" where
  "error_status (ServiceError c m d) = statusByCode c"
| "error_status (PlainError m) = 500"

text \<open>An error as the \<open>errorJson\<close> columns store it.\<close>

record stored_error =
  se_code :: error_code
  se_message :: string
  se_details :: "error_details option"

lemma is_digest_nonempty: "is_digest s \<Longrightarrow> s \<noteq> ''''"
  by (auto simp: is_digest_def)

lemma is_digest_drop: "is_digest s \<Longrightarrow> s = ''sha256:'' @ drop 7 s"
  by (auto simp: is_digest_def starts_with_iff)

lemma statusByCode_is_error: "400 \<le> statusByCode c \<and> statusByCode c < 600"
  by (cases c) auto

end
