(* ===== verification/Schema.thy ===== *)
theory Schema
  imports Domain
begin

text \<open>
  The SQLite tables of \<open>src/storage/schema.ts\<close>: one record per row, the database as a record
  of row lists, and the constraints the schema declares (primary keys, unique indexes, foreign
  keys, the digest check on commits), as the predicate \<open>db_ok\<close> and as the tests an insert or
  update makes before it succeeds.

  JSON columns hold structured values here: the daemon writes them with \<open>JSON.stringify\<close> and
  reads them back with \<open>JSON.parse\<close>, and compares \<open>request_json\<close> only with another text built
  with the same key order. The audit columns \<open>updated_at\<close>, \<open>lease_expires_at\<close> and the
  \<open>created_at\<close> defaults, which no code reads, and the tables \<open>sessions\<close>, \<open>executions\<close> and
  \<open>execution_chunks\<close>, which no code uses, are left out.
\<close>

section \<open>Rows\<close>

datatype turn_state = T_STARTING | T_OPEN | T_FINISHING | T_FINISHED | T_FAILED

datatype operation_status = O_RUNNING | O_SUCCEEDED | O_FAILED

record backend_handle =
  h_backend :: backend
  h_instanceId :: string
  h_opaqueId :: string
  h_workspacePath :: string

record thread_workspace_row =
  tw_threadId :: string
  tw_workspaceId :: string

record commit_row =
  c_id :: digest
  c_treeDigest :: digest
  c_contractDigest :: digest
  c_parentId :: "digest option"

record ref_row =
  rf_workspaceId :: string
  rf_name :: string
  rf_headCommit :: digest

record tree_row =
  tr_digest :: digest
  tr_path :: string
  tr_sizeBytes :: int

record instance_row =
  i_id :: string
  i_kind :: sandbox_kind
  i_backend :: backend
  i_state :: instance_state
  i_workspaceId :: "string option"
  i_baseCommit :: digest
  i_backendHandle :: "backend_handle option"
  i_workspacePath :: string
  i_resourceProfile :: resource_profile
  i_network :: network_profile
  i_lastError :: "string option"

record turn_request =
  q_mode :: sandbox_kind
  q_backend :: "backend option"
  q_network :: "network_profile option"
  q_resourceProfile :: "resource_profile option"

text \<open>The result object in \<open>result_json\<close>; \<open>None\<close> is an absent member.\<close>

record turn_result =
  r_threadId :: "string option"
  r_turnId :: "string option"
  r_mode :: "sandbox_kind option"
  r_state :: "turn_state option"
  r_instanceId :: "string option"
  r_workspaceId :: "string option"
  r_headCommit :: "digest option"
  r_commitId :: "digest option"
  r_treeDigest :: "digest option"
  r_ref :: "string option"
  r_cleanupError :: "string option"

definition empty_result :: turn_result where
  "empty_result = \<lparr>r_threadId = None, r_turnId = None, r_mode = None, r_state = None,
     r_instanceId = None, r_workspaceId = None, r_headCommit = None, r_commitId = None,
     r_treeDigest = None, r_ref = None, r_cleanupError = None\<rparr>"

record turn_row =
  t_threadId :: string
  t_turnId :: string
  t_mode :: sandbox_kind
  t_state :: turn_state
  t_instanceId :: "string option"
  t_workspaceId :: "string option"
  t_expectedHead :: "digest option"
  t_requestJson :: turn_request
  t_resultJson :: "turn_result option"
  t_errorJson :: "stored_error option"
  t_createdAt :: int
  t_finishedAt :: "int option"

record operation_row =
  o_id :: string
  o_kind :: string
  o_clientRequestId :: string
  o_status :: operation_status
  o_responseJson :: "turn_result option"
  o_errorJson :: "stored_error option"

record artifact_metadata =
  m_mediaType :: "string option"
  m_filename :: "string option"

record artifact_row =
  a_digest :: digest
  a_kind :: string
  a_path :: string
  a_sizeBytes :: int
  a_metadata :: artifact_metadata

record grant_row =
  g_threadId :: string
  g_digest :: digest

record db =
  db_workspaces :: "string list"
  db_threadWorkspaces :: "thread_workspace_row list"
  db_commits :: "commit_row list"
  db_refs :: "ref_row list"
  db_treeObjects :: "tree_row list"
  db_instances :: "instance_row list"
  db_turns :: "turn_row list"
  db_operations :: "operation_row list"
  db_artifacts :: "artifact_row list"
  db_grants :: "grant_row list"

definition empty_db :: db where
  "empty_db = \<lparr>db_workspaces = [], db_threadWorkspaces = [], db_commits = [], db_refs = [],
     db_treeObjects = [], db_instances = [], db_turns = [], db_operations = [],
     db_artifacts = [], db_grants = []\<rparr>"

text \<open>Composite primary keys. Turn keys are ordered as \<open>listTurns\<close> orders its rows, by thread
  and then by turn (SQLite's binary collation compares the UTF-8 bytes).\<close>

datatype turn_key = TurnKey (tk_thread: string) (tk_turn: string)

instantiation turn_key :: linorder
begin

definition less_eq_turn_key :: "turn_key \<Rightarrow> turn_key \<Rightarrow> bool" where
  "less_eq_turn_key a b \<longleftrightarrow> (tk_thread a, tk_turn a) \<le> (tk_thread b, tk_turn b)"

definition less_turn_key :: "turn_key \<Rightarrow> turn_key \<Rightarrow> bool" where
  "less_turn_key a b \<longleftrightarrow> (tk_thread a, tk_turn a) < (tk_thread b, tk_turn b)"

instance
proof
  fix x y z :: turn_key
  show "(x < y) = (x \<le> y \<and> \<not> y \<le> x)"
    unfolding less_eq_turn_key_def less_turn_key_def by (rule less_le_not_le)
  show "x \<le> x" unfolding less_eq_turn_key_def by (rule order_refl)
  show "x \<le> y \<Longrightarrow> y \<le> z \<Longrightarrow> x \<le> z"
    unfolding less_eq_turn_key_def by (rule order_trans)
  show "x \<le> y \<Longrightarrow> y \<le> x \<Longrightarrow> x = y"
    unfolding less_eq_turn_key_def by (cases x; cases y) (auto simp: dest: order_antisym)
  show "x \<le> y \<or> y \<le> x" unfolding less_eq_turn_key_def by (rule linear)
qed

end

definition turn_key :: "turn_row \<Rightarrow> turn_key" where
  "turn_key r = TurnKey (t_threadId r) (t_turnId r)"

definition ref_key :: "ref_row \<Rightarrow> string \<times> string" where
  "ref_key r = (rf_workspaceId r, rf_name r)"

definition grant_key :: "grant_row \<Rightarrow> string \<times> digest" where
  "grant_key g = (g_threadId g, g_digest g)"

definition operation_key :: "operation_row \<Rightarrow> string \<times> string" where
  "operation_key r = (o_kind r, o_clientRequestId r)"

section \<open>Constraints\<close>

text \<open>The states of the partial unique index \<open>turns_open_thread_unique\<close>.\<close>

definition active_state :: "turn_state \<Rightarrow> bool" where
  "active_state s \<longleftrightarrow> s \<in> {T_STARTING, T_OPEN, T_FINISHING}"

text \<open>\<open>commits_id_digest\<close>: \<open>id GLOB 'sha256:[0-9a-f]*' AND length(id) = 71\<close>.\<close>

definition commit_id_check :: "digest \<Rightarrow> bool" where
  "commit_id_check d \<longleftrightarrow>
     starts_with ''sha256:'' d \<and> length d = 71 \<and> is_hex (d ! 7)"

text \<open>The key sets that foreign keys refer to.\<close>

definition commit_ids :: "db \<Rightarrow> digest set" where
  "commit_ids d = c_id ` set (db_commits d)"

definition instance_ids :: "db \<Rightarrow> string set" where
  "instance_ids d = i_id ` set (db_instances d)"

definition commit_exists :: "db \<Rightarrow> digest \<Rightarrow> bool" where
  "commit_exists d c \<longleftrightarrow> c \<in> commit_ids d"

definition workspace_exists :: "db \<Rightarrow> string \<Rightarrow> bool" where
  "workspace_exists d w \<longleftrightarrow> w \<in> set (db_workspaces d)"

definition instance_exists :: "db \<Rightarrow> string \<Rightarrow> bool" where
  "instance_exists d i \<longleftrightarrow> i \<in> instance_ids d"

definition turn_fks_ok :: "db \<Rightarrow> turn_row \<Rightarrow> bool" where
  "turn_fks_ok d r \<longleftrightarrow>
     pred_option (instance_exists d) (t_instanceId r) \<and>
     pred_option (workspace_exists d) (t_workspaceId r) \<and>
     pred_option (commit_exists d) (t_expectedHead r)"

definition instance_fks_ok :: "db \<Rightarrow> instance_row \<Rightarrow> bool" where
  "instance_fks_ok d r \<longleftrightarrow>
     pred_option (workspace_exists d) (i_workspaceId r) \<and> commit_exists d (i_baseCommit r)"

text \<open>
  The schema's constraints, table by table. The key sets a table's foreign keys refer to are
  arguments, so that a write to one table leaves the conditions of the others as they are.
\<close>

definition thread_workspaces_ok :: "string set \<Rightarrow> thread_workspace_row list \<Rightarrow> bool" where
  "thread_workspaces_ok W rows \<longleftrightarrow>
     distinct (map tw_threadId rows) \<and> distinct (map tw_workspaceId rows) \<and>
     tw_workspaceId ` set rows \<subseteq> W"

definition commits_ok :: "commit_row list \<Rightarrow> bool" where
  "commits_ok rows \<longleftrightarrow>
     distinct (map c_id rows) \<and>
     (\<forall>c\<in>set rows. commit_id_check (c_id c) \<and> set_option (c_parentId c) \<subseteq> c_id ` set rows)"

definition refs_ok :: "string set \<Rightarrow> digest set \<Rightarrow> ref_row list \<Rightarrow> bool" where
  "refs_ok W C rows \<longleftrightarrow>
     distinct (map ref_key rows) \<and> rf_workspaceId ` set rows \<subseteq> W \<and> rf_headCommit ` set rows \<subseteq> C"

definition trees_ok :: "tree_row list \<Rightarrow> bool" where
  "trees_ok rows \<longleftrightarrow> distinct (map tr_digest rows)"

definition instances_ok :: "string set \<Rightarrow> digest set \<Rightarrow> instance_row list \<Rightarrow> bool" where
  "instances_ok W C rows \<longleftrightarrow>
     distinct (map i_id rows) \<and> (\<forall>r\<in>set rows. set_option (i_workspaceId r) \<subseteq> W) \<and>
     i_baseCommit ` set rows \<subseteq> C"

definition one_active_turn :: "turn_row list \<Rightarrow> bool" where
  "one_active_turn rows \<longleftrightarrow>
     distinct (map t_threadId (filter (\<lambda>r. active_state (t_state r)) rows))"

definition turns_ok :: "string set \<Rightarrow> digest set \<Rightarrow> string set \<Rightarrow> turn_row list \<Rightarrow> bool" where
  "turns_ok W C I rows \<longleftrightarrow>
     distinct (map turn_key rows) \<and> one_active_turn rows \<and>
     (\<forall>r\<in>set rows. set_option (t_instanceId r) \<subseteq> I \<and> set_option (t_workspaceId r) \<subseteq> W \<and>
        set_option (t_expectedHead r) \<subseteq> C)"

definition operations_ok :: "operation_row list \<Rightarrow> bool" where
  "operations_ok rows \<longleftrightarrow> distinct (map o_id rows) \<and> distinct (map operation_key rows)"

definition artifacts_ok :: "artifact_row list \<Rightarrow> grant_row list \<Rightarrow> bool" where
  "artifacts_ok rows grants \<longleftrightarrow>
     distinct (map a_digest rows) \<and> distinct (map grant_key grants) \<and>
     g_digest ` set grants \<subseteq> a_digest ` set rows"

definition db_ok :: "db \<Rightarrow> bool" where
  "db_ok d \<longleftrightarrow>
     distinct (db_workspaces d) \<and>
     thread_workspaces_ok (set (db_workspaces d)) (db_threadWorkspaces d) \<and>
     commits_ok (db_commits d) \<and>
     refs_ok (set (db_workspaces d)) (commit_ids d) (db_refs d) \<and>
     trees_ok (db_treeObjects d) \<and>
     instances_ok (set (db_workspaces d)) (commit_ids d) (db_instances d) \<and>
     turns_ok (set (db_workspaces d)) (commit_ids d) (instance_ids d) (db_turns d) \<and>
     operations_ok (db_operations d) \<and>
     artifacts_ok (db_artifacts d) (db_grants d)"

lemmas exists_defs = commit_exists_def workspace_exists_def instance_exists_def
lemmas fk_defs = turn_fks_ok_def instance_fks_ok_def

lemma db_ok_empty: "db_ok empty_db"
  by (simp add: db_ok_def thread_workspaces_ok_def commits_ok_def refs_ok_def trees_ok_def
      instances_ok_def one_active_turn_def turns_ok_def operations_ok_def artifacts_ok_def
      empty_db_def commit_ids_def instance_ids_def)

lemma commit_ids_frames [simp]:
  "commit_ids (d\<lparr>db_turns := ts\<rparr>) = commit_ids d"
  "commit_ids (d\<lparr>db_instances := is\<rparr>) = commit_ids d"
  "commit_ids (d\<lparr>db_operations := os\<rparr>) = commit_ids d"
  "commit_ids (d\<lparr>db_refs := rs\<rparr>) = commit_ids d"
  "commit_ids (d\<lparr>db_workspaces := ws\<rparr>) = commit_ids d"
  "commit_ids (d\<lparr>db_threadWorkspaces := tws\<rparr>) = commit_ids d"
  "commit_ids (d\<lparr>db_treeObjects := tos\<rparr>) = commit_ids d"
  "commit_ids (d\<lparr>db_artifacts := as\<rparr>) = commit_ids d"
  "commit_ids (d\<lparr>db_grants := gs\<rparr>) = commit_ids d"
  by (simp_all add: commit_ids_def)

lemma instance_ids_frames [simp]:
  "instance_ids (d\<lparr>db_turns := ts\<rparr>) = instance_ids d"
  "instance_ids (d\<lparr>db_operations := os\<rparr>) = instance_ids d"
  "instance_ids (d\<lparr>db_refs := rs\<rparr>) = instance_ids d"
  "instance_ids (d\<lparr>db_commits := cs\<rparr>) = instance_ids d"
  "instance_ids (d\<lparr>db_workspaces := ws\<rparr>) = instance_ids d"
  "instance_ids (d\<lparr>db_threadWorkspaces := tws\<rparr>) = instance_ids d"
  "instance_ids (d\<lparr>db_treeObjects := tos\<rparr>) = instance_ids d"
  "instance_ids (d\<lparr>db_artifacts := as\<rparr>) = instance_ids d"
  "instance_ids (d\<lparr>db_grants := gs\<rparr>) = instance_ids d"
  by (simp_all add: instance_ids_def)

text \<open>What SQLite throws when a constraint fails.\<close>

definition unique_failed :: "string \<Rightarrow> js_error" where
  "unique_failed what = PlainError (''UNIQUE constraint failed: '' @ what)"

definition check_failed :: "string \<Rightarrow> js_error" where
  "check_failed what = PlainError (''CHECK constraint failed: '' @ what)"

definition fk_failed :: js_error where
  "fk_failed = PlainError ''FOREIGN KEY constraint failed''"

end
