(* ===== verification/Repository.thy ===== *)
theory Repository
  imports Schema
begin

text \<open>
  The methods of the class \<open>Repository\<close> (\<open>src/storage/repository.ts\<close>), each one SQL statement
  or transaction over the database record of \<open>Schema\<close>. A method that reads is a function of
  the database; one that writes returns \<open>Inl\<close> what SQLite or the method throws, with the
  database unchanged (the statement or transaction rolls back), or \<open>Inr\<close> the new database.
  The lemmas show what each write does to every table and that it keeps \<open>db_ok\<close>.
\<close>

section \<open>Operations table\<close>

definition getOperation :: "db \<Rightarrow> string \<Rightarrow> string \<Rightarrow> turn_result option res" where
  "getOperation d kind clientRequestId =
     (case select1 (\<lambda>o'. o_kind o' = kind \<and> o_clientRequestId o' = clientRequestId)
        (db_operations d) of
        None \<Rightarrow> Inr None
      | Some row \<Rightarrow>
          (case (o_status row, o_responseJson row, o_errorJson row) of
             (O_SUCCEEDED, Some response, _) \<Rightarrow> Inr (Some response)
           | (O_FAILED, _, Some e) \<Rightarrow> Inl (ServiceError (se_code e) (se_message e) (se_details e))
           | _ \<Rightarrow> Inl (service_err INSTANCE_BUSY ''Operation is already in progress'')))"

text \<open>The normalisation shared by \<open>failOperation\<close> and the turn service's \<open>serializeError\<close>.\<close>

fun stored_of :: "js_error \<Rightarrow> stored_error" where
  "stored_of (ServiceError c m det) = \<lparr>se_code = c, se_message = m, se_details = det\<rparr>"
| "stored_of (PlainError m) = \<lparr>se_code = BACKEND_ERROR, se_message = m, se_details = None\<rparr>"

definition failOperation :: "string \<Rightarrow> js_error \<Rightarrow> db \<Rightarrow> db" where
  "failOperation opId e d = d\<lparr>db_operations :=
     update_where (\<lambda>r. o_id r = opId)
       (\<lambda>r. r\<lparr>o_status := O_FAILED, o_errorJson := Some (stored_of e)\<rparr>) (db_operations d)\<rparr>"

definition beginHarnessOperation :: "string \<Rightarrow> string \<Rightarrow> string \<Rightarrow> db \<Rightarrow> db res" where
  "beginHarnessOperation opId kind clientRequestId d =
     (if opId \<in> o_id ` set (db_operations d) then Inl (unique_failed ''operations.id'')
      else if (kind, clientRequestId) \<in> operation_key ` set (db_operations d)
      then Inl (unique_failed ''operations.operation_kind, operations.client_request_id'')
      else Inr (d\<lparr>db_operations := db_operations d @
        [\<lparr>o_id = opId, o_kind = kind, o_clientRequestId = clientRequestId, o_status = O_RUNNING,
          o_responseJson = None, o_errorJson = None\<rparr>]\<rparr>))"

definition deleteRunningOperations :: "db \<Rightarrow> db" where
  "deleteRunningOperations d = d\<lparr>db_operations :=
     delete_where (\<lambda>r. o_status r = O_RUNNING) (db_operations d)\<rparr>"

section \<open>Commits and trees\<close>

text \<open>\<open>insert(commits).onConflictDoNothing()\<close>: the check constraint still applies, and the
  parent must exist (a row may be its own parent).\<close>

definition insert_commit :: "commit_row \<Rightarrow> db \<Rightarrow> db res" where
  "insert_commit row d =
     (if \<not> commit_id_check (c_id row) then Inl (check_failed ''commits_id_digest'')
      else if commit_exists d (c_id row) then Inr d
      else if \<not> pred_option (\<lambda>p. commit_exists d p \<or> p = c_id row) (c_parentId row)
      then Inl fk_failed
      else Inr (d\<lparr>db_commits := db_commits d @ [row]\<rparr>))"

definition putCommit :: "digest \<Rightarrow> digest \<Rightarrow> digest \<Rightarrow> digest option \<Rightarrow> db \<Rightarrow> db res" where
  "putCommit cid treeDigest contractDigest parentId =
     insert_commit \<lparr>c_id = cid, c_treeDigest = treeDigest, c_contractDigest = contractDigest,
       c_parentId = parentId\<rparr>"

definition putTreeObject :: "tree_row \<Rightarrow> db \<Rightarrow> db" where
  "putTreeObject row d =
     (if tr_digest row \<in> tr_digest ` set (db_treeObjects d) then d
      else d\<lparr>db_treeObjects := db_treeObjects d @ [row]\<rparr>)"

definition getCommit :: "db \<Rightarrow> digest \<Rightarrow> commit_row option" where
  "getCommit d cid = select1 (\<lambda>c. c_id c = cid) (db_commits d)"

definition getTreeObject :: "db \<Rightarrow> digest \<Rightarrow> tree_row option" where
  "getTreeObject d dig = select1 (\<lambda>t. tr_digest t = dig) (db_treeObjects d)"

definition listCommits :: "db \<Rightarrow> commit_row list" where
  "listCommits d = db_commits d"

definition listTreeObjects :: "db \<Rightarrow> tree_row list" where
  "listTreeObjects d = db_treeObjects d"

definition deleteTreeObject :: "digest \<Rightarrow> db \<Rightarrow> db" where
  "deleteTreeObject dig d =
     d\<lparr>db_treeObjects := delete_where (\<lambda>t. tr_digest t = dig) (db_treeObjects d)\<rparr>"

text \<open>A commit that a commit, ref, instance or turn still references cannot be deleted.\<close>

definition commit_referenced :: "db \<Rightarrow> digest \<Rightarrow> bool" where
  "commit_referenced d cid \<longleftrightarrow>
     (\<exists>c\<in>set (db_commits d). c_parentId c = Some cid \<and> c_id c \<noteq> cid) \<or>
     (\<exists>r\<in>set (db_refs d). rf_headCommit r = cid) \<or>
     (\<exists>i\<in>set (db_instances d). i_baseCommit i = cid) \<or>
     (\<exists>t\<in>set (db_turns d). t_expectedHead t = Some cid)"

definition deleteCommit :: "digest \<Rightarrow> db \<Rightarrow> db res" where
  "deleteCommit cid d =
     (if commit_exists d cid \<and> commit_referenced d cid then Inl fk_failed
      else Inr (d\<lparr>db_commits := delete_where (\<lambda>c. c_id c = cid) (db_commits d)\<rparr>))"

section \<open>Workspaces and refs\<close>

definition loadWorkspaceRefs :: "db \<Rightarrow> string \<Rightarrow> (string \<times> ref_row list) option" where
  "loadWorkspaceRefs d wid =
     (if workspace_exists d wid
      then Some (wid, select_all (\<lambda>r. rf_workspaceId r = wid) (db_refs d)) else None)"

definition getRef :: "db \<Rightarrow> string \<Rightarrow> string \<Rightarrow> ref_row option" where
  "getRef d wid name =
     select1 (\<lambda>r. rf_workspaceId r = wid \<and> rf_name r = name) (db_refs d)"

definition getThreadWorkspace :: "db \<Rightarrow> string \<Rightarrow> thread_workspace_row option" where
  "getThreadWorkspace d tid = select1 (\<lambda>r. tw_threadId r = tid) (db_threadWorkspaces d)"

definition insert_workspace :: "string \<Rightarrow> db \<Rightarrow> db res" where
  "insert_workspace wid d =
     (if workspace_exists d wid then Inl (unique_failed ''workspaces.id'')
      else Inr (d\<lparr>db_workspaces := db_workspaces d @ [wid]\<rparr>))"

definition insert_ref :: "ref_row \<Rightarrow> db \<Rightarrow> db res" where
  "insert_ref row d =
     (if ref_key row \<in> ref_key ` set (db_refs d)
      then Inl (unique_failed ''refs.workspace_id, refs.name'')
      else if \<not> (workspace_exists d (rf_workspaceId row) \<and> commit_exists d (rf_headCommit row))
      then Inl fk_failed
      else Inr (d\<lparr>db_refs := db_refs d @ [row]\<rparr>))"

definition insert_thread_workspace :: "thread_workspace_row \<Rightarrow> db \<Rightarrow> db res" where
  "insert_thread_workspace row d =
     (if tw_threadId row \<in> tw_threadId ` set (db_threadWorkspaces d)
      then Inl (unique_failed ''thread_workspaces.thread_id'')
      else if tw_workspaceId row \<in> tw_workspaceId ` set (db_threadWorkspaces d)
      then Inl (unique_failed ''thread_workspaces.workspace_id'')
      else if \<not> workspace_exists d (tw_workspaceId row) then Inl fk_failed
      else Inr (d\<lparr>db_threadWorkspaces := db_threadWorkspaces d @ [row]\<rparr>))"

definition createThreadWorkspace :: "string \<Rightarrow> string \<Rightarrow> digest \<Rightarrow> db \<Rightarrow> db res" where
  "createThreadWorkspace tid wid headCommit d =
     bind_res (insert_workspace wid d) (\<lambda>d1.
     bind_res (insert_ref \<lparr>rf_workspaceId = wid, rf_name = ''main'', rf_headCommit = headCommit\<rparr> d1)
       (\<lambda>d2. insert_thread_workspace \<lparr>tw_threadId = tid, tw_workspaceId = wid\<rparr> d2))"

definition createThreadFork :: "string \<Rightarrow> string \<Rightarrow> string \<Rightarrow> digest \<Rightarrow> db \<Rightarrow> db res" where
  "createThreadFork sourceWid destTid destWid headCommit d =
     (if \<not> workspace_exists d sourceWid
      then Inl (service_err NOT_FOUND ''Source thread workspace not found'')
      else
        bind_res (insert_workspace destWid d) (\<lambda>d1.
        bind_res (insert_ref
            \<lparr>rf_workspaceId = destWid, rf_name = ''main'', rf_headCommit = headCommit\<rparr> d1) (\<lambda>d2.
        insert_thread_workspace \<lparr>tw_threadId = destTid, tw_workspaceId = destWid\<rparr> d2)))"

text \<open>\<open>commitBelongsToHistory\<close> is modelled in \<open>History\<close>.\<close>

section \<open>Turns\<close>

definition turnRecord :: "turn_row \<Rightarrow> turn_row" where
  "turnRecord row = row\<lparr>t_instanceId := truthy (t_instanceId row),
     t_workspaceId := truthy (t_workspaceId row),
     t_expectedHead := truthy (t_expectedHead row)\<rparr>"

definition getTurn :: "db \<Rightarrow> string \<Rightarrow> string \<Rightarrow> turn_row option" where
  "getTurn d tid uid =
     map_option turnRecord (select1 (\<lambda>r. t_threadId r = tid \<and> t_turnId r = uid) (db_turns d))"

definition getOpenTurn :: "db \<Rightarrow> string \<Rightarrow> turn_row option" where
  "getOpenTurn d tid =
     map_option turnRecord
       (select1 (\<lambda>r. t_threadId r = tid \<and> active_state (t_state r)) (db_turns d))"

definition new_turn_row :: "string \<Rightarrow> string \<Rightarrow> turn_state \<Rightarrow> turn_request \<Rightarrow> int \<Rightarrow> turn_row" where
  "new_turn_row tid uid st req createdAt =
     \<lparr>t_threadId = tid, t_turnId = uid, t_mode = q_mode req, t_state = st, t_instanceId = None,
      t_workspaceId = None, t_expectedHead = None, t_requestJson = req, t_resultJson = None,
      t_errorJson = None, t_createdAt = createdAt, t_finishedAt = None\<rparr>"

definition createTurn :: "turn_row \<Rightarrow> db \<Rightarrow> db res" where
  "createTurn row d =
     (if turn_key row \<in> turn_key ` set (db_turns d)
      then Inl (unique_failed ''turns.thread_id, turns.turn_id'')
      else if active_state (t_state row) \<and>
        (\<exists>r\<in>set (db_turns d). t_threadId r = t_threadId row \<and> active_state (t_state r))
      then Inl (unique_failed ''turns.thread_id'')
      else if \<not> turn_fks_ok d row then Inl fk_failed
      else Inr (d\<lparr>db_turns := db_turns d @ [row]\<rparr>))"

text \<open>The row list of \<open>listTurns(states)\<close>; an empty or absent list of states selects all.\<close>

definition listTurns :: "db \<Rightarrow> turn_state list \<Rightarrow> turn_row list" where
  "listTurns d states =
     map turnRecord (sort_key turn_key
       (if states = [] then db_turns d
        else select_all (\<lambda>r. t_state r \<in> set states) (db_turns d)))"

text \<open>\<open>TurnUpdate\<close>: an outer \<open>None\<close> leaves the column alone, \<open>Some None\<close> sets it to null.\<close>

record turn_update =
  u_state :: "turn_state option"
  u_instanceId :: "string option option"
  u_workspaceId :: "string option option"
  u_expectedHead :: "digest option option"
  u_resultJson :: "turn_result option option"
  u_errorJson :: "stored_error option option"
  u_finishedAt :: "int option option"

definition no_update :: turn_update where
  "no_update = \<lparr>u_state = None, u_instanceId = None, u_workspaceId = None,
     u_expectedHead = None, u_resultJson = None, u_errorJson = None, u_finishedAt = None\<rparr>"

definition set_col :: "'a option \<Rightarrow> 'a \<Rightarrow> 'a" where
  "set_col u old = (case u of None \<Rightarrow> old | Some x \<Rightarrow> x)"

definition apply_update :: "turn_update \<Rightarrow> turn_row \<Rightarrow> turn_row" where
  "apply_update u r = r\<lparr>t_state := set_col (u_state u) (t_state r),
     t_instanceId := set_col (u_instanceId u) (t_instanceId r),
     t_workspaceId := set_col (u_workspaceId u) (t_workspaceId r),
     t_expectedHead := set_col (u_expectedHead u) (t_expectedHead r),
     t_resultJson := set_col (u_resultJson u) (t_resultJson r),
     t_errorJson := set_col (u_errorJson u) (t_errorJson r),
     t_finishedAt := set_col (u_finishedAt u) (t_finishedAt r)\<rparr>"

text \<open>An update of the row with the given primary key, with the partial unique index and the
  foreign keys of the new row tested; without such a row it does nothing.\<close>

definition updateTurn :: "string \<Rightarrow> string \<Rightarrow> turn_update \<Rightarrow> db \<Rightarrow> db res" where
  "updateTurn tid uid u d =
     (let at = (\<lambda>r. t_threadId r = tid \<and> t_turnId r = uid) in
      case select1 at (db_turns d) of
        None \<Rightarrow> Inr d
      | Some row \<Rightarrow>
          if active_state (t_state (apply_update u row)) \<and>
             (\<exists>r\<in>set (db_turns d). t_threadId r = tid \<and> t_turnId r \<noteq> uid \<and>
                active_state (t_state r))
          then Inl (unique_failed ''turns.thread_id'')
          else if \<not> turn_fks_ok d (apply_update u row) then Inl fk_failed
          else Inr (d\<lparr>db_turns := update_where at (apply_update u) (db_turns d)\<rparr>))"

section \<open>Instances\<close>

definition createInstance :: "instance_row \<Rightarrow> db \<Rightarrow> db res" where
  "createInstance row d =
     (if instance_exists d (i_id row) then Inl (unique_failed ''instances.id'')
      else if \<not> instance_fks_ok d row then Inl fk_failed
      else Inr (d\<lparr>db_instances := db_instances d @ [row]\<rparr>))"

record instance_update =
  v_state :: "instance_state option"
  v_backendHandle :: "backend_handle option option"
  v_lastError :: "string option option"

definition apply_instance_update :: "instance_update \<Rightarrow> instance_row \<Rightarrow> instance_row" where
  "apply_instance_update v r = r\<lparr>i_state := set_col (v_state v) (i_state r),
     i_backendHandle := set_col (v_backendHandle v) (i_backendHandle r),
     i_lastError := set_col (v_lastError v) (i_lastError r)\<rparr>"

definition updateInstance :: "string \<Rightarrow> instance_update \<Rightarrow> db \<Rightarrow> db" where
  "updateInstance iid v d = d\<lparr>db_instances :=
     update_where (\<lambda>r. i_id r = iid) (apply_instance_update v) (db_instances d)\<rparr>"

abbreviation set_state :: "instance_state \<Rightarrow> instance_update" where
  "set_state s \<equiv> \<lparr>v_state = Some s, v_backendHandle = None, v_lastError = None\<rparr>"

definition getInstance :: "db \<Rightarrow> string \<Rightarrow> instance_row option" where
  "getInstance d iid = select1 (\<lambda>r. i_id r = iid) (db_instances d)"

definition listInstances :: "db \<Rightarrow> instance_state list \<Rightarrow> instance_row list" where
  "listInstances d states =
     (if states = [] then db_instances d
      else select_all (\<lambda>r. i_state r \<in> set states) (db_instances d))"

text \<open>The commits that garbage collection starts from.\<close>

definition listGcRoots :: "db \<Rightarrow> digest list" where
  "listGcRoots d = remdups
     (map rf_headCommit (db_refs d) @
      map i_baseCommit (filter (\<lambda>i. i_state i \<notin> {I_TERMINATED, I_FAILED, I_LOST})
        (db_instances d)))"

section \<open>Publishing the commit of a finishing turn\<close>

text \<open>
  One transaction: record the tree and the commit, move the ref from the expected head to the
  new commit, finish the turn, and mark its instance and its operation. A ref that no longer
  points at the expected head rolls everything back and is reported as \<open>False\<close>; a turn that
  is not the finishing turn of this instance, workspace and head rolls back with an error.
\<close>

record publish_input =
  p_operationId :: string
  p_threadId :: string
  p_turnId :: string
  p_instanceId :: string
  p_workspaceId :: string
  p_ref :: string
  p_expectedHead :: digest
  p_tree :: tree_row
  p_commitId :: digest
  p_contractDigest :: digest
  p_parentId :: digest
  p_response :: turn_result
  p_now :: int

definition ref_matches :: "publish_input \<Rightarrow> ref_row \<Rightarrow> bool" where
  "ref_matches p r \<longleftrightarrow> rf_workspaceId r = p_workspaceId p \<and> rf_name r = p_ref p \<and>
     rf_headCommit r = p_expectedHead p"

definition turn_matches :: "publish_input \<Rightarrow> turn_row \<Rightarrow> bool" where
  "turn_matches p t \<longleftrightarrow> t_threadId t = p_threadId p \<and> t_turnId t = p_turnId p \<and>
     t_state t = T_FINISHING \<and> t_instanceId t = Some (p_instanceId p) \<and>
     t_workspaceId t = Some (p_workspaceId p) \<and> t_expectedHead t = Some (p_expectedHead p)"

definition finish_row :: "publish_input \<Rightarrow> turn_row \<Rightarrow> turn_row" where
  "finish_row p t = t\<lparr>t_state := T_FINISHED, t_resultJson := Some (p_response p),
     t_errorJson := None, t_finishedAt := Some (p_now p)\<rparr>"

definition publishTurnCommit :: "publish_input \<Rightarrow> db \<Rightarrow> (bool \<times> db) res" where
  "publishTurnCommit p d =
     bind_res (insert_commit
        \<lparr>c_id = p_commitId p, c_treeDigest = tr_digest (p_tree p),
         c_contractDigest = p_contractDigest p, c_parentId = Some (p_parentId p)\<rparr>
        (putTreeObject (p_tree p) d)) (\<lambda>d1.
     if select1 (ref_matches p) (db_refs d1) = None then Inr (False, d)
     else if select1 (turn_matches p) (db_turns d1) = None
     then Inl (service_err TURN_CLOSED ''Turn is not finishing'')
     else Inr (True, d1\<lparr>
       db_refs := update_where (ref_matches p) (\<lambda>r. r\<lparr>rf_headCommit := p_commitId p\<rparr>) (db_refs d1),
       db_turns := update_where (turn_matches p) (finish_row p) (db_turns d1),
       db_instances := update_where (\<lambda>i. i_id i = p_instanceId p)
         (\<lambda>i. i\<lparr>i_state := I_READY\<rparr>) (db_instances d1),
       db_operations := update_where (\<lambda>r. o_id r = p_operationId p)
         (\<lambda>r. r\<lparr>o_status := O_SUCCEEDED, o_responseJson := Some (p_response p)\<rparr>)
         (db_operations d1)\<rparr>))"

section \<open>Artifacts\<close>

definition putArtifactAndGrant ::
    "string \<Rightarrow> digest \<Rightarrow> string \<Rightarrow> int \<Rightarrow> artifact_metadata \<Rightarrow> db \<Rightarrow> db" where
  "putArtifactAndGrant tid dig path sizeBytes meta d =
     (let row = \<lparr>a_digest = dig, a_kind = ''tool'', a_path = path, a_sizeBytes = sizeBytes,
                 a_metadata = meta\<rparr>;
          grant = \<lparr>g_threadId = tid, g_digest = dig\<rparr>;
          d1 = (if dig \<in> a_digest ` set (db_artifacts d) then d
                else d\<lparr>db_artifacts := db_artifacts d @ [row]\<rparr>)
      in if grant_key grant \<in> grant_key ` set (db_grants d1) then d1
         else d1\<lparr>db_grants := db_grants d1 @ [grant]\<rparr>)"

text \<open>The inner join of grants and artifacts on the digest.\<close>

definition getGrantedArtifact :: "db \<Rightarrow> string \<Rightarrow> digest \<Rightarrow> artifact_row option" where
  "getGrantedArtifact d tid dig =
     (case select1 (\<lambda>g. g_threadId g = tid \<and> g_digest g = dig) (db_grants d) of
        None \<Rightarrow> None
      | Some g \<Rightarrow> select1 (\<lambda>a. a_digest a = g_digest g \<and> a_kind a = ''tool'') (db_artifacts d))"

end
