(* ===== verification/Repository_Inv.thy ===== *)
theory Repository_Inv
  imports Repository
begin

text \<open>
  Every write of the repository keeps the schema's constraints (\<open>db_ok\<close>). The proofs go table
  by table: a lemma for what an appended, updated or deleted row does to the conditions of its
  table, then one line per repository method.
\<close>

section \<open>Rows added, changed and removed\<close>

lemma pred_option_set: "pred_option P x \<longleftrightarrow> (\<forall>y\<in>set_option x. P y)"
  by (cases x) auto

lemma one_active_append [table_simps]:
  "one_active_turn (rows @ [r]) \<longleftrightarrow> one_active_turn rows \<and>
     (active_state (t_state r) \<longrightarrow>
       (\<forall>r'\<in>set rows. t_threadId r' = t_threadId r \<longrightarrow> \<not> active_state (t_state r')))"
  by (auto simp: one_active_turn_def image_iff)

lemma one_active_Cons:
  "one_active_turn (r # rows) \<longleftrightarrow> one_active_turn rows \<and>
     (active_state (t_state r) \<longrightarrow>
       (\<forall>r'\<in>set rows. t_threadId r' = t_threadId r \<longrightarrow> \<not> active_state (t_state r')))"
  by (auto simp: one_active_turn_def image_iff)

lemma one_active_unique:
  assumes "one_active_turn rows" "r \<in> set rows" "r' \<in> set rows" "t_threadId r = t_threadId r'"
    "active_state (t_state r)" "active_state (t_state r')"
  shows "r = r'"
proof (rule distinct_keyD)
  show "distinct (map t_threadId (filter (\<lambda>r. active_state (t_state r)) rows))"
    using assms(1) by (simp only: one_active_turn_def)
  show "r \<in> set (filter (\<lambda>r. active_state (t_state r)) rows)" using assms(2,5) by simp
  show "r' \<in> set (filter (\<lambda>r. active_state (t_state r)) rows)" using assms(3,6) by simp
qed (rule assms(4))

text \<open>A write that activates no further turn keeps the partial unique index.\<close>

lemma one_active_map:
  assumes "one_active_turn rows"
    and "\<And>r. r \<in> set rows \<Longrightarrow> t_threadId (f r) = t_threadId r"
    and "\<And>r. r \<in> set rows \<Longrightarrow> active_state (t_state (f r)) \<Longrightarrow> active_state (t_state r)"
  shows "one_active_turn (map f rows)"
  using assms
proof (induction rows)
  case (Cons a rows)
  have IH: "one_active_turn (map f rows)"
  proof (rule Cons.IH)
    show "one_active_turn rows" using Cons.prems(1) by (simp add: one_active_Cons)
    show "t_threadId (f r) = t_threadId r" if "r \<in> set rows" for r
      using Cons.prems(2) that by (meson list.set_intros(2))
    show "active_state (t_state r)" if "r \<in> set rows" "active_state (t_state (f r))" for r
      using Cons.prems(3) that by (meson list.set_intros(2))
  qed
  have "\<not> active_state (t_state (f r))"
    if "active_state (t_state (f a))" "r \<in> set rows" "t_threadId (f r) = t_threadId (f a)" for r
  proof -
    have "active_state (t_state a)" using Cons.prems(3) that(1) by simp
    moreover have "t_threadId r = t_threadId a"
      using that(3) Cons.prems(2) [of r] Cons.prems(2) [of a] that(2) by simp
    ultimately have "\<not> active_state (t_state r)"
      using Cons.prems(1) that(2) by (simp add: one_active_Cons)
    then show ?thesis using Cons.prems(3) [of r] that(2) by (meson list.set_intros(2))
  qed
  then show ?case using IH by (simp add: one_active_Cons)
qed simp

lemma one_active_update_other:
  assumes "one_active_turn rows" "distinct (map turn_key rows)" "r0 \<in> set rows"
    and "\<And>r. P r \<longleftrightarrow> turn_key r = turn_key r0"
    and "\<And>r. t_threadId (f r) = t_threadId r"
    and "\<forall>r\<in>set rows. t_threadId r = t_threadId r0 \<and> \<not> P r \<longrightarrow> \<not> active_state (t_state r)"
  shows "one_active_turn (update_where P f rows)"
  using assms
proof (induction rows)
  case (Cons a rows)
  show ?case
  proof (cases "r0 = a")
    case True
    then have rest: "\<And>r. r \<in> set rows \<Longrightarrow> \<not> P r"
      using Cons.prems(2,4) by (force simp: image_iff)
    then have "update_where P f rows = rows" by (rule update_where_id)
    moreover have "one_active_turn rows" using Cons.prems(1) by (simp add: one_active_Cons)
    moreover have "\<forall>r\<in>set rows. t_threadId r = t_threadId a \<longrightarrow> \<not> active_state (t_state r)"
      using Cons.prems(6) rest True by auto
    ultimately show ?thesis using Cons.prems(5) by (simp add: one_active_Cons)
  next
    case False
    then have "r0 \<in> set rows" using Cons.prems(3) by simp
    then have na: "\<not> P a" using Cons.prems(2,4) by (force simp: image_iff)
    have IH: "one_active_turn (update_where P f rows)"
    proof (rule Cons.IH)
      show "one_active_turn rows" using Cons.prems(1) by (simp add: one_active_Cons)
      show "distinct (map turn_key rows)" using Cons.prems(2) by simp
      show "\<forall>r\<in>set rows. t_threadId r = t_threadId r0 \<and> \<not> P r \<longrightarrow> \<not> active_state (t_state r)"
        using Cons.prems(6) by simp
    qed (rule \<open>r0 \<in> set rows\<close> Cons.prems(4,5))+
    have "active_state (t_state a) \<Longrightarrow> t_threadId a \<noteq> t_threadId r0"
      using Cons.prems(6) na by auto
    moreover have "P r \<Longrightarrow> t_threadId r = t_threadId r0" for r
      using Cons.prems(4) by (simp add: turn_key_def)
    ultimately show ?thesis
      using IH na Cons.prems(1,5) by (auto simp: one_active_Cons update_where_mem)
  qed
qed simp

lemma turns_ok_mono:
  "turns_ok W C I rows \<Longrightarrow> W \<subseteq> W' \<Longrightarrow> C \<subseteq> C' \<Longrightarrow> I \<subseteq> I' \<Longrightarrow> turns_ok W' C' I' rows"
  by (simp add: turns_ok_def) blast

lemma instances_ok_mono:
  "instances_ok W C rows \<Longrightarrow> W \<subseteq> W' \<Longrightarrow> C \<subseteq> C' \<Longrightarrow> instances_ok W' C' rows"
  by (simp add: instances_ok_def) blast

lemma refs_ok_mono: "refs_ok W C rows \<Longrightarrow> W \<subseteq> W' \<Longrightarrow> C \<subseteq> C' \<Longrightarrow> refs_ok W' C' rows"
  by (simp add: refs_ok_def) blast

lemma thread_workspaces_ok_mono:
  "thread_workspaces_ok W rows \<Longrightarrow> W \<subseteq> W' \<Longrightarrow> thread_workspaces_ok W' rows"
  by (simp add: thread_workspaces_ok_def) blast

lemma instances_ok_update:
  assumes "instances_ok W C rows"
    and "\<And>r. i_id (f r) = i_id r" "\<And>r. i_workspaceId (f r) = i_workspaceId r"
    and "\<And>r. i_baseCommit (f r) = i_baseCommit r"
  shows "instances_ok W C (update_where P f rows)"
  using assms by (auto simp: instances_ok_def table_simps)

lemma instance_ids_update:
  assumes "\<And>r. i_id (f r) = i_id r"
  shows "instance_ids (d\<lparr>db_instances := update_where P f (db_instances d)\<rparr>) = instance_ids d"
proof -
  have "set (map i_id (update_where P f (db_instances d))) = set (map i_id (db_instances d))"
    using assms by (simp add: map_key_update_where)
  then show ?thesis by (simp add: instance_ids_def)
qed

section \<open>Preservation of the constraints\<close>

lemma db_ok_failOperation: "db_ok d \<Longrightarrow> db_ok (failOperation i e d)"
  by (simp add: db_ok_def failOperation_def operations_ok_def map_key_update_where operation_key_def)

lemma db_ok_beginHarnessOperation:
  "db_ok d \<Longrightarrow> beginHarnessOperation i k c d = Inr d' \<Longrightarrow> db_ok d'"
  by (auto simp: db_ok_def beginHarnessOperation_def operations_ok_def operation_key_def
      split: if_splits)

lemma db_ok_deleteRunningOperations: "db_ok d \<Longrightarrow> db_ok (deleteRunningOperations d)"
  by (simp add: db_ok_def deleteRunningOperations_def operations_ok_def distinct_delete_where)

lemma db_ok_putTreeObject: "db_ok d \<Longrightarrow> db_ok (putTreeObject r d)"
  by (auto simp: db_ok_def putTreeObject_def trees_ok_def)

lemma db_ok_deleteTreeObject: "db_ok d \<Longrightarrow> db_ok (deleteTreeObject i d)"
  by (simp add: db_ok_def deleteTreeObject_def trees_ok_def distinct_delete_where)

lemma commit_ids_append [simp]:
  "commit_ids (d\<lparr>db_commits := db_commits d @ [r]\<rparr>) = insert (c_id r) (commit_ids d)"
  by (auto simp: commit_ids_def)

lemma db_ok_insert_commit:
  assumes "db_ok d" "insert_commit r d = Inr d'"
  shows "db_ok d'"
proof (cases "commit_exists d (c_id r)")
  case True
  with assms show ?thesis by (auto simp: insert_commit_def split: if_splits)
next
  case False
  with assms have d': "d' = d\<lparr>db_commits := db_commits d @ [r]\<rparr>"
    and fk: "\<forall>p\<in>set_option (c_parentId r). commit_exists d p \<or> p = c_id r"
    and chk: "commit_id_check (c_id r)"
    by (auto simp: insert_commit_def pred_option_set split: if_splits)
  have "commits_ok (db_commits d @ [r])"
    using assms(1) False fk chk
    by (auto simp: db_ok_def commits_ok_def commit_exists_def commit_ids_def)
  then show ?thesis
    using assms(1) unfolding d' db_ok_def
    by (auto elim: turns_ok_mono instances_ok_mono refs_ok_mono)
qed

lemma db_ok_putCommit: "db_ok d \<Longrightarrow> putCommit i t c p d = Inr d' \<Longrightarrow> db_ok d'"
  unfolding putCommit_def by (rule db_ok_insert_commit)

lemma db_ok_insert_workspace:
  "db_ok d \<Longrightarrow> insert_workspace w d = Inr d' \<Longrightarrow> db_ok d'"
  by (auto simp: db_ok_def insert_workspace_def workspace_exists_def split: if_splits
      elim: turns_ok_mono instances_ok_mono refs_ok_mono thread_workspaces_ok_mono)

lemma db_ok_insert_ref: "db_ok d \<Longrightarrow> insert_ref r d = Inr d' \<Longrightarrow> db_ok d'"
  by (auto simp: db_ok_def insert_ref_def refs_ok_def exists_defs image_subset_iff
      split: if_splits)

lemma db_ok_insert_thread_workspace:
  "db_ok d \<Longrightarrow> insert_thread_workspace r d = Inr d' \<Longrightarrow> db_ok d'"
  by (auto simp: db_ok_def insert_thread_workspace_def thread_workspaces_ok_def exists_defs
      image_subset_iff split: if_splits)

lemma db_ok_createThreadWorkspace:
  "db_ok d \<Longrightarrow> createThreadWorkspace t w h d = Inr d' \<Longrightarrow> db_ok d'"
  unfolding createThreadWorkspace_def bind_res_Inr
  by (blast dest: db_ok_insert_workspace db_ok_insert_ref db_ok_insert_thread_workspace)

lemma db_ok_createThreadFork:
  "db_ok d \<Longrightarrow> createThreadFork s t w h d = Inr d' \<Longrightarrow> db_ok d'"
  unfolding createThreadFork_def
  by (cases "workspace_exists d s")
    (simp_all add: bind_res_Inr,
     blast dest: db_ok_insert_workspace db_ok_insert_ref db_ok_insert_thread_workspace)

lemma turns_ok_append:
  assumes "turns_ok W C I rows" "turn_key r \<notin> turn_key ` set rows"
    and "active_state (t_state r) \<Longrightarrow>
      \<forall>r'\<in>set rows. t_threadId r' = t_threadId r \<longrightarrow> \<not> active_state (t_state r')"
    and "set_option (t_instanceId r) \<subseteq> I" "set_option (t_workspaceId r) \<subseteq> W"
    and "set_option (t_expectedHead r) \<subseteq> C"
  shows "turns_ok W C I (rows @ [r])"
proof -
  have "one_active_turn (rows @ [r])"
    unfolding one_active_append using assms(1,3) by (simp add: turns_ok_def)
  then show ?thesis using assms(1,2,4-6) by (auto simp: turns_ok_def)
qed

lemma createTurn_Inr:
  "createTurn r d = Inr d' \<longleftrightarrow>
     turn_key r \<notin> turn_key ` set (db_turns d) \<and>
     \<not> (active_state (t_state r) \<and>
        (\<exists>r'\<in>set (db_turns d). t_threadId r' = t_threadId r \<and> active_state (t_state r'))) \<and>
     turn_fks_ok d r \<and> d' = d\<lparr>db_turns := db_turns d @ [r]\<rparr>"
  unfolding createTurn_def by (simp split: if_splits) blast

lemma db_ok_createTurn:
  assumes "db_ok d" "createTurn r d = Inr d'"
  shows "db_ok d'"
proof -
  from assms(2) have d': "d' = d\<lparr>db_turns := db_turns d @ [r]\<rparr>"
    and new: "turn_key r \<notin> turn_key ` set (db_turns d)"
    and free: "active_state (t_state r) \<Longrightarrow>
      \<forall>r'\<in>set (db_turns d). t_threadId r' = t_threadId r \<longrightarrow> \<not> active_state (t_state r')"
    and fk: "turn_fks_ok d r"
    unfolding createTurn_Inr by blast+
  have "turns_ok (set (db_workspaces d)) (commit_ids d) (instance_ids d) (db_turns d @ [r])"
    using assms(1) fk
    by (intro turns_ok_append [OF _ new free])
      (auto simp: db_ok_def turn_fks_ok_def pred_option_set exists_defs)
  then show ?thesis using assms(1) by (simp add: d' db_ok_def)
qed

lemma apply_update_key [simp]:
  "t_threadId (apply_update u r) = t_threadId r"
  "t_turnId (apply_update u r) = t_turnId r"
  "turn_key (apply_update u r) = turn_key r"
  by (simp_all add: apply_update_def turn_key_def)


lemma db_ok_updateTurn:
  assumes ok: "db_ok d" and upd: "updateTurn tid uid u d = Inr d'"
  shows "db_ok d'"
proof (cases "select1 (\<lambda>r. t_threadId r = tid \<and> t_turnId r = uid) (db_turns d)")
  case None
  with ok upd show ?thesis by (simp add: updateTurn_def)
next
  case (Some row)
  let ?at = "\<lambda>r. t_threadId r = tid \<and> t_turnId r = uid"
  let ?rows = "update_where ?at (apply_update u) (db_turns d)"
  from Some have row: "row \<in> set (db_turns d)" "?at row" by (auto dest: select1_Some)
  from ok have old: "turns_ok (set (db_workspaces d)) (commit_ids d) (instance_ids d) (db_turns d)"
    by (simp add: db_ok_def)
  then have keys: "distinct (map turn_key (db_turns d))" and act: "one_active_turn (db_turns d)"
    by (simp_all add: turns_ok_def)
  from Some upd have d': "d' = d\<lparr>db_turns := ?rows\<rparr>"
    and fk: "turn_fks_ok d (apply_update u row)"
    and free: "active_state (t_state (apply_update u row)) \<Longrightarrow>
      \<forall>r\<in>set (db_turns d). t_threadId r = tid \<and> t_turnId r \<noteq> uid \<longrightarrow> \<not> active_state (t_state r)"
    by (auto simp: updateTurn_def Let_def split: if_splits)
  have at_key: "?at r \<longleftrightarrow> turn_key r = turn_key row" for r
    using row by (auto simp: turn_key_def)
  have only: "r = row" if "r \<in> set (db_turns d)" "?at r" for r
    using distinct_keyD [OF keys that(1) row(1)] that(2) at_key by blast
  have "one_active_turn ?rows"
  proof (cases "active_state (t_state (apply_update u row))")
    case True
    from free [OF True] show ?thesis
      by (intro one_active_update_other [OF act keys row(1) at_key]) (use row in auto)
  next
    case False
    show ?thesis unfolding update_where_def
    proof (rule one_active_map [OF act])
      fix r assume "r \<in> set (db_turns d)" and "active_state (t_state (if ?at r then apply_update u r else r))"
      with False only [of r] show "active_state (t_state r)" by (cases "?at r") auto
    qed simp
  qed
  moreover have "distinct (map turn_key ?rows)" using keys by (simp add: map_key_update_where)
  moreover have "set_option (t_instanceId r) \<subseteq> instance_ids d \<and>
      set_option (t_workspaceId r) \<subseteq> set (db_workspaces d) \<and>
      set_option (t_expectedHead r) \<subseteq> commit_ids d" if "r \<in> set ?rows" for r
    using that old only fk
    by (auto simp: update_where_mem turns_ok_def turn_fks_ok_def pred_option_set exists_defs)
  ultimately show ?thesis using ok unfolding d' db_ok_def by (simp add: turns_ok_def)
qed

lemma apply_instance_update_simps [simp]:
  "i_id (apply_instance_update v r) = i_id r" "i_kind (apply_instance_update v r) = i_kind r"
  "i_backend (apply_instance_update v r) = i_backend r"
  "i_workspaceId (apply_instance_update v r) = i_workspaceId r"
  "i_baseCommit (apply_instance_update v r) = i_baseCommit r"
  "i_workspacePath (apply_instance_update v r) = i_workspacePath r"
  "i_resourceProfile (apply_instance_update v r) = i_resourceProfile r"
  "i_network (apply_instance_update v r) = i_network r"
  "i_state (apply_instance_update v r) = set_col (v_state v) (i_state r)"
  "i_backendHandle (apply_instance_update v r) = set_col (v_backendHandle v) (i_backendHandle r)"
  "i_lastError (apply_instance_update v r) = set_col (v_lastError v) (i_lastError r)"
  by (simp_all add: apply_instance_update_def)

lemma set_col_simps [simp]: "set_col None x = x" "set_col (Some y) x = y"
  by (simp_all add: set_col_def)

lemma db_ok_updateInstance: "db_ok d \<Longrightarrow> db_ok (updateInstance i v d)"
  unfolding updateInstance_def db_ok_def
  by (simp add: instance_ids_update instances_ok_update)

lemma db_ok_createInstance:
  assumes "db_ok d" "createInstance r d = Inr d'"
  shows "db_ok d'"
proof -
  from assms(2) have d': "d' = d\<lparr>db_instances := db_instances d @ [r]\<rparr>"
    and new: "i_id r \<notin> instance_ids d" and fk: "instance_fks_ok d r"
    by (auto simp: createInstance_def instance_exists_def split: if_splits)
  have "instances_ok (set (db_workspaces d)) (commit_ids d) (db_instances d @ [r])"
    using assms(1) new fk
    by (auto simp: db_ok_def instances_ok_def instance_fks_ok_def pred_option_set exists_defs
        instance_ids_def)
  moreover have "instance_ids d \<subseteq> instance_ids d'" by (auto simp: d' instance_ids_def)
  ultimately show ?thesis using assms(1) by (auto simp: d' db_ok_def elim: turns_ok_mono)
qed

lemma db_ok_putArtifactAndGrant: "db_ok d \<Longrightarrow> db_ok (putArtifactAndGrant t i p s m d)"
  by (auto simp: db_ok_def putArtifactAndGrant_def artifacts_ok_def Let_def grant_key_def
      image_subset_iff)

lemma db_ok_deleteCommit:
  assumes "db_ok d" "deleteCommit cid d = Inr d'"
  shows "db_ok d'"
proof (cases "commit_exists d cid")
  case False
  then have "delete_where (\<lambda>c. c_id c = cid) (db_commits d) = db_commits d"
    by (intro delete_where_id) (auto simp: commit_exists_def commit_ids_def)
  with assms False show ?thesis by (simp add: deleteCommit_def)
next
  case True
  with assms(2) have unref: "\<not> commit_referenced d cid"
    and d': "d' = d\<lparr>db_commits := delete_where (\<lambda>c. c_id c = cid) (db_commits d)\<rparr>"
    by (auto simp: deleteCommit_def split: if_splits)
  have ids: "commit_ids d' = commit_ids d - {cid}"
    by (auto simp: d' commit_ids_def table_simps)
  have "commits_ok (db_commits d')"
    using assms(1) unref
    by (fastforce simp: db_ok_def commits_ok_def d' table_simps distinct_delete_where
        commit_referenced_def)
  moreover have "refs_ok (set (db_workspaces d)) (commit_ids d') (db_refs d)"
    using assms(1) unref ids by (auto simp: db_ok_def refs_ok_def commit_referenced_def)
  moreover have "instances_ok (set (db_workspaces d)) (commit_ids d') (db_instances d)"
    using assms(1) unref ids by (auto simp: db_ok_def instances_ok_def commit_referenced_def)
  moreover have "turns_ok (set (db_workspaces d)) (commit_ids d') (instance_ids d) (db_turns d)"
    using assms(1) unref ids by (fastforce simp: db_ok_def turns_ok_def commit_referenced_def)
  moreover have "instance_ids d' = instance_ids d" by (simp add: d')
  ultimately show ?thesis using assms(1) by (simp add: db_ok_def d')
qed

section \<open>Publishing\<close>

lemma insert_commit_tables:
  assumes "insert_commit r d = Inr d'"
  shows "db_refs d' = db_refs d" "db_turns d' = db_turns d" "db_instances d' = db_instances d"
    "db_operations d' = db_operations d" "db_workspaces d' = db_workspaces d"
    "db_threadWorkspaces d' = db_threadWorkspaces d" "db_treeObjects d' = db_treeObjects d"
    "db_artifacts d' = db_artifacts d" "db_grants d' = db_grants d"
    "commit_ids d' = insert (c_id r) (commit_ids d)"
    "db_commits d' = (if commit_exists d (c_id r) then db_commits d else db_commits d @ [r])"
  using assms by (auto simp: insert_commit_def commit_exists_def split: if_splits)

lemma putTreeObject_tables [simp]:
  "db_refs (putTreeObject r d) = db_refs d" "db_turns (putTreeObject r d) = db_turns d"
  "db_instances (putTreeObject r d) = db_instances d"
  "db_operations (putTreeObject r d) = db_operations d"
  "db_workspaces (putTreeObject r d) = db_workspaces d"
  "db_threadWorkspaces (putTreeObject r d) = db_threadWorkspaces d"
  "db_commits (putTreeObject r d) = db_commits d"
  "db_artifacts (putTreeObject r d) = db_artifacts d"
  "db_grants (putTreeObject r d) = db_grants d"
  "commit_ids (putTreeObject r d) = commit_ids d"
  "commit_exists (putTreeObject r d) = commit_exists d"
  by (auto simp: putTreeObject_def commit_exists_def fun_eq_iff)

definition publish_commit_row :: "publish_input \<Rightarrow> commit_row" where
  "publish_commit_row p = \<lparr>c_id = p_commitId p, c_treeDigest = tr_digest (p_tree p),
     c_contractDigest = p_contractDigest p, c_parentId = Some (p_parentId p)\<rparr>"

lemma publish_commit_row_id [simp]: "c_id (publish_commit_row p) = p_commitId p"
  by (simp add: publish_commit_row_def)

text \<open>What a publication that reports \<open>True\<close> has done to every table.\<close>

lemma publish_cases:
  assumes "publishTurnCommit p d = Inr (True, d')"
  obtains d1 where
    "insert_commit (publish_commit_row p) (putTreeObject (p_tree p) d) = Inr d1"
    "\<exists>r\<in>set (db_refs d). ref_matches p r" "\<exists>t\<in>set (db_turns d). turn_matches p t"
    "d' = d1\<lparr>
       db_refs := update_where (ref_matches p) (\<lambda>r. r\<lparr>rf_headCommit := p_commitId p\<rparr>) (db_refs d),
       db_turns := update_where (turn_matches p) (finish_row p) (db_turns d),
       db_instances := update_where (\<lambda>i. i_id i = p_instanceId p)
         (\<lambda>i. i\<lparr>i_state := I_READY\<rparr>) (db_instances d),
       db_operations := update_where (\<lambda>r. o_id r = p_operationId p)
         (\<lambda>r. r\<lparr>o_status := O_SUCCEEDED, o_responseJson := Some (p_response p)\<rparr>)
         (db_operations d)\<rparr>"
proof -
  obtain d1 where ins: "insert_commit (publish_commit_row p) (putTreeObject (p_tree p) d) = Inr d1"
    and rest: "(if select1 (ref_matches p) (db_refs d1) = None then Inr (False, d)
     else if select1 (turn_matches p) (db_turns d1) = None
     then Inl (service_err TURN_CLOSED ''Turn is not finishing'')
     else Inr (True, d1\<lparr>
       db_refs := update_where (ref_matches p) (\<lambda>r. r\<lparr>rf_headCommit := p_commitId p\<rparr>) (db_refs d1),
       db_turns := update_where (turn_matches p) (finish_row p) (db_turns d1),
       db_instances := update_where (\<lambda>i. i_id i = p_instanceId p)
         (\<lambda>i. i\<lparr>i_state := I_READY\<rparr>) (db_instances d1),
       db_operations := update_where (\<lambda>r. o_id r = p_operationId p)
         (\<lambda>r. r\<lparr>o_status := O_SUCCEEDED, o_responseJson := Some (p_response p)\<rparr>)
         (db_operations d1)\<rparr>)) = Inr (True, d')"
    using assms unfolding publishTurnCommit_def bind_res_Inr publish_commit_row_def by blast
  note tabs = insert_commit_tables [OF ins]
  show thesis
    by (rule that [OF ins]) (use rest tabs in \<open>auto simp: select1_None split: if_splits\<close>)
qed

lemma publish_True:
  assumes "publishTurnCommit p d = Inr (True, d')"
  shows "db_refs d' = update_where (ref_matches p) (\<lambda>r. r\<lparr>rf_headCommit := p_commitId p\<rparr>) (db_refs d) \<and>
    db_turns d' = update_where (turn_matches p) (finish_row p) (db_turns d) \<and>
    db_instances d' = update_where (\<lambda>i. i_id i = p_instanceId p) (\<lambda>i. i\<lparr>i_state := I_READY\<rparr>)
       (db_instances d) \<and>
    db_operations d' = update_where (\<lambda>r. o_id r = p_operationId p)
       (\<lambda>r. r\<lparr>o_status := O_SUCCEEDED, o_responseJson := Some (p_response p)\<rparr>) (db_operations d) \<and>
    db_workspaces d' = db_workspaces d \<and> db_threadWorkspaces d' = db_threadWorkspaces d \<and>
    commit_ids d' = insert (p_commitId p) (commit_ids d) \<and>
    db_commits d' = (if commit_exists d (p_commitId p) then db_commits d
       else db_commits d @ [publish_commit_row p]) \<and>
    db_artifacts d' = db_artifacts d \<and> db_grants d' = db_grants d \<and>
    db_treeObjects d' = db_treeObjects (putTreeObject (p_tree p) d)"
proof (rule publish_cases [OF assms])
  fix d1
  assume ins: "insert_commit (publish_commit_row p) (putTreeObject (p_tree p) d) = Inr d1"
    and d': "d' = d1\<lparr>
       db_refs := update_where (ref_matches p) (\<lambda>r. r\<lparr>rf_headCommit := p_commitId p\<rparr>) (db_refs d),
       db_turns := update_where (turn_matches p) (finish_row p) (db_turns d),
       db_instances := update_where (\<lambda>i. i_id i = p_instanceId p)
         (\<lambda>i. i\<lparr>i_state := I_READY\<rparr>) (db_instances d),
       db_operations := update_where (\<lambda>r. o_id r = p_operationId p)
         (\<lambda>r. r\<lparr>o_status := O_SUCCEEDED, o_responseJson := Some (p_response p)\<rparr>)
         (db_operations d)\<rparr>"
  show ?thesis
    using insert_commit_tables [OF ins] by (simp add: d' publish_commit_row_def)
qed

text \<open>A publication that reports \<open>False\<close> or throws leaves the database as it was.\<close>

lemma publish_False:
  "publishTurnCommit p d = Inr (False, d') \<Longrightarrow> d' = d"
  by (auto simp: publishTurnCommit_def bind_res_Inr split: if_splits)

lemma finish_row_simps [simp]:
  "turn_key (finish_row p t) = turn_key t" "t_threadId (finish_row p t) = t_threadId t"
  "t_turnId (finish_row p t) = t_turnId t" "t_state (finish_row p t) = T_FINISHED"
  "t_mode (finish_row p t) = t_mode t"
  "t_instanceId (finish_row p t) = t_instanceId t" "t_workspaceId (finish_row p t) = t_workspaceId t"
  "t_expectedHead (finish_row p t) = t_expectedHead t"
  "t_resultJson (finish_row p t) = Some (p_response p)"
  by (simp_all add: finish_row_def turn_key_def)

lemma turns_ok_update:
  assumes "turns_ok W C I rows"
    and "\<And>r. turn_key (f r) = turn_key r" "\<And>r. t_instanceId (f r) = t_instanceId r"
    and "\<And>r. t_workspaceId (f r) = t_workspaceId r" "\<And>r. t_expectedHead (f r) = t_expectedHead r"
    and "\<And>r. P r \<Longrightarrow> active_state (t_state (f r)) \<Longrightarrow> active_state (t_state r)"
  shows "turns_ok W C I (update_where P f rows)"
proof -
  have thread: "t_threadId (f r) = t_threadId r" for r
    using assms(2) [of r] by (simp add: turn_key_def)
  have "one_active_turn (update_where P f rows)"
    unfolding update_where_def
  proof (rule one_active_map)
    show "one_active_turn rows" using assms(1) by (simp add: turns_ok_def)
    show "active_state (t_state r)" if "active_state (t_state (if P r then f r else r))" for r
      using that assms(6) [of r] by (cases "P r") auto
  qed (simp add: thread)
  moreover have "distinct (map turn_key (update_where P f rows))"
    using assms(1,2) by (simp add: turns_ok_def map_key_update_where)
  ultimately show ?thesis using assms(1,3,4,5) by (auto simp: turns_ok_def table_simps)
qed

lemma db_ok_publish:
  assumes "db_ok d" "publishTurnCommit p d = Inr (b, d')"
  shows "db_ok d'"
proof (cases b)
  case False
  with assms show ?thesis by (auto dest: publish_False)
next
  case True
  with assms(2) have pub: "publishTurnCommit p d = Inr (True, d')" by simp
  show ?thesis
  proof (rule publish_cases [OF pub])
    fix d1
    assume ins: "insert_commit (publish_commit_row p) (putTreeObject (p_tree p) d) = Inr d1"
    have ok1: "db_ok d1"
      by (rule db_ok_insert_commit [OF db_ok_putTreeObject [OF assms(1)] ins])
    note t1 = insert_commit_tables [OF ins] and t = publish_True [OF pub]
    have ids: "instance_ids d' = instance_ids d1"
      using t t1 instance_ids_update [of "\<lambda>i. i\<lparr>i_state := I_READY\<rparr>" "\<lambda>i. i_id i = p_instanceId p" d]
      by (simp add: instance_ids_def)
    have "refs_ok (set (db_workspaces d')) (commit_ids d') (db_refs d')"
      using ok1 t t1
      by (auto simp: db_ok_def refs_ok_def map_key_update_where ref_key_def table_simps)
    moreover have "instances_ok (set (db_workspaces d')) (commit_ids d') (db_instances d')"
      using ok1 t t1 by (simp add: db_ok_def instances_ok_update)
    moreover have "turns_ok (set (db_workspaces d')) (commit_ids d') (instance_ids d') (db_turns d')"
    proof -
      have "turns_ok (set (db_workspaces d1)) (commit_ids d1) (instance_ids d1) (db_turns d1)"
        using ok1 by (simp only: db_ok_def)
      then have "turns_ok (set (db_workspaces d1)) (commit_ids d1) (instance_ids d1)
          (update_where (turn_matches p) (finish_row p) (db_turns d1))"
        by (rule turns_ok_update) (simp_all add: active_state_def)
      then show ?thesis using t t1 ids by simp
    qed
    moreover have "operations_ok (db_operations d')"
      using ok1 t t1 by (simp add: db_ok_def operations_ok_def map_key_update_where operation_key_def)
    ultimately show ?thesis
      using ok1 t t1 by (auto simp: db_ok_def split: if_splits)
  qed
qed

section \<open>Turns and instances as keyed stores\<close>

text \<open>The rows of a table by primary key, and the two tables that are updated in place as
  instances of the interface \<open>row_store\<close>.\<close>

definition turn_at :: "db \<Rightarrow> turn_key \<Rightarrow> turn_row option" where
  "turn_at d k = select1 (\<lambda>r. turn_key r = k) (db_turns d)"

lemma turn_key_iff: "turn_key r = TurnKey t u \<longleftrightarrow> t_threadId r = t \<and> t_turnId r = u"
  by (simp add: turn_key_def)

lemma getTurn_at: "getTurn d t u = map_option turnRecord (turn_at d (TurnKey t u))"
  by (simp add: getTurn_def turn_at_def turn_key_iff)

lemma turn_at_Some: "turn_at d k = Some r \<Longrightarrow> r \<in> set (db_turns d) \<and> turn_key r = k"
  unfolding turn_at_def by (rule select1_Some)

lemma turn_at_iff:
  "db_ok d \<Longrightarrow> turn_at d k = Some r \<longleftrightarrow> r \<in> set (db_turns d) \<and> turn_key r = k"
  unfolding turn_at_def by (rule select1_key) (simp add: db_ok_def turns_ok_def)

lemma getInstance_iff:
  "db_ok d \<Longrightarrow> getInstance d i = Some r \<longleftrightarrow> r \<in> set (db_instances d) \<and> i_id r = i"
  unfolding getInstance_def by (rule select1_key) (simp add: db_ok_def instances_ok_def)

lemma updateTurn_Inr:
  "updateTurn t u w d = Inr d' \<Longrightarrow>
   d' = d\<lparr>db_turns := update_where (\<lambda>r. t_threadId r = t \<and> t_turnId r = u) (apply_update w) (db_turns d)\<rparr>"
proof (cases "select1 (\<lambda>r. t_threadId r = t \<and> t_turnId r = u) (db_turns d)")
  case None
  assume "updateTurn t u w d = Inr d'"
  moreover have "update_where (\<lambda>r. t_threadId r = t \<and> t_turnId r = u) (apply_update w) (db_turns d)
      = db_turns d"
    using None by (intro update_where_id) (auto simp: select1_None)
  ultimately show ?thesis using None by (simp add: updateTurn_def)
next
  case (Some row)
  assume "updateTurn t u w d = Inr d'"
  then show ?thesis using Some by (simp add: updateTurn_def Let_def split: if_splits)
qed

definition put_turn :: "turn_key \<Rightarrow> turn_update \<Rightarrow> db \<Rightarrow> db res" where
  "put_turn k w d = updateTurn (tk_thread k) (tk_turn k) w d"

definition put_instance :: "string \<Rightarrow> instance_update \<Rightarrow> db \<Rightarrow> db res" where
  "put_instance i v d = Inr (updateInstance i v d)"

interpretation turns: row_store turn_at put_turn apply_update
proof
  fix k w d d' j
  assume "put_turn k w d = Inr d'"
  then have d': "db_turns d' = update_where (\<lambda>r. turn_key r = k) (apply_update w) (db_turns d)"
    by (cases k) (auto simp: put_turn_def turn_key_iff dest: updateTurn_Inr)
  show "turn_at d' j = (if j = k then map_option (apply_update w) (turn_at d j) else turn_at d j)"
    unfolding turn_at_def d'
    by (subst select1_update_where) (auto simp: option.map_comp map_option_case
        dest: select1_Some split: option.splits)
qed

interpretation instances: row_store getInstance put_instance apply_instance_update
proof
  fix k v d d' j
  assume "put_instance k v d = Inr d'"
  then have d': "db_instances d' = update_where (\<lambda>r. i_id r = k) (apply_instance_update v) (db_instances d)"
    by (auto simp: put_instance_def updateInstance_def)
  show "getInstance d' j =
      (if j = k then map_option (apply_instance_update v) (getInstance d j) else getInstance d j)"
    unfolding getInstance_def d'
    by (subst select1_update_where) (auto simp: map_option_case
        dest: select1_Some split: option.splits)
qed

lemma getInstance_updateInstance:
  "getInstance (updateInstance i v d) j =
     (if j = i then map_option (apply_instance_update v) (getInstance d j) else getInstance d j)"
  by (rule instances.get_put) (simp add: put_instance_def)

lemma turn_at_updateTurn:
  "updateTurn t u w d = Inr d' \<Longrightarrow>
   turn_at d' j = (if j = TurnKey t u then map_option (apply_update w) (turn_at d j) else turn_at d j)"
  by (rule turns.get_put) (simp add: put_turn_def)

lemma updateInstance_tables [simp]:
  "db_turns (updateInstance i v d) = db_turns d" "db_refs (updateInstance i v d) = db_refs d"
  "db_commits (updateInstance i v d) = db_commits d"
  "db_operations (updateInstance i v d) = db_operations d"
  "db_workspaces (updateInstance i v d) = db_workspaces d"
  "db_threadWorkspaces (updateInstance i v d) = db_threadWorkspaces d"
  "db_treeObjects (updateInstance i v d) = db_treeObjects d"
  "db_artifacts (updateInstance i v d) = db_artifacts d"
  "db_grants (updateInstance i v d) = db_grants d"
  "commit_ids (updateInstance i v d) = commit_ids d"
  "instance_ids (updateInstance i v d) = instance_ids d"
  by (simp_all add: updateInstance_def instance_ids_update)

end
