(* ===== verification/History.thy ===== *)
theory History
  imports Repository_Inv
begin

text \<open>
  The commit graph: the walk along parents of \<open>Repository.commitBelongsToHistory\<close>
  (\<open>src/storage/repository.ts\<close>), the mark phase and the depth computation of
  \<open>RecoveryManager.gc\<close> (\<open>src/domain/recovery.ts\<close>). All three are loops over a graph that the
  database does not force to be acyclic, with a set of visited commits that makes them stop.
  They are compared with the ancestor relation \<open>descends\<close>, the specification.
\<close>

section \<open>The parent relation\<close>

definition parent_of :: "commit_row list \<Rightarrow> digest \<Rightarrow> digest option" where
  "parent_of cs c = Option.bind (select1 (\<lambda>r. c_id r = c) cs) c_parentId"

definition parent_step :: "commit_row list \<Rightarrow> digest \<Rightarrow> digest \<Rightarrow> bool" where
  "parent_step cs a b \<longleftrightarrow> truthy (parent_of cs a) = Some b"

abbreviation descends :: "commit_row list \<Rightarrow> digest \<Rightarrow> digest \<Rightarrow> bool" where
  "descends cs \<equiv> (parent_step cs)\<^sup>*\<^sup>*"

lemma parent_of_None: "c \<notin> c_id ` set cs \<Longrightarrow> parent_of cs c = None"
proof -
  assume "c \<notin> c_id ` set cs"
  then have "select1 (\<lambda>r. c_id r = c) cs = None" by (auto simp: select1_None)
  then show ?thesis by (simp add: parent_of_def)
qed

lemma parent_step_source: "parent_step cs a b \<Longrightarrow> a \<in> c_id ` set cs"
  using parent_of_None by (force simp: parent_step_def)

lemma parent_step_deterministic: "parent_step cs a b \<Longrightarrow> parent_step cs a c \<Longrightarrow> b = c"
  by (simp add: parent_step_def)

lemma descends_cases:
  "descends cs a b \<longleftrightarrow> a = b \<or> (\<exists>p. parent_step cs a p \<and> descends cs p b)"
  by (metis converse_rtranclpE converse_rtranclp_into_rtranclp rtranclp.rtrancl_refl)

text \<open>A set that parents do not leave holds everything its members descend from.\<close>

lemma descends_closed:
  assumes "descends cs a b" "a \<in> S" "\<And>x y. x \<in> S \<Longrightarrow> parent_step cs x y \<Longrightarrow> y \<in> S"
  shows "b \<in> S"
  using assms(1,2) by (induction rule: rtranclp_induct) (auto intro: assms(3))

text \<open>What makes the loops stop: each round marks a commit of the table, or moves to no commit.\<close>

definition unvisited :: "commit_row list \<Rightarrow> digest list \<Rightarrow> nat" where
  "unvisited cs visited = card (c_id ` set cs - set visited)"

lemma unvisited_less:
  "c \<in> c_id ` set cs \<Longrightarrow> c \<notin> set visited \<Longrightarrow> unvisited cs (c # visited) < unvisited cs visited"
  unfolding unvisited_def by (rule psubset_card_mono) auto

lemma unvisited_same: "c \<notin> c_id ` set cs \<Longrightarrow> unvisited cs (c # visited) = unvisited cs visited"
  unfolding unvisited_def by (rule arg_cong [where f = card]) auto

section \<open>\<open>commitBelongsToHistory\<close>\<close>

function history_loop :: "commit_row list \<Rightarrow> digest list \<Rightarrow> digest option \<Rightarrow> digest \<Rightarrow> bool" where
  "history_loop cs visited current candidate =
     (case truthy current of
        None \<Rightarrow> False
      | Some c \<Rightarrow>
          if c \<in> set visited then False
          else if c = candidate then True
          else history_loop cs (c # visited) (parent_of cs c) candidate)"
  by pat_completeness auto
termination
proof (relation "measures [\<lambda>(cs, visited, current, candidate). unvisited cs visited,
    \<lambda>(cs, visited, current, candidate). if current = None then 0 else 1]", simp)
  fix cs visited current candidate and c :: digest
  assume "truthy current = Some c" "c \<notin> set visited"
  then show "((cs, c # visited, parent_of cs c, candidate), cs, visited, current, candidate)
    \<in> measures [\<lambda>(cs, visited, current, candidate). unvisited cs visited,
        \<lambda>(cs, visited, current, candidate). if current = None then 0 else 1]"
    by (cases "c \<in> c_id ` set cs") (auto simp: unvisited_less unvisited_same parent_of_None)
qed

declare history_loop.simps [simp del]

definition commitBelongsToHistory :: "db \<Rightarrow> digest \<Rightarrow> digest \<Rightarrow> bool" where
  "commitBelongsToHistory d head candidate =
     history_loop (db_commits d) [] (Some head) candidate"

lemma history_loop_iff:
  assumes "candidate \<notin> set visited"
    and "\<And>v w. v \<in> set visited \<Longrightarrow> parent_step cs v w \<Longrightarrow> w \<in> set visited \<or> truthy current = Some w"
  shows "history_loop cs visited current candidate \<longleftrightarrow>
    (\<exists>c. truthy current = Some c \<and> descends cs c candidate)"
  using assms
proof (induction cs visited current candidate rule: history_loop.induct)
  case (1 cs visited current candidate)
  show ?case
  proof (cases "truthy current")
    case None
    then show ?thesis by (simp add: history_loop.simps [of cs visited])
  next
    case (Some c)
    consider "c \<in> set visited" | "c \<notin> set visited" "c = candidate"
      | "c \<notin> set visited" "c \<noteq> candidate" by blast
    then show ?thesis
    proof cases
      case 1
      have "\<not> descends cs c candidate"
        using descends_closed [of cs c candidate "set visited"] 1 "1.prems" Some by auto
      then show ?thesis using 1 Some by (simp add: history_loop.simps [of cs visited])
    next
      case 2
      then show ?thesis using Some by (simp add: history_loop.simps [of cs visited])
    next
      case 3
      have "history_loop cs (c # visited) (parent_of cs c) candidate \<longleftrightarrow>
          (\<exists>p. truthy (parent_of cs c) = Some p \<and> descends cs p candidate)"
      proof (rule "1.IH" [OF Some 3])
        show "candidate \<notin> set (c # visited)" using "1.prems"(1) 3 by simp
        show "w \<in> set (c # visited) \<or> truthy (parent_of cs c) = Some w"
          if "v \<in> set (c # visited)" "parent_step cs v w" for v w
          using that "1.prems"(2) [of v w] Some by (auto simp: parent_step_def)
      qed
      also have "\<dots> \<longleftrightarrow> descends cs c candidate"
        using 3 descends_cases [of cs c candidate] by (auto simp: parent_step_def)
      finally show ?thesis using 3 Some by (simp add: history_loop.simps [of cs visited])
    qed
  qed
qed

lemma commitBelongsToHistory_iff:
  "head \<noteq> '''' \<Longrightarrow>
   commitBelongsToHistory d head candidate \<longleftrightarrow> descends (db_commits d) head candidate"
  unfolding commitBelongsToHistory_def by (subst history_loop_iff) auto

section \<open>The mark phase of garbage collection\<close>

text \<open>
  The array \<open>pending\<close> is used as a stack (\<open>pop\<close> and \<open>push\<close> at its end); the model lists it from
  its end. \<open>byId\<close> is the map from commit ids to commits.
\<close>

function mark_loop :: "commit_row list \<Rightarrow> digest list \<Rightarrow> digest list \<Rightarrow> digest list" where
  "mark_loop byId reachable [] = reachable"
| "mark_loop byId reachable (i # pending) =
     (if i = '''' \<or> i \<in> set reachable then mark_loop byId reachable pending
      else mark_loop byId (i # reachable)
        (case truthy (parent_of byId i) of None \<Rightarrow> pending | Some p \<Rightarrow> p # pending))"
  by pat_completeness auto
termination
proof (relation "measures [\<lambda>(cs, reachable, pending). unvisited cs reachable,
    \<lambda>(cs, reachable, pending). length pending]")
  fix byId :: "commit_row list" and reachable pending :: "digest list" and i :: digest
  assume "\<not> (i = '''' \<or> i \<in> set reachable)"
  then show "((byId, i # reachable,
      case truthy (parent_of byId i) of None \<Rightarrow> pending | Some p \<Rightarrow> p # pending),
      byId, reachable, i # pending)
    \<in> measures [\<lambda>(cs, reachable, pending). unvisited cs reachable,
        \<lambda>(cs, reachable, pending). length pending]"
    by (cases "i \<in> c_id ` set byId") (auto simp: unvisited_less unvisited_same parent_of_None)
qed simp_all

definition reachable_commits :: "db \<Rightarrow> digest list" where
  "reachable_commits d = mark_loop (db_commits d) [] (rev (listGcRoots d))"

lemma mark_loop_keeps: "set reachable \<subseteq> set (mark_loop cs reachable pending)"
  by (induction cs reachable pending rule: mark_loop.induct) auto

lemma mark_loop_pending: "x \<in> set pending \<Longrightarrow> x \<noteq> '''' \<Longrightarrow> x \<in> set (mark_loop cs reachable pending)"
proof (induction cs reachable pending rule: mark_loop.induct)
  case (2 byId reachable i pending)
  let ?pending = "case truthy (parent_of byId i) of None \<Rightarrow> pending | Some p \<Rightarrow> p # pending"
  show ?case
  proof (cases "i = '''' \<or> i \<in> set reachable")
    case True
    then show ?thesis
      using "2.IH"(1) "2.prems" mark_loop_keeps [of reachable byId pending] by auto
  next
    case False
    have "i \<in> set (mark_loop byId (i # reachable) ?pending)"
      using mark_loop_keeps [of "i # reachable" byId ?pending] by simp
    moreover have "x \<in> set (mark_loop byId (i # reachable) ?pending)" if "x \<in> set pending"
      by (rule "2.IH"(2) [OF False _ "2.prems"(2)]) (use that in \<open>auto split: option.splits\<close>)
    ultimately show ?thesis using False "2.prems"(1) by auto
  qed
qed simp

lemma mark_loop_sound:
  "(\<And>x. x \<in> set reachable \<union> (set pending - {''''}) \<Longrightarrow> \<exists>r\<in>R. descends cs r x) \<Longrightarrow>
   x \<in> set (mark_loop cs reachable pending) \<Longrightarrow> \<exists>r\<in>R. descends cs r x"
proof (induction cs reachable pending rule: mark_loop.induct)
  case (2 byId reachable i pending)
  show ?case
  proof (cases "i = '''' \<or> i \<in> set reachable")
    case True
    then show ?thesis using 2 by (auto simp del: truthy_Some)
  next
    case False
    then obtain r where r: "r \<in> R" "descends byId r i" using "2.prems"(1) [of i] by auto
    have "\<exists>r\<in>R. descends byId r y"
      if "y \<in> set (i # reachable) \<union> (set (case truthy (parent_of byId i) of
          None \<Rightarrow> pending | Some p \<Rightarrow> p # pending) - {''''})" for y
    proof (cases "parent_step byId i y")
      case True
      with r show ?thesis by (meson rtranclp.rtrancl_into_rtrancl)
    next
      case False
      with that have "y \<in> set reachable \<union> (set (i # pending) - {''''}) \<or> y = i"
        by (auto simp: parent_step_def split: option.splits)
      with r "2.prems"(1) [of y] show ?thesis by blast
    qed
    then show ?thesis using "2.IH"(2) [OF False] "2.prems"(2) False by simp
  qed
qed auto

lemma mark_loop_closed:
  "(\<And>x y. x \<in> set reachable \<Longrightarrow> parent_step cs x y \<Longrightarrow> y \<in> set reachable \<union> set pending) \<Longrightarrow>
   x \<in> set (mark_loop cs reachable pending) \<Longrightarrow> parent_step cs x y \<Longrightarrow>
   y \<in> set (mark_loop cs reachable pending)"
proof (induction cs reachable pending rule: mark_loop.induct)
  case (1 byId reachable)
  then show ?case by auto
next
  case (2 byId reachable i pending)
  have nonempty: "b \<noteq> ''''" if "parent_step byId a b" for a b
    using that by (simp add: parent_step_def)
  show ?case
  proof (cases "i = '''' \<or> i \<in> set reachable")
    case True
    have "b \<in> set reachable \<union> set pending" if "a \<in> set reachable" "parent_step byId a b" for a b
      using "2.prems"(1) [OF that] True nonempty [OF that(2)] by auto
    then show ?thesis using True "2.IH"(1) "2.prems"(2,3) by simp
  next
    case False
    let ?pending = "case truthy (parent_of byId i) of None \<Rightarrow> pending | Some p \<Rightarrow> p # pending"
    have "b \<in> set (i # reachable) \<union> set ?pending" if "a \<in> set (i # reachable)" "parent_step byId a b" for a b
      using that "2.prems"(1) [of a b] by (auto simp: parent_step_def split: option.splits)
    then show ?thesis using False "2.IH"(2) "2.prems"(2,3) by simp
  qed
qed

text \<open>The mark phase returns exactly the commits that some root descends from.\<close>

lemma set_mark_loop:
  "set (mark_loop cs [] roots) = {x. \<exists>r\<in>set roots - {''''}. descends cs r x}"
proof (intro set_eqI iffI)
  fix x assume "x \<in> set (mark_loop cs [] roots)"
  then show "x \<in> {x. \<exists>r\<in>set roots - {''''}. descends cs r x}"
    using mark_loop_sound [of "[]" roots "set roots - {''''}" cs x] by auto
next
  fix x assume "x \<in> {x. \<exists>r\<in>set roots - {''''}. descends cs r x}"
  then obtain r where r: "r \<in> set roots" "r \<noteq> ''''" "descends cs r x" by auto
  show "x \<in> set (mark_loop cs [] roots)"
    by (rule descends_closed [OF r(3) mark_loop_pending [OF r(1,2)]])
      (rule mark_loop_closed [where reachable = "[]"], auto)
qed

section \<open>Depths and the deletion order\<close>

text \<open>
  \<open>depthOf\<close> counts the ancestors of a commit; unreachable commits are deleted deepest first,
  so that a commit is gone before its parent is.
\<close>

function depth_loop :: "commit_row list \<Rightarrow> digest list \<Rightarrow> digest option \<Rightarrow> nat \<Rightarrow> nat" where
  "depth_loop cs seen current depth =
     (case truthy current of
        None \<Rightarrow> depth
      | Some c \<Rightarrow> if c \<in> set seen then depth
                 else depth_loop cs (c # seen) (parent_of cs c) (Suc depth))"
  by pat_completeness auto
termination
proof (relation "measures [\<lambda>(cs, seen, current, depth). unvisited cs seen,
    \<lambda>(cs, seen, current, depth). if current = None then 0 else 1]", simp)
  fix cs seen current depth and c :: digest
  assume "truthy current = Some c" "c \<notin> set seen"
  then show "((cs, c # seen, parent_of cs c, Suc depth), cs, seen, current, depth)
    \<in> measures [\<lambda>(cs, seen, current, depth). unvisited cs seen,
        \<lambda>(cs, seen, current, depth). if current = None then 0 else 1]"
    by (cases "c \<in> c_id ` set cs") (auto simp: unvisited_less unvisited_same parent_of_None)
qed

declare depth_loop.simps [simp del]

definition depthOf :: "commit_row list \<Rightarrow> digest \<Rightarrow> nat" where
  "depthOf cs i = depth_loop cs [] (parent_of cs i) 0"

definition deletion_order :: "commit_row list \<Rightarrow> commit_row list \<Rightarrow> commit_row list" where
  "deletion_order cs unreachable = sort_key (\<lambda>c. - int (depthOf cs (c_id c))) unreachable"

text \<open>The length of the chain of ancestors, where it ends.\<close>

inductive chain_len :: "commit_row list \<Rightarrow> digest option \<Rightarrow> nat \<Rightarrow> bool" for cs where
  chain_end: "truthy cur = None \<Longrightarrow> chain_len cs cur 0"
| chain_next: "truthy cur = Some c \<Longrightarrow> chain_len cs (parent_of cs c) k \<Longrightarrow> chain_len cs cur (Suc k)"

lemma chain_len_iff:
  "chain_len cs cur k \<longleftrightarrow> (case truthy cur of None \<Rightarrow> k = 0
     | Some c \<Rightarrow> (\<exists>j. k = Suc j \<and> chain_len cs (parent_of cs c) j))"
  by (subst chain_len.simps) (auto split: option.splits)

lemma chain_len_unique: "chain_len cs cur k \<Longrightarrow> chain_len cs cur j \<Longrightarrow> k = j"
proof (induction arbitrary: j rule: chain_len.induct)
  case (chain_end cur)
  then show ?case by (subst (asm) (1) chain_len_iff) simp
next
  case (chain_next cur c k)
  from chain_next.prems chain_next.hyps(1) obtain i where "j = Suc i" "chain_len cs (parent_of cs c) i"
    by (subst (asm) chain_len_iff) auto
  then show ?case using chain_next.IH by simp
qed

lemma chain_len_Some:
  "c \<noteq> '''' \<Longrightarrow> chain_len cs (Some c) j \<longleftrightarrow> (\<exists>k. j = Suc k \<and> chain_len cs (parent_of cs c) k)"
  by (subst chain_len_iff) simp

lemma depth_loop_chain:
  assumes "chain_len cs cur k" "\<And>v j. v \<in> set seen \<Longrightarrow> chain_len cs (Some v) j \<Longrightarrow> k < j"
  shows "depth_loop cs seen cur n = n + k"
  using assms
proof (induction arbitrary: seen n rule: chain_len.induct)
  case (chain_end cur)
  then show ?case by (simp add: depth_loop.simps [of cs seen])
next
  case (chain_next cur c k)
  have c: "chain_len cs (Some c) (Suc k)" and cur: "cur = Some c" "c \<noteq> ''''"
    using chain_next by (auto simp: chain_len_Some)
  have fresh: "c \<notin> set seen" using chain_next.prems [OF _ c] by auto
  have "depth_loop cs (c # seen) (parent_of cs c) (Suc n) = Suc n + k"
  proof (rule chain_next.IH)
    fix v j assume v: "v \<in> set (c # seen)" and j: "chain_len cs (Some v) j"
    show "k < j"
    proof (cases "v = c")
      case True
      then show ?thesis using chain_len_unique [OF c] j by auto
    next
      case False
      then show ?thesis using chain_next.prems [OF _ j] v by auto
    qed
  qed
  then show ?case using cur fresh by (simp add: depth_loop.simps [of cs seen])
qed

lemma depthOf_chain: "chain_len cs (parent_of cs i) k \<Longrightarrow> depthOf cs i = k"
  unfolding depthOf_def using depth_loop_chain [of cs "parent_of cs i" k "[]" 0] by simp

text \<open>
  A parent is recorded before its children, which is how commits are inserted; then every chain
  of ancestors ends and a child is exactly one deeper than its parent.
\<close>

definition parents_first :: "commit_row list \<Rightarrow> bool" where
  "parents_first cs \<longleftrightarrow>
     (\<forall>i<length cs. set_option (c_parentId (cs ! i)) \<subseteq> c_id ` set (take i cs))"

lemma parents_first_append:
  "parents_first (cs @ [r]) \<longleftrightarrow> parents_first cs \<and> set_option (c_parentId r) \<subseteq> c_id ` set cs"
proof -
  have "(cs @ [r]) ! i = (if i < length cs then cs ! i else r)" if "i < Suc (length cs)" for i
    using that by (auto simp: nth_append)
  then show ?thesis by (fastforce simp: parents_first_def less_Suc_eq)
qed

lemma parent_of_nth:
  "distinct (map c_id cs) \<Longrightarrow> i < length cs \<Longrightarrow> parent_of cs (c_id (cs ! i)) = c_parentId (cs ! i)"
  using select1_key [of c_id cs "c_id (cs ! i)" "cs ! i"] by (simp add: parent_of_def)

lemma chain_len_total:
  assumes "distinct (map c_id cs)" "parents_first cs" "i < length cs"
  shows "\<exists>k. chain_len cs (parent_of cs (c_id (cs ! i))) k"
  using assms(3)
proof (induction i rule: less_induct)
  case (less i)
  let ?p = "parent_of cs (c_id (cs ! i))"
  show ?case
  proof (cases "truthy ?p")
    case None
    then show ?thesis by (blast intro: chain_end)
  next
    case (Some p)
    then have "c_parentId (cs ! i) = Some p" using assms(1) less.prems by (simp add: parent_of_nth)
    then have "p \<in> c_id ` set (take i cs)"
      using assms(2) less.prems by (force simp: parents_first_def)
    then obtain j where "j < i" "p = c_id (cs ! j)"
      using less.prems by (auto simp: in_set_conv_nth)
    moreover from this less.prems have "j < length cs" by simp
    ultimately obtain k where "chain_len cs (parent_of cs p) k" using less.IH [of j] by blast
    with Some have "chain_len cs ?p (Suc k)" by (rule chain_next)
    then show ?thesis ..
  qed
qed

lemma depthOf_parent:
  assumes "distinct (map c_id cs)" "parents_first cs" "parent_step cs a b"
  shows "depthOf cs a = Suc (depthOf cs b)"
proof -
  from assms(3) have p: "truthy (parent_of cs a) = Some b" by (simp add: parent_step_def)
  from parent_step_source [OF assms(3)] obtain i where "i < length cs" "a = c_id (cs ! i)"
    by (auto simp: in_set_conv_nth)
  then obtain k where k: "chain_len cs (parent_of cs a) k"
    using chain_len_total [OF assms(1,2)] by blast
  from k p obtain j where "k = Suc j" "chain_len cs (parent_of cs b) j"
    by (subst (asm) (1) chain_len_iff) auto
  then show ?thesis using depthOf_chain k by metis
qed

lemma set_deletion_order [simp]: "set (deletion_order cs us) = set us"
  by (simp add: deletion_order_def)

lemma distinct_deletion_order:
  "distinct (map c_id us) \<Longrightarrow> distinct (map c_id (deletion_order cs us))"
  by (auto simp: deletion_order_def distinct_map)

lemma deletion_order_sorted:
  "sorted (map (\<lambda>c. - int (depthOf cs (c_id c))) (deletion_order cs us))"
  by (simp add: deletion_order_def)

text \<open>No commit is listed after its parent.\<close>

lemma deletion_order_children_first:
  assumes "distinct (map c_id cs)" "parents_first cs"
    and "deletion_order cs us = xs @ p # ys" "c \<in> set ys"
  shows "\<not> parent_step cs (c_id c) (c_id p)"
proof
  assume "parent_step cs (c_id c) (c_id p)"
  then have "depthOf cs (c_id c) = Suc (depthOf cs (c_id p))"
    using assms(1,2) by (rule depthOf_parent [rotated 2])
  moreover have "depthOf cs (c_id c) \<le> depthOf cs (c_id p)"
    using deletion_order_sorted [of cs us] assms(3,4) by (auto simp: sorted_append)
  ultimately show False by simp
qed

end
