(* ===== verification/Sandbox.thy ===== *)
theory Sandbox
  imports History
begin

text \<open>
  \<open>SandboxService\<close> (\<open>src/domain/sandbox-service.ts\<close>): the thread workspaces, and the life of
  the runtime of a turn. The service keeps no state but the canonical empty commit; everything
  else is in the database.

  A handler awaits the backend, the file system and the object store in between its database
  statements. Their outcomes are the fields of \<open>externals\<close>; \<open>Inl e\<close> is a rejected promise.
  Each handler is cut at its awaits into segments that run without interruption, which is how
  operations of different turns interleave, and is also given as a whole, run alone.
\<close>

section \<open>What the handlers await\<close>

record host_probe =
  hp_available :: bool
  hp_reason :: "string option"

record snapshot_result =
  sn_workspacePath :: string
  sn_cfsPath :: "string option"
  sn_treeDigest :: "digest option"

record externals =
  ex_preflight :: "backend \<Rightarrow> host_probe res"
  ex_mkdir :: "string \<Rightarrow> unit res"
  ex_materialize :: "string \<Rightarrow> string \<Rightarrow> unit res"
  ex_create :: "backend \<Rightarrow> string \<Rightarrow> string \<Rightarrow> resource_profile \<Rightarrow> network_profile \<Rightarrow> backend_handle res"
  ex_snapshot :: "backend \<Rightarrow> backend_handle \<Rightarrow> string \<Rightarrow> snapshot_result res"
  ex_ingest :: "string \<Rightarrow> string \<Rightarrow> digest option \<Rightarrow> tree_row res"
  ex_export :: "string \<Rightarrow> string \<Rightarrow> tree_row res"
  ex_rm :: "string \<Rightarrow> unit res"
  ex_destroy :: "backend \<Rightarrow> backend_handle \<Rightarrow> unit res"
  ex_sha256 :: "string \<Rightarrow> string"

type_synonym 'a run = "'a res \<times> db"

definition with_res :: "'a res \<Rightarrow> db \<Rightarrow> ('a \<Rightarrow> 'b run) \<Rightarrow> 'b run" where
  "with_res r d k = (case r of Inl e \<Rightarrow> (Inl e, d) | Inr x \<Rightarrow> k x)"

lemma with_res_simps [simp]:
  "with_res (Inl e) d k = (Inl e, d)"
  "with_res (Inr x) d k = k x"
  by (simp_all add: with_res_def)

lemma with_res_Inr [res_simps]:
  "with_res r d k = (Inr y, d') \<longleftrightarrow> (\<exists>x. r = Inr x \<and> k x = (Inr y, d'))"
  by (cases r) auto

lemma with_res_Inl [res_simps]:
  "with_res r d k = (Inl e, d') \<longleftrightarrow> (r = Inl e \<and> d' = d) \<or> (\<exists>x. r = Inr x \<and> k x = (Inl e, d'))"
  by (cases r) auto

text \<open>The service's fields. \<open>join\<close> of the data directory, an absolute normal path, with plain
  names puts slashes between them.\<close>

record sandbox_service =
  sb_dataDir :: string
  sb_emptyCommit :: "digest option"

definition treeRoot :: "sandbox_service \<Rightarrow> string" where
  "treeRoot sb = path_join [sb_dataDir sb, ''objects'', ''trees'']"

definition instanceDir :: "sandbox_service \<Rightarrow> string \<Rightarrow> string" where
  "instanceDir sb iid = path_join [sb_dataDir sb, ''instances'', iid]"

text \<open>\<open>digest\<close> and \<open>commitDigest\<close> of \<open>src/storage/cfs.ts\<close>, over the hexadecimal SHA-256.\<close>

definition commit_text :: "digest \<Rightarrow> digest \<Rightarrow> digest option \<Rightarrow> string" where
  "commit_text contractDigest treeDigest parentId =
     join_with NUL [''electrosphere-commit'', ''v1'', contractDigest, treeDigest,
       (case parentId of None \<Rightarrow> '''' | Some p \<Rightarrow> p)]"

definition commitDigest :: "(string \<Rightarrow> string) \<Rightarrow> digest \<Rightarrow> digest \<Rightarrow> digest option \<Rightarrow> digest" where
  "commitDigest sha contractDigest treeDigest parentId =
     digest_of sha (commit_text contractDigest treeDigest parentId)"

section \<open>Workspaces\<close>

definition initialize :: "externals \<Rightarrow> sandbox_service \<Rightarrow> db \<Rightarrow> sandbox_service run" where
  "initialize ex sb d =
     with_res (bind_res (ex_mkdir ex (treeRoot sb)) (\<lambda>_.
        bind_res (ex_mkdir ex (path_join [sb_dataDir sb, ''instances''])) (\<lambda>_.
        bind_res (ex_mkdir ex (path_join [sb_dataDir sb, ''canonical-empty''])) (\<lambda>_.
        ex_export ex (path_join [sb_dataDir sb, ''canonical-empty'']) (treeRoot sb))))) d (\<lambda>tree.
     let cid = commitDigest (ex_sha256 ex) EMPTY_CONTRACT_DIGEST (tr_digest tree) None;
         d1 = putTreeObject tree d
     in with_res (putCommit cid (tr_digest tree) EMPTY_CONTRACT_DIGEST None d1) d1 (\<lambda>d2.
          (Inr (sb\<lparr>sb_emptyCommit := Some cid\<rparr>), d2)))"

definition getCanonicalEmptyCommit :: "sandbox_service \<Rightarrow> digest res" where
  "getCanonicalEmptyCommit sb =
     (case truthy (sb_emptyCommit sb) of
        None \<Rightarrow> Inl (PlainError ''SandboxService is not initialized'')
      | Some c \<Rightarrow> Inr c)"

definition workspaceView :: "db \<Rightarrow> string \<Rightarrow> workspace_view res" where
  "workspaceView d wid =
     (case loadWorkspaceRefs d wid of
        None \<Rightarrow> Inl (service_err NOT_FOUND ''Thread workspace not found'')
      | Some (_, rfs) \<Rightarrow>
          (case select1 (\<lambda>r. rf_name r = ''main'') rfs of
             None \<Rightarrow> Inl (service_err NOT_FOUND ''Thread workspace main ref not found'')
           | Some r \<Rightarrow> Inr \<lparr>wv_workspaceId = wid, wv_ref = ''main'', wv_headCommit = rf_headCommit r\<rparr>))"

definition ensureThreadWorkspace :: "sandbox_service \<Rightarrow> string \<Rightarrow> string \<Rightarrow> db \<Rightarrow> workspace_view run" where
  "ensureThreadWorkspace sb uuid threadId d =
     (case getThreadWorkspace d threadId of
        Some existing \<Rightarrow> (workspaceView d (tw_workspaceId existing), d)
      | None \<Rightarrow> with_res (getCanonicalEmptyCommit sb) d (\<lambda>headCommit.
          case createThreadWorkspace threadId uuid headCommit d of
            Inr d' \<Rightarrow> (Inr \<lparr>wv_workspaceId = uuid, wv_ref = ''main'', wv_headCommit = headCommit\<rparr>, d')
          | Inl e \<Rightarrow> (case getThreadWorkspace d threadId of
                Some created \<Rightarrow> (workspaceView d (tw_workspaceId created), d)
              | None \<Rightarrow> (Inl e, d))))"

section \<open>Creating the runtime of a turn\<close>

record runtime_input =
  ct_instanceId :: string
  ct_kind :: sandbox_kind
  ct_baseCommit :: digest
  ct_workspaceId :: "string option"
  ct_backend :: backend
  ct_network :: network_profile
  ct_resourceProfile :: resource_profile

fun backend_name :: "backend \<Rightarrow> string" where
  "backend_name Docker = ''docker''"
| "backend_name Firecracker = ''firecracker''"

definition runtime_lookup :: "runtime_input \<Rightarrow> db \<Rightarrow> tree_row res" where
  "runtime_lookup inp d =
     (case getCommit d (ct_baseCommit inp) of
        None \<Rightarrow> Inl (service_err NOT_FOUND ''Commit not found'')
      | Some commit \<Rightarrow>
          (case getTreeObject d (c_treeDigest commit) of
             None \<Rightarrow> Inl (service_err NOT_FOUND ''Commit tree object not found'')
           | Some tree \<Rightarrow>
               if ct_kind inp = Durable \<and> truthy (ct_workspaceId inp) = None
               then Inl (service_err INVALID_ARGUMENT ''Durable runtime requires a workspace'')
               else if ct_kind inp = Instant \<and> truthy (ct_workspaceId inp) \<noteq> None
               then Inl (service_err INVALID_ARGUMENT ''Instant runtime cannot use a workspace'')
               else Inr tree))"

definition runtime_prepare :: "externals \<Rightarrow> sandbox_service \<Rightarrow> runtime_input \<Rightarrow> tree_row \<Rightarrow> unit res" where
  "runtime_prepare ex sb inp tree =
     bind_res (ex_preflight ex (ct_backend inp)) (\<lambda>probe.
     if \<not> hp_available probe
     then Inl (service_err BACKEND_UNAVAILABLE (case hp_reason probe of
            Some reason \<Rightarrow> reason | None \<Rightarrow> backend_name (ct_backend inp) @ '' backend unavailable''))
     else bind_res (ex_mkdir ex (instanceDir sb (ct_instanceId inp))) (\<lambda>_.
       ex_materialize ex (tr_path tree)
         (path_join [instanceDir sb (ct_instanceId inp), ''workspace''])))"

definition runtime_row :: "sandbox_service \<Rightarrow> runtime_input \<Rightarrow> instance_row" where
  "runtime_row sb inp =
     \<lparr>i_id = ct_instanceId inp, i_kind = ct_kind inp, i_backend = ct_backend inp,
      i_state = I_PROVISIONING, i_workspaceId = truthy (ct_workspaceId inp),
      i_baseCommit = ct_baseCommit inp, i_backendHandle = None,
      i_workspacePath = path_join [instanceDir sb (ct_instanceId inp), ''workspace''],
      i_resourceProfile = ct_resourceProfile inp, i_network = ct_network inp, i_lastError = None\<rparr>"

definition instanceView :: "instance_row \<Rightarrow> instance_view" where
  "instanceView row =
     \<lparr>iv_instantId = i_id row, iv_kind = i_kind row, iv_backend = i_backend row,
      iv_nodeId = ''local'', iv_state = i_state row, iv_baseCommit = i_baseCommit row,
      iv_workspaceId = truthy (i_workspaceId row), iv_network = i_network row,
      iv_resourceProfile = i_resourceProfile row\<rparr>"

text \<open>What happens once the backend has answered.\<close>

definition runtime_created :: "externals \<Rightarrow> sandbox_service \<Rightarrow> string \<Rightarrow> backend_handle res \<Rightarrow> db \<Rightarrow> instance_view run" where
  "runtime_created ex sb iid answer d =
     (case answer of
        Inr handle \<Rightarrow>
          (let d' = updateInstance iid
             \<lparr>v_state = Some I_READY, v_backendHandle = Some (Some handle), v_lastError = None\<rparr> d
           in (case getInstance d' iid of
                 None \<Rightarrow> (Inl (service_err BACKEND_ERROR ''Runtime record disappeared after creation''), d')
               | Some row \<Rightarrow> (Inr (instanceView row), d')))
      | Inl e \<Rightarrow>
          (let d' = updateInstance iid
             \<lparr>v_state = Some I_FAILED, v_backendHandle = None, v_lastError = Some (Some (error_message e))\<rparr> d
           in with_res (ex_rm ex (instanceDir sb iid)) d' (\<lambda>_. (Inl e, d'))))"

definition createTurnRuntime :: "externals \<Rightarrow> sandbox_service \<Rightarrow> runtime_input \<Rightarrow> db \<Rightarrow> instance_view run" where
  "createTurnRuntime ex sb inp d =
     with_res (runtime_lookup inp d) d (\<lambda>tree.
     with_res (runtime_prepare ex sb inp tree) d (\<lambda>_.
     with_res (createInstance (runtime_row sb inp) d) d (\<lambda>d1.
     runtime_created ex sb (ct_instanceId inp)
       (ex_create ex (ct_backend inp) (ct_instanceId inp) (i_workspacePath (runtime_row sb inp))
          (ct_resourceProfile inp) (ct_network inp)) d1)))"

fun state_name :: "instance_state \<Rightarrow> string" where
  "state_name I_PROVISIONING = ''PROVISIONING''"
| "state_name I_READY = ''READY''"
| "state_name I_RUNNING = ''RUNNING''"
| "state_name I_COMMITTING = ''COMMITTING''"
| "state_name I_TERMINATING = ''TERMINATING''"
| "state_name I_TERMINATED = ''TERMINATED''"
| "state_name I_FAILED = ''FAILED''"
| "state_name I_LOST = ''LOST''"

definition getTurnHandle :: "db \<Rightarrow> string \<Rightarrow> (instance_row \<times> backend_handle) res" where
  "getTurnHandle d iid =
     (case getInstance d iid of
        None \<Rightarrow> Inl (service_err NOT_FOUND ''Turn runtime is unavailable'')
      | Some row \<Rightarrow>
          (case i_backendHandle row of
             None \<Rightarrow> Inl (service_err NOT_FOUND ''Turn runtime is unavailable'')
           | Some handle \<Rightarrow>
               if i_state row \<notin> {I_READY, I_RUNNING}
               then Inl (service_err INSTANCE_BUSY (''Turn runtime is '' @ state_name (i_state row)))
               else Inr (row, handle)))"

definition setInstanceState :: "string \<Rightarrow> instance_state \<Rightarrow> db \<Rightarrow> db" where
  "setInstanceState iid s d = updateInstance iid (set_state s) d"

section \<open>Committing the runtime of a turn\<close>

record commit_input =
  ci_threadId :: string
  ci_turnId :: string
  ci_instanceId :: string
  ci_workspaceId :: string
  ci_ref :: string
  ci_expectedHead :: digest
  ci_operationId :: string

record turn_commit_result =
  tcr_commitId :: digest
  tcr_treeDigest :: digest
  tcr_workspaceId :: string
  tcr_ref :: string
  tcr_headCommit :: digest

text \<open>The segment before the snapshot: the guards, then the operation and the COMMITTING state.\<close>

definition commit_begin :: "commit_input \<Rightarrow> db \<Rightarrow> ((instance_row \<times> backend_handle) \<times> db) res" where
  "commit_begin ci d =
     (case getInstance d (ci_instanceId ci) of
        None \<Rightarrow> Inl (service_err NOT_FOUND ''Turn runtime not found'')
      | Some row \<Rightarrow>
     (case i_backendHandle row of
        None \<Rightarrow> Inl (service_err NOT_FOUND ''Turn runtime not found'')
      | Some handle \<Rightarrow>
          if i_kind row \<noteq> Durable \<or> i_workspaceId row \<noteq> Some (ci_workspaceId ci) \<or>
             i_baseCommit row \<noteq> ci_expectedHead ci
          then Inl (service_err INVALID_ARGUMENT ''Turn runtime binding does not match commit request'')
          else if i_state row = I_RUNNING
          then Inl (service_err INSTANCE_BUSY ''Turn runtime has running sessions'')
          else if i_state row \<noteq> I_READY
          then Inl (service_err INSTANCE_BUSY (''Turn runtime is '' @ state_name (i_state row)))
          else if getRef d (ci_workspaceId ci) (ci_ref ci) = None
          then Inl (service_err NOT_FOUND ''Thread workspace ref not found'')
          else bind_res (beginHarnessOperation (ci_operationId ci) ''commit_turn_runtime''
                 (ci_operationId ci) d) (\<lambda>d1.
               Inr ((row, handle), updateInstance (ci_instanceId ci) (set_state I_COMMITTING) d1))))"

text \<open>The awaited part: the snapshot, and the tree object made of it. A copy the backend left at
  \<open>cfsPath\<close> is removed whatever the ingestion did, and a failure to remove it is thrown.\<close>

definition snapshot_tree :: "externals \<Rightarrow> sandbox_service \<Rightarrow> instance_row \<Rightarrow> backend_handle \<Rightarrow> tree_row res" where
  "snapshot_tree ex sb row handle =
     bind_res (ex_snapshot ex (i_backend row) handle (path_join [sb_dataDir sb, ''staging'']))
       (\<lambda>snapshot.
     case truthy (sn_cfsPath snapshot) of
       Some cfsPath \<Rightarrow>
         (let ingested = ex_ingest ex cfsPath (treeRoot sb) (sn_treeDigest snapshot)
          in bind_res (ex_rm ex cfsPath) (\<lambda>_. ingested))
     | None \<Rightarrow> ex_export ex (sn_workspacePath snapshot) (treeRoot sb))"

definition commit_response :: "commit_input \<Rightarrow> digest \<Rightarrow> digest \<Rightarrow> turn_result" where
  "commit_response ci newCommit treeDigest =
     \<lparr>r_threadId = Some (ci_threadId ci), r_turnId = Some (ci_turnId ci), r_mode = Some Durable,
      r_state = Some T_FINISHED, r_instanceId = Some (ci_instanceId ci), r_workspaceId = Some (ci_workspaceId ci),
      r_headCommit = Some newCommit, r_commitId = Some newCommit, r_treeDigest = Some treeDigest,
      r_ref = Some (ci_ref ci), r_cleanupError = None\<rparr>"

definition commit_publish_input :: "commit_input \<Rightarrow> digest \<Rightarrow> tree_row \<Rightarrow> int \<Rightarrow> publish_input" where
  "commit_publish_input ci newCommit tree now =
     \<lparr>p_operationId = ci_operationId ci, p_threadId = ci_threadId ci, p_turnId = ci_turnId ci,
      p_instanceId = ci_instanceId ci, p_workspaceId = ci_workspaceId ci, p_ref = ci_ref ci,
      p_expectedHead = ci_expectedHead ci, p_tree = tree, p_commitId = newCommit,
      p_contractDigest = EMPTY_CONTRACT_DIGEST, p_parentId = ci_expectedHead ci,
      p_response = commit_response ci newCommit (tr_digest tree), p_now = now\<rparr>"

definition commit_publish :: "(string \<Rightarrow> string) \<Rightarrow> commit_input \<Rightarrow> tree_row \<Rightarrow> int \<Rightarrow> db \<Rightarrow> turn_commit_result run" where
  "commit_publish sha ci tree now d =
     (let newCommit = commitDigest sha EMPTY_CONTRACT_DIGEST (tr_digest tree) (Some (ci_expectedHead ci))
      in case publishTurnCommit (commit_publish_input ci newCommit tree now) d of
           Inl e \<Rightarrow> (Inl e, d)
         | Inr (updated, d') \<Rightarrow>
             if \<not> updated
             then (Inl (ServiceError HEAD_CONFLICT ''Thread workspace ref changed''
                     (Some (CommitConflict newCommit
                        (map_option rf_headCommit (getRef d' (ci_workspaceId ci) (ci_ref ci)))))), d')
             else (Inr \<lparr>tcr_commitId = newCommit, tcr_treeDigest = tr_digest tree,
                     tcr_workspaceId = ci_workspaceId ci, tcr_ref = ci_ref ci,
                     tcr_headCommit = newCommit\<rparr>, d'))"

text \<open>The \<open>catch\<close> block.\<close>

definition commit_failed :: "commit_input \<Rightarrow> js_error \<Rightarrow> db \<Rightarrow> db" where
  "commit_failed ci e d =
     (let d1 = failOperation (ci_operationId ci) e d
      in case getInstance d1 (ci_instanceId ci) of
           Some latest \<Rightarrow> if i_state latest = I_COMMITTING
             then updateInstance (ci_instanceId ci) (set_state I_READY) d1 else d1
         | None \<Rightarrow> d1)"

text \<open>Everything after the guards, run on the database left by \<open>commit_begin\<close>.\<close>

definition commit_finish :: "externals \<Rightarrow> commit_input \<Rightarrow> tree_row res \<Rightarrow> int \<Rightarrow> db \<Rightarrow> turn_commit_result run" where
  "commit_finish ex ci answer now d =
     (case with_res answer d (\<lambda>tree. commit_publish (ex_sha256 ex) ci tree now d) of
        (Inr result, d') \<Rightarrow> (Inr result, d')
      | (Inl e, d') \<Rightarrow> (Inl e, commit_failed ci e d'))"

definition commitTurnRuntime :: "externals \<Rightarrow> sandbox_service \<Rightarrow> commit_input \<Rightarrow> int \<Rightarrow> db \<Rightarrow> turn_commit_result run" where
  "commitTurnRuntime ex sb ci now d =
     with_res (commit_begin ci d) d (\<lambda>((row, handle), d1).
       commit_finish ex ci (snapshot_tree ex sb row handle) now d1)"

section \<open>Deleting runtimes\<close>

text \<open>The segment before the backend destroys the runtime, and the one after it has.\<close>

definition delete_begin :: "string \<Rightarrow> db \<Rightarrow> (instance_row \<times> db) option" where
  "delete_begin iid d =
     (case getInstance d iid of
        None \<Rightarrow> None
      | Some row \<Rightarrow> if i_state row = I_TERMINATED then None
          else Some (row, updateInstance iid (set_state I_TERMINATING) d))"

definition destroy_runtime :: "externals \<Rightarrow> sandbox_service \<Rightarrow> instance_row \<Rightarrow> unit res" where
  "destroy_runtime ex sb row =
     bind_res (case i_backendHandle row of None \<Rightarrow> Inr ()
               | Some handle \<Rightarrow> ex_destroy ex (i_backend row) handle) (\<lambda>_.
       ex_rm ex (instanceDir sb (i_id row)))"

abbreviation terminated_update :: instance_update where
  "terminated_update \<equiv> \<lparr>v_state = Some I_TERMINATED, v_backendHandle = Some None, v_lastError = None\<rparr>"

definition deleteTurnRuntime :: "externals \<Rightarrow> sandbox_service \<Rightarrow> string \<Rightarrow> db \<Rightarrow> unit run" where
  "deleteTurnRuntime ex sb iid d =
     (case delete_begin iid d of
        None \<Rightarrow> (Inr (), d)
      | Some (row, d1) \<Rightarrow> with_res (destroy_runtime ex sb row) d1 (\<lambda>_.
          (Inr (), updateInstance iid terminated_update d1)))"

definition live_states :: "instance_state list" where
  "live_states = [I_PROVISIONING, I_READY, I_RUNNING, I_COMMITTING, I_TERMINATING]"

text \<open>\<open>close\<close> ignores what \<open>destroy\<close> answers; it returns the runtimes it asked to destroy.\<close>

definition close_instance :: "instance_row \<Rightarrow> db \<Rightarrow> db" where
  "close_instance row d = updateInstance (i_id row) terminated_update d"

definition close_service :: "db \<Rightarrow> db \<times> (backend \<times> backend_handle) list" where
  "close_service d =
     (let rows = listInstances d live_states
      in (fold close_instance rows d,
          List.map_filter (\<lambda>row. map_option (\<lambda>h. (i_backend row, h)) (i_backendHandle row)) rows))"

end
