(* ===== verification/Sandbox_Inv.thy ===== *)
theory Sandbox_Inv
  imports Sandbox
begin

text \<open>
  What the handlers of \<open>Sandbox\<close> leave in the database, on every branch, and that all of them
  keep the constraints of the schema.
\<close>

section \<open>Creating a runtime\<close>

lemma createInstance_Inr:
  "createInstance r d = Inr d' \<longleftrightarrow>
     i_id r \<notin> instance_ids d \<and> instance_fks_ok d r \<and> d' = d\<lparr>db_instances := db_instances d @ [r]\<rparr>"
  by (auto simp: createInstance_def instance_exists_def)

lemma update_created:
  assumes "i_id r \<notin> instance_ids d"
  shows "updateInstance (i_id r) v (d\<lparr>db_instances := db_instances d @ [r]\<rparr>) =
    d\<lparr>db_instances := db_instances d @ [apply_instance_update v r]\<rparr>"
proof -
  have "update_where (\<lambda>x. i_id x = i_id r) (apply_instance_update v) (db_instances d) = db_instances d"
  proof (rule update_where_id)
    show "i_id x \<noteq> i_id r" if "x \<in> set (db_instances d)" for x
      using assms imageI [OF that, of i_id] by (auto simp: instance_ids_def)
  qed
  then show ?thesis by (simp add: updateInstance_def update_where_def)
qed

lemma getInstance_created:
  "i_id r \<notin> instance_ids d \<Longrightarrow>
   getInstance (d\<lparr>db_instances := db_instances d @ [r]\<rparr>) (i_id r) = Some r"
proof -
  assume "i_id r \<notin> instance_ids d"
  then have "select1 (\<lambda>x. i_id x = i_id r) (db_instances d) = None"
    unfolding select1_None instance_ids_def by (metis imageI)
  then show ?thesis by (simp add: getInstance_def select1_append)
qed

text \<open>The row of a runtime that the backend has created, and of one that it could not create.\<close>

definition ready_row :: "sandbox_service \<Rightarrow> runtime_input \<Rightarrow> backend_handle \<Rightarrow> instance_row" where
  "ready_row sb inp handle =
     (runtime_row sb inp)\<lparr>i_state := I_READY, i_backendHandle := Some handle\<rparr>"

definition failed_row :: "sandbox_service \<Rightarrow> runtime_input \<Rightarrow> js_error \<Rightarrow> instance_row" where
  "failed_row sb inp e =
     (runtime_row sb inp)\<lparr>i_state := I_FAILED, i_lastError := Some (error_message e)\<rparr>"

lemma runtime_row_simps [simp]:
  "i_id (runtime_row sb inp) = ct_instanceId inp" "i_state (runtime_row sb inp) = I_PROVISIONING"
  "i_kind (runtime_row sb inp) = ct_kind inp" "i_backendHandle (runtime_row sb inp) = None"
  "i_baseCommit (runtime_row sb inp) = ct_baseCommit inp"
  "i_workspaceId (runtime_row sb inp) = truthy (ct_workspaceId inp)"
  "i_backend (runtime_row sb inp) = ct_backend inp"
  by (simp_all add: runtime_row_def)

lemma ready_row_simps [simp]:
  "i_id (ready_row sb inp h) = ct_instanceId inp" "i_state (ready_row sb inp h) = I_READY"
  "i_kind (ready_row sb inp h) = ct_kind inp" "i_backendHandle (ready_row sb inp h) = Some h"
  "i_baseCommit (ready_row sb inp h) = ct_baseCommit inp"
  "i_workspaceId (ready_row sb inp h) = truthy (ct_workspaceId inp)"
  "i_backend (ready_row sb inp h) = ct_backend inp"
  "i_id (failed_row sb inp e) = ct_instanceId inp" "i_state (failed_row sb inp e) = I_FAILED"
  "i_baseCommit (failed_row sb inp e) = ct_baseCommit inp"
  by (simp_all add: ready_row_def failed_row_def)

lemma created_rows:
  "apply_instance_update
     \<lparr>v_state = Some I_READY, v_backendHandle = Some (Some h), v_lastError = None\<rparr> (runtime_row sb inp)
   = ready_row sb inp h"
  "apply_instance_update
     \<lparr>v_state = Some I_FAILED, v_backendHandle = None, v_lastError = Some (Some (error_message e))\<rparr>
     (runtime_row sb inp) = failed_row sb inp e"
  by (simp_all add: apply_instance_update_def ready_row_def failed_row_def)

lemma runtime_created_eq:
  assumes "ct_instanceId inp \<notin> instance_ids d"
  shows "runtime_created ex sb (ct_instanceId inp) answer
      (d\<lparr>db_instances := db_instances d @ [runtime_row sb inp]\<rparr>) =
    (case answer of
       Inr h \<Rightarrow> (Inr (instanceView (ready_row sb inp h)),
                  d\<lparr>db_instances := db_instances d @ [ready_row sb inp h]\<rparr>)
     | Inl e \<Rightarrow> (let d' = d\<lparr>db_instances := db_instances d @ [failed_row sb inp e]\<rparr>
         in with_res (ex_rm ex (instanceDir sb (ct_instanceId inp))) d' (\<lambda>_. (Inl e, d'))))"
proof -
  note upd = update_created [where r = "runtime_row sb inp", simplified, OF assms]
  have "getInstance (d\<lparr>db_instances := db_instances d @ [ready_row sb inp h]\<rparr>) (ct_instanceId inp)
      = Some (ready_row sb inp h)" for h
    using getInstance_created [of "ready_row sb inp h" d] assms by simp
  then show ?thesis
    by (simp add: runtime_created_def upd created_rows split: sum.splits)
qed

text \<open>The three ways the handler ends: nothing was written, the runtime is ready, or its row is
  there and failed.\<close>

lemma createTurnRuntime_cases:
  assumes "createTurnRuntime ex sb inp d = (r, d')"
  obtains (nothing) e where "r = Inl e" "d' = d"
  | (ready) h tree where "r = Inr (instanceView (ready_row sb inp h))"
      "d' = d\<lparr>db_instances := db_instances d @ [ready_row sb inp h]\<rparr>"
      "createInstance (runtime_row sb inp) d = Inr (d\<lparr>db_instances := db_instances d @ [runtime_row sb inp]\<rparr>)"
      "runtime_lookup inp d = Inr tree" "runtime_prepare ex sb inp tree = Inr ()"
  | (failed) e e' where "r = Inl e"
      "d' = d\<lparr>db_instances := db_instances d @ [failed_row sb inp e']\<rparr>"
      "createInstance (runtime_row sb inp) d = Inr (d\<lparr>db_instances := db_instances d @ [runtime_row sb inp]\<rparr>)"
proof (cases "runtime_lookup inp d")
  case (Inl e)
  then have "r = Inl e" "d' = d" using assms by (simp_all add: createTurnRuntime_def)
      then show thesis by (rule nothing)
next
  case lookup: (Inr tree)
  show thesis
  proof (cases "runtime_prepare ex sb inp tree")
    case (Inl e)
    then have "r = Inl e" "d' = d" using assms lookup by (simp_all add: createTurnRuntime_def)
      then show thesis by (rule nothing)
  next
    case prep: (Inr u)
    show thesis
    proof (cases "createInstance (runtime_row sb inp) d")
      case (Inl e)
      then have "r = Inl e" "d' = d" using assms lookup prep by (simp_all add: createTurnRuntime_def)
      then show thesis by (rule nothing)
    next
      case ins: (Inr d1)
      then have new: "ct_instanceId inp \<notin> instance_ids d"
        and d1: "d1 = d\<lparr>db_instances := db_instances d @ [runtime_row sb inp]\<rparr>"
        by (simp_all add: createInstance_Inr)
      let ?answer = "ex_create ex (ct_backend inp) (ct_instanceId inp)
        (i_workspacePath (runtime_row sb inp)) (ct_resourceProfile inp) (ct_network inp)"
      have run: "runtime_created ex sb (ct_instanceId inp) ?answer d1 = (r, d')"
        using assms lookup prep ins by (simp add: createTurnRuntime_def)
      show thesis
      proof (cases ?answer)
        case (Inl e)
        then obtain e2 where "r = Inl e2"
          "d' = d\<lparr>db_instances := db_instances d @ [failed_row sb inp e]\<rparr>"
          using run d1 runtime_created_eq [OF new, of ex sb ?answer]
          by (cases "ex_rm ex (instanceDir sb (ct_instanceId inp))") (auto simp: Let_def)
        with ins d1 show thesis by (intro failed) simp_all
      next
        case (Inr h)
        then have "r = Inr (instanceView (ready_row sb inp h))"
          "d' = d\<lparr>db_instances := db_instances d @ [ready_row sb inp h]\<rparr>"
          using run d1 runtime_created_eq [OF new, of ex sb ?answer] by simp_all
        with ins d1 lookup prep show thesis by (intro ready) simp_all
      qed
    qed
  qed
qed

lemma instances_ok_append_row:
  assumes "db_ok d" "createInstance r0 d = Inr d0" "i_id r = i_id r0"
    "i_workspaceId r = i_workspaceId r0" "i_baseCommit r = i_baseCommit r0"
  shows "db_ok (d\<lparr>db_instances := db_instances d @ [r]\<rparr>)"
proof -
  have "createInstance r d = Inr (d\<lparr>db_instances := db_instances d @ [r]\<rparr>)"
    using assms(2-) by (simp add: createInstance_Inr instance_fks_ok_def)
  then show ?thesis by (rule db_ok_createInstance [OF assms(1)])
qed

lemma db_ok_createTurnRuntime:
  assumes "db_ok d" "createTurnRuntime ex sb inp d = (r, d')"
  shows "db_ok d'"
  using assms(2)
proof (cases rule: createTurnRuntime_cases)
  case nothing
  then show ?thesis using assms(1) by simp
next
  case (ready h tree)
  show ?thesis unfolding ready(2)
    by (rule instances_ok_append_row [OF assms(1) ready(3)]) simp_all
next
  case (failed e e')
  show ?thesis unfolding failed(2)
    by (rule instances_ok_append_row [OF assms(1) failed(3)]) (simp_all add: failed_row_def)
qed

section \<open>Committing a runtime\<close>

lemma failOperation_tables [simp]:
  "db_turns (failOperation i e d) = db_turns d" "db_refs (failOperation i e d) = db_refs d"
  "db_commits (failOperation i e d) = db_commits d"
  "db_instances (failOperation i e d) = db_instances d"
  "db_workspaces (failOperation i e d) = db_workspaces d"
  "db_threadWorkspaces (failOperation i e d) = db_threadWorkspaces d"
  "db_treeObjects (failOperation i e d) = db_treeObjects d"
  "db_artifacts (failOperation i e d) = db_artifacts d"
  "db_grants (failOperation i e d) = db_grants d"
  "getInstance (failOperation i e d) j = getInstance d j"
  by (simp_all add: failOperation_def getInstance_def)

lemma beginHarnessOperation_Inr:
  "beginHarnessOperation i k c d = Inr d' \<longleftrightarrow>
     i \<notin> o_id ` set (db_operations d) \<and> (k, c) \<notin> operation_key ` set (db_operations d) \<and>
     d' = d\<lparr>db_operations := db_operations d @
       [\<lparr>o_id = i, o_kind = k, o_clientRequestId = c, o_status = O_RUNNING,
         o_responseJson = None, o_errorJson = None\<rparr>]\<rparr>"
  by (auto simp: beginHarnessOperation_def)

lemma commit_begin_Inr:
  "commit_begin ci d = Inr ((row, h), d1) \<longleftrightarrow>
     getInstance d (ci_instanceId ci) = Some row \<and> i_backendHandle row = Some h \<and>
     i_kind row = Durable \<and> i_workspaceId row = Some (ci_workspaceId ci) \<and>
     i_baseCommit row = ci_expectedHead ci \<and> i_state row = I_READY \<and>
     getRef d (ci_workspaceId ci) (ci_ref ci) \<noteq> None \<and>
     (\<exists>d0. beginHarnessOperation (ci_operationId ci) ''commit_turn_runtime'' (ci_operationId ci) d = Inr d0 \<and>
        d1 = updateInstance (ci_instanceId ci) (set_state I_COMMITTING) d0)"
  by (auto simp: commit_begin_def bind_res_Inr split: option.splits)

lemma commit_failed_tables [simp]:
  "db_turns (commit_failed ci e d) = db_turns d" "db_refs (commit_failed ci e d) = db_refs d"
  "db_commits (commit_failed ci e d) = db_commits d"
  "db_workspaces (commit_failed ci e d) = db_workspaces d"
  "db_threadWorkspaces (commit_failed ci e d) = db_threadWorkspaces d"
  "db_treeObjects (commit_failed ci e d) = db_treeObjects d"
  "db_artifacts (commit_failed ci e d) = db_artifacts d"
  "db_grants (commit_failed ci e d) = db_grants d"
  by (simp_all add: commit_failed_def Let_def split: option.splits)

lemma db_ok_commit_failed: "db_ok d \<Longrightarrow> db_ok (commit_failed ci e d)"
  by (auto simp: commit_failed_def Let_def db_ok_failOperation db_ok_updateInstance split: option.splits)

text \<open>The instance after a failed commit is READY again, where it was COMMITTING.\<close>

lemma getInstance_commit_failed:
  "getInstance (commit_failed ci e d) j =
     (case getInstance d j of None \<Rightarrow> None
      | Some r \<Rightarrow> Some (if j = ci_instanceId ci \<and> i_state r = I_COMMITTING then r\<lparr>i_state := I_READY\<rparr> else r))"
  by (auto simp: commit_failed_def Let_def getInstance_updateInstance apply_instance_update_def
      split: option.splits)

lemma commit_finish_cases:
  assumes "commit_finish ex ci answer now d = (r, d')"
  obtains (published) tree where "answer = Inr tree"
      "publishTurnCommit (commit_publish_input ci (commitDigest (ex_sha256 ex) EMPTY_CONTRACT_DIGEST
         (tr_digest tree) (Some (ci_expectedHead ci))) tree now) d = Inr (True, d')"
      "r = Inr \<lparr>tcr_commitId = commitDigest (ex_sha256 ex) EMPTY_CONTRACT_DIGEST (tr_digest tree)
         (Some (ci_expectedHead ci)), tcr_treeDigest = tr_digest tree,
         tcr_workspaceId = ci_workspaceId ci, tcr_ref = ci_ref ci,
         tcr_headCommit = commitDigest (ex_sha256 ex) EMPTY_CONTRACT_DIGEST (tr_digest tree)
         (Some (ci_expectedHead ci))\<rparr>"
  | (failed) e where "r = Inl e" "d' = commit_failed ci e d"
proof (cases answer)
  case (Inl e)
  then have "r = Inl e" "d' = commit_failed ci e d" using assms by (simp_all add: commit_finish_def)
  then show thesis by (rule failed)
next
  case (Inr tree)
  let ?c = "commitDigest (ex_sha256 ex) EMPTY_CONTRACT_DIGEST (tr_digest tree) (Some (ci_expectedHead ci))"
  let ?p = "commit_publish_input ci ?c tree now"
  show thesis
  proof (cases "publishTurnCommit ?p d")
    case (Inl e)
    then have "r = Inl e" "d' = commit_failed ci e d"
      using assms Inr by (simp_all add: commit_finish_def commit_publish_def Let_def)
    then show thesis by (rule failed)
  next
    case pub: (Inr bd)
    obtain b d2 where bd: "bd = (b, d2)" by force
    show thesis
    proof (cases b)
      case True
      with pub bd assms Inr show thesis
        by (intro published [OF Inr]) (simp_all add: commit_finish_def commit_publish_def Let_def)
    next
      case False
      with pub bd have d2: "d2 = d" by (simp add: publish_False)
      from False pub bd assms Inr d2 obtain e where "r = Inl e" "d' = commit_failed ci e d"
        by (auto simp: commit_finish_def commit_publish_def Let_def)
      then show thesis by (rule failed)
    qed
  qed
qed

lemma db_ok_commit_finish:
  assumes "db_ok d" "commit_finish ex ci answer now d = (r, d')"
  shows "db_ok d'"
  using assms(2)
proof (cases rule: commit_finish_cases)
  case (published tree)
  from published(2) show ?thesis by (rule db_ok_publish [OF assms(1)])
next
  case (failed e)
  then show ?thesis using db_ok_commit_failed [OF assms(1)] by simp
qed

lemma db_ok_commit_begin: "db_ok d \<Longrightarrow> commit_begin ci d = Inr ((row, h), d1) \<Longrightarrow> db_ok d1"
  unfolding commit_begin_Inr by (blast intro: db_ok_updateInstance db_ok_beginHarnessOperation)

text \<open>The whole handler, run alone: nothing was written, the commit was published on the
  database that \<open>commit_begin\<close> left, or it failed there.\<close>

lemma commitTurnRuntime_cases:
  assumes "commitTurnRuntime ex sb ci now d = (r, d')"
  obtains (nothing) e where "r = Inl e" "d' = d"
  | (ran) row h d1 where "commit_begin ci d = Inr ((row, h), d1)"
      "commit_finish ex ci (snapshot_tree ex sb row h) now d1 = (r, d')"
proof (cases "commit_begin ci d")
  case (Inl e)
  then have "r = Inl e" "d' = d" using assms by (simp_all add: commitTurnRuntime_def)
  then show thesis by (rule nothing)
next
  case (Inr x)
  obtain row h d1 where "x = ((row, h), d1)" by (metis prod.exhaust)
  with Inr assms show thesis by (intro ran) (simp_all add: commitTurnRuntime_def)
qed

lemma db_ok_commitTurnRuntime:
  assumes "db_ok d" "commitTurnRuntime ex sb ci now d = (r, d')"
  shows "db_ok d'"
  using assms(2)
  by (cases rule: commitTurnRuntime_cases)
    (use assms(1) in \<open>blast intro: db_ok_commit_begin db_ok_commit_finish\<close>)+

text \<open>A failed commit leaves every table but the operations as it was: the instance went from
  READY to COMMITTING and back.\<close>

lemma update_where_twice:
  "(\<And>r. P r \<Longrightarrow> P (f r)) \<Longrightarrow>
   update_where P g (update_where P f rs) = update_where P (\<lambda>r. g (f r)) rs"
  by (induction rs) auto

lemma commit_failed_restores:
  assumes "db_ok d" "commit_begin ci d = Inr ((row, h), d1)"
  shows "db_instances (commit_failed ci e d1) = db_instances d"
proof -
  from assms(2) obtain d0 where row: "getInstance d (ci_instanceId ci) = Some row" "i_state row = I_READY"
    and op: "beginHarnessOperation (ci_operationId ci) ''commit_turn_runtime'' (ci_operationId ci) d = Inr d0"
    and d1: "d1 = updateInstance (ci_instanceId ci) (set_state I_COMMITTING) d0"
    unfolding commit_begin_Inr by blast
  from op have d0: "db_instances d0 = db_instances d" by (auto simp: beginHarnessOperation_Inr)
  have "getInstance d1 (ci_instanceId ci) = Some (apply_instance_update (set_state I_COMMITTING) row)"
    using row d0 by (simp add: d1 getInstance_updateInstance) (simp add: getInstance_def)
  then have "db_instances (commit_failed ci e d1) =
      update_where (\<lambda>r. i_id r = ci_instanceId ci)
        (\<lambda>r. apply_instance_update (set_state I_READY) (apply_instance_update (set_state I_COMMITTING) r))
        (db_instances d)"
    unfolding commit_failed_def Let_def
    by (simp add: updateInstance_def) (simp add: d1 updateInstance_def d0 update_where_twice)
  also have "\<dots> = db_instances d"
    unfolding update_where_def
  proof (rule map_idI)
    fix r assume "r \<in> set (db_instances d)"
    then have "r = row" if "i_id r = ci_instanceId ci"
      using that row(1) getInstance_iff [OF assms(1), of "ci_instanceId ci" r] by simp
    then show "(if i_id r = ci_instanceId ci
        then apply_instance_update (set_state I_READY) (apply_instance_update (set_state I_COMMITTING) r)
        else r) = r"
      using row(2) by (auto simp: apply_instance_update_def)
  qed
  finally show ?thesis .
qed

lemma commit_begin_tables:
  assumes "commit_begin ci d = Inr (x, d1)"
  shows "db_turns d1 = db_turns d" "db_refs d1 = db_refs d" "db_commits d1 = db_commits d"
    "db_workspaces d1 = db_workspaces d" "db_threadWorkspaces d1 = db_threadWorkspaces d"
    "db_treeObjects d1 = db_treeObjects d" "db_artifacts d1 = db_artifacts d"
    "db_grants d1 = db_grants d"
proof -
  obtain row h where "x = ((row, h))" by force
  with assms obtain d0 where "d1 = updateInstance (ci_instanceId ci) (set_state I_COMMITTING) d0"
    "\<exists>os. d0 = d\<lparr>db_operations := os\<rparr>"
    unfolding commit_begin_Inr beginHarnessOperation_Inr by (auto simp: commit_begin_Inr beginHarnessOperation_Inr)
  then show "db_turns d1 = db_turns d" "db_refs d1 = db_refs d" "db_commits d1 = db_commits d"
    "db_workspaces d1 = db_workspaces d" "db_threadWorkspaces d1 = db_threadWorkspaces d"
    "db_treeObjects d1 = db_treeObjects d" "db_artifacts d1 = db_artifacts d"
    "db_grants d1 = db_grants d" by auto
qed

lemma commitTurnRuntime_failure:
  assumes "db_ok d" "commitTurnRuntime ex sb ci now d = (Inl e, d')"
  shows "d' = d\<lparr>db_operations := db_operations d'\<rparr>"
  using assms(2)
proof (cases rule: commitTurnRuntime_cases)
  case nothing
  then show ?thesis by simp
next
  case (ran row h d1)
  from ran(2) show ?thesis
  proof (cases rule: commit_finish_cases)
    case (failed e')
    then show ?thesis
      using commit_failed_restores [OF assms(1) ran(1)] commit_begin_tables [OF ran(1)]
      by (intro db.equality) simp_all
  qed simp
qed

section \<open>Deleting runtimes\<close>

lemma delete_begin_Some:
  "delete_begin i d = Some (row, d1) \<longleftrightarrow>
     getInstance d i = Some row \<and> i_state row \<noteq> I_TERMINATED \<and>
     d1 = updateInstance i (set_state I_TERMINATING) d"
  by (auto simp: delete_begin_def split: option.splits)

lemma delete_begin_None:
  "delete_begin i d = None \<longleftrightarrow> (\<forall>row. getInstance d i = Some row \<longrightarrow> i_state row = I_TERMINATED)"
  by (auto simp: delete_begin_def split: option.splits)

lemma db_ok_deleteTurnRuntime:
  assumes "db_ok d" "deleteTurnRuntime ex sb i d = (r, d')"
  shows "db_ok d'"
  using assms
  by (cases "destroy_runtime ex sb (fst (the (delete_begin i d)))")
    (auto simp: deleteTurnRuntime_def delete_begin_Some db_ok_updateInstance split: option.splits)

lemma deleteTurnRuntime_tables:
  assumes "deleteTurnRuntime ex sb i d = (r, d')"
  shows "d' = d\<lparr>db_instances := db_instances d'\<rparr>"
  using assms
  by (cases "destroy_runtime ex sb (fst (the (delete_begin i d)))")
    (auto simp: deleteTurnRuntime_def delete_begin_Some updateInstance_def split: option.splits)

text \<open>The row afterwards.\<close>

lemma deleteTurnRuntime_row:
  assumes "deleteTurnRuntime ex sb i d = (r, d')"
  shows "getInstance d' j = (if j \<noteq> i then getInstance d j else
    (case getInstance d i of None \<Rightarrow> None
     | Some row \<Rightarrow> Some (if i_state row = I_TERMINATED then row
         else if r = Inr () then row\<lparr>i_state := I_TERMINATED, i_backendHandle := None\<rparr>
         else row\<lparr>i_state := I_TERMINATING\<rparr>)))"
proof (cases "delete_begin i d")
  case None
  then have "d' = d" using assms by (simp add: deleteTurnRuntime_def)
  with None show ?thesis by (auto simp: delete_begin_None split: option.splits)
next
  case (Some x)
  then obtain row where x: "x = (row, updateInstance i (set_state I_TERMINATING) d)"
    "getInstance d i = Some row" "i_state row \<noteq> I_TERMINATED"
    by (cases x) (auto simp: delete_begin_Some)
  show ?thesis using assms Some x
    by (cases "destroy_runtime ex sb row")
      (auto simp: deleteTurnRuntime_def getInstance_updateInstance apply_instance_update_def)
qed

lemma deleteTurnRuntime_result:
  "deleteTurnRuntime ex sb i d = (r, d') \<Longrightarrow> getInstance d i = Some row \<Longrightarrow>
   i_state row \<noteq> I_TERMINATED \<Longrightarrow> r = destroy_runtime ex sb row"
  by (cases "destroy_runtime ex sb row") (auto simp: deleteTurnRuntime_def delete_begin_def)

section \<open>Closing the service\<close>

lemma close_instance_as_put:
  "put_each put_instance (map (\<lambda>r. (i_id r, terminated_update)) rows) d = Inr (fold close_instance rows d)"
  by (induction rows arbitrary: d) (simp_all add: put_instance_def close_instance_def)

lemma db_ok_close_service: "db_ok d \<Longrightarrow> db_ok (fst (close_service d))"
proof -
  have "db_ok d \<Longrightarrow> db_ok (fold close_instance rows d)" for rows
    by (induction rows arbitrary: d) (simp_all add: close_instance_def db_ok_updateInstance)
  then show "db_ok d \<Longrightarrow> db_ok (fst (close_service d))" by (simp add: close_service_def Let_def)
qed

lemma getInstance_close_service:
  assumes "db_ok d"
  shows "getInstance (fst (close_service d)) i =
    map_option (\<lambda>r. if i_state r \<in> set live_states
      then r\<lparr>i_state := I_TERMINATED, i_backendHandle := None\<rparr> else r) (getInstance d i)"
proof -
  let ?rows = "listInstances d live_states"
  let ?kus = "map (\<lambda>r. (i_id r, terminated_update)) ?rows"
  have rows: "?rows = filter (\<lambda>r. i_state r \<in> set live_states) (db_instances d)"
    by (simp add: listInstances_def live_states_def select_all_def)
  have run: "put_each put_instance ?kus d = Inr (fst (close_service d))"
    by (simp add: close_instance_as_put close_service_def Let_def)
  have "distinct (map fst ?kus)"
    using assms by (simp add: rows o_def distinct_map_filter db_ok_def instances_ok_def)
  note each = instances.get_put_each [OF run this]
  show ?thesis
  proof (cases "\<exists>r\<in>set ?rows. i_id r = i")
    case True
    then obtain r where r: "r \<in> set (db_instances d)" "i_state r \<in> set live_states" "i_id r = i"
      by (auto simp: rows)
    then have "(i, terminated_update) \<in> set ?kus" by (force simp: rows)
    note each [OF this]
    moreover have "getInstance d i = Some r" using r assms by (simp add: getInstance_iff)
    ultimately show ?thesis using r by (simp add: apply_instance_update_def)
  next
    case False
    then have "getInstance (fst (close_service d)) i = getInstance d i"
      by (intro instances.get_put_each_other [OF run]) auto
    moreover have "i_state r \<notin> set live_states" if "getInstance d i = Some r" for r
      using that False assms by (auto simp: getInstance_iff rows)
    ultimately show ?thesis by (cases "getInstance d i") auto
  qed
qed

end
