(* ===== verification/Sessions.thy ===== *)
theory Sessions
  imports Sandbox_Inv
begin

text \<open>
  \<open>SessionManager\<close> (\<open>src/domain/session-manager.ts\<close>): the shell sessions of the runtimes, their
  expiry and capacity, the cursor that turns the backend's whole output into the part a client
  has not seen, the shaping of that part to a byte limit, and \<open>closeInstance\<close>, which the turn
  service runs before it commits or deletes a runtime.

  The map of sessions is a list of sessions in insertion order, at most one per id. The chain of
  promises \<open>tail\<close> lets one action of a session run at a time; here an action is one function
  application. Clock readings and random ids are arguments. \<open>Buffer.toString('utf8')\<close>, which
  replaces malformed bytes, is the argument \<open>decode\<close>.
\<close>

section \<open>State\<close>

record execution_handle =
  xh_backend :: backend
  xh_instanceId :: string
  xh_executionId :: string
  xh_opaqueId :: string
  xh_tty :: bool

record exec_input =
  xi_executionId :: string
  xi_command :: string
  xi_cwd :: string
  xi_tty :: bool
  xi_timeoutMs :: int

record execution_result =
  xr_state :: execution_state
  xr_exitCode :: "int option"
  xr_output :: string
  xr_startedAt :: int
  xr_finishedAt :: "int option"
  xr_originalBytes :: "nat option"
  xr_outputOmittedBytes :: "nat option"

record session =
  s_id :: string
  s_instanceId :: string
  s_execution :: execution_handle
  s_cwd :: string
  s_tty :: bool
  s_cursor :: nat
  s_lastUsedAt :: int
  s_expiresAt :: int
  s_active :: bool

record session_manager =
  sm_sessions :: "session list"
  sm_closingInstances :: "string list"
  sm_maxOutputBytes :: nat

datatype shell_status = Running | Completed | Failed | Timed_out | Canceled | Killed

record shell_result =
  sh_status :: shell_status
  sh_session_id :: "string option"
  sh_exit_code :: "int option"
  sh_output :: string
  sh_wall_time_ms :: int
  sh_original_token_count :: nat
  sh_output_omitted_bytes :: nat
  sh_truncated :: bool

definition ttlMs :: int where "ttlMs = 30 * 60000"

definition session_limit :: nat where "session_limit = 64"

definition update_session :: "string \<Rightarrow> (session \<Rightarrow> session) \<Rightarrow> session_manager \<Rightarrow> session_manager" where
  "update_session sid f sm = sm\<lparr>sm_sessions := update_where (\<lambda>s. s_id s = sid) f (sm_sessions sm)\<rparr>"

definition find_session :: "session_manager \<Rightarrow> string \<Rightarrow> session option" where
  "find_session sm sid = select1 (\<lambda>s. s_id s = sid) (sm_sessions sm)"

section \<open>Expiry and capacity\<close>

text \<open>The periodic \<open>reapExpired\<close>: it also gives the executions it asks the backend to kill.\<close>

definition reapExpired :: "int \<Rightarrow> session_manager \<Rightarrow> session_manager \<times> execution_handle list" where
  "reapExpired now sm =
     (let expired = select_all (\<lambda>s. s_expiresAt s \<le> now) (sm_sessions sm)
      in (sm\<lparr>sm_sessions := delete_where (\<lambda>s. s_expiresAt s \<le> now) (sm_sessions sm)\<rparr>,
          map s_execution (filter s_active expired)))"

text \<open>The loop that frees capacity: oldest inactive sessions first, while there are 64.\<close>

fun reap_loop :: "session list \<Rightarrow> session list \<Rightarrow> session list" where
  "reap_loop [] ss = ss"
| "reap_loop (r # removable) ss =
     (if length ss \<ge> session_limit then reap_loop removable (delete_where (\<lambda>s. s_id s = s_id r) ss)
      else ss)"

definition reap :: "int \<Rightarrow> session_manager \<Rightarrow> session_manager" where
  "reap now sm =
     (let ss = delete_where (\<lambda>s. \<not> s_active s \<and> s_expiresAt s \<le> now) (sm_sessions sm)
      in sm\<lparr>sm_sessions := (if length ss < session_limit then ss
           else reap_loop (sort_key s_lastUsedAt (filter (\<lambda>s. \<not> s_active s) ss)) ss)\<rparr>)"

definition requireSession :: "int \<Rightarrow> string \<Rightarrow> string \<Rightarrow> session_manager \<Rightarrow> session res" where
  "requireSession now sid iid sm =
     (case find_session sm sid of
        None \<Rightarrow> Inl (service_err NOT_FOUND ''Session is unavailable'')
      | Some s \<Rightarrow> if s_instanceId s \<noteq> iid \<or> s_expiresAt s \<le> now
          then Inl (service_err NOT_FOUND ''Session is unavailable'') else Inr s)"

text \<open>What \<open>serial\<close> does before it runs its action.\<close>

definition touch :: "int \<Rightarrow> session \<Rightarrow> session" where
  "touch now s = s\<lparr>s_lastUsedAt := now, s_expiresAt := now + ttlMs\<rparr>"

section \<open>Shaping output\<close>

record shaped =
  sp_output :: string
  sp_originalTokenCount :: nat
  sp_omitted :: nat
  sp_truncated :: bool

definition output_limit :: "nat \<Rightarrow> nat option \<Rightarrow> nat" where
  "output_limit maxOutputBytes maxOutputTokens =
     max 256 (case maxOutputTokens of None \<Rightarrow> maxOutputBytes
       | Some tokens \<Rightarrow> min maxOutputBytes (tokens * 4))"

definition shapeOutput :: "(string \<Rightarrow> string) \<Rightarrow> nat \<Rightarrow> string \<Rightarrow> nat option \<Rightarrow> nat \<Rightarrow> shaped" where
  "shapeOutput decode maxOutputBytes bytes maxOutputTokens originalBytes =
     (let limit = output_limit maxOutputBytes maxOutputTokens;
          tokens = (originalBytes + 3) div 4
      in if originalBytes \<le> limit \<and> length bytes \<le> limit
         then \<lparr>sp_output = decode bytes, sp_originalTokenCount = tokens, sp_omitted = 0,
               sp_truncated = False\<rparr>
         else
           (let side = limit div 2;
                omitted = originalBytes - side * 2
            in \<lparr>sp_output = decode (take side bytes) @ NL # ''... '' @ nat_str omitted @
                   '' bytes omitted ...'' @ NL # decode (drop (max side (length bytes - side)) bytes),
                sp_originalTokenCount = tokens, sp_omitted = omitted, sp_truncated = True\<rparr>))"

fun status_of :: "bool \<Rightarrow> execution_state \<Rightarrow> shell_status" where
  "status_of True _ = Killed"
| "status_of False X_RUNNING = Running"
| "status_of False X_COMPLETED = Completed"
| "status_of False X_TIMED_OUT = Timed_out"
| "status_of False X_CANCELED = Canceled"
| "status_of False X_FAILED = Failed"
| "status_of False X_LOST = Failed"

text \<open>The part of the backend's output that the session has not returned yet, with its size
  before the backend dropped bytes, and the cursor afterwards.\<close>

definition result_bytes :: "execution_result \<Rightarrow> nat" where
  "result_bytes r = (case xr_originalBytes r of None \<Rightarrow> length (xr_output r) | Some n \<Rightarrow> n)"

definition backendTruncated :: "execution_result \<Rightarrow> bool" where
  "backendTruncated r \<longleftrightarrow> (case xr_outputOmittedBytes r of None \<Rightarrow> 0 | Some n \<Rightarrow> n) > 0"

definition output_delta :: "nat \<Rightarrow> execution_result \<Rightarrow> string" where
  "output_delta cursor r = (if backendTruncated r then xr_output r else drop cursor (xr_output r))"

definition delta_bytes :: "nat \<Rightarrow> execution_result \<Rightarrow> nat" where
  "delta_bytes cursor r = (if backendTruncated r then result_bytes r else result_bytes r - cursor)"

definition response :: "(string \<Rightarrow> string) \<Rightarrow> nat \<Rightarrow> int \<Rightarrow> execution_result \<Rightarrow> nat option \<Rightarrow> bool \<Rightarrow> session
    \<Rightarrow> shell_result \<times> session" where
  "response decode maxOutputBytes now r maxOutputTokens killed s =
     (let shaped = shapeOutput decode maxOutputBytes (output_delta (s_cursor s) r) maxOutputTokens
            (delta_bytes (s_cursor s) r)
      in (\<lparr>sh_status = status_of killed (xr_state r),
           sh_session_id = (if xr_state r = X_RUNNING then Some (s_id s) else None),
           sh_exit_code = xr_exitCode r,
           sh_output = sp_output shaped,
           sh_wall_time_ms = (case xr_finishedAt r of Some t \<Rightarrow> t | None \<Rightarrow> now) - xr_startedAt r,
           sh_original_token_count = sp_originalTokenCount shaped,
           sh_output_omitted_bytes = sp_omitted shaped,
           sh_truncated = sp_truncated shaped\<rparr>,
          s\<lparr>s_cursor := result_bytes r,
            s_active := (if xr_state r = X_RUNNING then s_active s else False)\<rparr>))"

section \<open>The operations\<close>

text \<open>
  The backend's answers to the calls of one handler. \<open>be_kill\<close> and \<open>be_poll\<close> also take how
  often the handler has asked before, since the same question is answered differently later.
\<close>

record session_backend =
  be_exec :: "backend \<Rightarrow> backend_handle \<Rightarrow> exec_input \<Rightarrow> execution_handle res"
  be_poll :: "backend \<Rightarrow> execution_handle \<Rightarrow> int \<Rightarrow> nat \<Rightarrow> execution_result res"
  be_write :: "backend \<Rightarrow> execution_handle \<Rightarrow> string \<Rightarrow> unit res"
  be_kill :: "backend \<Rightarrow> execution_handle \<Rightarrow> nat \<Rightarrow> unit res"

type_synonym 'a session_run = "'a res \<times> session_manager \<times> db"

definition pollBackend :: "session_backend \<Rightarrow> db \<Rightarrow> session \<Rightarrow> int \<Rightarrow> nat \<Rightarrow> execution_result res" where
  "pollBackend be d s yieldTimeMs n =
     bind_res (getTurnHandle d (s_instanceId s)) (\<lambda>(row, _).
       be_poll be (i_backend row) (s_execution s) yieldTimeMs n)"

definition kill_session :: "session_backend \<Rightarrow> session \<Rightarrow> nat \<Rightarrow> unit res" where
  "kill_session be s n = be_kill be (xh_backend (s_execution s)) (s_execution s) n"

text \<open>\<open>abandon\<close> ignores what the backend answers to \<open>kill\<close>.\<close>

definition abandon :: "session \<Rightarrow> session_manager \<Rightarrow> db \<Rightarrow> session_manager \<times> db" where
  "abandon s sm d =
     (update_session (s_id s) (\<lambda>x. x\<lparr>s_active := False\<rparr>) sm,
      setInstanceState (s_instanceId s) I_READY d)"

text \<open>The body that \<open>exec\<close>, \<open>poll\<close> and \<open>write\<close> share: poll, respond, mark the instance READY
  when the session has ended, abandon the session when anything throws. The \<open>catch\<close> of
  \<open>write\<close> rethrows a SESSION_STDIN_CLOSED (\<open>keep\<close>) without abandoning.\<close>

definition answer :: "(string \<Rightarrow> string) \<Rightarrow> session_backend \<Rightarrow> (js_error \<Rightarrow> bool) \<Rightarrow> int \<Rightarrow> int \<Rightarrow> nat option
    \<Rightarrow> session \<Rightarrow> session_manager \<Rightarrow> db \<Rightarrow> shell_result session_run" where
  "answer decode be keep now yieldTimeMs maxOutputTokens s sm d =
     (case pollBackend be d s yieldTimeMs 0 of
        Inl e \<Rightarrow> (Inl e, if keep e then (sm, d) else abandon s sm d)
      | Inr r \<Rightarrow>
          (let (resp, s') = response decode (sm_maxOutputBytes sm) now r maxOutputTokens False s
           in (Inr resp, update_session (s_id s) (\<lambda>_. s') sm,
               if s_active s' then d else setInstanceState (s_instanceId s) I_READY d)))"

record exec_request =
  xq_instanceId :: string
  xq_command :: string
  xq_workdir :: "string option"
  xq_tty :: "bool option"
  xq_yieldTimeMs :: int
  xq_timeoutMs :: int
  xq_maxOutputTokens :: "nat option"

definition exec_cwd :: "exec_request \<Rightarrow> string" where
  "exec_cwd q = (case xq_workdir q of None \<Rightarrow> ''/workspace'' | Some w \<Rightarrow> w)"

definition exec_guard :: "exec_request \<Rightarrow> session_manager \<Rightarrow> db \<Rightarrow> (instance_row \<times> backend_handle) res" where
  "exec_guard q sm d =
     (if xq_instanceId q \<in> set (sm_closingInstances sm)
      then Inl (service_err TURN_CLOSED ''Turn runtime is closing'')
      else if length (sm_sessions sm) \<ge> session_limit
      then Inl (service_err SESSION_CAPACITY ''No session capacity is available'')
      else if xq_command q = [] \<or> length (xq_command q) > 128 * 1024
      then Inl (service_err INVALID_ARGUMENT ''Command is empty or too large'')
      else if exec_cwd q \<noteq> ''/workspace'' \<and> \<not> starts_with ''/workspace/'' (exec_cwd q)
      then Inl (service_err INVALID_ARGUMENT ''workdir must be inside /workspace'')
      else getTurnHandle d (xq_instanceId q))"

definition new_session :: "exec_request \<Rightarrow> string \<Rightarrow> execution_handle \<Rightarrow> int \<Rightarrow> session" where
  "new_session q sid execution now =
     \<lparr>s_id = sid, s_instanceId = xq_instanceId q, s_execution = execution, s_cwd = exec_cwd q,
      s_tty = (xq_tty q = Some True), s_cursor = 0, s_lastUsedAt = now, s_expiresAt = now + ttlMs,
      s_active = True\<rparr>"

text \<open>The segment after the backend has started the execution.\<close>

definition exec_started :: "exec_request \<Rightarrow> string \<Rightarrow> execution_handle \<Rightarrow> int \<Rightarrow> session_manager \<Rightarrow> db
    \<Rightarrow> session_manager \<times> db" where
  "exec_started q sid execution now sm d =
     (sm\<lparr>sm_sessions := sm_sessions sm @ [new_session q sid execution now]\<rparr>,
      setInstanceState (xq_instanceId q) I_RUNNING d)"

text \<open>\<open>now\<close> is the clock at the call, \<open>now'\<close> when the backend has started the execution.\<close>

definition exec :: "(string \<Rightarrow> string) \<Rightarrow> session_backend \<Rightarrow> int \<Rightarrow> int \<Rightarrow> string \<Rightarrow> string \<Rightarrow> exec_request
    \<Rightarrow> session_manager \<Rightarrow> db \<Rightarrow> shell_result session_run" where
  "exec decode be now now' executionId sid q sm d =
     (let sm1 = reap now sm
      in case exec_guard q sm1 d of
           Inl e \<Rightarrow> (Inl e, sm1, d)
         | Inr (row, handle) \<Rightarrow>
             (case be_exec be (i_backend row) handle
                  \<lparr>xi_executionId = executionId, xi_command = xq_command q, xi_cwd = exec_cwd q,
                   xi_tty = (xq_tty q = Some True), xi_timeoutMs = xq_timeoutMs q\<rparr> of
                Inl e \<Rightarrow> (Inl e, sm1, d)
              | Inr execution \<Rightarrow>
                  (let (sm2, d2) = exec_started q sid execution now' sm1 d
                   in answer decode be (\<lambda>_. False) now' (xq_yieldTimeMs q) (xq_maxOutputTokens q)
                        (new_session q sid execution now') sm2 d2)))"

definition poll :: "(string \<Rightarrow> string) \<Rightarrow> session_backend \<Rightarrow> int \<Rightarrow> string \<Rightarrow> string \<Rightarrow> int \<Rightarrow> nat option
    \<Rightarrow> session_manager \<Rightarrow> db \<Rightarrow> shell_result session_run" where
  "poll decode be now iid sid yieldTimeMs maxOutputTokens sm d =
     (case requireSession now sid iid sm of
        Inl e \<Rightarrow> (Inl e, sm, d)
      | Inr s \<Rightarrow> answer decode be (\<lambda>_. False) now yieldTimeMs maxOutputTokens (touch now s)
          (update_session sid (touch now) sm) d)"

fun stdin_closed :: "js_error \<Rightarrow> bool" where
  "stdin_closed (ServiceError c m det) = (c = SESSION_STDIN_CLOSED)"
| "stdin_closed (PlainError m) = False"

definition write_session :: "(string \<Rightarrow> string) \<Rightarrow> session_backend \<Rightarrow> int \<Rightarrow> string \<Rightarrow> string \<Rightarrow> string \<Rightarrow> int
    \<Rightarrow> nat option \<Rightarrow> session_manager \<Rightarrow> db \<Rightarrow> shell_result session_run" where
  "write_session decode be now iid sid chars yieldTimeMs maxOutputTokens sm d =
     (case requireSession now sid iid sm of
        Inl e \<Rightarrow> (Inl e, sm, d)
      | Inr s \<Rightarrow>
          if s_instanceId s \<in> set (sm_closingInstances sm)
          then (Inl (service_err TURN_CLOSED ''Turn runtime is closing''), sm, d)
          else
            (let s1 = touch now s; sm1 = update_session sid (touch now) sm;
                 sent = (if s_tty s1 then be_write be (xh_backend (s_execution s1)) (s_execution s1) chars
                         else if chars = [CHR 0x03] then kill_session be s1 0
                         else Inl (service_err SESSION_STDIN_CLOSED ''Non-TTY session stdin is closed''))
             in case sent of
                  Inl e \<Rightarrow> (Inl e, if stdin_closed e then (sm1, d) else abandon s1 sm1 d)
                | Inr _ \<Rightarrow> answer decode be stdin_closed now yieldTimeMs maxOutputTokens s1 sm1 d))"

definition kill :: "(string \<Rightarrow> string) \<Rightarrow> session_backend \<Rightarrow> int \<Rightarrow> string \<Rightarrow> string
    \<Rightarrow> session_manager \<Rightarrow> db \<Rightarrow> shell_result session_run" where
  "kill decode be now iid sid sm d =
     (case requireSession now sid iid sm of
        Inl e \<Rightarrow> (Inl e, sm, d)
      | Inr s \<Rightarrow>
          (let s1 = touch now s; sm1 = update_session sid (touch now) sm
           in case bind_res (kill_session be s1 0) (\<lambda>_. pollBackend be d s1 0 0) of
                Inl e \<Rightarrow> (Inl e, sm1, d)
              | Inr r \<Rightarrow>
                  (let (resp, s2) = response decode (sm_maxOutputBytes sm) now r None True
                         (s1\<lparr>s_active := False\<rparr>)
                   in (Inr resp, update_session sid (\<lambda>_. s2) sm1,
                       setInstanceState (s_instanceId s1) I_READY d))))"

section \<open>Closing\<close>

text \<open>One session of \<open>closeInstance\<close>: kill it and wait, once more if it still runs.\<close>

definition end_session :: "session_backend \<Rightarrow> db \<Rightarrow> session \<Rightarrow> unit res" where
  "end_session be d s =
     bind_res (kill_session be s 0) (\<lambda>_.
     bind_res (pollBackend be d s 1000 0) (\<lambda>r.
     bind_res (if xr_state r = X_RUNNING
               then bind_res (kill_session be s 1) (\<lambda>_. pollBackend be d s 1000 1) else Inr r) (\<lambda>r.
     if xr_state r = X_RUNNING
     then Inl (service_err BACKEND_ERROR ''Session did not reach a terminal state'')
     else Inr ())))"

definition close_session :: "session_backend \<Rightarrow> int \<Rightarrow> db \<Rightarrow> session \<Rightarrow> session_manager \<times> js_error list
    \<Rightarrow> session_manager \<times> js_error list" where
  "close_session be now d s = (\<lambda>(sm, failures).
     (case end_session be d s of
        Inl e \<Rightarrow> (update_session (s_id s) (touch now) sm, failures @ [e])
      | Inr _ \<Rightarrow> (update_session (s_id s) (\<lambda>x. (touch now x)\<lparr>s_active := False\<rparr>) sm, failures)))"

definition closeInstance :: "session_backend \<Rightarrow> int \<Rightarrow> string \<Rightarrow> session_manager \<Rightarrow> db \<Rightarrow> unit session_run" where
  "closeInstance be now iid sm d =
     (let sm1 = sm\<lparr>sm_closingInstances := List.insert iid (sm_closingInstances sm)\<rparr>;
          open_sessions = filter (\<lambda>s. s_instanceId s = iid \<and> s_active s) (sm_sessions sm1);
          (sm2, failures) = fold (close_session be now d) open_sessions (sm1, [])
      in if failures \<noteq> []
         then (Inl (PlainError (''Failed to close sessions for instance '' @ iid)), sm2, d)
         else (Inr (), sm2,
           (case getInstance d iid of
              Some row \<Rightarrow> if i_state row = I_RUNNING then setInstanceState iid I_READY d else d
            | None \<Rightarrow> d)))"

text \<open>\<open>close\<close>, with the executions it asks the backend to kill.\<close>

definition close_sessions :: "session_manager \<Rightarrow> session_manager \<times> execution_handle list" where
  "close_sessions sm =
     (sm\<lparr>sm_sessions := [], sm_closingInstances := []\<rparr>,
      map s_execution (filter s_active (sm_sessions sm)))"

end
