(* ===== verification/Sessions_Inv.thy ===== *)
theory Sessions_Inv
  imports Sessions
begin

text \<open>
  What the session manager promises: only the sessions of an instance are reachable through it,
  running sessions are never reaped, at most 64 sessions are kept, the responses to successive
  polls make up the backend's output, shaped output is bounded and accounts for what it omits,
  and a successful \<open>closeInstance\<close> leaves no running session on the instance.
\<close>

section \<open>Sessions by id\<close>

definition sessions_ok :: "session_manager \<Rightarrow> bool" where
  "sessions_ok sm \<longleftrightarrow> distinct (map s_id (sm_sessions sm)) \<and> length (sm_sessions sm) \<le> session_limit"

lemma update_session_simps [simp]:
  "sm_closingInstances (update_session sid f sm) = sm_closingInstances sm"
  "sm_maxOutputBytes (update_session sid f sm) = sm_maxOutputBytes sm"
  by (simp_all add: update_session_def)

lemma sessions_ok_update:
  "sessions_ok sm \<Longrightarrow> (\<And>s. s_id s = sid \<Longrightarrow> s_id (f s) = sid) \<Longrightarrow> sessions_ok (update_session sid f sm)"
proof -
  assume ok: "sessions_ok sm" and f: "\<And>s. s_id s = sid \<Longrightarrow> s_id (f s) = sid"
  have "map s_id (update_where (\<lambda>s. s_id s = sid) f ss) = map s_id ss" for ss
    using f by (induction ss) auto
  with ok show ?thesis by (simp add: sessions_ok_def update_session_def length_update_where)
qed

lemma find_session_Some:
  "find_session sm sid = Some s \<Longrightarrow> s \<in> set (sm_sessions sm) \<and> s_id s = sid"
  unfolding find_session_def by (rule select1_Some)

lemma requireSession_Inr:
  "requireSession now sid iid sm = Inr s \<longleftrightarrow>
     find_session sm sid = Some s \<and> s_instanceId s = iid \<and> now < s_expiresAt s"
  by (auto simp: requireSession_def split: option.splits)

lemma touch_simps [simp]:
  "s_id (touch now s) = s_id s" "s_instanceId (touch now s) = s_instanceId s"
  "s_active (touch now s) = s_active s" "s_cursor (touch now s) = s_cursor s"
  "s_tty (touch now s) = s_tty s" "s_execution (touch now s) = s_execution s"
  by (simp_all add: touch_def)

section \<open>Reaping\<close>

lemma removable_rest:
  assumes "set (r # removable) \<subseteq> set ss" "distinct (map s_id (r # removable))"
  shows "set removable \<subseteq> set (delete_where (\<lambda>s. s_id s = s_id r) ss)"
proof
  fix s assume s: "s \<in> set removable"
  then have "s_id s \<in> s_id ` set removable" by (rule imageI)
  then have "s_id s \<noteq> s_id r" using assms(2) by auto
  then show "s \<in> set (delete_where (\<lambda>s. s_id s = s_id r) ss)"
    using s assms(1) by (simp add: set_delete_where subset_iff)
qed

lemma reap_loop_active:
  "(\<forall>r\<in>set removable. \<not> s_active r) \<Longrightarrow> distinct (map s_id ss) \<Longrightarrow> set removable \<subseteq> set ss \<Longrightarrow>
   distinct (map s_id removable) \<Longrightarrow>
   filter s_active (reap_loop removable ss) = filter s_active ss"
proof (induction removable ss rule: reap_loop.induct)
  case (2 r removable ss)
  show ?case
  proof (cases "session_limit \<le> length ss")
    case True
    let ?ss = "delete_where (\<lambda>s. s_id s = s_id r) ss"
    have keep: "s_id s = s_id r \<Longrightarrow> \<not> s_active s" if "s \<in> set ss" for s
      using distinct_keyD [OF "2.prems"(2) that, of r] "2.prems"(1,3) by auto
    have "filter s_active ?ss = filter s_active ss"
      unfolding delete_where_def filter_filter using keep by (intro filter_cong) auto
    moreover have "filter s_active (reap_loop removable ?ss) = filter s_active ?ss"
    proof (rule "2.IH" [OF True])
      show "set removable \<subseteq> set ?ss"
        using "2.prems"(3,4) by (rule removable_rest)
    qed (use "2.prems" in \<open>auto simp: distinct_delete_where\<close>)
    ultimately show ?thesis using True by simp
  qed simp
qed simp

lemma length_delete_one:
  "distinct (map key ss) \<Longrightarrow> r \<in> set ss \<Longrightarrow>
   length (delete_where (\<lambda>s. key s = key r) ss) = length ss - 1"
proof (induction ss)
  case (Cons a ss)
  show ?case
  proof (cases "key a = key r")
    case True
    then have "delete_where (\<lambda>s. key s = key r) ss = ss"
      using Cons.prems(1) by (intro delete_where_id) (auto simp: image_iff)
    with True show ?thesis by simp
  next
    case False
    with Cons have "r \<in> set ss" by auto
    then show ?thesis using Cons False by (cases ss) auto
  qed
qed simp

lemma reap_loop_length:
  "distinct (map s_id ss) \<Longrightarrow> set removable \<subseteq> set ss \<Longrightarrow> distinct (map s_id removable) \<Longrightarrow>
   length (reap_loop removable ss) < session_limit \<or>
   set (reap_loop removable ss) = {s \<in> set ss. s_id s \<notin> s_id ` set removable}"
proof (induction removable ss rule: reap_loop.induct)
  case (2 r removable ss)
  show ?case
  proof (cases "session_limit \<le> length ss")
    case True
    let ?ss = "delete_where (\<lambda>s. s_id s = s_id r) ss"
    have "length (reap_loop removable ?ss) < session_limit \<or>
        set (reap_loop removable ?ss) = {s \<in> set ?ss. s_id s \<notin> s_id ` set removable}"
    proof (rule "2.IH" [OF True])
      show "set removable \<subseteq> set ?ss" using "2.prems"(2,3) by (rule removable_rest)
    qed (use "2.prems" in \<open>auto simp: distinct_delete_where\<close>)
    then show ?thesis using True by (auto simp: set_delete_where)
  qed simp
qed auto

lemma reap_loop_sublist: "\<exists>P. reap_loop removable ss = filter P ss"
proof (induction removable ss rule: reap_loop.induct)
  case (1 ss)
  show ?case by (rule exI [where x = "\<lambda>_. True"]) simp
next
  case (2 r removable ss)
  show ?case
  proof (cases "session_limit \<le> length ss")
    case True
    from "2.IH" [OF True] obtain P where
      "reap_loop removable (delete_where (\<lambda>s. s_id s = s_id r) ss)
        = filter P (delete_where (\<lambda>s. s_id s = s_id r) ss)" by blast
    then show ?thesis using True by (auto simp: delete_where_def)
  next
    case False
    then show ?thesis by (intro exI [where x = "\<lambda>_. True"]) simp
  qed
qed

lemma reap_sublist: "\<exists>P. sm_sessions (reap now sm) = filter P (sm_sessions sm)"
proof (cases "length (delete_where (\<lambda>s. \<not> s_active s \<and> s_expiresAt s \<le> now) (sm_sessions sm)) < session_limit")
  case True
  then show ?thesis by (auto simp: reap_def Let_def delete_where_def)
next
  case False
  let ?ss = "delete_where (\<lambda>s. \<not> s_active s \<and> s_expiresAt s \<le> now) (sm_sessions sm)"
  from reap_loop_sublist [of "sort_key s_lastUsedAt (filter (\<lambda>s. \<not> s_active s) ?ss)" ?ss]
  obtain P where "reap_loop (sort_key s_lastUsedAt (filter (\<lambda>s. \<not> s_active s) ?ss)) ?ss = filter P ?ss"
    by blast
  with False show ?thesis by (auto simp: reap_def Let_def delete_where_def)
qed

lemma reap_other [simp]:
  "sm_closingInstances (reap now sm) = sm_closingInstances sm"
  "sm_maxOutputBytes (reap now sm) = sm_maxOutputBytes sm"
  by (simp_all add: reap_def Let_def)

lemma sessions_ok_reap:
  assumes "sessions_ok sm"
  shows "sessions_ok (reap now sm)"
proof -
  obtain P where P: "sm_sessions (reap now sm) = filter P (sm_sessions sm)"
    using reap_sublist by blast
  show ?thesis using assms
    by (auto simp: sessions_ok_def P distinct_map_filter intro: order_trans [OF length_filter_le])
qed

lemma reap_keeps_active_sessions:
  assumes "sessions_ok sm"
  shows "filter s_active (sm_sessions (reap now sm)) = filter s_active (sm_sessions sm)"
proof -
  let ?ss = "delete_where (\<lambda>s. \<not> s_active s \<and> s_expiresAt s \<le> now) (sm_sessions sm)"
  let ?rm = "sort_key s_lastUsedAt (filter (\<lambda>s. \<not> s_active s) ?ss)"
  have dist: "distinct (map s_id ?ss)"
    using assms by (simp add: sessions_ok_def distinct_delete_where)
  have "distinct (map s_id ?rm)" using dist by (auto simp: distinct_map inj_on_def)
  then have "filter s_active (reap_loop ?rm ?ss) = filter s_active ?ss"
    by (intro reap_loop_active dist) auto
  moreover have "filter s_active ?ss = filter s_active (sm_sessions sm)"
    unfolding delete_where_def filter_filter by (intro filter_cong) auto
  ultimately show ?thesis by (simp add: reap_def Let_def)
qed

lemma reap_frees_capacity:
  assumes "sessions_ok sm"
  shows "length (sm_sessions (reap now sm)) < session_limit \<or> (\<forall>s\<in>set (sm_sessions (reap now sm)). s_active s)"
proof -
  let ?ss = "delete_where (\<lambda>s. \<not> s_active s \<and> s_expiresAt s \<le> now) (sm_sessions sm)"
  let ?rm = "sort_key s_lastUsedAt (filter (\<lambda>s. \<not> s_active s) ?ss)"
  have dist: "distinct (map s_id ?ss)"
    using assms by (simp add: sessions_ok_def distinct_delete_where)
  then have "distinct (map s_id ?rm)" by (auto simp: distinct_map inj_on_def)
  with dist have "length (reap_loop ?rm ?ss) < session_limit \<or>
      set (reap_loop ?rm ?ss) = {s \<in> set ?ss. s_id s \<notin> s_id ` set ?rm}"
    by (intro reap_loop_length) auto
  then show ?thesis by (auto simp: reap_def Let_def image_iff)
qed

section \<open>Output\<close>

lemma shapeOutput_whole:
  "originalBytes \<le> output_limit m t \<Longrightarrow> length bytes \<le> output_limit m t \<Longrightarrow>
   shapeOutput decode m bytes t originalBytes =
     \<lparr>sp_output = decode bytes, sp_originalTokenCount = (originalBytes + 3) div 4, sp_omitted = 0,
      sp_truncated = False\<rparr>"
  by (simp add: shapeOutput_def Let_def)

lemma shapeOutput_cut:
  "\<not> (originalBytes \<le> output_limit m t \<and> length bytes \<le> output_limit m t) \<Longrightarrow>
   shapeOutput decode m bytes t originalBytes =
     (let side = output_limit m t div 2 in
     \<lparr>sp_output = decode (take side bytes) @ NL # ''... '' @ nat_str (originalBytes - side * 2) @
          '' bytes omitted ...'' @ NL # decode (drop (max side (length bytes - side)) bytes),
      sp_originalTokenCount = (originalBytes + 3) div 4, sp_omitted = originalBytes - side * 2,
      sp_truncated = True\<rparr>)"
  by (simp add: shapeOutput_def Let_def)

lemma nat_str_nonempty: "nat_str n \<noteq> []"
  by (subst nat_str.simps) simp

lemma length_nat_str: "n < 10 ^ k \<Longrightarrow> 0 < k \<Longrightarrow> length (nat_str n) \<le> k"
proof (induction k arbitrary: n)
  case (Suc k)
  show ?case
  proof (cases "n < 10")
    case True
    then show ?thesis by (simp add: nat_str.simps [of n])
  next
    case False
    then have "0 < k" using Suc.prems by (cases k) auto
    moreover have "n div 10 < 10 ^ k" using Suc.prems by (simp add: less_mult_imp_div_less)
    ultimately have "length (nat_str (n div 10)) \<le> k" using Suc.IH by blast
    then show ?thesis using False by (simp add: nat_str.simps [of n])
  qed
qed simp

text \<open>The responses to successive polls of one session.\<close>

fun responses :: "(string \<Rightarrow> string) \<Rightarrow> nat \<Rightarrow> int \<Rightarrow> nat option \<Rightarrow> session \<Rightarrow> execution_result list
    \<Rightarrow> shell_result list" where
  "responses decode m now t s [] = []"
| "responses decode m now t s (r # rs) =
     (let (resp, s') = response decode m now r t False s
      in resp # responses decode m now t s' rs)"

text \<open>The backend reports its whole output each time, and drops none of it.\<close>

fun growing :: "string \<Rightarrow> execution_result list \<Rightarrow> bool" where
  "growing seen [] = True"
| "growing seen (r # rs) =
     (starts_with seen (xr_output r) \<and> xr_originalBytes r = None \<and> \<not> backendTruncated r \<and>
      growing (xr_output r) rs)"

lemma responses_output:
  assumes "growing seen rs" "s_cursor s = length seen"
    and "\<And>r. r \<in> set rs \<Longrightarrow> length (xr_output r) \<le> output_limit m t"
  shows "seen @ concat (map sh_output (responses (\<lambda>b. b) m now t s rs)) =
    (if rs = [] then seen else xr_output (last rs))"
  using assms
proof (induction rs arbitrary: seen s)
  case (Cons r rs)
  obtain new where new: "xr_output r = seen @ new" using Cons.prems(1) by (auto simp: starts_with_iff)
  have total: "result_bytes r = length (xr_output r)" and "\<not> backendTruncated r"
    using Cons.prems(1) by (auto simp: result_bytes_def)
  then have delta: "output_delta (s_cursor s) r = new" "delta_bytes (s_cursor s) r = length new"
    using Cons.prems(2) new by (simp_all add: output_delta_def delta_bytes_def)
  have small: "length new \<le> output_limit m t" using Cons.prems(3) [of r] new by simp
  obtain resp s' where rs': "response (\<lambda>b. b) m now r t False s = (resp, s')" by force
  have resp: "sh_output resp = new" "s_cursor s' = length (xr_output r)"
    using rs' delta small total by (auto simp: response_def Let_def shapeOutput_whole)
  have "xr_output r @ concat (map sh_output (responses (\<lambda>b. b) m now t s' rs)) =
      (if rs = [] then xr_output r else xr_output (last rs))"
    using Cons.prems resp by (intro Cons.IH) auto
  then show ?case using rs' resp(1) new by simp
qed simp

text \<open>The bytes a response carries, decoding aside, exceed the limit by the omission notice only.\<close>

lemma shapeOutput_length:
  assumes "originalBytes < 10 ^ k" "0 < k"
  shows "length (sp_output (shapeOutput (\<lambda>b. b) m bytes t originalBytes)) \<le> output_limit m t + 24 + k"
proof (cases "originalBytes \<le> output_limit m t \<and> length bytes \<le> output_limit m t")
  case True
  then show ?thesis by (simp add: shapeOutput_whole)
next
  case False
  let ?side = "output_limit m t div 2"
  have digits: "length (nat_str (originalBytes - ?side * 2)) \<le> k"
    using assms by (intro length_nat_str) auto
  have ends: "min (length bytes) ?side + (length bytes - max ?side (length bytes - ?side)) \<le> 2 * ?side"
    by (simp split: split_min split_max)
  have side: "2 * ?side \<le> output_limit m t" by simp
  show ?thesis unfolding shapeOutput_cut [OF False] Let_def
    using add_mono [OF digits order_trans [OF ends side]] by simp
qed

section \<open>Operations on one session leave the others alone\<close>

definition other_sessions :: "string \<Rightarrow> session_manager \<Rightarrow> session list" where
  "other_sessions iid sm = filter (\<lambda>s. s_instanceId s \<noteq> iid) (sm_sessions sm)"

lemma filter_update_where_other:
  assumes "\<And>s. s \<in> set ss \<Longrightarrow> P s \<Longrightarrow> \<not> Q s" "\<And>s. s \<in> set ss \<Longrightarrow> P s \<Longrightarrow> \<not> Q (f s)"
  shows "filter Q (update_where P f ss) = filter Q ss"
  using assms by (induction ss) auto

lemma other_sessions_update:
  assumes "\<And>s. s \<in> set (sm_sessions sm) \<Longrightarrow> s_id s = sid \<Longrightarrow> s_instanceId s = iid \<and> s_instanceId (f s) = iid"
  shows "other_sessions iid (update_session sid f sm) = other_sessions iid sm"
  unfolding other_sessions_def update_session_def
  using assms by (simp add: filter_update_where_other)

lemma response_simps:
  assumes "response decode m now r t killed s = (resp, s')"
  shows "s_id s' = s_id s" "s_instanceId s' = s_instanceId s"
    "s_active s' = (s_active s \<and> xr_state r = X_RUNNING)" "s_cursor s' = result_bytes r"
  using assms by (auto simp: response_def Let_def split: if_splits)

text \<open>A session found by its id is the only one with that id, and keeps its instance when it
  is updated.\<close>

lemma find_session_only:
  "sessions_ok sm \<Longrightarrow> find_session sm sid = Some s \<Longrightarrow> s' \<in> set (sm_sessions sm) \<Longrightarrow> s_id s' = sid \<Longrightarrow> s' = s"
proof -
  assume ok: "sessions_ok sm" and s: "find_session sm sid = Some s"
    and s': "s' \<in> set (sm_sessions sm)" "s_id s' = sid"
  note found = find_session_Some [OF s]
  show "s' = s"
  proof (rule distinct_keyD)
    show "distinct (map s_id (sm_sessions sm))" using ok by (simp add: sessions_ok_def)
  qed (use found s' in auto)
qed

lemma find_session_update:
  assumes "sessions_ok sm" "find_session sm sid = Some s" "s_id (f s) = sid"
  shows "find_session (update_session sid f sm) sid = Some (f s)"
proof -
  have "map_option (\<lambda>x. if s_id x = sid then f x else x) (find_session sm sid) = Some (f s)"
    using assms(2) find_session_Some [OF assms(2)] by simp
  moreover have "find_session (update_session sid f sm) sid =
      map_option (\<lambda>x. if s_id x = sid then f x else x) (find_session sm sid)"
  proof -
    have "select1 (\<lambda>x. s_id x = sid) (update_where (\<lambda>x. s_id x = sid) f ss) =
        map_option (\<lambda>x. if s_id x = sid then f x else x) (select1 (\<lambda>x. s_id x = sid) ss)"
      if "\<And>x. x \<in> set ss \<Longrightarrow> s_id x = sid \<Longrightarrow> x = s" for ss
      using that assms(3) by (induction ss) auto
    moreover have "x = s" if "x \<in> set (sm_sessions sm)" "s_id x = sid" for x
      using find_session_only [OF assms(1,2) that] .
    ultimately show ?thesis by (simp add: find_session_def update_session_def)
  qed
  ultimately show ?thesis by simp
qed

text \<open>What an operation on a session of the instance \<open>iid\<close> may change.\<close>

definition only_touches :: "string \<Rightarrow> session_manager \<Rightarrow> db \<Rightarrow> session_manager \<Rightarrow> db \<Rightarrow> bool" where
  "only_touches iid sm d sm' d' \<longleftrightarrow>
     sessions_ok sm' \<and> other_sessions iid sm' = other_sessions iid sm \<and>
     sm_closingInstances sm' = sm_closingInstances sm \<and>
     map s_id (sm_sessions sm') = map s_id (sm_sessions sm) \<and>
     (d' = d \<or> d' = setInstanceState iid I_READY d)"

lemma only_touches_update:
  assumes "sessions_ok sm" "find_session sm sid = Some s" "s_instanceId s = iid"
    and f: "s_id (f s) = sid" "s_instanceId (f s) = iid"
    and d': "d' = d \<or> d' = setInstanceState iid I_READY d"
  shows "only_touches iid sm d (update_session sid f sm) d'"
proof -
  have only: "x = s" if "x \<in> set (sm_sessions sm)" "s_id x = sid" for x
    using find_session_only [OF assms(1,2) that] .
  have "map s_id (update_where (\<lambda>x. s_id x = sid) f ss) = map s_id ss"
    if "\<And>x. x \<in> set ss \<Longrightarrow> s_id x = sid \<Longrightarrow> x = s" for ss
    using that f(1) by (induction ss) auto
  then have ids: "map s_id (sm_sessions (update_session sid f sm)) = map s_id (sm_sessions sm)"
    using only by (simp add: update_session_def)
  have len: "length (sm_sessions (update_session sid f sm)) = length (sm_sessions sm)"
    by (simp add: update_session_def length_update_where)
  have "sessions_ok (update_session sid f sm)"
    using assms(1) unfolding sessions_ok_def ids len .
  moreover have "other_sessions iid (update_session sid f sm) = other_sessions iid sm"
    by (rule other_sessions_update) (use only assms(3) f in auto)
  ultimately show ?thesis using ids d' by (simp add: only_touches_def)
qed

lemma only_touches_trans:
  "only_touches iid sm d sm1 d \<Longrightarrow> only_touches iid sm1 d sm2 d2 \<Longrightarrow> only_touches iid sm d sm2 d2"
  by (auto simp: only_touches_def)

lemma only_touches_touch:
  assumes "sessions_ok sm" "requireSession now sid iid sm = Inr s"
  shows "only_touches iid sm d (update_session sid (touch now) sm) d"
    and "find_session (update_session sid (touch now) sm) sid = Some (touch now s)"
  using assms find_session_update [OF assms(1), of sid s "touch now"]
  by (auto simp: requireSession_Inr dest: find_session_Some intro!: only_touches_update)

lemma only_touches_abandon:
  assumes "sessions_ok sm" "find_session sm (s_id s) = Some s"
  shows "only_touches (s_instanceId s) sm d (fst (abandon s sm d)) (snd (abandon s sm d))"
  using assms by (auto simp: abandon_def intro!: only_touches_update)

lemma only_touches_answer:
  assumes "sessions_ok sm" "find_session sm (s_id s) = Some s"
    and "answer decode be keep now y t s sm d = (r, sm', d')"
  shows "only_touches (s_instanceId s) sm d sm' d'"
proof (cases "pollBackend be d s y 0")
  case (Inl e)
  have "only_touches (s_instanceId s) sm d sm d"
    using assms(1) by (simp add: only_touches_def)
  with Inl assms only_touches_abandon [OF assms(1,2), of d] show ?thesis
    by (auto simp: answer_def split: if_splits)
next
  case (Inr x)
  obtain resp s' where rs: "response decode (sm_maxOutputBytes sm) now x t False s = (resp, s')" by force
  have "only_touches (s_instanceId s) sm d (update_session (s_id s) (\<lambda>_. s') sm)
      (if s_active s' then d else setInstanceState (s_instanceId s) I_READY d)"
    using assms(1,2) response_simps [OF rs] by (intro only_touches_update) auto
  then show ?thesis using assms(3) Inr rs by (auto simp: answer_def split: if_splits)
qed

lemma only_touches_refl: "sessions_ok sm \<Longrightarrow> only_touches iid sm d sm d"
  by (simp add: only_touches_def)

lemma only_touches_poll:
  assumes "sessions_ok sm" "poll decode be now iid sid y t sm d = (r, sm', d')"
  shows "only_touches iid sm d sm' d'"
proof (cases "requireSession now sid iid sm")
  case (Inl e)
  then show ?thesis using assms by (simp add: poll_def only_touches_refl)
next
  case (Inr s)
  note t = only_touches_touch(1) [OF assms(1) Inr, of d] only_touches_touch(2) [OF assms(1) Inr]
  have s: "s_id s = sid" "s_instanceId s = iid"
    using Inr by (auto simp: requireSession_Inr dest: find_session_Some)
  have "only_touches iid (update_session sid (touch now) sm) d sm' d'"
    using only_touches_answer [of "update_session sid (touch now) sm" "touch now s"] t s assms(2) Inr
    by (auto simp: poll_def only_touches_def)
  with t(1) show ?thesis by (rule only_touches_trans)
qed

lemma only_touches_write:
  assumes "sessions_ok sm" "write_session decode be now iid sid chars y t sm d = (r, sm', d')"
  shows "only_touches iid sm d sm' d'"
proof (cases "requireSession now sid iid sm")
  case (Inl e)
  then show ?thesis using assms by (simp add: write_session_def only_touches_refl)
next
  case (Inr s)
  let ?s1 = "touch now s" and ?sm1 = "update_session sid (touch now) sm"
  note t = only_touches_touch(1) [OF assms(1) Inr, of d] only_touches_touch(2) [OF assms(1) Inr]
  have s: "s_id s = sid" "s_instanceId s = iid"
    using Inr by (auto simp: requireSession_Inr dest: find_session_Some)
  have ok1: "sessions_ok ?sm1" using t(1) by (simp add: only_touches_def)
  show ?thesis
  proof (cases "s_instanceId s \<in> set (sm_closingInstances sm)")
    case True
    then show ?thesis using assms Inr by (simp add: write_session_def only_touches_refl)
  next
    case False
    let ?sent = "if s_tty ?s1 then be_write be (xh_backend (s_execution ?s1)) (s_execution ?s1) chars
      else if chars = [CHR 0x03] then kill_session be ?s1 0
      else Inl (service_err SESSION_STDIN_CLOSED ''Non-TTY session stdin is closed'')"
    have "only_touches iid ?sm1 d sm' d'"
    proof (cases ?sent)
      case (Inl e)
      then have "(sm', d') = (if stdin_closed e then (?sm1, d) else abandon ?s1 ?sm1 d)"
        using assms(2) Inr False unfolding write_session_def Let_def by simp
      then show ?thesis
        using only_touches_abandon [OF ok1, of ?s1 d] t(2) s only_touches_refl [OF ok1, of iid d]
        by (cases "abandon ?s1 ?sm1 d") (auto split: if_splits)
    next
      case sent: (Inr u)
      then have "answer decode be stdin_closed now y t ?s1 ?sm1 d = (r, sm', d')"
        using assms(2) Inr False unfolding write_session_def Let_def by simp
      then show ?thesis using only_touches_answer [OF ok1, of ?s1] t(2) s by auto
    qed
    with t(1) show ?thesis by (rule only_touches_trans)
  qed
qed

lemma only_touches_kill:
  assumes "sessions_ok sm" "kill decode be now iid sid sm d = (r, sm', d')"
  shows "only_touches iid sm d sm' d'"
proof (cases "requireSession now sid iid sm")
  case (Inl e)
  then show ?thesis using assms by (simp add: kill_def only_touches_refl)
next
  case (Inr s)
  let ?s1 = "touch now s" and ?sm1 = "update_session sid (touch now) sm"
  note t = only_touches_touch(1) [OF assms(1) Inr, of d] only_touches_touch(2) [OF assms(1) Inr]
  have s: "s_id s = sid" "s_instanceId s = iid"
    using Inr by (auto simp: requireSession_Inr dest: find_session_Some)
  have ok1: "sessions_ok ?sm1" using t(1) by (simp add: only_touches_def)
  have "only_touches iid ?sm1 d sm' d'"
  proof (cases "bind_res (kill_session be ?s1 0) (\<lambda>_. pollBackend be d ?s1 0 0)")
    case Inl
    then show ?thesis using assms(2) Inr only_touches_refl [OF ok1, of iid d] by (auto simp: kill_def Let_def)
  next
    case polled: (Inr x)
    obtain resp s2 where rs: "response decode (sm_maxOutputBytes ?sm1) now x None True
        (?s1\<lparr>s_active := False\<rparr>) = (resp, s2)" by force
    have "only_touches iid ?sm1 d (update_session sid (\<lambda>_. s2) ?sm1) (setInstanceState iid I_READY d)"
      using ok1 t(2) s response_simps [OF rs]
      by (intro only_touches_update [where s = ?s1]) auto
    then show ?thesis using assms(2) Inr polled rs s by (simp add: kill_def Let_def)
  qed
  with t(1) show ?thesis by (rule only_touches_trans)
qed

section \<open>Starting an execution\<close>

lemma exec_guard_Inr:
  "exec_guard q sm d = Inr x \<longleftrightarrow>
     xq_instanceId q \<notin> set (sm_closingInstances sm) \<and> length (sm_sessions sm) < session_limit \<and>
     xq_command q \<noteq> [] \<and> length (xq_command q) \<le> 128 * 1024 \<and>
     (exec_cwd q = ''/workspace'' \<or> starts_with ''/workspace/'' (exec_cwd q)) \<and>
     getTurnHandle d (xq_instanceId q) = Inr x"
  by (auto simp: exec_guard_def)

lemma new_session_simps [simp]:
  "s_id (new_session q sid x now) = sid" "s_instanceId (new_session q sid x now) = xq_instanceId q"
  "s_active (new_session q sid x now)" "s_cursor (new_session q sid x now) = 0"
  by (simp_all add: new_session_def)

lemma find_session_new:
  "sid \<notin> s_id ` set (sm_sessions sm) \<Longrightarrow> s_id s = sid \<Longrightarrow>
   find_session (sm\<lparr>sm_sessions := sm_sessions sm @ [s]\<rparr>) sid = Some s"
proof -
  assume "sid \<notin> s_id ` set (sm_sessions sm)" "s_id s = sid"
  moreover from this have "select1 (\<lambda>s. s_id s = sid) (sm_sessions sm) = None"
    unfolding select1_None by (metis imageI)
  ultimately show ?thesis by (simp add: find_session_def select1_append)
qed

text \<open>The three ways \<open>exec\<close> ends: refused, not started, or registered and answered.\<close>

lemma exec_cases:
  assumes "exec decode be now now' eid sid q sm d = (r, sm', d')"
  obtains (refused) e where "r = Inl e" "sm' = reap now sm" "d' = d"
  | (registered) row h x where "exec_guard q (reap now sm) d = Inr (row, h)"
      "answer decode be (\<lambda>_. False) now' (xq_yieldTimeMs q) (xq_maxOutputTokens q)
         (new_session q sid x now')
         ((reap now sm)\<lparr>sm_sessions := sm_sessions (reap now sm) @ [new_session q sid x now']\<rparr>)
         (setInstanceState (xq_instanceId q) I_RUNNING d) = (r, sm', d')"
proof (cases "exec_guard q (reap now sm) d")
  case (Inl e)
  then have "r = Inl e" "sm' = reap now sm" "d' = d" using assms by (simp_all add: exec_def Let_def)
  then show thesis by (rule refused)
next
  case (Inr y)
  obtain row h where y: "y = (row, h)" by force
  show thesis
  proof (cases "be_exec be (i_backend row) h
      \<lparr>xi_executionId = eid, xi_command = xq_command q, xi_cwd = exec_cwd q,
       xi_tty = (xq_tty q = Some True), xi_timeoutMs = xq_timeoutMs q\<rparr>")
    case (Inl e)
    then have "r = Inl e" "sm' = reap now sm" "d' = d"
      using assms Inr y by (simp_all add: exec_def Let_def)
    then show thesis by (rule refused)
  next
    case started: (Inr x)
    show thesis
      by (rule registered [of row h x]) (use assms Inr y started in \<open>simp_all add: exec_def exec_started_def Let_def\<close>)
  qed
qed

lemma sessions_ok_append:
  "sessions_ok sm \<Longrightarrow> length (sm_sessions sm) < session_limit \<Longrightarrow> s_id s \<notin> s_id ` set (sm_sessions sm) \<Longrightarrow>
   sessions_ok (sm\<lparr>sm_sessions := sm_sessions sm @ [s]\<rparr>)"
  by (auto simp: sessions_ok_def)

lemma reap_subset: "set (sm_sessions (reap now sm)) \<subseteq> set (sm_sessions sm)"
proof -
  obtain P where "sm_sessions (reap now sm) = filter P (sm_sessions sm)" using reap_sublist by blast
  then show ?thesis by auto
qed

lemma exec_keeps:
  assumes "sessions_ok sm" "sid \<notin> s_id ` set (sm_sessions sm)"
    and run: "exec decode be now now' eid sid q sm d = (r, sm', d')"
  shows "sessions_ok sm' \<and>
    filter s_active (other_sessions (xq_instanceId q) sm') = filter s_active (other_sessions (xq_instanceId q) sm)"
proof -
  let ?sm1 = "reap now sm" and ?i = "xq_instanceId q"
  have ok1: "sessions_ok ?sm1" using assms(1) by (rule sessions_ok_reap)
  have act: "filter s_active (other_sessions ?i ?sm1) = filter s_active (other_sessions ?i sm)"
  proof -
    have comm: "filter s_active (filter Q ss) = filter Q (filter s_active ss)" for Q ss
      by (simp add: filter_filter conj_commute)
    show ?thesis
      unfolding other_sessions_def comm reap_keeps_active_sessions [OF assms(1), of now] ..
  qed
  from run show ?thesis
  proof (cases rule: exec_cases)
    case refused
    then show ?thesis using ok1 act by simp
  next
    case (registered row h x)
    let ?s = "new_session q sid x now'"
    let ?sm2 = "?sm1\<lparr>sm_sessions := sm_sessions ?sm1 @ [?s]\<rparr>"
    have fresh: "sid \<notin> s_id ` set (sm_sessions ?sm1)" using assms(2) reap_subset by blast
    have "length (sm_sessions ?sm1) < session_limit" using registered(1) by (simp add: exec_guard_Inr)
    then have ok2: "sessions_ok ?sm2" using ok1 fresh by (intro sessions_ok_append) simp_all
    have "only_touches ?i ?sm2 (setInstanceState ?i I_RUNNING d) sm' d'"
      using only_touches_answer [OF ok2 _ registered(2)] find_session_new [OF fresh, of ?s] by simp
    moreover have "other_sessions ?i ?sm2 = other_sessions ?i ?sm1" by (simp add: other_sessions_def)
    ultimately show ?thesis using act by (simp add: only_touches_def)
  qed
qed

section \<open>\<open>closeInstance\<close>\<close>

definition ended :: "int \<Rightarrow> session \<Rightarrow> session" where
  "ended now s = (touch now s)\<lparr>s_active := False\<rparr>"

lemma ended_simps [simp]:
  "s_id (ended now s) = s_id s" "s_instanceId (ended now s) = s_instanceId s" "\<not> s_active (ended now s)"
  by (simp_all add: ended_def)

lemma close_session_cases:
  "close_session be now d s (sm, fs) =
     (case end_session be d s of
        Inl e \<Rightarrow> (update_session (s_id s) (touch now) sm, fs @ [e])
      | Inr _ \<Rightarrow> (update_session (s_id s) (ended now) sm, fs))"
  unfolding close_session_def ended_def [abs_def] by simp

lemma close_fold:
  assumes "fold (close_session be now d) ss (sm, fs) = (sm', [])"
  shows "fs = [] \<and> sm_closingInstances sm' = sm_closingInstances sm \<and>
    map s_id (sm_sessions sm') = map s_id (sm_sessions sm) \<and>
    (\<forall>x\<in>set (sm_sessions sm'). s_active x \<longrightarrow> x \<in> set (sm_sessions sm) \<and> s_id x \<notin> s_id ` set ss) \<and>
    filter (\<lambda>x. s_id x \<notin> s_id ` set ss) (sm_sessions sm') =
    filter (\<lambda>x. s_id x \<notin> s_id ` set ss) (sm_sessions sm)"
  using assms
proof (induction ss arbitrary: sm fs)
  case Nil
  then show ?case by simp
next
  case (Cons s ss)
  have failed: "snd (fold (close_session be now d) ss (sm, fs)) = [] \<Longrightarrow> fs = []" for sm fs
  proof (induction ss arbitrary: sm fs)
    case (Cons s ss)
    then show ?case by (auto simp: close_session_cases split: sum.splits dest!: Cons.IH)
  qed simp
  show ?case
  proof (cases "end_session be d s")
    case (Inl e)
    with Cons.prems failed [of "update_session (s_id s) (touch now) sm" "fs @ [e]"] show ?thesis
      by (simp add: close_session_cases)
  next
    case (Inr u)
    let ?sm1 = "update_session (s_id s) (ended now) sm"
    from Inr Cons.prems have "fold (close_session be now d) ss (?sm1, fs) = (sm', [])"
      by (simp add: close_session_cases)
    note IH = Cons.IH [OF this]
    have "map s_id (sm_sessions ?sm1) = map s_id (sm_sessions sm)"
      by (simp add: update_session_def map_key_update_where)
    moreover have "x \<in> set (sm_sessions sm) \<and> s_id x \<noteq> s_id s"
      if "x \<in> set (sm_sessions ?sm1)" "s_active x" for x
      using that by (auto simp: update_session_def update_where_mem)
    moreover have "filter (\<lambda>x. s_id x \<notin> s_id ` set (s # ss)) (sm_sessions sm') =
        filter (\<lambda>x. s_id x \<notin> s_id ` set (s # ss)) (sm_sessions sm)"
    proof -
      have split: "filter (\<lambda>x. s_id x \<notin> s_id ` set (s # ss)) xs =
          filter (\<lambda>x. s_id x \<noteq> s_id s) (filter (\<lambda>x. s_id x \<notin> s_id ` set ss) xs)" for xs
        unfolding filter_filter by (rule filter_cong) auto
      have "filter (\<lambda>x. s_id x \<notin> s_id ` set (s # ss)) (sm_sessions sm') =
          filter (\<lambda>x. s_id x \<notin> s_id ` set (s # ss)) (sm_sessions ?sm1)"
        using IH by (simp only: split)
      also have "\<dots> = filter (\<lambda>x. s_id x \<notin> s_id ` set (s # ss)) (sm_sessions sm)"
        unfolding update_session_def by (simp add: filter_update_where_other)
      finally show ?thesis .
    qed
    ultimately show ?thesis using IH by auto
  qed
qed

lemma closeInstance_Inr:
  assumes "sessions_ok sm" "closeInstance be now iid sm d = (Inr (), sm', d')"
  shows "sessions_ok sm' \<and> iid \<in> set (sm_closingInstances sm') \<and>
    (\<forall>s\<in>set (sm_sessions sm'). s_instanceId s = iid \<longrightarrow> \<not> s_active s) \<and>
    (d' = d \<or> d' = setInstanceState iid I_READY d)"
proof -
  let ?sm1 = "sm\<lparr>sm_closingInstances := List.insert iid (sm_closingInstances sm)\<rparr>"
  let ?open = "filter (\<lambda>s. s_instanceId s = iid \<and> s_active s) (sm_sessions sm)"
  obtain sm2 fs where run: "fold (close_session be now d) ?open (?sm1, []) = (sm2, fs)" by force
  have fs: "fs = []" and sm': "sm' = sm2"
    and d': "d' = d \<or> d' = setInstanceState iid I_READY d"
    using assms(2) run by (auto simp: closeInstance_def Let_def split: if_splits option.splits)
  note fold = close_fold [OF run [unfolded fs]]
  have "length (sm_sessions sm2) = length (sm_sessions sm)"
    using arg_cong [where f = length, OF conjunct1 [OF conjunct2 [OF conjunct2 [OF fold]]]] by simp
  then have "sessions_ok sm2" using assms(1) fold by (simp add: sessions_ok_def)
  moreover have "\<not> s_active s" if "s \<in> set (sm_sessions sm2)" "s_instanceId s = iid" for s
    using fold that by (auto simp: image_iff)
  ultimately show ?thesis using fold sm' d' by simp
qed

lemma closeInstance_db:
  assumes "closeInstance be now iid sm d = (r, sm', d')"
  shows "d' = (case (r, getInstance d iid) of
      (Inr _, Some row) \<Rightarrow> if i_state row = I_RUNNING then setInstanceState iid I_READY d else d
    | _ \<Rightarrow> d)"
  using assms
  by (auto simp: closeInstance_def Let_def split: if_splits option.splits prod.splits)

end
