(* ===== verification/Turns.thy ===== *)
theory Turns
  imports Sessions_Inv "HOL-Library.AList"
begin

text \<open>
  \<open>TurnService\<close> (\<open>src/domain/turn-service.ts\<close>): starting, leasing, finishing and forking turns.

  The service's maps are association lists, as \<open>Map\<close> keeps its entries in insertion order;
  \<open>startPromises\<close> and \<open>finishPromises\<close> are the keys they hold. A handler is cut into the
  segments between its awaits. The clock and the random ids are arguments; the session manager's
  \<open>closeInstance\<close>, which \<open>finishOpen\<close> awaits, is the argument \<open>cl\<close>.
\<close>

section \<open>Data\<close>

record turn_view =
  w_threadId :: string
  w_turnId :: string
  w_mode :: sandbox_kind
  w_state :: turn_state
  w_instanceId :: "string option"
  w_workspaceId :: "string option"
  w_headCommit :: "digest option"

record bound_turn =
  b_threadId :: string
  b_turnId :: string
  b_mode :: sandbox_kind
  b_instanceId :: string
  b_workspaceId :: "string option"
  b_expectedHead :: "digest option"

record turn_lease =
  l_id :: string
  l_key :: string
  l_turn :: bound_turn

record start_input =
  si_threadId :: string
  si_turnId :: string
  si_mode :: sandbox_kind
  si_backend :: "backend option"
  si_network :: "network_profile option"
  si_resourceProfile :: "resource_profile option"

text \<open>\<open>ts_released\<close> holds the \<open>released\<close> flags of the leases handed out, by lease id.\<close>

record turn_service =
  ts_activeLeases :: "(string \<times> bound_turn) list"
  ts_leaseCounts :: "(string \<times> nat) list"
  ts_leaseWaiters :: "string list"
  ts_released :: "string list"
  ts_startPromises :: "string list"
  ts_finishPromises :: "string list"
  ts_closing :: bool
  ts_defaultBackend :: backend

section \<open>Identifiers, requests and errors\<close>

definition is_alnum :: "char \<Rightarrow> bool" where
  "is_alnum c \<longleftrightarrow>
     c \<in> set ''ABCDEFGHIJKLMNOPQRSTUVWXYZabcdefghijklmnopqrstuvwxyz0123456789''"

text \<open>\<open>TURN_IDENTIFIER_PATTERN = /^[A-Za-z0-9][A-Za-z0-9._:-]{0,255}$/\<close>.\<close>

definition valid_identifier :: "string \<Rightarrow> bool" where
  "valid_identifier s =
     (case s of [] \<Rightarrow> False
      | c # cs \<Rightarrow> is_alnum c \<and> list_all (\<lambda>x. is_alnum x \<or> x \<in> set ''._:-'') cs \<and> length cs \<le> 255)"

definition validateIdentifier :: "string \<Rightarrow> string \<Rightarrow> unit res" where
  "validateIdentifier name v =
     (if valid_identifier v then Inr ()
      else Inl (service_err INVALID_ARGUMENT (name @ '' is invalid'')))"

definition turnKey :: "string \<Rightarrow> string \<Rightarrow> string" where
  "turnKey tid uid = tid @ NUL # uid"

text \<open>\<open>normalizedRequest\<close>: two inputs give the same text exactly when these fields agree.\<close>

definition normalizedRequest :: "start_input \<Rightarrow> turn_request" where
  "normalizedRequest inp = \<lparr>q_mode = si_mode inp, q_backend = si_backend inp,
     q_network = si_network inp, q_resourceProfile = si_resourceProfile inp\<rparr>"

definition harnessRequestId :: "(string \<Rightarrow> string) \<Rightarrow> string \<Rightarrow> string list \<Rightarrow> string" where
  "harnessRequestId sha operation parts =
     ''harness:'' @ operation @ '':'' @ sha (join_with NUL (operation # parts))"

definition replayError :: "turn_row \<Rightarrow> js_error" where
  "replayError record' =
     (case t_errorJson record' of
        None \<Rightarrow> service_err TURN_CLOSED ''Turn failed without a stored error''
      | Some e \<Rightarrow> ServiceError (se_code e) (se_message e) (se_details e))"

definition view :: "turn_row \<Rightarrow> turn_view" where
  "view r =
     (let headCommit = (case t_resultJson r of
            None \<Rightarrow> t_expectedHead r
          | Some result \<Rightarrow> (case r_headCommit result of None \<Rightarrow> t_expectedHead r | Some h \<Rightarrow> Some h))
      in \<lparr>w_threadId = t_threadId r, w_turnId = t_turnId r, w_mode = t_mode r, w_state = t_state r,
          w_instanceId = truthy (t_instanceId r), w_workspaceId = truthy (t_workspaceId r),
          w_headCommit = truthy headCommit\<rparr>)"

fun turn_state_name :: "turn_state \<Rightarrow> string" where
  "turn_state_name T_STARTING = ''STARTING''"
| "turn_state_name T_OPEN = ''OPEN''"
| "turn_state_name T_FINISHING = ''FINISHING''"
| "turn_state_name T_FINISHED = ''FINISHED''"
| "turn_state_name T_FAILED = ''FAILED''"

section \<open>Starting a turn\<close>

definition existingStart :: "turn_row \<Rightarrow> turn_request \<Rightarrow> turn_view res" where
  "existingStart r request =
     (if t_requestJson r \<noteq> request
      then Inl (service_err INVALID_ARGUMENT ''Turn ID was already used with a different request'')
      else (case t_state r of
          T_OPEN \<Rightarrow> Inr (view r)
        | T_FINISHED \<Rightarrow> Inr (view r)
        | T_FAILED \<Rightarrow> Inl (replayError r)
        | s \<Rightarrow> Inl (service_err THREAD_BUSY (''Turn is '' @ turn_state_name s))))"

definition thread_busy :: "turn_row \<Rightarrow> js_error" where
  "thread_busy active =
     service_err THREAD_BUSY (''Thread already has active turn '' @ t_turnId active)"

text \<open>The first segment of \<open>start\<close>: \<open>Some r\<close> when it settles at once, \<open>None\<close> when it has
  recorded a STARTING turn and goes on to create the runtime.\<close>

definition start_begin :: "turn_service \<Rightarrow> start_input \<Rightarrow> int \<Rightarrow> db \<Rightarrow> turn_view res option \<times> turn_service \<times> db" where
  "start_begin ts inp now d =
     (let tid = si_threadId inp; uid = si_turnId inp; request = normalizedRequest inp in
      if ts_closing ts then (Some (Inl (service_err TURN_CLOSED ''Turn service is closing'')), ts, d)
      else case bind_res (validateIdentifier ''threadId'' tid) (\<lambda>_. validateIdentifier ''turnId'' uid) of
        Inl e \<Rightarrow> (Some (Inl e), ts, d)
      | Inr _ \<Rightarrow>
          (case getTurn d tid uid of
             Some existing \<Rightarrow> (Some (existingStart existing request), ts, d)
           | None \<Rightarrow>
          (case getOpenTurn d tid of
             Some open' \<Rightarrow> (Some (Inl (thread_busy open')), ts, d)
           | None \<Rightarrow>
          (case createTurn (new_turn_row tid uid T_STARTING request now) d of
             Inr d' \<Rightarrow> (None, ts\<lparr>ts_startPromises := List.insert (turnKey tid uid) (ts_startPromises ts)\<rparr>, d')
           | Inl e \<Rightarrow>
               (case getTurn d tid uid of
                  Some raced \<Rightarrow> (Some (existingStart raced request), ts, d)
                | None \<Rightarrow>
                    (case getOpenTurn d tid of
                       Some active \<Rightarrow> (Some (Inl (thread_busy active)), ts, d)
                     | None \<Rightarrow> (Some (Inl e), ts, d)))))))"

text \<open>What \<open>startCreated\<close> asks the sandbox service for, and how the turn is opened then.\<close>

definition runtime_request :: "start_input \<Rightarrow> string \<Rightarrow> digest \<Rightarrow> string option \<Rightarrow> backend \<Rightarrow> runtime_input" where
  "runtime_request inp iid baseCommit wid defaultBackend =
     \<lparr>ct_instanceId = iid, ct_kind = si_mode inp, ct_baseCommit = baseCommit, ct_workspaceId = wid,
      ct_backend = (case si_backend inp of Some b \<Rightarrow> b | None \<Rightarrow> defaultBackend),
      ct_network = (case si_network inp of Some n \<Rightarrow> n | None \<Rightarrow> Net_none),
      ct_resourceProfile = (case si_resourceProfile inp of Some p \<Rightarrow> p
        | None \<Rightarrow> DEFAULT_RESOURCE_PROFILE)\<rparr>"

definition open_update :: "string \<Rightarrow> workspace_view option \<Rightarrow> turn_update" where
  "open_update iid workspace = no_update\<lparr>u_state := Some T_OPEN, u_instanceId := Some (Some iid),
     u_workspaceId := map_option (\<lambda>w. Some (wv_workspaceId w)) workspace,
     u_expectedHead := map_option (\<lambda>w. Some (wv_headCommit w)) workspace\<rparr>"

definition start_request :: "sandbox_service \<Rightarrow> turn_service \<Rightarrow> start_input \<Rightarrow> string \<Rightarrow> string \<Rightarrow> db
    \<Rightarrow> (runtime_input \<times> turn_update) run" where
  "start_request sb ts inp iid wuuid d =
     (case si_mode inp of
        Instant \<Rightarrow> with_res (getCanonicalEmptyCommit sb) d (\<lambda>base.
          (Inr (runtime_request inp iid base None Firecracker, open_update iid None), d))
      | Durable \<Rightarrow>
          (case ensureThreadWorkspace sb wuuid (si_threadId inp) d of
             (Inl e, d1) \<Rightarrow> (Inl e, d1)
           | (Inr w, d1) \<Rightarrow>
               (Inr (runtime_request inp iid (wv_headCommit w) (Some (wv_workspaceId w))
                       (ts_defaultBackend ts), open_update iid (Some w)), d1)))"

definition failed_update :: "js_error \<Rightarrow> int \<Rightarrow> turn_update" where
  "failed_update e now = no_update\<lparr>u_state := Some T_FAILED, u_errorJson := Some (Some (stored_of e)),
     u_finishedAt := Some (Some now)\<rparr>"

text \<open>The \<open>catch\<close> of \<open>startCreated\<close>: the turn is marked FAILED with the instance id it was to
  have, whether or not the instance exists.\<close>

definition start_failed :: "externals \<Rightarrow> sandbox_service \<Rightarrow> start_input \<Rightarrow> string \<Rightarrow> bool \<Rightarrow> js_error \<Rightarrow> int
    \<Rightarrow> db \<Rightarrow> turn_view run" where
  "start_failed ex sb inp iid runtimeCreated e now d =
     (let d1 = (if runtimeCreated then snd (deleteTurnRuntime ex sb iid d) else d)
      in case updateTurn (si_threadId inp) (si_turnId inp)
             ((failed_update e now)\<lparr>u_instanceId := Some (Some iid)\<rparr>) d1 of
           Inl e' \<Rightarrow> (Inl e', d1)
         | Inr d2 \<Rightarrow> (Inl e, d2))"

text \<open>The segment after the runtime has been created.\<close>

definition start_opened :: "externals \<Rightarrow> sandbox_service \<Rightarrow> start_input \<Rightarrow> string \<Rightarrow> turn_update \<Rightarrow> int
    \<Rightarrow> db \<Rightarrow> turn_view run" where
  "start_opened ex sb inp iid upd now d =
     (case updateTurn (si_threadId inp) (si_turnId inp) upd d of
        Inl e \<Rightarrow> start_failed ex sb inp iid True e now d
      | Inr d' \<Rightarrow>
          (case getTurn d' (si_threadId inp) (si_turnId inp) of
             None \<Rightarrow> start_failed ex sb inp iid True
               (service_err BACKEND_ERROR ''Turn record disappeared during start'') now d'
           | Some opened \<Rightarrow> (Inr (view opened), d')))"

definition startCreated :: "externals \<Rightarrow> sandbox_service \<Rightarrow> turn_service \<Rightarrow> start_input \<Rightarrow> string \<Rightarrow> string \<Rightarrow> int
    \<Rightarrow> db \<Rightarrow> turn_view run" where
  "startCreated ex sb ts inp iid wuuid now d =
     (case start_request sb ts inp iid wuuid d of
        (Inl e, d1) \<Rightarrow> start_failed ex sb inp iid False e now d1
      | (Inr (request, upd), d1) \<Rightarrow>
          (case createTurnRuntime ex sb request d1 of
             (Inl e, d2) \<Rightarrow> start_failed ex sb inp iid False e now d2
           | (Inr _, d2) \<Rightarrow> start_opened ex sb inp iid upd now d2))"

definition start_end :: "start_input \<Rightarrow> turn_service \<Rightarrow> turn_service" where
  "start_end inp ts = ts\<lparr>ts_startPromises := removeAll (turnKey (si_threadId inp) (si_turnId inp))
     (ts_startPromises ts)\<rparr>"

text \<open>\<open>start\<close>, run without other operations in between.\<close>

definition start :: "externals \<Rightarrow> sandbox_service \<Rightarrow> start_input \<Rightarrow> string \<Rightarrow> string \<Rightarrow> int \<Rightarrow> int
    \<Rightarrow> turn_service \<Rightarrow> db \<Rightarrow> turn_view res \<times> turn_service \<times> db" where
  "start ex sb inp iid wuuid now now' ts d =
     (case start_begin ts inp now d of
        (Some r, ts', d') \<Rightarrow> (r, ts', d')
      | (None, ts', d') \<Rightarrow>
          (let (r, d'') = startCreated ex sb ts' inp iid wuuid now' d' in (r, start_end inp ts', d'')))"

section \<open>Leases\<close>

definition bound :: "turn_row \<Rightarrow> bound_turn res" where
  "bound r =
     (case (t_state r, truthy (t_instanceId r)) of
        (T_OPEN, Some iid) \<Rightarrow>
          if t_mode r = Durable \<and> (truthy (t_workspaceId r) = None \<or> truthy (t_expectedHead r) = None)
          then Inl (service_err BACKEND_ERROR ''Durable turn binding is incomplete'')
          else Inr \<lparr>b_threadId = t_threadId r, b_turnId = t_turnId r, b_mode = t_mode r,
                 b_instanceId = iid, b_workspaceId = truthy (t_workspaceId r),
                 b_expectedHead = truthy (t_expectedHead r)\<rparr>
      | _ \<Rightarrow> Inl (service_err TURN_CLOSED ''Turn is not open''))"

definition resolve :: "db \<Rightarrow> string \<Rightarrow> string \<Rightarrow> bound_turn res" where
  "resolve d tid uid =
     (case getTurn d tid uid of
        None \<Rightarrow> Inl (service_err TURN_CLOSED ''Turn does not exist'')
      | Some r \<Rightarrow> bound r)"

definition lease_count :: "turn_service \<Rightarrow> string \<Rightarrow> nat" where
  "lease_count ts key = (case map_of (ts_leaseCounts ts) key of None \<Rightarrow> 0 | Some n \<Rightarrow> n)"

definition acquire :: "turn_service \<Rightarrow> db \<Rightarrow> string \<Rightarrow> string \<Rightarrow> string \<Rightarrow> (turn_lease \<times> turn_service) res" where
  "acquire ts d tid uid leaseId =
     (if ts_closing ts then Inl (service_err TURN_CLOSED ''Turn service is closing'')
      else bind_res (validateIdentifier ''threadId'' tid) (\<lambda>_.
        bind_res (validateIdentifier ''turnId'' uid) (\<lambda>_.
        bind_res (resolve d tid uid) (\<lambda>turn.
          let key = turnKey tid uid in
          Inr (\<lparr>l_id = leaseId, l_key = key, l_turn = turn\<rparr>,
               ts\<lparr>ts_activeLeases := AList.update leaseId turn (ts_activeLeases ts),
                  ts_leaseCounts := AList.update key (lease_count ts key + 1) (ts_leaseCounts ts)\<rparr>)))))"

text \<open>\<open>release\<close>, with whether it wakes the \<open>finishOpen\<close> that waits for this turn's leases.\<close>

definition release :: "turn_lease \<Rightarrow> turn_service \<Rightarrow> bool \<times> turn_service" where
  "release l ts =
     (if l_id l \<in> set (ts_released ts) then (False, ts)
      else
        (let ts1 = ts\<lparr>ts_released := l_id l # ts_released ts\<rparr> in
         if map_of (ts_activeLeases ts1) (l_id l) = None then (False, ts1)
         else
           (let ts2 = ts1\<lparr>ts_activeLeases := AList.delete (l_id l) (ts_activeLeases ts1)\<rparr>;
                remaining = (case map_of (ts_leaseCounts ts2) (l_key l) of None \<Rightarrow> 1 | Some n \<Rightarrow> n) - 1
            in if remaining > 0
               then (False, ts2\<lparr>ts_leaseCounts := AList.update (l_key l) remaining (ts_leaseCounts ts2)\<rparr>)
               else
                 (let ts3 = ts2\<lparr>ts_leaseCounts := AList.delete (l_key l) (ts_leaseCounts ts2)\<rparr>
                  in if l_key l \<in> set (ts_leaseWaiters ts3)
                     then (True, ts3\<lparr>ts_leaseWaiters := removeAll (l_key l) (ts_leaseWaiters ts3)\<rparr>)
                     else (False, ts3)))))"

definition resolveLease :: "turn_service \<Rightarrow> string \<Rightarrow> bound_turn option" where
  "resolveLease ts leaseId = map_of (ts_activeLeases ts) leaseId"

text \<open>\<open>waitForLeases\<close>: whether the caller goes on at once; otherwise it is registered.\<close>

definition waitForLeases :: "turn_service \<Rightarrow> string \<Rightarrow> string \<Rightarrow> bool \<times> turn_service" where
  "waitForLeases ts tid uid =
     (let key = turnKey tid uid in
      if lease_count ts key = 0 then (True, ts)
      else (False, ts\<lparr>ts_leaseWaiters := List.insert key (ts_leaseWaiters ts)\<rparr>))"

section \<open>Finishing a turn\<close>

text \<open>The first segment of \<open>finish\<close>: it settles at once, or it has marked the turn FINISHING
  and runs \<open>finishOpen\<close> on this record, now or when the last lease is released.\<close>

datatype finish_outcome =
    Finish_settled "turn_view res"
  | Finish_runs turn_row
  | Finish_waits turn_row

definition finish_begin :: "turn_service \<Rightarrow> string \<Rightarrow> string \<Rightarrow> db \<Rightarrow> finish_outcome \<times> turn_service \<times> db" where
  "finish_begin ts tid uid d =
     (case bind_res (validateIdentifier ''threadId'' tid) (\<lambda>_. validateIdentifier ''turnId'' uid) of
        Inl e \<Rightarrow> (Finish_settled (Inl e), ts, d)
      | Inr _ \<Rightarrow>
     (case getTurn d tid uid of
        None \<Rightarrow> (Finish_settled (Inl (service_err TURN_CLOSED ''Turn does not exist'')), ts, d)
      | Some r \<Rightarrow>
          if t_state r = T_FINISHED then (Finish_settled (Inr (view r)), ts, d)
          else if t_state r = T_FAILED then (Finish_settled (Inl (replayError r)), ts, d)
          else if t_state r \<noteq> T_OPEN
          then (Finish_settled (Inl (service_err THREAD_BUSY (''Turn is '' @ turn_state_name (t_state r)))), ts, d)
          else if turnKey tid uid \<in> set (ts_finishPromises ts)
          then (Finish_settled (Inl (service_err THREAD_BUSY ''Turn is already finishing'')), ts, d)
          else
            (case updateTurn tid uid (no_update\<lparr>u_state := Some T_FINISHING\<rparr>) d of
               Inl e \<Rightarrow> (Finish_settled (Inl e), ts, d)
             | Inr d' \<Rightarrow>
                 (let (go, ts1) = waitForLeases ts tid uid;
                      r' = r\<lparr>t_state := T_FINISHING\<rparr>
                  in (if go then Finish_runs r' else Finish_waits r',
                      ts1\<lparr>ts_finishPromises := List.insert (turnKey tid uid) (ts_finishPromises ts1)\<rparr>,
                      d')))))"

definition lost_update :: "js_error \<Rightarrow> instance_update" where
  "lost_update e = \<lparr>v_state = Some I_LOST, v_backendHandle = None, v_lastError = Some (Some (error_message e))\<rparr>"

text \<open>Delete the runtime; when that throws, mark the instance LOST. The result is the error.\<close>

definition delete_or_lose :: "externals \<Rightarrow> sandbox_service \<Rightarrow> string \<Rightarrow> db \<Rightarrow> js_error option \<times> db" where
  "delete_or_lose ex sb iid d =
     (case deleteTurnRuntime ex sb iid d of
        (Inr _, d') \<Rightarrow> (None, d')
      | (Inl e, d') \<Rightarrow> (Some e, updateInstance iid (lost_update e) d'))"

definition failTurn :: "externals \<Rightarrow> sandbox_service \<Rightarrow> turn_row \<Rightarrow> js_error \<Rightarrow> int \<Rightarrow> db \<Rightarrow> 'a run" where
  "failTurn ex sb r e now d =
     (let d1 = (case truthy (t_instanceId r) of None \<Rightarrow> d
                | Some iid \<Rightarrow> snd (delete_or_lose ex sb iid d))
      in case updateTurn (t_threadId r) (t_turnId r) (failed_update e now) d1 of
           Inl e' \<Rightarrow> (Inl e', d1)
         | Inr d2 \<Rightarrow> (Inl e, d2))"

definition finish_instant :: "externals \<Rightarrow> sandbox_service \<Rightarrow> turn_row \<Rightarrow> string \<Rightarrow> int \<Rightarrow> db \<Rightarrow> turn_view run" where
  "finish_instant ex sb r iid now d =
     (case delete_or_lose ex sb iid d of
        (Some e, d1) \<Rightarrow>
          (case updateTurn (t_threadId r) (t_turnId r) (failed_update e now) d1 of
             Inl e' \<Rightarrow> (Inl e', d1)
           | Inr d2 \<Rightarrow> (Inl e, d2))
      | (None, d1) \<Rightarrow>
          (let result = empty_result\<lparr>r_threadId := Some (t_threadId r), r_turnId := Some (t_turnId r),
                 r_mode := Some Instant, r_state := Some T_FINISHED, r_instanceId := Some iid\<rparr>
           in case updateTurn (t_threadId r) (t_turnId r)
                  (no_update\<lparr>u_state := Some T_FINISHED, u_resultJson := Some (Some result),
                     u_errorJson := Some None, u_finishedAt := Some (Some now)\<rparr>) d1 of
                Inl e' \<Rightarrow> (Inl e', d1)
              | Inr d2 \<Rightarrow> (Inr \<lparr>w_threadId = t_threadId r, w_turnId = t_turnId r, w_mode = Instant,
                    w_state = T_FINISHED, w_instanceId = Some iid, w_workspaceId = None,
                    w_headCommit = None\<rparr>, d2)))"

text \<open>After the commit: delete the runtime, record a cleanup error, and give the stored turn.\<close>

definition finish_committed :: "externals \<Rightarrow> sandbox_service \<Rightarrow> turn_row \<Rightarrow> string \<Rightarrow> turn_commit_result \<Rightarrow> db \<Rightarrow> turn_view run" where
  "finish_committed ex sb r iid committed d =
     (case (case delete_or_lose ex sb iid d of
              (None, d1) \<Rightarrow> (Inr (), d1)
            | (Some e, d1) \<Rightarrow>
                (let result = (case Option.bind (getTurn d1 (t_threadId r) (t_turnId r)) t_resultJson of
                       None \<Rightarrow> empty_result | Some result \<Rightarrow> result)
                 in case updateTurn (t_threadId r) (t_turnId r)
                      (no_update\<lparr>u_resultJson := Some (Some (result\<lparr>r_cleanupError := Some (error_message e)\<rparr>))\<rparr>) d1 of
                      Inl e' \<Rightarrow> (Inl e', d1)
                    | Inr d2 \<Rightarrow> (Inr (), d2))) of
        (Inl e, d2) \<Rightarrow> (Inl e, d2)
      | (Inr _, d2) \<Rightarrow>
          (case getTurn d2 (t_threadId r) (t_turnId r) of
             None \<Rightarrow> (Inl (service_err BACKEND_ERROR ''Turn record disappeared after commit''), d2)
           | Some finished \<Rightarrow> (Inr ((view finished)\<lparr>w_headCommit := Some (tcr_headCommit committed)\<rparr>), d2)))"

definition finish_commit_input :: "(string \<Rightarrow> string) \<Rightarrow> turn_row \<Rightarrow> string \<Rightarrow> string \<Rightarrow> digest \<Rightarrow> commit_input" where
  "finish_commit_input sha r iid wid head =
     \<lparr>ci_threadId = t_threadId r, ci_turnId = t_turnId r, ci_instanceId = iid, ci_workspaceId = wid,
      ci_ref = ''main'', ci_expectedHead = head,
      ci_operationId = harnessRequestId sha ''finish'' [t_threadId r, t_turnId r]\<rparr>"

text \<open>\<open>finishOpen\<close> once no lease is left.\<close>

definition finishOpen :: "externals \<Rightarrow> sandbox_service \<Rightarrow> (string \<Rightarrow> db \<Rightarrow> unit run) \<Rightarrow> turn_row \<Rightarrow> int \<Rightarrow> db \<Rightarrow> turn_view run" where
  "finishOpen ex sb cl r now d =
     (case truthy (t_instanceId r) of
        None \<Rightarrow> failTurn ex sb r (service_err BACKEND_ERROR ''Open turn has no runtime'') now d
      | Some iid \<Rightarrow>
     (case cl iid d of
        (Inl e, d1) \<Rightarrow> failTurn ex sb r e now d1
      | (Inr _, d1) \<Rightarrow>
          if t_mode r = Instant then finish_instant ex sb r iid now d1
          else
            (case (truthy (t_workspaceId r), truthy (t_expectedHead r)) of
               (Some wid, Some head) \<Rightarrow>
                 (case commitTurnRuntime ex sb (finish_commit_input (ex_sha256 ex) r iid wid head) now d1 of
                    (Inl e, d2) \<Rightarrow> failTurn ex sb r e now d2
                  | (Inr committed, d2) \<Rightarrow> finish_committed ex sb r iid committed d2)
             | _ \<Rightarrow> failTurn ex sb r (service_err BACKEND_ERROR ''Durable turn binding is incomplete'') now d1)))"

definition finish_end :: "string \<Rightarrow> string \<Rightarrow> turn_service \<Rightarrow> turn_service" where
  "finish_end tid uid ts = ts\<lparr>ts_finishPromises := removeAll (turnKey tid uid) (ts_finishPromises ts)\<rparr>"

text \<open>\<open>finish\<close>, run alone on a turn without leases; \<open>None\<close>: it still waits for a lease.\<close>

definition finish :: "externals \<Rightarrow> sandbox_service \<Rightarrow> (string \<Rightarrow> db \<Rightarrow> unit run) \<Rightarrow> string \<Rightarrow> string \<Rightarrow> int
    \<Rightarrow> turn_service \<Rightarrow> db \<Rightarrow> turn_view res option \<times> turn_service \<times> db" where
  "finish ex sb cl tid uid now ts d =
     (case finish_begin ts tid uid d of
        (Finish_settled r, ts', d') \<Rightarrow> (Some r, ts', d')
      | (Finish_waits r, ts', d') \<Rightarrow> (None, ts', d')
      | (Finish_runs r, ts', d') \<Rightarrow>
          (let (res, d'') = finishOpen ex sb cl r now d' in (Some res, finish_end tid uid ts', d'')))"

section \<open>Forking a thread\<close>

definition fork :: "turn_service \<Rightarrow> string \<Rightarrow> string \<Rightarrow> digest option \<Rightarrow> string \<Rightarrow> db \<Rightarrow> (string \<times> string \<times> digest) run" where
  "fork ts source destination commitId uuid d =
     (if ts_closing ts then (Inl (service_err TURN_CLOSED ''Turn service is closing''), d)
      else with_res (bind_res (validateIdentifier ''sourceThreadId'' source)
             (\<lambda>_. validateIdentifier ''destinationThreadId'' destination)) d (\<lambda>_.
      if source = destination
      then (Inl (service_err INVALID_ARGUMENT ''Destination thread must differ from source thread''), d)
      else (case getOpenTurn d source of
        Some active \<Rightarrow> (Inl (service_err THREAD_BUSY (''Source thread has active turn '' @ t_turnId active)), d)
      | None \<Rightarrow>
     (case getThreadWorkspace d source of
        None \<Rightarrow> (Inl (service_err NOT_FOUND ''Source durable thread does not exist''), d)
      | Some src \<Rightarrow>
          if getThreadWorkspace d destination \<noteq> None
          then (Inl (service_err INVALID_ARGUMENT ''Destination thread already exists''), d)
          else
     (case getRef d (tw_workspaceId src) ''main'' of
        None \<Rightarrow> (Inl (service_err NOT_FOUND ''Source thread main ref not found''), d)
      | Some current \<Rightarrow>
          (let headCommit = (case commitId of None \<Rightarrow> rf_headCommit current | Some c \<Rightarrow> c) in
           if truthy commitId \<noteq> None \<and> \<not> commitBelongsToHistory d (rf_headCommit current) headCommit
           then (Inl (service_err INVALID_ARGUMENT ''Commit does not belong to source thread history''), d)
           else (case createThreadFork (tw_workspaceId src) destination uuid headCommit d of
                   Inl e \<Rightarrow> (Inl e, d)
                 | Inr d' \<Rightarrow> (Inr (destination, uuid, headCommit), d'))))))))"

section \<open>Closing the service\<close>

definition service_closed :: stored_error where
  "service_closed = \<lparr>se_code = TURN_CLOSED, se_message = ''Turn service closed during active turn'',
     se_details = None\<rparr>"

definition closing_update :: "int \<Rightarrow> turn_update" where
  "closing_update now = no_update\<lparr>u_state := Some T_FAILED, u_errorJson := Some (Some service_closed),
     u_finishedAt := Some (Some now)\<rparr>"

text \<open>The last loop of \<open>closeAll\<close>, over the turns still STARTING or FINISHING, with the errors
  that deleting runtimes threw.\<close>

definition close_turn :: "externals \<Rightarrow> sandbox_service \<Rightarrow> int \<Rightarrow> turn_row \<Rightarrow> js_error list \<times> db
    \<Rightarrow> (js_error list \<times> db) res" where
  "close_turn ex sb now r = (\<lambda>(failures, d).
     (let (failed, d1) = (case truthy (t_instanceId r) of None \<Rightarrow> (None, d)
            | Some iid \<Rightarrow> delete_or_lose ex sb iid d)
      in bind_res (updateTurn (t_threadId r) (t_turnId r) (closing_update now) d1) (\<lambda>d2.
           Inr (failures @ (case failed of None \<Rightarrow> [] | Some e \<Rightarrow> [e]), d2))))"

fun close_turns :: "externals \<Rightarrow> sandbox_service \<Rightarrow> int \<Rightarrow> turn_row list \<Rightarrow> js_error list \<times> db
    \<Rightarrow> (js_error list \<times> db) res" where
  "close_turns ex sb now [] s = Inr s"
| "close_turns ex sb now (r # rs) s = bind_res (close_turn ex sb now r s) (close_turns ex sb now rs)"

text \<open>The first loop: finish every open turn, one after the other, collecting what they throw. A
  turn whose \<open>finish\<close> still waits for a lease holds the loop up, which is \<open>None\<close>.\<close>

fun finish_turns :: "externals \<Rightarrow> sandbox_service \<Rightarrow> (string \<Rightarrow> db \<Rightarrow> unit run) \<Rightarrow> int \<Rightarrow> turn_row list
    \<Rightarrow> turn_service \<Rightarrow> js_error list \<times> db \<Rightarrow> (turn_service \<times> js_error list \<times> db) option" where
  "finish_turns ex sb cl now [] ts s = Some (ts, s)"
| "finish_turns ex sb cl now (r # rs) ts (failures, d) =
     (case finish ex sb cl (t_threadId r) (t_turnId r) now ts d of
        (None, _, _) \<Rightarrow> None
      | (Some (Inl e), ts', d') \<Rightarrow> finish_turns ex sb cl now rs ts' (failures @ [e], d')
      | (Some (Inr _), ts', d') \<Rightarrow> finish_turns ex sb cl now rs ts' (failures, d'))"

text \<open>\<open>closeAll\<close> on a service without pending starts. Its errors, if any, are thrown together
  once everything else is done.\<close>

definition closeAll :: "externals \<Rightarrow> sandbox_service \<Rightarrow> (string \<Rightarrow> db \<Rightarrow> unit run) \<Rightarrow> int \<Rightarrow> turn_service
    \<Rightarrow> db \<Rightarrow> (turn_service \<times> (js_error list \<times> db) res) option" where
  "closeAll ex sb cl now ts d =
     (case finish_turns ex sb cl now (listTurns d [T_OPEN]) (ts\<lparr>ts_closing := True\<rparr>) ([], d) of
        None \<Rightarrow> None
      | Some (ts', failures, d') \<Rightarrow>
          Some (ts', close_turns ex sb now (listTurns d' [T_STARTING, T_FINISHING]) (failures, d')))"

end
