(* ===== verification/Turns_Inv.thy ===== *)
theory Turns_Inv
  imports Turns
begin

text \<open>
  What the turn service promises: identifiers make distinct map keys, leases are counted
  exactly and \<open>finish\<close> goes on only without them, starting is idempotent, a finished durable
  turn has moved its thread's head to a commit on top of the previous head, and a failed one
  has moved nothing.
\<close>

section \<open>Identifiers\<close>

lemma valid_identifier_no_NUL: "valid_identifier s \<Longrightarrow> NUL \<notin> set s"
  by (auto simp: valid_identifier_def is_alnum_def NUL_def list_all_iff split: list.splits)

lemma valid_identifier_nonempty: "valid_identifier s \<Longrightarrow> s \<noteq> []"
  by (auto simp: valid_identifier_def)

lemma turnKey_inject_valid:
  assumes "NUL \<notin> set t" "NUL \<notin> set t'" "turnKey t u = turnKey t' u'"
  shows "t = t' \<and> u = u'"
  using assms
proof (induction t arbitrary: t')
  case Nil
  then show ?case by (cases t') (auto simp: turnKey_def)
next
  case (Cons c t)
  then show ?case by (cases t') (auto simp: turnKey_def)
qed

lemma validateIdentifier_Inr [simp]: "validateIdentifier n v = Inr u \<longleftrightarrow> valid_identifier v"
  by (simp add: validateIdentifier_def)

section \<open>Updates that cannot fail\<close>

text \<open>An update that leaves the references of a turn alone and does not activate it succeeds.\<close>

lemma updateTurn_ok:
  assumes "db_ok d" "u_instanceId w = None" "u_workspaceId w = None" "u_expectedHead w = None"
    and "\<And>r. turn_at d (TurnKey t u) = Some r \<Longrightarrow> \<not> active_state (set_col (u_state w) (t_state r))"
  shows "\<exists>d'. updateTurn t u w d = Inr d'"
proof (cases "select1 (\<lambda>r. t_threadId r = t \<and> t_turnId r = u) (db_turns d)")
  case None
  then show ?thesis by (simp add: updateTurn_def)
next
  case (Some row)
  then have row: "turn_at d (TurnKey t u) = Some row" by (simp add: turn_at_def turn_key_iff)
  then have "turn_fks_ok d row"
    using assms(1) turn_at_Some [OF row]
    by (auto simp: db_ok_def turns_ok_def turn_fks_ok_def pred_option_set exists_defs)
  then have "turn_fks_ok d (apply_update w row)"
    using assms(2-4) by (simp add: turn_fks_ok_def apply_update_def)
  moreover have "\<not> active_state (t_state (apply_update w row))"
    using assms(5) [OF row] by (simp add: apply_update_def)
  ultimately show ?thesis using Some by (simp add: updateTurn_def Let_def)
qed

lemma apply_update_state [simp]:
  "t_state (apply_update w r) = set_col (u_state w) (t_state r)"
  "t_resultJson (apply_update w r) = set_col (u_resultJson w) (t_resultJson r)"
  "t_errorJson (apply_update w r) = set_col (u_errorJson w) (t_errorJson r)"
  "t_instanceId (apply_update w r) = set_col (u_instanceId w) (t_instanceId r)"
  "t_workspaceId (apply_update w r) = set_col (u_workspaceId w) (t_workspaceId r)"
  "t_expectedHead (apply_update w r) = set_col (u_expectedHead w) (t_expectedHead r)"
  "t_requestJson (apply_update w r) = t_requestJson r" "t_mode (apply_update w r) = t_mode r"
  by (simp_all add: apply_update_def)

lemma no_update_simps [simp]:
  "u_state no_update = None" "u_instanceId no_update = None" "u_workspaceId no_update = None"
  "u_expectedHead no_update = None" "u_resultJson no_update = None" "u_errorJson no_update = None"
  "u_finishedAt no_update = None"
  by (simp_all add: no_update_def)

lemma failed_update_simps [simp]:
  "u_state (failed_update e now) = Some T_FAILED" "u_instanceId (failed_update e now) = None"
  "u_workspaceId (failed_update e now) = None" "u_expectedHead (failed_update e now) = None"
  "u_resultJson (failed_update e now) = None"
  "u_errorJson (failed_update e now) = Some (Some (stored_of e))"
  by (simp_all add: failed_update_def)

lemma not_active [simp]:
  "\<not> active_state T_FAILED" "\<not> active_state T_FINISHED"
  "active_state T_STARTING" "active_state T_OPEN" "active_state T_FINISHING"
  by (simp_all add: active_state_def)

lemma turnRecord_simps [simp]:
  "t_threadId (turnRecord r) = t_threadId r" "t_turnId (turnRecord r) = t_turnId r"
  "t_mode (turnRecord r) = t_mode r" "t_state (turnRecord r) = t_state r"
  "t_instanceId (turnRecord r) = truthy (t_instanceId r)"
  "t_workspaceId (turnRecord r) = truthy (t_workspaceId r)"
  "t_expectedHead (turnRecord r) = truthy (t_expectedHead r)"
  "t_requestJson (turnRecord r) = t_requestJson r" "t_resultJson (turnRecord r) = t_resultJson r"
  "t_errorJson (turnRecord r) = t_errorJson r"
  "turn_key (turnRecord r) = turn_key r"
  by (simp_all add: turnRecord_def turn_key_def)

lemma updateTurn_tables:
  assumes "updateTurn t u w d = Inr d'"
  shows "db_refs d' = db_refs d" "db_commits d' = db_commits d" "db_instances d' = db_instances d"
    "db_workspaces d' = db_workspaces d" "db_threadWorkspaces d' = db_threadWorkspaces d"
    "db_operations d' = db_operations d" "db_treeObjects d' = db_treeObjects d"
    "commit_ids d' = commit_ids d" "instance_ids d' = instance_ids d"
  using updateTurn_Inr [OF assms] by simp_all

lemma turn_at_cong: "db_turns d' = db_turns d \<Longrightarrow> turn_at d' k = turn_at d k"
  by (simp add: turn_at_def)

lemma delete_or_lose_tables:
  assumes "delete_or_lose ex sb i d = (r, d')"
  shows "db_refs d' = db_refs d" "db_commits d' = db_commits d" "db_turns d' = db_turns d"
    "db_workspaces d' = db_workspaces d" "db_threadWorkspaces d' = db_threadWorkspaces d"
    "db_operations d' = db_operations d"
proof -
  obtain x d1 where run: "deleteTurnRuntime ex sb i d = (x, d1)" by force
  note d1 = deleteTurnRuntime_tables [OF run]
  have "d' = d1 \<or> (\<exists>e. d' = updateInstance i (lost_update e) d1)"
    using assms run by (auto simp: delete_or_lose_def split: sum.splits)
  moreover have "db_refs d1 = db_refs d" "db_commits d1 = db_commits d" "db_turns d1 = db_turns d"
    "db_workspaces d1 = db_workspaces d" "db_threadWorkspaces d1 = db_threadWorkspaces d"
    "db_operations d1 = db_operations d"
    by (subst d1, simp)+
  ultimately show "db_refs d' = db_refs d" "db_commits d' = db_commits d" "db_turns d' = db_turns d"
    "db_workspaces d' = db_workspaces d" "db_threadWorkspaces d' = db_threadWorkspaces d"
    "db_operations d' = db_operations d" by auto
qed

lemma db_ok_delete_or_lose:
  assumes "db_ok d" "delete_or_lose ex sb i d = (r, d')"
  shows "db_ok d'"
proof -
  obtain x d1 where run: "deleteTurnRuntime ex sb i d = (x, d1)" by force
  have "db_ok d1" by (rule db_ok_deleteTurnRuntime [OF assms(1) run])
  then show ?thesis using assms(2) run
    by (auto simp: delete_or_lose_def db_ok_updateInstance split: sum.splits)
qed

lemma delete_or_lose_row:
  assumes "delete_or_lose ex sb i d = (r, d')" "getInstance d i = Some row" "i_state row \<noteq> I_TERMINATED"
  shows "\<exists>row'. getInstance d' i = Some row' \<and>
    (if r = None then i_state row' = I_TERMINATED \<and> i_backendHandle row' = None
     else i_state row' = I_LOST \<and> i_backendHandle row' = i_backendHandle row)"
proof -
  obtain x d1 where run: "deleteTurnRuntime ex sb i d = (x, d1)" by force
  note row1 = deleteTurnRuntime_row [OF run, of i]
  show ?thesis using assms run row1
    by (cases x) (auto simp: delete_or_lose_def getInstance_updateInstance lost_update_def)
qed

section \<open>Failing a turn\<close>

text \<open>The turn at \<open>k\<close> is in state \<open>s\<close>.\<close>

definition turn_in :: "db \<Rightarrow> turn_key \<Rightarrow> turn_state \<Rightarrow> bool" where
  "turn_in d k s \<longleftrightarrow> (\<exists>r. turn_at d k = Some r \<and> t_state r = s)"

text \<open>What a turn that ends in failure leaves: the error stored, no ref and no commit moved.\<close>

definition turn_failed_with :: "db \<Rightarrow> turn_key \<Rightarrow> js_error \<Rightarrow> db \<Rightarrow> bool" where
  "turn_failed_with d k e d' \<longleftrightarrow>
     (\<exists>r. turn_at d' k = Some r \<and> t_state r = T_FAILED \<and> t_errorJson r = Some (stored_of e)) \<and>
     db_refs d' = db_refs d \<and> db_commits d' = db_commits d"

lemma failed_update_outcome:
  assumes "db_ok d" "turn_at d (TurnKey t u) \<noteq> None"
  shows "\<exists>d'. updateTurn t u (failed_update e now) d = Inr d' \<and> db_ok d' \<and>
    turn_failed_with d (TurnKey t u) e d' \<and> (\<forall>k. k \<noteq> TurnKey t u \<longrightarrow> turn_at d' k = turn_at d k)"
proof -
  have "\<exists>d'. updateTurn t u (failed_update e now) d = Inr d'"
    by (rule updateTurn_ok [OF assms(1)]) simp_all
  then obtain d' where d': "updateTurn t u (failed_update e now) d = Inr d'" ..
  have "db_ok d'" by (rule db_ok_updateTurn [OF assms(1) d'])
  with d' updateTurn_tables [OF d'] turn_at_updateTurn [OF d'] assms(2) show ?thesis
    by (auto simp: turn_failed_with_def)
qed

lemma failTurn_outcome:
  assumes "db_ok d" "turn_at d (TurnKey (t_threadId r) (t_turnId r)) \<noteq> None"
    and "failTurn ex sb r e now d = (x, d')"
  shows "x = Inl e \<and> db_ok d' \<and> turn_failed_with d (TurnKey (t_threadId r) (t_turnId r)) e d'"
proof -
  let ?d1 = "case truthy (t_instanceId r) of None \<Rightarrow> d | Some iid \<Rightarrow> snd (delete_or_lose ex sb iid d)"
  have d1: "db_ok ?d1 \<and> db_refs ?d1 = db_refs d \<and> db_commits ?d1 = db_commits d \<and> db_turns ?d1 = db_turns d"
  proof (cases "truthy (t_instanceId r)")
    case (Some iid)
    obtain y d1 where run: "delete_or_lose ex sb iid d = (y, d1)" by force
    then show ?thesis
      using Some delete_or_lose_tables [OF run] db_ok_delete_or_lose [OF assms(1) run] by simp
  qed (use assms(1) in simp)
  then have "turn_at ?d1 (TurnKey (t_threadId r) (t_turnId r)) \<noteq> None"
    using assms(2) turn_at_cong [of ?d1 d] by simp
  with d1 failed_update_outcome [of ?d1 "t_threadId r" "t_turnId r" e now] obtain d2 where
    "updateTurn (t_threadId r) (t_turnId r) (failed_update e now) ?d1 = Inr d2" "db_ok d2"
    "turn_failed_with ?d1 (TurnKey (t_threadId r) (t_turnId r)) e d2" by blast
  then show ?thesis using assms(3) d1 by (auto simp: failTurn_def Let_def turn_failed_with_def)
qed

section \<open>Publishing the commit\<close>

lemma getRef_iff:
  assumes "db_ok d"
  shows "getRef d w n = Some r \<longleftrightarrow> r \<in> set (db_refs d) \<and> rf_workspaceId r = w \<and> rf_name r = n"
proof -
  have "(\<lambda>r. rf_workspaceId r = w \<and> rf_name r = n) = (\<lambda>r. ref_key r = (w, n))"
    by (auto simp: ref_key_def)
  moreover have "distinct (map ref_key (db_refs d))" using assms by (simp add: db_ok_def refs_ok_def)
  ultimately show ?thesis
    using select1_key [of ref_key "db_refs d" "(w, n)" r] by (auto simp: getRef_def ref_key_def)
qed

text \<open>What a published commit has done, as seen through the repository's own reads.\<close>

lemma publish_outcome:
  assumes ok: "db_ok d" and pub: "publishTurnCommit p d = Inr (True, d')"
    and new: "\<not> commit_exists d (p_commitId p)"
  shows "map_option rf_headCommit (getRef d (p_workspaceId p) (p_ref p)) = Some (p_expectedHead p) \<and>
    map_option rf_headCommit (getRef d' (p_workspaceId p) (p_ref p)) = Some (p_commitId p) \<and>
    getCommit d' (p_commitId p) = Some (publish_commit_row p)"
proof -
  from publish_cases [OF pub] obtain r where r: "r \<in> set (db_refs d)" "ref_matches p r" by metis
  note t = publish_True [OF pub]
  have ok': "db_ok d'" by (rule db_ok_publish [OF ok pub])
  have "getRef d (p_workspaceId p) (p_ref p) = Some r"
    using r by (simp add: getRef_iff [OF ok] ref_matches_def)
  moreover have "r\<lparr>rf_headCommit := p_commitId p\<rparr> \<in> set (db_refs d')"
    using t r by (auto simp: set_update_where)
  then have "getRef d' (p_workspaceId p) (p_ref p) = Some (r\<lparr>rf_headCommit := p_commitId p\<rparr>)"
    using r(2) by (simp add: getRef_iff [OF ok'] ref_matches_def)
  moreover have "getCommit d' (p_commitId p) = Some (publish_commit_row p)"
  proof -
    have "select1 (\<lambda>c. c_id c = p_commitId p) (db_commits d) = None"
      using new unfolding select1_None commit_exists_def commit_ids_def by (metis imageI)
    moreover have "db_commits d' = db_commits d @ [publish_commit_row p]" using t new by simp
    ultimately show ?thesis by (simp add: getCommit_def select1_append)
  qed
  ultimately show ?thesis using r(2) by (simp add: ref_matches_def)
qed

lemma publish_turn_at:
  assumes ok: "db_ok d" and pub: "publishTurnCommit p d = Inr (True, d')"
  shows "\<exists>r. turn_at d (TurnKey (p_threadId p) (p_turnId p)) = Some r \<and> turn_matches p r \<and>
    turn_at d' (TurnKey (p_threadId p) (p_turnId p)) = Some (finish_row p r)"
proof -
  from publish_cases [OF pub] obtain r where r: "r \<in> set (db_turns d)" "turn_matches p r" by metis
  have key: "turn_key r = TurnKey (p_threadId p) (p_turnId p)"
    using r(2) by (simp add: turn_matches_def turn_key_def)
  have ok': "db_ok d'" by (rule db_ok_publish [OF ok pub])
  have "finish_row p r \<in> set (db_turns d')"
    using publish_True [OF pub] r by (auto simp: set_update_where)
  then have "turn_at d' (TurnKey (p_threadId p) (p_turnId p)) = Some (finish_row p r)"
    using key by (simp add: turn_at_iff [OF ok'])
  then show ?thesis using r key by (auto simp: turn_at_iff [OF ok])
qed

text \<open>A commit that \<open>commitTurnRuntime\<close> reports has moved the head of the thread from the
  expected commit to one on top of it, and has finished the turn.\<close>

definition commit_of :: "externals \<Rightarrow> digest \<Rightarrow> tree_row \<Rightarrow> digest" where
  "commit_of ex head tree = commitDigest (ex_sha256 ex) EMPTY_CONTRACT_DIGEST (tr_digest tree) (Some head)"

definition head_of :: "db \<Rightarrow> string \<Rightarrow> string \<Rightarrow> digest option" where
  "head_of d wid ref = map_option rf_headCommit (getRef d wid ref)"

definition head_advanced :: "db \<Rightarrow> string \<Rightarrow> string \<Rightarrow> digest \<Rightarrow> digest \<Rightarrow> digest \<Rightarrow> db \<Rightarrow> bool" where
  "head_advanced d wid ref head treeDigest c d' \<longleftrightarrow>
     head_of d wid ref = Some head \<and> head_of d' wid ref = Some c \<and> commit_exists d' c \<and>
     (\<not> commit_exists d c \<longrightarrow> getCommit d' c = Some \<lparr>c_id = c, c_treeDigest = treeDigest,
        c_contractDigest = EMPTY_CONTRACT_DIGEST, c_parentId = Some head\<rparr>)"

lemma head_advanced_publish:
  assumes ok: "db_ok d" and pub: "publishTurnCommit p d = Inr (True, d')"
    and p: "p_parentId p = p_expectedHead p" "p_contractDigest p = EMPTY_CONTRACT_DIGEST"
  shows "head_advanced d (p_workspaceId p) (p_ref p) (p_expectedHead p) (tr_digest (p_tree p)) (p_commitId p) d'"
proof -
  note t = publish_True [OF pub]
  have ok': "db_ok d'" by (rule db_ok_publish [OF ok pub])
  from publish_cases [OF pub] obtain r where r: "r \<in> set (db_refs d)" "ref_matches p r" by metis
  have "getRef d (p_workspaceId p) (p_ref p) = Some r"
    using r by (simp add: getRef_iff [OF ok] ref_matches_def)
  moreover have "r\<lparr>rf_headCommit := p_commitId p\<rparr> \<in> set (db_refs d')"
    using t r by (auto simp: set_update_where)
  then have "getRef d' (p_workspaceId p) (p_ref p) = Some (r\<lparr>rf_headCommit := p_commitId p\<rparr>)"
    using r(2) by (simp add: getRef_iff [OF ok'] ref_matches_def)
  moreover have "commit_exists d' (p_commitId p)" using t by (simp add: commit_exists_def)
  ultimately show ?thesis
    using r(2) publish_outcome [OF ok pub] p
    by (auto simp: head_advanced_def head_of_def ref_matches_def publish_commit_row_def)
qed

lemma commit_success:
  assumes ok: "db_ok d" and run: "commitTurnRuntime ex sb ci now d = (Inr result, d')"
  shows "\<exists>tree c r row. c = commit_of ex (ci_expectedHead ci) tree \<and>
    tcr_headCommit result = c \<and> tcr_commitId result = c \<and>
    head_advanced d (ci_workspaceId ci) (ci_ref ci) (ci_expectedHead ci) (tr_digest tree) c d' \<and>
    turn_at d (TurnKey (ci_threadId ci) (ci_turnId ci)) = Some r \<and>
    turn_at d' (TurnKey (ci_threadId ci) (ci_turnId ci)) =
      Some (finish_row (commit_publish_input ci c tree now) r) \<and>
    getInstance d' (ci_instanceId ci) = Some row \<and> i_state row = I_READY"
  using run
proof (cases rule: commitTurnRuntime_cases)
  case (ran row h d1)
  from ran(2) show ?thesis
  proof (cases rule: commit_finish_cases)
    case (published tree)
    define c where "c = commit_of ex (ci_expectedHead ci) tree"
    define p where "p = commit_publish_input ci c tree now"
    have p [simp]: "p_parentId p = ci_expectedHead ci" "p_contractDigest p = EMPTY_CONTRACT_DIGEST"
      "p_expectedHead p = ci_expectedHead ci" "p_workspaceId p = ci_workspaceId ci" "p_ref p = ci_ref ci"
      "p_commitId p = c" "p_tree p = tree" "p_threadId p = ci_threadId ci" "p_turnId p = ci_turnId ci"
      "p_instanceId p = ci_instanceId ci"
      by (simp_all add: p_def commit_publish_input_def)
    have pub: "publishTurnCommit p d1 = Inr (True, d')"
      using published(2) by (simp add: p_def c_def commit_of_def)
    have ok1: "db_ok d1" by (rule db_ok_commit_begin [OF ok ran(1)])
    note same = commit_begin_tables [OF ran(1)]
    have "head_advanced d1 (ci_workspaceId ci) (ci_ref ci) (ci_expectedHead ci) (tr_digest tree) c d'"
      using head_advanced_publish [OF ok1 pub] by simp
    then have head: "head_advanced d (ci_workspaceId ci) (ci_ref ci) (ci_expectedHead ci) (tr_digest tree) c d'"
      using same by (simp add: head_advanced_def head_of_def getRef_def commit_exists_def commit_ids_def)
    from publish_turn_at [OF ok1 pub] obtain r where
      "turn_at d1 (TurnKey (ci_threadId ci) (ci_turnId ci)) = Some r"
      "turn_at d' (TurnKey (ci_threadId ci) (ci_turnId ci)) = Some (finish_row p r)" by auto
    moreover have "turn_at d1 (TurnKey (ci_threadId ci) (ci_turnId ci)) =
        turn_at d (TurnKey (ci_threadId ci) (ci_turnId ci))" using same(1) by (rule turn_at_cong)
    moreover have "\<exists>row'. getInstance d' (ci_instanceId ci) = Some row' \<and> i_state row' = I_READY"
    proof -
      have "getInstance d1 (ci_instanceId ci) \<noteq> None"
        using ran(1) by (auto simp: commit_begin_Inr beginHarnessOperation_Inr
            getInstance_updateInstance) (auto simp: getInstance_def)
      then obtain row1 where "getInstance d1 (ci_instanceId ci) = Some row1" by auto
      then have "row1 \<in> set (db_instances d1)" "i_id row1 = ci_instanceId ci"
        by (simp_all add: getInstance_iff [OF ok1])
      then have "row1\<lparr>i_state := I_READY\<rparr> \<in> set (db_instances d')"
        using publish_True [OF pub] by (auto simp: set_update_where)
      then have "getInstance d' (ci_instanceId ci) = Some (row1\<lparr>i_state := I_READY\<rparr>)"
        using \<open>i_id row1 = ci_instanceId ci\<close> by (simp add: getInstance_iff [OF db_ok_publish [OF ok1 pub]])
      then show ?thesis by simp
    qed
    ultimately show ?thesis using head published(3) by (auto simp: c_def commit_of_def p_def)
  qed simp
qed simp

section \<open>Finishing\<close>

lemma finish_instant_outcome:
  assumes "db_ok d" "turn_at d (TurnKey (t_threadId r) (t_turnId r)) \<noteq> None"
    and "finish_instant ex sb r iid now d = (x, d')"
  shows "db_ok d' \<and> (case x of
      Inl e \<Rightarrow> turn_failed_with d (TurnKey (t_threadId r) (t_turnId r)) e d'
    | Inr v \<Rightarrow> turn_in d' (TurnKey (t_threadId r) (t_turnId r)) T_FINISHED \<and> w_state v = T_FINISHED \<and>
        db_refs d' = db_refs d \<and> db_commits d' = db_commits d)"
proof -
  let ?k = "TurnKey (t_threadId r) (t_turnId r)"
  obtain y d1 where del: "delete_or_lose ex sb iid d = (y, d1)" by force
  note tabs = delete_or_lose_tables [OF del]
  have ok1: "db_ok d1" by (rule db_ok_delete_or_lose [OF assms(1) del])
  have at1: "turn_at d1 ?k \<noteq> None" using assms(2) turn_at_cong [OF tabs(3)] by simp
  show ?thesis
  proof (cases y)
    case (Some e)
    from failed_update_outcome [OF ok1 at1, of e now] obtain d2 where
      "updateTurn (t_threadId r) (t_turnId r) (failed_update e now) d1 = Inr d2" "db_ok d2"
      "turn_failed_with d1 ?k e d2" by blast
    then show ?thesis using assms(3) del Some tabs
      by (auto simp: finish_instant_def turn_failed_with_def)
  next
    case None
    let ?w = "no_update\<lparr>u_state := Some T_FINISHED, u_resultJson := Some (Some (empty_result
       \<lparr>r_threadId := Some (t_threadId r), r_turnId := Some (t_turnId r), r_mode := Some Instant,
        r_state := Some T_FINISHED, r_instanceId := Some iid\<rparr>)),
       u_errorJson := Some None, u_finishedAt := Some (Some now)\<rparr>"
    have "\<exists>d2. updateTurn (t_threadId r) (t_turnId r) ?w d1 = Inr d2"
      by (rule updateTurn_ok [OF ok1]) simp_all
    then obtain d2 where d2: "updateTurn (t_threadId r) (t_turnId r) ?w d1 = Inr d2" ..
    then have "d' = d2" and x: "x = Inr \<lparr>w_threadId = t_threadId r, w_turnId = t_turnId r, w_mode = Instant,
        w_state = T_FINISHED, w_instanceId = Some iid, w_workspaceId = None, w_headCommit = None\<rparr>"
      using assms(3) del None by (simp_all add: finish_instant_def Let_def)
    moreover have "turn_in d2 ?k T_FINISHED"
      using turn_at_updateTurn [OF d2, of ?k] at1 by (auto simp: turn_in_def)
    ultimately show ?thesis
      using db_ok_updateTurn [OF ok1 d2] updateTurn_tables [OF d2] tabs by simp
  qed
qed

lemma finish_committed_outcome:
  assumes "db_ok d" "turn_in d (TurnKey (t_threadId r) (t_turnId r)) T_FINISHED"
    and "finish_committed ex sb r iid committed d = (x, d')"
  shows "db_ok d' \<and> turn_in d' (TurnKey (t_threadId r) (t_turnId r)) T_FINISHED \<and>
    db_refs d' = db_refs d \<and> db_commits d' = db_commits d \<and>
    (\<exists>v. x = Inr v \<and> w_state v = T_FINISHED \<and> w_headCommit v = Some (tcr_headCommit committed))"
proof -
  let ?k = "TurnKey (t_threadId r) (t_turnId r)"
  obtain y d1 where del: "delete_or_lose ex sb iid d = (y, d1)" by force
  note tabs = delete_or_lose_tables [OF del]
  have ok1: "db_ok d1" by (rule db_ok_delete_or_lose [OF assms(1) del])
  have at1: "turn_in d1 ?k T_FINISHED"
    using assms(2) turn_at_cong [OF tabs(3)] by (simp add: turn_in_def)
  define stage where "stage = (case (y, d1) of
      (None, d1) \<Rightarrow> (Inr (), d1)
    | (Some e, d1) \<Rightarrow>
        (let result = (case Option.bind (getTurn d1 (t_threadId r) (t_turnId r)) t_resultJson of
               None \<Rightarrow> empty_result | Some result \<Rightarrow> result)
         in case updateTurn (t_threadId r) (t_turnId r)
              (no_update\<lparr>u_resultJson := Some (Some (result\<lparr>r_cleanupError := Some (error_message e)\<rparr>))\<rparr>) d1 of
              Inl e' \<Rightarrow> (Inl e', d1)
            | Inr d2 \<Rightarrow> (Inr (), d2)))"
  have "\<exists>d2. stage = (Inr (), d2) \<and> db_ok d2 \<and> turn_in d2 ?k T_FINISHED \<and>
      db_refs d2 = db_refs d1 \<and> db_commits d2 = db_commits d1"
  proof (cases y)
    case None
    then show ?thesis using ok1 at1 by (simp add: stage_def)
  next
    case (Some e)
    let ?result = "case Option.bind (getTurn d1 (t_threadId r) (t_turnId r)) t_resultJson of
        None \<Rightarrow> empty_result | Some result \<Rightarrow> result"
    let ?w = "no_update\<lparr>u_resultJson := Some (Some (?result\<lparr>r_cleanupError := Some (error_message e)\<rparr>))\<rparr>"
    have "\<exists>d2. updateTurn (t_threadId r) (t_turnId r) ?w d1 = Inr d2"
      by (rule updateTurn_ok [OF ok1]) (use at1 in \<open>auto simp: turn_in_def\<close>)
    then obtain d2 where d2: "updateTurn (t_threadId r) (t_turnId r) ?w d1 = Inr d2" ..
    moreover have "turn_in d2 ?k T_FINISHED"
      using turn_at_updateTurn [OF d2, of ?k] at1 by (auto simp: turn_in_def)
    ultimately show ?thesis
      using Some db_ok_updateTurn [OF ok1 d2] updateTurn_tables [OF d2] by (simp add: stage_def Let_def)
  qed
  then obtain d2 where d2: "stage = (Inr (), d2)" "db_ok d2" "turn_in d2 ?k T_FINISHED"
    "db_refs d2 = db_refs d1" "db_commits d2 = db_commits d1" by blast
  from d2(3) obtain row where "getTurn d2 (t_threadId r) (t_turnId r) = Some (turnRecord row)"
    "t_state row = T_FINISHED" by (auto simp: turn_in_def getTurn_at)
  moreover have "finish_committed ex sb r iid committed d = (case stage of
        (Inl e, d2) \<Rightarrow> (Inl e, d2)
      | (Inr _, d2) \<Rightarrow>
          (case getTurn d2 (t_threadId r) (t_turnId r) of
             None \<Rightarrow> (Inl (service_err BACKEND_ERROR ''Turn record disappeared after commit''), d2)
           | Some finished \<Rightarrow> (Inr ((view finished)\<lparr>w_headCommit := Some (tcr_headCommit committed)\<rparr>), d2)))"
    unfolding finish_committed_def del stage_def ..
  ultimately show ?thesis using assms(3) d2 tabs by (auto simp: view_def Let_def)
qed

text \<open>
  What \<open>finishOpen\<close> relies on of the session manager: \<open>closeInstance\<close> changes nothing in the
  database but, at most, the state of the instance it closes.
\<close>

locale session_closer =
  fixes cl :: "string \<Rightarrow> db \<Rightarrow> unit run"
  assumes cl_db: "cl iid d = (r, d') \<Longrightarrow> d' = d \<or> d' = setInstanceState iid I_READY d"
begin

lemma cl_ok: "db_ok d \<Longrightarrow> cl iid d = (r, d') \<Longrightarrow> db_ok d'"
  using cl_db [of iid d r d'] by (auto simp: setInstanceState_def db_ok_updateInstance)

lemma cl_tables:
  assumes "cl iid d = (r, d')"
  shows "db_refs d' = db_refs d" "db_commits d' = db_commits d" "db_turns d' = db_turns d"
  using cl_db [OF assms] by (auto simp: setInstanceState_def)

text \<open>
  The outcome of \<open>finishOpen\<close>: a turn that fails has stored its error and moved no head; a turn
  that finishes has, when durable, advanced the head of its workspace by one commit.
\<close>

lemma finishOpen_outcome:
  assumes ok: "db_ok d" and at: "turn_at d (TurnKey (t_threadId r) (t_turnId r)) \<noteq> None"
    and run: "finishOpen ex sb cl r now d = (x, d')"
  shows "db_ok d' \<and> (case x of
      Inl e \<Rightarrow> turn_failed_with d (TurnKey (t_threadId r) (t_turnId r)) e d'
    | Inr v \<Rightarrow> turn_in d' (TurnKey (t_threadId r) (t_turnId r)) T_FINISHED \<and> w_state v = T_FINISHED \<and>
        (if t_mode r = Instant then db_refs d' = db_refs d \<and> db_commits d' = db_commits d
         else \<exists>wid head tree. t_workspaceId r = Some wid \<and> t_expectedHead r = Some head \<and>
           w_headCommit v = Some (commit_of ex head tree) \<and>
           head_advanced d wid ''main'' head (tr_digest tree) (commit_of ex head tree) d'))"
proof (cases "truthy (t_instanceId r)")
  case None
  then have "failTurn ex sb r (service_err BACKEND_ERROR ''Open turn has no runtime'') now d = (x, d')"
    using run by (simp add: finishOpen_def)
  from failTurn_outcome [OF ok at this] show ?thesis by auto
next
  case (Some iid)
  let ?k = "TurnKey (t_threadId r) (t_turnId r)"
  obtain y d1 where cl: "cl iid d = (y, d1)" by force
  note tabs = cl_tables [OF cl] and ok1 = cl_ok [OF ok cl]
  have at1: "turn_at d1 ?k \<noteq> None" using at turn_at_cong [OF tabs(3)] by simp
  have carry: "turn_failed_with d1 ?k e d' \<Longrightarrow> turn_failed_with d ?k e d'" for e
    using tabs by (simp add: turn_failed_with_def)
  have failed: ?thesis if "failTurn ex sb r e now d1 = (x, d')" for e
    using failTurn_outcome [OF ok1 at1 that] carry by auto
  show ?thesis
  proof (cases y)
    case (Inl e)
    then show ?thesis using failed [of e] run Some cl by (simp add: finishOpen_def)
  next
    case y: (Inr u)
    show ?thesis
    proof (cases "t_mode r")
      case Instant
      then have "finish_instant ex sb r iid now d1 = (x, d')"
        using run Some cl y by (simp add: finishOpen_def)
      from finish_instant_outcome [OF ok1 at1 this] carry show ?thesis
        using Instant tabs by (auto split: sum.splits)
    next
      case Durable
      show ?thesis
      proof (cases "truthy (t_workspaceId r) = None \<or> truthy (t_expectedHead r) = None")
        case True
        then have "failTurn ex sb r (service_err BACKEND_ERROR ''Durable turn binding is incomplete'') now d1 = (x, d')"
          using run Some cl y Durable by (auto simp: finishOpen_def split: option.splits)
        then show ?thesis by (rule failed)
      next
        case False
        then obtain wid head where b: "t_workspaceId r = Some wid" "t_expectedHead r = Some head"
          "wid \<noteq> []" "head \<noteq> []" by auto
        let ?ci = "finish_commit_input (ex_sha256 ex) r iid wid head"
        obtain z d2 where com: "commitTurnRuntime ex sb ?ci now d1 = (z, d2)" by force
        have ok2: "db_ok d2" by (rule db_ok_commitTurnRuntime [OF ok1 com])
        show ?thesis
        proof (cases z)
          case (Inl e)
          have frame: "d2 = d1\<lparr>db_operations := db_operations d2\<rparr>"
            using commitTurnRuntime_failure [OF ok1 com [unfolded Inl]] .
          have same: "db_turns d2 = db_turns d1" "db_refs d2 = db_refs d1" "db_commits d2 = db_commits d1"
            by (subst frame, simp)+
          have fail: "failTurn ex sb r e now d2 = (x, d')"
            using run Some cl y Durable b com Inl by (simp add: finishOpen_def)
          have at2: "turn_at d2 ?k \<noteq> None" using at1 turn_at_cong [OF same(1)] by simp
          have "turn_failed_with d2 ?k e d' \<Longrightarrow> turn_failed_with d ?k e d'"
            using tabs same by (simp add: turn_failed_with_def)
          then show ?thesis using failTurn_outcome [OF ok2 at2 fail] by auto
        next
          case (Inr committed)
          from commit_success [OF ok1 com [unfolded Inr]] obtain tree row where
            adv: "head_advanced d1 wid ''main'' head (tr_digest tree) (commit_of ex head tree) d2"
            and tc: "tcr_headCommit committed = commit_of ex head tree"
            and fin: "turn_at d2 ?k = Some (finish_row (commit_publish_input ?ci (commit_of ex head tree) tree now) row)"
            by (auto simp: finish_commit_input_def)
          have "turn_in d2 ?k T_FINISHED" using fin by (simp add: turn_in_def)
          moreover have "finish_committed ex sb r iid committed d2 = (x, d')"
            using run Some cl y Durable b com Inr by (simp add: finishOpen_def)
          ultimately have out: "db_ok d' \<and> turn_in d' ?k T_FINISHED \<and> db_refs d' = db_refs d2 \<and>
              db_commits d' = db_commits d2 \<and> (\<exists>v. x = Inr v \<and> w_state v = T_FINISHED \<and>
              w_headCommit v = Some (tcr_headCommit committed))"
            using finish_committed_outcome [OF ok2] by blast
          have "head_advanced d wid ''main'' head (tr_digest tree) (commit_of ex head tree) d'"
            using adv tabs out
            by (simp add: head_advanced_def head_of_def getRef_def commit_exists_def commit_ids_def getCommit_def)
          then show ?thesis using out tc b Durable by auto
        qed
      qed
    qed
  qed
qed

end

text \<open>The session manager's \<open>closeInstance\<close>, as \<open>finishOpen\<close> sees it.\<close>

definition closer :: "session_backend \<Rightarrow> int \<Rightarrow> session_manager \<Rightarrow> string \<Rightarrow> db \<Rightarrow> unit run" where
  "closer be now sm iid d = (let (r, _, d') = closeInstance be now iid sm d in (r, d'))"

interpretation sessions: session_closer "closer be now sm" for be now sm
proof
  fix iid d r d'
  assume "closer be now sm iid d = (r, d')"
  then obtain sm' where "closeInstance be now iid sm d = (r, sm', d')"
    by (auto simp: closer_def split: prod.splits)
  from closeInstance_db [OF this] show "d' = d \<or> d' = setInstanceState iid I_READY d"
    by (auto split: sum.splits option.splits if_splits)
qed


section \<open>Leases\<close>

text \<open>
  The count of a turn's leases is the number of active leases on it, an entry is never zero, and
  only turns with leases have a waiting \<open>finishOpen\<close>.
\<close>

definition lease_key :: "bound_turn \<Rightarrow> string" where
  "lease_key b = turnKey (b_threadId b) (b_turnId b)"

definition active_leases :: "turn_service \<Rightarrow> string \<Rightarrow> nat" where
  "active_leases ts key = length (filter (\<lambda>(_, b). lease_key b = key) (ts_activeLeases ts))"

definition leases_ok :: "turn_service \<Rightarrow> bool" where
  "leases_ok ts \<longleftrightarrow>
     distinct (map fst (ts_activeLeases ts)) \<and>
     (\<forall>key. lease_count ts key = active_leases ts key) \<and>
     (\<forall>key. map_of (ts_leaseCounts ts) key \<noteq> Some 0) \<and>
     (\<forall>key\<in>set (ts_leaseWaiters ts). 0 < lease_count ts key)"

lemma filter_AList_update_new:
  "i \<notin> fst ` set xs \<Longrightarrow> AList.update i b xs = xs @ [(i, b)]"
  by (induction xs) auto

lemma map_of_delete: "map_of (AList.delete k xs) j = (if j = k then None else map_of xs j)"
  by (simp add: AList.delete_conv')

lemma map_of_update: "map_of (AList.update k v xs) j = (if j = k then Some v else map_of xs j)"
  by (simp add: AList.update_conv')

lemma length_filter_delete:
  assumes "distinct (map fst xs)" "map_of xs i = Some b"
  shows "length (filter (\<lambda>(_, b). P b) (AList.delete i xs)) =
    length (filter (\<lambda>(_, b). P b) xs) - (if P b then 1 else 0)"
    and "P b \<Longrightarrow> 0 < length (filter (\<lambda>(_, b). P b) xs)"
proof -
  show "length (filter (\<lambda>(_, b). P b) (AList.delete i xs)) =
    length (filter (\<lambda>(_, b). P b) xs) - (if P b then 1 else 0)"
    using assms
  proof (induction xs)
    case (Cons x xs)
    obtain j c where x: "x = (j, c)" by force
    show ?case
    proof (cases "j = i")
      case True
      then have "AList.delete i xs = xs"
        using Cons.prems(1) x by (auto simp: AList.delete_eq filter_id_conv image_iff)
      then show ?thesis using True Cons.prems(2) x by simp
    next
      case False
      then have IH: "length (filter (\<lambda>(_, b). P b) (AList.delete i xs)) =
          length (filter (\<lambda>(_, b). P b) xs) - (if P b then 1 else 0)"
        using Cons x by simp
      have "P b \<Longrightarrow> 0 < length (filter (\<lambda>(_, b). P b) xs)"
        using Cons.prems(2) x False by (auto simp: length_greater_0_conv filter_empty_conv dest: map_of_SomeD)
      then show ?thesis using False IH x by auto
    qed
  qed simp
  show "P b \<Longrightarrow> 0 < length (filter (\<lambda>(_, b). P b) xs)"
    using assms(2) by (auto simp: length_greater_0_conv filter_empty_conv dest: map_of_SomeD)
qed

lemma resolve_key: "resolve d tid uid = Inr b \<Longrightarrow> lease_key b = turnKey tid uid"
proof -
  assume res: "resolve d tid uid = Inr b"
  then obtain r where r: "turn_at d (TurnKey tid uid) = Some r" "bound (turnRecord r) = Inr b"
    by (auto simp: resolve_def getTurn_at split: option.splits)
  have "t_threadId r = tid \<and> t_turnId r = uid"
    using turn_at_Some [OF r(1)] by (simp add: turn_key_iff)
  then show ?thesis using r(2)
    by (auto simp: bound_def lease_key_def split: turn_state.splits option.splits if_splits)
qed

lemma acquire_Inr:
  "acquire ts d tid uid i = Inr (l, ts') \<longleftrightarrow>
     \<not> ts_closing ts \<and> valid_identifier tid \<and> valid_identifier uid \<and>
     (\<exists>b. resolve d tid uid = Inr b \<and> l = \<lparr>l_id = i, l_key = turnKey tid uid, l_turn = b\<rparr> \<and>
       ts' = ts\<lparr>ts_activeLeases := AList.update i b (ts_activeLeases ts),
         ts_leaseCounts := AList.update (turnKey tid uid) (lease_count ts (turnKey tid uid) + 1)
           (ts_leaseCounts ts)\<rparr>)"
  by (auto simp: acquire_def bind_res_Inr Let_def)

lemma leases_ok_acquire:
  assumes ok: "leases_ok ts" and new: "i \<notin> fst ` set (ts_activeLeases ts)"
    and acq: "acquire ts d tid uid i = Inr (l, ts')"
  shows "leases_ok ts' \<and> map_of (ts_activeLeases ts') i = Some (l_turn l) \<and> lease_key (l_turn l) = l_key l"
proof -
  let ?k = "turnKey tid uid"
  from acq obtain b where b: "resolve d tid uid = Inr b" "l = \<lparr>l_id = i, l_key = ?k, l_turn = b\<rparr>"
    and ts': "ts' = ts\<lparr>ts_activeLeases := ts_activeLeases ts @ [(i, b)],
         ts_leaseCounts := AList.update ?k (lease_count ts ?k + 1) (ts_leaseCounts ts)\<rparr>"
    unfolding acquire_Inr filter_AList_update_new [OF new] by blast
  note key = resolve_key [OF b(1)]
  have count: "lease_count ts' key = (if key = ?k then lease_count ts key + 1 else lease_count ts key)" for key
    by (simp add: lease_count_def ts' map_of_update)
  moreover have "active_leases ts' key = (if key = ?k then active_leases ts key + 1 else active_leases ts key)" for key
    using key by (simp add: active_leases_def ts')
  moreover have "map_of (ts_activeLeases ts') i = Some b"
    using new by (simp add: ts' map_add_def map_of_eq_None_iff [THEN iffD2])
  ultimately show ?thesis
    using ok new key b(2) by (auto simp: leases_ok_def ts' map_of_update)
qed


text \<open>A lease gives its count back once, whatever else happens and however often it is
  released; the last one wakes the \<open>finishOpen\<close> that waits.\<close>

lemma release_again: "l_id l \<in> set (ts_released ts) \<Longrightarrow> release l ts = (False, ts)"
  by (simp add: release_def)

lemma release_active:
  assumes ok: "leases_ok ts" and fresh: "l_id l \<notin> set (ts_released ts)"
    and held: "map_of (ts_activeLeases ts) (l_id l) = Some b" "lease_key b = l_key l"
    and rel: "release l ts = (woken, ts')"
  shows "leases_ok ts' \<and> l_id l \<in> set (ts_released ts') \<and>
    map_of (ts_activeLeases ts') (l_id l) = None \<and>
    (\<forall>key. lease_count ts' key = (if key = l_key l then lease_count ts key - 1 else lease_count ts key)) \<and>
    (woken \<longleftrightarrow> l_key l \<in> set (ts_leaseWaiters ts) \<and> lease_count ts (l_key l) = 1)"
proof -
  let ?k = "l_key l"
  have dist: "distinct (map fst (ts_activeLeases ts))"
    and count: "lease_count ts key = active_leases ts key" for key
    using ok by (simp_all add: leases_ok_def)
  have pos: "0 < lease_count ts ?k"
    unfolding count active_leases_def using length_filter_delete(2) [OF dist held(1)] held(2) by simp
  then obtain n where n: "map_of (ts_leaseCounts ts) ?k = Some n" "lease_count ts ?k = n"
    by (auto simp: lease_count_def split: option.splits)
  define counts where "counts = (if n - 1 > 0 then AList.update ?k (n - 1) (ts_leaseCounts ts)
    else AList.delete ?k (ts_leaseCounts ts))"
  define waiters where "waiters = (if n - 1 > 0 then ts_leaseWaiters ts else removeAll ?k (ts_leaseWaiters ts))"
  have ts': "ts' = ts\<lparr>ts_released := l_id l # ts_released ts,
      ts_activeLeases := AList.delete (l_id l) (ts_activeLeases ts),
      ts_leaseCounts := counts, ts_leaseWaiters := waiters\<rparr>"
    and woken: "woken \<longleftrightarrow> ?k \<in> set (ts_leaseWaiters ts) \<and> n = 1"
    using rel fresh held(1) n(1) pos n(2)
    by (auto simp: release_def Let_def counts_def waiters_def split: if_splits)
  have count': "lease_count ts' key = (if key = ?k then lease_count ts key - 1 else lease_count ts key)" for key
    using n by (simp add: lease_count_def ts' counts_def map_of_update map_of_delete)
  have active': "active_leases ts' key = (if key = ?k then active_leases ts key - 1 else active_leases ts key)" for key
    using length_filter_delete(1) [OF dist held(1), of "\<lambda>b. lease_key b = key"] held(2)
    by (simp add: active_leases_def ts')
  have "distinct (map fst (ts_activeLeases ts'))"
    using dist by (simp add: ts' AList.delete_eq distinct_map_filter)
  moreover have "map_of (ts_leaseCounts ts') key \<noteq> Some 0" for key
    using ok n by (auto simp: leases_ok_def ts' counts_def map_of_update map_of_delete)
  moreover have "0 < lease_count ts' key" if "key \<in> set (ts_leaseWaiters ts')" for key
    using that ok n unfolding count'
    by (auto simp: leases_ok_def ts' waiters_def split: if_splits)
  ultimately have "leases_ok ts'"
    using count count' active' by (simp add: leases_ok_def)
  then show ?thesis using count' woken n(2) by (simp add: ts' map_of_delete)
qed

lemma leases_ok_waitForLeases:
  "leases_ok ts \<Longrightarrow> waitForLeases ts tid uid = (go, ts') \<Longrightarrow>
   leases_ok ts' \<and> (go \<longleftrightarrow> active_leases ts (turnKey tid uid) = 0)"
  by (auto simp: waitForLeases_def Let_def leases_ok_def lease_count_def active_leases_def
      split: if_splits)

end
