(* ===== verification/Start_Inv.thy ===== *)
theory Start_Inv
  imports Turns_Inv
begin

text \<open>
  Starting and forking turns: \<open>start\<close> replays a turn it has seen instead of starting it again, a
  started turn is bound to a ready runtime based on the head of its workspace, and a fork gives a
  thread a workspace of its own at a commit of the source's history.
\<close>

section \<open>Workspaces\<close>

lemma workspaceView_Inr:
  assumes "db_ok d" "workspaceView d wid = Inr w"
  shows "wv_workspaceId w = wid \<and> head_of d wid ''main'' = Some (wv_headCommit w) \<and> workspace_exists d wid"
proof -
  from assms(2) obtain r where r: "workspace_exists d wid"
      "select1 (\<lambda>r. rf_name r = ''main'') (select_all (\<lambda>r. rf_workspaceId r = wid) (db_refs d)) = Some r"
      "w = \<lparr>wv_workspaceId = wid, wv_ref = ''main'', wv_headCommit = rf_headCommit r\<rparr>"
    by (auto simp: workspaceView_def loadWorkspaceRefs_def split: option.splits if_splits)
  from select1_Some [OF r(2)] have "getRef d wid ''main'' = Some r"
    by (simp add: getRef_iff [OF assms(1)] set_select_all)
  then show ?thesis using r by (simp add: head_of_def)
qed

lemma insert_workspace_Inr:
  "insert_workspace w d = Inr d' \<longleftrightarrow> \<not> workspace_exists d w \<and> d' = d\<lparr>db_workspaces := db_workspaces d @ [w]\<rparr>"
  by (auto simp: insert_workspace_def)

lemma insert_ref_Inr:
  "insert_ref r d = Inr d' \<longleftrightarrow> ref_key r \<notin> ref_key ` set (db_refs d) \<and> workspace_exists d (rf_workspaceId r) \<and>
     commit_exists d (rf_headCommit r) \<and> d' = d\<lparr>db_refs := db_refs d @ [r]\<rparr>"
  by (auto simp: insert_ref_def)

lemma insert_thread_workspace_Inr:
  "insert_thread_workspace r d = Inr d' \<longleftrightarrow>
     tw_threadId r \<notin> tw_threadId ` set (db_threadWorkspaces d) \<and>
     tw_workspaceId r \<notin> tw_workspaceId ` set (db_threadWorkspaces d) \<and>
     workspace_exists d (tw_workspaceId r) \<and> d' = d\<lparr>db_threadWorkspaces := db_threadWorkspaces d @ [r]\<rparr>"
  by (auto simp: insert_thread_workspace_def)

text \<open>The rows that both \<open>createThreadWorkspace\<close> and \<open>createThreadFork\<close> add.\<close>

definition with_thread :: "string \<Rightarrow> string \<Rightarrow> digest \<Rightarrow> db \<Rightarrow> db" where
  "with_thread tid wid head d = d\<lparr>db_workspaces := db_workspaces d @ [wid],
     db_refs := db_refs d @ [\<lparr>rf_workspaceId = wid, rf_name = ''main'', rf_headCommit = head\<rparr>],
     db_threadWorkspaces := db_threadWorkspaces d @ [\<lparr>tw_threadId = tid, tw_workspaceId = wid\<rparr>]\<rparr>"

lemma with_thread_simps [simp]:
  "db_turns (with_thread t w h d) = db_turns d" "db_instances (with_thread t w h d) = db_instances d"
  "db_commits (with_thread t w h d) = db_commits d" "db_operations (with_thread t w h d) = db_operations d"
  "db_treeObjects (with_thread t w h d) = db_treeObjects d"
  "commit_ids (with_thread t w h d) = commit_ids d" "instance_ids (with_thread t w h d) = instance_ids d"
  by (simp_all add: with_thread_def commit_ids_def instance_ids_def)

lemma createThreadWorkspace_Inr:
  "createThreadWorkspace tid wid head d = Inr d' \<Longrightarrow>
   \<not> workspace_exists d wid \<and> commit_exists d head \<and> d' = with_thread tid wid head d"
  by (auto simp: createThreadWorkspace_def bind_res_Inr insert_workspace_Inr insert_ref_Inr
      insert_thread_workspace_Inr with_thread_def commit_exists_def)

lemma createThreadFork_Inr:
  "createThreadFork src tid wid head d = Inr d' \<Longrightarrow>
   \<not> workspace_exists d wid \<and> commit_exists d head \<and> d' = with_thread tid wid head d"
  by (auto simp: createThreadFork_def bind_res_Inr insert_workspace_Inr insert_ref_Inr
      insert_thread_workspace_Inr with_thread_def commit_exists_def split: if_splits)

lemma head_of_with_thread:
  assumes "db_ok d" "\<not> workspace_exists d wid"
  shows "head_of (with_thread tid wid head d) w n =
    (if w = wid \<and> n = ''main'' then Some head else head_of d w n)"
proof -
  have "select1 (\<lambda>r. rf_workspaceId r = wid \<and> rf_name r = ''main'') (db_refs d) = None"
    using assms by (auto simp: select1_None db_ok_def refs_ok_def workspace_exists_def)
  then show ?thesis
    by (auto simp: head_of_def getRef_def with_thread_def select1_append split: option.splits)
qed

lemma ensureThreadWorkspace_Inr:
  assumes ok: "db_ok d" and run: "ensureThreadWorkspace sb uuid tid d = (Inr w, d')"
  shows "db_ok d' \<and> head_of d' (wv_workspaceId w) ''main'' = Some (wv_headCommit w) \<and>
    db_turns d' = db_turns d \<and> db_instances d' = db_instances d \<and> db_commits d' = db_commits d"
proof (cases "getThreadWorkspace d tid")
  case (Some existing)
  then have "workspaceView d (tw_workspaceId existing) = Inr w" "d' = d"
    using run by (auto simp: ensureThreadWorkspace_def)
  with workspaceView_Inr [OF ok this(1)] ok show ?thesis by simp
next
  case None
  then obtain head where head: "getCanonicalEmptyCommit sb = Inr head"
    using run by (auto simp: ensureThreadWorkspace_def with_res_Inr)
  show ?thesis
  proof (cases "createThreadWorkspace tid uuid head d")
    case (Inl e)
    then show ?thesis using run None head by (simp add: ensureThreadWorkspace_def)
  next
    case (Inr d1)
    note new = createThreadWorkspace_Inr [OF Inr]
    have "d' = d1" "w = \<lparr>wv_workspaceId = uuid, wv_ref = ''main'', wv_headCommit = head\<rparr>"
      using run None head Inr by (simp_all add: ensureThreadWorkspace_def)
    then show ?thesis
      using new head_of_with_thread [OF ok, of uuid tid head uuid "''main''"]
        db_ok_createThreadWorkspace [OF ok Inr] by simp
  qed
qed

lemma ensureThreadWorkspace_keeps:
  assumes ok: "db_ok d" and run: "ensureThreadWorkspace sb uuid tid d = (r, d')"
  shows "db_ok d' \<and> db_turns d' = db_turns d \<and> db_instances d' = db_instances d \<and>
    db_commits d' = db_commits d \<and> (\<forall>w n c. head_of d w n = Some c \<longrightarrow> head_of d' w n = Some c)"
proof (cases "d' = d")
  case True
  then show ?thesis using ok by simp
next
  case False
  then obtain head where d': "createThreadWorkspace tid uuid head d = Inr d'"
    using run by (auto simp: ensureThreadWorkspace_def with_res_def split: option.splits sum.splits)
  note new = createThreadWorkspace_Inr [OF this]
  have "uuid \<noteq> w" if "head_of d w n = Some c" for w n c
    using that new ok getRef_iff [OF ok, of w n]
    by (auto simp: head_of_def db_ok_def refs_ok_def workspace_exists_def)
  then show ?thesis
    using new db_ok_createThreadWorkspace [OF ok d'] head_of_with_thread [OF ok] by auto
qed

section \<open>Starting\<close>

lemma start_failed_not_Inr: "start_failed ex sb inp iid b e now d \<noteq> (Inr v, d')"
  by (auto simp: start_failed_def Let_def split: sum.splits)

lemma db_ok_start_failed:
  assumes "db_ok d" "start_failed ex sb inp iid b e now d = (r, d')"
  shows "db_ok d'"
proof -
  obtain x d1 where run: "deleteTurnRuntime ex sb iid d = (x, d1)" by force
  let ?d1 = "if b then d1 else d"
  have "db_ok ?d1" using assms(1) db_ok_deleteTurnRuntime [OF assms(1) run] by simp
  then show ?thesis using assms(2) run db_ok_updateTurn
    by (auto simp: start_failed_def Let_def split: sum.splits if_splits)
qed

lemma db_ok_start_request:
  assumes "db_ok d" "start_request sb ts inp iid wuuid d = (r, d')"
  shows "db_ok d' \<and> db_turns d' = db_turns d \<and> db_instances d' = db_instances d \<and> db_commits d' = db_commits d"
proof (cases "si_mode inp")
  case Instant
  then show ?thesis using assms by (auto simp: start_request_def with_res_def split: sum.splits)
next
  case Durable
  obtain w d1 where run: "ensureThreadWorkspace sb wuuid (si_threadId inp) d = (w, d1)" by force
  then have "d' = d1" using assms(2) Durable by (auto simp: start_request_def split: sum.splits)
  then show ?thesis using ensureThreadWorkspace_keeps [OF assms(1) run] by simp
qed

lemma db_ok_start_opened:
  assumes "db_ok d" "start_opened ex sb inp iid upd now d = (r, d')"
  shows "db_ok d'"
proof (cases "updateTurn (si_threadId inp) (si_turnId inp) upd d")
  case (Inl e)
  then show ?thesis using assms db_ok_start_failed by (auto simp: start_opened_def)
next
  case (Inr d1)
  have "db_ok d1" by (rule db_ok_updateTurn [OF assms(1) Inr])
  then show ?thesis using assms(2) Inr db_ok_start_failed by (auto simp: start_opened_def split: option.splits)
qed

lemma db_ok_startCreated:
  assumes ok: "db_ok d" and run: "startCreated ex sb ts inp iid wuuid now d = (r, d')"
  shows "db_ok d'"
proof -
  obtain q d1 where req: "start_request sb ts inp iid wuuid d = (q, d1)" by force
  have ok1: "db_ok d1" using db_ok_start_request [OF ok req] by simp
  show ?thesis
  proof (cases q)
    case (Inl e)
    then show ?thesis using run req db_ok_start_failed [OF ok1] by (simp add: startCreated_def)
  next
    case (Inr ru)
    obtain request upd where ru: "ru = (request, upd)" by force
    obtain x d2 where cr: "createTurnRuntime ex sb request d1 = (x, d2)" by force
    have ok2: "db_ok d2" by (rule db_ok_createTurnRuntime [OF ok1 cr])
    show ?thesis using run req Inr ru cr db_ok_start_failed [OF ok2] db_ok_start_opened [OF ok2]
      by (cases x) (simp_all add: startCreated_def)
  qed
qed

lemma db_ok_start_begin:
  assumes "db_ok d" "start_begin ts inp now d = (r, ts', d')"
  shows "db_ok d'"
  using assms db_ok_createTurn
  by (auto simp: start_begin_def Let_def split: if_splits sum.splits option.splits)

lemma db_ok_start:
  assumes "db_ok d" "start ex sb inp iid wuuid now now' ts d = (r, ts', d')"
  shows "db_ok d'"
proof -
  obtain o' ts1 d1 where beg: "start_begin ts inp now d = (o', ts1, d1)" by (metis prod.exhaust)
  have ok1: "db_ok d1" by (rule db_ok_start_begin [OF assms(1) beg])
  show ?thesis
  proof (cases o')
    case (Some x)
    then show ?thesis using assms(2) beg ok1 by (simp add: start_def)
  next
    case None
    obtain y d2 where run: "startCreated ex sb ts1 inp iid wuuid now' d1 = (y, d2)" by force
    then show ?thesis using assms(2) beg None db_ok_startCreated [OF ok1 run] by (simp add: start_def)
  qed
qed

text \<open>A turn the service has opened, and the runtime it is bound to.\<close>

definition opened :: "db \<Rightarrow> start_input \<Rightarrow> string \<Rightarrow> turn_row \<Rightarrow> instance_row \<Rightarrow> bool" where
  "opened d inp iid r row \<longleftrightarrow>
     turn_at d (TurnKey (si_threadId inp) (si_turnId inp)) = Some r \<and> t_state r = T_OPEN \<and>
     t_instanceId r = Some iid \<and> getInstance d iid = Some row \<and> i_state row = I_READY \<and>
     i_backendHandle row \<noteq> None \<and> i_kind row = si_mode inp \<and>
     (si_mode inp = Durable \<longrightarrow> (\<exists>wid. t_workspaceId r = Some wid \<and> wid \<noteq> [] \<and>
        i_workspaceId row = Some wid \<and> t_expectedHead r = Some (i_baseCommit row) \<and>
        head_of d wid ''main'' = Some (i_baseCommit row)))"

lemma runtime_lookup_durable:
  "runtime_lookup q d = Inr tree \<Longrightarrow> ct_kind q = Durable \<Longrightarrow> truthy (ct_workspaceId q) \<noteq> None"
  by (auto simp: runtime_lookup_def split: option.splits if_splits)

lemma runtime_request_simps [simp]:
  "ct_instanceId (runtime_request inp iid c w b) = iid" "ct_kind (runtime_request inp iid c w b) = si_mode inp"
  "ct_baseCommit (runtime_request inp iid c w b) = c" "ct_workspaceId (runtime_request inp iid c w b) = w"
  by (simp_all add: runtime_request_def)

lemma startCreated_success:
  assumes ok: "db_ok d" and run: "startCreated ex sb ts inp iid wuuid now d = (Inr v, d')"
  shows "\<exists>r row. opened d' inp iid r row \<and> v = view (turnRecord r)"
proof -
  let ?k = "TurnKey (si_threadId inp) (si_turnId inp)"
  obtain q d1 where req: "start_request sb ts inp iid wuuid d = (q, d1)" by force
  obtain request upd where q: "q = Inr (request, upd)"
    using run req start_failed_not_Inr by (cases q) (fastforce simp: startCreated_def)+
  have ok1: "db_ok d1" using db_ok_start_request [OF ok req] by simp
  obtain x d2 where cr: "createTurnRuntime ex sb request d1 = (x, d2)" by force
  obtain iv where x: "x = Inr iv"
    using run req q cr start_failed_not_Inr by (cases x) (fastforce simp: startCreated_def)+
  have ok2: "db_ok d2" by (rule db_ok_createTurnRuntime [OF ok1 cr])
  have "start_opened ex sb inp iid upd now d2 = (Inr v, d')"
    using run req q cr x by (simp add: startCreated_def)
  then obtain r' where upd: "updateTurn (si_threadId inp) (si_turnId inp) upd d2 = Inr d'"
    and r': "getTurn d' (si_threadId inp) (si_turnId inp) = Some r'" "v = view r'"
    using start_failed_not_Inr by (auto simp: start_opened_def split: sum.splits option.splits)
  from cr [unfolded x] obtain h tree where
    d2: "d2 = d1\<lparr>db_instances := db_instances d1 @ [ready_row sb request h]\<rparr>"
    and ins: "createInstance (runtime_row sb request) d1 =
      Inr (d1\<lparr>db_instances := db_instances d1 @ [runtime_row sb request]\<rparr>)"
    and look: "runtime_lookup request d1 = Inr tree"
    by (cases rule: createTurnRuntime_cases) auto
  from r'(1) obtain r where r: "turn_at d' ?k = Some r" "r' = turnRecord r"
    by (auto simp: getTurn_at)
  then obtain r0 where r0: "r = apply_update upd r0"
    using turn_at_updateTurn [OF upd, of ?k] by auto
  have row: "getInstance d2 (ct_instanceId request) = Some (ready_row sb request h)"
    using getInstance_created [of "ready_row sb request h" d1] ins d2 by (simp add: createInstance_Inr)
  then have row': "getInstance d' (ct_instanceId request) = Some (ready_row sb request h)"
    using updateTurn_tables(3) [OF upd] by (simp add: getInstance_def)
  have "opened d' inp iid r (ready_row sb request h)"
  proof (cases "si_mode inp")
    case Instant
    then obtain base where "request = runtime_request inp iid base None Firecracker" "upd = open_update iid None"
      using req q by (auto simp: start_request_def with_res_Inr)
    then show ?thesis using r r0 row' Instant by (simp add: opened_def open_update_def)
  next
    case Durable
    then obtain w where ens: "ensureThreadWorkspace sb wuuid (si_threadId inp) d = (Inr w, d1)"
      and rq: "request = runtime_request inp iid (wv_headCommit w) (Some (wv_workspaceId w)) (ts_defaultBackend ts)"
      and up: "upd = open_update iid (Some w)"
      using req q by (auto simp: start_request_def split: prod.splits sum.splits)
    have "head_of d1 (wv_workspaceId w) ''main'' = Some (wv_headCommit w)"
      using ensureThreadWorkspace_Inr [OF ok ens] by simp
    then have head: "head_of d' (wv_workspaceId w) ''main'' = Some (wv_headCommit w)"
      using updateTurn_tables(1) [OF upd] d2 by (simp add: head_of_def getRef_def)
    have "wv_workspaceId w \<noteq> []" using runtime_lookup_durable [OF look] Durable rq by auto
    then show ?thesis using r r0 row' Durable rq up head by (simp add: opened_def open_update_def)
  qed
  then show ?thesis using r r'(2) by auto
qed

text \<open>A start that failed before the instance row was written cannot record its failure: the
  turn refers to an instance that does not exist.\<close>

lemma start_failed_without_instance:
  assumes "turn_at d (TurnKey (si_threadId inp) (si_turnId inp)) \<noteq> None" "iid \<notin> instance_ids d"
  shows "start_failed ex sb inp iid False e now d = (Inl fk_failed, d)"
proof -
  from assms(1) obtain row where
    "select1 (\<lambda>r. t_threadId r = si_threadId inp \<and> t_turnId r = si_turnId inp) (db_turns d) = Some row"
    by (auto simp: turn_at_def turn_key_iff)
  moreover have "\<not> turn_fks_ok d (apply_update ((failed_update e now)\<lparr>u_instanceId := Some (Some iid)\<rparr>) row)"
    using assms(2) by (simp add: turn_fks_ok_def instance_exists_def)
  ultimately have "updateTurn (si_threadId inp) (si_turnId inp)
      ((failed_update e now)\<lparr>u_instanceId := Some (Some iid)\<rparr>) d = Inl fk_failed"
    by (simp add: updateTurn_def Let_def)
  then show ?thesis by (simp add: start_failed_def)
qed

section \<open>Replaying a start\<close>

lemma start_begin_existing:
  assumes "\<not> ts_closing ts" "valid_identifier (si_threadId inp)" "valid_identifier (si_turnId inp)"
    and "turn_at d (TurnKey (si_threadId inp) (si_turnId inp)) = Some r"
  shows "start_begin ts inp now d = (Some (existingStart (turnRecord r) (normalizedRequest inp)), ts, d)"
  using assms by (simp add: start_begin_def validateIdentifier_def getTurn_at)

lemma start_existing:
  assumes "\<not> ts_closing ts" "valid_identifier (si_threadId inp)" "valid_identifier (si_turnId inp)"
    and "turn_at d (TurnKey (si_threadId inp) (si_turnId inp)) = Some r"
  shows "start ex sb inp iid wuuid now now' ts d =
    (existingStart (turnRecord r) (normalizedRequest inp), ts, d)"
  unfolding start_def start_begin_existing [OF assms] by simp

text \<open>The request stored with a turn never changes.\<close>

lemma start_begin_None:
  assumes "start_begin ts inp now d = (None, ts', d')"
  shows "\<not> ts_closing ts \<and> valid_identifier (si_threadId inp) \<and> valid_identifier (si_turnId inp) \<and>
    ts_closing ts' = ts_closing ts \<and>
    createTurn (new_turn_row (si_threadId inp) (si_turnId inp) T_STARTING (normalizedRequest inp) now) d = Inr d'"
  using assms
  by (auto simp: start_begin_def Let_def bind_res_Inr
      split: if_splits sum.splits option.splits)

lemma new_turn_row_simps [simp]:
  "turn_key (new_turn_row t u s q c) = TurnKey t u" "t_threadId (new_turn_row t u s q c) = t"
  "t_state (new_turn_row t u s q c) = s" "t_requestJson (new_turn_row t u s q c) = q"
  by (simp_all add: new_turn_row_def turn_key_def)

lemma createTurn_at:
  assumes "createTurn r d = Inr d'"
  shows "turn_at d' k = (if k = turn_key r then Some r else turn_at d k)"
proof -
  from assms have d': "db_turns d' = db_turns d @ [r]" and new: "turn_key r \<notin> turn_key ` set (db_turns d)"
    unfolding createTurn_Inr by auto
  from new have "select1 (\<lambda>x. turn_key x = turn_key r) (db_turns d) = None"
    unfolding select1_None by (metis imageI)
  then show ?thesis by (auto simp: turn_at_def d' select1_append split: option.splits)
qed

definition request_of :: "db \<Rightarrow> turn_key \<Rightarrow> turn_request option" where
  "request_of d k = map_option t_requestJson (turn_at d k)"

lemma updateTurn_request: "updateTurn t u w d = Inr d' \<Longrightarrow> request_of d' k = request_of d k"
  by (simp add: request_of_def turn_at_updateTurn option.map_comp o_def)

lemma start_opened_request:
  assumes "start_opened ex sb inp iid upd now d = (Inr v, d')"
  shows "request_of d' k = request_of d k"
proof -
  have "updateTurn (si_threadId inp) (si_turnId inp) upd d = Inr d'"
    using assms start_failed_not_Inr by (auto simp: start_opened_def split: sum.splits option.splits)
  then show ?thesis by (rule updateTurn_request)
qed

lemma createTurnRuntime_turns:
  assumes "createTurnRuntime ex sb q d = (x, d')"
  shows "db_turns d' = db_turns d"
  using assms
proof (cases rule: createTurnRuntime_cases)
  case nothing
  then show ?thesis by simp
next
  case ready
  from ready(2) show ?thesis by simp
next
  case failed
  from failed(2) show ?thesis by simp
qed

lemma startCreated_request:
  assumes ok: "db_ok d" and run: "startCreated ex sb ts inp iid wuuid now d = (Inr v, d')"
  shows "request_of d' k = request_of d k"
proof -
  obtain q d1 where req: "start_request sb ts inp iid wuuid d = (q, d1)" by force
  obtain request upd where q: "q = Inr (request, upd)"
    using run req start_failed_not_Inr by (cases q) (fastforce simp: startCreated_def)+
  have same1: "db_turns d1 = db_turns d" using db_ok_start_request [OF ok req] by simp
  obtain x d2 where cr: "createTurnRuntime ex sb request d1 = (x, d2)" by force
  obtain iv where x: "x = Inr iv"
    using run req q cr start_failed_not_Inr by (cases x) (fastforce simp: startCreated_def)+
  have "db_turns d2 = db_turns d1" using cr by (rule createTurnRuntime_turns)
  then have "turn_at d2 k = turn_at d k" using same1 by (simp add: turn_at_def)
  moreover have "start_opened ex sb inp iid upd now d2 = (Inr v, d')"
    using run req q cr x by (simp add: startCreated_def)
  ultimately show ?thesis using start_opened_request by (simp add: request_of_def)
qed

text \<open>Starting again what has been started gives the same view and changes nothing.\<close>

lemma start_twice:
  assumes ok: "db_ok d" and run: "start ex sb inp iid wuuid now now' ts d = (Inr v, ts', d')"
  shows "start ex' sb' inp iid' wuuid' now2 now2' ts' d' = (Inr v, ts', d')"
proof -
  let ?k = "TurnKey (si_threadId inp) (si_turnId inp)"
  obtain o' ts1 d1 where beg: "start_begin ts inp now d = (o', ts1, d1)" by (metis prod.exhaust)
  show ?thesis
  proof (cases o')
    case (Some x)
    with run beg have x: "x = Inr v" "ts' = ts1" "d' = d1" by (auto simp: start_def)
    from beg Some x have "\<not> ts_closing ts \<and> valid_identifier (si_threadId inp) \<and>
        valid_identifier (si_turnId inp) \<and> ts1 = ts \<and> d1 = d \<and>
        (\<exists>r. turn_at d ?k = Some r \<and> existingStart (turnRecord r) (normalizedRequest inp) = Inr v)"
      by (auto simp: start_begin_def Let_def bind_res_Inr getTurn_at
          split: if_splits sum.splits option.splits)
    then show ?thesis using x start_existing by metis
  next
    case None
    note b = start_begin_None [OF beg [unfolded None]]
    then have create: "createTurn (new_turn_row (si_threadId inp) (si_turnId inp) T_STARTING
        (normalizedRequest inp) now) d = Inr d1" by blast
    have ok1: "db_ok d1" by (rule db_ok_start_begin [OF ok beg])
    obtain y where sc: "startCreated ex sb ts1 inp iid wuuid now' d1 = (y, d')"
      and y: "y = Inr v" "ts' = start_end inp ts1"
      using run beg None by (auto simp: start_def split: prod.splits)
    from startCreated_success [OF ok1 sc [unfolded y(1)]] obtain r row where
      r: "turn_at d' ?k = Some r" "t_state r = T_OPEN" "v = view (turnRecord r)"
      by (auto simp: opened_def)
    have "t_requestJson r = normalizedRequest inp"
      using startCreated_request [OF ok1 sc [unfolded y(1)], of ?k] createTurn_at [OF create, of ?k] r(1)
      by (simp add: request_of_def)
    then have "existingStart (turnRecord r) (normalizedRequest inp) = Inr v"
      using r by (simp add: existingStart_def)
    then show ?thesis
      using start_existing [of ts' inp d' r] b y(2) r(1) by (simp add: start_end_def)
  qed
qed

section \<open>Forking\<close>

lemma fork_Inr:
  assumes ok: "db_ok d" and run: "fork ts source destination commitId uuid d = (Inr (t, w, c), d')"
    and given: "commitId \<noteq> Some []"
  shows "t = destination \<and> w = uuid \<and> source \<noteq> destination \<and> getOpenTurn d source = None \<and>
    getThreadWorkspace d destination = None \<and> \<not> workspace_exists d uuid \<and>
    d' = with_thread destination uuid c d \<and> commit_exists d c \<and>
    (\<exists>src head. getThreadWorkspace d source = Some src \<and>
       head_of d (tw_workspaceId src) ''main'' = Some head \<and>
       descends (db_commits d) head c \<and> (commitId = None \<longrightarrow> c = head))"
proof -
  from run have open': "\<not> ts_closing ts" and ids: "valid_identifier source" "valid_identifier destination"
    by (auto simp: fork_def with_res_Inr bind_res_Inr split: if_splits)
  note run1 = run [unfolded fork_def, simplified open' ids validateIdentifier_def, simplified]
  from run1 have differ: "source \<noteq> destination" and idle: "getOpenTurn d source = None"
    by (auto split: if_splits option.splits)
  from run1 differ idle obtain src where src: "getThreadWorkspace d source = Some src"
    and dest: "getThreadWorkspace d destination = None"
    by (auto split: if_splits option.splits)
  from run1 differ idle src dest obtain current where
    ref: "getRef d (tw_workspaceId src) ''main'' = Some current" by (auto split: option.splits)
  note s = differ idle src dest ref
  define c' where "c' = (case commitId of None \<Rightarrow> rf_headCommit current | Some c \<Rightarrow> c)"
  have hist: "truthy commitId = None \<or> commitBelongsToHistory d (rf_headCommit current) c'"
    and run2: "(case createThreadFork (tw_workspaceId src) destination uuid c' d of
        Inl e \<Rightarrow> (Inl e, d) | Inr d' \<Rightarrow> (Inr (destination, uuid, c'), d')) = (Inr (t, w, c), d')"
    using run1 s unfolding c'_def Let_def by (cases commitId; auto split: if_splits)+
  from run2 have new: "createThreadFork (tw_workspaceId src) destination uuid c d = Inr d'"
    and res: "t = destination" "w = uuid" and c: "c = c'"
    by (auto split: sum.splits)
  note hist = hist [folded c] and c = c [unfolded c'_def]
  have "commit_exists d (rf_headCommit current)"
    using s(5) ok by (auto simp: getRef_iff db_ok_def refs_ok_def commit_exists_def)
  then have "rf_headCommit current \<noteq> []"
    using ok by (auto simp: db_ok_def commits_ok_def commit_exists_def commit_ids_def commit_id_check_def)
  then have "descends (db_commits d) (rf_headCommit current) c"
  proof (cases commitId)
    case None
    then show ?thesis by (simp add: c)
  next
    case (Some x)
    then have "commitBelongsToHistory d (rf_headCommit current) c" using hist given by auto
    then show ?thesis using commitBelongsToHistory_iff [OF \<open>rf_headCommit current \<noteq> []\<close>] by simp
  qed
  moreover have "commitId = None \<longrightarrow> c = rf_headCommit current" by (simp add: c)
  moreover have "head_of d (tw_workspaceId src) ''main'' = Some (rf_headCommit current)"
    by (simp add: head_of_def ref)
  ultimately have "\<exists>src head. getThreadWorkspace d source = Some src \<and>
       head_of d (tw_workspaceId src) ''main'' = Some head \<and>
       descends (db_commits d) head c \<and> (commitId = None \<longrightarrow> c = head)"
    using src by blast
  then show ?thesis using s(1,2,4) res createThreadFork_Inr [OF new] by blast
qed

end
