(* ===== verification/Recovery.thy ===== *)
theory Recovery
  imports Start_Inv
begin

text \<open>
  \<open>RecoveryManager\<close> (\<open>src/domain/recovery.ts\<close>): what the daemon does with the turns and runtimes
  of a previous process, and the garbage collection of commits and trees. The directory listings
  are arguments; removing files and destroying runtimes are the externals of \<open>Sandbox\<close>.
\<close>

section \<open>Runtimes of finished turns\<close>

definition cleanup_turn :: "externals \<Rightarrow> turn_row \<Rightarrow> db \<Rightarrow> db" where
  "cleanup_turn ex turn d =
     (if t_mode turn \<noteq> Durable then d
      else case truthy (t_instanceId turn) of
        None \<Rightarrow> d
      | Some iid \<Rightarrow>
     (case getInstance d iid of
        None \<Rightarrow> d
      | Some row \<Rightarrow>
     (case i_backendHandle row of
        None \<Rightarrow> d
      | Some handle \<Rightarrow>
          if i_state row = I_TERMINATED then d
          else (case ex_destroy ex (i_backend row) handle of
              Inr _ \<Rightarrow> updateInstance (i_id row)
                \<lparr>v_state = Some I_TERMINATED, v_backendHandle = Some None, v_lastError = Some None\<rparr> d
            | Inl e \<Rightarrow> updateInstance (i_id row) (lost_update e) d))))"

definition cleanupFinishedTurnRuntimes :: "externals \<Rightarrow> db \<Rightarrow> db" where
  "cleanupFinishedTurnRuntimes ex d = fold (cleanup_turn ex) (listTurns d [T_FINISHED]) d"

section \<open>Recovery at start-up\<close>

definition restarted_instance :: "externals \<Rightarrow> instance_row \<Rightarrow> instance_update" where
  "restarted_instance ex row =
     \<lparr>v_state = Some I_LOST,
      v_backendHandle = (case i_backendHandle row of
          None \<Rightarrow> None
        | Some handle \<Rightarrow> (if is_ok (ex_destroy ex (i_backend row) handle) then Some None else None)),
      v_lastError = Some (Some ''Daemon restarted during active instance state'')\<rparr>"

definition restarted_turn :: "int \<Rightarrow> turn_update" where
  "restarted_turn now = no_update\<lparr>u_state := Some T_FAILED,
     u_errorJson := Some (Some \<lparr>se_code = TURN_CLOSED,
       se_message = ''Daemon restarted during active turn'', se_details = None\<rparr>),
     u_finishedAt := Some (Some now)\<rparr>"

text \<open>Remove the named files one after the other; the first failure is thrown.\<close>

fun rm_all :: "externals \<Rightarrow> string list \<Rightarrow> unit res" where
  "rm_all ex [] = Inr ()"
| "rm_all ex (p # ps) = bind_res (ex_rm ex p) (\<lambda>_. rm_all ex ps)"

definition recover :: "externals \<Rightarrow> string \<Rightarrow> string list \<Rightarrow> int \<Rightarrow> db \<Rightarrow> unit run" where
  "recover ex dataDir stagingEntries now d =
     (let d1 = deleteRunningOperations d in
      with_res (rm_all ex (map (\<lambda>name. path_join [dataDir, ''staging'', name]) stagingEntries)) d1 (\<lambda>_.
      let d2 = cleanupFinishedTurnRuntimes ex d1;
          interrupted = listInstances d2 live_states;
          d3 = fold (\<lambda>row. updateInstance (i_id row) (restarted_instance ex row)) interrupted d2
      in case put_each put_turn (map (\<lambda>t. (turn_key t, restarted_turn now))
                (listTurns d3 [T_STARTING, T_OPEN, T_FINISHING])) d3 of
           Inl e \<Rightarrow> (Inl e, d3)
         | Inr d4 \<Rightarrow> (Inr (), d4)))"

section \<open>Garbage collection\<close>

text \<open>The deletions of one loop: the number of deletions made and the database, or the error that
  stopped the loop with the database it left.\<close>

fun gc_entries :: "externals \<Rightarrow> string list \<Rightarrow> string list \<Rightarrow> nat \<Rightarrow> nat res" where
  "gc_entries ex tracked [] n = Inr n"
| "gc_entries ex tracked (path # paths) n =
     (if path \<in> set tracked then gc_entries ex tracked paths n
      else bind_res (ex_rm ex path) (\<lambda>_. gc_entries ex tracked paths (Suc n)))"

fun gc_trees :: "externals \<Rightarrow> digest list \<Rightarrow> tree_row list \<Rightarrow> nat \<Rightarrow> db \<Rightarrow> nat run" where
  "gc_trees ex reachableTrees [] n d = (Inr n, d)"
| "gc_trees ex reachableTrees (tree # trees) n d =
     (if tr_digest tree \<in> set reachableTrees then gc_trees ex reachableTrees trees n d
      else with_res (ex_rm ex (tr_path tree)) d (\<lambda>_.
        gc_trees ex reachableTrees trees (Suc n) (deleteTreeObject (tr_digest tree) d)))"

fun gc_commits :: "commit_row list \<Rightarrow> nat \<Rightarrow> db \<Rightarrow> nat run" where
  "gc_commits [] n d = (Inr n, d)"
| "gc_commits (c # cs) n d =
     (case deleteCommit (c_id c) d of
        Inl e \<Rightarrow> (Inl e, d)
      | Inr d' \<Rightarrow> gc_commits cs (Suc n) d')"

definition gc_reachable_trees :: "db \<Rightarrow> digest list" where
  "gc_reachable_trees d =
     map c_treeDigest (filter (\<lambda>c. c_id c \<in> set (reachable_commits d)) (listCommits d))"

definition gc_unreachable :: "db \<Rightarrow> commit_row list" where
  "gc_unreachable d = deletion_order (listCommits d)
     (filter (\<lambda>c. c_id c \<notin> set (reachable_commits d)) (listCommits d))"

definition gc :: "externals \<Rightarrow> string \<Rightarrow> string list \<Rightarrow> db \<Rightarrow> (nat \<times> nat) run" where
  "gc ex dataDir entries d =
     (let d1 = cleanupFinishedTurnRuntimes ex d;
          paths = map (\<lambda>name. path_join [dataDir, ''objects'', ''trees'', ''sha256'', name]) entries
      in with_res (gc_entries ex (map tr_path (listTreeObjects d1)) paths 0) d1 (\<lambda>n1.
         case gc_trees ex (gc_reachable_trees d1) (listTreeObjects d1) n1 d1 of
           (Inl e, d2) \<Rightarrow> (Inl e, d2)
         | (Inr deletedTrees, d2) \<Rightarrow>
             (case gc_commits (gc_unreachable d1) 0 d2 of
                (Inl e, d3) \<Rightarrow> (Inl e, d3)
              | (Inr deletedCommits, d3) \<Rightarrow>
                  with_res (rm_all ex (map (\<lambda>i. dirname (i_workspacePath i))
                      (listInstances d3 [I_TERMINATED, I_FAILED, I_LOST]))) d3 (\<lambda>_.
                    (Inr (deletedTrees, deletedCommits), d3)))))"

end
