(* ===== verification/Recovery_Inv.thy ===== *)
theory Recovery_Inv
  imports Recovery
begin

text \<open>
  After recovery no turn is active, no runtime is live and no operation is running, and no head,
  commit or finished turn has changed. Garbage collection never loses a commit that a head or a
  live runtime descends to, deletes children before their parents, and when it gets through
  leaves exactly the reachable commits.
\<close>

section \<open>Listing turns\<close>

lemma set_listTurns:
  "states \<noteq> [] \<Longrightarrow> set (listTurns d states) = turnRecord ` {r \<in> set (db_turns d). t_state r \<in> set states}"
  by (simp add: listTurns_def set_select_all)

lemma distinct_listTurns:
  assumes "db_ok d"
  shows "distinct (map turn_key (listTurns d states))"
proof -
  have "distinct (map turn_key (sort_key turn_key rows))" if "distinct (map turn_key rows)" for rows
    using that by (auto simp: distinct_map inj_on_def)
  moreover have "distinct (map turn_key (db_turns d))" using assms by (simp add: db_ok_def turns_ok_def)
  moreover from this have "distinct (map turn_key (select_all P (db_turns d)))" for P
    by (simp add: select_all_def distinct_map_filter)
  ultimately show ?thesis by (simp add: listTurns_def o_def)
qed

section \<open>Cleaning up\<close>

text \<open>An instance after the cleanup: as it was, or terminated, or lost.\<close>

definition cleaned :: "instance_row option \<Rightarrow> instance_row option \<Rightarrow> bool" where
  "cleaned old new \<longleftrightarrow> (case (old, new) of
      (None, None) \<Rightarrow> True
    | (Some r, Some r') \<Rightarrow> r' = r \<or> (i_state r' \<in> {I_TERMINATED, I_LOST} \<and> i_id r' = i_id r \<and>
         i_baseCommit r' = i_baseCommit r \<and> i_workspaceId r' = i_workspaceId r)
    | _ \<Rightarrow> False)"

lemma cleaned_refl: "cleaned x x"
  by (simp add: cleaned_def split: option.splits)

lemma cleaned_trans: "cleaned x y \<Longrightarrow> cleaned y z \<Longrightarrow> cleaned x z"
  by (auto simp: cleaned_def split: option.splits)

definition only_instances :: "db \<Rightarrow> db \<Rightarrow> bool" where
  "only_instances d d' \<longleftrightarrow> d' = d\<lparr>db_instances := db_instances d'\<rparr> \<and> instance_ids d' = instance_ids d"

lemma only_instances_refl: "only_instances d d"
  by (simp add: only_instances_def)

lemma only_instances_trans:
  assumes "only_instances d d1" "only_instances d1 d2"
  shows "only_instances d d2"
proof -
  have "d2 = (d\<lparr>db_instances := db_instances d1\<rparr>)\<lparr>db_instances := db_instances d2\<rparr>"
    using assms unfolding only_instances_def by metis
  then show ?thesis using assms by (simp add: only_instances_def)
qed

lemma only_instances_update: "only_instances d (updateInstance i v d)"
  by (simp add: only_instances_def updateInstance_def)
    (simp add: instance_ids_update)

lemma only_instances_tables:
  assumes "only_instances d d'"
  shows "db_refs d' = db_refs d" "db_commits d' = db_commits d" "db_turns d' = db_turns d"
    "db_operations d' = db_operations d" "db_workspaces d' = db_workspaces d"
    "db_treeObjects d' = db_treeObjects d" "db_threadWorkspaces d' = db_threadWorkspaces d"
proof -
  have d': "d' = d\<lparr>db_instances := db_instances d'\<rparr>" using assms by (simp add: only_instances_def)
  show "db_refs d' = db_refs d" "db_commits d' = db_commits d" "db_turns d' = db_turns d"
    "db_operations d' = db_operations d" "db_workspaces d' = db_workspaces d"
    "db_treeObjects d' = db_treeObjects d" "db_threadWorkspaces d' = db_threadWorkspaces d"
    by (subst d', simp)+
qed

lemma cleanup_turn_effect:
  "only_instances d (cleanup_turn ex t d) \<and> (db_ok d \<longrightarrow> db_ok (cleanup_turn ex t d)) \<and>
   cleaned (getInstance d i) (getInstance (cleanup_turn ex t d) i)"
  unfolding cleanup_turn_def
  by (auto simp: only_instances_refl only_instances_update db_ok_updateInstance cleaned_refl
      getInstance_updateInstance lost_update_def apply_instance_update_def
      split: option.splits sum.splits)
    (auto simp: cleaned_def split: option.splits)

lemma cleanup_effect:
  "only_instances d (cleanupFinishedTurnRuntimes ex d) \<and>
   (db_ok d \<longrightarrow> db_ok (cleanupFinishedTurnRuntimes ex d)) \<and>
   cleaned (getInstance d i) (getInstance (cleanupFinishedTurnRuntimes ex d) i)"
proof -
  have "only_instances d (fold (cleanup_turn ex) ts d) \<and> (db_ok d \<longrightarrow> db_ok (fold (cleanup_turn ex) ts d)) \<and>
      cleaned (getInstance d i) (getInstance (fold (cleanup_turn ex) ts d) i)" for ts
  proof (induction ts arbitrary: d)
    case Nil
    then show ?case by (simp add: only_instances_refl cleaned_refl)
  next
    case (Cons t ts)
    show ?case
      using Cons.IH [of "cleanup_turn ex t d"] cleanup_turn_effect [of d ex t i]
      by (auto intro: only_instances_trans cleaned_trans)
  qed
  then show ?thesis by (simp add: cleanupFinishedTurnRuntimes_def)
qed

section \<open>Recovery\<close>

lemma restarted_instances_put:
  "put_each put_instance (map (\<lambda>r. (i_id r, restarted_instance ex r)) rows) d =
   Inr (fold (\<lambda>row. updateInstance (i_id row) (restarted_instance ex row)) rows d)"
  by (induction rows arbitrary: d) (simp_all add: put_instance_def)

lemma restarted_instances_effect:
  "only_instances d (fold (\<lambda>row. updateInstance (i_id row) (restarted_instance ex row)) rows d) \<and>
   (db_ok d \<longrightarrow> db_ok (fold (\<lambda>row. updateInstance (i_id row) (restarted_instance ex row)) rows d))"
proof (induction rows arbitrary: d)
  case Nil
  then show ?case by (simp add: only_instances_refl)
next
  case (Cons r rows)
  show ?case
    using Cons.IH [of "updateInstance (i_id r) (restarted_instance ex r) d"]
      only_instances_update [of d "i_id r" "restarted_instance ex r"]
    by (auto intro: only_instances_trans db_ok_updateInstance)
qed

lemma restarted_state [simp]: "v_state (restarted_instance ex r) = Some I_LOST"
  by (simp add: restarted_instance_def)

lemma restarted_no_live:
  assumes ok: "db_ok d"
    and row: "getInstance (fold (\<lambda>row. updateInstance (i_id row) (restarted_instance ex row))
      (listInstances d live_states) d) i = Some r"
  shows "i_state r \<notin> set live_states"
proof -
  let ?rows = "listInstances d live_states"
  let ?kus = "map (\<lambda>r. (i_id r, restarted_instance ex r)) ?rows"
  have rows: "?rows = filter (\<lambda>r. i_state r \<in> set live_states) (db_instances d)"
    by (simp add: listInstances_def live_states_def select_all_def)
  have dist: "distinct (map fst ?kus)"
    using ok by (simp add: rows o_def distinct_map_filter db_ok_def instances_ok_def)
  note run = restarted_instances_put [of ex ?rows d]
  show ?thesis
  proof (cases "i \<in> i_id ` set ?rows")
    case True
    then obtain r0 where "(i, restarted_instance ex r0) \<in> set ?kus" by auto
    from instances.get_put_each [OF run dist this] row show ?thesis
      by (auto simp: live_states_def)
  next
    case False
    then have "getInstance d i = Some r"
      using instances.get_put_each_other [OF run, of i] row by (simp add: image_image)
    then have "r \<in> set (db_instances d)" "i_id r = i" by (simp_all add: getInstance_iff [OF ok])
    then show ?thesis using False by (auto simp: rows)
  qed
qed

lemma put_turns_ok:
  assumes "db_ok d" "\<And>k w. (k, w) \<in> set kws \<Longrightarrow> w = restarted_turn now"
  shows "\<exists>d'. put_each put_turn kws d = Inr d' \<and> db_ok d' \<and> db_refs d' = db_refs d \<and>
    db_commits d' = db_commits d \<and> db_instances d' = db_instances d \<and> db_operations d' = db_operations d"
  using assms
proof (induction kws arbitrary: d)
  case (Cons kw kws)
  obtain k w where kw: "kw = (k, w)" by force
  have w: "w = restarted_turn now" using Cons.prems(2) [of k w] kw by simp
  have "\<exists>d1. updateTurn (tk_thread k) (tk_turn k) w d = Inr d1"
    by (rule updateTurn_ok [OF Cons.prems(1)]) (simp_all add: w restarted_turn_def)
  then obtain d1 where d1: "updateTurn (tk_thread k) (tk_turn k) w d = Inr d1" ..
  then have "put_turn k w d = Inr d1" by (simp add: put_turn_def)
  have "\<exists>d'. put_each put_turn kws d1 = Inr d' \<and> db_ok d' \<and> db_refs d' = db_refs d1 \<and>
    db_commits d' = db_commits d1 \<and> db_instances d' = db_instances d1 \<and> db_operations d' = db_operations d1"
    by (rule Cons.IH [OF db_ok_updateTurn [OF Cons.prems(1) d1]]) (use Cons.prems(2) in auto)
  then show ?case using kw \<open>put_turn k w d = Inr d1\<close> updateTurn_tables [OF d1] by auto
qed simp

lemma restarted_turns:
  assumes ok: "db_ok d"
    and run: "put_each put_turn (map (\<lambda>t. (turn_key t, restarted_turn now))
        (listTurns d [T_STARTING, T_OPEN, T_FINISHING])) d = Inr d'"
  shows "turn_at d' k = map_option (\<lambda>r. if active_state (t_state r)
    then apply_update (restarted_turn now) r else r) (turn_at d k)"
proof -
  let ?rows = "listTurns d [T_STARTING, T_OPEN, T_FINISHING]"
  let ?kws = "map (\<lambda>t. (turn_key t, restarted_turn now)) ?rows"
  have dist: "distinct (map fst ?kws)"
    using distinct_listTurns [OF ok, of "[T_STARTING, T_OPEN, T_FINISHING]"] by (simp add: o_def)
  have keys: "fst ` set ?kws = turn_key ` {r \<in> set (db_turns d). active_state (t_state r)}"
    by (auto simp: set_listTurns active_state_def image_iff)
  show ?thesis
  proof (cases "k \<in> fst ` set ?kws")
    case True
    then have "(k, restarted_turn now) \<in> set ?kws" by auto
    note upd = turns.get_put_each [OF run dist this]
    from True [unfolded keys] obtain r where "turn_at d k = Some r" "active_state (t_state r)"
      by (auto simp: turn_at_iff [OF ok])
    then show ?thesis using upd by simp
  next
    case False
    have same: "turn_at d' k = turn_at d k" by (rule turns.get_put_each_other [OF run False])
    have "\<not> active_state (t_state r)" if "turn_at d k = Some r" for r
      using that False [unfolded keys] by (auto simp: turn_at_iff [OF ok])
    then show ?thesis using same by (cases "turn_at d k") auto
  qed
qed

text \<open>What recovery leaves, when removing the staging files does not throw.\<close>

lemma recover_outcome:
  assumes ok: "db_ok d" and run: "recover ex dataDir staging now d = (Inr (), d')"
  shows "db_ok d' \<and> db_refs d' = db_refs d \<and> db_commits d' = db_commits d \<and>
    (\<forall>r\<in>set (db_instances d'). i_state r \<notin> set live_states) \<and>
    (\<forall>r\<in>set (db_turns d'). \<not> active_state (t_state r)) \<and>
    (\<forall>r\<in>set (db_operations d'). o_status r \<noteq> O_RUNNING) \<and>
    (\<forall>k. turn_at d' k = map_option (\<lambda>r. if active_state (t_state r)
       then apply_update (restarted_turn now) r else r) (turn_at d k))"
proof -
  define d1 where "d1 = deleteRunningOperations d"
  define d2 where "d2 = cleanupFinishedTurnRuntimes ex d1"
  define d3 where "d3 = fold (\<lambda>row. updateInstance (i_id row) (restarted_instance ex row))
    (listInstances d2 live_states) d2"
  have ok1: "db_ok d1" unfolding d1_def by (rule db_ok_deleteRunningOperations [OF ok])
  have ok2: "db_ok d2" and only2: "only_instances d1 d2"
    using cleanup_effect [of d1 ex] ok1 by (simp_all add: d2_def)
  have ok3: "db_ok d3" and only3: "only_instances d2 d3"
    using restarted_instances_effect [of d2 ex "listInstances d2 live_states"] ok2
    by (simp_all add: d3_def)
  have put: "put_each put_turn (map (\<lambda>t. (turn_key t, restarted_turn now))
      (listTurns d3 [T_STARTING, T_OPEN, T_FINISHING])) d3 = Inr d'"
    using run by (auto simp: recover_def Let_def d1_def [symmetric] d2_def [symmetric]
        d3_def [symmetric] with_res_Inr split: sum.splits)
  from put_turns_ok [OF ok3, of "map (\<lambda>t. (turn_key t, restarted_turn now))
      (listTurns d3 [T_STARTING, T_OPEN, T_FINISHING])" now] put
  have d': "db_ok d'" "db_refs d' = db_refs d3" "db_commits d' = db_commits d3"
    "db_instances d' = db_instances d3" "db_operations d' = db_operations d3" by auto
  note tabs = only_instances_tables [OF only2] only_instances_tables [OF only3]
  have same1: "db_refs d1 = db_refs d" "db_commits d1 = db_commits d" "db_turns d1 = db_turns d"
    by (simp_all add: d1_def deleteRunningOperations_def)
  have turns: "turn_at d' k = map_option (\<lambda>r. if active_state (t_state r)
       then apply_update (restarted_turn now) r else r) (turn_at d k)" for k
  proof -
    have "turn_at d3 k = turn_at d k" using tabs same1 by (simp add: turn_at_def)
    then show ?thesis using restarted_turns [OF ok3 put] by simp
  qed
  have "\<not> active_state (t_state r)" if "r \<in> set (db_turns d')" for r
  proof -
    have "turn_at d' (turn_key r) = Some r" using that by (simp add: turn_at_iff [OF d'(1)])
    then obtain r0 where r0: "(if active_state (t_state r0) then apply_update (restarted_turn now) r0 else r0) = r"
      unfolding turns map_option_eq_Some by blast
    have "\<not> active_state (t_state (if active_state (t_state r0) then apply_update (restarted_turn now) r0 else r0))"
      by (simp add: restarted_turn_def)
    then show ?thesis unfolding r0 .
  qed
  moreover have "i_state r \<notin> set live_states" if "r \<in> set (db_instances d')" for r
  proof (rule restarted_no_live [OF ok2])
    show "getInstance (fold (\<lambda>row. updateInstance (i_id row) (restarted_instance ex row))
      (listInstances d2 live_states) d2) (i_id r) = Some r"
      using that d'(4) by (simp add: d3_def [symmetric] getInstance_iff [OF ok3])
  qed
  moreover have "\<forall>r\<in>set (db_operations d'). o_status r \<noteq> O_RUNNING"
    using d'(5) tabs by (simp add: d1_def deleteRunningOperations_def set_delete_where)
  ultimately show ?thesis using d' tabs same1 turns by simp
qed

lemma recover_returns:
  assumes "db_ok d" "\<And>p. ex_rm ex p = Inr ()"
  shows "\<exists>d'. recover ex dataDir staging now d = (Inr (), d')"
proof -
  define d1 where "d1 = deleteRunningOperations d"
  define d2 where "d2 = cleanupFinishedTurnRuntimes ex d1"
  define d3 where "d3 = fold (\<lambda>row. updateInstance (i_id row) (restarted_instance ex row))
    (listInstances d2 live_states) d2"
  have "db_ok d3"
    using restarted_instances_effect [of d2 ex "listInstances d2 live_states"]
      cleanup_effect [of d1 ex] db_ok_deleteRunningOperations [OF assms(1)]
    by (simp add: d1_def d2_def d3_def)
  from put_turns_ok [OF this, of "map (\<lambda>t. (turn_key t, restarted_turn now))
      (listTurns d3 [T_STARTING, T_OPEN, T_FINISHING])" now]
  obtain d4 where "put_each put_turn (map (\<lambda>t. (turn_key t, restarted_turn now))
      (listTurns d3 [T_STARTING, T_OPEN, T_FINISHING])) d3 = Inr d4" by auto
  moreover have "rm_all ex ps = Inr ()" for ps by (induction ps) (simp_all add: assms(2))
  ultimately show ?thesis
    by (simp add: recover_def Let_def d1_def [symmetric] d2_def [symmetric] d3_def [symmetric])
qed

section \<open>Garbage collection\<close>

lemma reachable_iff:
  "x \<in> set (reachable_commits d) \<longleftrightarrow>
     (\<exists>r\<in>set (listGcRoots d) - {''''}. descends (db_commits d) r x)"
  using set_mark_loop [of "db_commits d" "rev (listGcRoots d)"] by (auto simp: reachable_commits_def)

lemma reachable_closed:
  "x \<in> set (reachable_commits d) \<Longrightarrow> parent_step (db_commits d) x y \<Longrightarrow> y \<in> set (reachable_commits d)"
  unfolding reachable_iff by (meson rtranclp.rtrancl_into_rtrancl)

lemma gc_trees_effect:
  assumes "gc_trees ex R ts n d = (r, d')"
  shows "d' = d\<lparr>db_treeObjects := db_treeObjects d'\<rparr> \<and> (db_ok d \<longrightarrow> db_ok d') \<and>
    (\<forall>t\<in>set (db_treeObjects d). tr_digest t \<in> set R \<longrightarrow> t \<in> set (db_treeObjects d')) \<and>
    set (db_treeObjects d') \<subseteq> set (db_treeObjects d) \<and>
    (is_ok r \<longrightarrow> (\<forall>t\<in>set (db_treeObjects d'). tr_digest t \<in> tr_digest ` set ts \<longrightarrow> tr_digest t \<in> set R))"
  using assms
proof (induction ts arbitrary: n d)
  case (Cons t ts)
  show ?case
  proof (cases "tr_digest t \<in> set R")
    case True
    then show ?thesis using Cons by (auto simp: image_iff)
  next
    case False
    show ?thesis
    proof (cases "ex_rm ex (tr_path t)")
      case (Inl e)
      then show ?thesis using Cons.prems False by auto
    next
      case (Inr u)
      let ?d1 = "deleteTreeObject (tr_digest t) d"
      have "gc_trees ex R ts (Suc n) ?d1 = (r, d')" using Cons.prems False Inr by simp
      note IH = Cons.IH [OF this]
      have "d' = d\<lparr>db_treeObjects := db_treeObjects d'\<rparr>"
      proof -
        have "d' = ?d1\<lparr>db_treeObjects := db_treeObjects d'\<rparr>" using IH by blast
        also have "\<dots> = d\<lparr>db_treeObjects := db_treeObjects d'\<rparr>" by (simp add: deleteTreeObject_def)
        finally show ?thesis .
      qed
      moreover have "db_ok d \<longrightarrow> db_ok d'" using IH db_ok_deleteTreeObject by blast
      moreover have "set (db_treeObjects ?d1) = {x \<in> set (db_treeObjects d). tr_digest x \<noteq> tr_digest t}"
        by (simp add: deleteTreeObject_def set_delete_where)
      ultimately show ?thesis using IH False by auto
    qed
  qed
qed simp

lemma gc_commits_effect:
  assumes "gc_commits cs n d = (r, d')"
  shows "d' = d\<lparr>db_commits := db_commits d'\<rparr> \<and> (db_ok d \<longrightarrow> db_ok d') \<and>
    (\<forall>c\<in>set (db_commits d). c_id c \<notin> c_id ` set cs \<longrightarrow> c \<in> set (db_commits d')) \<and>
    set (db_commits d') \<subseteq> set (db_commits d) \<and>
    (is_ok r \<longrightarrow> r = Inr (n + length cs) \<and> (\<forall>c\<in>set (db_commits d'). c_id c \<notin> c_id ` set cs))"
  using assms
proof (induction cs arbitrary: n d)
  case (Cons c cs)
  show ?case
  proof (cases "deleteCommit (c_id c) d")
    case (Inl e)
    then show ?thesis using Cons.prems by auto
  next
    case (Inr d1)
    then have "gc_commits cs (Suc n) d1 = (r, d')" using Cons.prems by simp
    note IH = Cons.IH [OF this]
    have d1: "d1 = d\<lparr>db_commits := delete_where (\<lambda>x. c_id x = c_id c) (db_commits d)\<rparr>"
      using Inr by (auto simp: deleteCommit_def split: if_splits)
    have "d' = d\<lparr>db_commits := db_commits d'\<rparr>"
    proof -
      have "d' = d1\<lparr>db_commits := db_commits d'\<rparr>" using IH by blast
      also have "\<dots> = d\<lparr>db_commits := db_commits d'\<rparr>" by (simp add: d1)
      finally show ?thesis .
    qed
    moreover have "db_ok d \<longrightarrow> db_ok d'" using IH db_ok_deleteCommit [OF _ Inr] by blast
    moreover have "set (db_commits d1) = {x \<in> set (db_commits d). c_id x \<noteq> c_id c}"
      by (simp add: d1 set_delete_where)
    ultimately show ?thesis using IH by auto
  qed
qed simp

text \<open>What garbage collection keeps, whatever it returns, and what it has done when it returns.\<close>

lemma gc_effect:
  assumes ok: "db_ok d" and run: "gc ex dataDir entries d = (r, d')"
  shows "db_ok d' \<and> db_refs d' = db_refs d \<and> db_turns d' = db_turns d \<and>
    db_instances d' = db_instances (cleanupFinishedTurnRuntimes ex d) \<and>
    set (db_commits d') \<subseteq> set (db_commits d) \<and>
    (\<forall>c\<in>set (db_commits d). c_id c \<in> set (reachable_commits (cleanupFinishedTurnRuntimes ex d)) \<longrightarrow>
       c \<in> set (db_commits d') \<and>
       (\<forall>t\<in>set (db_treeObjects d). tr_digest t = c_treeDigest c \<longrightarrow> t \<in> set (db_treeObjects d'))) \<and>
    (is_ok r \<longrightarrow> (\<forall>c\<in>set (db_commits d'). c_id c \<in> set (reachable_commits (cleanupFinishedTurnRuntimes ex d))))"
proof -
  define d1 where "d1 = cleanupFinishedTurnRuntimes ex d"
  have ok1: "db_ok d1" and only: "only_instances d d1" using cleanup_effect [of d ex] ok by (simp_all add: d1_def)
  note tabs = only_instances_tables [OF only]
  have order: "c_id ` set (gc_unreachable d1) = c_id ` set (db_commits d) - set (reachable_commits d1)"
    using tabs by (auto simp: gc_unreachable_def listCommits_def)
  define paths where "paths = map (\<lambda>name. path_join [dataDir, ''objects'', ''trees'', ''sha256'', name]) entries"
  show ?thesis
  proof (cases "gc_entries ex (map tr_path (listTreeObjects d1)) paths 0")
    case (Inl e)
    then have "d' = d1" "\<not> is_ok r" using run by (auto simp: gc_def Let_def d1_def [symmetric] paths_def [symmetric])
    then show ?thesis using ok1 tabs by (simp add: d1_def [symmetric])
  next
    case (Inr n1)
    obtain q d2 where trees: "gc_trees ex (gc_reachable_trees d1) (listTreeObjects d1) n1 d1 = (q, d2)" by force
    note T = gc_trees_effect [OF trees]
    have d2: "d2 = d1\<lparr>db_treeObjects := db_treeObjects d2\<rparr>" and ok2: "db_ok d2" using T ok1 by blast+
    have same2: "db_refs d2 = db_refs d" "db_turns d2 = db_turns d" "db_commits d2 = db_commits d"
      "db_instances d2 = db_instances d1"
      by (subst d2, simp add: tabs)+
    have kept: "t \<in> set (db_treeObjects d2)"
      if "c \<in> set (db_commits d)" "c_id c \<in> set (reachable_commits d1)"
        "t \<in> set (db_treeObjects d)" "tr_digest t = c_treeDigest c" for c t
    proof -
      have "tr_digest t \<in> set (gc_reachable_trees d1)"
        using that tabs by (auto simp: gc_reachable_trees_def listCommits_def)
      then show ?thesis using T that(3) tabs by simp
    qed
    show ?thesis
    proof (cases q)
      case (Inl e)
      then have "d' = d2" "\<not> is_ok r"
        using run trees Inr by (auto simp: gc_def Let_def d1_def [symmetric] paths_def [symmetric])
      then show ?thesis using ok2 same2 kept by (simp add: d1_def [symmetric])
    next
      case q: (Inr n)
      obtain s d3 where com: "gc_commits (gc_unreachable d1) 0 d2 = (s, d3)" by force
      note C = gc_commits_effect [OF com]
      have d3: "d3 = d2\<lparr>db_commits := db_commits d3\<rparr>" and ok3: "db_ok d3" using C ok2 by blast+
      have same3: "db_refs d3 = db_refs d" "db_turns d3 = db_turns d" "db_treeObjects d3 = db_treeObjects d2"
        "db_instances d3 = db_instances d1"
        by (subst d3, simp add: same2)+
      have d': "d' = d3" and rs: "is_ok r \<longrightarrow> is_ok s"
        using run trees Inr q com
        by (auto simp: gc_def Let_def d1_def [symmetric] paths_def [symmetric] with_res_def split: sum.splits)
      have Ckeep: "\<forall>c\<in>set (db_commits d2). c_id c \<notin> c_id ` set (gc_unreachable d1) \<longrightarrow> c \<in> set (db_commits d3)"
        and Csub: "set (db_commits d3) \<subseteq> set (db_commits d2)"
        and Cleft: "is_ok s \<longrightarrow> (\<forall>c\<in>set (db_commits d3). c_id c \<notin> c_id ` set (gc_unreachable d1))"
        using C by blast+
      have "c \<in> set (db_commits d3)"
        if "c \<in> set (db_commits d)" "c_id c \<in> set (reachable_commits d1)" for c
        using Ckeep that same2(3) order by simp
      moreover have "c_id c \<in> set (reachable_commits d1)" if "is_ok r" "c \<in> set (db_commits d3)" for c
      proof -
        have "c \<in> set (db_commits d)" using Csub that(2) same2(3) by auto
        then have "c_id c \<in> c_id ` set (db_commits d)" by (rule imageI)
        moreover have "c_id c \<notin> c_id ` set (gc_unreachable d1)" using Cleft rs that by simp
        ultimately show ?thesis unfolding order by simp
      qed
      moreover have "set (db_commits d3) \<subseteq> set (db_commits d)" using Csub same2(3) by simp
      ultimately show ?thesis
        using d' ok3 same3 kept unfolding d1_def [symmetric] by simp
    qed
  qed
qed

text \<open>The deletion of commits gets through when nothing else refers to an unreachable commit.\<close>

lemma gc_commits_suffix:
  assumes us: "deletion_order (db_commits d0) un = done' @ us"
    and un: "un = filter (\<lambda>c. c_id c \<notin> R) (db_commits d0)"
    and closed: "\<And>x y. x \<in> R \<Longrightarrow> parent_step (db_commits d0) x y \<Longrightarrow> y \<in> R"
    and keys: "distinct (map c_id (db_commits d0))" and pf: "parents_first (db_commits d0)"
    and ids: "\<And>c. c \<in> set (db_commits d0) \<Longrightarrow> c_id c \<noteq> []"
    and d: "d = d0\<lparr>db_commits := filter (\<lambda>c. c_id c \<notin> c_id ` set done') (db_commits d0)\<rparr>"
    and refs: "\<And>r. r \<in> set (db_refs d0) \<Longrightarrow> rf_headCommit r \<in> R"
    and insts: "\<And>i. i \<in> set (db_instances d0) \<Longrightarrow> i_baseCommit i \<in> R"
    and turns: "\<And>t c. t \<in> set (db_turns d0) \<Longrightarrow> t_expectedHead t = Some c \<Longrightarrow> c \<in> R"
  shows "\<exists>d'. gc_commits us n d = (Inr (n + length us), d')"
  using us d
proof (induction us arbitrary: done' d n)
  case (Cons u us)
  have u: "u \<in> set (db_commits d0)" "c_id u \<notin> R"
  proof -
    have "u \<in> set (deletion_order (db_commits d0) un)" using Cons.prems(1) by simp
    then show "u \<in> set (db_commits d0)" "c_id u \<notin> R" using un by auto
  qed
  have no_ref: "rf_headCommit r \<noteq> c_id u" if "r \<in> set (db_refs d0)" for r
    using refs [OF that] u(2) by auto
  have no_inst: "i_baseCommit i \<noteq> c_id u" if "i \<in> set (db_instances d0)" for i
    using insts [OF that] u(2) by auto
  have no_turn: "t_expectedHead t \<noteq> Some (c_id u)" if "t \<in> set (db_turns d0)" for t
    using turns [OF that] u(2) by auto
  have tabs: "db_refs d = db_refs d0" "db_instances d = db_instances d0" "db_turns d = db_turns d0"
    using Cons.prems(2) by simp_all
  have "\<not> commit_referenced d (c_id u)"
  proof
    assume "commit_referenced d (c_id u)"
    then obtain c where c: "c \<in> set (db_commits d)" "c_parentId c = Some (c_id u)" "c_id c \<noteq> c_id u"
      unfolding commit_referenced_def tabs using no_ref no_inst no_turn by blast
    then have c0: "c \<in> set (db_commits d0)" "c_id c \<notin> c_id ` set done'" using Cons.prems(2) by auto
    have step: "parent_step (db_commits d0) (c_id c) (c_id u)"
      using c0(1) c(2) ids [OF u(1)] select1_key [OF keys, of "c_id c" c]
      by (simp add: parent_step_def parent_of_def)
    then have "c_id c \<notin> R" using closed u(2) by blast
    then have "c \<in> set (deletion_order (db_commits d0) un)" using un c0(1) by simp
    then have "c \<in> set us" using Cons.prems(1) c0(2) c(3) by auto
    then show False
      using deletion_order_children_first [OF keys pf Cons.prems(1)] step by blast
  qed
  then have del: "deleteCommit (c_id u) d =
      Inr (d\<lparr>db_commits := delete_where (\<lambda>c. c_id c = c_id u) (db_commits d)\<rparr>)"
    by (simp add: deleteCommit_def)
  have "delete_where (\<lambda>c. c_id c = c_id u) (db_commits d) =
      filter (\<lambda>c. c_id c \<notin> c_id ` set (done' @ [u])) (db_commits d0)"
    unfolding Cons.prems(2) by (auto simp: delete_where_def intro!: filter_cong)
  then have "d\<lparr>db_commits := delete_where (\<lambda>c. c_id c = c_id u) (db_commits d)\<rparr> =
      d0\<lparr>db_commits := filter (\<lambda>c. c_id c \<notin> c_id ` set (done' @ [u])) (db_commits d0)\<rparr>"
    unfolding Cons.prems(2) by simp
  moreover have "deletion_order (db_commits d0) un = (done' @ [u]) @ us" using Cons.prems(1) by simp
  ultimately have "\<exists>d'. gc_commits us (Suc n)
      (d\<lparr>db_commits := delete_where (\<lambda>c. c_id c = c_id u) (db_commits d)\<rparr>) = (Inr (Suc n + length us), d')"
    by (intro Cons.IH)
  then show ?case using del by simp
qed simp

text \<open>What keeps the collection from getting through: anything that refers to a commit it is to
  delete, such as the runtime of a turn that ended long ago.\<close>

lemma gc_blocked:
  assumes ok: "db_ok d" and inst: "i \<in> set (db_instances (cleanupFinishedTurnRuntimes ex d))"
    and dead: "i_baseCommit i \<notin> set (reachable_commits (cleanupFinishedTurnRuntimes ex d))"
    and run: "gc ex dataDir entries d = (r, d')"
  shows "\<not> is_ok r"
proof
  assume "is_ok r"
  note eff = gc_effect [OF ok run]
  have "i_baseCommit i \<in> commit_ids d'"
    using eff inst by (auto simp: db_ok_def instances_ok_def)
  then show False using eff \<open>is_ok r\<close> dead by (auto simp: commit_ids_def)
qed

end
