(* ===== verification/System.thy ===== *)
theory System
  imports Recovery_Inv
begin

text \<open>
  The daemon as a step system. Node runs one handler segment at a time, from one await to the
  next, and the segments of different requests interleave freely; a segment that follows an
  await is run with whatever the awaited call answered. \<open>daemon_step\<close> has one rule per segment
  that writes the database, for any request, any answer and any clock, so that its runs contain
  every interleaving of the handlers. \<open>lease_step\<close> does the same for the lease table of the turn
  service.
\<close>

section \<open>Database segments\<close>

inductive daemon_step :: "db \<Rightarrow> db \<Rightarrow> bool" where
  ds_initialize: "initialize ex sb d = (r, d') \<Longrightarrow> daemon_step d d'"
| ds_start_begin: "start_begin ts inp now d = (r, ts', d') \<Longrightarrow> daemon_step d d'"
| ds_start_request: "start_request sb ts inp iid wuuid d = (r, d') \<Longrightarrow> daemon_step d d'"
| ds_create_instance: "createInstance (runtime_row sb q) d = Inr d' \<Longrightarrow> daemon_step d d'"
| ds_runtime_created: "runtime_created ex sb iid ans d = (r, d') \<Longrightarrow> daemon_step d d'"
| ds_turn_update: "updateTurn tid uid u d = Inr d' \<Longrightarrow> daemon_step d d'"
| ds_instance_update: "daemon_step d (updateInstance iid v d)"
| ds_commit_begin: "commit_begin ci d = Inr (x, d') \<Longrightarrow> daemon_step d d'"
| ds_commit_finish: "commit_finish ex ci ans now d = (r, d') \<Longrightarrow> daemon_step d d'"
| ds_delete_begin: "delete_begin iid d = Some (row, d') \<Longrightarrow> daemon_step d d'"
| ds_finish_begin: "finish_begin ts tid uid d = (x, ts', d') \<Longrightarrow> daemon_step d d'"
| ds_fork: "fork ts source destination commitId uuid d = (r, d') \<Longrightarrow> daemon_step d d'"
| ds_artifact: "daemon_step d (putArtifactAndGrant tid dig path sizeBytes meta d)"
| ds_operations: "daemon_step d (deleteRunningOperations d)"
| ds_delete_tree: "daemon_step d (deleteTreeObject dig d)"
| ds_delete_commit: "deleteCommit cid d = Inr d' \<Longrightarrow> daemon_step d d'"

inductive_cases daemon_stepE: "daemon_step d d'"

lemma db_ok_initialize:
  assumes "db_ok d" "initialize ex sb d = (r, d')"
  shows "db_ok d'"
  using assms by (auto simp: initialize_def with_res_def Let_def split: sum.splits
      intro: db_ok_putTreeObject db_ok_putCommit)

lemma db_ok_runtime_created:
  assumes "db_ok d" "runtime_created ex sb iid ans d = (r, d')"
  shows "db_ok d'"
  using assms by (auto simp: runtime_created_def Let_def with_res_def
      intro!: db_ok_updateInstance split: sum.splits option.splits)

lemma db_ok_finish_begin:
  assumes "db_ok d" "finish_begin ts tid uid d = (x, ts', d')"
  shows "db_ok d'"
  using assms by (auto simp: finish_begin_def Let_def split: sum.splits option.splits if_splits prod.splits
      intro: db_ok_updateTurn)

lemma db_ok_fork:
  assumes "db_ok d" "fork ts source destination commitId uuid d = (r, d')"
  shows "db_ok d'"
  using assms by (auto simp: fork_def Let_def with_res_def split: sum.splits option.splits if_splits
      intro: db_ok_createThreadFork)

lemma db_ok_delete_begin: "db_ok d \<Longrightarrow> delete_begin iid d = Some (row, d') \<Longrightarrow> db_ok d'"
  by (auto simp: delete_begin_Some intro: db_ok_updateInstance)

lemma db_ok_daemon_step: "daemon_step d d' \<Longrightarrow> db_ok d \<Longrightarrow> db_ok d'"
proof (induction rule: daemon_step.induct)
  case (ds_commit_begin ci d x d')
  then show ?case by (cases x) (auto intro: db_ok_commit_begin)
qed (auto intro: db_ok_initialize db_ok_start_begin db_ok_start_request [THEN conjunct1]
    db_ok_createInstance db_ok_runtime_created db_ok_updateTurn db_ok_updateInstance
    db_ok_commit_finish db_ok_delete_begin db_ok_finish_begin db_ok_fork db_ok_putArtifactAndGrant
    db_ok_deleteRunningOperations db_ok_deleteTreeObject db_ok_deleteCommit)

interpretation daemon: invariant_system "\<lambda>d. d = empty_db" daemon_step db_ok
proof
  show "d = empty_db \<Longrightarrow> db_ok d" for d by (simp add: db_ok_empty)
  show "daemon_step d d' \<Longrightarrow> db_ok d \<Longrightarrow> db_ok d'" for d d' by (rule db_ok_daemon_step)
qed

lemma active_turn_unique:
  assumes "db_ok d" "r \<in> set (db_turns d)" "r' \<in> set (db_turns d)"
    "t_threadId r = t_threadId r'" "active_state (t_state r)" "active_state (t_state r')"
  shows "r = r'"
  using assms one_active_unique by (metis db_ok_def turns_ok_def)

section \<open>Leases\<close>

text \<open>The state is the turn service with the leases it has handed out so far. Lease ids are
  random UUIDs, hence new.\<close>

inductive lease_step :: "turn_service \<times> turn_lease list \<Rightarrow> turn_service \<times> turn_lease list \<Rightarrow> bool" where
  ls_acquire: "acquire ts d tid uid i = Inr (l, ts') \<Longrightarrow> i \<notin> l_id ` set ls \<Longrightarrow>
    lease_step (ts, ls) (ts', ls @ [l])"
| ls_release: "l \<in> set ls \<Longrightarrow> release l ts = (woken, ts') \<Longrightarrow> lease_step (ts, ls) (ts', ls)"
| ls_wait: "waitForLeases ts tid uid = (go, ts') \<Longrightarrow> lease_step (ts, ls) (ts', ls)"

definition open_leases :: "turn_service \<times> turn_lease list \<Rightarrow> string \<Rightarrow> turn_lease list" where
  "open_leases s key = filter (\<lambda>l. l_key l = key \<and> l_id l \<notin> set (ts_released (fst s))) (snd s)"

definition lease_inv :: "turn_service \<times> turn_lease list \<Rightarrow> bool" where
  "lease_inv s \<longleftrightarrow> (case s of (ts, ls) \<Rightarrow>
     leases_ok ts \<and> distinct (map l_id ls) \<and> set (ts_released ts) \<subseteq> l_id ` set ls \<and>
     ts_activeLeases ts = map (\<lambda>l. (l_id l, l_turn l)) (filter (\<lambda>l. l_id l \<notin> set (ts_released ts)) ls) \<and>
     (\<forall>l\<in>set ls. lease_key (l_turn l) = l_key l))"

lemma lease_inv_count:
  assumes "lease_inv (ts, ls)"
  shows "lease_count ts key = length (open_leases (ts, ls) key)"
proof -
  from assms have cnt: "lease_count ts key = active_leases ts key"
    and act: "ts_activeLeases ts = map (\<lambda>l. (l_id l, l_turn l)) (filter (\<lambda>l. l_id l \<notin> set (ts_released ts)) ls)"
    and key: "\<forall>l\<in>set ls. lease_key (l_turn l) = l_key l"
    by (auto simp: lease_inv_def leases_ok_def)
  have "active_leases ts key =
      length (filter (\<lambda>l. lease_key (l_turn l) = key) (filter (\<lambda>l. l_id l \<notin> set (ts_released ts)) ls))"
    by (simp add: active_leases_def act filter_map o_def)
  also have "\<dots> = length (open_leases (ts, ls) key)"
    unfolding open_leases_def filter_filter
    by (rule arg_cong [where f = length], rule filter_cong) (use key in auto)
  finally show ?thesis using cnt by simp
qed

lemma acquire_released: "acquire ts d tid uid i = Inr (l, ts') \<Longrightarrow> ts_released ts' = ts_released ts"
  by (auto simp: acquire_Inr)

lemma wait_fields:
  "waitForLeases ts tid uid = (go, ts') \<Longrightarrow> ts_released ts' = ts_released ts \<and> ts_activeLeases ts' = ts_activeLeases ts"
  by (auto simp: waitForLeases_def Let_def split: if_splits)

lemma release_fields:
  assumes "l_id l \<notin> set (ts_released ts)" "map_of (ts_activeLeases ts) (l_id l) \<noteq> None"
    and "release l ts = (woken, ts')"
  shows "ts_released ts' = l_id l # ts_released ts \<and>
    ts_activeLeases ts' = AList.delete (l_id l) (ts_activeLeases ts)"
  using assms by (auto simp: release_def Let_def split: if_splits)

lemma lease_inv_acquire:
  assumes inv: "lease_inv (ts, ls)" and acq: "acquire ts d tid uid i = Inr (l, ts')"
    and new: "i \<notin> l_id ` set ls"
  shows "lease_inv (ts', ls @ [l])"
proof -
  from inv have ok: "leases_ok ts"
    and act: "ts_activeLeases ts = map (\<lambda>l. (l_id l, l_turn l)) (filter (\<lambda>l. l_id l \<notin> set (ts_released ts)) ls)"
    and rel: "set (ts_released ts) \<subseteq> l_id ` set ls"
    by (auto simp: lease_inv_def)
  have fresh: "i \<notin> fst ` set (ts_activeLeases ts)" using new by (auto simp: act)
  have l: "l_id l = i" and upd: "ts_activeLeases ts' = AList.update i (l_turn l) (ts_activeLeases ts)"
    using acq by (auto simp: acquire_Inr)
  have "i \<notin> set (ts_released ts')" using rel new acquire_released [OF acq] by auto
  moreover have "ts_activeLeases ts' = ts_activeLeases ts @ [(i, l_turn l)]"
    using upd filter_AList_update_new [OF fresh] by simp
  ultimately show ?thesis
    using inv leases_ok_acquire [OF ok fresh acq] acquire_released [OF acq] l new
    by (auto simp: lease_inv_def)
qed

lemma delete_lease:
  "AList.delete i (map (\<lambda>l. (l_id l, l_turn l)) ls) = map (\<lambda>l. (l_id l, l_turn l)) (filter (\<lambda>l. l_id l \<noteq> i) ls)"
  by (induction ls) auto

lemma lease_inv_held:
  assumes "lease_inv (ts, ls)" "l \<in> set ls" "l_id l \<notin> set (ts_released ts)"
  shows "map_of (ts_activeLeases ts) (l_id l) = Some (l_turn l) \<and> lease_key (l_turn l) = l_key l"
proof -
  have "distinct (map fst (ts_activeLeases ts))" and "(l_id l, l_turn l) \<in> set (ts_activeLeases ts)"
    using assms by (auto simp: lease_inv_def leases_ok_def)
  then show ?thesis using assms by (auto simp: lease_inv_def)
qed

lemma lease_inv_release:
  assumes inv: "lease_inv (ts, ls)" and l: "l \<in> set ls" and rel: "release l ts = (woken, ts')"
  shows "lease_inv (ts', ls)"
proof (cases "l_id l \<in> set (ts_released ts)")
  case True
  then show ?thesis using inv rel release_again [of l ts] by simp
next
  case False
  note held = lease_inv_held [OF inv l False]
  have ok: "leases_ok ts" using inv by (simp add: lease_inv_def)
  have ok': "leases_ok ts'"
    using release_active [OF ok False conjunct1 [OF held] conjunct2 [OF held] rel] by simp
  have f: "ts_released ts' = l_id l # ts_released ts" "ts_activeLeases ts' = AList.delete (l_id l) (ts_activeLeases ts)"
    using release_fields [OF False _ rel] held by auto
  have "filter (\<lambda>x. l_id x \<noteq> l_id l) (filter (\<lambda>x. l_id x \<notin> set (ts_released ts)) ls) =
      filter (\<lambda>x. l_id x \<notin> set (ts_released ts')) ls"
    unfolding filter_filter f by (rule filter_cong) auto
  then show ?thesis using inv ok' f l by (simp add: lease_inv_def delete_lease image_iff) auto
qed

lemma lease_inv_step: "lease_step s t \<Longrightarrow> lease_inv s \<Longrightarrow> lease_inv t"
proof (induction rule: lease_step.induct)
  case (ls_wait ts tid uid go ts' ls)
  then show ?case
    using wait_fields [OF ls_wait(1)] leases_ok_waitForLeases [of ts tid uid go ts']
    by (auto simp: lease_inv_def)
qed (auto intro: lease_inv_acquire lease_inv_release)

definition no_leases :: "turn_service \<Rightarrow> bool" where
  "no_leases ts \<longleftrightarrow> ts_activeLeases ts = [] \<and> ts_leaseCounts ts = [] \<and> ts_leaseWaiters ts = [] \<and>
     ts_released ts = []"

interpretation leases: invariant_system "\<lambda>s. no_leases (fst s) \<and> snd s = []" lease_step lease_inv
proof
  show "no_leases (fst s) \<and> snd s = [] \<Longrightarrow> lease_inv s" for s
    by (cases s) (auto simp: no_leases_def lease_inv_def leases_ok_def lease_count_def active_leases_def)
  show "lease_step s t \<Longrightarrow> lease_inv s \<Longrightarrow> lease_inv t" for s t by (rule lease_inv_step)
qed

lemma lease_inv_waiters:
  assumes "lease_inv (ts, ls)" "key \<in> set (ts_leaseWaiters ts)"
  shows "open_leases (ts, ls) key \<noteq> []"
proof -
  have "0 < lease_count ts key" using assms unfolding lease_inv_def leases_ok_def by blast
  then show ?thesis by (simp add: lease_inv_count [OF assms(1)])
qed

end
