(* ===== verification/Bytes.thy ===== *)
theory Bytes
  imports Domain "HOL-Library.Word"
begin

text \<open>
  Bytes and big-endian numbers, as Node's \<open>Buffer\<close> reads and writes them: \<open>writeUInt32BE\<close>,
  \<open>readUInt32BE\<close>, \<open>writeBigUInt64BE\<close> and \<open>readBigUInt64BE\<close>, which throw outside their range.
\<close>

type_synonym byte = "8 word"

fun be_bytes :: "nat \<Rightarrow> nat \<Rightarrow> byte list" where
  "be_bytes 0 n = []"
| "be_bytes (Suc k) n = be_bytes k (n div 256) @ [word_of_nat n]"

definition be_nat :: "byte list \<Rightarrow> nat" where
  "be_nat bs = foldl (\<lambda>acc b. acc * 256 + unat b) 0 bs"

definition out_of_range :: js_error where
  "out_of_range = PlainError ''ERR_OUT_OF_RANGE''"

definition u32 :: "int \<Rightarrow> byte list res" where
  "u32 n = (if 0 \<le> n \<and> n < 2 ^ 32 then Inr (be_bytes 4 (nat n)) else Inl out_of_range)"

definition u64 :: "int \<Rightarrow> byte list res" where
  "u64 n = (if 0 \<le> n \<and> n < 2 ^ 64 then Inr (be_bytes 8 (nat n)) else Inl out_of_range)"

lemma length_be_bytes [simp]: "length (be_bytes k n) = k"
  by (induction k arbitrary: n) simp_all

lemma be_nat_Nil [simp]: "be_nat [] = 0"
  by (simp add: be_nat_def)

lemma be_nat_snoc [simp]: "be_nat (bs @ [b]) = be_nat bs * 256 + unat b"
  by (simp add: be_nat_def)

lemma unat_byte: "unat (word_of_nat n :: byte) = n mod 256"
  by (simp add: unat_of_nat)

lemma be_nat_be_bytes: "be_nat (be_bytes k n) = n mod 256 ^ k"
proof (induction k arbitrary: n)
  case (Suc k)
  have "n div 256 mod 256 ^ k * 256 + n mod 256 = n mod (256 * 256 ^ k)"
    by (simp add: mod_mult2_eq mult.commute)
  then show ?case using Suc by (simp add: unat_byte)
qed simp

lemma be_nat_less: "be_nat bs < 256 ^ length bs"
proof (induction bs rule: rev_induct)
  case (snoc b bs)
  have "unat b < 256" using unsigned_less [of b] by simp
  with snoc show ?case by simp
qed simp

lemma be_bytes_be_nat: "be_bytes (length bs) (be_nat bs) = bs"
proof (induction bs rule: rev_induct)
  case (snoc b bs)
  have lt: "unat b < 256" using unsigned_less [of b] by simp
  have "(be_nat bs * 256 + unat b) div 256 = be_nat bs" using lt by simp
  moreover have "word_of_nat (be_nat bs * 256 + unat b) = b"
  proof -
    have "unat (word_of_nat (be_nat bs * 256 + unat b) :: byte) = unat b"
      unfolding unat_byte using lt by simp
    then show ?thesis by (simp only: word_unat_eq_iff)
  qed
  ultimately show ?case using snoc by simp
qed simp

lemma u32_Inr: "u32 n = Inr bs \<longleftrightarrow> 0 \<le> n \<and> n < 2 ^ 32 \<and> bs = be_bytes 4 (nat n)"
  by (auto simp: u32_def)

lemma u64_Inr: "u64 n = Inr bs \<longleftrightarrow> 0 \<le> n \<and> n < 2 ^ 64 \<and> bs = be_bytes 8 (nat n)"
  by (auto simp: u64_def)

lemma be_nat_u32: "n < 2 ^ 32 \<Longrightarrow> be_nat (be_bytes 4 n) = n"
  by (simp add: be_nat_be_bytes)

lemma be_nat_u64: "n < 2 ^ 64 \<Longrightarrow> be_nat (be_bytes 8 n) = n"
  by (simp add: be_nat_be_bytes)

lemma be_bytes_inject: "n < 256 ^ k \<Longrightarrow> m < 256 ^ k \<Longrightarrow> be_bytes k n = be_bytes k m \<longleftrightarrow> n = m"
  by (metis be_nat_be_bytes mod_less)

end
