(* ===== verification/Frames.thy ===== *)
theory Frames
  imports Bytes
begin

text \<open>
  The connection to the guest agent: frames (\<open>src/agent-protocol.ts\<close>), the writer that hands them
  to a socket that may take part of a buffer, and the channel that cuts the byte stream coming
  back into frames and gives each to the oldest request that waits
  (\<open>src/backends/agent-transport.ts\<close>).

  \<open>JSON.stringify\<close> with the UTF-8 encoding, and the decoding with \<open>JSON.parse\<close>, which may throw,
  are the arguments \<open>stringify\<close> and \<open>parse\<close>.
\<close>

section \<open>Frames\<close>

definition encodeAgentFrame :: "('q \<Rightarrow> byte list) \<Rightarrow> 'q \<Rightarrow> byte list res" where
  "encodeAgentFrame stringify message =
     (let payload = stringify message
      in bind_res (u32 (int (length payload))) (\<lambda>header. Inr (header @ payload)))"

definition decodeAgentFrame :: "(byte list \<Rightarrow> 'p res) \<Rightarrow> byte list \<Rightarrow> 'p res" where
  "decodeAgentFrame parse frame =
     (if length frame < 4 then Inl (PlainError ''Agent frame is truncated'')
      else if be_nat (take 4 frame) \<noteq> length frame - 4
      then Inl (PlainError ''Agent frame length mismatch'')
      else parse (drop 4 frame))"

section \<open>The writer\<close>

text \<open>
  A socket's \<open>write\<close> answers how many bytes it took, zero or less when it takes none now. The
  answers of one \<open>flush\<close> are a list, with 0 once it is used up; the bytes taken are returned.
\<close>

record frame_writer =
  fw_socket :: bool
  fw_frames :: "byte list list"
  fw_offset :: nat

definition new_writer :: frame_writer where
  "new_writer = \<lparr>fw_socket = False, fw_frames = [], fw_offset = 0\<rparr>"

fun flush_loop :: "int list \<Rightarrow> byte list list \<Rightarrow> nat \<Rightarrow> byte list \<times> byte list list \<times> nat" where
  "flush_loop answers [] offset = ([], [], offset)"
| "flush_loop [] (f # fs) offset = ([], f # fs, offset)"
| "flush_loop (written # answers) (f # fs) offset =
     (let data = drop offset f in
      if written \<le> 0 then ([], f # fs, offset)
      else if offset + nat written < length f then (take (nat written) data, f # fs, offset + nat written)
      else (let (taken, fs', offset') = flush_loop answers fs 0
            in (take (nat written) data @ taken, fs', offset')))"

definition flush :: "int list \<Rightarrow> frame_writer \<Rightarrow> byte list \<times> frame_writer" where
  "flush answers w =
     (if \<not> fw_socket w then ([], w)
      else (let (taken, fs, offset) = flush_loop answers (fw_frames w) (fw_offset w)
            in (taken, w\<lparr>fw_frames := fs, fw_offset := offset\<rparr>)))"

definition attach :: "frame_writer \<Rightarrow> frame_writer" where
  "attach w = w\<lparr>fw_socket := True\<rparr>"

definition write_frame :: "int list \<Rightarrow> byte list \<Rightarrow> frame_writer \<Rightarrow> (byte list \<times> frame_writer) res" where
  "write_frame answers frame w =
     (if \<not> fw_socket w then Inl (PlainError ''Agent socket is unavailable'')
      else Inr (flush answers (w\<lparr>fw_frames := fw_frames w @ [frame]\<rparr>)))"

definition drain :: "int list \<Rightarrow> frame_writer \<Rightarrow> byte list \<times> frame_writer" where
  "drain answers w = flush answers w"

definition clear :: "frame_writer \<Rightarrow> frame_writer" where
  "clear w = \<lparr>fw_socket = False, fw_frames = [], fw_offset = 0\<rparr>"

section \<open>The channel\<close>

text \<open>
  A request is named by a number; \<open>ch_settled\<close> lists the promises resolved (\<open>Inr\<close>) or rejected
  (\<open>Inl\<close>) so far, in order, and \<open>ch_closeCalls\<close> counts the calls of \<open>closeChannel\<close>.
\<close>

record 'p channel =
  ch_buffer :: "byte list"
  ch_pending :: "nat list"
  ch_closed :: bool
  ch_settled :: "(nat \<times> 'p res) list"
  ch_closeCalls :: nat

definition new_channel :: "'p channel" where
  "new_channel = \<lparr>ch_buffer = [], ch_pending = [], ch_closed = False, ch_settled = [], ch_closeCalls = 0\<rparr>"

definition max_frame :: nat where "max_frame = 2 * 1024 * 1024"

definition reject_all :: "js_error \<Rightarrow> 'p channel \<Rightarrow> 'p channel" where
  "reject_all e ch = ch\<lparr>ch_pending := [],
     ch_settled := ch_settled ch @ map (\<lambda>p. (p, Inl e)) (ch_pending ch)\<rparr>"

definition fail :: "js_error \<Rightarrow> 'p channel \<Rightarrow> 'p channel" where
  "fail e ch = (if ch_closed ch then ch else reject_all e (ch\<lparr>ch_closed := True\<rparr>))"

definition close_channel :: "'p channel \<Rightarrow> 'p channel" where
  "close_channel ch =
     (if ch_closed ch then ch
      else reject_all (PlainError ''Guest agent transport closed'')
        (ch\<lparr>ch_closed := True, ch_closeCalls := ch_closeCalls ch + 1\<rparr>))"

function push_loop :: "(byte list \<Rightarrow> 'p res) \<Rightarrow> 'p channel \<Rightarrow> 'p channel" where
  "push_loop parse ch =
     (if length (ch_buffer ch) < 4 then ch
      else
        (let len = be_nat (take 4 (ch_buffer ch)) in
         if len > max_frame then fail (PlainError ''Guest agent frame exceeds limit'') ch
         else if length (ch_buffer ch) < len + 4 then ch
         else
           (let frame = take (len + 4) (ch_buffer ch);
                ch1 = ch\<lparr>ch_buffer := drop (len + 4) (ch_buffer ch)\<rparr>
            in case ch_pending ch1 of
                 [] \<Rightarrow> fail (PlainError ''Guest agent sent an unsolicited response'') ch1
               | p # ps \<Rightarrow> push_loop parse (ch1\<lparr>ch_pending := ps,
                   ch_settled := ch_settled ch1 @ [(p, decodeAgentFrame parse frame)]\<rparr>))))"
  by pat_completeness auto
termination
  by (relation "measure (\<lambda>(parse, ch). length (ch_buffer ch))") auto

declare push_loop.simps [simp del]

definition push :: "(byte list \<Rightarrow> 'p res) \<Rightarrow> 'p channel \<Rightarrow> byte list \<Rightarrow> 'p channel" where
  "push parse ch chunk =
     (if ch_closed ch then ch else push_loop parse (ch\<lparr>ch_buffer := ch_buffer ch @ chunk\<rparr>))"

text \<open>\<open>request\<close>: \<open>writeFrame\<close> may throw, and then only this request is rejected.\<close>

definition request :: "('q \<Rightarrow> byte list) \<Rightarrow> (byte list \<Rightarrow> unit res) \<Rightarrow> nat \<Rightarrow> 'q \<Rightarrow> 'p channel \<Rightarrow> 'p channel" where
  "request stringify writeFrame i message ch =
     (if ch_closed ch
      then ch\<lparr>ch_settled := ch_settled ch @
        [(i, Inl (service_err BACKEND_ERROR ''Guest agent transport is closed''))]\<rparr>
      else (case bind_res (encodeAgentFrame stringify message) writeFrame of
          Inr _ \<Rightarrow> ch\<lparr>ch_pending := ch_pending ch @ [i]\<rparr>
        | Inl e \<Rightarrow> ch\<lparr>ch_settled := ch_settled ch @ [(i, Inl e)]\<rparr>))"

section \<open>Frames round-trip\<close>

lemma encodeAgentFrame_Inr:
  "encodeAgentFrame stringify m = Inr f \<longleftrightarrow>
     length (stringify m) < 2 ^ 32 \<and> f = be_bytes 4 (length (stringify m)) @ stringify m"
  by (auto simp: encodeAgentFrame_def Let_def bind_res_Inr u32_Inr)

lemma decode_encode:
  "encodeAgentFrame stringify m = Inr f \<Longrightarrow> decodeAgentFrame parse f = parse (stringify m)"
  by (auto simp: encodeAgentFrame_Inr decodeAgentFrame_def be_nat_u32)

section \<open>The writer loses and repeats nothing\<close>

definition unsent :: "frame_writer \<Rightarrow> byte list" where
  "unsent w = drop (fw_offset w) (concat (fw_frames w))"

fun offset_ok :: "byte list list \<Rightarrow> nat \<Rightarrow> bool" where
  "offset_ok [] offset = (offset = 0)"
| "offset_ok (f # fs) offset = (offset \<le> length f)"

lemma offset_ok_0 [simp]: "offset_ok fs 0"
  by (cases fs) simp_all

definition writer_ok :: "frame_writer \<Rightarrow> bool" where
  "writer_ok w \<longleftrightarrow> offset_ok (fw_frames w) (fw_offset w)"

lemma flush_loop_conserves:
  assumes "offset_ok fs offset"
    and "flush_loop answers fs offset = (taken, fs', offset')"
  shows "taken @ drop offset' (concat fs') = drop offset (concat fs) \<and> offset_ok fs' offset'"
  using assms
proof (induction answers fs offset arbitrary: taken fs' offset' rule: flush_loop.induct)
  case (3 written answers f fs offset)
  consider "written \<le> 0" | "0 < written" "offset + nat written < length f"
    | "0 < written" "length f \<le> offset + nat written" by linarith
  then show ?case
  proof cases
    case 1
    then show ?thesis using "3.prems" by auto
  next
    case 2
    then have "taken = take (nat written) (drop offset f)" "fs' = f # fs" "offset' = offset + nat written"
      using "3.prems"(2) by (simp_all add: Let_def)
    moreover have "take (nat written) (drop offset f) @ drop (offset + nat written) f = drop offset f"
      by (metis append_take_drop_id drop_drop add.commute)
    ultimately show ?thesis using 2 "3.prems"(1) by simp
  next
    case 3
    obtain taken1 fs1 offset1 where rest: "flush_loop answers fs 0 = (taken1, fs1, offset1)"
      by (metis prod.exhaust)
    note IH = "3.IH" [OF refl _ _ offset_ok_0 rest]
    have "taken = drop offset f @ taken1" "fs' = fs1" "offset' = offset1"
      using "3.prems"(2) 3 rest by (auto simp: Let_def)
    then show ?thesis using IH 3 "3.prems"(1) by simp
  qed
qed auto

lemma flush_conserves:
  assumes "writer_ok w" "flush answers w = (taken, w')"
  shows "taken @ unsent w' = unsent w \<and> writer_ok w' \<and> fw_socket w' = fw_socket w"
proof (cases "fw_socket w")
  case True
  obtain t fs offset where run: "flush_loop answers (fw_frames w) (fw_offset w) = (t, fs, offset)"
    by (metis prod.exhaust)
  then show ?thesis
    using assms True flush_loop_conserves [OF _ run]
    by (auto simp: flush_def unsent_def writer_ok_def)
next
  case False
  then show ?thesis using assms by (simp add: flush_def)
qed

text \<open>A run of an attached writer: frames written and drains, with the socket's answers.\<close>

datatype writer_op = W_write "byte list" "int list" | W_drain "int list"

fun written_frame :: "writer_op \<Rightarrow> byte list" where
  "written_frame (W_write f as) = f"
| "written_frame (W_drain as) = []"

fun writer_step :: "writer_op \<Rightarrow> frame_writer \<Rightarrow> byte list \<times> frame_writer" where
  "writer_step (W_write f as) w = (case write_frame as f w of Inl _ \<Rightarrow> ([], w) | Inr r \<Rightarrow> r)"
| "writer_step (W_drain as) w = drain as w"

fun writer_run :: "writer_op list \<Rightarrow> frame_writer \<Rightarrow> byte list \<times> frame_writer" where
  "writer_run [] w = ([], w)"
| "writer_run (x # xs) w =
     (let (t1, w1) = writer_step x w; (t2, w2) = writer_run xs w1 in (t1 @ t2, w2))"

lemma unsent_append:
  "writer_ok w \<Longrightarrow> unsent (w\<lparr>fw_frames := fw_frames w @ [f]\<rparr>) = unsent w @ f \<and>
   writer_ok (w\<lparr>fw_frames := fw_frames w @ [f]\<rparr>)"
  by (cases "fw_frames w") (auto simp: unsent_def writer_ok_def)

lemma writer_run_conserves:
  assumes "writer_ok w" "fw_socket w" "writer_run xs w = (taken, w')"
  shows "taken @ unsent w' = unsent w @ concat (map written_frame xs) \<and> writer_ok w' \<and> fw_socket w'"
  using assms
proof (induction xs arbitrary: w taken)
  case (Cons x xs)
  obtain t1 w1 where s: "writer_step x w = (t1, w1)" by force
  obtain t2 where r: "writer_run xs w1 = (t2, w')" and t: "taken = t1 @ t2"
    using Cons.prems(3) s by (auto split: prod.splits)
  have one: "t1 @ unsent w1 = unsent w @ written_frame x \<and> writer_ok w1 \<and> fw_socket w1"
  proof (cases x)
    case (W_write f as)
    then have "flush as (w\<lparr>fw_frames := fw_frames w @ [f]\<rparr>) = (t1, w1)"
      using s Cons.prems(2) by (simp add: write_frame_def)
    from flush_conserves [OF _ this] unsent_append [OF Cons.prems(1), of f] Cons.prems(2)
    show ?thesis using W_write by simp
  next
    case (W_drain as)
    then have "flush as w = (t1, w1)" using s by (simp add: drain_def)
    from flush_conserves [OF Cons.prems(1) this] Cons.prems(2) show ?thesis using W_drain by simp
  qed
  then have IH: "t2 @ unsent w' = unsent w1 @ concat (map written_frame xs) \<and> writer_ok w' \<and> fw_socket w'"
    using Cons.IH r by blast
  have "taken @ unsent w' = (t1 @ unsent w1) @ concat (map written_frame xs)" using IH t by simp
  also have "\<dots> = unsent w @ concat (map written_frame (x # xs))" using one by simp
  finally show ?case using IH by simp
qed simp

section \<open>The cuts of the stream do not matter\<close>

text \<open>A closed channel never reads its buffer again; \<open>settle\<close> forgets it.\<close>

definition settle :: "'p channel \<Rightarrow> 'p channel" where
  "settle ch = (if ch_closed ch then ch\<lparr>ch_buffer := []\<rparr> else ch)"

definition feed_channel :: "(byte list \<Rightarrow> 'p res) \<Rightarrow> 'p channel \<Rightarrow> byte list \<Rightarrow> 'p channel" where
  "feed_channel parse ch chunk = settle (push parse ch chunk)"

lemma fail_simps [simp]:
  "ch_closed (fail e ch)" "ch_pending (fail e ch) = (if ch_closed ch then ch_pending ch else [])"
  by (simp_all add: fail_def reject_all_def)

lemma fail_buffer: "\<not> ch_closed ch \<Longrightarrow> fail e (ch\<lparr>ch_buffer := b\<rparr>) = (fail e ch)\<lparr>ch_buffer := b\<rparr>"
  by (simp add: fail_def reject_all_def)

lemma push_loop_append:
  assumes "\<not> ch_closed ch"
  shows "settle (push_loop parse (ch\<lparr>ch_buffer := ch_buffer ch @ ys\<rparr>)) =
    (let ch' = push_loop parse ch in
     if ch_closed ch' then settle ch' else settle (push_loop parse (ch'\<lparr>ch_buffer := ch_buffer ch' @ ys\<rparr>)))"
  using assms
proof (induction parse ch rule: push_loop.induct)
  case (1 parse ch)
  let ?len = "be_nat (take 4 (ch_buffer ch))"
  consider (short) "length (ch_buffer ch) < 4"
    | (limit) "4 \<le> length (ch_buffer ch)" "max_frame < ?len"
    | (partial) "4 \<le> length (ch_buffer ch)" "?len \<le> max_frame" "length (ch_buffer ch) < ?len + 4"
    | (full) "4 \<le> length (ch_buffer ch)" "?len \<le> max_frame" "?len + 4 \<le> length (ch_buffer ch)"
    by linarith
  then show ?case
  proof cases
    case short
    then have "push_loop parse ch = ch" by (simp add: push_loop.simps [of parse ch])
    then show ?thesis using "1.prems" by simp
  next
    case limit
    then have l: "push_loop parse ch = fail (PlainError ''Guest agent frame exceeds limit'') ch"
      by (simp add: push_loop.simps [of parse ch] Let_def)
    have "push_loop parse (ch\<lparr>ch_buffer := ch_buffer ch @ ys\<rparr>) =
        fail (PlainError ''Guest agent frame exceeds limit'') (ch\<lparr>ch_buffer := ch_buffer ch @ ys\<rparr>)"
      using limit by (subst push_loop.simps) (simp add: Let_def)
    then show ?thesis using l "1.prems" by (simp add: settle_def fail_buffer)
  next
    case partial
    then have "push_loop parse ch = ch" by (simp add: push_loop.simps [of parse ch] Let_def)
    then show ?thesis using "1.prems" by simp
  next
    case full
    let ?ch1 = "ch\<lparr>ch_buffer := drop (?len + 4) (ch_buffer ch)\<rparr>"
    show ?thesis
    proof (cases "ch_pending ch")
      case Nil
      then have l: "push_loop parse ch = fail (PlainError ''Guest agent sent an unsolicited response'') ?ch1"
        using full by (simp add: push_loop.simps [of parse ch] Let_def)
      have "push_loop parse (ch\<lparr>ch_buffer := ch_buffer ch @ ys\<rparr>) =
          fail (PlainError ''Guest agent sent an unsolicited response'')
            (ch\<lparr>ch_buffer := drop (?len + 4) (ch_buffer ch) @ ys\<rparr>)"
        using full Nil by (subst push_loop.simps) (simp add: Let_def)
      then show ?thesis using l "1.prems" by (simp add: settle_def fail_buffer)
    next
      case (Cons p ps)
      let ?ch2 = "?ch1\<lparr>ch_pending := ps, ch_settled := ch_settled ch @
        [(p, decodeAgentFrame parse (take (?len + 4) (ch_buffer ch)))]\<rparr>"
      have l: "push_loop parse ch = push_loop parse ?ch2"
        using full Cons by (subst push_loop.simps) (simp add: Let_def)
      have r: "push_loop parse (ch\<lparr>ch_buffer := ch_buffer ch @ ys\<rparr>) =
          push_loop parse (?ch2\<lparr>ch_buffer := ch_buffer ?ch2 @ ys\<rparr>)"
      proof -
        have same: "ch\<lparr>ch_buffer := b, ch_pending := ps, ch_settled := s\<rparr> =
            ch\<lparr>ch_pending := ps, ch_settled := s, ch_buffer := b\<rparr>" for b s
          by (cases ch) simp
        show ?thesis using full Cons by (subst push_loop.simps) (simp add: Let_def same)
      qed
      have "settle (push_loop parse (?ch2\<lparr>ch_buffer := ch_buffer ?ch2 @ ys\<rparr>)) =
        (let ch' = push_loop parse ?ch2 in
         if ch_closed ch' then settle ch' else settle (push_loop parse (ch'\<lparr>ch_buffer := ch_buffer ch' @ ys\<rparr>)))"
        using "1.IH" [OF _ refl _ _ refl refl, of p ps] full Cons "1.prems" by simp
      then show ?thesis unfolding l r .
    qed
  qed
qed

lemma feed_channel_append:
  "feed_channel parse (feed_channel parse ch xs) ys = feed_channel parse ch (xs @ ys)"
proof (cases "ch_closed ch")
  case True
  then show ?thesis by (simp add: feed_channel_def push_def settle_def)
next
  case False
  let ?ch = "ch\<lparr>ch_buffer := ch_buffer ch @ xs\<rparr>"
  have "settle (push_loop parse (?ch\<lparr>ch_buffer := ch_buffer ?ch @ ys\<rparr>)) =
    (let ch' = push_loop parse ?ch in
     if ch_closed ch' then settle ch' else settle (push_loop parse (ch'\<lparr>ch_buffer := ch_buffer ch' @ ys\<rparr>)))"
    by (rule push_loop_append) (simp add: False)
  then show ?thesis using False
    by (simp add: feed_channel_def push_def Let_def settle_def)
qed

interpretation frames: chunk_consumer "feed_channel parse" "\<lambda>_. True" for parse
  by unfold_locales (simp_all add: feed_channel_append)

section \<open>Responses go to requests in order\<close>

definition frame_of :: "byte list \<Rightarrow> byte list" where
  "frame_of payload = be_bytes 4 (length payload) @ payload"

lemma push_loop_frames:
  assumes "\<not> ch_closed ch" "ch_buffer ch = concat (map frame_of ps)"
    and "\<And>p. p \<in> set ps \<Longrightarrow> length p \<le> max_frame" "length ps \<le> length (ch_pending ch)"
  shows "push_loop parse ch = ch\<lparr>ch_buffer := [], ch_pending := drop (length ps) (ch_pending ch),
    ch_settled := ch_settled ch @ zip (ch_pending ch) (map parse ps)\<rparr>"
  using assms
proof (induction ps arbitrary: ch)
  case Nil
  then show ?case by (cases ch) (simp add: push_loop.simps [of parse])
next
  case (Cons p ps)
  from Cons.prems(4) obtain i rest where i: "ch_pending ch = i # rest" by (cases "ch_pending ch") auto
  have len: "length p \<le> max_frame" using Cons.prems(3) by simp
  then have n: "be_nat (be_bytes 4 (length p)) = length p"
    by (intro be_nat_u32) (simp add: max_frame_def)
  have buf: "ch_buffer ch = be_bytes 4 (length p) @ p @ concat (map frame_of ps)"
    using Cons.prems(2) unfolding list.map concat.simps frame_of_def [of p] by simp
  have "push_loop parse ch = push_loop parse (ch\<lparr>ch_buffer := concat (map frame_of ps), ch_pending := rest,
      ch_settled := ch_settled ch @ [(i, parse p)]\<rparr>)"
    using i len n by (subst push_loop.simps) (simp add: buf Let_def decodeAgentFrame_def)
  also have "\<dots> = ch\<lparr>ch_buffer := [], ch_pending := drop (length ps) rest,
      ch_settled := (ch_settled ch @ [(i, parse p)]) @ zip rest (map parse ps)\<rparr>"
    using Cons.prems i by (subst Cons.IH) simp_all
  finally show ?case using i by simp
qed

section \<open>Every request is settled once\<close>

text \<open>The steps of a channel and the number of requests made so far.\<close>

inductive channel_step :: "('q \<Rightarrow> byte list) \<Rightarrow> (byte list \<Rightarrow> 'p res) \<Rightarrow> 'p channel \<times> nat \<Rightarrow> 'p channel \<times> nat \<Rightarrow> bool"
  for stringify :: "'q \<Rightarrow> byte list" and parse :: "byte list \<Rightarrow> 'p res" where
  step_request: "channel_step stringify parse (ch, n) (request stringify writeFrame n message ch, Suc n)"
| step_push: "channel_step stringify parse (ch, n) (push parse ch chunk, n)"
| step_fail: "channel_step stringify parse (ch, n) (fail e ch, n)"
| step_close: "channel_step stringify parse (ch, n) (close_channel ch, n)"

inductive_cases channel_stepE: "channel_step stringify parse (ch, n) (ch', n')"

definition channel_inv :: "'p channel \<times> nat \<Rightarrow> bool" where
  "channel_inv s \<longleftrightarrow> (case s of (ch, n) \<Rightarrow>
     distinct (ch_pending ch @ map fst (ch_settled ch)) \<and>
     set (ch_pending ch @ map fst (ch_settled ch)) = {..<n} \<and>
     (ch_closed ch \<longrightarrow> ch_pending ch = []))"

text \<open>Settling moves requests from the pending to the settled, and keeps the rest of the invariant.\<close>

definition moves :: "'p channel \<Rightarrow> 'p channel \<Rightarrow> bool" where
  "moves ch ch' \<longleftrightarrow> (\<exists>ps. ch_pending ch = ps @ ch_pending ch' \<and>
     map fst (ch_settled ch') = map fst (ch_settled ch) @ ps) \<and>
     (ch_closed ch' \<longrightarrow> ch_pending ch' = [] \<or> ch_closed ch)"

lemma moves_inv:
  assumes mv: "moves ch ch'" and inv: "channel_inv (ch, n)"
  shows "channel_inv (ch', n)"
proof -
  from mv obtain ps where p: "ch_pending ch = ps @ ch_pending ch'"
    and s: "map fst (ch_settled ch') = map fst (ch_settled ch) @ ps"
    and c: "ch_closed ch' \<longrightarrow> ch_pending ch' = [] \<or> ch_closed ch" by (auto simp: moves_def)
  have ids: "distinct (ps @ q @ t) \<Longrightarrow> set (ps @ q @ t) = {..<n} \<Longrightarrow>
      distinct (q @ t @ ps) \<and> set (q @ t @ ps) = {..<n}" for q t :: "nat list"
    by auto
  have "distinct (ps @ ch_pending ch' @ map fst (ch_settled ch))"
    "set (ps @ ch_pending ch' @ map fst (ch_settled ch)) = {..<n}"
    using inv unfolding channel_inv_def prod.case p by simp_all
  from ids [OF this] show ?thesis
    using inv c p unfolding channel_inv_def prod.case s by auto
qed

lemma moves_refl: "moves ch ch"
  by (simp add: moves_def)

lemma moves_reject: "moves ch (reject_all e (ch\<lparr>ch_closed := True, ch_closeCalls := k\<rparr>))"
  "moves ch (reject_all e (ch\<lparr>ch_closed := True\<rparr>))"
  by (simp_all add: moves_def reject_all_def o_def)

lemma moves_fail: "moves ch (fail e ch)"
  by (simp add: fail_def moves_refl moves_reject)

lemma moves_close: "moves ch (close_channel ch)"
  by (simp add: close_channel_def moves_refl moves_reject)

lemma moves_push_loop: "\<not> ch_closed ch \<Longrightarrow> moves ch (push_loop parse ch)"
proof (induction parse ch rule: push_loop.induct)
  case (1 parse ch)
  let ?len = "be_nat (take 4 (ch_buffer ch))"
  let ?ch1 = "ch\<lparr>ch_buffer := drop (?len + 4) (ch_buffer ch)\<rparr>"
  have buf: "moves ch ch'" if "moves ?ch1 ch'" for ch'
    using that by (simp add: moves_def)
  show ?case
  proof (cases "4 \<le> length (ch_buffer ch) \<and> ?len \<le> max_frame \<and> ?len + 4 \<le> length (ch_buffer ch)")
    case False
    then show ?thesis
      by (subst push_loop.simps) (auto simp: Let_def moves_refl moves_fail)
  next
    case full: True
    show ?thesis
    proof (cases "ch_pending ch")
      case Nil
      then have "push_loop parse ch = fail (PlainError ''Guest agent sent an unsolicited response'') ?ch1"
        using full by (subst push_loop.simps) (simp add: Let_def)
      then show ?thesis using buf [OF moves_fail] by simp
    next
      case (Cons p ps)
      let ?ch2 = "?ch1\<lparr>ch_pending := ps, ch_settled := ch_settled ch @
        [(p, decodeAgentFrame parse (take (?len + 4) (ch_buffer ch)))]\<rparr>"
      have "push_loop parse ch = push_loop parse ?ch2"
        using full Cons by (subst push_loop.simps) (simp add: Let_def)
      moreover have "moves ?ch2 (push_loop parse ?ch2)"
        using "1.IH" [OF _ refl _ _ refl refl, of p ps] full Cons "1.prems" by simp
      ultimately show ?thesis using Cons by (auto simp: moves_def)
    qed
  qed
qed

lemma moves_push: "moves ch (push parse ch chunk)"
proof (cases "ch_closed ch")
  case False
  then have "moves (ch\<lparr>ch_buffer := ch_buffer ch @ chunk\<rparr>) (push_loop parse (ch\<lparr>ch_buffer := ch_buffer ch @ chunk\<rparr>))"
    by (intro moves_push_loop) simp
  then show ?thesis using False by (simp add: push_def moves_def)
qed (simp add: push_def moves_refl)

lemma channel_inv_request:
  "channel_inv (ch, n) \<Longrightarrow> channel_inv (request stringify writeFrame n message ch, Suc n)"
  by (auto simp: channel_inv_def request_def lessThan_Suc split: sum.splits)

interpretation channels: invariant_system "\<lambda>s. s = (new_channel, 0)" "channel_step stringify parse" channel_inv
  for stringify parse
proof
  show "s = (new_channel, 0) \<Longrightarrow> channel_inv s" for s
    by (simp add: channel_inv_def new_channel_def)
  fix s t assume "channel_step stringify parse s t" and "channel_inv s"
  then show "channel_inv t"
    by (induction rule: channel_step.induct)
      (blast intro: channel_inv_request moves_inv [OF moves_push] moves_inv [OF moves_fail]
         moves_inv [OF moves_close])+
qed

end
