(* ===== verification/Examples.thy ===== *)
theory Examples
  imports Recovery_Inv Frames
begin

text \<open>
  Concrete states and environments on which the properties are instantiated: a database with one
  thread, its workspace and one durable turn in a chosen state, an environment in which every
  call succeeds, and variants of it in which one call fails.
\<close>

lemma pred_option_code [code]: "pred_option P None \<longleftrightarrow> True" "pred_option P (Some x) \<longleftrightarrow> P x"
  by simp_all

text \<open>Reading off what a concrete run returned, and a first step from an initial state.\<close>

lemma run_ok: "is_ok (fst p) \<Longrightarrow> \<exists>x d'. p = (Inr x, d')"
  by (cases p; cases "fst p") auto

lemma run_error: "\<not> is_ok (fst p) \<Longrightarrow> \<exists>e d'. p = (Inl e, d')"
  by (cases p; cases "fst p") auto

lemma reach_first: "I s \<Longrightarrow> R s t \<Longrightarrow> reach I R t"
  by (rule reach_step [OF reach_init])

section \<open>Digests\<close>

definition dg :: "char \<Rightarrow> digest" where
  "dg c = ''sha256:'' @ replicate 64 c"

lemma dg_simps [simp]:
  "dg c = dg c' \<longleftrightarrow> c = c'" "dg c \<noteq> []" "length (dg c) = 71" "starts_with ''sha256:'' (dg c)"
  "dg c ! 7 = c" "truthy (Some (dg c)) = Some (dg c)"
  by (auto simp: dg_def numeral_eq_Suc)

lemma commit_id_check_dg [simp]: "commit_id_check (dg c) \<longleftrightarrow> is_hex c"
  by (simp add: commit_id_check_def)

lemma is_hex_examples [simp]:
  "is_hex (CHR ''a'')" "is_hex (CHR ''b'')" "is_hex (CHR ''c'')" "is_hex (CHR ''d'')" "is_hex (CHR ''e'')"
  by (simp_all add: is_hex_def)

section \<open>The environment\<close>

definition demo_tree :: tree_row where
  "demo_tree = \<lparr>tr_digest = dg (CHR ''d''), tr_path = ''/data/objects/trees/sha256/d'', tr_sizeBytes = 100\<rparr>"

definition demo_handle :: backend_handle where
  "demo_handle = \<lparr>h_backend = Docker, h_instanceId = ''i1'', h_opaqueId = ''box'', h_workspacePath = ''/w''\<rparr>"

definition demo_ex :: externals where
  "demo_ex = \<lparr>ex_preflight = (\<lambda>_. Inr \<lparr>hp_available = True, hp_reason = None\<rparr>),
     ex_mkdir = (\<lambda>_. Inr ()), ex_materialize = (\<lambda>_ _. Inr ()),
     ex_create = (\<lambda>b i w _ _. Inr \<lparr>h_backend = b, h_instanceId = i, h_opaqueId = ''box'', h_workspacePath = w\<rparr>),
     ex_snapshot = (\<lambda>_ _ _. Inr \<lparr>sn_workspacePath = ''/w'', sn_cfsPath = None, sn_treeDigest = None\<rparr>),
     ex_ingest = (\<lambda>_ _ _. Inr demo_tree), ex_export = (\<lambda>_ _. Inr demo_tree),
     ex_rm = (\<lambda>_. Inr ()), ex_destroy = (\<lambda>_ _. Inr ()), ex_sha256 = (\<lambda>_. replicate 64 (CHR ''b''))\<rparr>"

definition no_snapshot_ex :: externals where
  "no_snapshot_ex = demo_ex\<lparr>ex_snapshot := (\<lambda>_ _ _. Inl (PlainError ''guest agent timed out''))\<rparr>"

definition no_destroy_ex :: externals where
  "no_destroy_ex = demo_ex\<lparr>ex_destroy := (\<lambda>_ _. Inl (PlainError ''container is stuck''))\<rparr>"

definition no_backend_ex :: externals where
  "no_backend_ex = demo_ex\<lparr>ex_preflight := (\<lambda>_. Inr \<lparr>hp_available = False, hp_reason = None\<rparr>)\<rparr>"

definition demo_sb :: sandbox_service where
  "demo_sb = \<lparr>sb_dataDir = ''/data'', sb_emptyCommit = Some (dg (CHR ''a''))\<rparr>"

section \<open>The database\<close>

definition demo_commit :: commit_row where
  "demo_commit = \<lparr>c_id = dg (CHR ''a''), c_treeDigest = dg (CHR ''e''),
     c_contractDigest = EMPTY_CONTRACT_DIGEST, c_parentId = None\<rparr>"

definition demo_instance :: "instance_state \<Rightarrow> instance_row" where
  "demo_instance s = \<lparr>i_id = ''i1'', i_kind = Durable, i_backend = Docker, i_state = s,
     i_workspaceId = Some ''w1'', i_baseCommit = dg (CHR ''a''), i_backendHandle = Some demo_handle,
     i_workspacePath = ''/data/instances/i1/workspace'', i_resourceProfile = DEFAULT_RESOURCE_PROFILE,
     i_network = Net_none, i_lastError = None\<rparr>"

definition demo_request :: turn_request where
  "demo_request = \<lparr>q_mode = Durable, q_backend = None, q_network = None, q_resourceProfile = None\<rparr>"

definition demo_turn :: "turn_state \<Rightarrow> turn_row" where
  "demo_turn s = \<lparr>t_threadId = ''alice'', t_turnId = ''t1'', t_mode = Durable, t_state = s,
     t_instanceId = Some ''i1'', t_workspaceId = Some ''w1'', t_expectedHead = Some (dg (CHR ''a'')),
     t_requestJson = demo_request, t_resultJson = None, t_errorJson = None, t_createdAt = 1,
     t_finishedAt = None\<rparr>"

definition demo_db :: "turn_state \<Rightarrow> instance_state \<Rightarrow> db" where
  "demo_db s i = \<lparr>db_workspaces = [''w1''],
     db_threadWorkspaces = [\<lparr>tw_threadId = ''alice'', tw_workspaceId = ''w1''\<rparr>],
     db_commits = [demo_commit],
     db_refs = [\<lparr>rf_workspaceId = ''w1'', rf_name = ''main'', rf_headCommit = dg (CHR ''a'')\<rparr>],
     db_treeObjects = [\<lparr>tr_digest = dg (CHR ''e''), tr_path = ''/data/objects/trees/sha256/e'', tr_sizeBytes = 10\<rparr>],
     db_instances = [demo_instance i], db_turns = [demo_turn s], db_operations = [],
     db_artifacts = [], db_grants = []\<rparr>"

definition demo_start :: start_input where
  "demo_start = \<lparr>si_threadId = ''alice'', si_turnId = ''t2'', si_mode = Durable, si_backend = None,
     si_network = None, si_resourceProfile = None\<rparr>"

definition demo_service :: turn_service where
  "demo_service = \<lparr>ts_activeLeases = [], ts_leaseCounts = [], ts_leaseWaiters = [], ts_released = [],
     ts_startPromises = [], ts_finishPromises = [], ts_closing = False, ts_defaultBackend = Docker\<rparr>"

lemmas demo_defs = demo_db_def demo_turn_def demo_instance_def demo_commit_def demo_tree_def
  demo_handle_def demo_request_def

lemmas demo_env = demo_ex_def no_snapshot_ex_def no_destroy_ex_def no_backend_ex_def demo_sb_def
  demo_service_def demo_start_def

lemma demo_db_ok [simp]: "db_ok (demo_db s i)"
  by (simp add: demo_defs db_ok_def thread_workspaces_ok_def commits_ok_def refs_ok_def trees_ok_def
      instances_ok_def one_active_turn_def turns_ok_def operations_ok_def artifacts_ok_def
      commit_ids_def instance_ids_def)

lemma demo_db_lookups [simp]:
  "turn_at (demo_db s i) (TurnKey ''alice'' ''t1'') = Some (demo_turn s)"
  "getInstance (demo_db s i) ''i1'' = Some (demo_instance i)"
  "getTurn (demo_db s i) ''alice'' ''t1'' = Some (demo_turn s)"
  "getThreadWorkspace (demo_db s i) ''alice'' = Some \<lparr>tw_threadId = ''alice'', tw_workspaceId = ''w1''\<rparr>"
  "getRef (demo_db s i) ''w1'' ''main'' =
     Some \<lparr>rf_workspaceId = ''w1'', rf_name = ''main'', rf_headCommit = dg (CHR ''a'')\<rparr>"
  by (simp_all add: demo_defs turn_at_def turn_key_def getInstance_def getTurn_def turnRecord_def
      getThreadWorkspace_def getRef_def)

lemma demo_commitDigest [simp]: "commitDigest (ex_sha256 demo_ex) c t p = dg (CHR ''b'')"
  by (simp add: commitDigest_def digest_of_def demo_ex_def dg_def)

section \<open>Sessions\<close>

definition demo_execution :: execution_handle where
  "demo_execution = \<lparr>xh_backend = Docker, xh_instanceId = ''i1'', xh_executionId = ''e1'',
     xh_opaqueId = ''p1'', xh_tty = False\<rparr>"

definition demo_session :: session where
  "demo_session = \<lparr>s_id = ''s1'', s_instanceId = ''i1'', s_execution = demo_execution,
     s_cwd = ''/workspace'', s_tty = False, s_cursor = 0, s_lastUsedAt = 0, s_expiresAt = 1000,
     s_active = True\<rparr>"

definition demo_sessions :: session_manager where
  "demo_sessions = \<lparr>sm_sessions = [demo_session], sm_closingInstances = [], sm_maxOutputBytes = 4096\<rparr>"

definition demo_result :: "execution_state \<Rightarrow> string \<Rightarrow> execution_result" where
  "demo_result s out = \<lparr>xr_state = s, xr_exitCode = None, xr_output = out, xr_startedAt = 0,
     xr_finishedAt = None, xr_originalBytes = None, xr_outputOmittedBytes = None\<rparr>"

definition demo_be :: session_backend where
  "demo_be = \<lparr>be_exec = (\<lambda>_ _ _. Inr demo_execution),
     be_poll = (\<lambda>_ _ _ _. Inr (demo_result X_COMPLETED ''hello'')),
     be_write = (\<lambda>_ _ _. Inr ()), be_kill = (\<lambda>_ _ _. Inr ())\<rparr>"

lemmas demo_session_defs = demo_sessions_def demo_session_def demo_execution_def demo_be_def demo_result_def

lemma demo_sessions_ok [simp]: "sessions_ok demo_sessions"
  by (simp add: sessions_ok_def demo_session_defs session_limit_def)

end
