(* ===== verification/Props_Turns.thy ===== *)
theory Props_Turns
  imports System Examples
begin

text \<open>
  The properties of the turn service: what starting, leasing, finishing and forking promise, each
  followed by a concrete run at which it applies.
\<close>

section \<open>Finishing\<close>

text \<open>How a finished turn leaves the database: \<open>x\<close> is what the client is told.\<close>

definition finish_effect :: "externals \<Rightarrow> turn_row \<Rightarrow> db \<Rightarrow> turn_view res \<Rightarrow> db \<Rightarrow> bool" where
  "finish_effect ex r d x d' \<longleftrightarrow> db_ok d' \<and> (case x of
      Inl e \<Rightarrow> turn_failed_with d (TurnKey (t_threadId r) (t_turnId r)) e d'
    | Inr v \<Rightarrow> turn_in d' (TurnKey (t_threadId r) (t_turnId r)) T_FINISHED \<and> w_state v = T_FINISHED \<and>
        (if t_mode r = Instant then db_refs d' = db_refs d \<and> db_commits d' = db_commits d
         else \<exists>wid head tree. t_workspaceId r = Some wid \<and> t_expectedHead r = Some head \<and>
           w_headCommit v = Some (commit_of ex head tree) \<and>
           head_advanced d wid ''main'' head (tr_digest tree) (commit_of ex head tree) d'))"

text \<open>C1: when the finish of a turn succeeds the turn is FINISHED, and for a durable turn the
  main ref of its workspace has moved from the turn's expected head to exactly the commit
  reported to the client, which exists; an instant turn leaves refs and commits alone. When it
  fails, the turn is FAILED with that error stored, and no ref and no commit has changed. Either
  way the database constraints hold.\<close>

theorem finish_publishes_or_fails_cleanly:
  assumes "db_ok d" "turn_at d (TurnKey (t_threadId r) (t_turnId r)) \<noteq> None"
    and "finishOpen ex sb (closer be now sm) r now' d = (x, d')"
  shows "finish_effect ex r d x d'"
  using sessions.finishOpen_outcome [OF assms] unfolding finish_effect_def .

lemma finish_publishes_or_fails_cleanly_witness:
  "(\<exists>v d'. finishOpen demo_ex demo_sb (closer demo_be 5 demo_sessions) (demo_turn T_FINISHING) 9
      (demo_db T_FINISHING I_RUNNING) = (Inr v, d') \<and>
      finish_effect demo_ex (demo_turn T_FINISHING) (demo_db T_FINISHING I_RUNNING) (Inr v) d') \<and>
   (\<exists>e d'. finishOpen no_snapshot_ex demo_sb (closer demo_be 5 demo_sessions) (demo_turn T_FINISHING) 9
      (demo_db T_FINISHING I_RUNNING) = (Inl e, d') \<and>
      finish_effect no_snapshot_ex (demo_turn T_FINISHING) (demo_db T_FINISHING I_RUNNING) (Inl e) d')"
proof -
  have at: "turn_at (demo_db T_FINISHING I_RUNNING)
    (TurnKey (t_threadId (demo_turn T_FINISHING)) (t_turnId (demo_turn T_FINISHING))) \<noteq> None"
    by (simp add: demo_turn_def [of T_FINISHING])
  have "is_ok (fst (finishOpen demo_ex demo_sb (closer demo_be 5 demo_sessions)
      (demo_turn T_FINISHING) 9 (demo_db T_FINISHING I_RUNNING)))" by code_simp
  moreover have "\<not> is_ok (fst (finishOpen no_snapshot_ex demo_sb (closer demo_be 5 demo_sessions)
      (demo_turn T_FINISHING) 9 (demo_db T_FINISHING I_RUNNING)))" by code_simp
  ultimately show ?thesis
    using run_ok run_error finish_publishes_or_fails_cleanly [OF demo_db_ok at] by blast
qed

section \<open>Publication\<close>

definition ref_at :: "publish_input \<Rightarrow> string \<times> string" where
  "ref_at p = (p_workspaceId p, p_ref p)"

definition publish_key :: "publish_input \<Rightarrow> turn_key" where
  "publish_key p = TurnKey (p_threadId p) (p_turnId p)"

lemma publish_head_of:
  assumes "publishTurnCommit p d = Inr (True, d')"
  shows "head_of d' w n = (if (w, n) = ref_at p \<and> head_of d w n = Some (p_expectedHead p)
    then Some (p_commitId p) else head_of d w n)"
proof -
  have "getRef d' w n = map_option (\<lambda>r. if ref_matches p r then r\<lparr>rf_headCommit := p_commitId p\<rparr> else r) (getRef d w n)"
    using publish_True [OF assms] unfolding getRef_def
    by (simp, intro select1_update_where) simp
  then show ?thesis
    by (cases "getRef d w n") (auto simp: head_of_def ref_at_def ref_matches_def getRef_def dest!: select1_Some)
qed

lemma publish_turns:
  assumes "publishTurnCommit p d = Inr (True, d')" "k \<noteq> publish_key p"
  shows "turn_at d' k = turn_at d k"
proof -
  have "turn_at d' k = map_option (\<lambda>r. if turn_matches p r then finish_row p r else r) (turn_at d k)"
    using publish_True [OF assms(1)] unfolding turn_at_def
    by (simp, intro select1_update_where) simp
  then show ?thesis using assms(2)
    by (cases "turn_at d k") (auto simp: turn_matches_def publish_key_def turn_key_def dest!: turn_at_Some)
qed

lemma publish_refused:
  assumes "db_ok d" "publishTurnCommit p d = Inr (False, d')"
  shows "d' = d \<and> head_of d (p_workspaceId p) (p_ref p) \<noteq> Some (p_expectedHead p)"
proof -
  obtain d1 where "insert_commit (publish_commit_row p) (putTreeObject (p_tree p) d) = Inr d1"
    and "select1 (ref_matches p) (db_refs d1) = None" and "d' = d"
    using assms(2) by (auto simp: publishTurnCommit_def publish_commit_row_def res_simps split: if_splits)
  then show ?thesis
    using insert_commit_tables(1) [of "publish_commit_row p" "putTreeObject (p_tree p) d" d1]
    by (auto simp: table_simps head_of_def ref_matches_def getRef_def dest!: select1_Some)
qed

text \<open>C2: a publication is atomic and compares before it swaps. Where it is refused the
  database is unchanged and the ref did not point at the expected head; where it happens, the ref
  pointed at the expected head and points at the new commit, the finishing turn bound to this
  runtime, workspace and head is FINISHED, and no other ref and no other turn has changed.\<close>

theorem publish_compare_and_swap:
  assumes ok: "db_ok d" and run: "publishTurnCommit p d = Inr (b, d')"
  shows "if b
    then head_of d (p_workspaceId p) (p_ref p) = Some (p_expectedHead p) \<and>
      head_of d' (p_workspaceId p) (p_ref p) = Some (p_commitId p) \<and> commit_exists d' (p_commitId p) \<and>
      (\<forall>w n. (w, n) \<noteq> ref_at p \<longrightarrow> head_of d' w n = head_of d w n) \<and>
      (\<exists>r. turn_at d (publish_key p) = Some r \<and> turn_matches p r \<and>
        turn_at d' (publish_key p) = Some (finish_row p r)) \<and>
      (\<forall>k. k \<noteq> publish_key p \<longrightarrow> turn_at d' k = turn_at d k)
    else d' = d \<and> head_of d (p_workspaceId p) (p_ref p) \<noteq> Some (p_expectedHead p)"
proof (cases b)
  case True
  with run have pub: "publishTurnCommit p d = Inr (True, d')" by simp
  obtain r where "r \<in> set (db_refs d)" "ref_matches p r" using publish_cases [OF pub] by blast
  then have "head_of d (p_workspaceId p) (p_ref p) = Some (p_expectedHead p)"
    using getRef_iff [OF ok, of "p_workspaceId p" "p_ref p" r] by (simp add: head_of_def ref_matches_def)
  then show ?thesis
    using True publish_head_of [OF pub] publish_turn_at [OF ok pub] publish_turns [OF pub] publish_True [OF pub]
    by (simp add: ref_at_def publish_key_def commit_exists_def)
next
  case False
  then show ?thesis using publish_refused [OF ok] run by simp
qed

definition demo_commit_input :: "commit_input" where
  "demo_commit_input = finish_commit_input (\<lambda>_. replicate 64 (CHR ''b'')) (demo_turn T_FINISHING) ''i1'' ''w1'' (dg (CHR ''a''))"

definition demo_publish :: publish_input where
  "demo_publish = commit_publish_input demo_commit_input (dg (CHR ''b'')) demo_tree 9"

lemma demo_publish_runs:
  "\<exists>d'. publishTurnCommit demo_publish (demo_db T_FINISHING I_COMMITTING) = Inr (True, d')"
proof -
  have "(case publishTurnCommit demo_publish (demo_db T_FINISHING I_COMMITTING) of
      Inl e \<Rightarrow> False | Inr (b, d') \<Rightarrow> b)" by code_simp
  then show ?thesis by (auto split: sum.splits)
qed

lemma publish_compare_and_swap_witness:
  "\<exists>d'. head_of d' ''w1'' ''main'' = Some (dg (CHR ''b'')) \<and>
    publishTurnCommit demo_publish (demo_db T_FINISHING I_COMMITTING) = Inr (True, d')"
proof -
  obtain d' where run: "publishTurnCommit demo_publish (demo_db T_FINISHING I_COMMITTING) = Inr (True, d')"
    using demo_publish_runs by blast
  show ?thesis using publish_compare_and_swap [OF demo_db_ok run] run
    by (auto simp: demo_publish_def commit_publish_input_def demo_commit_input_def finish_commit_input_def)
qed

lemma parent_step_append:
  "c_id r \<notin> c_id ` set cs \<Longrightarrow> a \<in> c_id ` set cs \<Longrightarrow> parent_step (cs @ [r]) a b \<longleftrightarrow> parent_step cs a b"
  by (auto simp: parent_step_def parent_of_def select1_append split: option.splits dest: select1_ex [where P = "\<lambda>x. c_id x = a"])

lemma descends_append:
  assumes new: "c_id r \<notin> c_id ` set cs" and a: "a \<in> c_id ` set cs" and ok: "commits_ok cs"
  shows "descends (cs @ [r]) a c \<longleftrightarrow> descends cs a c"
proof -
  have closed: "y \<in> c_id ` set cs" if "parent_step cs x y" for x y
    using that ok by (auto simp: parent_step_def parent_of_def commits_ok_def split: Option.bind_splits dest!: select1_Some)
  have "descends cs a c \<and> c \<in> c_id ` set cs" if "descends (cs @ [r]) a c"
    using that a by (induction rule: rtranclp_induct)
      (auto simp: parent_step_append [OF new] intro: rtranclp.rtrancl_into_rtrancl closed)
  moreover have "descends (cs @ [r]) a c \<and> c \<in> c_id ` set cs" if "descends cs a c"
    using that a by (induction rule: rtranclp_induct)
      (auto simp: parent_step_append [OF new] intro: rtranclp.rtrancl_into_rtrancl closed)
  ultimately show ?thesis by blast
qed

lemma commit_id_check_nonempty: "commit_id_check c \<Longrightarrow> c \<noteq> []"
  by (auto simp: commit_id_check_def)

lemma parent_step_new:
  "c_id r \<notin> c_id ` set cs \<Longrightarrow> parent_step (cs @ [r]) (c_id r) b \<longleftrightarrow> truthy (c_parentId r) = Some b"
  by (auto simp: parent_step_def parent_of_def select1_append image_iff split: option.splits dest!: select1_Some)

text \<open>C11: publishing a new commit extends the history of its parent by that commit and loses
  nothing: exactly the new commit and what belonged to the parent's history belong to the
  history of the new head.\<close>

theorem publish_extends_history:
  assumes ok: "db_ok d" and run: "publishTurnCommit p d = Inr (True, d')"
    and new: "\<not> commit_exists d (p_commitId p)"
  shows "commitBelongsToHistory d' (p_commitId p) c \<longleftrightarrow>
    c = p_commitId p \<or> commitBelongsToHistory d (p_parentId p) c"
proof -
  let ?row = "publish_commit_row p" and ?cs = "db_commits d"
  from publish_cases [OF run] obtain d1 where ins: "insert_commit ?row (putTreeObject (p_tree p) d) = Inr d1"
    by blast
  have check: "commit_id_check (p_commitId p)" and
    parent: "commit_exists d (p_parentId p) \<or> p_parentId p = p_commitId p"
    using ins new by (auto simp: insert_commit_def publish_commit_row_def split: if_splits)
  have cs: "db_commits d' = ?cs @ [?row]" using publish_True [OF run] new by simp
  have fresh: "c_id ?row \<notin> c_id ` set ?cs" using new by (simp add: commit_exists_def commit_ids_def)
  have cok: "commits_ok ?cs" using ok by (simp add: db_ok_def)
  have ne: "p_commitId p \<noteq> []" using check by (rule commit_id_check_nonempty)
  have pne: "p_parentId p \<noteq> []"
    using parent cok check commit_id_check_nonempty
    by (fastforce simp: commit_exists_def commit_ids_def commits_ok_def)
  have step: "parent_step (db_commits d') (p_commitId p) b \<longleftrightarrow> b = p_parentId p" for b
    using parent_step_new [OF fresh, of b] pne by (auto simp: cs publish_commit_row_def)
  have new_desc: "descends (db_commits d') (p_commitId p) c \<longleftrightarrow>
      c = p_commitId p \<or> descends (db_commits d') (p_parentId p) c"
    using descends_cases [of "db_commits d'" "p_commitId p" c] by (auto simp: step)
  have "c = p_commitId p \<or> descends (db_commits d') (p_parentId p) c \<longleftrightarrow>
      c = p_commitId p \<or> descends ?cs (p_parentId p) c"
  proof (cases "commit_exists d (p_parentId p)")
    case True
    then show ?thesis using descends_append [OF fresh _ cok] by (simp add: cs commit_exists_def commit_ids_def)
  next
    case False
    then have self: "p_parentId p = p_commitId p" using parent by simp
    have "descends (db_commits d') (p_commitId p) c \<Longrightarrow> c = p_commitId p"
      by (induction rule: rtranclp_induct) (auto simp: step self)
    moreover have "descends ?cs (p_commitId p) c \<Longrightarrow> c = p_commitId p"
      using fresh parent_step_source by (fastforce elim: converse_rtranclpE)
    ultimately show ?thesis by (auto simp: self)
  qed
  then show ?thesis by (simp add: commitBelongsToHistory_iff ne pne new_desc)
qed

lemma publish_extends_history_witness:
  "\<exists>d'. commitBelongsToHistory d' (p_commitId demo_publish) (dg (CHR ''a'')) \<and>
    \<not> commitBelongsToHistory (demo_db T_FINISHING I_COMMITTING) (dg (CHR ''a'')) (dg (CHR ''b''))"
proof -
  obtain d' where run: "publishTurnCommit demo_publish (demo_db T_FINISHING I_COMMITTING) = Inr (True, d')"
    using demo_publish_runs by blast
  have "\<not> commit_exists (demo_db T_FINISHING I_COMMITTING) (p_commitId demo_publish)"
    "commitBelongsToHistory (demo_db T_FINISHING I_COMMITTING) (p_parentId demo_publish) (dg (CHR ''a''))"
    "\<not> commitBelongsToHistory (demo_db T_FINISHING I_COMMITTING) (dg (CHR ''a'')) (dg (CHR ''b''))"
    by code_simp+
  then show ?thesis using publish_extends_history [OF demo_db_ok run] by blast
qed

section \<open>Starting\<close>

definition start_key :: "start_input \<Rightarrow> turn_key" where
  "start_key inp = TurnKey (si_threadId inp) (si_turnId inp)"

definition may_start :: "turn_service \<Rightarrow> start_input \<Rightarrow> bool" where
  "may_start ts inp \<longleftrightarrow> \<not> ts_closing ts \<and> valid_identifier (si_threadId inp) \<and> valid_identifier (si_turnId inp)"

lemma start_begin_new:
  assumes "turn_at d (start_key inp) = None" "start_begin ts inp now d = (Some r, ts', d')"
  shows "\<not> is_ok r"
  using assms by (auto simp: start_begin_def Let_def getTurn_at start_key_def split: if_splits sum.splits option.splits)

text \<open>C4: a successful start of a turn that did not exist leaves the turn OPEN on a runtime that
  is READY and has a backend handle and the requested kind, and gives the client that turn. A
  durable turn is bound to a workspace, the runtime was made from the workspace's main head, and
  that head is the turn's expected head.\<close>

theorem started_turn_is_bound:
  assumes ok: "db_ok d" and new: "turn_at d (start_key inp) = None"
    and run: "start ex sb inp iid wuuid now now' ts d = (Inr v, ts', d')"
  shows "\<exists>r row. opened d' inp iid r row \<and> v = view (turnRecord r)"
proof -
  obtain x ts1 d1 where b: "start_begin ts inp now d = (x, ts1, d1)" by (metis prod_cases3)
  have x: "x = None"
    using run start_begin_new [OF new, of ts now _ ts1 d1] b by (cases x) (fastforce simp: start_def)+
  then have "startCreated ex sb ts1 inp iid wuuid now' d1 = (Inr v, d')"
    using run b by (auto simp: start_def split: prod.splits)
  then show ?thesis using startCreated_success db_ok_start_begin [OF ok b] by blast
qed

lemma demo_start_runs:
  "\<exists>v ts' d'. start demo_ex demo_sb demo_start ''i2'' ''w2'' 1 2 demo_service (demo_db T_FINISHED I_TERMINATED) = (Inr v, ts', d')"
proof -
  have "is_ok (fst (start demo_ex demo_sb demo_start ''i2'' ''w2'' 1 2 demo_service (demo_db T_FINISHED I_TERMINATED)))"
    by code_simp
  then show ?thesis by (metis prod_cases3 fst_conv run_ok prod.inject)
qed

lemma demo_start_new: "turn_at (demo_db s i) (start_key demo_start) = None"
  by (simp add: start_key_def demo_start_def turn_at_def demo_defs turn_key_def)

lemma started_turn_is_bound_witness:
  "\<exists>v ts' d' r row. start demo_ex demo_sb demo_start ''i2'' ''w2'' 1 2 demo_service
     (demo_db T_FINISHED I_TERMINATED) = (Inr v, ts', d') \<and> opened d' demo_start ''i2'' r row"
proof -
  obtain v ts' d' where run: "start demo_ex demo_sb demo_start ''i2'' ''w2'' 1 2 demo_service
      (demo_db T_FINISHED I_TERMINATED) = (Inr v, ts', d')" using demo_start_runs by blast
  show ?thesis using started_turn_is_bound [OF demo_db_ok demo_start_new run] run by blast
qed

text \<open>C8: starting is idempotent. After a successful start, the same request again, with any
  environment, clock and fresh ids, returns the same turn and changes neither the service nor the
  database.\<close>

theorem start_is_idempotent:
  assumes "db_ok d" "start ex sb inp iid wuuid now now' ts d = (Inr v, ts', d')"
  shows "start ex' sb' inp iid' wuuid' now2 now2' ts' d' = (Inr v, ts', d')"
  using start_twice [OF assms] .

lemma start_is_idempotent_witness:
  "\<exists>v ts' d'. start no_backend_ex demo_sb demo_start ''i3'' ''w3'' 7 8 ts' d' = (Inr v, ts', d') \<and>
     start demo_ex demo_sb demo_start ''i2'' ''w2'' 1 2 demo_service (demo_db T_FINISHED I_TERMINATED) = (Inr v, ts', d')"
proof -
  obtain v ts' d' where run: "start demo_ex demo_sb demo_start ''i2'' ''w2'' 1 2 demo_service
      (demo_db T_FINISHED I_TERMINATED) = (Inr v, ts', d')" using demo_start_runs by blast
  show ?thesis using start_is_idempotent [OF demo_db_ok run] run by blast
qed

text \<open>A start on a thread whose turn exists already, or that has another active turn,
  changes nothing. An existing turn is returned only for the same request, and only when it is
  OPEN or FINISHED; a different request, a failed turn and a turn in transition are errors; and
  another active turn of the thread makes the thread busy.\<close>

lemma start_refused_without_effect:
  assumes "may_start ts inp" "turn_at d (start_key inp) \<noteq> None \<or> getOpenTurn d (si_threadId inp) \<noteq> None"
    and run: "start ex sb inp iid wuuid now now' ts d = (x, ts', d')"
  shows "ts' = ts \<and> d' = d \<and> (case turn_at d (start_key inp) of
      Some r \<Rightarrow>
        (if t_requestJson r \<noteq> normalizedRequest inp
         then x = Inl (service_err INVALID_ARGUMENT ''Turn ID was already used with a different request'')
         else if t_state r \<in> {T_OPEN, T_FINISHED} then x = Inr (view (turnRecord r)) else \<not> is_ok x)
    | None \<Rightarrow> (\<exists>active. getOpenTurn d (si_threadId inp) = Some active \<and> x = Inl (thread_busy active)))"
proof (cases "turn_at d (start_key inp)")
  case None
  then have "getTurn d (si_threadId inp) (si_turnId inp) = None" by (simp add: getTurn_at start_key_def)
  moreover obtain active where "getOpenTurn d (si_threadId inp) = Some active" using assms(2) None by auto
  ultimately show ?thesis using assms(1) run None
    by (simp add: start_def start_begin_def Let_def may_start_def validateIdentifier_def)
next
  case (Some r)
  have "start ex sb inp iid wuuid now now' ts d = (existingStart (turnRecord r) (normalizedRequest inp), ts, d)"
    using start_existing [of ts inp d r] assms(1) Some by (simp add: may_start_def start_key_def)
  then show ?thesis using run Some
    by (auto simp: existingStart_def split: turn_state.splits if_splits)
qed

lemma start_refused_without_effect_witness:
  "\<exists>active. start demo_ex demo_sb demo_start ''i2'' ''w2'' 1 2 demo_service (demo_db T_OPEN I_READY) =
     (Inl (thread_busy active), demo_service, demo_db T_OPEN I_READY)"
proof -
  have "may_start demo_service demo_start" "getOpenTurn (demo_db T_OPEN I_READY) (si_threadId demo_start) \<noteq> None"
    by code_simp+
  moreover obtain x ts' d' where "start demo_ex demo_sb demo_start ''i2'' ''w2'' 1 2 demo_service (demo_db T_OPEN I_READY) = (x, ts', d')"
    by (metis prod_cases3)
  ultimately show ?thesis
    using start_refused_without_effect [of demo_service demo_start "demo_db T_OPEN I_READY" demo_ex demo_sb "''i2''" "''w2''" 1 2 x ts' d']
    by (auto simp: demo_start_new)
qed

text \<open>C40: a start whose runtime is never created is not recorded as failed: writing FAILED
  together with the id of the instance that does not exist breaks a foreign key, the client gets
  that database error, and the turn stays STARTING.\<close>

theorem start_without_runtime_stays_starting:
  assumes ok: "db_ok d" and b: "start_begin ts inp now d = (None, ts1, d1)"
    and q: "start_request sb ts1 inp iid wuuid d1 = (Inr (q, upd), d2)"
    and c: "createTurnRuntime ex sb q d2 = (Inl e, d2)" and iid: "iid \<notin> instance_ids d2"
  shows "start ex sb inp iid wuuid now now' ts d = (Inl fk_failed, start_end inp ts1, d2) \<and>
    turn_in d2 (start_key inp) T_STARTING"
proof -
  have "createTurn (new_turn_row (si_threadId inp) (si_turnId inp) T_STARTING (normalizedRequest inp) now) d = Inr d1"
    using start_begin_None [OF b] by simp
  then have "turn_at d1 (start_key inp) =
      Some (new_turn_row (si_threadId inp) (si_turnId inp) T_STARTING (normalizedRequest inp) now)"
    using createTurn_at by (simp add: start_key_def)
  moreover have "db_turns d2 = db_turns d1"
    using db_ok_start_request [OF db_ok_start_begin [OF ok b] q] by simp
  ultimately have at: "turn_in d2 (start_key inp) T_STARTING"
    using turn_at_cong [of d2 d1] by (simp add: turn_in_def)
  then have "start_failed ex sb inp iid False e now' d2 = (Inl fk_failed, d2)"
    by (intro start_failed_without_instance iid) (auto simp: turn_in_def start_key_def)
  then show ?thesis using at by (simp add: start_def startCreated_def b q c)
qed

lemma start_without_runtime_stays_starting_witness:
  "\<exists>ts' d'. start no_backend_ex demo_sb demo_start ''i2'' ''w2'' 1 2 demo_service
     (demo_db T_FINISHED I_TERMINATED) = (Inl fk_failed, ts', d') \<and> turn_in d' (start_key demo_start) T_STARTING"
proof -
  let ?d = "demo_db T_FINISHED I_TERMINATED"
  obtain x ts1 d1 where b: "start_begin demo_service demo_start 1 ?d = (x, ts1, d1)" by (metis prod_cases3)
  obtain y d2 where q: "start_request demo_sb ts1 demo_start ''i2'' ''w2'' d1 = (y, d2)" by force
  have "case start_begin demo_service demo_start 1 ?d of (x, ts1, d1) \<Rightarrow> x = None \<and>
      (case start_request demo_sb ts1 demo_start ''i2'' ''w2'' d1 of (y, d2) \<Rightarrow>
         (case y of Inl e \<Rightarrow> False | Inr (q, upd) \<Rightarrow>
            (case createTurnRuntime no_backend_ex demo_sb q d2 of (z, d3) \<Rightarrow> \<not> is_ok z \<and> d3 = d2) \<and> ''i2'' \<notin> instance_ids d2))"
    by code_simp
  then have x: "x = None" and "case y of Inl e \<Rightarrow> False | Inr (q, upd) \<Rightarrow>
      (case createTurnRuntime no_backend_ex demo_sb q d2 of (z, d3) \<Rightarrow> \<not> is_ok z \<and> d3 = d2) \<and> ''i2'' \<notin> instance_ids d2"
    by (simp_all add: b q)
  then obtain qq upd e where "y = Inr (qq, upd)" "createTurnRuntime no_backend_ex demo_sb qq d2 = (Inl e, d2)"
    "''i2'' \<notin> instance_ids d2"
    by (cases y) (auto simp: is_ok_def split: sum.splits prod.splits)
  then show ?thesis
    using start_without_runtime_stays_starting [OF demo_db_ok b [unfolded x], of demo_sb "''i2''" "''w2''" qq upd d2 no_backend_ex e 2] q
    by blast
qed

section \<open>Interleaved handlers\<close>

text \<open>C3: whatever the requests, the answers of the backends and the interleaving of the
  handlers' segments, the database satisfies every constraint of the schema, and a thread has at
  most one turn that is STARTING, OPEN or FINISHING.\<close>

theorem database_invariant:
  assumes "reach (\<lambda>d. d = empty_db) daemon_step d"
  shows "db_ok d \<and> (\<forall>r\<in>set (db_turns d). \<forall>r'\<in>set (db_turns d).
    t_threadId r = t_threadId r' \<longrightarrow> active_state (t_state r) \<longrightarrow> active_state (t_state r') \<longrightarrow> r = r')"
proof -
  have ok: "db_ok d" by (rule daemon.reach_inv [OF assms])
  show ?thesis
  proof (intro conjI ballI impI)
    fix r r' assume "r \<in> set (db_turns d)" "r' \<in> set (db_turns d)" "t_threadId r = t_threadId r'"
      "active_state (t_state r)" "active_state (t_state r')"
    then show "r = r'" by (rule active_turn_unique [OF ok])
  qed (rule ok)
qed

lemma database_invariant_witness:
  "\<exists>d. reach (\<lambda>d. d = empty_db) daemon_step d \<and> db_ok d \<and> db_turns d \<noteq> []"
proof -
  obtain x ts d1 where b: "start_begin demo_service demo_start 1 empty_db = (x, ts, d1)" by (metis prod_cases3)
  have "db_turns (snd (snd (start_begin demo_service demo_start 1 empty_db))) \<noteq> []" by code_simp
  moreover have "reach (\<lambda>d. d = empty_db) daemon_step d1"
    by (rule reach_first [where R = daemon_step, OF _ ds_start_begin [OF b]]) simp
  ultimately show ?thesis using database_invariant [of d1] b by auto
qed

section \<open>Leases\<close>

text \<open>C5: in every reachable state of the lease table the count kept for a turn is the number of
  leases handed out for it and not yet released, whichever leases are released twice or out of
  order, and a finish waits for a turn only while it has such a lease.\<close>

theorem lease_counts_are_exact:
  assumes "reach (\<lambda>s. no_leases (fst s) \<and> snd s = []) lease_step (ts, ls)"
  shows "lease_count ts key = length (open_leases (ts, ls) key) \<and>
    (key \<in> set (ts_leaseWaiters ts) \<longrightarrow> open_leases (ts, ls) key \<noteq> [])"
  using leases.reach_inv [OF assms] lease_inv_count lease_inv_waiters by blast

lemma demo_acquire:
  "\<exists>l ts'. acquire demo_service (demo_db T_OPEN I_READY) ''alice'' ''t1'' ''l1'' = Inr (l, ts') \<and> l_id l = ''l1'' \<and>
     l_key l = turnKey ''alice'' ''t1''"
proof -
  have "(case acquire demo_service (demo_db T_OPEN I_READY) ''alice'' ''t1'' ''l1'' of Inl e \<Rightarrow> False
      | Inr (l, ts') \<Rightarrow> l_id l = ''l1'' \<and> l_key l = turnKey ''alice'' ''t1'')"
    by code_simp
  then show ?thesis by (auto split: sum.splits)
qed

lemma lease_counts_are_exact_witness:
  "\<exists>ts l. lease_count ts (turnKey ''alice'' ''t1'') = 1 \<and>
     reach (\<lambda>s. no_leases (fst s) \<and> snd s = []) lease_step (ts, [l])"
proof -
  obtain l ts' where acq: "acquire demo_service (demo_db T_OPEN I_READY) ''alice'' ''t1'' ''l1'' = Inr (l, ts')"
    and l: "l_id l = ''l1''" "l_key l = turnKey ''alice'' ''t1''" using demo_acquire by blast
  have init: "reach (\<lambda>s. no_leases (fst s) \<and> snd s = []) lease_step (demo_service, [])"
    by (rule reach_init) (simp add: no_leases_def demo_service_def)
  have step: "lease_step (demo_service, []) (ts', [l])"
    using ls_acquire [OF acq, of "[]"] by simp
  have "ts_released ts' = []" using acquire_released [OF acq] by (simp add: demo_service_def)
  then show ?thesis
    using lease_counts_are_exact [OF reach_step [OF init step], of "turnKey ''alice'' ''t1''"] reach_step [OF init step] l
    by (auto simp: open_leases_def)
qed

text \<open>C9: releasing a lease takes it out of the table and lowers the count of its turn by one and
  of no other turn; it wakes the finish that waits for the turn exactly when it was the turn's last
  lease; and releasing it again does nothing.\<close>

theorem last_release_wakes_finish:
  assumes reach: "reach (\<lambda>s. no_leases (fst s) \<and> snd s = []) lease_step (ts, ls)"
    and l: "l \<in> set ls" "l_id l \<notin> set (ts_released ts)" and run: "release l ts = (woken, ts')"
  shows "resolveLease ts' (l_id l) = None \<and>
    (\<forall>key. lease_count ts' key = (if key = l_key l then lease_count ts key - 1 else lease_count ts key)) \<and>
    (woken \<longleftrightarrow> l_key l \<in> set (ts_leaseWaiters ts) \<and> lease_count ts (l_key l) = 1) \<and>
    release l ts' = (False, ts')"
proof -
  have inv: "lease_inv (ts, ls)" by (rule leases.reach_inv [OF reach])
  then have ok: "leases_ok ts" by (simp add: lease_inv_def)
  note held = lease_inv_held [OF inv l]
  show ?thesis
    using release_active [OF ok l(2) conjunct1 [OF held] conjunct2 [OF held] run] release_again [of l ts']
    by (simp add: resolveLease_def)
qed

lemma last_release_wakes_finish_witness:
  "\<exists>ts l ts'. release l ts = (True, ts') \<and> release l ts' = (False, ts')"
proof -
  obtain l ts1 where acq: "acquire demo_service (demo_db T_OPEN I_READY) ''alice'' ''t1'' ''l1'' = Inr (l, ts1)"
    and l: "l_id l = ''l1''" "l_key l = turnKey ''alice'' ''t1''" using demo_acquire by blast
  obtain go ts2 where w: "waitForLeases ts1 ''alice'' ''t1'' = (go, ts2)" by force
  have reach1: "reach (\<lambda>s. no_leases (fst s) \<and> snd s = []) lease_step (ts1, [l])"
    by (rule reach_first [where R = lease_step and s = "(demo_service, [])"])
      (use ls_acquire [OF acq, of "[]"] in \<open>auto simp: no_leases_def demo_service_def\<close>)
  have count: "lease_count ts1 (turnKey ''alice'' ''t1'') = 1"
    using acq by (auto simp: acquire_Inr demo_service_def lease_count_def)
  have rel: "ts_released ts2 = []"
    using acquire_released [OF acq] wait_fields [OF w] by (simp add: demo_service_def)
  have "turnKey ''alice'' ''t1'' \<in> set (ts_leaseWaiters ts2) \<and> lease_count ts2 (turnKey ''alice'' ''t1'') = 1"
    using w count by (auto simp: waitForLeases_def lease_count_def)
  moreover obtain woken ts3 where "release l ts2 = (woken, ts3)" by force
  ultimately show ?thesis
    using last_release_wakes_finish [OF reach_step [OF reach1 ls_wait [OF w]], of l woken ts3] l rel by auto
qed



section \<open>Forking\<close>

text \<open>C12: a successful fork makes a new workspace for the destination thread and changes nothing
  else. The workspace's main ref is the source's main head, or the requested commit, which then
  belongs to the history of that head; the source thread had no active turn and the destination
  thread did not exist.\<close>

theorem fork_copies_history:
  assumes "db_ok d" "fork ts source destination commitId uuid d = (Inr (t, w, c), d')" "commitId \<noteq> Some []"
  shows "t = destination \<and> w = uuid \<and> source \<noteq> destination \<and> getOpenTurn d source = None \<and>
    getThreadWorkspace d destination = None \<and> \<not> workspace_exists d uuid \<and>
    d' = with_thread destination uuid c d \<and> commit_exists d c \<and>
    (\<exists>src head. getThreadWorkspace d source = Some src \<and>
       head_of d (tw_workspaceId src) ''main'' = Some head \<and>
       descends (db_commits d) head c \<and> (commitId = None \<longrightarrow> c = head))"
  using fork_Inr [OF assms] .

lemma fork_copies_history_witness:
  "\<exists>c d'. fork demo_service ''alice'' ''bob'' None ''w2'' (demo_db T_FINISHED I_TERMINATED) = (Inr (''bob'', ''w2'', c), d') \<and>
     d' = with_thread ''bob'' ''w2'' c (demo_db T_FINISHED I_TERMINATED)"
proof -
  have "is_ok (fst (fork demo_service ''alice'' ''bob'' None ''w2'' (demo_db T_FINISHED I_TERMINATED)))" by code_simp
  then obtain x d' where run: "fork demo_service ''alice'' ''bob'' None ''w2'' (demo_db T_FINISHED I_TERMINATED) = (Inr x, d')"
    using run_ok by blast
  obtain t w c where x: "x = (t, w, c)" by (metis prod_cases3)
  show ?thesis using fork_copies_history [OF demo_db_ok run [unfolded x]] run x by simp
qed

end
