(* ===== verification/Props_Storage.thy ===== *)
theory Props_Storage
  imports System Examples
begin

text \<open>
  The properties of the runtimes of turns, of recovery, of garbage collection, and of the commits
  and artifacts in the database, each followed by a concrete run at which it applies.
\<close>

section \<open>Runtimes\<close>

text \<open>Creating a runtime adds at most one row to the instances and changes nothing else. On
  success the row has the requested id, kind and base commit, is READY, has a backend handle, and
  is what the caller is given; on failure there is no new row, or a row that is FAILED. The
  constraints of the database hold either way.\<close>

lemma create_runtime_outcome:
  assumes "db_ok d" "createTurnRuntime ex sb q d = (x, d')"
  shows "db_ok d' \<and> (case x of
      Inr v \<Rightarrow> \<exists>row. d' = d\<lparr>db_instances := db_instances d @ [row]\<rparr> \<and> i_id row = ct_instanceId q \<and>
        i_state row = I_READY \<and> i_backendHandle row \<noteq> None \<and> i_kind row = ct_kind q \<and>
        i_baseCommit row = ct_baseCommit q \<and> v = instanceView row
    | Inl e \<Rightarrow> d' = d \<or> (\<exists>row. d' = d\<lparr>db_instances := db_instances d @ [row]\<rparr> \<and>
        i_id row = ct_instanceId q \<and> i_state row = I_FAILED))"
proof -
  have "db_ok d'" by (rule db_ok_createTurnRuntime [OF assms])
  with assms(2) show ?thesis by (cases rule: createTurnRuntime_cases) auto
qed

definition demo_runtime :: runtime_input where
  "demo_runtime = \<lparr>ct_instanceId = ''i2'', ct_kind = Durable, ct_baseCommit = dg (CHR ''a''),
     ct_workspaceId = Some ''w1'', ct_backend = Docker, ct_network = Net_none,
     ct_resourceProfile = DEFAULT_RESOURCE_PROFILE\<rparr>"

lemma create_runtime_outcome_witness:
  "\<exists>v d' row. createTurnRuntime demo_ex demo_sb demo_runtime (demo_db T_FINISHED I_TERMINATED) = (Inr v, d') \<and>
     d' = (demo_db T_FINISHED I_TERMINATED)\<lparr>db_instances := [demo_instance I_TERMINATED, row]\<rparr> \<and> i_state row = I_READY"
proof -
  have "is_ok (fst (createTurnRuntime demo_ex demo_sb demo_runtime (demo_db T_FINISHED I_TERMINATED)))"
    by code_simp
  then obtain v d' where run: "createTurnRuntime demo_ex demo_sb demo_runtime (demo_db T_FINISHED I_TERMINATED) = (Inr v, d')"
    using run_ok by blast
  have "db_instances (demo_db T_FINISHED I_TERMINATED) = [demo_instance I_TERMINATED]" by (simp add: demo_db_def)
  then show ?thesis using create_runtime_outcome [OF demo_db_ok run] run by auto
qed

text \<open>A commit that fails, at whatever point, leaves refs, commits, trees, turns and instances
  as they were, down to the state of the runtime: only the operations table records that it was
  tried.\<close>

lemma failed_commit_changes_nothing:
  assumes "db_ok d" "commitTurnRuntime ex sb ci now d = (Inl e, d')"
  shows "d' = d\<lparr>db_operations := db_operations d'\<rparr>"
  using commitTurnRuntime_failure [OF assms] .

definition demo_commit_request :: commit_input where
  "demo_commit_request = \<lparr>ci_threadId = ''alice'', ci_turnId = ''t1'', ci_instanceId = ''i1'',
     ci_workspaceId = ''w1'', ci_ref = ''main'', ci_expectedHead = dg (CHR ''a''), ci_operationId = ''op''\<rparr>"

lemma failed_commit_changes_nothing_witness:
  "\<exists>e d'. commitTurnRuntime no_snapshot_ex demo_sb demo_commit_request 5 (demo_db T_FINISHING I_READY) = (Inl e, d') \<and>
     db_instances d' = [demo_instance I_READY] \<and> db_operations d' \<noteq> []"
proof -
  have "\<not> is_ok (fst (commitTurnRuntime no_snapshot_ex demo_sb demo_commit_request 5 (demo_db T_FINISHING I_READY)))"
    "db_operations (snd (commitTurnRuntime no_snapshot_ex demo_sb demo_commit_request 5 (demo_db T_FINISHING I_READY))) \<noteq> []"
    by code_simp+
  then obtain e d' where run: "commitTurnRuntime no_snapshot_ex demo_sb demo_commit_request 5 (demo_db T_FINISHING I_READY) = (Inl e, d')"
    and op: "db_operations d' \<noteq> []" using run_error by fastforce
  have "d' = (demo_db T_FINISHING I_READY)\<lparr>db_operations := db_operations d'\<rparr>"
    by (rule failed_commit_changes_nothing [OF demo_db_ok run])
  then have "db_instances d' = db_instances ((demo_db T_FINISHING I_READY)\<lparr>db_operations := db_operations d'\<rparr>)"
    by (rule arg_cong)
  then have "db_instances d' = [demo_instance I_READY]" by (simp add: demo_db_def)
  with run op show ?thesis by blast
qed

text \<open>Deleting a runtime touches the row of that runtime only. A runtime that does not exist or
  is TERMINATED is left alone and the deletion succeeds; otherwise the runtime ends TERMINATED
  without a handle when the backend destroys it and its directory is removed, and TERMINATING with
  its handle, for a later attempt, when either fails.\<close>

theorem delete_runtime_outcome:
  assumes "deleteTurnRuntime ex sb i d = (x, d')"
  shows "d' = d\<lparr>db_instances := db_instances d'\<rparr> \<and>
    getInstance d' j = (if j \<noteq> i then getInstance d j else
      (case getInstance d i of None \<Rightarrow> None
       | Some row \<Rightarrow> Some (if i_state row = I_TERMINATED then row
           else if x = Inr () then row\<lparr>i_state := I_TERMINATED, i_backendHandle := None\<rparr>
           else row\<lparr>i_state := I_TERMINATING\<rparr>)))"
  using deleteTurnRuntime_tables [OF assms] deleteTurnRuntime_row [OF assms] by blast

lemma delete_runtime_outcome_witness:
  "\<exists>d'. deleteTurnRuntime demo_ex demo_sb ''i1'' (demo_db T_FINISHED I_READY) = (Inr (), d') \<and>
     getInstance d' ''i1'' = Some ((demo_instance I_READY)\<lparr>i_state := I_TERMINATED, i_backendHandle := None\<rparr>)"
proof -
  have "is_ok (fst (deleteTurnRuntime demo_ex demo_sb ''i1'' (demo_db T_FINISHED I_READY)))" by code_simp
  then obtain d' where run: "deleteTurnRuntime demo_ex demo_sb ''i1'' (demo_db T_FINISHED I_READY) = (Inr (), d')"
    using run_ok by fastforce
  show ?thesis
    using delete_runtime_outcome [OF run, of "''i1''"] run by (auto simp: demo_instance_def)
qed

section \<open>Recovery\<close>



section \<open>History and garbage collection\<close>

text \<open>The loop that decides whether a commit belongs to a history, which stops on any table of
  commits, cyclic ones included, answers exactly whether the commit can be reached from the head
  along parents.\<close>

lemma history_check_is_ancestry:
  "commitBelongsToHistory d head candidate \<longleftrightarrow> head \<noteq> [] \<and> descends (db_commits d) head candidate"
proof (cases "head = []")
  case True
  then show ?thesis by (simp add: commitBelongsToHistory_def history_loop.simps)
next
  case False
  then show ?thesis by (simp add: commitBelongsToHistory_iff)
qed

text \<open>The mark phase of garbage collection finds exactly the commits reachable along parents
  from a ref or from the base commit of a runtime that is not TERMINATED, FAILED or LOST.\<close>

lemma mark_phase_is_reachability:
  "x \<in> set (reachable_commits d) \<longleftrightarrow> (\<exists>r. r \<noteq> [] \<and> descends (db_commits d) r x \<and>
     ((\<exists>f\<in>set (db_refs d). rf_headCommit f = r) \<or>
      (\<exists>i\<in>set (db_instances d). i_state i \<notin> {I_TERMINATED, I_FAILED, I_LOST} \<and> i_baseCommit i = r)))"
  unfolding reachable_iff listGcRoots_def by auto


definition orphan :: commit_row where
  "orphan = \<lparr>c_id = dg (CHR ''c''), c_treeDigest = dg (CHR ''e''), c_contractDigest = EMPTY_CONTRACT_DIGEST,
     c_parentId = Some (dg (CHR ''a''))\<rparr>"

definition orphan_db :: db where
  "orphan_db = (demo_db T_FINISHED I_READY)\<lparr>db_commits := [demo_commit, orphan]\<rparr>"

lemma orphan_db_ok [simp]: "db_ok orphan_db"
  by (simp add: orphan_db_def orphan_def demo_defs db_ok_def thread_workspaces_ok_def commits_ok_def refs_ok_def
      trees_ok_def instances_ok_def one_active_turn_def turns_ok_def operations_ok_def artifacts_ok_def
      commit_ids_def instance_ids_def)


lemma gc_entries_ok: "(\<And>p. ex_rm ex p = Inr ()) \<Longrightarrow> \<exists>k. gc_entries ex tracked ps n = Inr k"
  by (induction ps arbitrary: n) auto

lemma gc_trees_ok: "(\<And>p. ex_rm ex p = Inr ()) \<Longrightarrow> \<exists>k d'. gc_trees ex R ts n d = (Inr k, d')"
  by (induction ts arbitrary: n d) auto

lemma rm_all_ok: "(\<And>p. ex_rm ex p = Inr ()) \<Longrightarrow> rm_all ex ps = Inr ()"
  by (induction ps) auto

text \<open>Garbage collection gets through, and deletes every unreachable commit, children before
  their parents, when the file system lets it remove files, parents were recorded before their
  children, and no dead runtime and no turn refers to an unreachable commit.\<close>

lemma gc_completes:
  assumes ok: "db_ok d" and rm: "\<And>p. ex_rm ex p = Inr ()" and pf: "parents_first (db_commits d)"
    and insts: "i_baseCommit ` set (db_instances d) \<subseteq> set (reachable_commits (cleanupFinishedTurnRuntimes ex d))"
    and turns: "\<Union> (set_option ` t_expectedHead ` set (db_turns d)) \<subseteq> set (reachable_commits (cleanupFinishedTurnRuntimes ex d))"
  shows "\<exists>n d'. gc ex dataDir entries d =
    (Inr (n, length (gc_unreachable (cleanupFinishedTurnRuntimes ex d))), d')"
proof -
  define d1 where "d1 = cleanupFinishedTurnRuntimes ex d"
  have ok1: "db_ok d1" and only: "only_instances d d1" using cleanup_effect [of d ex] ok by (simp_all add: d1_def)
  note tabs = only_instances_tables [OF only]
  obtain n1 where e: "gc_entries ex (map tr_path (listTreeObjects d1))
      (map (\<lambda>name. path_join [dataDir, ''objects'', ''trees'', ''sha256'', name]) entries) 0 = Inr n1"
    using gc_entries_ok [of ex, OF rm] by blast
  obtain n2 d2 where t: "gc_trees ex (gc_reachable_trees d1) (listTreeObjects d1) n1 d1 = (Inr n2, d2)"
    using gc_trees_ok [of ex, OF rm] by blast
  have d2: "d2 = d1\<lparr>db_treeObjects := db_treeObjects d2\<rparr>" and ok2: "db_ok d2"
    using gc_trees_effect [OF t] ok1 by blast+
  have same: "db_refs d2 = db_refs d" "db_turns d2 = db_turns d" "db_commits d2 = db_commits d"
    "db_instances d2 = db_instances d1"
    by (subst d2, simp add: tabs)+
  let ?R = "set (reachable_commits d1)"
  have "\<exists>d3. gc_commits (gc_unreachable d1) 0 d2 = (Inr (0 + length (gc_unreachable d1)), d3)"
  proof (rule gc_commits_suffix [where d0 = d2 and R = ?R and done' = "[]" and un = "filter (\<lambda>c. c_id c \<notin> ?R) (db_commits d2)"])
    show "deletion_order (db_commits d2) (filter (\<lambda>c. c_id c \<notin> ?R) (db_commits d2)) = [] @ gc_unreachable d1"
      by (simp add: gc_unreachable_def listCommits_def same tabs)
    show "y \<in> ?R" if "x \<in> ?R" "parent_step (db_commits d2) x y" for x y
      using reachable_closed that by (simp add: same tabs)
    show "distinct (map c_id (db_commits d2))" using ok2 by (simp add: db_ok_def commits_ok_def)
    show "parents_first (db_commits d2)" using pf by (simp add: same)
    show "c_id c \<noteq> []" if "c \<in> set (db_commits d2)" for c
      using ok2 that by (auto simp: db_ok_def commits_ok_def commit_id_check_def)
    show "rf_headCommit r \<in> ?R" if "r \<in> set (db_refs d2)" for r
    proof -
      have "rf_headCommit r \<noteq> []"
        using ok2 that by (fastforce simp: db_ok_def commits_ok_def refs_ok_def commit_ids_def commit_id_check_def)
      then show ?thesis
        unfolding reachable_iff listGcRoots_def using that by (auto simp: same tabs)
    qed
    show "i_baseCommit i \<in> ?R" if "i \<in> set (db_instances d2)" for i
    proof -
      have "getInstance d1 (i_id i) = Some i" using getInstance_iff [OF ok1, of "i_id i" i] that by (simp add: same)
      moreover have "cleaned (getInstance d (i_id i)) (getInstance d1 (i_id i))"
        using cleanup_effect [of d ex "i_id i"] by (simp add: d1_def)
      ultimately obtain r where "getInstance d (i_id i) = Some r" "i_baseCommit i = i_baseCommit r"
        by (auto simp: cleaned_def split: option.splits)
      then show ?thesis using insts getInstance_iff [OF ok, of "i_id i" r] by (auto simp: d1_def)
    qed
    show "c \<in> ?R" if "u \<in> set (db_turns d2)" "t_expectedHead u = Some c" for u c
    proof -
      have "c \<in> \<Union> (set_option ` t_expectedHead ` set (db_turns d))" using that by (force simp: same)
      then show ?thesis using turns by (auto simp: d1_def)
    qed
  qed simp_all
  then show ?thesis using e t rm_all_ok [of ex, OF rm]
    by (auto simp: gc_def Let_def d1_def [symmetric] split: prod.splits)
qed

lemma gc_completes_witness:
  "\<exists>n d'. gc demo_ex ''/data'' [] orphan_db = (Inr (n, 1), d')"
proof -
  have rm: "ex_rm demo_ex p = Inr ()" for p by (simp add: demo_env)
  have pf: "parents_first (db_commits orphan_db)"
    by (simp add: parents_first_def orphan_db_def orphan_def demo_commit_def less_Suc_eq)
  have "list_all (\<lambda>i. i_baseCommit i \<in> set (reachable_commits (cleanupFinishedTurnRuntimes demo_ex orphan_db))) (db_instances orphan_db)"
    "list_all (\<lambda>t. case t_expectedHead t of None \<Rightarrow> True | Some c \<Rightarrow>
       c \<in> set (reachable_commits (cleanupFinishedTurnRuntimes demo_ex orphan_db))) (db_turns orphan_db)"
    "length (gc_unreachable (cleanupFinishedTurnRuntimes demo_ex orphan_db)) = 1"
    by code_simp+
  then show ?thesis
    using gc_completes [of orphan_db demo_ex "''/data''" "[]", OF orphan_db_ok rm pf]
    by (fastforce simp: list_all_iff split: option.splits)
qed

text \<open>A runtime that is TERMINATED, FAILED or LOST keeps the foreign key to its base commit but
  no longer keeps the commit reachable. As long as one such commit is unreachable, garbage
  collection cannot return normally: it throws, whatever else it has deleted before.\<close>

lemma gc_fails_on_dead_base_commit:
  assumes "db_ok d" "i \<in> set (db_instances (cleanupFinishedTurnRuntimes ex d))"
    and "i_baseCommit i \<notin> set (reachable_commits (cleanupFinishedTurnRuntimes ex d))"
    and "gc ex dataDir entries d = (x, d')"
  shows "\<not> is_ok x"
  using gc_blocked [OF assms] .

definition abandoned_db :: db where
  "abandoned_db = orphan_db\<lparr>db_instances := [(demo_instance I_FAILED)\<lparr>i_baseCommit := dg (CHR ''c'')\<rparr>]\<rparr>"

lemma abandoned_db_ok [simp]: "db_ok abandoned_db"
  by (simp add: abandoned_db_def orphan_db_def orphan_def demo_defs db_ok_def thread_workspaces_ok_def commits_ok_def
      refs_ok_def trees_ok_def instances_ok_def one_active_turn_def turns_ok_def operations_ok_def artifacts_ok_def
      commit_ids_def instance_ids_def)

lemma gc_fails_on_dead_base_commit_witness:
  "\<exists>e d'. gc demo_ex ''/data'' [] abandoned_db = (Inl e, d')"
proof -
  have "list_ex (\<lambda>i. i_baseCommit i \<notin> set (reachable_commits (cleanupFinishedTurnRuntimes demo_ex abandoned_db)))
      (db_instances (cleanupFinishedTurnRuntimes demo_ex abandoned_db))"
    by code_simp
  then obtain i where i: "i \<in> set (db_instances (cleanupFinishedTurnRuntimes demo_ex abandoned_db))"
    "i_baseCommit i \<notin> set (reachable_commits (cleanupFinishedTurnRuntimes demo_ex abandoned_db))"
    by (auto simp: list_ex_iff)
  obtain x d' where run: "gc demo_ex ''/data'' [] abandoned_db = (x, d')" by force
  show ?thesis using gc_fails_on_dead_base_commit [OF abandoned_db_ok i run] run by (cases x) auto
qed

section \<open>Digests and artifacts\<close>

lemma NUL_not_hex: "\<not> is_hex NUL"
  by (simp add: is_hex_def NUL_def)

lemma NUL_prefix: "NUL \<notin> set ''sha256:''"
  by (simp add: NUL_def)

lemma is_digest_no_NUL: "is_digest s \<Longrightarrow> NUL \<notin> set s"
  using is_digest_drop [of s] unfolding is_digest_def list_all_iff
  by (metis NUL_not_hex NUL_prefix Un_iff set_append)

text \<open>Two commits have the same identifying text only when contract, tree and parent are the
  same, so that under a collision-free hash commit ids name exactly one content and one history.\<close>

lemma commit_text_injective:
  assumes "list_all is_digest [k, k', t, t']" "pred_option is_digest p" "pred_option is_digest p'"
    and "commit_text k t p = commit_text k' t' p'"
  shows "k = k' \<and> t = t' \<and> p = p'"
proof -
  have "split_on NUL (commit_text k t p) = split_on NUL (commit_text k' t' p')" using assms(4) by simp
  then show ?thesis
    using assms(1-3) unfolding commit_text_def
    by (subst (asm) (1 2) split_join) (auto simp: NUL_def is_digest_no_NUL [unfolded NUL_def] split: option.splits dest: is_digest_nonempty)
qed

lemma commit_text_injective_witness:
  "dg (CHR ''a'') = dg (CHR ''a'') \<and> Some (dg (CHR ''b'')) = Some (dg (CHR ''b''))"
proof -
  have d: "is_digest (dg (CHR ''a''))" "is_digest (dg (CHR ''b''))" by code_simp+
  show ?thesis
    using commit_text_injective [of "dg (CHR ''a'')" "dg (CHR ''a'')" "dg (CHR ''a'')" "dg (CHR ''a'')"
      "Some (dg (CHR ''b''))" "Some (dg (CHR ''b''))"] d by simp
qed

text \<open>Granting an artifact to a thread makes it readable by that thread and by no other: the
  thread now gets the artifact of that digest (the stored row if there was one), and what every
  other thread or digest gets is unchanged.\<close>

lemma artifact_grants_are_per_thread:
  assumes ok: "db_ok d" and tool: "list_all (\<lambda>a. a_kind a = ''tool'') (db_artifacts d)"
  shows "getGrantedArtifact (putArtifactAndGrant tid dig path sizeBytes meta d) t g =
    (if t = tid \<and> g = dig
     then Some (case select1 (\<lambda>a. a_digest a = dig) (db_artifacts d) of
         Some a \<Rightarrow> a
       | None \<Rightarrow> \<lparr>a_digest = dig, a_kind = ''tool'', a_path = path, a_sizeBytes = sizeBytes, a_metadata = meta\<rparr>)
     else getGrantedArtifact d t g)"
proof -
  let ?row = "\<lparr>a_digest = dig, a_kind = ''tool'', a_path = path, a_sizeBytes = sizeBytes, a_metadata = meta\<rparr>"
  let ?g = "\<lparr>g_threadId = tid, g_digest = dig\<rparr>"
  have art: "db_artifacts (putArtifactAndGrant tid dig path sizeBytes meta d) =
      (if dig \<in> a_digest ` set (db_artifacts d) then db_artifacts d else db_artifacts d @ [?row])"
    and gr: "db_grants (putArtifactAndGrant tid dig path sizeBytes meta d) =
      (if (tid, dig) \<in> grant_key ` set (db_grants d) then db_grants d else db_grants d @ [?g])"
    by (simp_all add: putArtifactAndGrant_def Let_def grant_key_def)
  have fk: "g_digest ` set (db_grants d) \<subseteq> a_digest ` set (db_artifacts d)"
    using ok by (simp add: db_ok_def artifacts_ok_def)
  have tool': "select1 (\<lambda>a. a_digest a = x \<and> a_kind a = ''tool'') (db_artifacts d) =
      select1 (\<lambda>a. a_digest a = x) (db_artifacts d)" for x
    using tool by (intro select1_cong) (auto simp: list_all_iff)
  have sel_g: "select1 (\<lambda>x. g_threadId x = t \<and> g_digest x = g) (db_grants (putArtifactAndGrant tid dig path sizeBytes meta d)) =
      (if t = tid \<and> g = dig \<and> (tid, dig) \<notin> grant_key ` set (db_grants d) then Some ?g
       else select1 (\<lambda>x. g_threadId x = t \<and> g_digest x = g) (db_grants d))"
    unfolding gr
    by (cases "select1 (\<lambda>x. g_threadId x = t \<and> g_digest x = g) (db_grants d)")
      (auto simp: select1_append grant_key_def image_iff dest!: select1_Some)
  have sel_a: "select1 (\<lambda>a. a_digest a = x \<and> a_kind a = ''tool'') (db_artifacts (putArtifactAndGrant tid dig path sizeBytes meta d)) =
      (case select1 (\<lambda>a. a_digest a = x) (db_artifacts d) of Some a \<Rightarrow> Some a
       | None \<Rightarrow> if x = dig then Some ?row else None)" for x
    unfolding art
    by (auto simp: select1_append tool' split: option.splits dest!: select1_Some)
      (auto simp: select1_None)
  show ?thesis
  proof (cases "select1 (\<lambda>x. g_threadId x = t \<and> g_digest x = g) (db_grants d)")
    case None
    have "(t, g) \<notin> grant_key ` set (db_grants d)"
      using None by (auto simp: select1_None grant_key_def)
    with None show ?thesis
      by (auto simp: getGrantedArtifact_def sel_g sel_a split: option.splits)
  next
    case (Some x)
    then have x: "g_threadId x = t" "g_digest x = g" "g_digest x \<in> a_digest ` set (db_artifacts d)"
      using fk by (auto dest!: select1_Some)
    then obtain a where "select1 (\<lambda>a. a_digest a = g) (db_artifacts d) = Some a"
      using select1_ex [where P = "\<lambda>a. a_digest a = g"] by fastforce
    note a = this
    have "(t, g) \<in> grant_key ` set (db_grants d)"
      using Some by (force simp: grant_key_def dest!: select1_Some)
    then have "select1 (\<lambda>x. g_threadId x = t \<and> g_digest x = g)
        (db_grants (putArtifactAndGrant tid dig path sizeBytes meta d)) = Some x"
      using Some by (auto simp: sel_g)
    then have "getGrantedArtifact (putArtifactAndGrant tid dig path sizeBytes meta d) t g = Some a"
      using sel_a [of g] a x(2) by (simp add: getGrantedArtifact_def)
    moreover have "getGrantedArtifact d t g = Some a"
      using Some a x(2) tool' by (simp add: getGrantedArtifact_def)
    ultimately show ?thesis using a by auto
  qed
qed

definition plain_metadata :: artifact_metadata where
  "plain_metadata = \<lparr>m_mediaType = None, m_filename = None\<rparr>"

lemma artifact_grants_are_per_thread_witness:
  "getGrantedArtifact (putArtifactAndGrant ''alice'' (dg (CHR ''a'')) ''/p'' 3 plain_metadata (demo_db T_OPEN I_READY)) ''alice'' (dg (CHR ''a'')) \<noteq> None \<and>
   getGrantedArtifact (putArtifactAndGrant ''alice'' (dg (CHR ''a'')) ''/p'' 3 plain_metadata (demo_db T_OPEN I_READY)) ''bob'' (dg (CHR ''a'')) =
     getGrantedArtifact (demo_db T_OPEN I_READY) ''bob'' (dg (CHR ''a''))"
  using artifact_grants_are_per_thread [OF demo_db_ok, of T_OPEN I_READY "''alice''" "dg (CHR ''a'')" "''/p''" 3 plain_metadata]
  by (simp add: demo_db_def)

end
