(* ===== verification/Props_Sessions.thy ===== *)
theory Props_Sessions
  imports Examples
begin

text \<open>
  The properties of the shell sessions and of the shaping of their output, each followed by a
  concrete run at which it applies.
\<close>

lemma run_ok3: "is_ok (fst p) \<Longrightarrow> \<exists>x y z. p = (Inr x, y, z)"
  by (cases p; cases "fst p") auto

section \<open>Sessions\<close>

datatype session_call =
    Call_poll int "nat option"
  | Call_write string int "nat option"
  | Call_kill

fun run_call :: "(string \<Rightarrow> string) \<Rightarrow> session_backend \<Rightarrow> int \<Rightarrow> string \<Rightarrow> string \<Rightarrow> session_call
    \<Rightarrow> session_manager \<Rightarrow> db \<Rightarrow> shell_result session_run" where
  "run_call decode be now iid sid (Call_poll y t) sm d = poll decode be now iid sid y t sm d"
| "run_call decode be now iid sid (Call_write chars y t) sm d = write_session decode be now iid sid chars y t sm d"
| "run_call decode be now iid sid Call_kill sm d = kill decode be now iid sid sm d"

text \<open>C13: polling, writing to and killing a session, named by its runtime and its id, leave the
  sessions of every other runtime as they are, neither add nor remove a session, open no closing
  runtime, and change in the database at most the state of that runtime, to READY.\<close>

theorem session_calls_are_isolated:
  assumes "sessions_ok sm" "run_call decode be now iid sid c sm d = (x, sm', d')"
  shows "sessions_ok sm' \<and>
    filter (\<lambda>s. s_instanceId s \<noteq> iid) (sm_sessions sm') = filter (\<lambda>s. s_instanceId s \<noteq> iid) (sm_sessions sm) \<and>
    map s_id (sm_sessions sm') = map s_id (sm_sessions sm) \<and>
    sm_closingInstances sm' = sm_closingInstances sm \<and>
    (d' = d \<or> d' = setInstanceState iid I_READY d)"
proof -
  have "only_touches iid sm d sm' d'"
    using assms by (cases c) (auto intro: only_touches_poll only_touches_write only_touches_kill)
  then show ?thesis by (simp add: only_touches_def other_sessions_def)
qed

lemma session_calls_are_isolated_witness:
  "\<exists>x sm' d'. run_call id demo_be 5 ''i1'' ''s1'' (Call_poll 10 None) demo_sessions (demo_db T_OPEN I_RUNNING) = (Inr x, sm', d') \<and>
     map s_id (sm_sessions sm') = [''s1'']"
proof -
  have ok: "is_ok (fst (run_call id demo_be 5 ''i1'' ''s1'' (Call_poll 10 None) demo_sessions (demo_db T_OPEN I_RUNNING)))"
    by code_simp
  then obtain x sm' d' where run: "run_call id demo_be 5 ''i1'' ''s1'' (Call_poll 10 None) demo_sessions (demo_db T_OPEN I_RUNNING) = (Inr x, sm', d')"
    using run_ok3 by blast
  show ?thesis using session_calls_are_isolated [OF demo_sessions_ok run] run
    by (simp add: demo_session_defs)
qed


definition demo_exec :: exec_request where
  "demo_exec = \<lparr>xq_instanceId = ''i1'', xq_command = ''ls'', xq_workdir = None, xq_tty = None,
     xq_yieldTimeMs = 10, xq_timeoutMs = 0, xq_maxOutputTokens = None\<rparr>"


text \<open>When closing a runtime's sessions succeeds, the runtime has no active session left and is
  registered as closing, after which starting an execution in it fails; the database changes at
  most in the state of the runtime, from RUNNING to READY.\<close>

lemma closed_instance_stays_closed:
  assumes "sessions_ok sm" "closeInstance be now iid sm d = (Inr (), sm', d')"
  shows "sessions_ok sm' \<and> (\<forall>s\<in>set (sm_sessions sm'). s_instanceId s = iid \<longrightarrow> \<not> s_active s) \<and>
    (d' = d \<or> d' = setInstanceState iid I_READY d) \<and>
    (xq_instanceId q = iid \<longrightarrow> \<not> is_ok (fst (exec decode be' t t' eid sid q sm' d2)))"
proof -
  note c = closeInstance_Inr [OF assms]
  have "exec_guard q (reap t sm') d2 = Inl (service_err TURN_CLOSED ''Turn runtime is closing'')" if "xq_instanceId q = iid"
    using c that by (simp add: exec_guard_def)
  then show ?thesis using c by (auto simp: exec_def Let_def)
qed

lemma closed_instance_stays_closed_witness:
  "\<exists>sm' d'. closeInstance demo_be 5 ''i1'' demo_sessions (demo_db T_FINISHING I_RUNNING) = (Inr (), sm', d') \<and>
     \<not> is_ok (fst (exec id demo_be 6 7 ''e2'' ''s2'' demo_exec sm' d'))"
proof -
  have "is_ok (fst (closeInstance demo_be 5 ''i1'' demo_sessions (demo_db T_FINISHING I_RUNNING)))" by code_simp
  then obtain u sm' d' where run: "closeInstance demo_be 5 ''i1'' demo_sessions (demo_db T_FINISHING I_RUNNING) = (Inr u, sm', d')"
    using run_ok3 by blast
  have "xq_instanceId demo_exec = ''i1''" by (simp add: demo_exec_def)
  then show ?thesis using closed_instance_stays_closed [OF demo_sessions_ok, of demo_be 5 "''i1''" _ sm' d' demo_exec] run
    by auto
qed

section \<open>Output\<close>



text \<open>Shaped output stays within the limit the client asked for, except for the notice that
  says how many bytes were left out, of 24 characters and the digits of that number.\<close>

lemma shaped_output_is_bounded:
  assumes "originalBytes < 10 ^ k" "0 < k"
  shows "length (sp_output (shapeOutput (\<lambda>b. b) m bytes t originalBytes)) \<le> output_limit m t + 24 + k"
  by (rule shapeOutput_length [OF assms])

lemma shaped_output_is_bounded_witness:
  "length (sp_output (shapeOutput (\<lambda>b. b) 0 (replicate 1000 (CHR ''x'')) (Some 10) 1000)) \<le> 256 + 24 + 4"
  using shaped_output_is_bounded [of 1000 4 0 "replicate 1000 (CHR ''x'')" "Some 10"] by (simp add: output_limit_def)

end
