(* ===== verification/Props_Transport.thy ===== *)
theory Props_Transport
  imports Examples
begin

text \<open>
  The properties of the framed channel to the guest agent, each followed by a concrete run at
  which it applies. The JSON functions \<open>stringify\<close> and \<open>parse\<close> are arbitrary.
\<close>

text \<open>A frame can be built exactly for messages below 4 GiB, and decoding a built frame hands
  the parser the bytes that were serialised.\<close>

lemma frame_round_trip:
  "case encodeAgentFrame stringify m of
     Inl e \<Rightarrow> 2 ^ 32 \<le> length (stringify m)
   | Inr f \<Rightarrow> length (stringify m) < 2 ^ 32 \<and> decodeAgentFrame parse f = parse (stringify m)"
proof (cases "encodeAgentFrame stringify m")
  case (Inl e)
  then show ?thesis using encodeAgentFrame_Inr [of stringify m] by (cases "length (stringify m) < 2 ^ 32") auto
next
  case (Inr f)
  then show ?thesis using decode_encode [OF Inr] encodeAgentFrame_Inr [of stringify m f] by simp
qed

text \<open>How the socket cuts the agent's byte stream into chunks makes no difference: two non-empty
  lists of chunks with the same bytes leave the channel in the same state, in its buffer, its
  pending requests, and what was resolved or rejected. (The bytes a closed channel holds are
  dropped.)\<close>

lemma chunk_boundaries_are_irrelevant:
  assumes "concat (c # cs) = concat (b # bs)"
  shows "foldl (feed_channel parse) ch (c # cs) = foldl (feed_channel parse) ch (b # bs)"
  by (rule frames.chunking_irrelevant [OF TrueI assms])

lemma chunk_boundaries_are_irrelevant_witness:
  "foldl (feed_channel Inr) new_channel [[0, 0], [0, 0]] = foldl (feed_channel Inr) new_channel [[0, 0, 0, 0 :: byte]]"
  by (rule chunk_boundaries_are_irrelevant) simp

text \<open>Answers go to requests in the order in which the requests were made: when the agent's
  stream is the frames of as many payloads as are pending or fewer, each within the size limit,
  the oldest requests are settled with the payloads in order and nothing is left in the buffer.\<close>

lemma responses_are_matched_in_order:
  assumes "\<not> ch_closed ch" "ch_buffer ch = []" "list_all (\<lambda>p. length p \<le> max_frame) ps"
    and "length ps \<le> length (ch_pending ch)"
  shows "push parse ch (concat (map frame_of ps)) = ch\<lparr>ch_pending := drop (length ps) (ch_pending ch),
    ch_settled := ch_settled ch @ zip (ch_pending ch) (map parse ps)\<rparr>"
proof -
  have "push_loop parse (ch\<lparr>ch_buffer := concat (map frame_of ps)\<rparr>) =
      (ch\<lparr>ch_buffer := concat (map frame_of ps)\<rparr>)\<lparr>ch_buffer := [], ch_pending := drop (length ps) (ch_pending ch),
        ch_settled := ch_settled ch @ zip (ch_pending ch) (map parse ps)\<rparr>"
    using assms push_loop_frames [of "ch\<lparr>ch_buffer := concat (map frame_of ps)\<rparr>" ps parse]
    by (simp add: list_all_iff)
  moreover have "ch\<lparr>ch_buffer := []\<rparr> = ch" using assms(2) by (cases ch) simp
  ultimately show ?thesis using assms(1,2) by (cases ch) (simp add: push_def)
qed

lemma responses_are_matched_in_order_witness:
  "ch_settled (push Inr (new_channel\<lparr>ch_pending := [0, 1]\<rparr>) (concat (map frame_of [[1], [2 :: byte]]))) =
     [(0, Inr [1]), (1, Inr [2])]"
  using responses_are_matched_in_order [of "new_channel\<lparr>ch_pending := [0, 1]\<rparr>" "[[1], [2 :: byte]]" Inr]
  by (simp add: new_channel_def max_frame_def)

text \<open>C16: in every run of requests, received chunks, failures and closes, each request made so far is
  either pending or has been settled, once and not both; and a closed channel has no pending
  request.\<close>

theorem every_request_settles_once:
  assumes "reach (\<lambda>s. s = (new_channel, 0)) (channel_step stringify parse) (ch, n)"
  shows "distinct (ch_pending ch @ map fst (ch_settled ch)) \<and>
    set (ch_pending ch @ map fst (ch_settled ch)) = {..<n} \<and> (ch_closed ch \<longrightarrow> ch_pending ch = [])"
  using channels.reach_inv [OF assms] by (simp add: channel_inv_def)

lemma every_request_settles_once_witness:
  "\<exists>ch. reach (\<lambda>s. s = (new_channel :: byte list channel, 0)) (channel_step (\<lambda>m. m) Inr) (ch, 1) \<and> set (ch_pending ch @ map fst (ch_settled ch)) = {0}"
proof -
  have r: "reach (\<lambda>s. s = (new_channel :: byte list channel, 0)) (channel_step (\<lambda>m. m) Inr)
      (request (\<lambda>m. m) (\<lambda>_. Inr ()) 0 [] new_channel, Suc 0)"
    by (rule reach_first [where s = "(new_channel, 0)"]) (auto intro: step_request)
  show ?thesis using every_request_settles_once [OF r] r by (auto simp: lessThan_Suc)
qed

text \<open>C17: whatever the socket accepts at each attempt, and whenever it drains, the bytes it has taken
  followed by those still queued are the bytes queued before followed by the frames written since,
  in order: nothing is lost, repeated or reordered.\<close>

theorem writer_conserves_the_stream:
  assumes "writer_ok w" "fw_socket w" "writer_run xs w = (taken, w')"
  shows "taken @ unsent w' = unsent w @ concat (map written_frame xs)"
  using writer_run_conserves [OF assms] by blast

lemma writer_conserves_the_stream_witness:
  "fst (writer_run [W_write [1, 2, 3] [2], W_write [4] [1, 1]] (attach new_writer)) @
   unsent (snd (writer_run [W_write [1, 2, 3] [2], W_write [4] [1, 1]] (attach new_writer))) = [1, 2, 3, 4]"
proof -
  have "writer_ok (attach new_writer)" "fw_socket (attach new_writer)" "unsent (attach new_writer) = []"
    by (simp_all add: attach_def new_writer_def writer_ok_def unsent_def)
  moreover obtain taken w' where run: "writer_run [W_write [1, 2, 3] [2], W_write [4] [1, 1]] (attach new_writer) = (taken, w')"
    by force
  ultimately show ?thesis using writer_conserves_the_stream [OF _ _ run] by (simp add: run)
qed

end
