(* ===== verification/Utf8.thy ===== *)
theory Utf8
  imports Bytes
begin

text \<open>
  Text and bytes. A string of the model is the byte list of its UTF-8 encoding, so
  \<open>Buffer.from(s, 'utf8')\<close> is \<open>bytes_of\<close>. Decoding reads well-formed sequences as they are;
  a lead byte whose sequence breaks off is an error, which \<open>Buffer.toString('utf8')\<close> replaces
  with U+FFFD and \<open>new TextDecoder('utf-8', { fatal: true })\<close> throws at.
\<close>

definition bytes_of :: "string \<Rightarrow> byte list" where
  "bytes_of s = map (\<lambda>c. word_of_nat (of_char c)) s"

definition string_of :: "byte list \<Rightarrow> string" where
  "string_of bs = map (\<lambda>b. char_of (unat b)) bs"

lemma string_of_bytes_of [simp]: "string_of (bytes_of s) = s"
  by (induction s) (simp_all add: string_of_def bytes_of_def unat_byte)

lemma bytes_of_string_of [simp]: "bytes_of (string_of bs) = bs"
proof -
  have "unat b < 256" for b :: byte using unsigned_less [of b] by simp
  then have "word_of_nat (unat b mod 256) = b" for b :: byte
    by (simp add: word_unat_eq_iff unat_byte)
  then show ?thesis by (simp add: string_of_def bytes_of_def comp_def)
qed

lemma length_bytes_of [simp]: "length (bytes_of s) = length s"
  by (simp add: bytes_of_def)

lemma length_string_of [simp]: "length (string_of bs) = length bs"
  by (simp add: string_of_def)

lemma bytes_of_append [simp]: "bytes_of (s @ t) = bytes_of s @ bytes_of t"
  by (simp add: bytes_of_def)

lemma bytes_of_inject [simp]: "bytes_of s = bytes_of t \<longleftrightarrow> s = t"
  by (metis string_of_bytes_of)

section \<open>Decoding UTF-8\<close>

text \<open>How many bytes follow a lead byte, and the bounds of the first of them.\<close>

definition utf8_lead :: "byte \<Rightarrow> (nat \<times> nat \<times> nat) option" where
  "utf8_lead b = (let n = unat b in
     if n < 0x80 then Some (0, 0, 0)
     else if n < 0xC2 then None
     else if n < 0xE0 then Some (1, 0x80, 0xBF)
     else if n < 0xF0 then Some (2, if n = 0xE0 then 0xA0 else 0x80, if n = 0xED then 0x9F else 0xBF)
     else if n < 0xF5 then Some (3, if n = 0xF0 then 0x90 else 0x80, if n = 0xF4 then 0x8F else 0xBF)
     else None)"

text \<open>The bytes that follow, as far as they fit; a byte that does not fit is read again.\<close>

fun utf8_rest :: "nat \<Rightarrow> nat \<Rightarrow> nat \<Rightarrow> byte list \<Rightarrow> byte list option \<times> byte list" where
  "utf8_rest lo hi 0 bs = (Some [], bs)"
| "utf8_rest lo hi (Suc n) [] = (None, [])"
| "utf8_rest lo hi (Suc n) (b # bs) =
     (if lo \<le> unat b \<and> unat b \<le> hi
      then (case utf8_rest 0x80 0xBF n bs of (cs, r) \<Rightarrow> (map_option ((#) b) cs, r))
      else (None, b # bs))"

lemma utf8_rest_length: "length (snd (utf8_rest lo hi n bs)) \<le> length bs"
  by (induction lo hi n bs rule: utf8_rest.induct) (auto split: prod.splits)

function utf8_sequences :: "byte list \<Rightarrow> byte list option list" where
  "utf8_sequences [] = []"
| "utf8_sequences (b # bs) =
     (case utf8_lead b of
        None \<Rightarrow> None # utf8_sequences bs
      | Some (n, lo, hi) \<Rightarrow>
          map_option ((#) b) (fst (utf8_rest lo hi n bs)) # utf8_sequences (snd (utf8_rest lo hi n bs)))"
  by pat_completeness auto
termination
  by (relation "measure length") (auto simp: le_imp_less_Suc utf8_rest_length)

definition REPLACEMENT :: "byte list" where
  "REPLACEMENT = [0xEF, 0xBF, 0xBD]"

text \<open>\<open>Buffer.toString('utf8')\<close>, as bytes and as a string, and whether a fatal decoder accepts.\<close>

definition utf8_replace :: "byte list \<Rightarrow> byte list" where
  "utf8_replace bs = concat (map (case_option REPLACEMENT id) (utf8_sequences bs))"

definition utf8_string :: "byte list \<Rightarrow> string" where
  "utf8_string bs = string_of (utf8_replace bs)"

definition utf8_valid :: "byte list \<Rightarrow> bool" where
  "utf8_valid bs = list_all (\<lambda>s. s \<noteq> None) (utf8_sequences bs)"

lemma utf8_rest_Some: "utf8_rest lo hi n bs = (Some cs, r) \<Longrightarrow> bs = cs @ r"
  by (induction lo hi n bs arbitrary: cs r rule: utf8_rest.induct) (auto split: if_splits prod.splits)

lemma utf8_replace_valid [simp]: "utf8_valid bs \<Longrightarrow> utf8_replace bs = bs"
proof (induction bs rule: utf8_sequences.induct)
  case 1
  show ?case by (simp add: utf8_replace_def)
next
  case (2 b bs)
  from 2(3) obtain n lo hi where l: "utf8_lead b = Some (n, lo, hi)"
    by (auto simp: utf8_valid_def split: option.splits)
  obtain cs r where r: "utf8_rest lo hi n bs = (cs, r)" by force
  from 2(3) l r obtain c where c: "cs = Some c" "utf8_valid r"
    by (auto simp: utf8_valid_def)
  have "utf8_replace r = r" using 2(2) [OF l, of n "(lo, hi)" lo hi] c r by simp
  then show ?case using l r c utf8_rest_Some [of lo hi n bs c r]
    by (simp add: utf8_replace_def)
qed

lemma utf8_string_valid: "utf8_valid (bytes_of s) \<Longrightarrow> utf8_string (bytes_of s) = s"
  by (simp add: utf8_string_def)

lemma utf8_ascii: "list_all (\<lambda>b. unat b < 0x80) bs \<Longrightarrow> utf8_valid bs"
  by (induction bs) (simp_all add: utf8_valid_def utf8_lead_def)

end
