(* ===== verification/Files.thy ===== *)
theory Files
  imports Utf8 "HOL-Library.Sublist"
begin

text \<open>
  A file system as the daemon uses it through \<open>node:fs/promises\<close>: a map from absolute paths
  (lists of names) to inode numbers, and the inodes. Hard links are names with one inode. Making
  or removing a name sets the modification time of the directory it is in to the clock, which is
  left open (\<open>None\<close>). Opening, writing, syncing and closing a new file is one operation. Names
  are looked up one by one without following symbolic links: \<open>Cfs_Safety\<close> shows that no path
  the daemon passes has one on the way.
\<close>

type_synonym path = "string list"

datatype body =
    B_dir
  | B_file "byte list"
  | B_symlink string

record inode =
  i_body :: body
  i_mode :: nat
  i_mtime :: "nat option"

record fs =
  f_names :: "path \<Rightarrow> nat option"
  f_inodes :: "nat \<Rightarrow> inode"
  f_next :: nat

datatype fs_op =
    Op_mkdirp path nat
  | Op_mkdir path nat
  | Op_write path "byte list" nat
  | Op_append path "byte list"
  | Op_symlink string path
  | Op_link path path
  | Op_chmod path nat
  | Op_utimes path nat
  | Op_lutimes path nat
  | Op_rm path
  | Op_rename path path

definition lookup_inode :: "fs \<Rightarrow> path \<Rightarrow> inode option" where
  "lookup_inode f p = map_option (f_inodes f) (f_names f p)"

definition is_dir :: "fs \<Rightarrow> path \<Rightarrow> bool" where
  "is_dir f p = (case lookup_inode f p of Some n \<Rightarrow> i_body n = B_dir | None \<Rightarrow> False)"

definition change_inode :: "nat \<Rightarrow> (inode \<Rightarrow> inode) \<Rightarrow> fs \<Rightarrow> fs" where
  "change_inode i g f = f\<lparr>f_inodes := (f_inodes f)(i := g (f_inodes f i))\<rparr>"

definition set_mtime :: "nat option \<Rightarrow> inode \<Rightarrow> inode" where
  "set_mtime t n = n\<lparr>i_mtime := t\<rparr>"

definition set_mode :: "nat \<Rightarrow> inode \<Rightarrow> inode" where
  "set_mode m n = n\<lparr>i_mode := m\<rparr>"

definition add_bytes :: "byte list \<Rightarrow> inode \<Rightarrow> inode" where
  "add_bytes bs n = (case i_body n of B_file cs \<Rightarrow> n\<lparr>i_body := B_file (cs @ bs), i_mtime := None\<rparr> | _ \<Rightarrow> n)"

definition change_at :: "path \<Rightarrow> (inode \<Rightarrow> inode) \<Rightarrow> fs \<Rightarrow> fs res" where
  "change_at p g f = (case f_names f p of
     None \<Rightarrow> Inl (PlainError ''ENOENT'')
   | Some i \<Rightarrow> Inr (change_inode i g f))"

definition touch_dir :: "path \<Rightarrow> fs \<Rightarrow> fs" where
  "touch_dir p f = (case f_names f p of None \<Rightarrow> f | Some i \<Rightarrow> change_inode i (set_mtime None) f)"

definition add_name :: "path \<Rightarrow> nat \<Rightarrow> fs \<Rightarrow> fs res" where
  "add_name p i f =
     (if f_names f p \<noteq> None then Inl (PlainError ''EEXIST'')
      else if f_names f (butlast p) = None then Inl (PlainError ''ENOENT'')
      else if \<not> is_dir f (butlast p) then Inl (PlainError ''ENOTDIR'')
      else Inr ((touch_dir (butlast p) f)\<lparr>f_names := (f_names f)(p := Some i)\<rparr>))"

definition create :: "path \<Rightarrow> body \<Rightarrow> nat \<Rightarrow> fs \<Rightarrow> fs res" where
  "create p b m f = add_name p (f_next f)
     (f\<lparr>f_inodes := (f_inodes f)(f_next f := \<lparr>i_body = b, i_mode = m, i_mtime = None\<rparr>), f_next := f_next f + 1\<rparr>)"

text \<open>\<open>mkdir(p, { recursive: true })\<close>: the directories on the way are made as they are missing.\<close>

fun mkdirp :: "nat \<Rightarrow> path \<Rightarrow> path \<Rightarrow> fs \<Rightarrow> fs res" where
  "mkdirp m q [] f = Inr f"
| "mkdirp m q (x # xs) f =
     (if f_names f (q @ [x]) = None then bind_res (create (q @ [x]) B_dir m f) (mkdirp m (q @ [x]) xs)
      else if is_dir f (q @ [x]) then mkdirp m (q @ [x]) xs f
      else Inl (PlainError ''ENOTDIR''))"

definition rm_names :: "path \<Rightarrow> fs \<Rightarrow> fs" where
  "rm_names p f = f\<lparr>f_names := (\<lambda>q. if prefix p q then None else f_names f q)\<rparr>"

definition rename_names :: "path \<Rightarrow> path \<Rightarrow> fs \<Rightarrow> fs" where
  "rename_names p q f = f\<lparr>f_names := (\<lambda>r.
     if prefix q r then f_names f (p @ drop (length q) r)
     else if prefix p r then None else f_names f r)\<rparr>"

fun fs_apply :: "fs_op \<Rightarrow> fs \<Rightarrow> fs res" where
  "fs_apply (Op_mkdirp p m) f = mkdirp m [] p f"
| "fs_apply (Op_mkdir p m) f = create p B_dir m f"
| "fs_apply (Op_write p bs m) f = create p (B_file bs) m f"
| "fs_apply (Op_append p bs) f = change_at p (add_bytes bs) f"
| "fs_apply (Op_symlink t p) f = create p (B_symlink t) 511 f"
| "fs_apply (Op_link p q) f =
     (case f_names f p of
        None \<Rightarrow> Inl (PlainError ''ENOENT'')
      | Some i \<Rightarrow> if is_dir f p then Inl (PlainError ''EPERM'') else add_name q i f)"
| "fs_apply (Op_chmod p m) f = change_at p (set_mode m) f"
| "fs_apply (Op_utimes p t) f = change_at p (set_mtime (Some t)) f"
| "fs_apply (Op_lutimes p t) f = change_at p (set_mtime (Some t)) f"
| "fs_apply (Op_rm p) f =
     Inr (if f_names f p = None then f else rm_names p (touch_dir (butlast p) f))"
| "fs_apply (Op_rename p q) f =
     (if f_names f p = None then Inl (PlainError ''ENOENT'')
      else if f_names f q \<noteq> None then Inl (PlainError ''ENOTEMPTY'')
      else if \<not> is_dir f (butlast q) then Inl (PlainError ''ENOENT'')
      else Inr (rename_names p q (touch_dir (butlast p) (touch_dir (butlast q) f))))"

text \<open>The names of an absolute path.\<close>

definition path_parts :: "string \<Rightarrow> path" where
  "path_parts p = filter (\<lambda>x. x \<noteq> []) (split_on (CHR ''/'') p)"

text \<open>A failed step keeps the state it was in.\<close>

definition at_state :: "'s \<Rightarrow> 'a res \<Rightarrow> js_error \<times> 's + 'a" where
  "at_state s r = (case r of Inl e \<Rightarrow> Inl (e, s) | Inr x \<Rightarrow> Inr x)"

lemma at_state_simps [simp]:
  "at_state s (Inl e) = Inl (e, s)"
  "at_state s (Inr x) = Inr x"
  by (simp_all add: at_state_def)

lemma at_state_iff [res_simps]:
  "at_state s r = Inr x \<longleftrightarrow> r = Inr x"
  "at_state s r = Inl es \<longleftrightarrow> (\<exists>e. r = Inl e \<and> es = (e, s))"
  by (cases r; auto)+

text \<open>
  An operation may also fail for a reason the model does not see (no space, no permission, a
  name that is too long): \<open>io op\<close> says whether it does. A failed operation changes nothing.
\<close>

definition fs_run :: "(fs_op \<Rightarrow> unit res) \<Rightarrow> fs_op \<Rightarrow> fs \<Rightarrow> fs res" where
  "fs_run io op f = bind_res (io op) (\<lambda>_. fs_apply op f)"

end
