(* ===== verification/Cfs.thy ===== *)
theory Cfs
  imports Files "HOL-Library.Multiset" "HOL-Library.Signed_Division"
begin

unbundle bit_operations_syntax

text \<open>
  Workspace snapshots, of \<open>src/storage/cfs.ts\<close>: a snapshot is the magic bytes followed by one
  record per entry, in the byte order of the relative paths. \<open>exportCfs\<close> writes it,
  \<open>extractCfs\<close> rebuilds the tree from it, \<open>ingestCfs\<close> checks one that a guest sent.
  What \<open>readdir\<close>, \<open>lstat\<close>, \<open>readlink\<close> and \<open>read\<close> return of a workspace is a value of type
  \<open>node\<close>; all else is done to a file system of \<open>Files\<close>.
\<close>

definition MAGIC :: "byte list" where
  "MAGIC = bytes_of (''CFS-v1'' @ [NUL])"

definition MAX_FILE_BYTES :: nat where
  "MAX_FILE_BYTES = 256 * 1024 * 1024"

definition MAX_TREE_BYTES :: nat where
  "MAX_TREE_BYTES = 1024 * 1024 * 1024"

definition TYPE_DIRECTORY :: nat where "TYPE_DIRECTORY = 1"
definition TYPE_FILE :: nat where "TYPE_FILE = 2"
definition TYPE_SYMLINK :: nat where "TYPE_SYMLINK = 3"
definition TYPE_HARDLINK :: nat where "TYPE_HARDLINK = 4"

record entry_header =
  h_path :: string
  h_type :: nat
  h_mode :: nat
  h_mtimeNs :: int
  h_payloadLength :: nat

record cfs_object =
  co_treeDigest :: digest
  co_path :: string
  co_sizeBytes :: nat

definition unsupported :: "string \<Rightarrow> js_error" where
  "unsupported m = service_err SNAPSHOT_UNSUPPORTED_ENTRY m"

definition unsafe_path :: "string \<Rightarrow> bool" where
  "unsafe_path p \<longleftrightarrow> p = [] \<or> NUL \<in> set p \<or> starts_with ''/'' p \<or>
     list_ex (\<lambda>part. part = ''.'' \<or> part = ''..'' \<or> part = []) (split_on (CHR ''/'') p)"

definition validateRelativePath :: "string \<Rightarrow> unit res" where
  "validateRelativePath p =
     (if unsafe_path p then Inl (unsupported (''Unsafe snapshot path: '' @ p)) else Inr ())"

section \<open>Entry headers\<close>

definition encodeHeader :: "entry_header \<Rightarrow> byte list res" where
  "encodeHeader h = (let pathBytes = bytes_of (h_path h) in
     bind_res (u32 (int (length pathBytes))) (\<lambda>n.
     bind_res (u32 (int (h_mode h))) (\<lambda>mode.
     bind_res (u64 (h_mtimeNs h)) (\<lambda>mtime.
     bind_res (u64 (int (h_payloadLength h))) (\<lambda>len.
       Inr (n @ pathBytes @ [word_of_nat (h_type h)] @ mode @ mtime @ len))))))"

text \<open>\<open>buffer.subarray(a, a + n)\<close>.\<close>

definition slice :: "byte list \<Rightarrow> nat \<Rightarrow> nat \<Rightarrow> byte list" where
  "slice buffer a n = take n (drop a buffer)"

definition readHeader :: "byte list \<Rightarrow> nat \<Rightarrow> (entry_header \<times> nat) res" where
  "readHeader buffer offset =
     (if offset + 4 > length buffer then Inl (service_err BACKEND_ERROR ''Truncated CFS path length'')
      else let pathLength = be_nat (slice buffer offset 4); o1 = offset + 4 in
      if o1 + pathLength + 21 > length buffer then Inl (service_err BACKEND_ERROR ''Truncated CFS entry'')
      else let path = utf8_string (slice buffer o1 pathLength);
               o2 = o1 + pathLength;
               ty = unat (buffer ! o2);
               mode = be_nat (slice buffer (o2 + 1) 4);
               mtimeNs = be_nat (slice buffer (o2 + 5) 8);
               payloadLength = be_nat (slice buffer (o2 + 13) 8) in
      if payloadLength > 2 ^ 53 - 1 then Inl (service_err SNAPSHOT_LIMIT ''CFS payload is too large'')
      else if mode AND 3072 \<noteq> 0 then Inl (unsupported (''setuid/setgid entry rejected: '' @ path))
      else bind_res (validateRelativePath path) (\<lambda>_.
        Inr (\<lparr>h_path = path, h_type = ty, h_mode = mode, h_mtimeNs = int mtimeNs,
              h_payloadLength = payloadLength\<rparr>, o2 + 21)))"

section \<open>Export\<close>

text \<open>
  The \<open>lstat\<close> of an entry, and the entry: a directory with its \<open>readdir\<close> list, a file with
  what \<open>read\<close> returns at an offset for a buffer size, a symbolic link with its target, an
  entry of another kind, or one whose \<open>lstat\<close> fails.
\<close>

record stats =
  st_mode :: nat
  st_mtimeNs :: int
  st_size :: nat
  st_dev :: nat
  st_ino :: nat
  st_nlink :: nat

datatype node =
    N_dir stats "(string \<times> node) list"
  | N_file stats "nat \<Rightarrow> nat \<Rightarrow> byte list"
  | N_symlink stats string
  | N_other stats
  | N_unreadable js_error

record entry =
  en_relative :: string
  en_node :: node

fun node_stats :: "node \<Rightarrow> stats res" where
  "node_stats (N_dir st cs) = Inr st"
| "node_stats (N_file st rd) = Inr st"
| "node_stats (N_symlink st t) = Inr st"
| "node_stats (N_other st) = Inr st"
| "node_stats (N_unreadable e) = Inl e"

definition child_path :: "string \<Rightarrow> string \<Rightarrow> string" where
  "child_path dir name = (if dir = [] then name else dir @ CHR ''/'' # name)"

text \<open>The entries of a directory come in byte order of their names; \<open>walk\<close> goes through the
  list, and into every directory on it.\<close>

definition sort_entries :: "(string \<times> node) list \<Rightarrow> (string \<times> node) list" where
  "sort_entries cs = sort_key fst cs"

lemma size_sort_entries [simp]: "size_list (size_prod (\<lambda>_. 0) size) (sort_entries cs) = size_list (size_prod (\<lambda>_. 0) size) cs"
proof -
  have "mset (map (size_prod (\<lambda>_. 0) size) (sort_entries cs)) = mset (map (size_prod (\<lambda>_. 0) size) cs)"
    by (simp add: sort_entries_def)
  then show ?thesis by (metis length_sort size_list_conv_sum_list sort_entries_def sum_mset_sum_list)
qed

function walk :: "string \<Rightarrow> (string \<times> node) list \<Rightarrow> entry list res" where
  "walk dir [] = Inr []"
| "walk dir ((name, n) # cs) =
     (let rel = child_path dir name in
      bind_res (validateRelativePath rel) (\<lambda>_.
      bind_res (node_stats n) (\<lambda>_.
      bind_res (case n of N_dir st sub \<Rightarrow> walk rel (sort_entries sub) | _ \<Rightarrow> Inr []) (\<lambda>inner.
      bind_res (walk dir cs) (\<lambda>rest.
        Inr (\<lparr>en_relative = rel, en_node = n\<rparr> # inner @ rest))))))"
  by pat_completeness auto
termination
  by (relation "measure (\<lambda>(_, cs). size_list (size_prod (\<lambda>_. 0) size) cs)") auto

definition collectEntries :: "(string \<times> node) list \<Rightarrow> entry list res" where
  "collectEntries cs = bind_res (walk [] (sort_entries cs)) (\<lambda>es. Inr (sort_key en_relative es))"

record snap =
  sn_fs :: fs
  sn_total :: nat
  sn_hashed :: "byte list"
  sn_hardLinks :: "nat \<times> nat \<Rightarrow> string option"

text \<open>One file system call of the export, which throws with the state before it.\<close>

definition snap_op :: "(fs_op \<Rightarrow> unit res) \<Rightarrow> fs_op \<Rightarrow> snap \<Rightarrow> js_error \<times> snap + snap" where
  "snap_op io op s = bind_res (at_state s (fs_run io op (sn_fs s))) (\<lambda>f. Inr (s\<lparr>sn_fs := f\<rparr>))"

definition append :: "(fs_op \<Rightarrow> unit res) \<Rightarrow> string \<Rightarrow> byte list \<Rightarrow> snap \<Rightarrow> js_error \<times> snap + snap" where
  "append io staging chunk s = (let s = s\<lparr>sn_total := sn_total s + length chunk\<rparr> in
     if sn_total s > MAX_TREE_BYTES then Inl (service_err SNAPSHOT_LIMIT ''Snapshot exceeds total size limit'', s)
     else let s = s\<lparr>sn_hashed := sn_hashed s @ chunk\<rparr> in snap_op io (Op_append (path_parts staging) chunk) s)"

definition put_header :: "(fs_op \<Rightarrow> unit res) \<Rightarrow> string \<Rightarrow> entry_header \<Rightarrow> snap \<Rightarrow> js_error \<times> snap + snap" where
  "put_header io staging h s = bind_res (at_state s (encodeHeader h)) (\<lambda>b. append io staging b s)"

text \<open>A header and a payload that is a string.\<close>

definition put_text :: "(fs_op \<Rightarrow> unit res) \<Rightarrow> string \<Rightarrow> string \<Rightarrow> nat \<Rightarrow> nat \<Rightarrow> int \<Rightarrow> string \<Rightarrow> snap \<Rightarrow> js_error \<times> snap + snap" where
  "put_text io staging rel ty mode mtimeNs text s = (let payload = bytes_of text in
     bind_res (put_header io staging \<lparr>h_path = rel, h_type = ty, h_mode = mode, h_mtimeNs = mtimeNs,
       h_payloadLength = length payload\<rparr> s) (append io staging payload))"

function read_loop :: "(fs_op \<Rightarrow> unit res) \<Rightarrow> string \<Rightarrow> (nat \<Rightarrow> nat \<Rightarrow> byte list) \<Rightarrow> nat \<Rightarrow> nat \<Rightarrow> snap \<Rightarrow> js_error \<times> snap + nat \<times> snap" where
  "read_loop io staging rd len offset s =
     (if offset < len
      then let chunk = rd offset (min (64 * 1024) (len - offset)) in
        if chunk = [] then Inr (offset, s)
        else bind_res (append io staging chunk s) (read_loop io staging rd len (offset + length chunk))
      else Inr (offset, s))"
  by pat_completeness auto
termination
  by (relation "measure (\<lambda>(io, staging, rd, len, offset, s). len - offset)")
    (auto simp flip: length_greater_0_conv)

declare read_loop.simps [simp del]

definition export_file :: "(fs_op \<Rightarrow> unit res) \<Rightarrow> string \<Rightarrow> string \<Rightarrow> stats \<Rightarrow> (nat \<Rightarrow> nat \<Rightarrow> byte list) \<Rightarrow> nat \<Rightarrow> int \<Rightarrow> snap \<Rightarrow> js_error \<times> snap + snap" where
  "export_file io staging rel st rd mode mtimeNs s =
     (let len = st_size st; inodeKey = (st_dev st, st_ino st) in
      if len > MAX_FILE_BYTES then Inl (service_err SNAPSHOT_LIMIT (''File exceeds size limit: '' @ rel), s)
      else let linkTarget = (if st_nlink st > 1 then sn_hardLinks s inodeKey else None) in
      if linkTarget \<noteq> None \<and> linkTarget \<noteq> Some []
      then put_text io staging rel TYPE_HARDLINK mode mtimeNs (the linkTarget) s
      else let s = (if st_nlink st > 1 then s\<lparr>sn_hardLinks := (sn_hardLinks s)(inodeKey := Some rel)\<rparr> else s) in
        bind_res (put_header io staging \<lparr>h_path = rel, h_type = TYPE_FILE, h_mode = mode, h_mtimeNs = mtimeNs,
          h_payloadLength = len\<rparr> s) (\<lambda>s.
        bind_res (read_loop io staging rd len 0 s) (\<lambda>(offset, s).
          if offset \<noteq> len then Inl (service_err BACKEND_ERROR (''File changed during snapshot: '' @ rel), s)
          else Inr s)))"

definition export_symlink :: "(fs_op \<Rightarrow> unit res) \<Rightarrow> string \<Rightarrow> string \<Rightarrow> string \<Rightarrow> string \<Rightarrow> nat \<Rightarrow> int \<Rightarrow> snap \<Rightarrow> js_error \<times> snap + snap" where
  "export_symlink io staging root rel target mode mtimeNs s =
     (let resolvedTarget = resolve_path (dirname (root @ CHR ''/'' # rel)) target in
      if starts_with ''/'' target \<or> resolvedTarget \<noteq> root \<and> \<not> starts_with (root @ ''/'') resolvedTarget
      then Inl (unsupported (''Symlink target escapes workspace: '' @ rel), s)
      else put_text io staging rel TYPE_SYMLINK mode mtimeNs target s)"

text \<open>The time in whole milliseconds, in BigInt arithmetic: division truncates.\<close>

definition round_mtime :: "int \<Rightarrow> int" where
  "round_mtime ns = ((ns + 500000) sdiv 1000000) * 1000000"

definition export_entry :: "(fs_op \<Rightarrow> unit res) \<Rightarrow> string \<Rightarrow> string \<Rightarrow> entry \<Rightarrow> snap \<Rightarrow> js_error \<times> snap + snap" where
  "export_entry io staging root e s = bind_res (at_state s (node_stats (en_node e))) (\<lambda>st.
     let rel = en_relative e; mode = st_mode st AND 4095; mtimeNs = round_mtime (st_mtimeNs st) in
     if mode AND 3072 \<noteq> 0 then Inl (unsupported (''setuid/setgid entry rejected: '' @ rel), s)
     else case en_node e of
       N_dir _ _ \<Rightarrow> put_header io staging \<lparr>h_path = rel, h_type = TYPE_DIRECTORY, h_mode = mode,
         h_mtimeNs = mtimeNs, h_payloadLength = 0\<rparr> s
     | N_symlink _ target \<Rightarrow> export_symlink io staging root rel target mode mtimeNs s
     | N_file _ rd \<Rightarrow> export_file io staging rel st rd mode mtimeNs s
     | _ \<Rightarrow> Inl (unsupported (''Unsupported entry: '' @ rel), s))"

fun export_entries :: "(fs_op \<Rightarrow> unit res) \<Rightarrow> string \<Rightarrow> string \<Rightarrow> entry list \<Rightarrow> snap \<Rightarrow> js_error \<times> snap + snap" where
  "export_entries io staging root [] s = Inr s"
| "export_entries io staging root (e # es) s =
     bind_res (export_entry io staging root e s) (export_entries io staging root es)"

text \<open>The last calls: the staged file is linked to its final name, unless that exists already.\<close>

definition export_finish :: "(fs_op \<Rightarrow> unit res) \<Rightarrow> (string \<Rightarrow> string) \<Rightarrow> string \<Rightarrow> string \<Rightarrow> snap \<Rightarrow> js_error \<times> snap + cfs_object \<times> snap" where
  "export_finish io sha staging objectRoot s =
     (let treeDigest = digest_of sha (string_of (sn_hashed s));
          finalPath = path_join [objectRoot, ''sha256'', drop 7 treeDigest] in
      bind_res (case snap_op io (Op_link (path_parts staging) (path_parts finalPath)) s of
          Inl (e, s) \<Rightarrow> if e = PlainError ''EEXIST'' then Inr s else Inl (e, s)
        | Inr s \<Rightarrow> Inr s) (\<lambda>s.
      bind_res (snap_op io (Op_rm (path_parts staging)) s) (\<lambda>s.
      bind_res (snap_op io (Op_chmod (path_parts finalPath) 256) s) (\<lambda>s.
        Inr (\<lparr>co_treeDigest = treeDigest, co_path = finalPath, co_sizeBytes = sn_total s\<rparr>, s)))))"

definition export_try :: "(fs_op \<Rightarrow> unit res) \<Rightarrow> (string \<Rightarrow> string) \<Rightarrow> string \<Rightarrow> string \<Rightarrow> (string \<times> node) list \<Rightarrow> string \<Rightarrow> snap \<Rightarrow> js_error \<times> snap + cfs_object \<times> snap" where
  "export_try io sha staging root tree objectRoot s =
     bind_res (append io staging MAGIC s) (\<lambda>s.
     bind_res (at_state s (collectEntries tree)) (\<lambda>es.
     bind_res (export_entries io staging root es s) (export_finish io sha staging objectRoot)))"

definition exportCfs :: "(fs_op \<Rightarrow> unit res) \<Rightarrow> (string \<Rightarrow> string) \<Rightarrow> string \<Rightarrow> string \<Rightarrow> (string \<times> node) list option \<Rightarrow> string \<Rightarrow> fs \<Rightarrow> cfs_object res \<times> fs" where
  "exportCfs io sha uuid root tree objectRoot f =
     (case tree of
        None \<Rightarrow> (Inl (service_err INVALID_ARGUMENT ''Workspace root does not exist''), f)
      | Some cs \<Rightarrow>
          let stagingDir = resolve_path objectRoot ''../../staging'';
              staging = path_join [stagingDir, uuid @ ''.cfs''] in
          case fs_run io (Op_mkdirp (path_parts (path_join [objectRoot, ''sha256''])) 448) f of
            Inl e \<Rightarrow> (Inl e, f)
          | Inr f \<Rightarrow>
          case fs_run io (Op_mkdirp (path_parts stagingDir) 448) f of
            Inl e \<Rightarrow> (Inl e, f)
          | Inr f \<Rightarrow>
          case fs_run io (Op_write (path_parts staging) [] 384) f of
            Inl e \<Rightarrow> (Inl e, f)
          | Inr f \<Rightarrow>
          case export_try io sha staging root cs objectRoot
              \<lparr>sn_fs = f, sn_total = 0, sn_hashed = [], sn_hardLinks = Map.empty\<rparr> of
            Inr (obj, s) \<Rightarrow> (Inr obj, sn_fs s)
          | Inl (e, s) \<Rightarrow>
              (case fs_run io (Op_rm (path_parts staging)) (sn_fs s) of
                 Inl e' \<Rightarrow> (Inl e', sn_fs s)
               | Inr f \<Rightarrow> (Inl e, f)))"

section \<open>Extraction\<close>

definition safeDestination :: "string \<Rightarrow> string \<Rightarrow> string res" where
  "safeDestination root relativePath = (let destination = resolve_path root relativePath in
     if destination \<noteq> root \<and> \<not> starts_with (root @ ''/'') destination
     then Inl (unsupported ''CFS path escapes workspace'') else Inr destination)"

fun check_ancestors :: "string \<Rightarrow> (string \<Rightarrow> nat option) \<Rightarrow> string \<Rightarrow> string list \<Rightarrow> unit res" where
  "check_ancestors relativePath types ancestor [] = Inr ()"
| "check_ancestors relativePath types ancestor (part # parts) =
     (let ancestor = (if ancestor = [] then part else ancestor @ CHR ''/'' # part) in
      if types ancestor = Some TYPE_SYMLINK
      then Inl (unsupported (''CFS path traverses symlink: '' @ relativePath))
      else check_ancestors relativePath types ancestor parts)"

definition assertNoSymlinkAncestor :: "string \<Rightarrow> (string \<Rightarrow> nat option) \<Rightarrow> unit res" where
  "assertNoSymlinkAncestor relativePath types =
     check_ancestors relativePath types [] (butlast (split_on (CHR ''/'') relativePath))"

text \<open>
  The state of an extraction: the file system, \<open>entryTypes\<close> and \<open>directoryTimes\<close>. Times are
  the header's nanoseconds; \<open>stored\<close> is the time that the file system keeps of the seconds, a
  double, that the daemon passes.
\<close>

record extraction =
  x_fs :: fs
  x_types :: "string \<Rightarrow> nat option"
  x_times :: "(string \<times> nat) list"

type_synonym extracted = "js_error \<times> extraction + extraction"

definition x_op :: "(fs_op \<Rightarrow> unit res) \<Rightarrow> fs_op \<Rightarrow> extraction \<Rightarrow> extracted" where
  "x_op io op x = bind_res (at_state x (fs_run io op (x_fs x))) (\<lambda>f. Inr (x\<lparr>x_fs := f\<rparr>))"

definition extract_symlink :: "(fs_op \<Rightarrow> unit res) \<Rightarrow> (nat \<Rightarrow> nat) \<Rightarrow> string \<Rightarrow> entry_header \<Rightarrow> byte list \<Rightarrow> string \<Rightarrow> extraction \<Rightarrow> extracted" where
  "extract_symlink io stored staging h payload output x =
     (let target = utf8_string payload in
      if NUL \<in> set target \<or> starts_with ''/'' target
      then Inl (unsupported (''Unsafe symlink target: '' @ h_path h), x)
      else let resolvedTarget = resolve_path (dirname output) target in
      if resolvedTarget \<noteq> staging \<and> \<not> starts_with (staging @ ''/'') resolvedTarget
      then Inl (unsupported (''Symlink target escapes workspace: '' @ h_path h), x)
      else bind_res (x_op io (Op_symlink target (path_parts output)) x)
        (x_op io (Op_lutimes (path_parts output) (stored (nat (h_mtimeNs h))))))"

definition extract_hardlink :: "(fs_op \<Rightarrow> unit res) \<Rightarrow> string \<Rightarrow> entry_header \<Rightarrow> byte list \<Rightarrow> string \<Rightarrow> extraction \<Rightarrow> extracted" where
  "extract_hardlink io staging h payload output x =
     (let target = utf8_string payload in
      bind_res (at_state x (validateRelativePath target)) (\<lambda>_.
      if x_types x target \<noteq> Some TYPE_FILE
      then Inl (unsupported (''Hard-link target is not a prior regular file: '' @ h_path h), x)
      else bind_res (at_state x (safeDestination staging target)) (\<lambda>existing.
        x_op io (Op_link (path_parts existing) (path_parts output)) x)))"

definition extract_body :: "(fs_op \<Rightarrow> unit res) \<Rightarrow> (nat \<Rightarrow> nat) \<Rightarrow> string \<Rightarrow> entry_header \<Rightarrow> byte list \<Rightarrow> string \<Rightarrow> extraction \<Rightarrow> extracted" where
  "extract_body io stored staging h payload output x =
     (if h_type h = TYPE_DIRECTORY
      then bind_res (x_op io (Op_mkdir (path_parts output) (h_mode h AND 511)) x) (\<lambda>x.
        Inr (x\<lparr>x_times := x_times x @ [(output, nat (h_mtimeNs h))]\<rparr>))
      else if h_type h = TYPE_FILE
      then x_op io (Op_write (path_parts output) payload (h_mode h AND 511)) x
      else if h_type h = TYPE_SYMLINK then extract_symlink io stored staging h payload output x
      else if h_type h = TYPE_HARDLINK then extract_hardlink io staging h payload output x
      else Inl (unsupported (''Unsupported CFS entry type: '' @ nat_str (h_type h)), x))"

definition extract_attributes :: "(fs_op \<Rightarrow> unit res) \<Rightarrow> (nat \<Rightarrow> nat) \<Rightarrow> entry_header \<Rightarrow> string \<Rightarrow> extraction \<Rightarrow> extracted" where
  "extract_attributes io stored h output x =
     (if h_type h \<noteq> TYPE_SYMLINK
      then bind_res (x_op io (Op_chmod (path_parts output) (h_mode h AND 511)) x) (\<lambda>x.
        if h_type h \<noteq> TYPE_DIRECTORY
        then x_op io (Op_utimes (path_parts output) (stored (nat (h_mtimeNs h)))) x
        else Inr x)
      else Inr x)"

definition extract_entry :: "(fs_op \<Rightarrow> unit res) \<Rightarrow> (nat \<Rightarrow> nat) \<Rightarrow> string \<Rightarrow> entry_header \<Rightarrow> byte list \<Rightarrow> extraction \<Rightarrow> extracted" where
  "extract_entry io stored staging h payload x =
     bind_res (at_state x (assertNoSymlinkAncestor (h_path h) (x_types x))) (\<lambda>_.
     bind_res (at_state x (safeDestination staging (h_path h))) (\<lambda>output.
     bind_res (x_op io (Op_mkdirp (path_parts (dirname output)) 448) x) (\<lambda>x.
     bind_res (extract_body io stored staging h payload output x) (\<lambda>x.
     bind_res (extract_attributes io stored h output x) (\<lambda>x.
       Inr (x\<lparr>x_types := (x_types x)(h_path h := Some (h_type h))\<rparr>))))))"

lemma readHeader_next: "readHeader buffer offset = Inr (h, next) \<Longrightarrow> offset + 25 \<le> next \<and> next \<le> length buffer"
  by (auto simp: readHeader_def Let_def res_simps split: if_splits)

function extract_loop :: "(fs_op \<Rightarrow> unit res) \<Rightarrow> (nat \<Rightarrow> nat) \<Rightarrow> string \<Rightarrow> byte list \<Rightarrow> nat \<Rightarrow> extraction \<Rightarrow> extracted" where
  "extract_loop io stored staging bytes offset x =
     (if offset < length bytes
      then case readHeader bytes offset of
          Inl e \<Rightarrow> Inl (e, x)
        | Inr (h, next) \<Rightarrow>
            if next + h_payloadLength h > length bytes
            then Inl (service_err BACKEND_ERROR ''Truncated CFS payload'', x)
            else bind_res (extract_entry io stored staging h (slice bytes next (h_payloadLength h)) x)
              (extract_loop io stored staging bytes (next + h_payloadLength h))
      else Inr x)"
  by pat_completeness auto
termination
  by (relation "measure (\<lambda>(io, stored, staging, bytes, offset, x). length bytes - offset)")
    (auto dest!: readHeader_next)

declare extract_loop.simps [simp del]

fun set_directory_times :: "(fs_op \<Rightarrow> unit res) \<Rightarrow> (nat \<Rightarrow> nat) \<Rightarrow> (string \<times> nat) list \<Rightarrow> extraction \<Rightarrow> extracted" where
  "set_directory_times io stored [] x = Inr x"
| "set_directory_times io stored ((p, t) # ts) x =
     bind_res (x_op io (Op_utimes (path_parts p) (stored t)) x) (set_directory_times io stored ts)"

definition extract_try :: "(fs_op \<Rightarrow> unit res) \<Rightarrow> (nat \<Rightarrow> nat) \<Rightarrow> string \<Rightarrow> byte list \<Rightarrow> string \<Rightarrow> extraction \<Rightarrow> extracted" where
  "extract_try io stored staging bytes destination x =
     bind_res (extract_loop io stored staging bytes (length MAGIC) x) (\<lambda>x.
     bind_res (set_directory_times io stored (rev (x_times x)) x) (\<lambda>x.
     bind_res (x_op io (Op_rm (path_parts destination)) x)
       (x_op io (Op_rename (path_parts staging) (path_parts destination)))))"

definition staging_path :: "string \<Rightarrow> string \<Rightarrow> string" where
  "staging_path uuid destination = path_join [dirname destination, ''.staging-'' @ uuid]"

definition extractCfs :: "(fs_op \<Rightarrow> unit res) \<Rightarrow> (nat \<Rightarrow> nat) \<Rightarrow> string \<Rightarrow> byte list \<Rightarrow> string \<Rightarrow> fs \<Rightarrow> unit res \<times> fs" where
  "extractCfs io stored uuid bytes destination f =
     (if slice bytes 0 (length MAGIC) \<noteq> MAGIC then (Inl (service_err BACKEND_ERROR ''Invalid CFS magic''), f)
      else let staging = staging_path uuid destination in
      case fs_run io (Op_mkdir (path_parts staging) 448) f of
        Inl e \<Rightarrow> (Inl e, f)
      | Inr f \<Rightarrow>
      case extract_try io stored staging bytes destination \<lparr>x_fs = f, x_types = Map.empty, x_times = []\<rparr> of
        Inr x \<Rightarrow> (Inr (), x_fs x)
      | Inl (e, x) \<Rightarrow>
          (case fs_run io (Op_rm (path_parts staging)) (x_fs x) of
             Inl e' \<Rightarrow> (Inl e', x_fs x)
           | Inr f \<Rightarrow> (Inl e, f)))"

definition materializeCfs :: "(fs_op \<Rightarrow> unit res) \<Rightarrow> (nat \<Rightarrow> nat) \<Rightarrow> string \<Rightarrow> byte list \<Rightarrow> string \<Rightarrow> fs \<Rightarrow> unit res \<times> fs" where
  "materializeCfs io stored uuid bytes destination f =
     (case fs_run io (Op_mkdirp (path_parts (dirname destination)) 448) f of
        Inl e \<Rightarrow> (Inl e, f)
      | Inr f \<Rightarrow> extractCfs io stored uuid bytes destination f)"

section \<open>Snapshots from a guest\<close>

definition ingest_validate :: "(fs_op \<Rightarrow> unit res) \<Rightarrow> (nat \<Rightarrow> nat) \<Rightarrow> string \<Rightarrow> string \<Rightarrow> byte list \<Rightarrow> string \<Rightarrow> fs \<Rightarrow> unit res \<times> fs" where
  "ingest_validate io stored uuid validationUuid bytes objectRoot f =
     (let validationRoot = resolve_path objectRoot (''../../staging/validate-'' @ validationUuid) in
      case fs_run io (Op_mkdirp (path_parts validationRoot) 448) f of
        Inl e \<Rightarrow> (Inl e, f)
      | Inr f \<Rightarrow>
          (case extractCfs io stored uuid bytes (path_join [validationRoot, ''workspace'']) f of
             (r, f) \<Rightarrow>
               (case fs_run io (Op_rm (path_parts validationRoot)) f of
                  Inl e \<Rightarrow> (Inl e, f)
                | Inr f \<Rightarrow> (r, f))))"

text \<open>The object is linked to its final name; from another device, it is copied.\<close>

definition ingest_link :: "(fs_op \<Rightarrow> unit res) \<Rightarrow> string \<Rightarrow> string \<Rightarrow> byte list \<Rightarrow> fs \<Rightarrow> unit res \<times> fs" where
  "ingest_link io sourcePath finalPath bytes f =
     (case fs_run io (Op_link (path_parts sourcePath) (path_parts finalPath)) f of
        Inr f \<Rightarrow> (Inr (), f)
      | Inl e \<Rightarrow>
          if e = PlainError ''EEXIST'' then (Inr (), f)
          else if e \<noteq> PlainError ''EXDEV'' then (Inl e, f)
          else (case fs_run io (Op_write (path_parts finalPath) bytes 256) f of
             Inl e \<Rightarrow> (Inl e, f)
           | Inr f \<Rightarrow> (Inr (), f)))"

definition ingestCfs :: "(fs_op \<Rightarrow> unit res) \<Rightarrow> (nat \<Rightarrow> nat) \<Rightarrow> (string \<Rightarrow> string) \<Rightarrow> string \<Rightarrow> string \<Rightarrow> string \<Rightarrow> byte list \<Rightarrow> string \<Rightarrow> digest option \<Rightarrow> fs \<Rightarrow> cfs_object res \<times> fs" where
  "ingestCfs io stored sha uuid validationUuid sourcePath bytes objectRoot expectedDigest f =
     (let treeDigest = digest_of sha (string_of bytes);
          finalPath = path_join [objectRoot, ''sha256'', drop 7 treeDigest] in
      if length bytes > MAX_TREE_BYTES then (Inl (service_err SNAPSHOT_LIMIT ''Snapshot exceeds total size limit''), f)
      else if expectedDigest \<noteq> None \<and> expectedDigest \<noteq> Some [] \<and> expectedDigest \<noteq> Some treeDigest
      then (Inl (service_err BACKEND_ERROR ''Guest snapshot digest mismatch''), f)
      else case ingest_validate io stored uuid validationUuid bytes objectRoot f of
        (Inl e, f) \<Rightarrow> (Inl e, f)
      | (Inr _, f) \<Rightarrow>
      case fs_run io (Op_mkdirp (path_parts (path_join [objectRoot, ''sha256''])) 448) f of
        Inl e \<Rightarrow> (Inl e, f)
      | Inr f \<Rightarrow>
      case ingest_link io sourcePath finalPath bytes f of
        (Inl e, f) \<Rightarrow> (Inl e, f)
      | (Inr _, f) \<Rightarrow>
      case fs_run io (Op_chmod (path_parts finalPath) 256) f of
        Inl e \<Rightarrow> (Inl e, f)
      | Inr f \<Rightarrow> (Inr \<lparr>co_treeDigest = treeDigest, co_path = finalPath, co_sizeBytes = length bytes\<rparr>, f))"

section \<open>Reading back what was written\<close>

lemma encodeHeader_Inr: "encodeHeader h = Inr bs \<longleftrightarrow>
    length (h_path h) < 2 ^ 32 \<and> h_mode h < 2 ^ 32 \<and> 0 \<le> h_mtimeNs h \<and> h_mtimeNs h < 2 ^ 64 \<and>
    h_payloadLength h < 2 ^ 64 \<and>
    bs = be_bytes 4 (length (h_path h)) @ bytes_of (h_path h) @ [word_of_nat (h_type h)] @
      be_bytes 4 (h_mode h) @ be_bytes 8 (nat (h_mtimeNs h)) @ be_bytes 8 (h_payloadLength h)"
  by (auto simp: encodeHeader_def Let_def res_simps u32_Inr u64_Inr)

lemma slice_append: "length xs = a \<Longrightarrow> length ys = n \<Longrightarrow> slice (xs @ ys @ zs) a n = ys"
  by (simp add: slice_def)

lemma slice_skip [simp]: "slice (xs @ ys) (length xs + a) n = slice ys a n"
  by (simp add: slice_def)

text \<open>What a header must satisfy for the reader to accept it.\<close>

definition header_ok :: "entry_header \<Rightarrow> bool" where
  "header_ok h \<longleftrightarrow> \<not> unsafe_path (h_path h) \<and> utf8_valid (bytes_of (h_path h)) \<and> h_type h < 256 \<and>
     h_mode h AND 3072 = 0 \<and> h_payloadLength h \<le> 2 ^ 53 - 1"

lemma readHeader_encodeHeader:
  assumes enc: "encodeHeader h = Inr bs" and ok: "header_ok h"
  shows "readHeader (pre @ bs @ post) (length pre) = Inr (h, length pre + length bs)"
proof -
  let ?p = "bytes_of (h_path h)" and ?n = "length (h_path h)"
  have b: "?n < 2 ^ 32" "h_mode h < 2 ^ 32" "0 \<le> h_mtimeNs h" "nat (h_mtimeNs h) < 2 ^ 64" "h_payloadLength h < 2 ^ 64"
    and bs: "bs = be_bytes 4 ?n @ ?p @ [word_of_nat (h_type h)] @
      be_bytes 4 (h_mode h) @ be_bytes 8 (nat (h_mtimeNs h)) @ be_bytes 8 (h_payloadLength h)"
    using enc by (auto simp: encodeHeader_Inr)
  have len: "length bs = 4 + ?n + 21" unfolding bs by simp
  have at: "slice (pre @ bs @ post) (length pre) 4 = be_bytes 4 ?n"
    "slice (pre @ bs @ post) (length pre + 4) ?n = ?p"
    "(pre @ bs @ post) ! (length pre + 4 + ?n) = word_of_nat (h_type h)"
    "slice (pre @ bs @ post) (length pre + 4 + ?n + 1) 4 = be_bytes 4 (h_mode h)"
    "slice (pre @ bs @ post) (length pre + 4 + ?n + 5) 8 = be_bytes 8 (nat (h_mtimeNs h))"
    "slice (pre @ bs @ post) (length pre + 4 + ?n + 13) 8 = be_bytes 8 (h_payloadLength h)"
    unfolding bs slice_def by (simp_all add: nth_append)
  have "unat (word_of_nat (h_type h) :: byte) = h_type h" using ok by (simp add: header_ok_def unat_byte)
  then show ?thesis
    using ok b len unfolding readHeader_def Let_def at(1) be_nat_u32 [OF b(1)] at(2-)
    by (simp add: be_nat_u32 be_nat_u64 utf8_string_valid header_ok_def validateRelativePath_def)
qed

end
