(* ===== verification/Cfs_Safety.thy ===== *)
theory Cfs_Safety
  imports Cfs
begin

text \<open>
  Where an extraction writes. The first part relates the strings that \<open>resolve\<close>, \<open>dirname\<close>
  and \<open>startsWith\<close> compute with the paths of \<open>Files\<close>; the second shows that operations below a
  directory leave the rest of the file system alone; the third that an extraction, of any
  bytes and whichever call fails, only issues such operations until it replaces its destination.
\<close>

section \<open>Paths as strings and as names\<close>

definition good_path :: "path \<Rightarrow> bool" where
  "good_path ps \<longleftrightarrow> list_all (\<lambda>p. plain_part p \<and> CHR ''/'' \<notin> set p) ps"

lemma good_path_simps [simp]:
  "good_path []"
  "good_path (p # ps) \<longleftrightarrow> plain_part p \<and> CHR ''/'' \<notin> set p \<and> good_path ps"
  "good_path (ps @ qs) \<longleftrightarrow> good_path ps \<and> good_path qs"
  by (simp_all add: good_path_def)

lemma good_path_butlast [simp]: "good_path ps \<Longrightarrow> good_path (butlast ps)"
  by (auto simp: good_path_def list_all_iff dest: in_set_butlastD)

lemma split_on_append_sep: "split_on c (xs @ c # ys) = split_on c xs @ split_on c ys"
  by (induction xs) (auto split: list.splits)

lemma split_join_good: "good_path ps \<Longrightarrow> ps \<noteq> [] \<Longrightarrow> split_on (CHR ''/'') (join_with (CHR ''/'') ps) = ps"
  by (rule split_join) (auto simp: good_path_def list_all_iff)

lemma split_abs_path: "good_path ps \<Longrightarrow> split_on (CHR ''/'') (abs_path ps) = [] # (if ps = [] then [[]] else ps)"
  by (simp add: abs_path_def split_join_good)

lemma path_parts_abs [simp]: "good_path ps \<Longrightarrow> path_parts (abs_path ps) = ps"
  by (auto simp: path_parts_def split_abs_path good_path_def list_all_iff plain_part_def filter_id_conv)

lemma foldl_add_part: "good_path ps \<Longrightarrow> foldl add_part acc ps = acc @ ps"
  by (induction ps arbitrary: acc) (auto simp: add_part_def plain_part_def)

lemma abs_path_inject [simp]: "good_path ps \<Longrightarrow> good_path qs \<Longrightarrow> abs_path ps = abs_path qs \<longleftrightarrow> ps = qs"
  by (metis path_parts_abs)

lemma normal_parts_abs [simp]: "good_path ps \<Longrightarrow> normal_parts (abs_path ps) = ps"
  by (simp add: normal_parts_def split_abs_path add_part_def foldl_add_part)

lemma resolve_abs:
  assumes "good_path s" "\<not> starts_with ''/'' t"
  shows "resolve_path (abs_path s) t = abs_path (foldl add_part s (split_on (CHR ''/'') t))"
proof -
  have "normal_parts (abs_path s @ CHR ''/'' # t) = foldl add_part (normal_parts (abs_path s)) (split_on (CHR ''/'') t)"
    by (simp only: normal_parts_def split_on_append_sep foldl_append)
  with assms show ?thesis by (simp add: resolve_path_def)
qed

lemma good_path_add_parts:
  "good_path s \<Longrightarrow> list_all (\<lambda>p. CHR ''/'' \<notin> set p) ps \<Longrightarrow> good_path (foldl add_part s ps)"
  by (induction ps arbitrary: s) (auto simp: add_part_def plain_part_def)

lemma good_path_resolve: "good_path (foldl add_part s (split_on (CHR ''/'') t))" if "good_path s"
  using that by (rule good_path_add_parts) (auto simp: list_all_iff dest: split_on_parts)

lemma safe_path_good:
  assumes "\<not> unsafe_path r"
  shows "good_path (split_on (CHR ''/'') r)" "split_on (CHR ''/'') r \<noteq> []" "\<not> starts_with ''/'' r"
  using assms split_on_parts [of _ "CHR ''/''" r]
  by (auto simp: unsafe_path_def good_path_def list_all_iff list_ex_iff plain_part_def)

lemma abs_path_append:
  "good_path (s @ q) \<Longrightarrow> s \<noteq> [] \<Longrightarrow> q \<noteq> [] \<Longrightarrow> abs_path (s @ q) = abs_path s @ CHR ''/'' # join_with (CHR ''/'') q"
proof (induction s)
  case (Cons x s)
  then show ?case
    by (cases s; cases q) (auto simp: abs_path_def)
qed simp

lemma path_parts_dirname [simp]: "good_path ps \<Longrightarrow> path_parts (dirname (abs_path ps)) = butlast ps"
proof (cases "butlast ps = []")
  case True
  assume "good_path ps"
  with True show ?thesis
    by (cases ps) (auto simp: dirname_def split_abs_path path_parts_def split: if_splits)
next
  case False
  assume g: "good_path ps"
  have "ps \<noteq> []" using False by auto
  then have "dirname (abs_path ps) = join_with (CHR ''/'') ([] # butlast ps)"
    using g False by (simp add: dirname_def split_abs_path)
  also have "\<dots> = abs_path (butlast ps)" using False by (cases "butlast ps") (auto simp: abs_path_def)
  finally show ?thesis using g by simp
qed

lemma dirname_abs: "good_path ps \<Longrightarrow> butlast ps \<noteq> [] \<Longrightarrow> dirname (abs_path ps) = abs_path (butlast ps)"
proof -
  assume g: "good_path ps" and b: "butlast ps \<noteq> []"
  then have "ps \<noteq> []" by auto
  then have "dirname (abs_path ps) = join_with (CHR ''/'') ([] # butlast ps)"
    using g b by (simp add: dirname_def split_abs_path)
  then show ?thesis using b by (cases "butlast ps") (auto simp: abs_path_def)
qed

lemma safeDestination_abs:
  assumes "good_path s" "s \<noteq> []" "\<not> unsafe_path r"
  shows "safeDestination (abs_path s) r = Inr (abs_path (s @ split_on (CHR ''/'') r))"
  using assms safe_path_good [OF assms(3)]
  by (simp add: safeDestination_def resolve_abs foldl_add_part abs_path_append starts_with_iff)

section \<open>Operations below a directory\<close>

text \<open>
  A well-formed file system: names have allocated inodes and are in directories, and a directory
  has one name. A directory is \<open>sealed\<close> when no inode has a name below it and one elsewhere; what is elsewhere is \<open>outside\<close>.
\<close>

definition fs_ok :: "fs \<Rightarrow> bool" where
  "fs_ok f \<longleftrightarrow> (\<forall>p i. f_names f p = Some i \<longrightarrow> i < f_next f \<and> (p \<noteq> [] \<longrightarrow> is_dir f (butlast p)) \<and>
     (\<forall>q. f_names f q = Some i \<and> is_dir f p \<longrightarrow> q = p))"

definition sealed :: "path \<Rightarrow> fs \<Rightarrow> bool" where
  "sealed s f \<longleftrightarrow> is_dir f s \<and>
     (\<forall>p q i. f_names f p = Some i \<and> f_names f q = Some i \<and> prefix s p \<longrightarrow> prefix s q)"

definition outside :: "path \<Rightarrow> fs \<Rightarrow> path \<Rightarrow> inode option" where
  "outside s f p = (if prefix s p then None else lookup_inode f p)"

definition confined :: "path \<Rightarrow> (path \<Rightarrow> inode option) \<Rightarrow> fs \<Rightarrow> bool" where
  "confined s v f \<longleftrightarrow> fs_ok f \<and> sealed s f \<and> outside s f = v"

fun op_below :: "path \<Rightarrow> fs_op \<Rightarrow> bool" where
  "op_below s (Op_mkdirp p m) = prefix s p"
| "op_below s (Op_mkdir p m) = strict_prefix s p"
| "op_below s (Op_write p bs m) = strict_prefix s p"
| "op_below s (Op_append p bs) = prefix s p"
| "op_below s (Op_symlink t p) = strict_prefix s p"
| "op_below s (Op_link p q) = (prefix s p \<and> strict_prefix s q)"
| "op_below s (Op_chmod p m) = prefix s p"
| "op_below s (Op_utimes p t) = prefix s p"
| "op_below s (Op_lutimes p t) = prefix s p"
| "op_below s (Op_rm p) = False"
| "op_below s (Op_rename p q) = False"

lemma strict_prefix_butlast: "strict_prefix s p \<longleftrightarrow> p \<noteq> [] \<and> prefix s (butlast p)"
  by (cases p rule: rev_cases) (auto simp: strict_prefix_def)

lemma change_inode_simps [simp]:
  "f_names (change_inode i g f) = f_names f"
  "f_next (change_inode i g f) = f_next f"
  "f_inodes (change_inode i g f) = (f_inodes f)(i := g (f_inodes f i))"
  by (simp_all add: change_inode_def)

lemma touch_dir_names [simp]: "f_names (touch_dir p f) = f_names f" "f_next (touch_dir p f) = f_next f"
  by (simp_all add: touch_dir_def split: option.splits)

lemma i_body_set [simp]:
  "i_body (set_mtime t n) = i_body n" "i_body (set_mode m n) = i_body n"
  "i_body (add_bytes bs n) = B_dir \<longleftrightarrow> i_body n = B_dir"
  by (simp_all add: set_mtime_def set_mode_def add_bytes_def split: body.splits)

lemma is_dir_change [simp]:
  "(\<And>n. i_body (g n) = B_dir \<longleftrightarrow> i_body n = B_dir) \<Longrightarrow> is_dir (change_inode i g f) p = is_dir f p"
  by (auto simp: is_dir_def lookup_inode_def split: option.splits)

lemma is_dir_touch [simp]: "is_dir (touch_dir q f) p = is_dir f p"
  by (simp add: touch_dir_def split: option.splits)

lemma is_dir_named: "is_dir f p \<Longrightarrow> \<exists>i. f_names f p = Some i"
  by (auto simp: is_dir_def lookup_inode_def split: option.splits)

lemma fs_ok_ancestor: "fs_ok f \<Longrightarrow> f_names f (p @ q) \<noteq> None \<Longrightarrow> q \<noteq> [] \<Longrightarrow> is_dir f p"
proof (induction q rule: rev_induct)
  case (snoc x q)
  then have d: "is_dir f (butlast (p @ q @ [x]))"
    unfolding fs_ok_def by blast
  show ?case
  proof (cases "q = []")
    case True
    with d show ?thesis by (simp add: butlast_append)
  next
    case False
    with d snoc.IH snoc.prems show ?thesis by (auto simp: butlast_append dest: is_dir_named)
  qed
qed simp

lemma confined_change:
  assumes c: "confined s v f" and n: "f_names f p = Some i" "prefix s p"
    and g: "\<And>n. i_body (g n) = B_dir \<longleftrightarrow> i_body n = B_dir"
  shows "confined s v (change_inode i g f)"
proof -
  have "outside s (change_inode i g f) = outside s f"
  proof
    fix q
    have "f_names f q = Some i \<Longrightarrow> prefix s q" using c n by (auto simp: confined_def sealed_def)
    then show "outside s (change_inode i g f) q = outside s f q"
      by (cases "f_names f q") (auto simp: outside_def lookup_inode_def)
  qed
  then show ?thesis using c g by (auto simp: confined_def sealed_def fs_ok_def)
qed

lemma confined_touch: "confined s v f \<Longrightarrow> prefix s p \<Longrightarrow> confined s v (touch_dir p f)"
  by (auto simp: touch_dir_def split: option.splits intro!: confined_change)

lemma confined_change_at:
  assumes "confined s v f" "prefix s p" "change_at p g f = Inr f'"
    and "\<And>n. i_body (g n) = B_dir \<longleftrightarrow> i_body n = B_dir"
  shows "confined s v f'"
  using assms by (auto simp: change_at_def split: option.splits intro: confined_change)

lemma confined_add_name:
  assumes c: "confined s v f" and p: "strict_prefix s p" and i: "i < f_next f"
    and names: "\<And>q. f_names f q = Some i \<Longrightarrow> prefix s q \<and> \<not> is_dir f q"
    and add: "add_name p i f = Inr f'"
  shows "confined s v f'"
proof -
  let ?g = "touch_dir (butlast p) f"
  have f': "f' = ?g\<lparr>f_names := (f_names f)(p := Some i)\<rparr>" "f_names f p = None" "is_dir f (butlast p)"
    using add by (auto simp: add_name_def split: if_splits)
  have g: "confined s v ?g" using c p by (simp add: strict_prefix_butlast confined_touch)
  have same: "is_dir f' q = is_dir f q" if "q \<noteq> p" for q
  proof -
    have "is_dir f' q = is_dir ?g q" using that f'(1) by (simp add: is_dir_def lookup_inode_def)
    then show ?thesis by simp
  qed
  then have dirs: "is_dir f' q" if "is_dir f q" for q
    using that f'(2) by (cases "q = p") (auto dest: is_dir_named)
  have only: "f_names f q \<noteq> Some i" if "is_dir f' p" for q
  proof
    assume q: "f_names f q = Some i"
    then have "\<not> is_dir f q" "q \<noteq> p" using names f'(2) by auto
    moreover have "is_dir f' p = is_dir f' q" using q f'(1) \<open>q \<noteq> p\<close> by (simp add: is_dir_def lookup_inode_def)
    ultimately show False using that same by simp
  qed
  have "fs_ok f'"
    unfolding fs_ok_def
  proof (intro allI impI)
    fix q j assume "f_names f' q = Some j"
    then have "q = p \<and> j = i \<or> q \<noteq> p \<and> f_names f q = Some j" using f'(1) by (auto split: if_splits)
    moreover have "r = q" if "f_names f' r = Some j" "is_dir f' q" for r
      using that same f'(1) \<open>f_names f' q = Some j\<close> names c only
      by (auto simp: confined_def fs_ok_def split: if_splits)
    ultimately show "j < f_next f' \<and> (q \<noteq> [] \<longrightarrow> is_dir f' (butlast q)) \<and>
        (\<forall>r. f_names f' r = Some j \<and> is_dir f' q \<longrightarrow> r = q)"
      using dirs f' i c by (auto simp: confined_def fs_ok_def)
  qed
  moreover have "sealed s f'"
  proof -
    have "prefix s q" if "f_names f' a = Some j" "f_names f' q = Some j" "prefix s a" for a q j
      using that f'(1) names p c
      by (auto simp: confined_def sealed_def strict_prefix_def split: if_splits)
    then show ?thesis using dirs c by (auto simp: confined_def sealed_def)
  qed
  moreover have "outside s f' = v"
  proof
    fix q
    show "outside s f' q = v q"
      using g f'(1) p by (auto simp: confined_def outside_def lookup_inode_def strict_prefix_def)
  qed
  ultimately show ?thesis by (simp add: confined_def)
qed

lemma confined_alloc:
  assumes c: "confined s v f"
  shows "confined s v (f\<lparr>f_inodes := (f_inodes f)(f_next f := n), f_next := f_next f + 1\<rparr>)" (is "confined s v ?g")
proof -
  have l: "lookup_inode ?g p = lookup_inode f p" for p
    using c by (cases "f_names f p") (auto simp: confined_def fs_ok_def lookup_inode_def)
  then have "is_dir ?g = is_dir f" by (simp add: fun_eq_iff is_dir_def)
  then show ?thesis using c l by (auto simp: confined_def fs_ok_def sealed_def outside_def less_Suc_eq)
qed

lemma confined_create:
  assumes c: "confined s v f" and p: "strict_prefix s p" and cr: "create p b m f = Inr f'"
  shows "confined s v f'"
proof -
  have "f_names f q \<noteq> Some (f_next f)" for q using c by (auto simp: confined_def fs_ok_def)
  then show ?thesis
    by (intro confined_add_name [OF confined_alloc [OF c] p _ _ cr [unfolded create_def]]) auto
qed

lemma missing_below:
  assumes c: "confined s v f" and p: "prefix s (q @ x # xs)" and new: "f_names f (q @ [x]) = None"
  shows "strict_prefix s (q @ [x])"
proof -
  from p consider "prefix s (q @ [x])" | zs where "s = (q @ [x]) @ zs" "zs \<noteq> []"
    by (auto simp: prefix_append prefix_Cons)
  then show ?thesis
  proof cases
    case 1
    moreover have "s \<noteq> q @ [x]" using new c by (auto simp: confined_def sealed_def dest: is_dir_named)
    ultimately show ?thesis by (simp add: strict_prefix_def)
  next
    case (2 zs)
    have "f_names f ((q @ [x]) @ zs) \<noteq> None" using c 2(1)
      by (auto simp: confined_def sealed_def dest: is_dir_named)
    then have "is_dir f (q @ [x])" using fs_ok_ancestor [of f "q @ [x]" zs] c 2(2)
      by (simp add: confined_def)
    then show ?thesis using new by (auto dest: is_dir_named)
  qed
qed

lemma confined_mkdirp:
  "confined s v f \<Longrightarrow> prefix s (q @ ps) \<Longrightarrow> mkdirp m q ps f = Inr f' \<Longrightarrow> confined s v f'"
proof (induction m q ps f arbitrary: f' rule: mkdirp.induct)
  case (2 m q x xs f)
  show ?case
  proof (cases "f_names f (q @ [x]) = None")
    case True
    then obtain g where g: "create (q @ [x]) B_dir m f = Inr g" "mkdirp m (q @ [x]) xs g = Inr f'"
      using 2(5) by (auto simp: bind_res_Inr)
    have "strict_prefix s (q @ [x])" by (rule missing_below [OF 2(3,4) True])
    then have "confined s v g" using confined_create 2(3) g(1) by blast
    then show ?thesis using 2(1) [OF True _ _ g(2)] 2(4) by simp
  next
    case False
    then show ?thesis using 2 by (auto split: if_splits)
  qed
qed simp

lemma confined_apply:
  assumes "confined s v f" "op_below s op" "fs_apply op f = Inr f'"
  shows "confined s v f'"
proof (cases op)
  case (Op_link p q)
  then obtain i where i: "f_names f p = Some i" "\<not> is_dir f p" "add_name q i f = Inr f'"
    using assms(3) by (auto split: option.splits if_splits)
  have "i < f_next f" using assms(1) i(1) by (simp add: confined_def fs_ok_def)
  moreover have "prefix s r \<and> \<not> is_dir f r" if r: "f_names f r = Some i" for r
  proof -
    have "is_dir f r = is_dir f p" using r i(1) by (simp add: is_dir_def lookup_inode_def)
    then show ?thesis using assms(1,2) r i Op_link by (auto simp: confined_def sealed_def)
  qed
  ultimately show ?thesis using confined_add_name [OF assms(1) _ _ _ i(3)] assms(2) Op_link by auto
next
  case (Op_mkdirp p m)
  then show ?thesis using assms confined_mkdirp [of s v f "[]" p] by simp
qed (use assms in \<open>auto intro: confined_create confined_change_at [where g = "set_mtime _"]
  confined_change_at [where g = "set_mode _"] confined_change_at [where g = "add_bytes _"]\<close>)

lemma confined_run: "confined s v f \<Longrightarrow> op_below s op \<Longrightarrow> fs_run io op f = Inr f' \<Longrightarrow> confined s v f'"
  by (auto simp: fs_run_def bind_res_Inr intro: confined_apply)

section \<open>Bodies\<close>

definition bodies :: "fs \<Rightarrow> path \<Rightarrow> body option" where
  "bodies f p = map_option i_body (lookup_inode f p)"

lemma is_dir_bodies: "is_dir f p \<longleftrightarrow> bodies f p = Some B_dir"
  by (auto simp: is_dir_def bodies_def split: option.splits)

lemma bodies_change [simp]: "(\<And>n. i_body (g n) = i_body n) \<Longrightarrow> bodies (change_inode i g f) = bodies f"
  by (auto simp: bodies_def lookup_inode_def fun_eq_iff option.map_comp split: option.splits intro!: map_option_cong)

lemma bodies_touch [simp]: "bodies (touch_dir p f) = bodies f"
  by (simp add: touch_dir_def split: option.splits)

lemma bodies_change_at:
  "change_at p g f = Inr f' \<Longrightarrow> (\<And>n. i_body (g n) = i_body n) \<Longrightarrow> bodies f' = bodies f"
  by (auto simp: change_at_def split: option.splits)

lemma bodies_add_name:
  "add_name p i f = Inr f' \<Longrightarrow> bodies f' = (bodies f)(p := Some (i_body (f_inodes f i)))"
proof -
  assume add: "add_name p i f = Inr f'"
  let ?g = "touch_dir (butlast p) f"
  have f': "f' = ?g\<lparr>f_names := (f_names f)(p := Some i)\<rparr>"
    using add by (auto simp: add_name_def split: if_splits)
  have body: "i_body (f_inodes ?g j) = i_body (f_inodes f j)" for j
    by (simp add: touch_dir_def split: option.splits)
  show ?thesis
    unfolding f' by (auto simp: fun_eq_iff bodies_def lookup_inode_def option.map_comp body intro!: map_option_cong)
qed

lemma bodies_create:
  assumes "fs_ok f" "create p b m f = Inr f'"
  shows "bodies f' = (bodies f)(p := Some b)"
proof -
  let ?g = "f\<lparr>f_inodes := (f_inodes f)(f_next f := \<lparr>i_body = b, i_mode = m, i_mtime = None\<rparr>), f_next := f_next f + 1\<rparr>"
  have "bodies ?g q = bodies f q" for q
    using assms(1) by (cases "f_names f q") (auto simp: fs_ok_def bodies_def lookup_inode_def)
  then have "bodies ?g = bodies f" by blast
  with bodies_add_name [of p "f_next f" ?g f'] assms(2) show ?thesis by (simp add: create_def)
qed

lemma create_new: "create p b m f = Inr f' \<Longrightarrow> bodies f p = None"
  by (auto simp: create_def add_name_def bodies_def lookup_inode_def split: if_splits)

lemma bodies_mkdirp:
  assumes "confined s v f" "prefix s (q @ ps)" "mkdirp m q ps f = Inr f'"
  shows "bodies f' p = bodies f p \<or> bodies f p = None \<and> bodies f' p = Some B_dir"
  using assms
proof (induction m q ps f arbitrary: f' rule: mkdirp.induct)
  case (2 m q x xs f)
  show ?case
  proof (cases "f_names f (q @ [x]) = None")
    case True
    then obtain g where g: "create (q @ [x]) B_dir m f = Inr g" "mkdirp m (q @ [x]) xs g = Inr f'"
      using 2(5) by (auto simp: bind_res_Inr)
    have c: "confined s v g"
      by (rule confined_create [OF 2(3) missing_below [OF 2(3,4) True] g(1)])
    have "bodies g = (bodies f)(q @ [x] := Some B_dir)"
      using bodies_create 2(3) g(1) by (simp add: confined_def)
    then show ?thesis using 2(1) [OF True c _ g(2)] 2(4) create_new [OF g(1)]
      by (auto split: if_splits)
  next
    case False
    then show ?thesis using 2 by (auto split: if_splits)
  qed
qed simp

section \<open>What an extraction does\<close>

text \<open>\<open>E\<close> holds of the state in which a computation throws, \<open>P\<close> of the one it returns.\<close>

definition outcome :: "('s \<Rightarrow> bool) \<Rightarrow> ('s \<Rightarrow> bool) \<Rightarrow> js_error \<times> 's + 's \<Rightarrow> bool" where
  "outcome E P r = (case r of Inl (e, s) \<Rightarrow> E s | Inr s \<Rightarrow> P s)"

lemma outcome_simps [simp]:
  "outcome E P (Inl (e, s)) = E s"
  "outcome E P (Inr s) = P s"
  by (simp_all add: outcome_def)

lemma outcome_bind:
  "outcome E Q m \<Longrightarrow> (\<And>s. Q s \<Longrightarrow> outcome E P (f s)) \<Longrightarrow> outcome E P (bind_res m f)"
  by (cases m) (auto simp: outcome_def [of E Q] outcome_def [of E P "Inl _"])

lemma outcome_at_state:
  "E s \<Longrightarrow> (\<And>x. r = Inr x \<Longrightarrow> outcome E P (f x)) \<Longrightarrow> outcome E P (bind_res (at_state s r) f)"
  by (cases r) auto

text \<open>A symbolic link below the staging directory is an entry seen before, and every entry seen is there.\<close>

fun body_matches :: "body \<Rightarrow> nat \<Rightarrow> bool" where
  "body_matches B_dir ty = (ty = TYPE_DIRECTORY)"
| "body_matches (B_file bs) ty = (ty = TYPE_FILE \<or> ty = TYPE_HARDLINK)"
| "body_matches (B_symlink t) ty = (ty = TYPE_SYMLINK)"

definition place :: "path \<Rightarrow> string \<Rightarrow> path" where
  "place s r = s @ split_on (CHR ''/'') r"

definition tracked :: "path \<Rightarrow> (path \<Rightarrow> body option) \<Rightarrow> (string \<Rightarrow> nat option) \<Rightarrow> bool" where
  "tracked s B T \<longleftrightarrow>
     (\<forall>p t. prefix s p \<and> B p = Some (B_symlink t) \<longrightarrow>
        (\<exists>r. \<not> unsafe_path r \<and> p = place s r \<and> T r = Some TYPE_SYMLINK)) \<and>
     (\<forall>r ty. T r = Some ty \<longrightarrow> \<not> unsafe_path r \<and> (\<exists>b. B (place s r) = Some b \<and> body_matches b ty))"

lemma place_inject [simp]: "place s r = place s r' \<longleftrightarrow> r = r'"
  unfolding place_def by (metis join_split same_append_eq)

lemma place_simps [simp]: "prefix s (place s r)" "strict_prefix s (place s r)"
  by (simp_all add: place_def strict_prefix_def)

lemma good_place [simp]: "good_path s \<Longrightarrow> \<not> unsafe_path r \<Longrightarrow> good_path (place s r)"
  by (simp add: place_def safe_path_good)

lemma tracked_mono:
  assumes "tracked s B T" "\<And>p. B' p = B p \<or> B p = None \<and> B' p = Some B_dir"
  shows "tracked s B' T"
proof -
  have "B p = Some (B_symlink t)" if "B' p = Some (B_symlink t)" for p t
    using assms(2) [of p] that by auto
  moreover have "B' p = Some b" if "B p = Some b" for p b
    using assms(2) [of p] that by auto
  ultimately show ?thesis using assms(1) unfolding tracked_def by blast
qed

lemma tracked_add:
  assumes t: "tracked s B T" and r: "\<not> unsafe_path r" and b: "body_matches b ty"
  shows "tracked s (B(place s r := Some b)) (T(r := Some ty))"
proof -
  have "\<exists>r'. \<not> unsafe_path r' \<and> p = place s r' \<and> (T(r := Some ty)) r' = Some TYPE_SYMLINK"
    if p: "prefix s p" "(B(place s r := Some b)) p = Some (B_symlink u)" for p u
  proof (cases "p = place s r")
    case True
    then have "ty = TYPE_SYMLINK" using b p by auto
    then show ?thesis using True r by auto
  next
    case False
    then obtain r' where "\<not> unsafe_path r'" "p = place s r'" "T r' = Some TYPE_SYMLINK"
      using t p unfolding tracked_def by auto
    then show ?thesis using False by (auto intro!: exI [of _ r'])
  qed
  moreover have "\<not> unsafe_path r' \<and> (\<exists>b'. (B(place s r := Some b)) (place s r') = Some b' \<and> body_matches b' ty')"
    if "(T(r := Some ty)) r' = Some ty'" for r' ty'
    using that t r b unfolding tracked_def by (cases "r' = r") auto
  ultimately show ?thesis unfolding tracked_def by blast
qed

lemma join_with_snoc: "a \<noteq> [] \<Longrightarrow> join_with c (a @ [p]) = join_with c a @ c # p"
proof (induction a)
  case (Cons x a)
  then show ?case by (cases a) auto
qed simp

lemma check_ancestors_ok:
  assumes "check_ancestors r T (join_with (CHR ''/'') a) ps = Inr ()" "\<forall>p\<in>set (a @ ps). p \<noteq> []"
    and "prefix q ps" "q \<noteq> []"
  shows "T (join_with (CHR ''/'') (a @ q)) \<noteq> Some TYPE_SYMLINK"
  using assms
proof (induction ps arbitrary: a q)
  case (Cons p ps)
  obtain q' where q: "q = p # q'" "prefix q' ps" using Cons.prems(3,4) by (cases q) auto
  have "join_with (CHR ''/'') a = [] \<longleftrightarrow> a = []"
    using Cons.prems(2) by (cases a; cases "tl a") auto
  then have e: "(if join_with (CHR ''/'') a = [] then p else join_with (CHR ''/'') a @ CHR ''/'' # p) = join_with (CHR ''/'') (a @ [p])"
    by (simp add: join_with_snoc)
  have "T (join_with (CHR ''/'') (a @ [p])) \<noteq> Some TYPE_SYMLINK"
    "check_ancestors r T (join_with (CHR ''/'') (a @ [p])) ps = Inr ()"
    using Cons.prems(1) unfolding check_ancestors.simps Let_def e by (auto split: if_splits)
  then show ?case using Cons.IH [of "a @ [p]" q'] Cons.prems(2) q by (cases "q' = []") auto
qed simp

text \<open>
  The check of the ancestors does what it is for: no directory on the way to an entry that
  passes it is a symbolic link, so none of the calls made for the entry follows one.
\<close>

lemma ancestors_are_no_symlinks:
  assumes t: "tracked s B T" and r: "\<not> unsafe_path r"
    and a: "assertNoSymlinkAncestor r T = Inr ()"
    and p: "prefix s p" "strict_prefix p (place s r)"
  shows "B p \<noteq> Some (B_symlink u)"
proof
  assume "B p = Some (B_symlink u)"
  then obtain r' where r': "\<not> unsafe_path r'" "p = place s r'" "T r' = Some TYPE_SYMLINK"
    using t p(1) unfolding tracked_def by blast
  let ?q = "split_on (CHR ''/'') r'" and ?ps = "split_on (CHR ''/'') r"
  have "strict_prefix ?q ?ps" using p(2) r'(2) by (auto simp: place_def strict_prefix_def)
  then have "prefix ?q (butlast ?ps)" by (simp add: strict_prefix_butlast)
  moreover have "\<forall>x\<in>set (butlast ?ps). x \<noteq> []"
    using r by (auto simp: unsafe_path_def list_ex_iff dest: in_set_butlastD)
  ultimately have "T (join_with (CHR ''/'') ?q) \<noteq> Some TYPE_SYMLINK"
    using check_ancestors_ok [of r T "[]" "butlast ?ps" ?q] a by (simp add: assertNoSymlinkAncestor_def)
  then show False using r'(3) by simp
qed

definition in_staging :: "path \<Rightarrow> (path \<Rightarrow> inode option) \<Rightarrow> extraction \<Rightarrow> bool" where
  "in_staging s v x \<longleftrightarrow> confined s v (x_fs x)"

definition times_below :: "path \<Rightarrow> extraction \<Rightarrow> bool" where
  "times_below s x \<longleftrightarrow> list_all (\<lambda>(p, t). \<exists>q. p = abs_path q \<and> good_path q \<and> prefix s q) (x_times x)"

definition extract_inv :: "path \<Rightarrow> (path \<Rightarrow> inode option) \<Rightarrow> extraction \<Rightarrow> bool" where
  "extract_inv s v x \<longleftrightarrow> in_staging s v x \<and> tracked s (bodies (x_fs x)) (x_types x) \<and> times_below s x"

lemma outcome_x_op:
  assumes "in_staging s v x" "op_below s op"
    and "\<And>f'. fs_apply op (x_fs x) = Inr f' \<Longrightarrow> confined s v f' \<Longrightarrow> Q (x\<lparr>x_fs := f'\<rparr>)"
  shows "outcome (in_staging s v) Q (x_op io op x)"
proof -
  have "Q (x\<lparr>x_fs := f'\<rparr>)" if "fs_run io op (x_fs x) = Inr f'" for f'
    using that assms confined_run [of s v "x_fs x" op io f']
    by (auto simp: fs_run_def bind_res_Inr in_staging_def)
  then show ?thesis using assms(1) by (auto simp: x_op_def intro!: outcome_at_state)
qed

text \<open>The body of an entry adds the name of its place and nothing else.\<close>

definition body_added :: "path \<Rightarrow> (path \<Rightarrow> inode option) \<Rightarrow> entry_header \<Rightarrow> extraction \<Rightarrow> extraction \<Rightarrow> bool" where
  "body_added s v h x x' \<longleftrightarrow> in_staging s v x' \<and> times_below s x' \<and> x_types x' = x_types x \<and>
     (\<exists>b. body_matches b (h_type h) \<and> bodies (x_fs x') = (bodies (x_fs x))(place s (h_path h) := Some b))"

lemma outcome_change:
  assumes b: "body_added s v h x0 x" and op: "op_below s op" "\<And>f. fs_apply op f = change_at p g f"
    and g: "\<And>n. i_body (g n) = i_body n"
  shows "outcome (in_staging s v) (body_added s v h x0) (x_op io op x)"
proof (rule outcome_x_op [OF _ op(1)])
  fix f' assume "fs_apply op (x_fs x) = Inr f'" and c: "confined s v f'"
  then have "bodies f' = bodies (x_fs x)" using bodies_change_at g op(2) by metis
  then show "body_added s v h x0 (x\<lparr>x_fs := f'\<rparr>)"
    using b c by (auto simp: body_added_def in_staging_def times_below_def)
qed (use b in \<open>simp add: body_added_def\<close>)

lemma tracked_body: "tracked s B T \<Longrightarrow> T r = Some ty \<Longrightarrow> \<exists>b. B (place s r) = Some b \<and> body_matches b ty"
  unfolding tracked_def by blast

lemma outcome_body:
  assumes x: "extract_inv s v x" and s: "good_path s" "s \<noteq> []" and r: "\<not> unsafe_path (h_path h)"
  shows "outcome (in_staging s v) (body_added s v h x)
    (extract_body io stored (abs_path s) h payload (abs_path (place s (h_path h))) x)"
proof -
  let ?o = "place s (h_path h)"
  have i: "in_staging s v x" "fs_ok (x_fs x)" "times_below s x"
    using x by (simp_all add: extract_inv_def in_staging_def confined_def)
  have o: "path_parts (abs_path ?o) = ?o" "good_path ?o" using s r by simp_all
  have created: "body_added s v h x (x\<lparr>x_fs := f'\<rparr>)"
    if "create ?o b m (x_fs x) = Inr f'" "confined s v f'" "body_matches b (h_type h)" for b m f'
    using that bodies_create [OF i(2) that(1)] i(3)
    by (auto simp: body_added_def in_staging_def times_below_def)
  have ty: "TYPE_DIRECTORY \<noteq> TYPE_FILE" "TYPE_DIRECTORY \<noteq> TYPE_SYMLINK" "TYPE_FILE \<noteq> TYPE_SYMLINK"
    "TYPE_DIRECTORY \<noteq> TYPE_HARDLINK" "TYPE_FILE \<noteq> TYPE_HARDLINK" "TYPE_SYMLINK \<noteq> TYPE_HARDLINK"
    by (simp_all add: TYPE_DIRECTORY_def TYPE_FILE_def TYPE_SYMLINK_def TYPE_HARDLINK_def)
  consider "h_type h = TYPE_DIRECTORY" | "h_type h = TYPE_FILE" | "h_type h = TYPE_SYMLINK" | "h_type h = TYPE_HARDLINK"
    | "h_type h \<notin> {TYPE_DIRECTORY, TYPE_FILE, TYPE_SYMLINK, TYPE_HARDLINK}" by blast
  then show ?thesis
  proof cases
    case 1
    have "body_added s v h x (x'\<lparr>x_times := x_times x' @ [(abs_path ?o, t)]\<rparr>)" if "body_added s v h x x'" for x' t
      using that o(2) by (auto simp: body_added_def in_staging_def times_below_def)
    then show ?thesis using 1 i(1) o created [of B_dir]
      by (auto simp: extract_body_def intro!: outcome_bind [OF outcome_x_op [where Q = "body_added s v h x"]])
  next
    case 2
    then show ?thesis using i(1) o ty created [of "B_file payload"]
      by (auto simp: extract_body_def intro!: outcome_x_op)
  next
    case 3
    have "outcome (in_staging s v) (body_added s v h x)
        (bind_res (x_op io (Op_symlink t ?o) x) (x_op io (Op_lutimes ?o u)))" for t u
    proof (rule outcome_bind [OF outcome_x_op [where Q = "body_added s v h x"]])
      fix x' assume "body_added s v h x x'"
      then show "outcome (in_staging s v) (body_added s v h x) (x_op io (Op_lutimes ?o u) x')"
        by (rule outcome_change [where p = ?o and g = "set_mtime (Some u)"]) simp_all
    qed (use 3 i(1) created [of "B_symlink t"] in auto)
    then show ?thesis using 3 ty i(1) o by (simp add: extract_body_def extract_symlink_def Let_def)
  next
    case 4
    have "outcome (in_staging s v) (body_added s v h x) (x_op io (Op_link (place s t) ?o) x)"
      if t: "x_types x t = Some TYPE_FILE" for t
    proof (rule outcome_x_op)
      obtain b where b: "bodies (x_fs x) (place s t) = Some b" "body_matches b TYPE_FILE"
        using x t tracked_body [of s "bodies (x_fs x)" "x_types x" t] unfolding extract_inv_def by blast
      then have m: "body_matches b (h_type h)" using 4 ty by (cases b) (auto simp: TYPE_SYMLINK_def TYPE_FILE_def)
      fix f' assume "fs_apply (Op_link (place s t) ?o) (x_fs x) = Inr f'" "confined s v f'"
      then show "body_added s v h x (x\<lparr>x_fs := f'\<rparr>)"
        using b(1) m bodies_add_name [of ?o _ "x_fs x" f'] i(3)
        by (auto simp: body_added_def in_staging_def times_below_def bodies_def lookup_inode_def split: option.splits if_splits)
    qed (use i in auto)
    then show ?thesis using 4 ty i(1) s o
      by (auto simp: extract_body_def extract_hardlink_def Let_def validateRelativePath_def
          safeDestination_abs place_def [symmetric] intro!: outcome_at_state split: if_splits)
  next
    case 5
    then show ?thesis using i(1) by (simp add: extract_body_def)
  qed
qed

lemma outcome_attributes:
  assumes x: "body_added s v h x0 x" and o: "good_path q" "prefix s q"
  shows "outcome (in_staging s v) (body_added s v h x0) (extract_attributes io stored h (abs_path q) x)"
proof -
  have op: "outcome (in_staging s v) (body_added s v h x0) (x_op io (Op_chmod q m) x')"
    "outcome (in_staging s v) (body_added s v h x0) (x_op io (Op_utimes q t) x')" if "body_added s v h x0 x'" for x' m t
    using outcome_change [OF that, of "Op_chmod q m" q "set_mode m"] o
      outcome_change [OF that, of "Op_utimes q t" q "set_mtime (Some t)"] by simp_all
  show ?thesis using x o(1) op
    by (auto simp: extract_attributes_def intro!: outcome_bind [where Q = "body_added s v h x0"])
qed

lemma outcome_entry:
  assumes x: "extract_inv s v x" and s: "good_path s" "s \<noteq> []" and r: "\<not> unsafe_path (h_path h)"
  shows "outcome (in_staging s v) (extract_inv s v) (extract_entry io stored (abs_path s) h payload x)"
proof -
  let ?o = "place s (h_path h)"
  have i: "in_staging s v x" using x by (simp add: extract_inv_def)
  have par: "prefix s (butlast ?o)" using place_simps(2) [of s "h_path h"] by (simp add: strict_prefix_butlast)
  have made: "extract_inv s v (x\<lparr>x_fs := f'\<rparr>)"
    if "mkdirp 448 [] (butlast ?o) (x_fs x) = Inr f'" "confined s v f'" for f'
  proof -
    have "tracked s (bodies f') (x_types x)"
    proof (rule tracked_mono)
      show "tracked s (bodies (x_fs x)) (x_types x)" using x by (simp add: extract_inv_def)
      have "confined s v (x_fs x)" "prefix s ([] @ butlast ?o)" using i par by (simp_all add: in_staging_def)
      then show "bodies f' p = bodies (x_fs x) p \<or> bodies (x_fs x) p = None \<and> bodies f' p = Some B_dir" for p
        using that(1) by (rule bodies_mkdirp)
    qed
    then show ?thesis using x that(2) by (simp add: extract_inv_def in_staging_def times_below_def)
  qed
  have rest: "extract_inv s v (x'\<lparr>x_types := (x_types x')(h_path h := Some (h_type h))\<rparr>)"
    if "extract_inv s v y" "body_added s v h y x'" for y x'
    using that r tracked_add [of s "bodies (x_fs y)" "x_types y" "h_path h" _ "h_type h"]
    by (auto simp: extract_inv_def body_added_def in_staging_def times_below_def)
  have "outcome (in_staging s v) (extract_inv s v)
      (bind_res (extract_body io stored (abs_path s) h payload (abs_path ?o) y) (\<lambda>x.
       bind_res (extract_attributes io stored h (abs_path ?o) x) (\<lambda>x.
       Inr (x\<lparr>x_types := (x_types x)(h_path h := Some (h_type h))\<rparr>))))" if y: "extract_inv s v y" for y
  proof (rule outcome_bind [OF outcome_body [OF y s r]])
    fix x assume "body_added s v h y x"
    then have "outcome (in_staging s v) (body_added s v h y) (extract_attributes io stored h (abs_path ?o) x)"
      using s r by (intro outcome_attributes) simp_all
    then show "outcome (in_staging s v) (extract_inv s v) (bind_res (extract_attributes io stored h (abs_path ?o) x) (\<lambda>x.
        Inr (x\<lparr>x_types := (x_types x)(h_path h := Some (h_type h))\<rparr>)))"
      by (rule outcome_bind) (simp add: rest [OF y])
  qed
  then have "outcome (in_staging s v) (extract_inv s v)
      (bind_res (x_op io (Op_mkdirp (butlast ?o) 448) x) (\<lambda>x.
       bind_res (extract_body io stored (abs_path s) h payload (abs_path ?o) x) (\<lambda>x.
       bind_res (extract_attributes io stored h (abs_path ?o) x) (\<lambda>x.
       Inr (x\<lparr>x_types := (x_types x)(h_path h := Some (h_type h))\<rparr>)))))"
    using i par made by (intro outcome_bind [OF outcome_x_op [where Q = "extract_inv s v"]]) auto
  then show ?thesis using i s r safeDestination_abs [OF s r]
    by (auto simp: extract_entry_def place_def [symmetric] intro!: outcome_at_state)
qed

lemma readHeader_safe: "readHeader bytes offset = Inr (h, next) \<Longrightarrow> \<not> unsafe_path (h_path h)"
  by (auto simp: readHeader_def Let_def res_simps validateRelativePath_def split: if_splits)

lemma outcome_loop:
  assumes s: "good_path s" "s \<noteq> []" and x: "extract_inv s v x"
  shows "outcome (in_staging s v) (extract_inv s v) (extract_loop io stored (abs_path s) bytes offset x)"
  using x
proof (induction io stored "abs_path s" bytes offset x rule: extract_loop.induct)
  case (1 io stored bytes offset x)
  have i: "in_staging s v x" using "1.prems" by (simp add: extract_inv_def)
  show ?case
  proof (cases "offset < length bytes")
    case False
    then show ?thesis using "1.prems" by (simp add: extract_loop.simps [of _ _ _ _ _ x])
  next
    case True
    show ?thesis
    proof (cases "readHeader bytes offset")
      case (Inl e)
      then show ?thesis using True i by (simp add: extract_loop.simps [of _ _ _ _ _ x])
    next
      case (Inr hn)
      obtain h "next" where hn: "hn = (h, next)" by force
      show ?thesis
      proof (cases "next + h_payloadLength h > length bytes")
        case c: True
        then show ?thesis using True Inr hn i by (simp add: extract_loop.simps [of _ _ _ _ _ x])
      next
        case False
        have "outcome (in_staging s v) (extract_inv s v)
            (bind_res (extract_entry io stored (abs_path s) h (slice bytes next (h_payloadLength h)) x)
              (extract_loop io stored (abs_path s) bytes (next + h_payloadLength h)))"
          using "1.hyps" [OF True Inr hn [symmetric] False] readHeader_safe Inr hn
          by (intro outcome_bind [OF outcome_entry [OF "1.prems" s]]) auto
        then show ?thesis using True Inr hn False by (simp add: extract_loop.simps [of _ _ _ _ _ x])
      qed
    qed
  qed
qed

lemma outcome_times:
  assumes "in_staging s v x" "list_all (\<lambda>(p, t). \<exists>q. p = abs_path q \<and> good_path q \<and> prefix s q) ts"
  shows "outcome (in_staging s v) (in_staging s v) (set_directory_times io stored ts x)"
  using assms
proof (induction io stored ts x rule: set_directory_times.induct)
  case (2 io stored p t ts x)
  then obtain q where q: "p = abs_path q" "good_path q" "prefix s q" by auto
  have "outcome (in_staging s v) (in_staging s v) (x_op io (Op_utimes q (stored t)) x)"
    using 2(2) q by (intro outcome_x_op) (simp_all add: in_staging_def)
  then show ?case using 2 q by (auto intro: outcome_bind)
qed simp

section \<open>The whole extraction\<close>

lemma lookup_touch:
  assumes "fs_ok f" "is_dir f d" "p \<noteq> d"
  shows "lookup_inode (touch_dir d f) p = lookup_inode f p"
proof -
  obtain i where i: "f_names f d = Some i" using assms(2) by (auto dest: is_dir_named)
  have "f_names f p \<noteq> Some i" using assms i unfolding fs_ok_def by blast
  then show ?thesis using i by (cases "f_names f p") (auto simp: touch_dir_def lookup_inode_def)
qed

lemma lookup_rm: "lookup_inode (rm_names q f) p = (if prefix q p then None else lookup_inode f p)"
  by (simp add: rm_names_def lookup_inode_def)

lemma absent_below:
  assumes "fs_ok f" "f_names f s = None" "prefix s p"
  shows "f_names f p = None"
proof (rule ccontr)
  assume a: "f_names f p \<noteq> None"
  obtain q where q: "p = s @ q" using assms(3) by (auto simp: prefix_def)
  with a assms(2) have "q \<noteq> []" by auto
  then have "is_dir f s" using fs_ok_ancestor assms(1) a q by blast
  then show False using assms(2) by (auto dest: is_dir_named)
qed

text \<open>Making the staging directory: it is empty and sealed, and of the rest only its parent is touched.\<close>

lemma make_staging:
  assumes ok: "fs_ok f" and s: "s \<noteq> []" and mk: "create s B_dir m f = Inr f1"
  shows "confined s (outside s f1) f1"
    "p \<noteq> butlast s \<Longrightarrow> \<not> prefix s p \<Longrightarrow> lookup_inode f1 p = lookup_inode f p"
    "is_dir f (butlast s)" "is_dir f1 (butlast s)"
    "prefix s p \<Longrightarrow> p \<noteq> s \<Longrightarrow> f_names f1 p = None"
proof -
  let ?n = "\<lparr>i_body = B_dir, i_mode = m, i_mtime = None\<rparr>"
  let ?a = "f\<lparr>f_inodes := (f_inodes f)(f_next f := ?n), f_next := f_next f + 1\<rparr>"
  let ?t = "touch_dir (butlast s) ?a"
  have new: "f_names f s = None" and f1: "f1 = ?t\<lparr>f_names := (f_names f)(s := Some (f_next f))\<rparr>" and d: "is_dir ?a (butlast s)"
    using mk by (auto simp: create_def add_name_def split: if_splits)
  have la: "lookup_inode ?a p = lookup_inode f p" for p
    using ok by (cases "f_names f p") (auto simp: fs_ok_def lookup_inode_def)
  then have da: "is_dir ?a = is_dir f" by (simp add: fun_eq_iff is_dir_def)
  then show dir: "is_dir f (butlast s)" using d by simp
  have oka: "fs_ok ?a" using ok da by (auto simp: fs_ok_def less_Suc_eq)
  have l1: "lookup_inode f1 p = lookup_inode ?t p" if "p \<noteq> s" for p
    using that f1 by (simp add: lookup_inode_def)
  have ds: "butlast s \<noteq> s" using s by (metis append_butlast_last_id not_Cons_self2 self_append_conv)
  show "is_dir f1 (butlast s)" using l1 [OF ds] d by (simp add: is_dir_def) (simp add: is_dir_def [symmetric])
  show "lookup_inode f1 p = lookup_inode f p" if "p \<noteq> butlast s" "\<not> prefix s p"
    using that l1 [of p] lookup_touch [OF oka d] la by auto
  show none: "f_names f1 p = None" if "prefix s p" "p \<noteq> s" for p
    using that f1 absent_below [OF ok new] by simp
  have dirs: "is_dir f1 p = is_dir f p" if "p \<noteq> s" for p
    using l1 [OF that] da is_dir_touch [of "butlast s" ?a p] by (simp add: is_dir_def)
  have sdir: "is_dir f1 s"
  proof -
    have "f_inodes ?t (f_next f) = ?n \<or> f_names f (butlast s) = Some (f_next f)"
      by (auto simp: touch_dir_def split: option.splits)
    moreover have "f_names f (butlast s) \<noteq> Some (f_next f)" using ok by (auto simp: fs_ok_def)
    ultimately show ?thesis using f1 by (simp add: is_dir_def lookup_inode_def)
  qed
  have fresh: "f_names f p \<noteq> Some (f_next f)" for p using ok by (auto simp: fs_ok_def)
  have "fs_ok f1"
    unfolding fs_ok_def
  proof (intro allI impI)
    fix p i assume p: "f_names f1 p = Some i"
    have "i < f_next f1" using p f1 ok by (auto simp: fs_ok_def less_Suc_eq split: if_splits)
    moreover have "is_dir f1 (butlast p)" if "p \<noteq> []"
    proof (cases "p = s")
      case True
      then show ?thesis using \<open>is_dir f1 (butlast s)\<close> by simp
    next
      case False
      then have "is_dir f (butlast p)" using p f1 ok that by (auto simp: fs_ok_def)
      then show ?thesis using dirs new by (cases "butlast p = s") (auto dest: is_dir_named)
    qed
    moreover have "q = p" if "f_names f1 q = Some i" "is_dir f1 p" for q
      using that p f1 fresh ok dirs [of p] by (auto simp: fs_ok_def split: if_splits)
    ultimately show "i < f_next f1 \<and> (p \<noteq> [] \<longrightarrow> is_dir f1 (butlast p)) \<and>
        (\<forall>q. f_names f1 q = Some i \<and> is_dir f1 p \<longrightarrow> q = p)" by blast
  qed
  moreover have "sealed s f1"
    unfolding sealed_def
  proof (intro conjI allI impI)
    fix p q i assume a: "f_names f1 p = Some i \<and> f_names f1 q = Some i \<and> prefix s p"
    then have "p = s" using none by fastforce
    then show "prefix s q" using a f1 fresh [of q] by (auto split: if_splits)
  qed (rule sdir)
  ultimately show "confined s (outside s f1) f1" by (simp add: confined_def)
qed

lemma fs_ok_touch: "fs_ok f \<Longrightarrow> fs_ok (touch_dir d f)"
  by (auto simp: fs_ok_def)

lemma is_dir_lookup: "lookup_inode f p = lookup_inode g q \<Longrightarrow> is_dir f p = is_dir g q"
  by (simp add: is_dir_def)

lemma fs_ok_rm:
  assumes "fs_ok f"
  shows "fs_ok (rm_names q f)"
proof -
  have names: "f_names (rm_names q f) p = (if prefix q p then None else f_names f p)" for p by (simp add: rm_names_def)
  have dirs: "is_dir (rm_names q f) p = (\<not> prefix q p \<and> is_dir f p)" for p
    by (simp add: is_dir_def lookup_rm)
  have "\<not> prefix q (butlast p)" if "\<not> prefix q p" for p
    using that by (metis append_butlast_last_id butlast.simps(1) prefix_append)
  moreover have "f_next (rm_names q f) = f_next f" by (simp add: rm_names_def)
  ultimately show ?thesis using assms by (auto simp: fs_ok_def names dirs split: if_splits)
qed

text \<open>The two paths of an extraction are siblings, the staging directory and the destination.\<close>

locale siblings =
  fixes d :: path and st n :: string and s dst :: path
  assumes s: "s = d @ [st]" and dst: "dst = d @ [n]" and differ: "st \<noteq> n" and d: "d \<noteq> []"
begin

lemma apart [simp]: "\<not> prefix dst s" "\<not> prefix s dst" "\<not> prefix dst d" "\<not> prefix s d" "s \<noteq> d" "dst \<noteq> d"
  "butlast s = d" "butlast dst = d" "s \<noteq> []" "dst \<noteq> []"
  by (auto simp: s dst differ differ [symmetric] prefix_def)

lemma not_both: "prefix s p \<Longrightarrow> prefix dst p \<Longrightarrow> False"
  using differ by (auto simp: s dst prefix_def)

lemma parent_dir: "confined s v f \<Longrightarrow> is_dir f d"
  using fs_ok_ancestor [of f d "[st]"] by (auto simp: confined_def sealed_def s dest: is_dir_named)

lemma removed:
  assumes c: "confined s v f" and rm: "fs_apply (Op_rm dst) f = Inr f'"
  shows "fs_ok f'" "is_dir f' d" "f_names f' dst = None" "is_dir f' s"
    "p \<noteq> d \<Longrightarrow> lookup_inode f' p = (if prefix dst p then None else lookup_inode f p)"
proof -
  have ok: "fs_ok f" "is_dir f d" "is_dir f s" using c parent_dir by (auto simp: confined_def sealed_def)
  have f': "f' = (if f_names f dst = None then f else rm_names dst (touch_dir d f))" using rm by (auto split: if_splits)
  show "fs_ok f'" using f' ok by (simp add: fs_ok_rm fs_ok_touch)
  show none: "f_names f' dst = None" using f' by (simp add: rm_names_def)
  have look: "lookup_inode f' p = (if prefix dst p then None else lookup_inode f p)" if "p \<noteq> d" for p
    using that f' ok lookup_touch [OF ok(1,2) that] absent_below [OF ok(1), of dst p]
    by (auto simp: lookup_rm) (simp add: lookup_inode_def)
  then show "p \<noteq> d \<Longrightarrow> lookup_inode f' p = (if prefix dst p then None else lookup_inode f p)" .
  show "is_dir f' s" using look [of s] ok(3) by (simp add: is_dir_def)
  have "is_dir (rm_names dst (touch_dir d f)) d"
    using is_dir_lookup [of "rm_names dst (touch_dir d f)" d "touch_dir d f" d] ok(2) by (simp add: lookup_rm)
  then show "is_dir f' d" using f' ok(2) by simp
qed

lemma renamed:
  assumes ok: "fs_ok f" "is_dir f d" "f_names f dst = None" "is_dir f s"
    and mv: "fs_apply (Op_rename s dst) f = Inr f'"
  shows "fs_ok f'"
    "p \<noteq> d \<Longrightarrow> lookup_inode f' p = (if prefix dst p then lookup_inode f (s @ drop (length dst) p)
       else if prefix s p then None else lookup_inode f p)"
proof -
  let ?t = "touch_dir d (touch_dir d f)"
  have f': "f' = rename_names s dst ?t" using mv by (auto split: if_splits)
  have lt: "lookup_inode ?t p = lookup_inode f p" if "p \<noteq> d" for p
    using lookup_touch [OF fs_ok_touch [OF ok(1)] _ that] lookup_touch [OF ok(1,2) that] ok(2) by simp
  have sd: "s @ q \<noteq> d" for q by (simp add: s)
  have names: "f_names f' p = (if prefix dst p then f_names f (s @ drop (length dst) p)
      else if prefix s p then None else f_names f p)" for p
    using f' by (simp add: rename_names_def)
  have look: "lookup_inode f' p = (if prefix dst p then lookup_inode ?t (s @ drop (length dst) p)
      else if prefix s p then None else lookup_inode ?t p)" for p
    using f' by (simp add: rename_names_def lookup_inode_def)
  then show "p \<noteq> d \<Longrightarrow> lookup_inode f' p = (if prefix dst p then lookup_inode f (s @ drop (length dst) p)
       else if prefix s p then None else lookup_inode f p)"
    using lt sd by simp
  have dirs: "is_dir f' p = (if prefix dst p then is_dir f (s @ drop (length dst) p)
      else \<not> prefix s p \<and> is_dir f p)" for p
    using look [of p] is_dir_touch [of d "touch_dir d f"] is_dir_touch [of d f]
    by (auto simp: is_dir_def)
  define origin where "origin p = (if prefix dst p then s @ drop (length dst) p else p)" for p
  have inj: "origin p = origin q \<Longrightarrow> f_names f' p \<noteq> None \<Longrightarrow> f_names f' q \<noteq> None \<Longrightarrow> p = q" for p q
    using names [of p] names [of q]
    by (auto simp: origin_def prefix_def split: if_splits)
  have org: "f_names f' p = Some i \<Longrightarrow> f_names f (origin p) = Some i" "is_dir f' p \<Longrightarrow> is_dir f (origin p)" for p i
    using names [of p] dirs [of p] by (auto simp: origin_def split: if_splits)
  show "fs_ok f'"
    unfolding fs_ok_def
  proof (intro allI impI)
    fix p i assume p: "f_names f' p = Some i"
    have fo: "i < f_next f" "origin p \<noteq> [] \<Longrightarrow> is_dir f (butlast (origin p))"
      using org(1) [OF p] ok(1) by (auto simp: fs_ok_def)
    have "is_dir f' (butlast p)" if "p \<noteq> []"
    proof (cases "prefix dst p")
      case True
      then obtain q where q: "p = dst @ q" by (auto simp: prefix_def)
      show ?thesis
      proof (cases "q = []")
        case True
        then show ?thesis using q dirs [of d] ok(2) by simp
      next
        case False
        then show ?thesis using q fo(2) dirs [of "dst @ butlast q"] by (simp add: origin_def butlast_append)
      qed
    next
      case False
      then have "\<not> prefix dst (butlast p)" "\<not> prefix s (butlast p)"
        using p names [of p] by (metis append_butlast_last_id butlast.simps(1) option.discI prefix_append)+
      then show ?thesis using fo(2) dirs [of "butlast p"] False that by (simp add: origin_def)
    qed
    moreover have "q = p" if "f_names f' q = Some i" "is_dir f' p" for q
    proof -
      have "origin q = origin p" using org(1) [OF that(1)] org(1) [OF p] org(2) [OF that(2)] ok(1)
        by (auto simp: fs_ok_def)
      then show ?thesis using inj [of q p] p that(1) by simp
    qed
    moreover have "f_next f' = f_next f" using f' by (simp add: rename_names_def)
    ultimately show "i < f_next f' \<and> (p \<noteq> [] \<longrightarrow> is_dir f' (butlast p)) \<and> (\<forall>q. f_names f' q = Some i \<and> is_dir f' p \<longrightarrow> q = p)"
      using fo(1) by simp
  qed
qed

lemma removed_names:
  "fs_apply (Op_rm dst) f = Inr f' \<Longrightarrow> \<not> prefix dst p \<Longrightarrow> f_names f' p = f_names f p"
  by (auto simp: rm_names_def split: if_splits)

lemma renamed_names: "fs_apply (Op_rename s dst) f = Inr f' \<Longrightarrow> f_names f' (dst @ q) = f_names f (s @ q)"
  by (auto simp: rename_names_def split: if_splits)

text \<open>The file system when an extraction throws: staging is as it may be, and the destination is gone
  only if its replacement failed.\<close>

definition failed_state :: "(fs_op \<Rightarrow> unit res) \<Rightarrow> (path \<Rightarrow> inode option) \<Rightarrow> fs \<Rightarrow> bool" where
  "failed_state io v f \<longleftrightarrow> confined s v f \<or>
     \<not> is_ok (io (Op_rename s dst)) \<and> (\<exists>g. confined s v g \<and> fs_apply (Op_rm dst) g = Inr f)"

definition done_state :: "(path \<Rightarrow> inode option) \<Rightarrow> fs \<Rightarrow> bool" where
  "done_state v f \<longleftrightarrow> (\<exists>g h. confined s v g \<and> fs_apply (Op_rm dst) g = Inr h \<and> fs_apply (Op_rename s dst) h = Inr f)"

lemma outcome_replace:
  assumes x: "in_staging s v x"
  shows "outcome (\<lambda>x. failed_state io v (x_fs x)) (\<lambda>x. done_state v (x_fs x))
    (bind_res (x_op io (Op_rm dst) x) (x_op io (Op_rename s dst)))"
proof (cases "fs_run io (Op_rm dst) (x_fs x)")
  case (Inl e)
  then show ?thesis using x by (simp add: x_op_def failed_state_def in_staging_def)
next
  case (Inr f)
  then have rm: "fs_apply (Op_rm dst) (x_fs x) = Inr f" by (auto simp: fs_run_def bind_res_Inr)
  have c: "confined s v (x_fs x)" using x by (simp add: in_staging_def)
  note r = removed [OF c rm]
  have "\<exists>g. fs_apply (Op_rename s dst) f = Inr g" using r(2-4) by (auto dest: is_dir_named)
  then obtain g where g: "fs_apply (Op_rename s dst) f = Inr g" by blast
  show ?thesis
  proof (cases "io (Op_rename s dst)")
    case (Inl e)
    then show ?thesis using \<open>fs_run io (Op_rm dst) (x_fs x) = Inr f\<close> c rm
      by (auto simp: x_op_def failed_state_def fs_run_def [of io "Op_rename s dst"])
  next
    case ok: (Inr u)
    have "done_state v g" using c rm g unfolding done_state_def by blast
    then show ?thesis using Inr ok g by (simp add: x_op_def fs_run_def [of io "Op_rename s dst"] del: fs_apply.simps)
  qed
qed

lemma outcome_try:
  assumes g: "good_path s" "good_path dst" and x: "extract_inv s v x"
  shows "outcome (\<lambda>x. failed_state io v (x_fs x)) (\<lambda>x. done_state v (x_fs x))
    (extract_try io stored (abs_path s) bytes (abs_path dst) x)"
proof -
  have weaken: "outcome (\<lambda>x. failed_state io v (x_fs x)) P r" if "outcome (in_staging s v) P r" for P r
    using that by (auto simp: outcome_def failed_state_def in_staging_def split: sum.splits)
  have "outcome (\<lambda>x. failed_state io v (x_fs x)) (\<lambda>x. done_state v (x_fs x))
      (bind_res (set_directory_times io stored (rev (x_times y)) y) (\<lambda>x.
       bind_res (x_op io (Op_rm dst) x) (x_op io (Op_rename s dst))))" if y: "extract_inv s v y" for y
  proof (rule outcome_bind [OF weaken [OF outcome_times]])
    show "in_staging s v y" using y by (simp add: extract_inv_def)
    show "list_all (\<lambda>(p, t). \<exists>q. p = abs_path q \<and> good_path q \<and> prefix s q) (rev (x_times y))"
      using y by (simp add: extract_inv_def times_below_def)
  qed (rule outcome_replace)
  then show ?thesis
    unfolding extract_try_def path_parts_abs [OF g(1)] path_parts_abs [OF g(2)]
    by (rule outcome_bind [OF weaken [OF outcome_loop [OF g(1) apart(9) x]]])
qed

lemma failed_result:
  assumes "failed_state io v f"
  shows "fs_ok f" "is_dir f d" "is_dir f s"
    "p \<noteq> d \<Longrightarrow> \<not> prefix s p \<Longrightarrow> is_ok (io (Op_rename s dst)) \<or> \<not> prefix dst p \<Longrightarrow> lookup_inode f p = v p"
proof -
  consider "confined s v f" | g where "\<not> is_ok (io (Op_rename s dst))" "confined s v g" "fs_apply (Op_rm dst) g = Inr f"
    using assms unfolding failed_state_def by blast
  then have "fs_ok f \<and> is_dir f d \<and> is_dir f s \<and> (p \<noteq> d \<and> \<not> prefix s p \<and> (is_ok (io (Op_rename s dst)) \<or> \<not> prefix dst p) \<longrightarrow>
      lookup_inode f p = v p)"
  proof cases
    case 1
    then show ?thesis using parent_dir by (auto simp: confined_def sealed_def outside_def)
  next
    case (2 g)
    then show ?thesis using removed [OF 2(2,3)] by (auto simp: confined_def outside_def)
  qed
  then show "fs_ok f" "is_dir f d" "is_dir f s"
    "p \<noteq> d \<Longrightarrow> \<not> prefix s p \<Longrightarrow> is_ok (io (Op_rename s dst)) \<or> \<not> prefix dst p \<Longrightarrow> lookup_inode f p = v p"
    by blast+
qed

lemma done_result:
  assumes "done_state v f"
  shows "fs_ok f" "f_names f s = None" "is_dir f dst"
    "p \<noteq> d \<Longrightarrow> \<not> prefix s p \<Longrightarrow> \<not> prefix dst p \<Longrightarrow> lookup_inode f p = v p"
proof -
  obtain g h where c: "confined s v g" "fs_apply (Op_rm dst) g = Inr h" "fs_apply (Op_rename s dst) h = Inr f"
    using assms unfolding done_state_def by blast
  note r = removed [OF c(1,2)]
  note m = renamed [OF r(1-4) c(3)]
  show "fs_ok f" by (rule m(1))
  have "lookup_inode f s = None" "lookup_inode f dst = lookup_inode h s" using m(2) [of s] m(2) [of dst] by simp_all
  then show "f_names f s = None" "is_dir f dst" using r(4) by (simp_all add: lookup_inode_def is_dir_def)
  show "lookup_inode f p = v p" if "p \<noteq> d" "\<not> prefix s p" "\<not> prefix dst p"
    using that m(2) [of p] r(5) [of p] c(1) by (auto simp: confined_def outside_def)
qed

lemma extract_result:
  assumes ok: "fs_ok f" "f_names f s = None" and g: "good_path s" "good_path dst"
    and st: "staging_path uuid (abs_path dst) = abs_path s"
    and run: "extractCfs io stored uuid bytes (abs_path dst) f = (r, f')"
  shows "fs_ok f'"
    "p \<noteq> d \<Longrightarrow> \<not> prefix s p \<Longrightarrow> \<not> prefix dst p \<Longrightarrow> lookup_inode f' p = lookup_inode f p"
    "is_ok (io (Op_rm s)) \<Longrightarrow> f_names f' s = None"
    "is_ok r \<Longrightarrow> is_dir f' dst \<and> f_names f' s = None"
    "\<not> is_ok r \<Longrightarrow> is_ok (io (Op_rename s dst)) \<Longrightarrow> prefix dst p \<Longrightarrow> lookup_inode f' p = lookup_inode f p"
proof -
  let ?P = "fs_ok f' \<and> (p \<noteq> d \<and> \<not> prefix s p \<and> \<not> prefix dst p \<longrightarrow> lookup_inode f' p = lookup_inode f p) \<and>
    (is_ok (io (Op_rm s)) \<longrightarrow> f_names f' s = None) \<and> (is_ok r \<longrightarrow> is_dir f' dst \<and> f_names f' s = None) \<and>
    (\<not> is_ok r \<and> is_ok (io (Op_rename s dst)) \<and> prefix dst p \<longrightarrow> lookup_inode f' p = lookup_inode f p)"
  have "?P"
  proof (cases "slice bytes 0 (length MAGIC) \<noteq> MAGIC \<or> (\<exists>e. fs_run io (Op_mkdir s 448) f = Inl e)")
    case True
    then have "f' = f" "\<not> is_ok r" using run g st by (auto simp: extractCfs_def Let_def split: if_splits)
    then show ?thesis using ok by simp
  next
    case False
    then obtain f1 where mk: "fs_run io (Op_mkdir s 448) f = Inr f1" by (cases "fs_run io (Op_mkdir s 448) f") auto
    then have cr: "create s B_dir 448 f = Inr f1" by (auto simp: fs_run_def bind_res_Inr)
    let ?v = "outside s f1" and ?x = "\<lparr>x_fs = f1, x_types = Map.empty, x_times = []\<rparr>"
    note new = make_staging [OF ok(1) apart(9) cr]
    have v: "?v q = lookup_inode f q" if "q \<noteq> d" "\<not> prefix s q" for q
      using new(2) [of q] that by (simp add: outside_def)
    have "bodies f1 q \<noteq> Some (B_symlink t)" if "prefix s q" for q t
      using new(1) new(5) [OF that]
      by (cases "q = s") (auto simp: confined_def sealed_def is_dir_bodies bodies_def lookup_inode_def)
    then have "tracked s (bodies f1) Map.empty" by (simp add: tracked_def)
    then have "extract_inv s ?v ?x"
      using new(1) by (simp add: extract_inv_def in_staging_def times_below_def)
    have pd: "prefix dst p \<Longrightarrow> p \<noteq> d \<and> \<not> prefix s p" using not_both apart(3) by blast
    note out = outcome_try [OF g \<open>extract_inv s ?v ?x\<close>, of io stored bytes]
    show ?thesis
    proof (cases "extract_try io stored (abs_path s) bytes (abs_path dst) ?x")
      case (Inr x)
      then have "r = Inr ()" "f' = x_fs x" using False mk run g st by (simp_all add: extractCfs_def)
      moreover have "done_state ?v (x_fs x)" using out Inr by simp
      ultimately show ?thesis using done_result(1-3) [of ?v f'] done_result(4) [of ?v f' p] v by auto
    next
      case (Inl ex)
      obtain e x where ex: "ex = (e, x)" by force
      then have fl: "failed_state io ?v (x_fs x)" using out Inl by simp
      note fr = failed_result [OF fl]
      show ?thesis
      proof (cases "io (Op_rm s)")
        case (Inl e')
        then have "r = Inl e'" "f' = x_fs x"
          using False mk run g st \<open>extract_try io stored (abs_path s) bytes (abs_path dst) ?x = Inl ex\<close> ex
          by (simp_all add: extractCfs_def fs_run_def)
        then show ?thesis using fr(1) fr(4) [of p] v pd Inl by auto
      next
        case (Inr u)
        then have r: "r = Inl e" and f': "f' = rm_names s (touch_dir d (x_fs x))"
          using False mk run g st \<open>extract_try io stored (abs_path s) bytes (abs_path dst) ?x = Inl ex\<close> ex fr(3)
          by (auto simp: extractCfs_def fs_run_def dest: is_dir_named split: if_splits)
        have "lookup_inode f' q = (if prefix s q then None else lookup_inode (x_fs x) q)" if "q \<noteq> d" for q
          using that f' lookup_touch [OF fr(1,2) that] by (simp add: lookup_rm)
        moreover have "f_names f' s = None" using f' by (simp add: rm_names_def)
        moreover have "fs_ok f'" using f' fr(1) by (simp add: fs_ok_rm fs_ok_touch)
        ultimately show ?thesis using fr(4) [of p] v [of p] r pd by auto
      qed
    qed
  qed
  then show "fs_ok f'"
    "p \<noteq> d \<Longrightarrow> \<not> prefix s p \<Longrightarrow> \<not> prefix dst p \<Longrightarrow> lookup_inode f' p = lookup_inode f p"
    "is_ok (io (Op_rm s)) \<Longrightarrow> f_names f' s = None"
    "is_ok r \<Longrightarrow> is_dir f' dst \<and> f_names f' s = None"
    "\<not> is_ok r \<Longrightarrow> is_ok (io (Op_rename s dst)) \<Longrightarrow> prefix dst p \<Longrightarrow> lookup_inode f' p = lookup_inode f p"
    by blast+
qed

end

text \<open>The daemon extracts to a directory \<open>workspace\<close> only.\<close>

interpretation workspace: siblings "a # d" "''.staging-'' @ uuid" "''workspace''"
    "(a # d) @ [''.staging-'' @ uuid]" "(a # d) @ [''workspace'']" for a d uuid
  by unfold_locales auto

lemma staging_path_abs:
  assumes "good_path ((a # d) @ [n])"
  shows "staging_path uuid (abs_path ((a # d) @ [n])) = abs_path ((a # d) @ [''.staging-'' @ uuid])"
proof -
  have "dirname (abs_path ((a # d) @ [n])) = abs_path (a # d)"
    using dirname_abs [OF assms] by (simp del: append_Cons)
  moreover have "abs_path ((a # d) @ [x]) = abs_path (a # d) @ CHR ''/'' # x" for x
    unfolding abs_path_def by (subst join_with_snoc) simp_all
  ultimately show ?thesis unfolding staging_path_def path_join_def by simp
qed

end
