(* ===== verification/Cfs_Entries.thy ===== *)
theory Cfs_Entries
  imports Cfs_Safety
begin

text \<open>
  What \<open>collectEntries\<close> returns of a directory tree: every entry once, a directory before what
  is in it.
\<close>

text \<open>The names of a directory are distinct and are names (\<open>readdir\<close> returns no others).\<close>

fun node_ok :: "node \<Rightarrow> bool" where
  "node_ok (N_dir st cs) = (distinct (map fst cs) \<and> list_all (\<lambda>c. CHR ''/'' \<notin> set (fst c) \<and> node_ok (snd c)) cs)"
| "node_ok n = True"

abbreviation tree_ok :: "(string \<times> node) list \<Rightarrow> bool" where
  "tree_ok cs \<equiv> distinct (map fst cs) \<and> list_all (\<lambda>c. CHR ''/'' \<notin> set (fst c) \<and> node_ok (snd c)) cs"

lemma tree_ok_sort [simp]: "tree_ok (sort_entries cs) = tree_ok cs"
proof -
  have "mset (map fst (sort_entries cs)) = mset (map fst cs)" by (simp add: sort_entries_def)
  then have "distinct (map fst (sort_entries cs)) = distinct (map fst cs)" by (rule mset_eq_imp_distinct_iff)
  then show ?thesis by (simp add: sort_entries_def list_all_iff)
qed

definition en_parts :: "entry \<Rightarrow> path" where
  "en_parts e = split_on (CHR ''/'') (en_relative e)"

definition dir_parts :: "string \<Rightarrow> path" where
  "dir_parts dir = (if dir = [] then [] else split_on (CHR ''/'') dir)"

lemma child_parts:
  "CHR ''/'' \<notin> set name \<Longrightarrow> split_on (CHR ''/'') (child_path dir name) = dir_parts dir @ [name]"
  by (simp add: child_path_def dir_parts_def split_on_no_sep split_on_append_sep)

lemma dir_parts_child:
  "CHR ''/'' \<notin> set name \<Longrightarrow> \<not> unsafe_path (child_path dir name) \<Longrightarrow> dir_parts (child_path dir name) = dir_parts dir @ [name]"
  by (simp add: child_parts [symmetric]) (simp add: dir_parts_def unsafe_path_def)

definition entry_dir :: "entry \<Rightarrow> bool" where
  "entry_dir e \<longleftrightarrow> (case en_node e of N_dir _ _ \<Rightarrow> True | _ \<Rightarrow> False)"

text \<open>Entries below \<open>q\<close>, of the names \<open>ns\<close>, each once and with the directories they are in.\<close>

definition entries_below :: "path \<Rightarrow> string set \<Rightarrow> entry list \<Rightarrow> bool" where
  "entries_below q ns es \<longleftrightarrow> distinct (map en_relative es) \<and>
     (\<forall>e\<in>set es. \<not> unsafe_path (en_relative e) \<and> is_ok (node_stats (en_node e)) \<and>
        (\<exists>n\<in>ns. prefix (q @ [n]) (en_parts e)) \<and>
        (butlast (en_parts e) = q \<or> (\<exists>e'\<in>set es. entry_dir e' \<and> en_parts e' = butlast (en_parts e))))"

lemma en_parts_inject: "en_parts e = en_parts e' \<longleftrightarrow> en_relative e = en_relative e'"
  unfolding en_parts_def by (metis join_split)

lemma entries_below_Cons:
  assumes e: "\<not> unsafe_path (en_relative e)" "is_ok (node_stats (en_node e))" "en_parts e = q @ [n]"
    and inner: "entries_below (q @ [n]) ms es" "es = [] \<or> entry_dir e"
    and rest: "entries_below q ns fs" and n: "n \<notin> ns"
  shows "entries_below q (insert n ns) (e # es @ fs)"
proof -
  have deep: "strict_prefix (q @ [n]) (en_parts x)" if "x \<in> set es" for x
    using inner(1) that by (auto simp: entries_below_def strict_prefix_def prefix_def)
  have other: "\<not> prefix (q @ [n]) (en_parts x)" if x: "x \<in> set fs" for x
  proof -
    obtain m where "m \<in> ns" "prefix (q @ [m]) (en_parts x)" using rest x unfolding entries_below_def by blast
    then show ?thesis using n by (auto simp: prefix_def)
  qed
  have "distinct (map en_relative (e # es @ fs))"
  proof -
    have "en_relative e \<noteq> en_relative x" if "x \<in> set es \<union> set fs" for x
      using deep [of x] other [of x] that e(3) by (auto simp: en_parts_inject [symmetric])
    moreover have "en_relative x \<noteq> en_relative y" if "x \<in> set es" "y \<in> set fs" for x y
      using deep [OF that(1)] other [OF that(2)] by (auto simp: en_parts_inject [symmetric] strict_prefix_def)
    ultimately show ?thesis using inner(1) rest by (auto simp: entries_below_def)
  qed
  moreover have "\<exists>m\<in>insert n ns. prefix (q @ [m]) (en_parts x)" if "x \<in> set (e # es @ fs)" for x
    using that deep [of x] rest e(3) by (auto simp: entries_below_def strict_prefix_def)
  moreover have "butlast (en_parts x) = q \<or> (\<exists>e'\<in>set (e # es @ fs). entry_dir e' \<and> en_parts e' = butlast (en_parts x))"
    if "x \<in> set (e # es @ fs)" for x
    using that inner rest e(3) by (auto simp: entries_below_def)
  ultimately show ?thesis using e inner(1) rest unfolding entries_below_def by auto
qed

lemma walk_entries:
  "walk dir cs = Inr es \<Longrightarrow> tree_ok cs \<Longrightarrow> entries_below (dir_parts dir) (fst ` set cs) es"
proof (induction dir cs arbitrary: es rule: walk.induct)
  case (1 dir)
  then show ?case by (simp add: entries_below_def)
next
  case (2 dir name n cs)
  let ?rel = "child_path dir name"
  obtain st inner rest where w: "\<not> unsafe_path ?rel" "node_stats n = Inr st"
    "(case n of N_dir st sub \<Rightarrow> walk ?rel (sort_entries sub) | _ \<Rightarrow> Inr []) = Inr inner"
    "walk dir cs = Inr rest" "es = \<lparr>en_relative = ?rel, en_node = n\<rparr> # inner @ rest"
    using 2(3) by (auto simp: Let_def res_simps validateRelativePath_def split: if_splits)
  have name: "CHR ''/'' \<notin> set name" "node_ok n" "tree_ok cs" "name \<notin> fst ` set cs" using 2(4) by auto
  have rest: "entries_below (dir_parts dir) (fst ` set cs) rest"
    by (rule 2(2) [OF refl w(4) name(3)])
  show ?case
  proof (cases n)
    case (N_dir sst sub)
    have "entries_below (dir_parts ?rel) (fst ` set (sort_entries sub)) inner"
      using 2(1) [OF refl N_dir] w(3) N_dir name(2) by simp
    then show ?thesis
      using entries_below_Cons [of "\<lparr>en_relative = ?rel, en_node = n\<rparr>" "dir_parts dir" name _ inner "fst ` set cs" rest]
        w rest name N_dir by (simp add: en_parts_def child_parts dir_parts_child entry_dir_def)
  next
    case other: (N_file a b)
    then show ?thesis
      using entries_below_Cons [of "\<lparr>en_relative = ?rel, en_node = n\<rparr>" "dir_parts dir" name "{}" "[]" "fst ` set cs" rest]
        w rest name by (simp add: en_parts_def child_parts entries_below_def)
  next
    case other: (N_symlink a b)
    then show ?thesis
      using entries_below_Cons [of "\<lparr>en_relative = ?rel, en_node = n\<rparr>" "dir_parts dir" name "{}" "[]" "fst ` set cs" rest]
        w rest name by (simp add: en_parts_def child_parts entries_below_def)
  next
    case other: (N_other a)
    then show ?thesis
      using entries_below_Cons [of "\<lparr>en_relative = ?rel, en_node = n\<rparr>" "dir_parts dir" name "{}" "[]" "fst ` set cs" rest]
        w rest name by (simp add: en_parts_def child_parts entries_below_def)
  next
    case other: (N_unreadable a)
    then show ?thesis using w by simp
  qed
qed

text \<open>Sorting puts directories first, since a path is less than its extensions.\<close>

definition collected :: "entry list \<Rightarrow> bool" where
  "collected es \<longleftrightarrow> distinct (map en_relative es) \<and>
     (\<forall>e\<in>set es. \<not> unsafe_path (en_relative e) \<and> is_ok (node_stats (en_node e))) \<and>
     (\<forall>ps e rest. es = ps @ e # rest \<longrightarrow>
        length (en_parts e) = 1 \<or> (\<exists>e'\<in>set ps. entry_dir e' \<and> en_parts e' = butlast (en_parts e)))"

lemma parent_less:
  assumes "split_on (CHR ''/'') r' = butlast (split_on (CHR ''/'') r)" "length (split_on (CHR ''/'') r) \<noteq> 1"
  shows "r' < r"
proof -
  let ?q = "split_on (CHR ''/'') r'"
  obtain x where x: "split_on (CHR ''/'') r = ?q @ [x]"
    using assms(1) by (metis append_butlast_last_id split_on_not_Nil)
  have "r = join_with (CHR ''/'') (?q @ [x])" by (metis x join_split)
  also have "\<dots> = r' @ CHR ''/'' # x" by (simp add: join_with_snoc)
  finally show ?thesis by (simp add: list_less_def) (metis lexord_append_rightI list.discI)
qed

lemma collectEntries_collected:
  assumes run: "collectEntries cs = Inr es" and ok: "tree_ok cs"
  shows "collected es"
proof -
  obtain ws where w: "walk [] (sort_entries cs) = Inr ws" "es = sort_key en_relative ws"
    using run by (auto simp: collectEntries_def bind_res_Inr)
  have b: "entries_below [] (fst ` set (sort_entries cs)) ws" using walk_entries [OF w(1)] ok by (simp add: dir_parts_def)
  have ds: "distinct (map en_relative es)"
  proof -
    have "mset (map en_relative es) = mset (map en_relative ws)" using w(2) by simp
    then have "distinct (map en_relative es) = distinct (map en_relative ws)" by (rule mset_eq_imp_distinct_iff)
    then show ?thesis using b by (simp add: entries_below_def)
  qed
  have sorted: "sorted (map en_relative es)" using w(2) by simp
  have "\<exists>e'\<in>set ps. entry_dir e' \<and> en_parts e' = butlast (en_parts e)"
    if es: "es = ps @ e # rest" and l: "length (en_parts e) \<noteq> 1" for ps e rest
  proof -
    have "e \<in> set ws" using w(2) es by (metis in_set_conv_decomp set_sort)
    moreover have "butlast (en_parts e) \<noteq> []"
      using l by (metis One_nat_def append_butlast_last_id append_Nil en_parts_def length_Cons list.size(3) split_on_not_Nil)
    ultimately obtain e' where e': "e' \<in> set ws" "entry_dir e'" "en_parts e' = butlast (en_parts e)"
      using b by (auto simp: entries_below_def)
    have "en_relative e' < en_relative e" using parent_less e'(3) l by (simp add: en_parts_def)
    moreover have "e' \<in> set es" using e'(1) w(2) by simp
    ultimately show ?thesis using sorted es e'(2,3) by (auto simp: sorted_append)
  qed
  moreover have "set es = set ws" using w(2) by simp
  ultimately show ?thesis using ds b unfolding collected_def entries_below_def by blast
qed

end
