(* ===== verification/Cfs_Roundtrip.thy ===== *)
theory Cfs_Roundtrip
  imports Cfs_Entries
begin

text \<open>
  Exporting a workspace and extracting the snapshot gives the workspace back. The first part
  says which records an export writes, the second that the extraction reads exactly these, the
  third what the file system is after the extraction of each, and in the end.
\<close>

section \<open>The records of a snapshot\<close>

type_synonym links = "nat \<times> nat \<Rightarrow> string option"

definition link_key :: "stats \<Rightarrow> nat \<times> nat" where
  "link_key st = (st_dev st, st_ino st)"

text \<open>A workspace that stays as it is: a file's reads return its content, which has its size.\<close>

definition content :: "(nat \<Rightarrow> nat \<Rightarrow> byte list) \<Rightarrow> nat \<Rightarrow> byte list" where
  "content rd n = rd 0 n"

definition stable :: "node \<Rightarrow> bool" where
  "stable n = (case n of
     N_file st rd \<Rightarrow> length (content rd (st_size st)) = st_size st \<and>
       (\<forall>off m. rd off m = take m (drop off (content rd (st_size st))))
   | _ \<Rightarrow> True)"

fun entry_links :: "links \<Rightarrow> entry \<Rightarrow> links" where
  "entry_links l e = (case en_node e of
     N_file st rd \<Rightarrow> if st_nlink st > 1 \<and> l (link_key st) = None then l(link_key st := Some (en_relative e)) else l
   | _ \<Rightarrow> l)"

definition entry_mode :: "stats \<Rightarrow> nat" where
  "entry_mode st = st_mode st AND 4095"

definition header :: "entry \<Rightarrow> stats \<Rightarrow> nat \<Rightarrow> byte list \<Rightarrow> entry_header" where
  "header e st ty payload = \<lparr>h_path = en_relative e, h_type = ty, h_mode = entry_mode st,
     h_mtimeNs = round_mtime (st_mtimeNs st), h_payloadLength = length payload\<rparr>"

text \<open>The type and the payload of the record of an entry.\<close>

fun entry_payload :: "links \<Rightarrow> entry \<Rightarrow> nat \<times> byte list" where
  "entry_payload l e = (case en_node e of
     N_dir st cs \<Rightarrow> (TYPE_DIRECTORY, [])
   | N_symlink st t \<Rightarrow> (TYPE_SYMLINK, bytes_of t)
   | N_file st rd \<Rightarrow> (case if st_nlink st > 1 then l (link_key st) else None of
        Some t \<Rightarrow> (TYPE_HARDLINK, bytes_of t)
      | None \<Rightarrow> (TYPE_FILE, content rd (st_size st)))
   | _ \<Rightarrow> (0, []))"

fun entry_stats :: "entry \<Rightarrow> stats" where
  "entry_stats e = (case node_stats (en_node e) of Inr st \<Rightarrow> st | Inl _ \<Rightarrow> undefined)"

definition entry_record :: "links \<Rightarrow> entry \<Rightarrow> entry_header \<times> byte list" where
  "entry_record l e = (let tp = entry_payload l e in (header e (entry_stats e) (fst tp) (snd tp), snd tp))"

fun entry_records :: "links \<Rightarrow> entry list \<Rightarrow> (entry_header \<times> byte list) list" where
  "entry_records l [] = []"
| "entry_records l (e # es) = entry_record l e # entry_records (entry_links l e) es"

definition record_bytes :: "entry_header \<times> byte list \<Rightarrow> byte list" where
  "record_bytes hp = (case encodeHeader (fst hp) of Inr b \<Rightarrow> b @ snd hp | Inl _ \<Rightarrow> [])"

definition record_ok :: "entry_header \<times> byte list \<Rightarrow> bool" where
  "record_ok hp \<longleftrightarrow> is_ok (encodeHeader (fst hp)) \<and> h_payloadLength (fst hp) = length (snd hp) \<and>
     length (snd hp) \<le> MAX_TREE_BYTES \<and> h_mode (fst hp) AND 3072 = 0"

section \<open>What an export writes\<close>

text \<open>\<open>s'\<close> is \<open>s\<close> with \<open>bs\<close> appended.\<close>

definition wrote :: "byte list \<Rightarrow> snap \<Rightarrow> snap \<Rightarrow> bool" where
  "wrote bs s s' \<longleftrightarrow> sn_hashed s' = sn_hashed s @ bs \<and> sn_hardLinks s' = sn_hardLinks s"

lemma wrote_trans: "wrote xs s t \<Longrightarrow> wrote ys t u \<Longrightarrow> wrote (xs @ ys) s u"
  by (simp add: wrote_def)

lemma append_wrote: "append io staging bs s = Inr s' \<Longrightarrow> wrote bs s s' \<and> length bs \<le> MAX_TREE_BYTES"
  by (auto simp: append_def snap_op_def Let_def res_simps wrote_def split: if_splits)

lemma put_header_wrote:
  "put_header io staging h s = Inr s' \<Longrightarrow> \<exists>b. encodeHeader h = Inr b \<and> wrote b s s'"
  by (auto simp: put_header_def res_simps dest: append_wrote)

lemma read_loop_wrote:
  assumes "read_loop io staging rd len off s = Inr (off', s')" "off' = len" "off \<le> len"
    and "length c = len" "\<And>a m. rd a m = take m (drop a c)"
  shows "wrote (drop off c) s s'"
  using assms
proof (induction io staging rd len off s arbitrary: off' s' rule: read_loop.induct)
  case (1 io staging rd len off s)
  show ?case
  proof (cases "off < len")
    case False
    then have "s' = s" using 1(2) unfolding read_loop.simps [of io staging rd len off s] by simp
    moreover have "off = len" using False 1(4) by simp
    ultimately show ?thesis using 1(5) by (simp add: wrote_def)
  next
    case True
    let ?chunk = "rd off (min (64 * 1024) (len - off))"
    have ne: "?chunk \<noteq> []" using True 1(5,6) by auto
    then obtain t where t: "append io staging ?chunk s = Inr t"
      "read_loop io staging rd len (off + length ?chunk) t = Inr (off', s')"
      using 1(2) True unfolding read_loop.simps [of io staging rd len off s] by (auto simp: Let_def bind_res_Inr)
    have rest: "wrote (drop (off + length ?chunk) c) t s'"
      using 1(1) [OF True refl ne t(2) 1(3)] 1(5,6) True by simp
    have "?chunk @ drop (length ?chunk) (drop off c) = drop off c"
      using 1(5,6) by (simp add: append_eq_conv_conj min.commute)
    then have "?chunk @ drop (off + length ?chunk) c = drop off c" by (simp add: add.commute)
    with wrote_trans [OF conjunct1 [OF append_wrote [OF t(1)]] rest] show ?thesis by simp
  qed
qed

lemma put_text_wrote:
  assumes "put_text io staging rel ty mode mtimeNs text s = Inr s'"
  shows "\<exists>b. encodeHeader \<lparr>h_path = rel, h_type = ty, h_mode = mode, h_mtimeNs = mtimeNs,
      h_payloadLength = length text\<rparr> = Inr b \<and> wrote (b @ bytes_of text) s s' \<and> length text \<le> MAX_TREE_BYTES"
  using assms by (auto simp: put_text_def Let_def bind_res_Inr dest!: put_header_wrote append_wrote dest: wrote_trans)

definition links_named :: "links \<Rightarrow> bool" where
  "links_named l \<longleftrightarrow> (\<forall>k. l k \<noteq> Some [])"

lemma export_file_wrote:
  assumes run: "export_file io staging (en_relative e) st rd (entry_mode st) (round_mtime (st_mtimeNs st)) s = Inr s'"
    and e: "en_node e = N_file st rd" "stable (en_node e)" "en_relative e \<noteq> []" "links_named (sn_hardLinks s)"
    and mode: "entry_mode st AND 3072 = 0"
  shows "record_ok (entry_record (sn_hardLinks s) e) \<and>
    sn_hashed s' = sn_hashed s @ record_bytes (entry_record (sn_hardLinks s) e) \<and> sn_hardLinks s' = entry_links (sn_hardLinks s) e"
proof -
  let ?l = "sn_hardLinks s" and ?size = "st_size st" and ?c = "content rd (st_size st)"
  have c: "length ?c = ?size" "\<And>a m. rd a m = take m (drop a ?c)" using e(1,2) by (auto simp: stable_def)
  have size: "?size \<le> MAX_FILE_BYTES" using run by (auto simp: export_file_def Let_def split: if_splits)
  show ?thesis
  proof (cases "st_nlink st > 1 \<and> ?l (link_key st) \<noteq> None")
    case True
    then obtain t where t: "?l (link_key st) = Some t" by blast
    then have "t \<noteq> []" using e(4) unfolding links_named_def by blast
    note t = t this
    then have "put_text io staging (en_relative e) TYPE_HARDLINK (entry_mode st) (round_mtime (st_mtimeNs st)) t s = Inr s'"
      using run True size by (auto simp: export_file_def Let_def link_key_def)
    from put_text_wrote [OF this] obtain b where b: "encodeHeader \<lparr>h_path = en_relative e, h_type = TYPE_HARDLINK,
        h_mode = entry_mode st, h_mtimeNs = round_mtime (st_mtimeNs st), h_payloadLength = length t\<rparr> = Inr b"
      "wrote (b @ bytes_of t) s s'" "length t \<le> MAX_TREE_BYTES" by blast
    have "entry_record ?l e = (header e st TYPE_HARDLINK (bytes_of t), bytes_of t)" "entry_links ?l e = ?l"
      using True t e(1) by (simp_all add: entry_record_def)
    then show ?thesis using b mode by (simp add: header_def record_ok_def record_bytes_def wrote_def)
  next
    case False
    define s1 where "s1 = (if st_nlink st > 1 then s\<lparr>sn_hardLinks := ?l(link_key st := Some (en_relative e))\<rparr> else s)"
    have links: "sn_hardLinks s1 = entry_links ?l e" "sn_hashed s1 = sn_hashed s"
      using False e(1) by (auto simp: s1_def)
    have nolink: "(if st_nlink st > 1 then ?l (st_dev st, st_ino st) else None) = None"
      using False by (auto simp: link_key_def)
    have "bind_res (put_header io staging \<lparr>h_path = en_relative e, h_type = TYPE_FILE, h_mode = entry_mode st,
          h_mtimeNs = round_mtime (st_mtimeNs st), h_payloadLength = ?size\<rparr> s1) (\<lambda>s.
        bind_res (read_loop io staging rd ?size 0 s) (\<lambda>(offset, s).
          if offset \<noteq> ?size then Inl (service_err BACKEND_ERROR (''File changed during snapshot: '' @ en_relative e), s)
          else Inr s)) = Inr s'"
      using run size unfolding export_file_def Let_def nolink s1_def link_key_def by simp
    then obtain t where t: "put_header io staging \<lparr>h_path = en_relative e, h_type = TYPE_FILE, h_mode = entry_mode st,
          h_mtimeNs = round_mtime (st_mtimeNs st), h_payloadLength = ?size\<rparr> s1 = Inr t"
      "read_loop io staging rd ?size 0 t = Inr (?size, s')"
      by (auto simp: bind_res_Inr split: if_splits)
    from put_header_wrote [OF t(1)] obtain b where b: "encodeHeader \<lparr>h_path = en_relative e, h_type = TYPE_FILE,
        h_mode = entry_mode st, h_mtimeNs = round_mtime (st_mtimeNs st), h_payloadLength = ?size\<rparr> = Inr b" "wrote b s1 t" by blast
    have "wrote ?c t s'" using read_loop_wrote [OF t(2) refl _ c] by simp
    with b(2) have w: "wrote (b @ ?c) s1 s'" by (rule wrote_trans)
    have "entry_record ?l e = (header e st TYPE_FILE ?c, ?c)"
      using False e(1) by (auto simp: entry_record_def)
    then show ?thesis using b w mode links c(1) size
      by (simp add: header_def record_ok_def record_bytes_def wrote_def MAX_FILE_BYTES_def MAX_TREE_BYTES_def)
  qed
qed

lemma export_entry_wrote:
  assumes run: "export_entry io staging root e s = Inr s'"
    and e: "stable (en_node e)" "en_relative e \<noteq> []" "links_named (sn_hardLinks s)"
  shows "record_ok (entry_record (sn_hardLinks s) e) \<and>
    sn_hashed s' = sn_hashed s @ record_bytes (entry_record (sn_hardLinks s) e) \<and> sn_hardLinks s' = entry_links (sn_hardLinks s) e"
proof -
  obtain st where st: "node_stats (en_node e) = Inr st" using run by (auto simp: export_entry_def bind_res_Inr at_state_iff)
  then have mode: "entry_mode st AND 3072 = 0"
    using run by (auto simp: export_entry_def Let_def entry_mode_def split: if_splits)
  show ?thesis
  proof (cases "en_node e")
    case (N_dir a b)
    then show ?thesis using run st mode
      by (auto simp: export_entry_def Let_def entry_record_def header_def record_ok_def record_bytes_def entry_mode_def
          wrote_def dest!: put_header_wrote split: if_splits)
  next
    case (N_file a rd)
    then have "export_file io staging (en_relative e) st rd (entry_mode st) (round_mtime (st_mtimeNs st)) s = Inr s'"
      using run st by (auto simp: export_entry_def Let_def entry_mode_def split: if_splits)
    then show ?thesis using export_file_wrote N_file e mode st by auto
  next
    case (N_symlink a t)
    then have "put_text io staging (en_relative e) TYPE_SYMLINK (entry_mode st) (round_mtime (st_mtimeNs st)) t s = Inr s'"
      using run st by (auto simp: export_entry_def export_symlink_def Let_def entry_mode_def split: if_splits)
    then show ?thesis using N_symlink st mode
      by (auto simp: entry_record_def header_def record_ok_def record_bytes_def wrote_def dest!: put_text_wrote)
  next
    case (N_other a)
    then show ?thesis using run st by (auto simp: export_entry_def Let_def split: if_splits)
  next
    case (N_unreadable a)
    then show ?thesis using st by simp
  qed
qed

lemma links_named_entry: "links_named l \<Longrightarrow> en_relative e \<noteq> [] \<Longrightarrow> links_named (entry_links l e)"
  by (auto simp: links_named_def split: node.splits)

lemma export_entries_wrote:
  assumes "export_entries io staging root es s = Inr s'"
    and "\<forall>e\<in>set es. stable (en_node e) \<and> en_relative e \<noteq> []" "links_named (sn_hardLinks s)"
  shows "list_all record_ok (entry_records (sn_hardLinks s) es) \<and>
    sn_hashed s' = sn_hashed s @ concat (map record_bytes (entry_records (sn_hardLinks s) es))"
  using assms
proof (induction es arbitrary: s)
  case (Cons e es)
  then obtain t where t: "export_entry io staging root e s = Inr t" "export_entries io staging root es t = Inr s'"
    by (auto simp: bind_res_Inr)
  note w = export_entry_wrote [OF t(1)]
  have e: "stable (en_node e)" "en_relative e \<noteq> []" using Cons.prems(2) by auto
  have "links_named (sn_hardLinks t)" using w [OF e Cons.prems(3)] links_named_entry [OF Cons.prems(3) e(2)] by simp
  then show ?case using Cons.IH [OF t(2)] Cons.prems(2) w [OF e Cons.prems(3)] by auto
qed simp

section \<open>What an extraction reads\<close>

text \<open>The extraction of a list of records, one after the other.\<close>

fun extract_records :: "(fs_op \<Rightarrow> unit res) \<Rightarrow> (nat \<Rightarrow> nat) \<Rightarrow> string \<Rightarrow> (entry_header \<times> byte list) list \<Rightarrow> extraction \<Rightarrow> extracted" where
  "extract_records io stored staging [] x = Inr x"
| "extract_records io stored staging (hp # hps) x =
     bind_res (extract_entry io stored staging (fst hp) (snd hp) x) (extract_records io stored staging hps)"

definition readable :: "entry_header \<times> byte list \<Rightarrow> bool" where
  "readable hp \<longleftrightarrow> record_ok hp \<and> header_ok (fst hp)"

lemma extract_loop_records:
  assumes "list_all readable hps"
  shows "extract_loop io stored staging (pre @ concat (map record_bytes hps)) (length pre) x =
    extract_records io stored staging hps x"
  using assms
proof (induction hps arbitrary: pre x)
  case Nil
  then show ?case by (simp add: extract_loop.simps)
next
  case (Cons hp hps)
  obtain h p where hp: "hp = (h, p)" by force
  obtain b where b: "encodeHeader h = Inr b" and ok: "header_ok h" "h_payloadLength h = length p"
    using Cons.prems hp by (auto simp: readable_def record_ok_def is_ok_def split: sum.splits)
  let ?rest = "concat (map record_bytes hps)"
  let ?bytes = "pre @ b @ p @ ?rest"
  have bytes: "pre @ concat (map record_bytes (hp # hps)) = ?bytes" using hp b by (simp add: record_bytes_def)
  have "0 < length b" using b by (auto simp: encodeHeader_Inr)
  then have lt: "length pre < length ?bytes" by simp
  have rd: "readHeader ?bytes (length pre) = Inr (h, length pre + length b)"
    using readHeader_encodeHeader [OF b ok(1)] by simp
  have payload: "slice ?bytes (length pre + length b) (h_payloadLength h) = p" using ok(2) by (simp add: slice_def)
  have IH: "extract_loop io stored staging ?bytes (length pre + length b + length p) =
      extract_records io stored staging hps"
  proof
    fix y
    have "extract_loop io stored staging ((pre @ b @ p) @ ?rest) (length (pre @ b @ p)) y =
        extract_records io stored staging hps y"
      by (rule Cons.IH) (use Cons.prems in simp)
    then show "extract_loop io stored staging ?bytes (length pre + length b + length p) y =
        extract_records io stored staging hps y" by (simp add: add.assoc)
  qed
  show ?case
    unfolding bytes extract_loop.simps [of io stored staging ?bytes "length pre" x]
    using lt rd payload ok(2) hp by (simp add: IH)
qed

end
