(* ===== verification/Cfs_Restore.thy ===== *)
theory Cfs_Restore
  imports Cfs_Roundtrip
begin

text \<open>
  The file system after the extraction of the records of a workspace: the places of the entries,
  and nothing else below the staging directory, each with the content, mode and time of its
  entry; hard links share an inode.
\<close>

section \<open>Exact effects of the calls\<close>

text \<open>\<open>f'\<close> is \<open>f\<close> with the new name \<open>p\<close> of inode \<open>i\<close>, which is \<open>n\<close>, and its directory touched.\<close>

definition added :: "path \<Rightarrow> nat \<Rightarrow> inode \<Rightarrow> fs \<Rightarrow> fs \<Rightarrow> bool" where
  "added p i n f f' \<longleftrightarrow> f_names f' = (f_names f)(p := Some i) \<and> lookup_inode f' p = Some n \<and>
     (\<forall>q. q \<noteq> p \<longrightarrow> lookup_inode f' q =
        (if q = butlast p then map_option (set_mtime None) (lookup_inode f q) else lookup_inode f q))"

definition same_view :: "fs \<Rightarrow> fs \<Rightarrow> bool" where
  "same_view f f' \<longleftrightarrow> f_names f' = f_names f \<and> lookup_inode f' = lookup_inode f"

lemma added_same_view: "added p i n f f1 \<Longrightarrow> same_view f1 f' \<Longrightarrow> added p i n f f'"
  by (simp add: added_def same_view_def)

lemma lookup_touch_dir:
  assumes "fs_ok f" "is_dir f d"
  shows "lookup_inode (touch_dir d f) q =
    (if q = d then map_option (set_mtime None) (lookup_inode f q) else lookup_inode f q)"
proof (cases "q = d")
  case True
  then show ?thesis by (cases "f_names f d") (auto simp: touch_dir_def lookup_inode_def)
next
  case False
  then show ?thesis using lookup_touch [OF assms] by simp
qed

lemma add_name_added:
  assumes ok: "fs_ok f" and p: "f_names f p = None" "is_dir f (butlast p)"
    and i: "f_inodes f i = n" "\<not> i_body n = B_dir" "f_names f (butlast p) \<noteq> Some i"
  shows "\<exists>f'. add_name p i f = Inr f' \<and> added p i n f f'"
proof -
  let ?t = "touch_dir (butlast p) f" and ?f' = "(touch_dir (butlast p) f)\<lparr>f_names := (f_names f)(p := Some i)\<rparr>"
  have "add_name p i f = Inr ?f'" using p is_dir_named [OF p(2)] by (auto simp: add_name_def)
  moreover have "f_inodes ?t i = n" using i(1,3) by (auto simp: touch_dir_def split: option.splits)
  then have "added p i n f ?f'"
    using lookup_touch_dir [OF ok p(2)] by (simp add: added_def lookup_inode_def)
  ultimately show ?thesis by blast
qed

lemma create_added:
  assumes ok: "fs_ok f" and p: "f_names f p = None" "is_dir f (butlast p)"
  shows "\<exists>f'. create p b m f = Inr f' \<and> added p (f_next f) \<lparr>i_body = b, i_mode = m, i_mtime = None\<rparr> f f'"
proof -
  let ?n = "\<lparr>i_body = b, i_mode = m, i_mtime = None\<rparr>"
  let ?a = "f\<lparr>f_inodes := (f_inodes f)(f_next f := ?n), f_next := f_next f + 1\<rparr>"
  have la: "lookup_inode ?a q = lookup_inode f q" for q
    using ok by (cases "f_names f q") (auto simp: fs_ok_def lookup_inode_def)
  then have da: "is_dir ?a = is_dir f" by (simp add: fun_eq_iff is_dir_def)
  have oka: "fs_ok ?a" using ok da by (auto simp: fs_ok_def less_Suc_eq)
  let ?t = "touch_dir (butlast p) ?a" and ?f' = "(touch_dir (butlast p) ?a)\<lparr>f_names := (f_names f)(p := Some (f_next f))\<rparr>"
  have "create p b m f = Inr ?f'" using p is_dir_named [OF p(2)] da by (auto simp: create_def add_name_def)
  moreover have "f_names f (butlast p) \<noteq> Some (f_next f)" using ok by (auto simp: fs_ok_def)
  then have "f_inodes ?t (f_next f) = ?n" by (auto simp: touch_dir_def split: option.splits)
  then have "added p (f_next f) ?n f ?f'"
    using lookup_touch_dir [OF oka, of "butlast p"] p(2) da la by (simp add: added_def lookup_inode_def)
  ultimately show ?thesis by blast
qed

lemma change_at_lookup:
  assumes "f_names f p \<noteq> None"
  shows "\<exists>f'. change_at p g f = Inr f' \<and> f_names f' = f_names f \<and>
    (\<forall>q. lookup_inode f' q = (if f_names f q = f_names f p then map_option g (lookup_inode f q) else lookup_inode f q))"
proof -
  obtain i where i: "f_names f p = Some i" using assms by blast
  have "lookup_inode (change_inode i g f) q =
      (if f_names f q = Some i then map_option g (lookup_inode f q) else lookup_inode f q)" for q
    by (cases "f_names f q") (simp_all add: lookup_inode_def)
  then show ?thesis using i by (simp add: change_at_def)
qed

lemma change_at_added:
  assumes a: "added p i n f f1" and new: "\<And>q. f_names f q \<noteq> Some i"
  shows "\<exists>f'. change_at p g f1 = Inr f' \<and> added p i (g n) f f'"
proof -
  have names: "f_names f1 = (f_names f)(p := Some i)" using a by (simp add: added_def)
  obtain f' where f': "change_at p g f1 = Inr f'" "f_names f' = f_names f1"
    "\<forall>q. lookup_inode f' q = (if f_names f1 q = f_names f1 p then map_option g (lookup_inode f1 q) else lookup_inode f1 q)"
    using change_at_lookup [of f1 p g] names by auto
  have "f_names f1 q = f_names f1 p \<longleftrightarrow> q = p" for q using names new [of q] by auto
  then have "lookup_inode f' q = (if q = p then map_option g (lookup_inode f1 q) else lookup_inode f1 q)" for q
    using f'(3) by simp
  then show ?thesis using a f'(1,2) by (auto simp: added_def)
qed

lemma change_at_same:
  assumes n: "lookup_inode f p = Some n" "g n = n"
  shows "\<exists>f'. change_at p g f = Inr f' \<and> same_view f f'"
proof -
  have p: "f_names f p \<noteq> None" using n(1) by (auto simp: lookup_inode_def)
  obtain f' where f': "change_at p g f = Inr f'" "f_names f' = f_names f"
    "\<forall>q. lookup_inode f' q = (if f_names f q = f_names f p then map_option g (lookup_inode f q) else lookup_inode f q)"
    using change_at_lookup [OF p] by blast
  have "lookup_inode f q = Some n" if "f_names f q = f_names f p" for q using that n(1) by (simp add: lookup_inode_def)
  then have "lookup_inode f' q = lookup_inode f q" for q using f'(3) n(2) by simp
  then show ?thesis using f'(1,2) by (auto simp: same_view_def)
qed

lemma mkdirp_existing: "fs_ok f \<Longrightarrow> is_dir f (q @ ps) \<Longrightarrow> mkdirp m q ps f = Inr f"
proof (induction m q ps f rule: mkdirp.induct)
  case (2 m q x xs f)
  have "is_dir f (q @ [x])"
  proof (cases "xs = []")
    case False
    then show ?thesis using fs_ok_ancestor [of f "q @ [x]" xs] 2(3,4) by (auto dest: is_dir_named)
  qed (use 2(4) in simp)
  then show ?case using 2 by (auto dest: is_dir_named)
qed simp

section \<open>The extraction of one entry\<close>

abbreviation no_failure :: "fs_op \<Rightarrow> unit res" where
  "no_failure \<equiv> \<lambda>_. Inr ()"

lemma x_op_ok: "fs_apply op (x_fs x) = Inr f \<Longrightarrow> x_op no_failure op x = Inr (x\<lparr>x_fs := f\<rparr>)"
  by (simp add: x_op_def fs_run_def del: fs_apply.simps)

fun entry_body :: "entry \<Rightarrow> body" where
  "entry_body e = (case en_node e of
     N_file st rd \<Rightarrow> B_file (content rd (st_size st))
   | N_symlink st t \<Rightarrow> B_symlink t
   | N_dir st cs \<Rightarrow> B_dir
   | _ \<Rightarrow> B_file [])"

definition entry_link :: "entry \<Rightarrow> bool" where
  "entry_link e \<longleftrightarrow> (case en_node e of N_symlink _ _ \<Rightarrow> True | _ \<Rightarrow> False)"

definition entry_file :: "entry \<Rightarrow> bool" where
  "entry_file e \<longleftrightarrow> (case en_node e of N_file _ _ \<Rightarrow> True | _ \<Rightarrow> False)"

definition entry_time :: "entry \<Rightarrow> nat" where
  "entry_time e = nat (round_mtime (st_mtimeNs (entry_stats e)))"

text \<open>The inode an entry gets in the end, and before the times of directories are set.\<close>

definition restored :: "(nat \<Rightarrow> nat) \<Rightarrow> entry \<Rightarrow> inode" where
  "restored stored e = \<lparr>i_body = entry_body e,
     i_mode = (if entry_link e then 511 else entry_mode (entry_stats e) AND 511),
     i_mtime = Some (stored (entry_time e))\<rparr>"

definition unfinished :: "(nat \<Rightarrow> nat) \<Rightarrow> entry \<Rightarrow> inode" where
  "unfinished stored e = (if entry_dir e then set_mtime None (restored stored e) else restored stored e)"

text \<open>What of a symbolic link makes it acceptable wherever the workspace is: a target that never
  climbs above the root of the workspace on its way.\<close>

fun stays :: "nat \<Rightarrow> string list \<Rightarrow> bool" where
  "stays k [] = True"
| "stays k (p # ps) =
     (if p = [] \<or> p = ''.'' then stays k ps
      else if p = ''..'' then k > 0 \<and> stays (k - 1) ps
      else stays (k + 1) ps)"

lemma stays_prefix: "stays (length q) ps \<Longrightarrow> prefix s (foldl add_part (s @ q) ps)"
proof (induction "length q" ps arbitrary: q rule: stays.induct)
  case (2 p ps)
  show ?case
  proof (cases "p = [] \<or> p = ''.''")
    case True
    then show ?thesis using 2 by (auto simp: add_part_def)
  next
    case False
    show ?thesis
    proof (cases "p = ''..''")
      case True
      then have "q \<noteq> []" "stays (length (butlast q)) ps" using "2.prems" False by auto
      then show ?thesis using "2.hyps"(2) [of "butlast q"] True False "2.prems" by (simp add: add_part_def butlast_append)
    next
      case d: False
      then show ?thesis using "2.hyps"(3) [of "q @ [p]"] False "2.prems" by (simp add: add_part_def)
    qed
  qed
qed simp

definition entry_fine :: "entry \<Rightarrow> bool" where
  "entry_fine e \<longleftrightarrow> utf8_valid (bytes_of (en_relative e)) \<and> stable (en_node e) \<and> (case en_node e of
     N_symlink st t \<Rightarrow> utf8_valid (bytes_of t) \<and> NUL \<notin> set t \<and> \<not> starts_with ''/'' t \<and>
       stays (length (en_parts e) - 1) (split_on (CHR ''/'') t)
   | _ \<Rightarrow> True)"

lemma resolve_stays:
  assumes s: "good_path s" "s \<noteq> []" and r: "\<not> unsafe_path r"
    and t: "\<not> starts_with ''/'' t" "stays (length (split_on (CHR ''/'') r) - 1) (split_on (CHR ''/'') t)"
  shows "\<exists>q. resolve_path (dirname (abs_path (place s r))) t = abs_path q \<and> good_path q \<and> prefix s q"
proof -
  let ?b = "s @ butlast (split_on (CHR ''/'') r)"
  have b: "good_path ?b" "?b \<noteq> []" "butlast (place s r) = ?b"
    using s safe_path_good [OF r] by (simp_all add: place_def butlast_append)
  have d: "dirname (abs_path (place s r)) = abs_path ?b"
    using dirname_abs [OF good_place [OF s(1) r]] b by simp
  have "prefix s (foldl add_part ?b (split_on (CHR ''/'') t))"
    using stays_prefix [of "butlast (split_on (CHR ''/'') r)" "split_on (CHR ''/'') t" s] t(2) by simp
  then show ?thesis using resolve_abs [OF b(1) t(1)] good_path_resolve [OF b(1)] d by auto
qed

lemma starts_with_below:
  "good_path q \<Longrightarrow> s \<noteq> [] \<Longrightarrow> prefix s q \<Longrightarrow> abs_path q = abs_path s \<or> starts_with (abs_path s @ ''/'') (abs_path q)"
proof -
  assume g: "good_path q" "s \<noteq> []" "prefix s q"
  then obtain t where t: "q = s @ t" by (auto simp: prefix_def)
  show ?thesis
  proof (cases "t = []")
    case False
    then have "abs_path q = (abs_path s @ ''/'') @ join_with (CHR ''/'') t" using g t abs_path_append [of s t] by simp
    then show ?thesis using starts_with_iff by blast
  qed (simp add: t)
qed

text \<open>The calls for an entry whose directory is there and whose place is free.\<close>

definition laid_new :: "(nat \<Rightarrow> nat) \<Rightarrow> path \<Rightarrow> entry \<Rightarrow> extraction \<Rightarrow> extraction \<Rightarrow> bool" where
  "laid_new stored s e x x' \<longleftrightarrow> (\<exists>i. (\<forall>q. f_names (x_fs x) q \<noteq> Some i) \<and>
     added (place s (en_relative e)) i (unfinished stored e) (x_fs x) (x_fs x')) \<and> x_types x' = x_types x \<and>
     x_times x' = x_times x @ (if entry_dir e then [(abs_path (place s (en_relative e)), entry_time e)] else [])"

definition free_place :: "path \<Rightarrow> entry \<Rightarrow> extraction \<Rightarrow> bool" where
  "free_place s e x \<longleftrightarrow> good_path s \<and> s \<noteq> [] \<and> \<not> unsafe_path (en_relative e) \<and> fs_ok (x_fs x) \<and>
     f_names (x_fs x) (place s (en_relative e)) = None \<and> is_dir (x_fs x) (butlast (place s (en_relative e)))"

lemma free_place_path: "free_place s e x \<Longrightarrow> path_parts (abs_path (place s (en_relative e))) = place s (en_relative e)"
  by (simp add: free_place_def)

lemma free_place_unused: "free_place s e x \<Longrightarrow> f_names (x_fs x) q \<noteq> Some (f_next (x_fs x))"
  by (auto simp: free_place_def fs_ok_def)

lemma types_differ [simp]:
  "TYPE_DIRECTORY \<noteq> TYPE_FILE" "TYPE_DIRECTORY \<noteq> TYPE_SYMLINK" "TYPE_DIRECTORY \<noteq> TYPE_HARDLINK"
  "TYPE_FILE \<noteq> TYPE_DIRECTORY" "TYPE_FILE \<noteq> TYPE_SYMLINK" "TYPE_FILE \<noteq> TYPE_HARDLINK"
  "TYPE_SYMLINK \<noteq> TYPE_DIRECTORY" "TYPE_SYMLINK \<noteq> TYPE_FILE" "TYPE_SYMLINK \<noteq> TYPE_HARDLINK"
  "TYPE_HARDLINK \<noteq> TYPE_DIRECTORY" "TYPE_HARDLINK \<noteq> TYPE_FILE" "TYPE_HARDLINK \<noteq> TYPE_SYMLINK"
  by (simp_all add: TYPE_DIRECTORY_def TYPE_FILE_def TYPE_SYMLINK_def TYPE_HARDLINK_def)

lemma header_simps [simp]:
  "h_path (header e st ty p) = en_relative e" "h_type (header e st ty p) = ty"
  "h_mode (header e st ty p) = entry_mode st" "h_mtimeNs (header e st ty p) = round_mtime (st_mtimeNs st)"
  by (simp_all add: header_def)

text \<open>A fresh inode made by one call and finished by two changes.\<close>

lemma fresh_laid:
  assumes f: "free_place s e x" and b: "fs_apply op (x_fs x) = create (place s (en_relative e)) b m (x_fs x)"
    and g: "ga (gb \<lparr>i_body = b, i_mode = m, i_mtime = None\<rparr>) = unfinished stored e"
  shows "\<exists>f1 f2 f3 i. x_op no_failure op x = Inr (x\<lparr>x_fs := f1\<rparr>) \<and> change_at (place s (en_relative e)) gb f1 = Inr f2 \<and>
    change_at (place s (en_relative e)) ga f2 = Inr f3 \<and> (\<forall>q. f_names (x_fs x) q \<noteq> Some i) \<and>
    added (place s (en_relative e)) i (unfinished stored e) (x_fs x) f3"
proof -
  let ?o = "place s (en_relative e)" and ?i = "f_next (x_fs x)"
  note u = free_place_unused [OF f]
  have fp: "fs_ok (x_fs x)" "f_names (x_fs x) ?o = None" "is_dir (x_fs x) (butlast ?o)"
    using f by (simp_all add: free_place_def)
  obtain f1 where f1: "create ?o b m (x_fs x) = Inr f1" "added ?o ?i \<lparr>i_body = b, i_mode = m, i_mtime = None\<rparr> (x_fs x) f1"
    using create_added [OF fp] by blast
  obtain f2 where f2: "change_at ?o gb f1 = Inr f2" "added ?o ?i (gb \<lparr>i_body = b, i_mode = m, i_mtime = None\<rparr>) (x_fs x) f2"
    using change_at_added [OF f1(2) u] by blast
  obtain f3 where f3: "change_at ?o ga f2 = Inr f3" "added ?o ?i (unfinished stored e) (x_fs x) f3"
    using change_at_added [OF f2(2) u] g by metis
  show ?thesis using x_op_ok [of op x f1] f1(1) f2(1) f3 b u by auto
qed

lemma laid_new_intro:
  assumes "\<forall>q. f_names (x_fs x) q \<noteq> Some i" "added (place s (en_relative e)) i (unfinished stored e) (x_fs x) f3"
  shows "laid_new stored s e x (x\<lparr>x_times := x_times x @ (if entry_dir e then [(abs_path (place s (en_relative e)), entry_time e)] else []), x_fs := f3\<rparr>)"
  using assms by (auto simp: laid_new_def)

lemma dir_laid:
  assumes f: "free_place s e x" and e: "en_node e = N_dir st cs"
  shows "\<exists>x' x''. extract_body no_failure stored (abs_path s) (header e st TYPE_DIRECTORY []) [] (abs_path (place s (en_relative e))) x = Inr x' \<and>
    extract_attributes no_failure stored (header e st TYPE_DIRECTORY []) (abs_path (place s (en_relative e))) x' = Inr x'' \<and>
    laid_new stored s e x x''"
proof -
  let ?o = "place s (en_relative e)" and ?m = "entry_mode st AND 511"
  have "id (set_mode ?m \<lparr>i_body = B_dir, i_mode = ?m, i_mtime = None\<rparr>) = unfinished stored e"
    using e by (simp add: unfinished_def restored_def entry_dir_def entry_link_def set_mode_def set_mtime_def)
  then obtain f1 f2 f3 i where l: "x_op no_failure (Op_mkdir ?o ?m) x = Inr (x\<lparr>x_fs := f1\<rparr>)" "change_at ?o (set_mode ?m) f1 = Inr f2"
    "change_at ?o id f2 = Inr f3" "\<forall>q. f_names (x_fs x) q \<noteq> Some i" "added ?o i (unfinished stored e) (x_fs x) f3"
    using fresh_laid [where ga = "id" and gb = "set_mode ?m", OF f fs_apply.simps(2)] by blast
  have "f3 = f2" using l(3) by (auto simp: change_at_def change_inode_def split: option.splits)
  then show ?thesis
    using l laid_new_intro [OF l(4,5)] free_place_path [OF f] e
    by (simp add: extract_body_def extract_attributes_def x_op_ok entry_time_def entry_dir_def)
qed

lemma file_laid:
  assumes f: "free_place s e x" and e: "en_node e = N_file st rd"
  shows "\<exists>x' x''. extract_body no_failure stored (abs_path s) (header e st TYPE_FILE (content rd (st_size st))) (content rd (st_size st)) (abs_path (place s (en_relative e))) x = Inr x' \<and>
    extract_attributes no_failure stored (header e st TYPE_FILE (content rd (st_size st))) (abs_path (place s (en_relative e))) x' = Inr x'' \<and>
    laid_new stored s e x x''"
proof -
  let ?o = "place s (en_relative e)" and ?m = "entry_mode st AND 511" and ?c = "content rd (st_size st)"
  let ?t = "Some (stored (entry_time e))"
  have "set_mtime ?t (set_mode ?m \<lparr>i_body = B_file ?c, i_mode = ?m, i_mtime = None\<rparr>) = unfinished stored e"
    using e by (simp add: unfinished_def restored_def entry_dir_def entry_link_def set_mode_def set_mtime_def)
  then obtain f1 f2 f3 i where l: "x_op no_failure (Op_write ?o ?c ?m) x = Inr (x\<lparr>x_fs := f1\<rparr>)" "change_at ?o (set_mode ?m) f1 = Inr f2"
    "change_at ?o (set_mtime ?t) f2 = Inr f3" "\<forall>q. f_names (x_fs x) q \<noteq> Some i" "added ?o i (unfinished stored e) (x_fs x) f3"
    using fresh_laid [where ga = "set_mtime ?t" and gb = "set_mode ?m", OF f fs_apply.simps(3)] by blast
  then show ?thesis
    using laid_new_intro [OF l(4,5)] free_place_path [OF f] e
    by (simp add: extract_body_def extract_attributes_def x_op_ok entry_time_def entry_dir_def)
qed

lemma symlink_laid:
  assumes f: "free_place s e x" and e: "en_node e = N_symlink st t" "entry_fine e"
  shows "\<exists>x' x''. extract_body no_failure stored (abs_path s) (header e st TYPE_SYMLINK (bytes_of t)) (bytes_of t) (abs_path (place s (en_relative e))) x = Inr x' \<and>
    extract_attributes no_failure stored (header e st TYPE_SYMLINK (bytes_of t)) (abs_path (place s (en_relative e))) x' = Inr x'' \<and>
    laid_new stored s e x x''"
proof -
  let ?o = "place s (en_relative e)" and ?t = "Some (stored (entry_time e))"
  have "id (set_mtime ?t \<lparr>i_body = B_symlink t, i_mode = 511, i_mtime = None\<rparr>) = unfinished stored e"
    using e by (simp add: unfinished_def restored_def entry_dir_def entry_link_def set_mode_def set_mtime_def)
  then obtain f1 f2 f3 i where l: "x_op no_failure (Op_symlink t ?o) x = Inr (x\<lparr>x_fs := f1\<rparr>)" "change_at ?o (set_mtime ?t) f1 = Inr f2"
    "change_at ?o id f2 = Inr f3" "\<forall>q. f_names (x_fs x) q \<noteq> Some i" "added ?o i (unfinished stored e) (x_fs x) f3"
    using fresh_laid [where ga = "id" and gb = "set_mtime ?t", OF f fs_apply.simps(5)] by blast
  have f3: "f3 = f2" using l(3) by (auto simp: change_at_def change_inode_def split: option.splits)
  have t: "utf8_valid (bytes_of t)" "NUL \<notin> set t" "\<not> starts_with ''/'' t" using e by (simp_all add: entry_fine_def)
  have g: "good_path s" "s \<noteq> []" "\<not> unsafe_path (en_relative e)" using f by (simp_all add: free_place_def)
  obtain q where q: "resolve_path (dirname (abs_path ?o)) t = abs_path q" "good_path q" "prefix s q"
    using resolve_stays [OF g t(3)] e by (auto simp: entry_fine_def en_parts_def)
  have body: "extract_symlink no_failure stored (abs_path s) (header e st TYPE_SYMLINK (bytes_of t)) (bytes_of t) (abs_path ?o) x =
      Inr (x\<lparr>x_fs := f2\<rparr>)"
    using l(1,2) t q starts_with_below [OF q(2) g(2) q(3)] free_place_path [OF f] e(1)
    by (auto simp: extract_symlink_def utf8_string_valid x_op_ok entry_time_def)
  then show ?thesis
    using laid_new_intro [OF l(4,5)] f3 e(1) by (simp add: extract_body_def extract_attributes_def entry_dir_def)
qed

lemma link_laid:
  assumes f: "free_place s e x" and e: "en_node e = N_file st rd"
    and t: "x_types x t = Some TYPE_FILE" "\<not> unsafe_path t" "utf8_valid (bytes_of t)"
    and i: "f_names (x_fs x) (place s t) = Some i" "lookup_inode (x_fs x) (place s t) = Some (unfinished stored e)"
  shows "\<exists>x' x''. extract_body no_failure stored (abs_path s) (header e st TYPE_HARDLINK (bytes_of t)) (bytes_of t) (abs_path (place s (en_relative e))) x = Inr x' \<and>
    extract_attributes no_failure stored (header e st TYPE_HARDLINK (bytes_of t)) (abs_path (place s (en_relative e))) x' = Inr x'' \<and>
    added (place s (en_relative e)) i (unfinished stored e) (x_fs x) (x_fs x'') \<and> x_types x'' = x_types x \<and> x_times x'' = x_times x"
proof -
  let ?o = "place s (en_relative e)" and ?m = "entry_mode st AND 511" and ?t = "Some (stored (entry_time e))"
  have g: "good_path s" "s \<noteq> []" "fs_ok (x_fs x)" "f_names (x_fs x) ?o = None" "is_dir (x_fs x) (butlast ?o)"
    using f by (simp_all add: free_place_def)
  have n: "f_inodes (x_fs x) i = unfinished stored e" using i by (simp add: lookup_inode_def)
  have body: "i_body (unfinished stored e) = B_file (content rd (st_size st))"
    using e by (simp add: unfinished_def restored_def entry_dir_def)
  have nd: "\<not> is_dir (x_fs x) (place s t)" using i(2) body by (simp add: is_dir_def)
  have "f_names (x_fs x) (butlast ?o) \<noteq> Some i"
    using g(5) i(1) nd by (auto simp: is_dir_def lookup_inode_def)
  then obtain f1 where f1: "add_name ?o i (x_fs x) = Inr f1" "added ?o i (unfinished stored e) (x_fs x) f1"
    using add_name_added [OF g(3,4,5) n] body by auto
  have l1: "lookup_inode f1 ?o = Some (unfinished stored e)" using f1(2) by (simp add: added_def)
  have fix1: "set_mode ?m (unfinished stored e) = unfinished stored e" "set_mtime ?t (unfinished stored e) = unfinished stored e"
    using e by (simp_all add: unfinished_def restored_def entry_dir_def entry_link_def set_mode_def set_mtime_def)
  obtain f2 where f2: "change_at ?o (set_mode ?m) f1 = Inr f2" "same_view f1 f2" using change_at_same [where g = "set_mode ?m", OF l1 fix1(1)] by blast
  have l2: "lookup_inode f2 ?o = Some (unfinished stored e)" using l1 f2(2) by (simp add: same_view_def)
  obtain f3 where f3: "change_at ?o (set_mtime ?t) f2 = Inr f3" "same_view f2 f3" using change_at_same [where g = "set_mtime ?t", OF l2 fix1(2)] by blast
  have a: "added ?o i (unfinished stored e) (x_fs x) f3"
    using added_same_view [OF added_same_view [OF f1(2) f2(2)] f3(2)] .
  have sd: "safeDestination (abs_path s) t = Inr (abs_path (place s t))" using safeDestination_abs [OF g(1,2) t(2)] by (simp add: place_def)
  have "x_op no_failure (Op_link (place s t) ?o) x = Inr (x\<lparr>x_fs := f1\<rparr>)"
    using i(1) nd f1(1) by (intro x_op_ok) simp
  then show ?thesis
    using f2(1) f3(1) a t g(1) sd free_place_path [OF f] e
    by (simp add: extract_body_def extract_hardlink_def extract_attributes_def utf8_string_valid
        validateRelativePath_def x_op_ok entry_time_def)
qed

section \<open>The tree that grows\<close>

fun shared :: "entry \<Rightarrow> nat \<times> nat \<Rightarrow> bool" where
  "shared e k = (case en_node e of N_file st rd \<Rightarrow> st_nlink st > 1 \<and> link_key st = k | _ \<Rightarrow> False)"

definition same_file :: "entry \<Rightarrow> entry \<Rightarrow> bool" where
  "same_file e e' \<longleftrightarrow> en_relative e = en_relative e' \<or> (\<exists>k. shared e k \<and> shared e' k)"

lemma shared_unique: "shared e k \<Longrightarrow> shared e k' \<Longrightarrow> k' = k"
  by (auto split: node.splits)

text \<open>Names of one inode show one file.\<close>

definition links_agree :: "entry list \<Rightarrow> bool" where
  "links_agree es \<longleftrightarrow> (\<forall>e\<in>set es. \<forall>e'\<in>set es. same_file e e' \<longrightarrow>
     entry_stats e = entry_stats e' \<and> entry_body e = entry_body e')"

lemma shared_file: "shared e k \<Longrightarrow> \<exists>st rd. en_node e = N_file st rd"
  by (simp split: node.splits)

lemma links_agree_unfinished:
  assumes "links_agree es" "e \<in> set es" "e' \<in> set es" "shared e k" "shared e' k"
  shows "unfinished stored e = unfinished stored e'"
proof -
  have "entry_stats e = entry_stats e'" "entry_body e = entry_body e'"
    using assms unfolding links_agree_def same_file_def by blast+
  moreover have "\<not> entry_dir y \<and> \<not> entry_link y" if "shared y k" for y
    using shared_file [OF that] by (auto simp: entry_dir_def entry_link_def)
  ultimately show ?thesis using assms(4,5) by (simp add: unfinished_def restored_def entry_time_def del: entry_stats.simps entry_body.simps)
qed

definition laid :: "(nat \<Rightarrow> nat) \<Rightarrow> path \<Rightarrow> entry list \<Rightarrow> fs \<Rightarrow> bool" where
  "laid stored s es f \<longleftrightarrow>
     (\<forall>e\<in>set es. lookup_inode f (place s (en_relative e)) = Some (unfinished stored e)) \<and>
     (\<forall>p. strict_prefix s p \<and> f_names f p \<noteq> None \<longrightarrow> (\<exists>e\<in>set es. p = place s (en_relative e))) \<and>
     (\<forall>e\<in>set es. \<forall>e'\<in>set es. f_names f (place s (en_relative e)) = f_names f (place s (en_relative e')) \<longleftrightarrow> same_file e e')"

definition linked :: "path \<Rightarrow> entry list \<Rightarrow> links \<Rightarrow> extraction \<Rightarrow> bool" where
  "linked s es l x \<longleftrightarrow>
     (\<forall>k r. l k = Some r \<longrightarrow> (\<exists>e\<in>set es. en_relative e = r \<and> shared e k) \<and> x_types x r = Some TYPE_FILE) \<and>
     (\<forall>k. l k = None \<longrightarrow> (\<forall>e\<in>set es. \<not> shared e k))"

lemma laid_step:
  assumes laid: "laid stored s es f" and a: "added (place s (en_relative e)) i (unfinished stored e) f f'"
    and new: "en_relative e \<notin> en_relative ` set es" and dir: "is_dir f (butlast (place s (en_relative e)))"
    and i: "\<And>e'. e' \<in> set es \<Longrightarrow> f_names f (place s (en_relative e')) = Some i \<longleftrightarrow> same_file e e'"
  shows "laid stored s (es @ [e]) f'"
proof -
  let ?o = "place s (en_relative e)"
  have names: "f_names f' = (f_names f)(?o := Some i)" using a by (simp add: added_def)
  have other: "place s (en_relative e') \<noteq> ?o" if "e' \<in> set es" for e' using that new by (metis image_eqI place_inject)
  have look: "lookup_inode f' (place s (en_relative e')) = Some (unfinished stored e')" if e': "e' \<in> set es" for e'
  proof -
    have l: "lookup_inode f (place s (en_relative e')) = Some (unfinished stored e')" using laid e' by (simp add: laid_def)
    have "set_mtime None (unfinished stored e') = unfinished stored e'" if "place s (en_relative e') = butlast ?o"
    proof -
      have "i_body (unfinished stored e') = B_dir" using l dir that by (simp add: is_dir_def)
      then have "entry_dir e'" by (auto simp: unfinished_def restored_def entry_dir_def split: if_splits node.splits)
      then show ?thesis by (simp add: unfinished_def set_mtime_def)
    qed
    then show ?thesis using a other [OF e'] l by (auto simp: added_def)
  qed
  have same: "f_names f' (place s (en_relative e1)) = f_names f' (place s (en_relative e2)) \<longleftrightarrow> same_file e1 e2"
    if "e1 \<in> set (es @ [e])" "e2 \<in> set (es @ [e])" for e1 e2
  proof -
    have sym: "same_file x y = same_file y x" for x y by (auto simp: same_file_def)
    have refl: "same_file e e" by (simp add: same_file_def)
    have n: "f_names f' (place s (en_relative x)) = f_names f (place s (en_relative x))" if "x \<in> set es" for x
      using other [OF that] names by simp
    have o: "f_names f' ?o = Some i" using names by simp
    have l: "f_names f (place s (en_relative x)) = f_names f (place s (en_relative y)) \<longleftrightarrow> same_file x y"
      if "x \<in> set es" "y \<in> set es" for x y using laid that by (simp add: laid_def)
    consider "e1 \<in> set es" "e2 \<in> set es" | "e1 \<in> set es" "e2 = e" | "e1 = e" "e2 \<in> set es" | "e1 = e" "e2 = e"
      using \<open>e1 \<in> set (es @ [e])\<close> \<open>e2 \<in> set (es @ [e])\<close> by auto
    then show ?thesis
    proof cases
      case 1
      then show ?thesis using n l by simp
    next
      case 2
      then show ?thesis using n [of e1] o i [of e1] sym [of e e1] by simp
    next
      case 3
      have "f_names f' ?o = f_names f' (place s (en_relative e2)) \<longleftrightarrow> f_names f (place s (en_relative e2)) = Some i"
        using n [of e2] o 3 by auto
      then show ?thesis using i [of e2] 3 by simp
    next
      case 4
      then show ?thesis using refl by simp
    qed
  qed
  show ?thesis
    using laid look same a names unfolding laid_def by (auto simp: added_def)
qed

lemma check_ancestors_pass:
  assumes "\<And>q. prefix q ps \<Longrightarrow> q \<noteq> [] \<Longrightarrow> T (join_with (CHR ''/'') (a @ q)) \<noteq> Some TYPE_SYMLINK"
    and "\<forall>p\<in>set (a @ ps). p \<noteq> []"
  shows "check_ancestors r T (join_with (CHR ''/'') a) ps = Inr ()"
  using assms
proof (induction ps arbitrary: a)
  case (Cons p ps)
  have "join_with (CHR ''/'') a = [] \<longleftrightarrow> a = []"
    using Cons.prems(2) by (cases a; cases "tl a") auto
  then have e: "(if join_with (CHR ''/'') a = [] then p else join_with (CHR ''/'') a @ CHR ''/'' # p) = join_with (CHR ''/'') (a @ [p])"
    by (simp add: join_with_snoc)
  have "T (join_with (CHR ''/'') (a @ [p])) \<noteq> Some TYPE_SYMLINK" using Cons.prems(1) [of "[p]"] by simp
  moreover have "check_ancestors r T (join_with (CHR ''/'') (a @ [p])) ps = Inr ()"
  proof (rule Cons.IH)
    fix q :: path assume "prefix q ps" "q \<noteq> []"
    then show "T (join_with (CHR ''/'') ((a @ [p]) @ q)) \<noteq> Some TYPE_SYMLINK"
      using Cons.prems(1) [of "p # q"] by simp
  qed (use Cons.prems(2) in auto)
  ultimately show ?case unfolding check_ancestors.simps Let_def e by simp
qed simp

definition restoring :: "(nat \<Rightarrow> nat) \<Rightarrow> path \<Rightarrow> (path \<Rightarrow> inode option) \<Rightarrow> entry list \<Rightarrow> links \<Rightarrow> extraction \<Rightarrow> bool" where
  "restoring stored s v es l x \<longleftrightarrow> extract_inv s v x \<and> laid stored s es (x_fs x) \<and> linked s es l x \<and>
     (\<forall>r. x_types x r \<noteq> None \<longrightarrow> r \<in> en_relative ` set es) \<and>
     x_times x = map (\<lambda>e. (abs_path (place s (en_relative e)), entry_time e)) (filter entry_dir es)"

definition next_entry :: "entry list \<Rightarrow> entry \<Rightarrow> bool" where
  "next_entry es e \<longleftrightarrow> \<not> unsafe_path (en_relative e) \<and> (entry_dir e \<or> entry_file e \<or> entry_link e) \<and>
     distinct (map en_relative (es @ [e])) \<and> list_all entry_fine (es @ [e]) \<and> links_agree (es @ [e]) \<and>
     (length (en_parts e) = 1 \<or> (\<exists>e'\<in>set es. entry_dir e' \<and> en_parts e' = butlast (en_parts e)))"

lemma next_free_place:
  assumes s: "good_path s" "s \<noteq> []" and x: "restoring stored s v es l x" and e: "next_entry es e"
  shows "free_place s e x"
proof -
  let ?f = "x_fs x"
  have c: "confined s v ?f" using x by (simp add: restoring_def extract_inv_def in_staging_def)
  have laid: "laid stored s es ?f" using x by (simp add: restoring_def)
  have "f_names ?f (place s (en_relative e)) = None"
  proof (rule ccontr)
    assume "f_names ?f (place s (en_relative e)) \<noteq> None"
    then obtain e' where "e' \<in> set es" "place s (en_relative e) = place s (en_relative e')"
      using laid place_simps(2) unfolding laid_def by blast
    then show False using e by (auto simp: next_entry_def)
  qed
  moreover have "is_dir ?f (butlast (place s (en_relative e)))"
  proof (cases "length (en_parts e) = 1")
    case True
    then have "butlast (place s (en_relative e)) = s"
      by (auto simp: place_def en_parts_def butlast_append length_Suc_conv)
    then show ?thesis using c by (simp add: confined_def sealed_def)
  next
    case False
    then obtain e' where e': "e' \<in> set es" "entry_dir e'" "en_parts e' = butlast (en_parts e)"
      using e by (auto simp: next_entry_def)
    then have "place s (en_relative e') = butlast (place s (en_relative e))"
      by (simp add: place_def en_parts_def butlast_append)
    moreover have "lookup_inode ?f (place s (en_relative e')) = Some (unfinished stored e')"
      using laid e'(1) by (simp add: laid_def)
    moreover have "i_body (unfinished stored e') = B_dir"
      using e'(2) by (simp add: unfinished_def restored_def entry_dir_def split: node.splits)
    ultimately show ?thesis by (simp add: is_dir_def)
  qed
  ultimately show ?thesis using s c e by (simp add: free_place_def confined_def next_entry_def)
qed

lemma next_ancestors:
  assumes x: "extract_inv s v x" and f: "free_place s e x"
  shows "assertNoSymlinkAncestor (en_relative e) (x_types x) = Inr ()"
proof -
  let ?ps = "split_on (CHR ''/'') (en_relative e)"
  have r: "\<not> unsafe_path (en_relative e)" and ok: "fs_ok (x_fs x)" and dir: "is_dir (x_fs x) (s @ butlast ?ps)"
    using f by (simp_all add: free_place_def place_def butlast_append)
  have "x_types x (join_with (CHR ''/'') q) \<noteq> Some TYPE_SYMLINK" if q: "prefix q (butlast ?ps)" "q \<noteq> []" for q
  proof
    assume t: "x_types x (join_with (CHR ''/'') q) = Some TYPE_SYMLINK"
    obtain z where z: "butlast ?ps = q @ z" using q(1) by (auto simp: prefix_def)
    have "good_path (butlast ?ps)" using safe_path_good [OF r] by simp
    then have "good_path q" using z by simp
    then have "place s (join_with (CHR ''/'') q) = s @ q" using split_join_good [of q] q(2) by (simp add: place_def)
    moreover have "is_dir (x_fs x) (s @ q)"
      using fs_ok_ancestor [OF ok, of "s @ q" z] dir z by (cases "z = []") (auto dest: is_dir_named)
    moreover obtain b where "bodies (x_fs x) (place s (join_with (CHR ''/'') q)) = Some b" "body_matches b TYPE_SYMLINK"
      using tracked_body [where T = "x_types x", OF _ t] x unfolding extract_inv_def by blast
    ultimately show False by (auto simp: is_dir_bodies)
  qed
  moreover have "\<forall>p\<in>set (butlast ?ps). p \<noteq> []"
    using r by (auto simp: unsafe_path_def list_ex_iff dest: in_set_butlastD)
  ultimately show ?thesis
    using check_ancestors_pass [of "butlast ?ps" "x_types x" "[]" "en_relative e"] by (simp add: assertNoSymlinkAncestor_def)
qed

text \<open>The whole extraction of an entry is that of its body and its attributes.\<close>

lemma next_extract:
  assumes x: "extract_inv s v x" and f: "free_place s e x" and h: "h_path h = en_relative e"
    and body: "extract_body no_failure stored (abs_path s) h p (abs_path (place s (en_relative e))) x = Inr x'"
    and attr: "extract_attributes no_failure stored h (abs_path (place s (en_relative e))) x' = Inr x''"
  shows "extract_entry no_failure stored (abs_path s) h p x = Inr (x''\<lparr>x_types := (x_types x'')(en_relative e := Some (h_type h))\<rparr>)"
proof -
  let ?o = "place s (en_relative e)"
  have g: "good_path s" "s \<noteq> []" "\<not> unsafe_path (en_relative e)" and ok: "fs_ok (x_fs x)" and dir: "is_dir (x_fs x) (butlast ?o)"
    using f by (simp_all add: free_place_def)
  have "safeDestination (abs_path s) (en_relative e) = Inr (abs_path ?o)"
    using safeDestination_abs [OF g] by (simp add: place_def)
  moreover have "x_op no_failure (Op_mkdirp (butlast ?o) 448) x = Inr x"
    using mkdirp_existing [OF ok, of "[]" "butlast ?o" 448] dir x_op_ok [of "Op_mkdirp (butlast ?o) 448" x "x_fs x"] by simp
  ultimately show ?thesis
    using next_ancestors [OF x f] body attr h good_place [OF g(1,3)] by (simp add: extract_entry_def)
qed

lemma restoring_step:
  assumes s: "good_path s" "s \<noteq> []" and x: "restoring stored s v es l x" and e: "next_entry es e"
    and run: "extract_entry no_failure stored (abs_path s) h p x = Inr (x''\<lparr>x_types := (x_types x'')(en_relative e := Some (h_type h))\<rparr>)"
    and h: "h_path h = en_relative e"
    and a: "added (place s (en_relative e)) i (unfinished stored e) (x_fs x) (x_fs x'')"
    and i: "\<And>e'. e' \<in> set es \<Longrightarrow> f_names (x_fs x) (place s (en_relative e')) = Some i \<longleftrightarrow> same_file e e'"
    and l: "\<And>k. l' k = (if l k = None \<and> shared e k then Some (en_relative e) else l k)"
    and ty: "\<And>k. l k = None \<Longrightarrow> shared e k \<Longrightarrow> h_type h = TYPE_FILE"
    and types: "x_types x'' = x_types x"
    and times: "x_times x'' = x_times x @ (if entry_dir e then [(abs_path (place s (en_relative e)), entry_time e)] else [])"
  shows "restoring stored s v (es @ [e]) l' (x''\<lparr>x_types := (x_types x'')(en_relative e := Some (h_type h))\<rparr>)"
    (is "restoring stored s v (es @ [e]) l' ?y")
proof -
  have inv: "extract_inv s v x" and laid: "laid stored s es (x_fs x)" and lk: "linked s es l x"
    and dom: "\<forall>r. x_types x r \<noteq> None \<longrightarrow> r \<in> en_relative ` set es" using x by (simp_all add: restoring_def)
  have f: "free_place s e x" by (rule next_free_place [OF s x e])
  have new: "en_relative e \<notin> en_relative ` set es" using e by (simp add: next_entry_def)
  have "\<not> unsafe_path (h_path h)" using e h by (simp add: next_entry_def)
  then have "extract_inv s v ?y" using outcome_entry [OF inv s, of h no_failure stored p] run by simp
  moreover have "laid stored s (es @ [e]) (x_fs ?y)"
    using laid_step [OF laid a new _ i] f by (simp add: free_place_def)
  moreover have "linked s (es @ [e]) l' ?y"
    unfolding linked_def
  proof (intro conjI allI impI)
    fix k r assume k: "l' k = Some r"
    have "(\<exists>e'\<in>set (es @ [e]). en_relative e' = r \<and> shared e' k) \<and> x_types ?y r = Some TYPE_FILE"
    proof (cases "l k = None")
      case True
      then have "r = en_relative e" "shared e k" using k l [of k] by (auto split: if_splits)
      then show ?thesis using ty True by auto
    next
      case False
      then have "l k = Some r" using k l [of k] by auto
      then obtain e' where e': "e' \<in> set es" "en_relative e' = r" "shared e' k" "x_types x r = Some TYPE_FILE"
        using lk unfolding linked_def by blast
      then have "r \<noteq> en_relative e" using new by (metis image_eqI)
      then show ?thesis using e' types by (auto simp del: shared.simps)
    qed
    then show "\<exists>e'\<in>set (es @ [e]). en_relative e' = r \<and> shared e' k" "x_types ?y r = Some TYPE_FILE" by blast+
  next
    fix k assume "l' k = None"
    then have "l k = None" "\<not> shared e k" using l [of k] by (auto split: if_splits)
    moreover have "\<forall>e'\<in>set es. \<not> shared e' k" using lk \<open>l k = None\<close> unfolding linked_def by blast
    ultimately show "\<forall>e'\<in>set (es @ [e]). \<not> shared e' k" by (simp del: shared.simps)
  qed
  moreover have "\<forall>r. x_types ?y r \<noteq> None \<longrightarrow> r \<in> en_relative ` set (es @ [e])" using dom types by auto
  moreover have "x_times ?y = map (\<lambda>e. (abs_path (place s (en_relative e)), entry_time e)) (filter entry_dir (es @ [e]))"
    using x times by (simp add: restoring_def)
  ultimately show ?thesis by (simp add: restoring_def)
qed

lemma fresh_unshared:
  assumes laid: "laid stored s es f" and i: "\<forall>q. f_names f q \<noteq> Some i"
    and e: "e' \<in> set es" "en_relative e \<notin> en_relative ` set es" and n: "\<And>k. shared e k \<Longrightarrow> \<not> shared e' k"
  shows "f_names f (place s (en_relative e')) = Some i \<longleftrightarrow> same_file e e'"
  using i e n by (auto simp: same_file_def)

lemma extract_next:
  assumes s: "good_path s" "s \<noteq> []" and x: "restoring stored s v es l x" and e: "next_entry es e"
  shows "\<exists>x'. extract_entry no_failure stored (abs_path s) (fst (entry_record l e)) (snd (entry_record l e)) x = Inr x' \<and>
    restoring stored s v (es @ [e]) (entry_links l e) x'"
proof -
  have inv: "extract_inv s v x" and laid: "laid stored s es (x_fs x)" and lk: "linked s es l x"
    using x by (simp_all add: restoring_def)
  have f: "free_place s e x" by (rule next_free_place [OF s x e])
  have new: "en_relative e \<notin> en_relative ` set es" and fine: "entry_fine e" using e by (auto simp: next_entry_def)
  have kinds: "entry_dir e \<or> entry_file e \<or> entry_link e" using e by (simp add: next_entry_def)
  have finish: ?thesis
    if rec: "fst (entry_record l e) = h" "snd (entry_record l e) = p" "h_path h = en_relative e"
      and b: "extract_body no_failure stored (abs_path s) h p (abs_path (place s (en_relative e))) x = Inr x'"
      "extract_attributes no_failure stored h (abs_path (place s (en_relative e))) x' = Inr x''"
      and new: "laid_new stored s e x x''" and unshared: "\<And>e' k. e' \<in> set es \<Longrightarrow> shared e k \<Longrightarrow> \<not> shared e' k"
      and l: "\<And>k. entry_links l e k = (if l k = None \<and> shared e k then Some (en_relative e) else l k)"
      and ty: "\<And>k. l k = None \<Longrightarrow> shared e k \<Longrightarrow> h_type h = TYPE_FILE" for h p x' x''
  proof -
    obtain i where i: "\<forall>q. f_names (x_fs x) q \<noteq> Some i"
      "added (place s (en_relative e)) i (unfinished stored e) (x_fs x) (x_fs x'')"
      using new unfolding laid_new_def by blast
    have "f_names (x_fs x) (place s (en_relative e')) = Some i \<longleftrightarrow> same_file e e'" if "e' \<in> set es" for e'
      using fresh_unshared [OF laid i(1) that \<open>en_relative e \<notin> en_relative ` set es\<close>] unshared [OF that] by blast
    then show ?thesis
      using restoring_step [OF s x e next_extract [OF inv f rec(3) b] rec(3) i(2) _ l ty] next_extract [OF inv f rec(3) b] new rec(1,2)
      by (auto simp: laid_new_def)
  qed
  show ?thesis
  proof (cases "en_node e")
    case (N_dir st cs)
    obtain x' x'' where d: "extract_body no_failure stored (abs_path s) (header e st TYPE_DIRECTORY []) [] (abs_path (place s (en_relative e))) x = Inr x'"
      "extract_attributes no_failure stored (header e st TYPE_DIRECTORY []) (abs_path (place s (en_relative e))) x' = Inr x''"
      "laid_new stored s e x x''" using dir_laid [OF f N_dir, of stored] by blast
    show ?thesis by (rule finish [OF _ _ _ d]) (simp_all add: N_dir entry_record_def)
  next
    case (N_symlink st t)
    obtain x' x'' where d: "extract_body no_failure stored (abs_path s) (header e st TYPE_SYMLINK (bytes_of t)) (bytes_of t) (abs_path (place s (en_relative e))) x = Inr x'"
      "extract_attributes no_failure stored (header e st TYPE_SYMLINK (bytes_of t)) (abs_path (place s (en_relative e))) x' = Inr x''"
      "laid_new stored s e x x''" using symlink_laid [OF f N_symlink fine, of stored] by blast
    show ?thesis by (rule finish [OF _ _ _ d]) (simp_all add: N_symlink entry_record_def)
  next
    case (N_file st rd)
    show ?thesis
    proof (cases "st_nlink st > 1 \<and> l (link_key st) \<noteq> None")
      case False
      have un: "\<not> shared e' k" if "e' \<in> set es" "shared e k" for e' k
      proof -
        have "l k = None" using that(2) False N_file by auto
        then show ?thesis using lk that(1) unfolding linked_def by blast
      qed
      have rec: "entry_record l e = (header e st TYPE_FILE (content rd (st_size st)), content rd (st_size st))"
        using False N_file by (auto simp: entry_record_def)
      obtain x' x'' where d: "extract_body no_failure stored (abs_path s) (header e st TYPE_FILE (content rd (st_size st))) (content rd (st_size st)) (abs_path (place s (en_relative e))) x = Inr x'"
        "extract_attributes no_failure stored (header e st TYPE_FILE (content rd (st_size st))) (abs_path (place s (en_relative e))) x' = Inr x''"
        "laid_new stored s e x x''" using file_laid [OF f N_file, of stored] by blast
      show ?thesis by (rule finish [OF _ _ _ d un]) (use rec N_file False in auto)
    next
      case True
      then obtain t where t: "l (link_key st) = Some t" by blast
      then obtain e' where e': "e' \<in> set es" "en_relative e' = t" "shared e' (link_key st)" "x_types x t = Some TYPE_FILE"
        using lk unfolding linked_def by blast
      have k: "shared e (link_key st)" using True N_file by simp
      have fine': "entry_fine e'" "links_agree (es @ [e])" "distinct (map en_relative es)"
        using e e'(1) by (simp_all add: next_entry_def list_all_iff)
      have t: "\<not> unsafe_path t" "utf8_valid (bytes_of t)"
        using inv e'(4) fine'(1) e'(2) unfolding extract_inv_def tracked_def entry_fine_def by blast+
      have "unfinished stored e' = unfinished stored e"
        using links_agree_unfinished [OF fine'(2), of e' e "link_key st"] e'(1,3) k by (simp del: shared.simps)
      then have look: "lookup_inode (x_fs x) (place s t) = Some (unfinished stored e)"
        using laid e'(1,2) by (auto simp: laid_def)
      then obtain i where i: "f_names (x_fs x) (place s t) = Some i" by (auto simp: lookup_inode_def)
      obtain x' x'' where d: "extract_body no_failure stored (abs_path s) (header e st TYPE_HARDLINK (bytes_of t)) (bytes_of t) (abs_path (place s (en_relative e))) x = Inr x'"
        "extract_attributes no_failure stored (header e st TYPE_HARDLINK (bytes_of t)) (abs_path (place s (en_relative e))) x' = Inr x''"
        "added (place s (en_relative e)) i (unfinished stored e) (x_fs x) (x_fs x'')" "x_types x'' = x_types x" "x_times x'' = x_times x"
        using link_laid [OF f N_file e'(4) t i look] by blast
      have rec: "entry_record l e = (header e st TYPE_HARDLINK (bytes_of t), bytes_of t)"
        using True N_file \<open>l (link_key st) = Some t\<close> by (simp add: entry_record_def)
      have sh: "f_names (x_fs x) (place s (en_relative e1)) = Some i \<longleftrightarrow> same_file e e1" if e1: "e1 \<in> set es" for e1
      proof -
        have "f_names (x_fs x) (place s (en_relative e1)) = Some i \<longleftrightarrow> same_file e1 e'"
          using laid e1 e'(1,2) i unfolding laid_def by metis
        also have "\<dots> \<longleftrightarrow> (\<exists>k. shared e1 k \<and> shared e' k)"
          using e1 e'(1,3) fine'(3) unfolding same_file_def by (metis distinct_map inj_onD)
        also have "\<dots> \<longleftrightarrow> shared e1 (link_key st)" using e'(3) shared_unique by blast
        also have "\<dots> \<longleftrightarrow> same_file e e1"
          using k new e1 shared_unique unfolding same_file_def by (metis image_eqI)
        finally show ?thesis .
      qed
      have l': "entry_links l e k' = (if l k' = None \<and> shared e k' then Some (en_relative e) else l k')" for k'
        using True N_file by auto
      have ty: "h_type (header e st TYPE_HARDLINK (bytes_of t)) = TYPE_FILE" if "l k' = None" "shared e k'" for k'
        using that True N_file by auto
      have times: "x_times x'' = x_times x @ (if entry_dir e then [(abs_path (place s (en_relative e)), entry_time e)] else [])"
        using d(5) N_file by (simp add: entry_dir_def)
      have path: "h_path (header e st TYPE_HARDLINK (bytes_of t)) = en_relative e" by simp
      note run = next_extract [OF inv f path d(1,2)]
      have "restoring stored s v (es @ [e]) (entry_links l e)
          (x''\<lparr>x_types := (x_types x'')(en_relative e := Some (h_type (header e st TYPE_HARDLINK (bytes_of t))))\<rparr>)"
        by (rule restoring_step [OF s x e run path d(3) sh l' ty d(4) times])
      with run show ?thesis unfolding rec fst_conv snd_conv by blast
    qed
  qed (use kinds in \<open>auto simp: entry_dir_def entry_file_def entry_link_def\<close>)
qed

section \<open>All entries\<close>

lemma extract_records_restores:
  assumes s: "good_path s" "s \<noteq> []" and x: "restoring stored s v ps l x"
    and es: "\<And>qs e rest. es = qs @ e # rest \<Longrightarrow> next_entry (ps @ qs) e"
  shows "\<exists>x' l'. extract_records no_failure stored (abs_path s) (entry_records l es) x = Inr x' \<and>
    restoring stored s v (ps @ es) l' x'"
  using x es
proof (induction es arbitrary: ps l x)
  case (Cons e es)
  obtain x1 where x1: "extract_entry no_failure stored (abs_path s) (fst (entry_record l e)) (snd (entry_record l e)) x = Inr x1"
    "restoring stored s v (ps @ [e]) (entry_links l e) x1"
    using extract_next [OF s Cons.prems(1)] Cons.prems(2) [of "[]" e es] by auto
  have "next_entry ((ps @ [e]) @ qs) e'" if "es = qs @ e' # rest" for qs e' rest
    using Cons.prems(2) [of "e # qs" e' rest] that by simp
  from Cons.IH [OF x1(2) this] x1(1) show ?case by simp
qed auto

text \<open>The times of the directories, set in the end: each call changes its directory only.\<close>

definition times_set :: "(nat \<Rightarrow> nat) \<Rightarrow> path \<Rightarrow> entry list \<Rightarrow> entry set \<Rightarrow> fs \<Rightarrow> fs \<Rightarrow> bool" where
  "times_set stored s es D f f' \<longleftrightarrow> f_names f' = f_names f \<and>
     (\<forall>e\<in>set es. lookup_inode f' (place s (en_relative e)) =
        Some (if e \<in> D then restored stored e else unfinished stored e))"

lemma set_times_restores:
  assumes s: "good_path s" and es: "set ds \<subseteq> set es" "\<forall>e\<in>set es. \<not> unsafe_path (en_relative e)" "\<forall>e\<in>set ds. entry_dir e"
    and own: "\<And>e e'. e \<in> set ds \<Longrightarrow> e' \<in> set es \<Longrightarrow>
      f_names f (place s (en_relative e)) = f_names f (place s (en_relative e')) \<Longrightarrow> e' = e"
    and x: "times_set stored s es D f (x_fs x)"
  shows "\<exists>x'. set_directory_times no_failure stored (map (\<lambda>e. (abs_path (place s (en_relative e)), entry_time e)) ds) x = Inr x' \<and>
    times_set stored s es (D \<union> set ds) f (x_fs x')"
  using es own x
proof (induction ds arbitrary: D x)
  case (Cons e ds)
  let ?o = "place s (en_relative e)"
  have o: "path_parts (abs_path ?o) = ?o" using s Cons.prems(1,2) by simp
  have named: "f_names (x_fs x) ?o \<noteq> None"
    using Cons.prems(1,5) by (auto simp: times_set_def lookup_inode_def)
  obtain f1 where f1: "change_at ?o (set_mtime (Some (stored (entry_time e)))) (x_fs x) = Inr f1" "f_names f1 = f_names (x_fs x)"
    "\<forall>q. lookup_inode f1 q = (if f_names (x_fs x) q = f_names (x_fs x) ?o
       then map_option (set_mtime (Some (stored (entry_time e)))) (lookup_inode (x_fs x) q) else lookup_inode (x_fs x) q)"
    using change_at_lookup [OF named] by blast
  have fin: "set_mtime (Some (stored (entry_time e))) (if e \<in> D then restored stored e else unfinished stored e) = restored stored e"
    by (simp add: restored_def unfinished_def set_mtime_def)
  have "times_set stored s es (insert e D) f f1"
    unfolding times_set_def
  proof (intro conjI ballI)
    show "f_names f1 = f_names f" using f1(2) Cons.prems(5) by (simp add: times_set_def)
    fix e' assume e': "e' \<in> set es"
    have l: "lookup_inode (x_fs x) (place s (en_relative e')) = Some (if e' \<in> D then restored stored e' else unfinished stored e')"
      using Cons.prems(5) e' by (simp add: times_set_def)
    show "lookup_inode f1 (place s (en_relative e')) = Some (if e' \<in> insert e D then restored stored e' else unfinished stored e')"
    proof (cases "e' = e")
      case True
      then show ?thesis using f1(3) l fin by auto
    next
      case False
      then have "f_names (x_fs x) (place s (en_relative e')) \<noteq> f_names (x_fs x) ?o"
        using Cons.prems(4) [of e e'] Cons.prems(5) e' by (auto simp: times_set_def)
      then show ?thesis using f1(3) l False by simp
    qed
  qed
  then have "\<exists>x'. set_directory_times no_failure stored (map (\<lambda>e. (abs_path (place s (en_relative e)), entry_time e)) ds) (x\<lparr>x_fs := f1\<rparr>) = Inr x' \<and>
      times_set stored s es (insert e D \<union> set ds) f (x_fs x')"
    using Cons.prems by (intro Cons.IH) auto
  moreover have "x_op no_failure (Op_utimes ?o (stored (entry_time e))) x = Inr (x\<lparr>x_fs := f1\<rparr>)"
    using f1(1) by (intro x_op_ok) simp
  ultimately show ?case using o by simp
qed simp

end
