(* ===== verification/Props_Cfs.thy ===== *)
theory Props_Cfs
  imports Cfs_Restore
begin

text \<open>
  The properties of the snapshot format, each followed by a concrete run at which it applies.
\<close>

section \<open>Round trip\<close>

lemma export_entries_known:
  "export_entries io staging root es s = Inr s' \<Longrightarrow> e \<in> set es \<Longrightarrow> entry_dir e \<or> entry_file e \<or> entry_link e"
proof (induction es arbitrary: s)
  case (Cons e0 es)
  then obtain t where t: "export_entry io staging root e0 s = Inr t" "export_entries io staging root es t = Inr s'"
    by (auto simp: bind_res_Inr)
  have "entry_dir e0 \<or> entry_file e0 \<or> entry_link e0"
    using t(1) by (auto simp: export_entry_def Let_def bind_res_Inr entry_dir_def entry_file_def entry_link_def
        split: node.splits if_splits)
  then show ?case using Cons t by auto
qed simp

lemma entry_record_readable:
  assumes "record_ok (entry_record l e)" "\<not> unsafe_path (en_relative e)" "entry_fine e"
  shows "readable (entry_record l e)"
proof -
  have "fst (entry_payload l e) < 256"
    by (auto simp: TYPE_DIRECTORY_def TYPE_FILE_def TYPE_SYMLINK_def TYPE_HARDLINK_def split: node.splits option.splits)
  then show ?thesis using assms
    by (simp add: readable_def header_ok_def entry_record_def Let_def entry_fine_def record_ok_def MAX_TREE_BYTES_def
        del: entry_payload.simps entry_stats.simps)
qed

lemma entry_records_readable:
  "list_all record_ok (entry_records l es) \<Longrightarrow> \<forall>e\<in>set es. \<not> unsafe_path (en_relative e) \<and> entry_fine e \<Longrightarrow>
   list_all readable (entry_records l es)"
  by (induction es arbitrary: l) (auto intro: entry_record_readable)

lemma collected_next:
  assumes c: "collected es" and fine: "list_all entry_fine es" "links_agree es"
    and known: "\<And>e. e \<in> set es \<Longrightarrow> entry_dir e \<or> entry_file e \<or> entry_link e" and es: "es = qs @ e # rest"
  shows "next_entry qs e"
proof -
  have "distinct (map en_relative (qs @ [e]))" using c unfolding collected_def es by auto
  moreover have "links_agree (qs @ [e])" using fine(2) unfolding links_agree_def es by auto
  moreover have "length (en_parts e) = 1 \<or> (\<exists>e'\<in>set qs. entry_dir e' \<and> en_parts e' = butlast (en_parts e))"
    using c es unfolding collected_def by blast
  moreover have "\<not> unsafe_path (en_relative e)" using c unfolding collected_def es by auto
  ultimately show ?thesis using fine(1) known [of e] es by (simp add: next_entry_def)
qed

lemma export_try_bytes:
  assumes exp: "export_try io sha stg root cs objectRoot \<lparr>sn_fs = f0, sn_total = 0, sn_hashed = [], sn_hardLinks = Map.empty\<rparr> = Inr (obj, sn)"
    and cs: "collectEntries cs = Inr es" and es: "\<forall>e\<in>set es. stable (en_node e) \<and> en_relative e \<noteq> []"
  shows "sn_hashed sn = MAGIC @ concat (map record_bytes (entry_records Map.empty es))"
    "list_all record_ok (entry_records Map.empty es)" "co_treeDigest obj = digest_of sha (string_of (sn_hashed sn))"
    "e \<in> set es \<Longrightarrow> entry_dir e \<or> entry_file e \<or> entry_link e"
proof -
  let ?s = "\<lparr>sn_fs = f0, sn_total = 0, sn_hashed = [], sn_hardLinks = Map.empty\<rparr>"
  obtain s1 s2 where s: "append io stg MAGIC ?s = Inr s1" "export_entries io stg root es s1 = Inr s2"
    "export_finish io sha stg objectRoot s2 = Inr (obj, sn)"
    using exp cs by (auto simp: export_try_def bind_res_Inr)
  have m: "sn_hashed s1 = MAGIC" "sn_hardLinks s1 = Map.empty" using append_wrote [OF s(1)] by (simp_all add: wrote_def)
  have w: "list_all record_ok (entry_records Map.empty es)"
    "sn_hashed s2 = MAGIC @ concat (map record_bytes (entry_records Map.empty es))"
    using export_entries_wrote [OF s(2) es] m by (simp_all add: links_named_def)
  have h: "sn_hashed sn = sn_hashed s2" "co_treeDigest obj = digest_of sha (string_of (sn_hashed s2))"
    using s(3) by (auto simp: export_finish_def Let_def bind_res_Inr bind_res_Inl snap_op_def at_state_iff split: sum.splits if_splits prod.splits)
  show "sn_hashed sn = MAGIC @ concat (map record_bytes (entry_records Map.empty es))"
    "list_all record_ok (entry_records Map.empty es)" "co_treeDigest obj = digest_of sha (string_of (sn_hashed sn))"
    using w h by simp_all
  show "e \<in> set es \<Longrightarrow> entry_dir e \<or> entry_file e \<or> entry_link e" using export_entries_known [OF s(2)] by blast
qed

lemma staging_start:
  assumes c: "confined s (outside s f) f" and empty: "\<And>p. prefix s p \<Longrightarrow> p \<noteq> s \<Longrightarrow> f_names f p = None"
  shows "restoring stored s (outside s f) [] Map.empty \<lparr>x_fs = f, x_types = Map.empty, x_times = []\<rparr>"
proof -
  have d: "bodies f s = Some B_dir" using c by (simp add: confined_def sealed_def is_dir_bodies)
  have "bodies f q \<noteq> Some (B_symlink t)" if "prefix s q" for q t
  proof (cases "q = s")
    case True
    then show ?thesis using d by simp
  next
    case False
    then show ?thesis using empty [OF that] by (simp add: bodies_def lookup_inode_def)
  qed
  then have "extract_inv s (outside s f) \<lparr>x_fs = f, x_types = Map.empty, x_times = []\<rparr>"
    using c by (simp add: extract_inv_def in_staging_def times_below_def tracked_def)
  moreover have "laid stored s [] f" using empty by (auto simp: laid_def strict_prefix_def) (metis option.discI)
  ultimately show ?thesis by (simp add: restoring_def linked_def)
qed

text \<open>The extraction of the records of a workspace, up to the replacement of the destination.\<close>

lemma restore_staging:
  assumes s: "good_path s" "s \<noteq> []" and c: "confined s (outside s f) f"
    and empty: "\<And>p. prefix s p \<Longrightarrow> p \<noteq> s \<Longrightarrow> f_names f p = None"
    and es: "collected es" "list_all entry_fine es" "links_agree es" "list_all record_ok (entry_records Map.empty es)"
    and known: "\<And>e. e \<in> set es \<Longrightarrow> entry_dir e \<or> entry_file e \<or> entry_link e"
  shows "\<exists>x y. extract_loop no_failure stored (abs_path s) (MAGIC @ concat (map record_bytes (entry_records Map.empty es)))
      (length MAGIC) \<lparr>x_fs = f, x_types = Map.empty, x_times = []\<rparr> = Inr x \<and>
    set_directory_times no_failure stored (rev (x_times x)) x = Inr y \<and> confined s (outside s f) (x_fs y) \<and>
    (\<forall>e\<in>set es. lookup_inode (x_fs y) (place s (en_relative e)) = Some (restored stored e)) \<and>
    (\<forall>p. strict_prefix s p \<and> f_names (x_fs y) p \<noteq> None \<longrightarrow> (\<exists>e\<in>set es. p = place s (en_relative e))) \<and>
    (\<forall>e\<in>set es. \<forall>e'\<in>set es. f_names (x_fs y) (place s (en_relative e)) = f_names (x_fs y) (place s (en_relative e')) \<longleftrightarrow> same_file e e')"
proof -
  let ?x = "\<lparr>x_fs = f, x_types = Map.empty, x_times = []\<rparr>" and ?v = "outside s f"
  have safe: "\<forall>e\<in>set es. \<not> unsafe_path (en_relative e)" and dist: "distinct (map en_relative es)"
    using es(1) unfolding collected_def by blast+
  have readable: "list_all readable (entry_records Map.empty es)"
    using entry_records_readable [OF es(4)] safe es(2) by (simp add: list_all_iff)
  obtain x l where x: "extract_records no_failure stored (abs_path s) (entry_records Map.empty es) ?x = Inr x"
    "restoring stored s ?v ([] @ es) l x"
    using extract_records_restores [OF s staging_start [OF c empty], of es stored]
      collected_next [OF es(1,2,3) known] by auto
  have loop: "extract_loop no_failure stored (abs_path s) (MAGIC @ concat (map record_bytes (entry_records Map.empty es)))
      (length MAGIC) ?x = Inr x"
    using extract_loop_records [OF readable, of no_failure stored "abs_path s" MAGIC ?x] x(1) by simp
  have inv: "extract_inv s ?v x" and laid: "laid stored s es (x_fs x)"
    and times: "x_times x = map (\<lambda>e. (abs_path (place s (en_relative e)), entry_time e)) (filter entry_dir es)"
    using x(2) by (simp_all add: restoring_def)
  have own: "e' = e" if "e \<in> set (rev (filter entry_dir es))" "e' \<in> set es"
    "f_names (x_fs x) (place s (en_relative e)) = f_names (x_fs x) (place s (en_relative e'))" for e e'
  proof -
    have es: "e \<in> set es" "entry_dir e" using that(1) by simp_all
    then have "same_file e e'" using laid that(2,3) unfolding laid_def by blast
    moreover have "\<not> shared e k" for k using es(2) shared_file [of e k] by (auto simp: entry_dir_def)
    ultimately have "en_relative e = en_relative e'" unfolding same_file_def by blast
    then show ?thesis using dist es(1) that(2) by (metis distinct_map inj_onD)
  qed
  have start: "times_set stored s es {} (x_fs x) (x_fs x)" using laid by (simp add: times_set_def laid_def)
  then obtain y where y: "set_directory_times no_failure stored (map (\<lambda>e. (abs_path (place s (en_relative e)), entry_time e)) (rev (filter entry_dir es))) x = Inr y"
    "times_set stored s es ({} \<union> set (rev (filter entry_dir es))) (x_fs x) (x_fs y)"
    using set_times_restores [OF s(1) _ safe _ own start, of "rev (filter entry_dir es)"] by fastforce
  have set_times: "set_directory_times no_failure stored (rev (x_times x)) x = Inr y"
    using y(1) by (simp add: times rev_map)
  have "in_staging s ?v y"
    using outcome_times [of s ?v x "rev (x_times x)" no_failure stored] inv set_times
    by (simp add: extract_inv_def times_below_def)
  moreover have "lookup_inode (x_fs y) (place s (en_relative e)) = Some (restored stored e)" if "e \<in> set es" for e
    using y(2) that by (auto simp: times_set_def unfinished_def)
  moreover have "f_names (x_fs y) = f_names (x_fs x)" using y(2) by (simp add: times_set_def)
  ultimately show ?thesis using loop set_times laid unfolding laid_def in_staging_def by auto
qed

lemma restored_workspace:
  assumes exp: "export_try io sha stg root cs objectRoot \<lparr>sn_fs = f0, sn_total = 0, sn_hashed = [], sn_hardLinks = Map.empty\<rparr> = Inr (obj, sn)"
    and cs: "tree_ok cs" "collectEntries cs = Inr es" "list_all entry_fine es" "links_agree es"
    and f: "fs_ok f" "is_dir f (a # d)" "f_names f ((a # d) @ [''.staging-'' @ uuid]) = None"
    and g: "good_path ((a # d) @ [''.staging-'' @ uuid])"
  shows "\<exists>f'. extractCfs no_failure stored uuid (sn_hashed sn) (abs_path ((a # d) @ [''workspace''])) f = (Inr (), f') \<and>
    co_treeDigest obj = digest_of sha (string_of (sn_hashed sn)) \<and>
    (\<forall>e\<in>set es. lookup_inode f' (place ((a # d) @ [''workspace'']) (en_relative e)) = Some (restored stored e)) \<and>
    (\<forall>p. strict_prefix ((a # d) @ [''workspace'']) p \<and> f_names f' p \<noteq> None \<longrightarrow>
       (\<exists>e\<in>set es. p = place ((a # d) @ [''workspace'']) (en_relative e))) \<and>
    (\<forall>e\<in>set es. \<forall>e'\<in>set es. f_names f' (place ((a # d) @ [''workspace'']) (en_relative e)) =
       f_names f' (place ((a # d) @ [''workspace'']) (en_relative e')) \<longleftrightarrow> same_file e e')"
proof -
  let ?s = "(a # d) @ [''.staging-'' @ uuid]" and ?t = "(a # d) @ [''workspace'']"
  have coll: "collected es" by (rule collectEntries_collected [OF cs(2,1)])
  have "\<forall>e\<in>set es. stable (en_node e) \<and> en_relative e \<noteq> []"
    using coll cs(3) by (auto simp: collected_def list_all_iff entry_fine_def unsafe_path_def)
  note b = export_try_bytes [OF exp cs(2) this]
  have gt: "good_path ?t" using g by (simp add: plain_part_def)
  obtain f1 where mk: "create ?s B_dir 448 f = Inr f1" using create_added [OF f(1,3), of B_dir 448] f(2) by auto
  note new = make_staging [OF f(1) _ mk]
  have sne: "?s \<noteq> []" by simp
  obtain x y where xy: "extract_loop no_failure stored (abs_path ?s) (sn_hashed sn) (length MAGIC)
      \<lparr>x_fs = f1, x_types = Map.empty, x_times = []\<rparr> = Inr x"
    "set_directory_times no_failure stored (rev (x_times x)) x = Inr y" "confined ?s (outside ?s f1) (x_fs y)"
    and laid: "\<forall>e\<in>set es. lookup_inode (x_fs y) (place ?s (en_relative e)) = Some (restored stored e)"
      "\<forall>p. strict_prefix ?s p \<and> f_names (x_fs y) p \<noteq> None \<longrightarrow> (\<exists>e\<in>set es. p = place ?s (en_relative e))"
      "\<forall>e\<in>set es. \<forall>e'\<in>set es. f_names (x_fs y) (place ?s (en_relative e)) = f_names (x_fs y) (place ?s (en_relative e')) \<longleftrightarrow> same_file e e'"
    using restore_staging [OF g sne new(1) [OF sne] new(5) [OF sne] coll cs(3,4) b(2) b(4), of stored]
    unfolding b(1) by blast
  obtain h where h: "fs_apply (Op_rm ?t) (x_fs y) = Inr h" by simp
  note r = workspace.removed [OF xy(3) h]
  obtain f' where f': "fs_apply (Op_rename ?s ?t) h = Inr f'" using r(2-4) by (auto dest: is_dir_named)
  note m = workspace.renamed [OF r(1-4) f']
  have place: "place p r = p @ split_on (CHR ''/'') r" for p r by (simp add: place_def)
  have apart: "?t @ q \<noteq> a # d" "?s @ q \<noteq> a # d" "\<not> prefix ?t (?s @ q)" for q by (auto simp: prefix_def)
  have names: "f_names f' (?t @ q) = f_names (x_fs y) (?s @ q)" for q
    using workspace.renamed_names [OF f', of q] workspace.removed_names [OF h, of "?s @ q"] apart by simp
  have look: "lookup_inode f' (place ?t r) = lookup_inode (x_fs y) (place ?s r)" for r
    using m(2) [of "place ?t r"] r(5) [of "place ?s r"] apart by (simp add: place)
  have magic: "slice (sn_hashed sn) 0 (length MAGIC) = MAGIC" by (simp add: b(1) slice_def)
  have "extract_try no_failure stored (abs_path ?s) (sn_hashed sn) (abs_path ?t) \<lparr>x_fs = f1, x_types = Map.empty, x_times = []\<rparr> =
      Inr (y\<lparr>x_fs := f'\<rparr>)"
    using xy(1,2) h f' g gt x_op_ok [OF h] x_op_ok [of "Op_rename ?s ?t" "y\<lparr>x_fs := h\<rparr>" f']
    by (simp add: extract_try_def del: fs_apply.simps append.simps append_Cons)
  then have run: "extractCfs no_failure stored uuid (sn_hashed sn) (abs_path ?t) f = (Inr (), f')"
    using magic mk g staging_path_abs [OF gt] unfolding extractCfs_def Let_def
    by (simp add: fs_run_def del: append.simps append_Cons)
  have "\<exists>e\<in>set es. p = place ?t (en_relative e)" if p: "strict_prefix ?t p" "f_names f' p \<noteq> None" for p
  proof -
    obtain q where q: "p = ?t @ q" "q \<noteq> []" using p(1) by (auto simp: strict_prefix_def prefix_def)
    then have "strict_prefix ?s (?s @ q)" "f_names (x_fs y) (?s @ q) \<noteq> None"
      using p(2) names [of q] by (auto simp: strict_prefix_def)
    then obtain e where "e \<in> set es" "?s @ q = place ?s (en_relative e)" using laid(2) by blast
    then show ?thesis using q(1) by (auto simp: place)
  qed
  then show ?thesis using run b(3) laid(1,3) look names by (auto simp: place)
qed

text \<open>C18: what an export writes is what an extraction restores. When exporting a workspace that stays
  as it is succeeds, and no link in it climbs out of the workspace, then extracting the bytes it
  hashed, where no call fails, succeeds; every entry of the workspace then has its content, its
  permission bits and its time at its place (as the file system keeps times), nothing else is
  in the destination, and two entries are one inode exactly when they were.\<close>

theorem snapshot_round_trip:
  assumes exp: "export_try io sha stg root cs objectRoot \<lparr>sn_fs = f0, sn_total = 0, sn_hashed = [], sn_hardLinks = Map.empty\<rparr> = Inr (obj, sn)"
    and cs: "tree_ok cs" "collectEntries cs = Inr es" "list_all entry_fine es" "links_agree es"
    and f: "fs_ok f" "is_dir f (a # d)" "f_names f ((a # d) @ [''.staging-'' @ uuid]) = None"
    and g: "good_path ((a # d) @ [''.staging-'' @ uuid])"
  shows "\<exists>f'. extractCfs no_failure stored uuid (sn_hashed sn) (abs_path ((a # d) @ [''workspace''])) f = (Inr (), f') \<and>
    co_treeDigest obj = digest_of sha (string_of (sn_hashed sn)) \<and>
    (\<forall>e\<in>set es. lookup_inode f' (place ((a # d) @ [''workspace'']) (en_relative e)) = Some (restored stored e)) \<and>
    (\<forall>p. strict_prefix ((a # d) @ [''workspace'']) p \<and> f_names f' p \<noteq> None \<longrightarrow>
       (\<exists>e\<in>set es. p = place ((a # d) @ [''workspace'']) (en_relative e))) \<and>
    (\<forall>e\<in>set es. \<forall>e'\<in>set es. f_names f' (place ((a # d) @ [''workspace'']) (en_relative e)) =
       f_names f' (place ((a # d) @ [''workspace'']) (en_relative e')) \<longleftrightarrow> same_file e e')"
  by (rule restored_workspace [OF assms])

text \<open>A workspace with a file, two directories and two symbolic links, and a file system.\<close>

definition demo_stats :: "nat \<Rightarrow> nat \<Rightarrow> stats" where
  "demo_stats ino len = \<lparr>st_mode = 493, st_mtimeNs = 5000000, st_size = len, st_dev = 1, st_ino = ino, st_nlink = 1\<rparr>"

definition demo_file :: node where
  "demo_file = N_file (demo_stats 5 3) (\<lambda>off n. take n (drop off [1, 2, 3]))"

definition demo_links :: "(string \<times> node) list" where
  "demo_links = [(''l'', N_symlink (demo_stats 3 5) ''../..''), (''m'', N_symlink (demo_stats 4 11) ''l/../secret'')]"

definition demo_workspace :: "(string \<times> node) list" where
  "demo_workspace = [(''d'', N_dir (demo_stats 1 0) [(''e'', N_dir (demo_stats 2 0) demo_links)]), (''f'', demo_file)]"

definition demo_entries :: "entry list" where
  "demo_entries =
    [\<lparr>en_relative = ''d'', en_node = N_dir (demo_stats 1 0) [(''e'', N_dir (demo_stats 2 0) demo_links)]\<rparr>,
     \<lparr>en_relative = ''d/e'', en_node = N_dir (demo_stats 2 0) demo_links\<rparr>,
     \<lparr>en_relative = ''d/e/l'', en_node = N_symlink (demo_stats 3 5) ''../..''\<rparr>,
     \<lparr>en_relative = ''d/e/m'', en_node = N_symlink (demo_stats 4 11) ''l/../secret''\<rparr>,
     \<lparr>en_relative = ''f'', en_node = demo_file\<rparr>]"

definition demo_dir :: inode where
  "demo_dir = \<lparr>i_body = B_dir, i_mode = 448, i_mtime = None\<rparr>"

definition demo_fs :: fs where
  "demo_fs = \<lparr>f_names = [[] \<mapsto> 0, [''o''] \<mapsto> 1, [''o'', ''sha256''] \<mapsto> 2, [''o'', ''t''] \<mapsto> 3, [''w''] \<mapsto> 4],
     f_inodes = (\<lambda>_. demo_dir)(3 := \<lparr>i_body = B_file [], i_mode = 384, i_mtime = None\<rparr>), f_next = 5\<rparr>"

lemma demo_fs_ok: "fs_ok demo_fs"
  by (auto simp: fs_ok_def demo_fs_def is_dir_def lookup_inode_def demo_dir_def split: if_splits)

lemma demo_collect: "collectEntries demo_workspace = Inr demo_entries"
  by (simp add: collectEntries_def demo_workspace_def demo_links_def demo_entries_def demo_file_def sort_entries_def
      child_path_def validateRelativePath_def unsafe_path_def NUL_def)

lemma demo_tree_ok: "tree_ok demo_workspace"
  by (simp add: demo_workspace_def demo_links_def demo_file_def)

lemma demo_fine: "list_all entry_fine demo_entries"
  by (simp add: demo_entries_def entry_fine_def demo_file_def stable_def content_def demo_stats_def en_parts_def NUL_def
      utf8_ascii bytes_of_def unat_byte)

lemma demo_agree: "links_agree demo_entries"
  by (simp add: links_agree_def same_file_def demo_entries_def demo_file_def demo_stats_def)

lemma append_ready:
  assumes "f_names (sn_fs s) (path_parts stg) \<noteq> None" "sn_total s + length chunk \<le> MAX_TREE_BYTES"
  shows "append no_failure stg chunk s = Inr (s\<lparr>sn_total := sn_total s + length chunk, sn_hashed := sn_hashed s @ chunk,
    sn_fs := change_inode (the (f_names (sn_fs s) (path_parts stg))) (add_bytes chunk) (sn_fs s)\<rparr>)"
  using assms by (auto simp: append_def snap_op_def fs_run_def change_at_def)

lemma length_MAGIC [simp]: "length MAGIC = 7"
  by (simp add: MAGIC_def)

lemma encodeHeader_ready:
  "length (h_path h) < 2 ^ 32 \<Longrightarrow> h_mode h < 2 ^ 32 \<Longrightarrow> 0 \<le> h_mtimeNs h \<Longrightarrow> h_mtimeNs h < 2 ^ 64 \<Longrightarrow>
   h_payloadLength h < 2 ^ 64 \<Longrightarrow> encodeHeader h = Inr (be_bytes 4 (length (h_path h)) @ bytes_of (h_path h) @
     [word_of_nat (h_type h)] @ be_bytes 4 (h_mode h) @ be_bytes 8 (nat (h_mtimeNs h)) @ be_bytes 8 (h_payloadLength h))"
  by (simp add: encodeHeader_Inr)

lemma demo_export:
  "is_ok (export_try no_failure (\<lambda>_. ''ab'') ''/o/t'' ''/x'' demo_workspace ''/o''
     \<lparr>sn_fs = demo_fs, sn_total = 0, sn_hashed = [], sn_hardLinks = Map.empty\<rparr>)"
proof -
  have stg: "path_parts ''/o/t'' = [''o'', ''t'']" by (simp add: path_parts_def)
  have res: "resolve_path (dirname ''/x/d/e/l'') ''../..'' = ''/x''" "resolve_path (dirname ''/x/d/e/m'') ''l/../secret'' = ''/x/d/e/secret''"
    by (simp_all add: resolve_path_def dirname_def normal_parts_def add_part_def abs_path_def)
  have fin: "path_parts ''/o/sha256/ab'' = [''o'', ''sha256'', ''ab'']" by (simp add: path_parts_def)
  have mtime: "round_mtime 5000000 = 5000000" by (simp add: round_mtime_def)
  show ?thesis
    unfolding export_try_def demo_collect
    by (simp add: demo_entries_def export_entry_def demo_stats_def demo_file_def put_header_def put_text_def encodeHeader_ready export_finish_def
        snap_op_def fs_run_def change_at_def add_name_def is_dir_def lookup_inode_def fin demo_dir_def digest_of_def path_join_def rm_names_def
        append_ready stg demo_fs_def export_file_def export_symlink_def res mtime read_loop.simps MAX_TREE_BYTES_def MAX_FILE_BYTES_def Let_def)
qed

lemma demo_start_ok:
  "is_dir demo_fs [''w'']" "f_names demo_fs [''w'', ''.staging-u''] = None" "good_path [''w'', ''.staging-u'']"
  by (simp_all add: demo_fs_def is_dir_def lookup_inode_def demo_dir_def plain_part_def)

lemma snapshot_round_trip_witness:
  "\<exists>obj sn f'. export_try no_failure (\<lambda>_. ''ab'') ''/o/t'' ''/x'' demo_workspace ''/o''
       \<lparr>sn_fs = demo_fs, sn_total = 0, sn_hashed = [], sn_hardLinks = Map.empty\<rparr> = Inr (obj, sn) \<and>
     extractCfs no_failure id ''u'' (sn_hashed sn) (abs_path ([''w''] @ [''workspace''])) demo_fs = (Inr (), f') \<and>
     lookup_inode f' [''w'', ''workspace'', ''f''] = Some \<lparr>i_body = B_file [1, 2, 3], i_mode = 493, i_mtime = Some 5000000\<rparr>"
proof -
  obtain r where "export_try no_failure (\<lambda>_. ''ab'') ''/o/t'' ''/x'' demo_workspace ''/o''
      \<lparr>sn_fs = demo_fs, sn_total = 0, sn_hashed = [], sn_hardLinks = Map.empty\<rparr> = Inr r"
    using demo_export by (auto simp: is_ok_def split: sum.splits)
  then obtain obj sn where run: "export_try no_failure (\<lambda>_. ''ab'') ''/o/t'' ''/x'' demo_workspace ''/o''
      \<lparr>sn_fs = demo_fs, sn_total = 0, sn_hashed = [], sn_hardLinks = Map.empty\<rparr> = Inr (obj, sn)" by (cases r) auto
  let ?e = "\<lparr>en_relative = ''f'', en_node = demo_file\<rparr>"
  have e: "?e \<in> set demo_entries" by (simp add: demo_entries_def)
  have "restored id ?e = \<lparr>i_body = B_file [1, 2, 3], i_mode = 493, i_mtime = Some 5000000\<rparr>"
    by (simp add: restored_def entry_link_def entry_time_def entry_mode_def demo_file_def demo_stats_def content_def round_mtime_def)
  then show ?thesis
    using snapshot_round_trip [OF run demo_tree_ok demo_collect demo_fine demo_agree demo_fs_ok, of "''w''" "[]" "''u''" id]
      demo_start_ok run e by (fastforce simp: place_def)
qed

section \<open>Safety of extraction\<close>



text \<open>Where a path leads when symbolic links are followed, with fuel for the links.\<close>

fun follow :: "nat \<Rightarrow> fs \<Rightarrow> path \<Rightarrow> string list \<Rightarrow> path option" where
  "follow 0 f cur ps = None"
| "follow (Suc k) f cur [] = Some cur"
| "follow (Suc k) f cur (p # ps) =
     (if p = [] \<or> p = ''.'' then follow k f cur ps
      else if p = ''..'' then follow k f (butlast cur) ps
      else case bodies f (cur @ [p]) of
          Some (B_symlink t) \<Rightarrow> follow k f (if starts_with ''/'' t then [] else cur) (split_on (CHR ''/'') t @ ps)
        | _ \<Rightarrow> follow k f (cur @ [p]) ps)"

text \<open>The check of symbolic links compares strings only, so it does not keep links inside: there is
  a snapshot that both the export and the extraction accept and in which a link, followed, leads
  out of the workspace (\<open>d/e/l\<close> to \<open>../..\<close> and \<open>d/e/m\<close> to \<open>l/../secret\<close>).\<close>

lemma symlink_check_is_lexical:
  "\<exists>cs obj sn f'. export_try no_failure (\<lambda>_. ''ab'') ''/o/t'' ''/x'' cs ''/o''
       \<lparr>sn_fs = demo_fs, sn_total = 0, sn_hashed = [], sn_hardLinks = Map.empty\<rparr> = Inr (obj, sn) \<and>
     extractCfs no_failure id ''u'' (sn_hashed sn) ''/w/workspace'' demo_fs = (Inr (), f') \<and>
     follow 20 f' [''w'', ''workspace''] [''d'', ''e'', ''m''] = Some [''w'', ''secret'']"
proof -
  obtain r where "export_try no_failure (\<lambda>_. ''ab'') ''/o/t'' ''/x'' demo_workspace ''/o''
      \<lparr>sn_fs = demo_fs, sn_total = 0, sn_hashed = [], sn_hardLinks = Map.empty\<rparr> = Inr r"
    using demo_export by (auto simp: is_ok_def split: sum.splits)
  then obtain obj sn where run: "export_try no_failure (\<lambda>_. ''ab'') ''/o/t'' ''/x'' demo_workspace ''/o''
      \<lparr>sn_fs = demo_fs, sn_total = 0, sn_hashed = [], sn_hardLinks = Map.empty\<rparr> = Inr (obj, sn)" by (cases r) auto
  have w: "abs_path ([''w''] @ [''workspace'']) = ''/w/workspace''" by (simp add: abs_path_def)
  obtain f' where f': "extractCfs no_failure id ''u'' (sn_hashed sn) ''/w/workspace'' demo_fs = (Inr (), f')"
    and r: "\<forall>e\<in>set demo_entries. lookup_inode f' (place [''w'', ''workspace''] (en_relative e)) = Some (restored id e)"
    and only: "\<forall>p. strict_prefix [''w'', ''workspace''] p \<and> f_names f' p \<noteq> None \<longrightarrow>
      (\<exists>e\<in>set demo_entries. p = place [''w'', ''workspace''] (en_relative e))"
    using restored_workspace [OF run demo_tree_ok demo_collect demo_fine demo_agree demo_fs_ok, of "''w''" "[]" "''u''" id]
      demo_start_ok w by auto
  have b: "bodies f' [''w'', ''workspace'', ''d''] = Some B_dir"
    "bodies f' [''w'', ''workspace'', ''d'', ''e''] = Some B_dir"
    "bodies f' [''w'', ''workspace'', ''d'', ''e'', ''l''] = Some (B_symlink ''../..'')"
    "bodies f' [''w'', ''workspace'', ''d'', ''e'', ''m''] = Some (B_symlink ''l/../secret'')"
    using r by (simp_all add: demo_entries_def place_def restored_def bodies_def)
  have run': "extractCfs no_failure id ''u'' (sn_hashed sn) (abs_path ([''w''] @ [''workspace''])) demo_fs = (Inr (), f')"
    using f' w by simp
  have g: "good_path ([''w''] @ [''workspace''])" by (simp add: plain_part_def)
  have "lookup_inode f' [''w'', ''secret''] = lookup_inode demo_fs [''w'', ''secret'']"
    by (rule workspace.extract_result(2) [OF demo_fs_ok _ _ g staging_path_abs [OF g] run']) (use demo_start_ok in simp_all)
  then have "bodies f' [''w'', ''secret''] = None" by (simp add: demo_fs_def lookup_inode_def bodies_def)
  then have "follow 20 f' [''w'', ''workspace''] [''d'', ''e'', ''m''] = Some [''w'', ''secret'']"
    using b by (simp add: eval_nat_numeral)
  then show ?thesis using run f' by blast
qed

end
