(* ===== verification/Base64.thy ===== *)
theory Base64
  imports Utf8
begin

text \<open>
  \<open>Buffer.toString('base64')\<close>, \<open>Buffer.toString('base64url')\<close> and \<open>Buffer.from(s, 'base64')\<close>.
  Encoding pads with \<open>=\<close> (base64) or not at all (base64url). Decoding accepts both alphabets,
  skips characters outside them and ends at the first \<open>=\<close>.
\<close>

definition b64_letters :: string where
  "b64_letters = ''ABCDEFGHIJKLMNOPQRSTUVWXYZabcdefghijklmnopqrstuvwxyz0123456789''"

definition b64_char :: "bool \<Rightarrow> nat \<Rightarrow> char" where
  "b64_char url n = (b64_letters @ (if url then ''-_'' else ''+/'')) ! n"

definition b64_value :: "char \<Rightarrow> nat option" where
  "b64_value c =
     (if c \<in> set ''+-'' then Some 62
      else if c \<in> set ''/_'' then Some 63
      else map_of (zip b64_letters [0..<62]) c)"

fun sextets :: "byte list \<Rightarrow> nat list" where
  "sextets [] = []"
| "sextets [a] = [unat a div 4, unat a mod 4 * 16]"
| "sextets [a, b] = [unat a div 4, unat a mod 4 * 16 + unat b div 16, unat b mod 16 * 4]"
| "sextets (a # b # c # bs) =
     [unat a div 4, unat a mod 4 * 16 + unat b div 16, unat b mod 16 * 4 + unat c div 64, unat c mod 64]
       @ sextets bs"

fun of_sextets :: "nat list \<Rightarrow> byte list" where
  "of_sextets (w # x # y # z # ns) =
     [word_of_nat (w * 4 + x div 16), word_of_nat (x mod 16 * 16 + y div 4), word_of_nat (y mod 4 * 64 + z)]
       @ of_sextets ns"
| "of_sextets [w, x, y] = [word_of_nat (w * 4 + x div 16), word_of_nat (x mod 16 * 16 + y div 4)]"
| "of_sextets [w, x] = [word_of_nat (w * 4 + x div 16)]"
| "of_sextets [w] = []"
| "of_sextets [] = []"

definition base64 :: "byte list \<Rightarrow> string" where
  "base64 bs = map (b64_char False) (sextets bs) @ replicate ((3 - length bs mod 3) mod 3) (CHR ''='')"

definition base64url :: "byte list \<Rightarrow> string" where
  "base64url bs = map (b64_char True) (sextets bs)"

definition from_base64 :: "string \<Rightarrow> byte list" where
  "from_base64 s = of_sextets (List.map_filter b64_value (takeWhile (\<lambda>c. c \<noteq> CHR ''='') s))"

lemma b64_char_value: "n < 64 \<Longrightarrow> b64_value (b64_char url n) = Some n \<and> b64_char url n \<noteq> CHR ''=''"
proof -
  have "list_all (\<lambda>n. b64_value (b64_char True n) = Some n \<and> b64_char True n \<noteq> CHR ''='') [0..<64]"
    and "list_all (\<lambda>n. b64_value (b64_char False n) = Some n \<and> b64_char False n \<noteq> CHR ''='') [0..<64]"
    by code_simp+
  then have "list_all (\<lambda>n. b64_value (b64_char url n) = Some n \<and> b64_char url n \<noteq> CHR ''='') [0..<64]" by (cases url) simp_all
  then show "n < 64 \<Longrightarrow> b64_value (b64_char url n) = Some n \<and> b64_char url n \<noteq> CHR ''=''"
    by (simp add: list_all_iff)
qed

lemma unat_byte_less: "unat (b :: byte) < 256"
  using unsigned_less [of b] by simp

lemma sextets_less: "n \<in> set (sextets bs) \<Longrightarrow> n < 64"
proof (induction bs rule: sextets.induct)
  case (2 a)
  then show ?case using unat_byte_less [of a] by auto
next
  case (3 a b)
  then show ?case using unat_byte_less [of a] unat_byte_less [of b] by auto
next
  case (4 a b c bs)
  then show ?case using unat_byte_less [of a] unat_byte_less [of b] unat_byte_less [of c] by auto
qed simp

lemma word_of_nat_unat_byte: "word_of_nat (unat (b :: byte)) = b"
  by simp

lemma sextet_bytes:
  fixes a b c :: byte
  shows "unat a div 4 * 4 + (unat a mod 4 * 16) div 16 = unat a"
    and "unat a div 4 * 4 + (unat a mod 4 * 16 + unat b div 16) div 16 = unat a"
    and "(unat a mod 4 * 16 + unat b div 16) mod 16 * 16 + (unat b mod 16 * 4) div 4 = unat b"
    and "(unat a mod 4 * 16 + unat b div 16) mod 16 * 16 + (unat b mod 16 * 4 + unat c div 64) div 4 = unat b"
    and "(unat b mod 16 * 4 + unat c div 64) mod 4 * 64 + unat c mod 64 = unat c"
proof -
  have b: "unat b div 16 < 16" and c: "unat c div 64 < 4"
    using unat_byte_less [of b] unat_byte_less [of c] by auto
  show "unat a div 4 * 4 + (unat a mod 4 * 16) div 16 = unat a"
    "unat a div 4 * 4 + (unat a mod 4 * 16 + unat b div 16) div 16 = unat a"
    "(unat a mod 4 * 16 + unat b div 16) mod 16 * 16 + (unat b mod 16 * 4) div 4 = unat b"
    "(unat a mod 4 * 16 + unat b div 16) mod 16 * 16 + (unat b mod 16 * 4 + unat c div 64) div 4 = unat b"
    "(unat b mod 16 * 4 + unat c div 64) mod 4 * 64 + unat c mod 64 = unat c"
    using b c by simp_all
qed

lemma of_sextets_sextets: "of_sextets (sextets bs) = bs"
  by (induction bs rule: sextets.induct) (simp_all only: sextets.simps of_sextets.simps append.simps
    sextet_bytes word_of_nat_unat_byte)

lemma from_base64_chars:
  "list_all (\<lambda>n. n < 64) ns \<Longrightarrow>
   from_base64 (map (b64_char url) ns @ replicate k (CHR ''='')) = of_sextets ns"
proof -
  assume ns: "list_all (\<lambda>n. n < 64) ns"
  then have "takeWhile (\<lambda>c. c \<noteq> CHR ''='') (map (b64_char url) ns @ replicate k (CHR ''='')) = map (b64_char url) ns"
    by (induction ns) (cases k; simp add: b64_char_value)+
  moreover have "List.map_filter b64_value (map (b64_char url) ns) = ns"
    using ns by (induction ns) (simp_all add: b64_char_value List.map_filter_simps)
  ultimately show ?thesis by (simp add: from_base64_def)
qed

lemma from_base64_base64 [simp]: "from_base64 (base64 bs) = bs"
  using from_base64_chars [of "sextets bs" False] sextets_less [of _ bs]
  by (simp add: base64_def of_sextets_sextets list_all_iff)

lemma from_base64_base64url [simp]: "from_base64 (base64url bs) = bs"
  using from_base64_chars [of "sextets bs" True 0] sextets_less [of _ bs]
  by (simp add: base64url_def of_sextets_sextets list_all_iff)

end
