(* ===== verification/Agent.thy ===== *)
theory Agent
  imports Base64 "HOL-Library.Sublist"
begin

text \<open>
  The messages of the guest agent (\<open>src/agent-protocol.ts\<close>) and the records of the file
  interface of a backend (\<open>src/backends/types.ts\<close>), with the combinators for code that talks to
  the outside: \<open>('w, 'a) io\<close> is a computation that may change the outside world \<open>'w\<close> and returns
  or throws. A JSON number of a response is \<open>Num n\<close> or \<open>Not_integer\<close>.
\<close>

section \<open>Computations with effects\<close>

type_synonym ('w, 'a) io = "'w \<Rightarrow> 'a res \<times> 'w"

definition io_return :: "'a \<Rightarrow> ('w, 'a) io" where
  "io_return x w = (Inr x, w)"

definition io_throw :: "js_error \<Rightarrow> ('w, 'a) io" where
  "io_throw e w = (Inl e, w)"

definition io_res :: "'a res \<Rightarrow> ('w, 'a) io" where
  "io_res r w = (r, w)"

definition io_bind :: "('w, 'a) io \<Rightarrow> ('a \<Rightarrow> ('w, 'b) io) \<Rightarrow> ('w, 'b) io" where
  "io_bind m f w = (case m w of (Inl e, w) \<Rightarrow> (Inl e, w) | (Inr x, w) \<Rightarrow> f x w)"

text \<open>\<open>if (!ok) throw e\<close>.\<close>

definition io_require :: "bool \<Rightarrow> js_error \<Rightarrow> ('w, unit) io" where
  "io_require ok e w = (if ok then Inr () else Inl e, w)"

text \<open>\<open>await m.catch(() => undefined)\<close>.\<close>

definition io_ignore :: "('w, 'a) io \<Rightarrow> ('w, unit) io" where
  "io_ignore m w = (Inr (), snd (m w))"

named_theorems io_simps "how an effect computation returns and throws"

lemma io_bind_Inr [io_simps]:
  "io_bind m f w = (Inr y, w') \<longleftrightarrow> (\<exists>x w1. m w = (Inr x, w1) \<and> f x w1 = (Inr y, w'))"
  by (auto simp: io_bind_def split: prod.splits sum.splits)

lemma io_bind_Inl [io_simps]:
  "io_bind m f w = (Inl e, w') \<longleftrightarrow>
     m w = (Inl e, w') \<or> (\<exists>x w1. m w = (Inr x, w1) \<and> f x w1 = (Inl e, w'))"
  by (auto simp: io_bind_def split: prod.splits sum.splits)

lemma io_return_iff [io_simps]: "io_return x w = (r, w') \<longleftrightarrow> Inr x = r \<and> w = w'"
  by (auto simp: io_return_def)

lemma io_throw_iff [io_simps]: "io_throw e w = (r, w') \<longleftrightarrow> Inl e = r \<and> w = w'"
  by (auto simp: io_throw_def)

lemma io_res_iff [io_simps]: "io_res q w = (r, w') \<longleftrightarrow> q = r \<and> w = w'"
  by (auto simp: io_res_def)

lemma io_require_iff [io_simps]:
  "io_require ok e w = (r, w') \<longleftrightarrow> (if ok then Inr () else Inl e) = r \<and> w = w'"
  by (auto simp: io_require_def)

lemma io_ignore_iff [io_simps]: "io_ignore m w = (r, w') \<longleftrightarrow> r = Inr () \<and> w' = snd (m w)"
  by (auto simp: io_ignore_def)

text \<open>What holds of the world before every step and is kept by every step holds at the end.\<close>

definition io_keeps :: "('w \<Rightarrow> bool) \<Rightarrow> ('w, 'a) io \<Rightarrow> bool" where
  "io_keeps P m \<longleftrightarrow> (\<forall>w. P w \<longrightarrow> P (snd (m w)))"

lemma io_keepsI: "(\<And>w. P w \<Longrightarrow> P (snd (m w))) \<Longrightarrow> io_keeps P m"
  by (simp add: io_keeps_def)

lemma io_keepsD: "io_keeps P m \<Longrightarrow> P w \<Longrightarrow> m w = (r, w') \<Longrightarrow> P w'"
  unfolding io_keeps_def by (metis snd_conv)

lemma io_keeps_basic [intro!]:
  "io_keeps P (io_return x)" "io_keeps P (io_throw e)" "io_keeps P (io_res r)" "io_keeps P (io_require ok e)"
  by (simp_all add: io_keeps_def io_return_def io_throw_def io_res_def io_require_def)

lemma io_keeps_bind [intro]:
  assumes "io_keeps P m" "\<And>x. io_keeps P (f x)"
  shows "io_keeps P (io_bind m f)"
proof (rule io_keepsI)
  fix w assume "P w"
  moreover obtain r w1 where "m w = (r, w1)" by fastforce
  ultimately show "P (snd (io_bind m f w))"
    using assms io_keepsD [OF assms(1)] by (cases r) (auto simp: io_bind_def io_keeps_def)
qed

lemma io_keeps_ignore [intro]: "io_keeps P m \<Longrightarrow> io_keeps P (io_ignore m)"
  by (simp add: io_keeps_def io_ignore_def)

section \<open>Messages of the guest agent\<close>

datatype number = Num int | Not_integer

datatype edit_kind = E_replace | E_insert_before | E_insert_after | E_delete

record file_edit =
  ed_kind :: edit_kind
  ed_startLine :: int
  ed_endLine :: "int option"
  ed_content :: "string option"

record line_range =
  rg_start :: int
  rg_end :: int

datatype entry_type = ET_file | ET_directory | ET_symlink

datatype sort_key = By_name | By_modified

record file_entry =
  fe_path :: string
  fe_type :: entry_type
  fe_size :: "number option"
  fe_modifiedAt :: "number option"

record file_match =
  fm_path :: string
  fm_line :: number
  fm_text :: string
  fm_contextBefore :: "string list option"
  fm_contextAfter :: "string list option"

record file_read_input =
  ri_path :: string
  ri_offset :: "int option"
  ri_limit :: "int option"
  ri_ranges :: "line_range list option"
  ri_cursor :: "string option"

record file_glob_input =
  gi_patterns :: "string list"
  gi_limit :: "int option"
  gi_cursor :: "string option"
  gi_gitignore :: "bool option"
  gi_hidden :: "bool option"
  gi_sort :: "sort_key option"

record file_grep_input =
  gr_pattern :: string
  gr_paths :: "string list option"
  gr_limit :: "int option"
  gr_cursor :: "string option"
  gr_caseSensitive :: "bool option"
  gr_contextBefore :: "int option"
  gr_contextAfter :: "int option"
  gr_gitignore :: "bool option"

record agent_exec =
  ae_executionId :: string
  ae_command :: string
  ae_cwd :: string
  ae_env :: "(string \<times> string) list"
  ae_tty :: bool
  ae_timeoutMs :: int

datatype agent_request =
    A_Exec agent_exec
  | A_Write string string
  | A_Poll string
  | A_Kill string int
  | A_FileRead file_read_input
  | A_FileReadBytes string nat nat
  | A_FileWriteBegin string string bool
  | A_FileWriteChunk string string
  | A_FileWriteCommit string
  | A_FileWriteAbort string
  | A_FileEdit string digest "file_edit list"
  | A_FileGlob file_glob_input
  | A_FileGrep file_grep_input
  | A_FileStat string
  | A_FileMove string string
  | A_FileRemove string
  | A_SnapshotBegin string
  | A_SnapshotRead string nat nat
  | A_SnapshotEnd string

datatype agent_error_code =
    AE_INVALID_ARGUMENT | AE_SNAPSHOT_LIMIT | AE_SNAPSHOT_UNSUPPORTED_ENTRY | AE_STORAGE_EXHAUSTED
  | AE_PATH_OUTSIDE_WORKSPACE | AE_FILE_NOT_FOUND | AE_FILE_TOO_LARGE | AE_INVALID_EDIT
  | AE_TRANSFER_NOT_FOUND | AE_TRANSFER_CAPACITY | AE_REGEX_LIMIT | AE_BACKEND_UNAVAILABLE

record stat_reply =
  sr_type :: entry_type
  sr_size :: number
  sr_mode :: number
  sr_modifiedAt :: number

record agent_response =
  ar_ok :: bool
  ar_state :: "execution_state option"
  ar_exitCode :: "int option"
  ar_output :: "string option"
  ar_originalBytes :: "nat option"
  ar_outputOmittedBytes :: "nat option"
  ar_error :: "string option"
  ar_errorCode :: "agent_error_code option"
  ar_lines :: "string list option"
  ar_entries :: "file_entry list option"
  ar_matches :: "file_match list option"
  ar_statResult :: "stat_reply option"
  ar_totalMatches :: "number option"
  ar_nextOffset :: "number option"
  ar_skippedFiles :: "number option"
  ar_isDirectory :: "bool option"
  ar_data :: "string option"
  ar_size :: "number option"
  ar_digest :: "string option"
  ar_eof :: "bool option"
  ar_currentDigest :: "string option"
  ar_truncated :: "bool option"
  ar_nextCursor :: "string option"
  ar_linesBefore :: "number option"
  ar_linesAfter :: "number option"

definition empty_response :: agent_response where
  "empty_response = \<lparr>ar_ok = True, ar_state = None, ar_exitCode = None, ar_output = None,
     ar_originalBytes = None, ar_outputOmittedBytes = None, ar_error = None, ar_errorCode = None,
     ar_lines = None, ar_entries = None, ar_matches = None, ar_statResult = None,
     ar_totalMatches = None, ar_nextOffset = None, ar_skippedFiles = None, ar_isDirectory = None,
     ar_data = None, ar_size = None, ar_digest = None, ar_eof = None, ar_currentDigest = None,
     ar_truncated = None, ar_nextCursor = None, ar_linesBefore = None, ar_linesAfter = None\<rparr>"

text \<open>The workspace paths and patterns a request names.\<close>

fun request_paths :: "agent_request \<Rightarrow> string list" where
  "request_paths (A_FileRead i) = [ri_path i]"
| "request_paths (A_FileReadBytes p _ _) = [p]"
| "request_paths (A_FileWriteBegin _ p _) = [p]"
| "request_paths (A_FileEdit p _ _) = [p]"
| "request_paths (A_FileGlob i) = gi_patterns i"
| "request_paths (A_FileGrep i) = (case gr_paths i of None \<Rightarrow> [] | Some ps \<Rightarrow> ps)"
| "request_paths (A_FileStat p) = [p]"
| "request_paths (A_FileMove p q) = [p, q]"
| "request_paths (A_FileRemove p) = [p]"
| "request_paths _ = []"

text \<open>A transport that also keeps the requests it was given, in order.\<close>

definition logged :: "(agent_request \<Rightarrow> ('w, 'a) io) \<Rightarrow> agent_request \<Rightarrow> ('w \<times> agent_request list, 'a) io" where
  "logged send q = (\<lambda>(w, l). (case send q w of (r, w') \<Rightarrow> (r, (w', l @ [q]))))"

lemma logged_iff [io_simps]:
  "logged send q (w, l) = (r, (w', l')) \<longleftrightarrow> send q w = (r, w') \<and> l' = l @ [q]"
  by (auto simp: logged_def split: prod.splits)

section \<open>Results of the file operations\<close>

record file_read_result =
  fr_path :: string
  fr_lines :: "string list option"
  fr_entries :: "file_entry list option"
  fr_isDirectory :: bool
  fr_size :: "nat option"
  fr_digest :: "digest option"
  fr_nextOffset :: "nat option"
  fr_truncated :: bool
  fr_nextCursor :: "string option"

record read_bytes_result =
  rb_data :: "byte list"
  rb_size :: nat
  rb_eof :: bool

record file_write_result =
  fw_path :: string
  fw_size :: nat
  fw_digest :: digest

record file_edit_result =
  ef_path :: string
  ef_linesBefore :: nat
  ef_linesAfter :: nat
  ef_digest :: digest

record file_glob_result =
  fg_entries :: "file_entry list"
  fg_truncated :: bool
  fg_nextCursor :: "string option"

record file_grep_result =
  fp_matches :: "file_match list"
  fp_totalMatches :: nat
  fp_skippedFiles :: nat
  fp_truncated :: bool
  fp_nextCursor :: "string option"

record file_stat_result =
  fst_path :: string
  fst_type :: entry_type
  fst_size :: nat
  fst_mode :: nat
  fst_modifiedAt :: nat

text \<open>A \<open>ReadableStream\<close>: the chunks it delivers and the error it ends with, if any.\<close>

type_synonym byte_stream = "byte list list \<times> js_error option"

end
