(* ===== verification/AgentFiles.thy ===== *)
theory AgentFiles
  imports Agent
begin

text \<open>
  The file client of the guest agent (\<open>src/backends/agent-files.ts\<close>). \<open>send\<close> is the agent
  transport: it delivers a request and returns the response, or throws. \<open>jsonSize\<close> is the
  number of bytes of a response as JSON. Every method checks what the guest returned before it
  hands it on; a file is written in a transfer that is committed at the end or aborted.
\<close>

definition MAX_CHUNK_BYTES :: nat where "MAX_CHUNK_BYTES = 384 * 1024"

definition MAX_ENCODED_RESPONSE_BYTES :: nat where "MAX_ENCODED_RESPONSE_BYTES = 1500000"

section \<open>Checks\<close>

definition agentError :: "agent_response \<Rightarrow> string \<Rightarrow> js_error" where
  "agentError r fallback =
     (let message = (case ar_error r of Some m \<Rightarrow> m | None \<Rightarrow> fallback) in
      case ar_errorCode r of
        Some AE_INVALID_ARGUMENT \<Rightarrow> service_err INVALID_ARGUMENT message
      | Some AE_PATH_OUTSIDE_WORKSPACE \<Rightarrow> service_err INVALID_ARGUMENT message
      | Some AE_FILE_TOO_LARGE \<Rightarrow> service_err INVALID_ARGUMENT message
      | Some AE_REGEX_LIMIT \<Rightarrow> service_err INVALID_ARGUMENT message
      | Some AE_FILE_NOT_FOUND \<Rightarrow> service_err NOT_FOUND message
      | Some AE_TRANSFER_NOT_FOUND \<Rightarrow> service_err NOT_FOUND message
      | Some AE_TRANSFER_CAPACITY \<Rightarrow> service_err STORAGE_EXHAUSTED message
      | Some AE_STORAGE_EXHAUSTED \<Rightarrow> service_err STORAGE_EXHAUSTED message
      | Some AE_INVALID_EDIT \<Rightarrow>
          ServiceError HEAD_CONFLICT message (Some (StaleDigest (truthy (ar_currentDigest r))))
      | Some AE_BACKEND_UNAVAILABLE \<Rightarrow> service_err BACKEND_UNAVAILABLE message
      | Some AE_SNAPSHOT_LIMIT \<Rightarrow> service_err SNAPSHOT_LIMIT message
      | Some AE_SNAPSHOT_UNSUPPORTED_ENTRY \<Rightarrow> service_err SNAPSHOT_UNSUPPORTED_ENTRY message
      | None \<Rightarrow> service_err BACKEND_ERROR message)"

definition requireOk :: "agent_response \<Rightarrow> string \<Rightarrow> unit res" where
  "requireOk r fallback = ensure_res (ar_ok r) (agentError r fallback) ()"

definition guardEncodedResponse :: "(agent_response \<Rightarrow> nat) \<Rightarrow> agent_response \<Rightarrow> string \<Rightarrow> unit res" where
  "guardEncodedResponse jsonSize r operation =
     ensure_res (jsonSize r \<le> MAX_ENCODED_RESPONSE_BYTES)
       (service_err BACKEND_ERROR (''Guest agent '' @ operation @ '' response exceeds transport-safe limit'')) ()"

definition requireDigest :: "string option \<Rightarrow> string \<Rightarrow> digest res" where
  "requireDigest v operation =
     (case truthy v of
        Some d \<Rightarrow> if is_digest d then Inr d
          else Inl (service_err BACKEND_ERROR (''Guest agent '' @ operation @ '' returned an invalid digest''))
      | None \<Rightarrow> Inl (service_err BACKEND_ERROR (''Guest agent '' @ operation @ '' returned an invalid digest'')))"

definition requireNumber :: "number option \<Rightarrow> string \<Rightarrow> nat res" where
  "requireNumber v operation =
     (case v of
        Some (Num n) \<Rightarrow> if 0 \<le> n \<and> n < 2 ^ 53 then Inr (nat n)
          else Inl (service_err BACKEND_ERROR (''Guest agent '' @ operation @ '' returned an invalid number''))
      | _ \<Rightarrow> Inl (service_err BACKEND_ERROR (''Guest agent '' @ operation @ '' returned an invalid number'')))"

text \<open>\<open>...(x !== undefined ? { field: check(x) } : {})\<close>.\<close>

definition opt_res :: "('a option \<Rightarrow> 'b res) \<Rightarrow> 'a option \<Rightarrow> 'b option res" where
  "opt_res check v = (case v of None \<Rightarrow> Inr None | Some x \<Rightarrow> bind_res (check (Some x)) (\<lambda>y. Inr (Some y)))"

lemma requireNumber_Inr [res_simps]:
  "requireNumber v operation = Inr n \<longleftrightarrow> v = Some (Num (int n)) \<and> n < 2 ^ 53"
  by (auto simp: requireNumber_def split: option.splits number.splits if_splits)

lemma requireDigest_Inr [res_simps]:
  "requireDigest v operation = Inr d \<longleftrightarrow> v = Some d \<and> is_digest d"
  by (auto simp: requireDigest_def is_digest_nonempty split: option.splits if_splits dest: is_digest_nonempty)

lemma requireOk_Inr [res_simps]: "requireOk r m = Inr u \<longleftrightarrow> ar_ok r"
  by (auto simp: requireOk_def res_simps)

section \<open>Reading\<close>

definition read_fields :: "agent_response \<Rightarrow> unit res" where
  "read_fields r =
     (let isDirectory = (ar_isDirectory r = Some True) in
      if isDirectory \<and> ar_entries r = None
      then Inl (service_err BACKEND_ERROR ''Guest agent directory read omitted entries'')
      else if \<not> isDirectory \<and> (ar_lines r = None \<or> ar_size r = None \<or> truthy (ar_digest r) = None)
      then Inl (service_err BACKEND_ERROR ''Guest agent file read omitted required fields'')
      else Inr ())"

definition read_result :: "string \<Rightarrow> agent_response \<Rightarrow> file_read_result res" where
  "read_result path r =
     bind_res (opt_res (\<lambda>v. requireNumber v ''file read'') (ar_size r)) (\<lambda>fileSize.
     bind_res (opt_res (\<lambda>v. requireDigest v ''file read'') (truthy (ar_digest r))) (\<lambda>digest.
     bind_res (opt_res (\<lambda>v. requireNumber v ''file read'') (ar_nextOffset r)) (\<lambda>nextOffset.
       Inr \<lparr>fr_path = path, fr_lines = ar_lines r, fr_entries = ar_entries r,
            fr_isDirectory = (ar_isDirectory r = Some True), fr_size = fileSize, fr_digest = digest,
            fr_nextOffset = nextOffset, fr_truncated = (ar_truncated r = Some True),
            fr_nextCursor = truthy (ar_nextCursor r)\<rparr>)))"

definition agent_read :: "(agent_response \<Rightarrow> nat) \<Rightarrow> (agent_request \<Rightarrow> ('w, agent_response) io)
    \<Rightarrow> file_read_input \<Rightarrow> ('w, file_read_result) io" where
  "agent_read jsonSize send i =
     io_bind (send (A_FileRead (i\<lparr>ri_cursor := truthy (ri_cursor i)\<rparr>))) (\<lambda>r.
     io_res (bind_res (requireOk r ''Guest agent file read failed'') (\<lambda>_.
       bind_res (guardEncodedResponse jsonSize r ''file read'') (\<lambda>_.
       bind_res (read_fields r) (\<lambda>_. read_result (ri_path i) r)))))"

definition bytes_result :: "nat \<Rightarrow> nat \<Rightarrow> agent_response \<Rightarrow> read_bytes_result res" where
  "bytes_result offset limit r =
     (case (ar_data r, ar_size r, ar_eof r) of
        (Some text, Some reported, Some eof) \<Rightarrow>
          (let data = from_base64 text in
           if length data > limit \<or> length data > MAX_CHUNK_BYTES
           then Inl (service_err BACKEND_ERROR ''Guest agent byte read exceeded requested limit'')
           else bind_res (requireNumber (Some reported) ''byte read'') (\<lambda>fileSize.
             if offset + length data > fileSize
             then Inl (service_err BACKEND_ERROR ''Guest agent byte read exceeds reported file size'')
             else Inr \<lparr>rb_data = data, rb_size = fileSize, rb_eof = eof\<rparr>))
      | _ \<Rightarrow> Inl (service_err BACKEND_ERROR ''Guest agent byte read omitted required fields''))"

definition readBytes :: "(agent_request \<Rightarrow> ('w, agent_response) io) \<Rightarrow> string \<Rightarrow> nat \<Rightarrow> nat
    \<Rightarrow> ('w, read_bytes_result) io" where
  "readBytes send path offset limit =
     io_bind (send (A_FileReadBytes path offset limit)) (\<lambda>r.
     io_res (bind_res (requireOk r ''Guest agent byte read failed'') (\<lambda>_. bytes_result offset limit r)))"

section \<open>Writing\<close>

function chunks_of :: "nat \<Rightarrow> byte list \<Rightarrow> byte list list" where
  "chunks_of n bs = (if n = 0 \<or> bs = [] then [] else take n bs # chunks_of n (drop n bs))"
  by pat_completeness auto
termination
  by (relation "measure (\<lambda>(n, bs). length bs)") auto

declare chunks_of.simps [simp del]

definition send_ok :: "(agent_request \<Rightarrow> ('w, agent_response) io) \<Rightarrow> agent_request \<Rightarrow> string
    \<Rightarrow> ('w, agent_response) io" where
  "send_ok send q fallback =
     io_bind (send q) (\<lambda>r. io_res (bind_res (requireOk r fallback) (\<lambda>_. Inr r)))"

fun send_chunks :: "(agent_request \<Rightarrow> ('w, agent_response) io) \<Rightarrow> string \<Rightarrow> byte list list \<Rightarrow> ('w, unit) io" where
  "send_chunks send transferId [] = io_return ()"
| "send_chunks send transferId (c # cs) =
     io_bind (send_ok send (A_FileWriteChunk transferId (base64 c)) ''Guest agent file write chunk failed'')
       (\<lambda>_. send_chunks send transferId cs)"

fun write_source :: "(agent_request \<Rightarrow> ('w, agent_response) io) \<Rightarrow> string \<Rightarrow> byte list list \<Rightarrow> js_error option
    \<Rightarrow> ('w, unit) io" where
  "write_source send transferId [] err = (case err of None \<Rightarrow> io_return () | Some e \<Rightarrow> io_throw e)"
| "write_source send transferId (v # vs) err =
     io_bind (send_chunks send transferId (chunks_of MAX_CHUNK_BYTES v)) (\<lambda>_. write_source send transferId vs err)"

definition write_try :: "(agent_request \<Rightarrow> ('w, agent_response) io) \<Rightarrow> string \<Rightarrow> string \<Rightarrow> bool \<Rightarrow> byte_stream
    \<Rightarrow> ('w, file_write_result) io" where
  "write_try send transferId path createParents source =
     io_bind (send_ok send (A_FileWriteBegin transferId path createParents)
       ''Guest agent file write begin failed'') (\<lambda>_.
     io_bind (write_source send transferId (fst source) (snd source)) (\<lambda>_.
     io_bind (send_ok send (A_FileWriteCommit transferId) ''Guest agent file write commit failed'') (\<lambda>r.
     io_res (bind_res (requireNumber (ar_size r) ''file write'') (\<lambda>fileSize.
       bind_res (requireDigest (ar_digest r) ''file write'') (\<lambda>digest.
         Inr \<lparr>fw_path = path, fw_size = fileSize, fw_digest = digest\<rparr>))))))"

text \<open>The \<open>finally\<close> aborts the transfer unless it was committed.\<close>

definition agent_write :: "(agent_request \<Rightarrow> ('w, agent_response) io) \<Rightarrow> string \<Rightarrow> string \<Rightarrow> bool \<Rightarrow> byte_stream
    \<Rightarrow> ('w, file_write_result) io" where
  "agent_write send transferId path createParents source w =
     (case write_try send transferId path createParents source w of
        (Inr x, w1) \<Rightarrow> (Inr x, w1)
      | (Inl e, w1) \<Rightarrow> (Inl e, snd (send (A_FileWriteAbort transferId) w1)))"

section \<open>The other operations\<close>

definition agent_edit :: "(agent_request \<Rightarrow> ('w, agent_response) io) \<Rightarrow> string \<Rightarrow> digest \<Rightarrow> file_edit list
    \<Rightarrow> ('w, file_edit_result) io" where
  "agent_edit send path expectedDigest edits =
     io_bind (send_ok send (A_FileEdit path expectedDigest edits) ''Guest agent file edit failed'') (\<lambda>r.
     io_res (bind_res (requireNumber (ar_linesBefore r) ''file edit'') (\<lambda>before.
       bind_res (requireNumber (ar_linesAfter r) ''file edit'') (\<lambda>after.
       bind_res (requireDigest (ar_digest r) ''file edit'') (\<lambda>digest.
         Inr \<lparr>ef_path = path, ef_linesBefore = before, ef_linesAfter = after, ef_digest = digest\<rparr>)))))"

definition glob_result :: "agent_response \<Rightarrow> file_glob_result res" where
  "glob_result r =
     (case ar_entries r of
        None \<Rightarrow> Inl (service_err BACKEND_ERROR ''Guest agent glob omitted entries'')
      | Some es \<Rightarrow> Inr \<lparr>fg_entries = es, fg_truncated = (ar_truncated r = Some True),
          fg_nextCursor = truthy (ar_nextCursor r)\<rparr>)"

definition agent_glob :: "(agent_response \<Rightarrow> nat) \<Rightarrow> (agent_request \<Rightarrow> ('w, agent_response) io)
    \<Rightarrow> file_glob_input \<Rightarrow> ('w, file_glob_result) io" where
  "agent_glob jsonSize send i =
     io_bind (send_ok send (A_FileGlob (i\<lparr>gi_cursor := truthy (gi_cursor i)\<rparr>)) ''Guest agent glob failed'') (\<lambda>r.
     io_res (bind_res (guardEncodedResponse jsonSize r ''glob'') (\<lambda>_. glob_result r)))"

definition grep_result :: "agent_response \<Rightarrow> file_grep_result res" where
  "grep_result r =
     (case ar_matches r of
        None \<Rightarrow> Inl (service_err BACKEND_ERROR ''Guest agent grep omitted matches'')
      | Some ms \<Rightarrow>
          bind_res (requireNumber (ar_totalMatches r) ''grep'') (\<lambda>total.
          bind_res (requireNumber (ar_skippedFiles r) ''grep'') (\<lambda>skipped.
            Inr \<lparr>fp_matches = ms, fp_totalMatches = total, fp_skippedFiles = skipped,
                 fp_truncated = (ar_truncated r = Some True), fp_nextCursor = truthy (ar_nextCursor r)\<rparr>)))"

definition agent_grep :: "(agent_response \<Rightarrow> nat) \<Rightarrow> (agent_request \<Rightarrow> ('w, agent_response) io)
    \<Rightarrow> file_grep_input \<Rightarrow> ('w, file_grep_result) io" where
  "agent_grep jsonSize send i =
     io_bind (send_ok send (A_FileGrep (i\<lparr>gr_cursor := truthy (gr_cursor i)\<rparr>)) ''Guest agent grep failed'') (\<lambda>r.
     io_res (bind_res (guardEncodedResponse jsonSize r ''grep'') (\<lambda>_. grep_result r)))"

definition stat_result :: "string \<Rightarrow> agent_response \<Rightarrow> file_stat_result res" where
  "stat_result path r =
     (case ar_statResult r of
        None \<Rightarrow> Inl (service_err BACKEND_ERROR ''Guest agent file stat omitted result'')
      | Some s \<Rightarrow>
          bind_res (requireNumber (Some (sr_size s)) ''file stat'') (\<lambda>fileSize.
          bind_res (requireNumber (Some (sr_mode s)) ''file stat'') (\<lambda>mode.
          bind_res (requireNumber (Some (sr_modifiedAt s)) ''file stat'') (\<lambda>modifiedAt.
            Inr \<lparr>fst_path = path, fst_type = sr_type s, fst_size = fileSize, fst_mode = mode,
                 fst_modifiedAt = modifiedAt\<rparr>))))"

definition agent_stat :: "(agent_request \<Rightarrow> ('w, agent_response) io) \<Rightarrow> string \<Rightarrow> ('w, file_stat_result) io" where
  "agent_stat send path =
     io_bind (send_ok send (A_FileStat path) ''Guest agent file stat failed'') (\<lambda>r. io_res (stat_result path r))"

definition agent_move :: "(agent_request \<Rightarrow> ('w, agent_response) io) \<Rightarrow> string \<Rightarrow> string
    \<Rightarrow> ('w, string \<times> string) io" where
  "agent_move send source destination =
     io_bind (send_ok send (A_FileMove source destination) ''Guest agent file move failed'') (\<lambda>_.
     io_return (source, destination))"

definition agent_remove :: "(agent_request \<Rightarrow> ('w, agent_response) io) \<Rightarrow> string \<Rightarrow> ('w, unit) io" where
  "agent_remove send path =
     io_bind (send_ok send (A_FileRemove path) ''Guest agent file remove failed'') (\<lambda>_. io_return ())"

section \<open>Reading bytes is bounded\<close>

text \<open>
  What the users of \<open>readBytes\<close> rely on: a result has at most as many bytes as were asked for,
  and they lie inside the reported size.
\<close>

locale byte_source =
  fixes read_at :: "nat \<Rightarrow> nat \<Rightarrow> ('w, read_bytes_result) io"
  assumes read_limit: "read_at offset limit w = (Inr r, w') \<Longrightarrow> length (rb_data r) \<le> limit"
    and read_inside: "read_at offset limit w = (Inr r, w') \<Longrightarrow> offset + length (rb_data r) \<le> rb_size r"

lemma bytes_result_Inr:
  "bytes_result offset limit r = Inr b \<Longrightarrow>
   length (rb_data b) \<le> limit \<and> length (rb_data b) \<le> MAX_CHUNK_BYTES \<and>
   offset + length (rb_data b) \<le> rb_size b \<and> ar_size r = Some (Num (int (rb_size b)))"
  by (auto simp: bytes_result_def Let_def res_simps split: option.splits if_splits)

lemma readBytes_Inr:
  "readBytes send path offset limit w = (Inr b, w') \<Longrightarrow>
   \<exists>r. send (A_FileReadBytes path offset limit) w = (Inr r, w') \<and> ar_ok r \<and> bytes_result offset limit r = Inr b"
  by (auto simp: readBytes_def io_simps res_simps)

interpretation agent_bytes: byte_source "readBytes send path" for send path
  by unfold_locales (auto dest!: readBytes_Inr bytes_result_Inr)

section \<open>A file is written in one transfer\<close>

abbreviation chunk_request :: "string \<Rightarrow> byte list \<Rightarrow> agent_request" where
  "chunk_request transferId c \<equiv> A_FileWriteChunk transferId (base64 c)"

lemma chunks_of_Nil [simp]: "chunks_of n [] = []"
  by (simp add: chunks_of.simps)

lemma concat_chunks_of: "0 < n \<Longrightarrow> concat (chunks_of n bs) = bs"
  by (induction n bs rule: chunks_of.induct) (subst chunks_of.simps, auto)

lemma chunks_of_length: "0 < n \<Longrightarrow> c \<in> set (chunks_of n bs) \<Longrightarrow> c \<noteq> [] \<and> length c \<le> n"
proof (induction n bs rule: chunks_of.induct)
  case (1 n bs)
  then show ?case by (subst (asm) (2) chunks_of.simps) (auto split: if_splits)
qed

lemma concat_max_chunks [simp]: "concat (chunks_of MAX_CHUNK_BYTES bs) = bs"
  by (simp add: concat_chunks_of MAX_CHUNK_BYTES_def)

lemma send_ok_logged:
  "send_ok (logged send) q m (w, l) = (r, (w', l')) \<Longrightarrow> l' = l @ [q]"
  by (cases r) (auto simp: send_ok_def io_simps res_simps)

lemma prefix_ConsI: "prefix ds cs \<Longrightarrow> prefix (c # ds) (c # cs)"
  by simp

lemma send_chunks_logged:
  "send_chunks (logged send) t cs (w, l) = (r, (w', l')) \<Longrightarrow>
   \<exists>ds. prefix ds cs \<and> l' = l @ map (chunk_request t) ds \<and> (is_ok r \<longrightarrow> ds = cs)"
proof (induction cs arbitrary: w l)
  case Nil
  then show ?case by (simp add: io_simps)
next
  case (Cons c cs)
  let ?send = "send_ok (logged send) (chunk_request t c) ''Guest agent file write chunk failed''"
  obtain r1 w1 l1 where first: "?send (w, l) = (r1, (w1, l1))" by (metis surj_pair)
  then have l1: "l1 = l @ [chunk_request t c]" by (rule send_ok_logged)
  show ?case
  proof (cases r1)
    case (Inl e)
    then have "r = Inl e \<and> l' = l1" using Cons.prems first by (simp add: io_bind_def)
    then show ?thesis using l1 by (intro exI [of _ "[c]"]) simp
  next
    case (Inr x)
    then have "send_chunks (logged send) t cs (w1, l1) = (r, (w', l'))"
      using Cons.prems first by (simp add: io_bind_def)
    from Cons.IH [OF this] obtain ds where "prefix ds cs" "l' = l1 @ map (chunk_request t) ds"
      "is_ok r \<longrightarrow> ds = cs" by blast
    then show ?thesis using l1 by (intro exI [of _ "c # ds"]) simp
  qed
qed

text \<open>What of a source has been sent: pieces within the limit that make a prefix of it.\<close>

definition sent_of :: "byte list list \<Rightarrow> byte list list \<Rightarrow> bool" where
  "sent_of vs ds \<longleftrightarrow> prefix (concat ds) (concat vs) \<and> (\<forall>d\<in>set ds. d \<noteq> [] \<and> length d \<le> MAX_CHUNK_BYTES)"

lemma prefix_concat: "prefix ds cs \<Longrightarrow> prefix (concat ds) (concat cs)"
  by (auto simp: prefix_def)

lemma sent_of_chunks:
  assumes "prefix ds (chunks_of MAX_CHUNK_BYTES v)"
  shows "sent_of (v # vs) ds"
proof -
  have "prefix (concat ds) v"
    using prefix_concat [OF assms] by simp
  moreover have "d \<in> set (chunks_of MAX_CHUNK_BYTES v)" if "d \<in> set ds" for d
    using assms that by (auto simp: prefix_def)
  ultimately show ?thesis
    using chunks_of_length [of MAX_CHUNK_BYTES _ v] by (auto simp: sent_of_def MAX_CHUNK_BYTES_def)
qed

lemma sent_of_Cons: "sent_of vs ds \<Longrightarrow> sent_of (v # vs) (chunks_of MAX_CHUNK_BYTES v @ ds)"
  using chunks_of_length [of MAX_CHUNK_BYTES _ v]
  by (auto simp: sent_of_def MAX_CHUNK_BYTES_def [THEN arg_cong [where f = "\<lambda>n. 0 < n"]])

lemma write_source_logged:
  "write_source (logged send) t vs err (w, l) = (r, (w', l')) \<Longrightarrow>
   \<exists>ds. l' = l @ map (chunk_request t) ds \<and> sent_of vs ds \<and> (is_ok r \<longrightarrow> concat ds = concat vs \<and> err = None)"
proof (induction vs arbitrary: w l)
  case Nil
  then show ?case by (auto simp: io_simps sent_of_def split: option.splits intro!: exI [of _ "[]"])
next
  case (Cons v vs)
  let ?cs = "chunks_of MAX_CHUNK_BYTES v"
  obtain r1 w1 l1 where first: "send_chunks (logged send) t ?cs (w, l) = (r1, (w1, l1))" by (metis surj_pair)
  from send_chunks_logged [OF this] obtain ds where ds: "prefix ds ?cs" "l1 = l @ map (chunk_request t) ds"
    "is_ok r1 \<longrightarrow> ds = ?cs" by blast
  show ?case
  proof (cases r1)
    case (Inl e)
    then have "r = Inl e \<and> l' = l1" using Cons.prems first by (simp add: io_bind_def)
    then show ?thesis using ds sent_of_chunks by auto
  next
    case (Inr x)
    then have "write_source (logged send) t vs err (w1, l1) = (r, (w', l'))"
      using Cons.prems first by (simp add: io_bind_def)
    from Cons.IH [OF this] obtain es where "l' = l1 @ map (chunk_request t) es" "sent_of vs es"
      "is_ok r \<longrightarrow> concat es = concat vs \<and> err = None" by blast
    then show ?thesis using ds Inr
      by (intro exI [of _ "?cs @ es"]) (auto simp: sent_of_Cons)
  qed
qed

text \<open>The requests of one write.\<close>

definition transfer_log :: "string \<Rightarrow> string \<Rightarrow> bool \<Rightarrow> byte list list \<Rightarrow> agent_request list \<Rightarrow> agent_request list" where
  "transfer_log t path createParents ds rest =
     A_FileWriteBegin t path createParents # map (chunk_request t) ds @ rest"

lemma write_try_logged:
  assumes "write_try (logged send) t path cp (vs, err) (w, l) = (r, (w', l'))"
  shows "\<exists>ds rest. l' = l @ transfer_log t path cp ds rest \<and> sent_of vs ds \<and>
    (rest = [] \<and> \<not> is_ok r \<or> rest = [A_FileWriteCommit t] \<and> concat ds = concat vs \<and> err = None)"
proof -
  let ?opened = "send_ok (logged send) (A_FileWriteBegin t path cp) ''Guest agent file write begin failed''"
  obtain r1 w1 l1 where a: "?opened (w, l) = (r1, (w1, l1))" by (metis surj_pair)
  then have l1: "l1 = l @ [A_FileWriteBegin t path cp]" by (rule send_ok_logged)
  show ?thesis
  proof (cases r1)
    case (Inl e)
    then show ?thesis using assms a l1
      by (intro exI [of _ "[]"]) (auto simp: write_try_def io_bind_def transfer_log_def sent_of_def)
  next
    case (Inr x)
    obtain r2 w2 l2 where b: "write_source (logged send) t vs err (w1, l1) = (r2, (w2, l2))" by (metis surj_pair)
    from write_source_logged [OF this] obtain ds where ds: "l2 = l1 @ map (chunk_request t) ds" "sent_of vs ds"
      "is_ok r2 \<longrightarrow> concat ds = concat vs \<and> err = None" by blast
    show ?thesis
    proof (cases r2)
      case (Inl e)
      then show ?thesis using assms a b l1 ds Inr
        by (intro exI [of _ ds] exI [of _ "[]"]) (auto simp: write_try_def io_bind_def transfer_log_def)
    next
      case Inr2: (Inr u)
      let ?commit = "send_ok (logged send) (A_FileWriteCommit t) ''Guest agent file write commit failed''"
      obtain r3 w3 l3 where c: "?commit (w2, l2) = (r3, (w3, l3))" by (metis surj_pair)
      then have "l3 = l2 @ [A_FileWriteCommit t]" by (rule send_ok_logged)
      moreover have "l' = l3" using assms a b c Inr Inr2
        by (cases r3) (auto simp: write_try_def io_bind_def io_res_def)
      ultimately show ?thesis using l1 ds Inr2
        by (intro exI [of _ ds] exI [of _ "[A_FileWriteCommit t]"]) (simp add: transfer_log_def)
    qed
  qed
qed

lemma write_try_result:
  "write_try send t path cp source w = (Inr v, w') \<Longrightarrow> fw_path v = path \<and> is_digest (fw_digest v)"
  by (auto simp: write_try_def io_simps res_simps)

lemma agent_write_cases:
  assumes "agent_write send t path cp source w = (r, w')"
  obtains v where "r = Inr v" "write_try send t path cp source w = (Inr v, w')"
  | e w1 where "r = Inl e" "write_try send t path cp source w = (Inl e, w1)"
      "w' = snd (send (A_FileWriteAbort t) w1)"
  using assms by (auto simp: agent_write_def split: prod.splits sum.splits)

end
