(* ===== verification/Paths.thy ===== *)
theory Paths
  imports Agent
begin

text \<open>
  How the MCP tools (\<open>src/mcp/server.ts\<close>) read their string arguments: workspace paths and
  patterns, artifact URIs, cursors and media types. A normalised path is empty (the workspace
  root) or relative with plain components only.
\<close>

section \<open>Workspace paths and patterns\<close>

definition bad_path :: "string \<Rightarrow> bool" where
  "bad_path p \<longleftrightarrow> contains_str [NUL] p \<or> contains_str ''://'' p"

definition plain_parts :: "string \<Rightarrow> bool" where
  "plain_parts p \<longleftrightarrow> list_all plain_part (split_on (CHR ''/'') p)"

definition normalizeWorkspacePath :: "string \<Rightarrow> bool \<Rightarrow> string res" where
  "normalizeWorkspacePath path allowRoot =
     (if bad_path path then Inl (service_err INVALID_ARGUMENT ''Path is invalid'')
      else if path \<noteq> ''.'' \<and> path \<noteq> ''/workspace'' \<and> \<not> starts_with ''/workspace/'' path \<and> starts_with ''/'' path
      then Inl (service_err INVALID_ARGUMENT ''Absolute paths must be inside /workspace'')
      else
        (let normalized = (if path = ''.'' \<or> path = ''/workspace'' then ''''
                           else if starts_with ''/workspace/'' path then drop 11 path else path)
         in if normalized = ''''
            then if allowRoot then Inr ''''
              else Inl (service_err INVALID_ARGUMENT ''Workspace root is not valid for this operation'')
            else if \<not> plain_parts normalized
            then Inl (service_err INVALID_ARGUMENT ''Path contains an unsafe component'')
            else Inr normalized))"

definition normalizeWorkspacePattern :: "string \<Rightarrow> string res" where
  "normalizeWorkspacePattern pattern =
     (if bad_path pattern then Inl (service_err INVALID_ARGUMENT ''Pattern is invalid'')
      else if pattern = ''.'' \<or> pattern = ''/workspace'' then Inr ''**/*''
      else if \<not> starts_with ''/workspace/'' pattern \<and> starts_with ''/'' pattern
      then Inl (service_err INVALID_ARGUMENT ''Absolute patterns must be inside /workspace'')
      else
        (let normalized = (if starts_with ''/workspace/'' pattern then drop 11 pattern else pattern)
         in if normalized = '''' \<or> \<not> plain_parts normalized
            then Inl (service_err INVALID_ARGUMENT ''Pattern contains an unsafe component'')
            else Inr normalized))"

text \<open>The path of the workspace root, or below it: no part of it leads up or is empty.\<close>

definition confined_path :: "string \<Rightarrow> bool" where
  "confined_path p \<longleftrightarrow> p = '''' \<or> (plain_parts p \<and> NUL \<notin> set p)"

lemma plain_parts_relative: "plain_parts p \<Longrightarrow> p \<noteq> [] \<and> \<not> starts_with ''/'' p"
  by (cases p) (auto simp: plain_parts_def plain_part_def split: if_splits list.splits)

lemma NUL_drop: "\<not> bad_path p \<Longrightarrow> NUL \<notin> set (drop n p)"
  using set_drop_subset [of n p] by (auto simp: bad_path_def contains_single)

lemma normalizeWorkspacePath_confined: "normalizeWorkspacePath path allowRoot = Inr p \<Longrightarrow> confined_path p"
  using NUL_drop [of path 11] NUL_drop [of path 0]
  by (auto simp: normalizeWorkspacePath_def confined_path_def Let_def split: if_splits)

lemma normalizeWorkspacePath_nonroot: "normalizeWorkspacePath path False = Inr p \<Longrightarrow> p \<noteq> '''' \<and> plain_parts p"
  by (auto simp: normalizeWorkspacePath_def Let_def split: if_splits)

lemma normalizeWorkspacePattern_confined: "normalizeWorkspacePattern path = Inr p \<Longrightarrow> confined_path p"
  using NUL_drop [of path 11] NUL_drop [of path 0]
  by (auto simp: normalizeWorkspacePattern_def confined_path_def Let_def plain_parts_def plain_part_def NUL_def
    split: if_splits)

text \<open>A normalised path is accepted again and stays as it is.\<close>

lemma contains_drop: "contains_str q (drop n p) \<Longrightarrow> contains_str q p"
  unfolding contains_iff by (metis append.assoc append_take_drop_id)

lemma bad_path_drop: "\<not> bad_path p \<Longrightarrow> \<not> bad_path (drop n p)"
  using contains_drop [of _ n p] by (auto simp: bad_path_def)

lemma normalizeWorkspacePath_good:
  "normalizeWorkspacePath path allowRoot = Inr p \<Longrightarrow> p = '''' \<or> (plain_parts p \<and> \<not> bad_path p)"
  using bad_path_drop [of path 11] by (auto simp: normalizeWorkspacePath_def Let_def split: if_splits)

lemma plain_parts_prefix: "plain_parts p \<Longrightarrow> p \<noteq> ''.'' \<and> p \<noteq> ''/workspace'' \<and> \<not> starts_with ''/workspace/'' p"
  using plain_parts_relative [of p] by (auto simp: plain_parts_def plain_part_def starts_with_iff)

lemma normalizeWorkspacePath_plain: "plain_parts p \<Longrightarrow> \<not> bad_path p \<Longrightarrow> normalizeWorkspacePath p a = Inr p"
  using plain_parts_relative [of p] plain_parts_prefix [of p] by (auto simp: normalizeWorkspacePath_def Let_def)

lemma normalizeWorkspacePath_again:
  "normalizeWorkspacePath path allowRoot = Inr p \<Longrightarrow> normalizeWorkspacePath p True = Inr p"
proof (cases "p = ''''")
  case True
  then show ?thesis by (simp add: normalizeWorkspacePath_def bad_path_def NUL_def)
qed (use normalizeWorkspacePath_good normalizeWorkspacePath_plain in blast)

section \<open>URIs, cursors and media types\<close>

definition parseArtifactUri :: "string \<Rightarrow> digest option" where
  "parseArtifactUri path =
     (if starts_with ''artifact://'' path \<and> is_digest (drop 11 path) then Some (drop 11 path) else None)"

text \<open>\<open>json\<close> gives the numeric field \<open>nextLine\<close> of a JSON text: \<open>None\<close> where the text is not
  JSON or has no such field.\<close>

definition cursorLine :: "(string \<Rightarrow> number option) \<Rightarrow> string option \<Rightarrow> int option" where
  "cursorLine json cursor =
     (case truthy cursor of
        None \<Rightarrow> None
      | Some c \<Rightarrow>
          (case json (utf8_string (from_base64 c)) of
             Some (Num n) \<Rightarrow> if 0 < n \<and> n < 2 ^ 53 then Some n else None
           | _ \<Rightarrow> None))"

definition cursor_text :: "nat \<Rightarrow> string" where
  "cursor_text n = ''{\"nextLine\":'' @ nat_str n @ ''}''"

definition line_cursor :: "nat \<Rightarrow> string" where
  "line_cursor n = base64url (bytes_of (cursor_text n))"

definition looksBinary :: "byte list \<Rightarrow> bool" where
  "looksBinary bytes \<longleftrightarrow> 0 \<in> set bytes \<or> \<not> utf8_valid bytes"

definition lower :: "string \<Rightarrow> string" where
  "lower s = map (\<lambda>c. let n = of_char c :: nat in if 65 \<le> n \<and> n \<le> 90 then char_of (n + 32) else c) s"

definition binary_extensions :: "string list" where
  "binary_extensions = [''.bin'', ''.png'', ''.jpg'', ''.jpeg'', ''.gif'', ''.webp'', ''.pdf'', ''.zip'',
     ''.gz'', ''.tgz'', ''.wasm'', ''.sqlite'', ''.db'']"

definition mediaTypeForPath :: "string \<Rightarrow> bool \<Rightarrow> string" where
  "mediaTypeForPath path binary =
     (if binary \<or> list_ex (\<lambda>x. ends_with x (lower path)) binary_extensions then ''application/octet-stream''
      else if ends_with ''.json'' path then ''application/json''
      else if ends_with ''.html'' path then ''text/html''
      else if ends_with ''.css'' path then ''text/css''
      else if ends_with ''.js'' path \<or> ends_with ''.mjs'' path \<or> ends_with ''.cjs'' path then ''text/javascript''
      else if ends_with ''.ts'' path \<or> ends_with ''.tsx'' path then ''text/typescript''
      else ''text/plain'')"

definition isTextMediaType :: "string \<Rightarrow> bool" where
  "isTextMediaType mediaType \<longleftrightarrow>
     starts_with ''text/'' mediaType \<or> mediaType = ''application/json'' \<or>
     mediaType = ''application/javascript'' \<or> mediaType = ''application/xml''"

text \<open>\<open>basename\<close> of a path without a trailing slash.\<close>

definition basename :: "string \<Rightarrow> string" where
  "basename p = last (split_on (CHR ''/'') p)"

lemma nat_str_ascii: "list_all (\<lambda>c. (of_char c :: nat) < 0x80) (nat_str n)"
proof (induction n rule: nat_str.induct)
  case (1 n)
  then show ?case by (subst nat_str.simps) (auto simp: of_char_of take_bit_eq_mod)
qed

lemma utf8_ascii_string: "list_all (\<lambda>c. (of_char c :: nat) < 0x80) s \<Longrightarrow> utf8_valid (bytes_of s)"
  by (rule utf8_ascii) (auto simp: bytes_of_def list_all_iff unat_byte)

text \<open>A cursor the daemon hands out is read back as the line it names.\<close>

lemma cursorLine_line_cursor:
  assumes "json (cursor_text n) = Some (Num (int n))" "0 < n" "n < 2 ^ 53"
  shows "cursorLine json (Some (line_cursor n)) = Some (int n)"
proof -
  have "line_cursor n \<noteq> ''''"
    by (auto simp: line_cursor_def base64url_def cursor_text_def bytes_of_def)
  moreover have "utf8_valid (bytes_of (cursor_text n))"
    using nat_str_ascii [of n] by (intro utf8_ascii_string) (simp add: cursor_text_def)
  ultimately show ?thesis
    using assms by (simp add: cursorLine_def line_cursor_def utf8_string_valid [of "cursor_text n"])
qed

end
