(* ===== verification/Lines.thy ===== *)
theory Lines
  imports Paths
begin

text \<open>
  Lines of text files (\<open>src/mcp/server.ts\<close>): \<open>selectedLine\<close>, \<open>streamArtifactLines\<close>, which reads
  the lines of an artifact from a byte stream, and \<open>lineNumbers\<close>, which numbers the lines of a
  read again. The text of a line includes its line break.
\<close>

definition MAX_TEXT_RESPONSE_BYTES :: nat where "MAX_TEXT_RESPONSE_BYTES = 512 * 1024"

definition in_range :: "int \<Rightarrow> line_range \<Rightarrow> bool" where
  "in_range line r \<longleftrightarrow> rg_start r \<le> line \<and> line \<le> rg_end r"

definition selectedLine :: "int \<Rightarrow> int \<Rightarrow> line_range list option \<Rightarrow> bool" where
  "selectedLine line startLine ranges =
     (if line < startLine then False
      else (case ranges of None \<Rightarrow> True | Some rs \<Rightarrow> list_ex (in_range line) rs))"

section \<open>Numbering lines\<close>

text \<open>The \<open>while\<close> loop looks for the next line number of a range and does not end where there is
  none: then the result is \<open>None\<close>.\<close>

partial_function (option) next_in_ranges :: "line_range list \<Rightarrow> int \<Rightarrow> int option" where
  "next_in_ranges rs current =
     (if list_ex (in_range current) rs then Some current else next_in_ranges rs (current + 1))"

fun number_in_ranges :: "line_range list \<Rightarrow> int \<Rightarrow> string list \<Rightarrow> (int \<times> string) list option" where
  "number_in_ranges rs current [] = Some []"
| "number_in_ranges rs current (text # lines) =
     (case next_in_ranges rs current of
        None \<Rightarrow> None
      | Some n \<Rightarrow> map_option ((#) (n, text)) (number_in_ranges rs (n + 1) lines))"

definition lineNumbers :: "string list \<Rightarrow> int \<Rightarrow> line_range list option \<Rightarrow> (int \<times> string) list option" where
  "lineNumbers lines startLine ranges =
     (case ranges of
        None \<Rightarrow> Some (map (\<lambda>(i, text). (startLine + int i, text)) (List.enumerate 0 lines))
      | Some rs \<Rightarrow> number_in_ranges rs startLine lines)"

section \<open>The size of a JSON text\<close>

text \<open>\<open>Buffer.byteLength(JSON.stringify(lines))\<close>: quotes, backslashes and control characters are
  escaped.\<close>

definition json_char_size :: "char \<Rightarrow> nat" where
  "json_char_size c = (let n = of_char c :: nat in
     if c = CHR 0x22 \<or> c = CHR 0x5C \<or> n \<in> {8, 9, 10, 12, 13} then 2 else if n < 32 then 6 else 1)"

definition json_string_size :: "string \<Rightarrow> nat" where
  "json_string_size s = 2 + sum_list (map json_char_size s)"

definition json_array_size :: "string list \<Rightarrow> nat" where
  "json_array_size xs = 2 + sum_list (map json_string_size xs) + (length xs - 1)"

section \<open>Decoding a stream of bytes\<close>

text \<open>
  \<open>new TextDecoder('utf-8', { fatal: true }).decode(chunk, { stream: true })\<close>: the complete
  characters so far and the bytes of one that is not complete; \<open>None\<close> where it throws.
\<close>

function utf8_scan :: "byte list \<Rightarrow> (byte list \<times> byte list) option" where
  "utf8_scan [] = Some ([], [])"
| "utf8_scan (b # bs) =
     (case utf8_lead b of
        None \<Rightarrow> None
      | Some (n, lo, hi) \<Rightarrow>
          (case utf8_rest lo hi n bs of
             (Some cs, r) \<Rightarrow> map_option (\<lambda>(t, p). (b # cs @ t, p)) (utf8_scan r)
           | (None, []) \<Rightarrow> Some ([], b # bs)
           | (None, _ # _) \<Rightarrow> None))"
  by pat_completeness auto
termination
proof (relation "measure length", goal_cases)
  case (2 b bs x n lh lo hi y r cs)
  then have "snd (utf8_rest lo hi n bs) = r" by (metis snd_conv)
  then show ?case using utf8_rest_length [of lo hi n bs] by simp
qed simp

text \<open>The decoder: the incomplete bytes and whether the start of the text is behind it; a byte
  order mark at the start is dropped.\<close>

record decoder =
  dc_rest :: "byte list"
  dc_started :: bool

definition BOM :: "byte list" where "BOM = [0xEF, 0xBB, 0xBF]"

definition strip_bom :: "byte list \<Rightarrow> byte list" where
  "strip_bom bs = (if take 3 bs = BOM then drop 3 bs else bs)"

definition decode_chunk :: "byte list \<Rightarrow> decoder \<Rightarrow> (string \<times> decoder) option" where
  "decode_chunk bytes dc =
     (case utf8_scan (dc_rest dc @ bytes) of
        None \<Rightarrow> None
      | Some (text, rest) \<Rightarrow>
          Some (string_of (if dc_started dc then text else strip_bom text),
                \<lparr>dc_rest = rest, dc_started = dc_started dc \<or> text \<noteq> []\<rparr>))"

definition new_decoder :: decoder where
  "new_decoder = \<lparr>dc_rest = [], dc_started = False\<rparr>"

section \<open>Reading the lines of an artifact\<close>

record line_reader =
  lr_lines :: "string list"
  lr_lineNumber :: nat
  lr_nextLine :: "nat option"

definition new_reader :: line_reader where
  "new_reader = \<lparr>lr_lines = [], lr_lineNumber = 0, lr_nextLine = None\<rparr>"

text \<open>What a read asks for: the first line, the ranges, and how many lines (\<open>None\<close>: no limit).\<close>

record line_request =
  lq_start :: int
  lq_ranges :: "line_range list option"
  lq_maximum :: "int option"

definition accept :: "line_request \<Rightarrow> string \<Rightarrow> line_reader \<Rightarrow> bool \<times> line_reader" where
  "accept q line s =
     (let number = lr_lineNumber s + 1; s1 = s\<lparr>lr_lineNumber := number\<rparr> in
      if \<not> selectedLine (int number) (lq_start q) (lq_ranges q) then (True, s1)
      else if (case lq_maximum q of None \<Rightarrow> False | Some m \<Rightarrow> int (length (lr_lines s1)) \<ge> m)
         \<or> json_array_size (lr_lines s1 @ [line]) > MAX_TEXT_RESPONSE_BYTES
      then (False, s1\<lparr>lr_nextLine := (case lr_nextLine s1 of None \<Rightarrow> Some number | Some n \<Rightarrow> Some n)\<rparr>)
      else (True, s1\<lparr>lr_lines := lr_lines s1 @ [line]\<rparr>))"

text \<open>The lines that are complete in the pending text. The first result is whether to go on.\<close>

definition cut_line :: "string \<Rightarrow> (string \<times> string) option" where
  "cut_line s = (if NL \<in> set s
     then Some (takeWhile (\<lambda>c. c \<noteq> NL) s @ [NL], tl (dropWhile (\<lambda>c. c \<noteq> NL) s)) else None)"

lemma cut_line_length: "cut_line s = Some (line, rest) \<Longrightarrow> length rest < length s"
proof -
  assume "cut_line s = Some (line, rest)"
  then have "NL \<in> set s" "rest = tl (dropWhile (\<lambda>c. c \<noteq> NL) s)" by (auto simp: cut_line_def split: if_splits)
  then show "length rest < length s"
    by (induction s arbitrary: rest) auto
qed

function accept_lines :: "line_request \<Rightarrow> string \<Rightarrow> line_reader \<Rightarrow> bool \<times> string \<times> line_reader" where
  "accept_lines q pending s =
     (case cut_line pending of
        None \<Rightarrow> (True, pending, s)
      | Some (line, rest) \<Rightarrow>
          (case accept q line s of
             (False, s1) \<Rightarrow> (False, rest, s1)
           | (True, s1) \<Rightarrow> accept_lines q rest s1))"
  by pat_completeness auto
termination
  by (relation "measure (\<lambda>(q, pending, s). length pending)") (auto dest: cut_line_length)

declare accept_lines.simps [simp del]

text \<open>What reading a stream gives: binary data, or the reader at the end.\<close>

datatype line_outcome = Binary | Lines line_reader

fun read_stream_lines :: "line_request \<Rightarrow> byte list list \<Rightarrow> js_error option \<Rightarrow> decoder \<Rightarrow> string \<Rightarrow> line_reader
    \<Rightarrow> line_outcome res" where
  "read_stream_lines q [] err dc pending s =
     (case err of
        Some e \<Rightarrow> Inl e
      | None \<Rightarrow>
          if dc_rest dc \<noteq> [] then Inr Binary
          else if pending = '''' then Inr (Lines s)
          else Inr (Lines (snd (accept q pending s))))"
| "read_stream_lines q (chunk # chunks) err dc pending s =
     (case decode_chunk chunk dc of
        None \<Rightarrow> Inr Binary
      | Some (text, dc1) \<Rightarrow>
          (case accept_lines q (pending @ text) s of
             (False, _, s1) \<Rightarrow> Inr (Lines s1)
           | (True, pending1, s1) \<Rightarrow> read_stream_lines q chunks err dc1 pending1 s1))"

record read_arguments =
  ra_path :: string
  ra_offset :: "int option"
  ra_limit :: "int option"
  ra_ranges :: "line_range list option"
  ra_cursor :: "string option"
  ra_raw :: "bool option"

definition sort_ranges :: "line_range list \<Rightarrow> line_range list" where
  "sort_ranges rs = sort_key rg_start rs"

text \<open>\<open>cursorLine(cursor) ?? ranges?.[0]?.start ?? offset ?? 1\<close>.\<close>

definition start_line :: "(string \<Rightarrow> number option) \<Rightarrow> read_arguments \<Rightarrow> line_range list option \<Rightarrow> int" where
  "start_line json args ranges =
     (case cursorLine json (ra_cursor args) of
        Some n \<Rightarrow> n
      | None \<Rightarrow>
          (case ranges of
             Some (r # rs) \<Rightarrow> rg_start r
           | _ \<Rightarrow> (case ra_offset args of Some n \<Rightarrow> n | None \<Rightarrow> 1)))"

definition line_request_of :: "(string \<Rightarrow> number option) \<Rightarrow> read_arguments \<Rightarrow> line_request" where
  "line_request_of json args =
     (let ranges = map_option sort_ranges (ra_ranges args) in
      \<lparr>lq_start = start_line json args ranges, lq_ranges = ranges,
       lq_maximum = (if ranges \<noteq> None then None
         else Some (case ra_limit args of Some n \<Rightarrow> n | None \<Rightarrow> 200))\<rparr>)"

definition ranges_check :: "read_arguments \<Rightarrow> unit res" where
  "ranges_check args =
     (case ra_ranges args of
        None \<Rightarrow> Inr ()
      | Some rs \<Rightarrow>
          if ra_offset args \<noteq> None \<or> ra_limit args \<noteq> None
          then Inl (service_err INVALID_ARGUMENT ''ranges cannot be combined with offset or limit'')
          else if list_ex (\<lambda>r. rg_end r < rg_start r) rs
          then Inl (service_err INVALID_ARGUMENT ''Line range is invalid'')
          else Inr ())"

text \<open>\<open>streamArtifactLines\<close> on what \<open>store.open\<close> returns; \<open>None\<close> stands for \<open>undefined\<close>.\<close>

record stream_lines_result =
  sl_lines :: "string list"
  sl_startLine :: int
  sl_nextLine :: "nat option"

definition streamArtifactLines :: "(string \<Rightarrow> number option) \<Rightarrow> (unit \<Rightarrow> byte_stream res) \<Rightarrow> read_arguments
    \<Rightarrow> stream_lines_result option res" where
  "streamArtifactLines json open_stream args =
     bind_res (ranges_check args) (\<lambda>_.
     bind_res (open_stream ()) (\<lambda>source.
     (let q = line_request_of json args in
      bind_res (read_stream_lines q (fst source) (snd source) new_decoder '''' new_reader) (\<lambda>out.
        Inr (case out of
               Binary \<Rightarrow> None
             | Lines s \<Rightarrow> Some \<lparr>sl_lines = lr_lines s, sl_startLine = lq_start q,
                 sl_nextLine = lr_nextLine s\<rparr>)))))"

section \<open>What numbering gives\<close>

text \<open>The line numbers from \<open>startLine\<close> on that lie in one of the ranges.\<close>

definition selected :: "line_range list \<Rightarrow> int \<Rightarrow> int set" where
  "selected rs startLine = {n. startLine \<le> n \<and> list_ex (in_range n) rs}"

lemma finite_selected [simp]: "finite (selected rs s)"
proof -
  have "selected rs s \<subseteq> (\<Union>r\<in>set rs. {rg_start r..rg_end r})"
    by (auto simp: selected_def list_ex_iff in_range_def)
  then show ?thesis by (rule finite_subset) simp
qed

lemma next_in_ranges_Some:
  assumes "next_in_ranges rs c = Some n"
  shows "n \<in> selected rs c \<and> (\<forall>m. c \<le> m \<and> m < n \<longrightarrow> \<not> list_ex (in_range m) rs)"
proof (rule next_in_ranges.raw_induct [OF _ assms])
  fix nxt :: "line_range list \<Rightarrow> int \<Rightarrow> int option" and rs c n
  assume IH: "\<And>rs c n. nxt rs c = Some n \<Longrightarrow>
      n \<in> selected rs c \<and> (\<forall>m. c \<le> m \<and> m < n \<longrightarrow> \<not> list_ex (in_range m) rs)"
    and run: "(if list_ex (in_range c) rs then Some c else nxt rs (c + 1)) = Some n"
  show "n \<in> selected rs c \<and> (\<forall>m. c \<le> m \<and> m < n \<longrightarrow> \<not> list_ex (in_range m) rs)"
  proof (cases "list_ex (in_range c) rs")
    case True
    then show ?thesis using run by (auto simp: selected_def)
  next
    case False
    then have *: "n \<in> selected rs (c + 1)" "\<forall>m. c + 1 \<le> m \<and> m < n \<longrightarrow> \<not> list_ex (in_range m) rs"
      using run IH [of rs "c + 1" n] by auto
    moreover have "\<not> list_ex (in_range m) rs" if "c \<le> m" "m < n" for m
      using that False * by (cases "m = c") auto
    ultimately show ?thesis by (auto simp: selected_def)
  qed
qed

lemma next_in_ranges_exists:
  "c \<le> n \<Longrightarrow> list_ex (in_range n) rs \<Longrightarrow> next_in_ranges rs c \<noteq> None"
proof (induction "nat (n - c)" arbitrary: c)
  case 0
  then have "n = c" by simp
  with 0 show ?case by (simp add: next_in_ranges.simps)
next
  case (Suc k)
  then show ?case by (subst next_in_ranges.simps) auto
qed

lemma next_in_ranges_eq:
  "next_in_ranges rs c = (if selected rs c = {} then None else Some (Min (selected rs c)))"
proof (cases "next_in_ranges rs c")
  case None
  then show ?thesis using next_in_ranges_exists [of c _ rs] by (auto simp: selected_def)
next
  case (Some n)
  from next_in_ranges_Some [OF this] have "n \<in> selected rs c" "\<And>m. m \<in> selected rs c \<Longrightarrow> n \<le> m"
    by (auto simp: selected_def not_less [symmetric])
  then show ?thesis using Some by (auto intro: Min_eqI [symmetric])
qed

lemma selected_after: "selected rs s \<noteq> {} \<Longrightarrow> selected rs (Min (selected rs s) + 1) = selected rs s - {Min (selected rs s)}"
proof -
  assume ne: "selected rs s \<noteq> {}"
  have "s \<le> Min (selected rs s)" using Min_in [OF finite_selected ne] by (simp add: selected_def)
  moreover have "Min (selected rs s) \<le> n" if "n \<in> selected rs s" for n
    using that by simp
  ultimately show ?thesis by (fastforce simp: selected_def)
qed

lemma number_in_ranges_eq:
  "number_in_ranges rs s lines =
     (if length lines \<le> card (selected rs s)
      then Some (zip (sorted_list_of_set (selected rs s)) lines) else None)"
proof (induction lines arbitrary: s)
  case (Cons x lines)
  show ?case
  proof (cases "selected rs s = {}")
    case False
    define m where "m = Min (selected rs s)"
    have after: "selected rs (m + 1) = selected rs s - {m}" and m: "m \<in> selected rs s"
      using selected_after [OF False] Min_in [OF finite_selected False] by (simp_all add: m_def)
    have card: "card (selected rs s) = Suc (card (selected rs (m + 1)))"
      unfolding after using m by (simp only: card.remove [OF finite_selected m])
    have "sorted_list_of_set (selected rs s) = m # sorted_list_of_set (selected rs (m + 1))"
      unfolding after using False by (simp add: sorted_list_of_set_nonempty m_def)
    moreover have "next_in_ranges rs s = Some m" using False by (simp add: next_in_ranges_eq m_def)
    ultimately show ?thesis using Cons.IH [of "m + 1"] card by simp
  qed (simp add: next_in_ranges_eq)
qed simp

section \<open>What reading the lines of a stream gives\<close>

text \<open>The lines of a text, each with its line break.\<close>

function text_lines :: "string \<Rightarrow> string list" where
  "text_lines s =
     (case cut_line s of
        None \<Rightarrow> if s = '''' then [] else [s]
      | Some (line, rest) \<Rightarrow> line # text_lines rest)"
  by pat_completeness auto
termination
  by (relation "measure length") (auto dest: cut_line_length)

declare text_lines.simps [simp del]

lemma cut_line_append: "cut_line p = Some (line, rest) \<Longrightarrow> cut_line (p @ z) = Some (line, rest @ z)"
  by (auto simp: cut_line_def dropWhile_append split: if_splits)

lemma cut_line_None: "cut_line p = None \<longleftrightarrow> NL \<notin> set p"
  by (simp add: cut_line_def)

lemma cut_line_Some: "cut_line p = Some (line, rest) \<Longrightarrow> p = line @ rest"
proof -
  assume "cut_line p = Some (line, rest)"
  then have NL: "NL \<in> set p" and eq: "line = takeWhile (\<lambda>c. c \<noteq> NL) p @ [NL]" "rest = tl (dropWhile (\<lambda>c. c \<noteq> NL) p)"
    by (auto simp: cut_line_def split: if_splits)
  then have "dropWhile (\<lambda>c. c \<noteq> NL) p \<noteq> []" "hd (dropWhile (\<lambda>c. c \<noteq> NL) p) = NL"
    using hd_dropWhile [of "\<lambda>c. c \<noteq> NL" p] by (auto simp: dropWhile_eq_Nil_conv)
  then have "NL # rest = dropWhile (\<lambda>c. c \<noteq> NL) p" using eq by (metis list.collapse)
  then show ?thesis using eq takeWhile_dropWhile_id [of "\<lambda>c. c \<noteq> NL" p] by (metis append.assoc append_Cons append_Nil)
qed

lemma concat_text_lines: "concat (text_lines s) = s"
proof (induction s rule: text_lines.induct)
  case (1 s)
  show ?case
  proof (cases "cut_line s")
    case (Some lr)
    then show ?thesis using 1 cut_line_Some [of s "fst lr" "snd lr"]
      by (subst text_lines.simps) (simp split: prod.splits)
  qed (subst text_lines.simps, simp)
qed

text \<open>The reference: the lines are offered one after the other until one is not taken.\<close>

fun accept_all :: "line_request \<Rightarrow> string list \<Rightarrow> line_reader \<Rightarrow> line_reader" where
  "accept_all q [] s = s"
| "accept_all q (line # lines) s =
     (case accept q line s of (False, s1) \<Rightarrow> s1 | (True, s1) \<Rightarrow> accept_all q lines s1)"

lemma accept_lines_stop:
  "accept_lines q p s = (False, p1, s1) \<Longrightarrow> accept_all q (text_lines (p @ z)) s = s1"
proof (induction q p s rule: accept_lines.induct)
  case (1 q p s)
  from 1(2) obtain line rest where cut: "cut_line p = Some (line, rest)"
    by (subst (asm) accept_lines.simps) (auto split: option.splits)
  obtain b s2 where a: "accept q line s = (b, s2)" by force
  have "text_lines (p @ z) = line # text_lines (rest @ z)"
    using cut_line_append [OF cut, of z] by (subst text_lines.simps) simp
  then show ?case using 1 cut a
    by (cases b) (auto simp: accept_lines.simps [of q p])
qed

lemma accept_lines_rest:
  "accept_lines q p s = (True, p1, s1) \<Longrightarrow>
   NL \<notin> set p1 \<and> accept_all q (text_lines (p @ z)) s = accept_all q (text_lines (p1 @ z)) s1"
proof (induction q p s rule: accept_lines.induct)
  case (1 q p s)
  show ?case
  proof (cases "cut_line p")
    case None
    then have "p1 = p" "s1 = s" "NL \<notin> set p" using 1(2) by (simp_all add: accept_lines.simps [of q p] cut_line_None [symmetric])
    then show ?thesis by simp
  next
    case (Some lr)
    obtain line rest where cut: "cut_line p = Some (line, rest)" using Some by (cases lr) simp
    obtain b s2 where a: "accept q line s = (b, s2)" by force
    have "text_lines (p @ z) = line # text_lines (rest @ z)"
      using cut_line_append [OF cut, of z] by (subst text_lines.simps) simp
    then show ?thesis using 1 cut a
      by (cases b) (auto simp: accept_lines.simps [of q p])
  qed
qed

lemma text_lines_last: "NL \<notin> set p \<Longrightarrow> text_lines p = (if p = '''' then [] else [p])"
  by (subst text_lines.simps) (simp add: cut_line_def)

subsection \<open>Decoding a valid text chunk by chunk\<close>

lemma utf8_rest_append:
  "utf8_rest lo hi n xs = (Some cs, r) \<Longrightarrow> utf8_rest lo hi n (xs @ ys) = (Some cs, r @ ys)"
  by (induction lo hi n xs arbitrary: cs r rule: utf8_rest.induct) (auto split: if_splits prod.splits)

lemma utf8_rest_append_bad:
  "utf8_rest lo hi n xs = (None, b # r) \<Longrightarrow> utf8_rest lo hi n (xs @ ys) = (None, b # r @ ys)"
  by (induction lo hi n xs arbitrary: b r rule: utf8_rest.induct) (auto split: if_splits prod.splits)

lemma utf8_rest_size: "utf8_rest lo hi n bs = (Some cs, r) \<Longrightarrow> length cs = n"
  by (induction lo hi n bs arbitrary: cs r rule: utf8_rest.induct) (auto split: if_splits prod.splits)

lemma utf8_valid_Cons:
  "utf8_valid (b # bs) \<longleftrightarrow>
     (\<exists>n lo hi cs r. utf8_lead b = Some (n, lo, hi) \<and> utf8_rest lo hi n bs = (Some cs, r) \<and> utf8_valid r)"
proof (cases "utf8_lead b")
  case None
  then show ?thesis by (simp add: utf8_valid_def)
next
  case (Some x)
  obtain n lo hi where x: "x = (n, lo, hi)" by (cases x)
  obtain cs r where "utf8_rest lo hi n bs = (cs, r)" by force
  then show ?thesis using Some x by (cases cs) (auto simp: utf8_valid_def)
qed

definition whole_start :: "byte list \<Rightarrow> bool" where
  "whole_start t \<longleftrightarrow> (case t of [] \<Rightarrow> True
     | b # bs \<Rightarrow> (case utf8_lead b of None \<Rightarrow> False | Some (n, _) \<Rightarrow> n \<le> length bs))"

lemma utf8_scan_valid:
  "utf8_valid (xs @ ys) \<Longrightarrow>
   \<exists>t p. utf8_scan xs = Some (t, p) \<and> xs = t @ p \<and> utf8_valid (p @ ys) \<and> (ys = [] \<longrightarrow> p = []) \<and> whole_start t"
proof (induction xs rule: utf8_scan.induct)
  case 1
  then show ?case by (simp add: whole_start_def)
next
  case (2 b bs)
  from 2(2) obtain n lo hi cs r where lead: "utf8_lead b = Some (n, lo, hi)"
    and rest: "utf8_rest lo hi n (bs @ ys) = (Some cs, r)" and r: "utf8_valid r"
    by (auto simp: utf8_valid_Cons)
  obtain c r1 where split: "utf8_rest lo hi n bs = (c, r1)" by force
  show ?case
  proof (cases c)
    case (Some cs1)
    with rest split have eq: "cs = cs1" "r = r1 @ ys"
      using utf8_rest_append [of lo hi n bs cs1 r1 ys] by auto
    have bs: "bs = cs1 @ r1" using utf8_rest_Some split Some by blast
    from 2(1) [OF lead refl refl split [symmetric, unfolded Some] refl] r eq
    obtain t p where "utf8_scan r1 = Some (t, p)" "r1 = t @ p" "utf8_valid (p @ ys)" "ys = [] \<longrightarrow> p = []"
      by auto
    then show ?thesis using lead split Some bs utf8_rest_size [of lo hi n bs cs1 r1]
      by (intro exI [of _ "b # cs1 @ t"] exI [of _ p]) (simp add: whole_start_def)
  next
    case None
    have nil: "r1 = []"
    proof (cases r1)
      case (Cons d ds)
      then show ?thesis using rest split None utf8_rest_append_bad [of lo hi n bs d ds ys] by simp
    qed simp
    then have "ys \<noteq> []" using rest split None by auto
    then show ?thesis using lead split None nil 2(2)
      by (intro exI [of _ "[]"] exI [of _ "b # bs"]) (simp add: whole_start_def)
  qed
qed

lemma strip_bom_append: "whole_start t \<Longrightarrow> t \<noteq> [] \<Longrightarrow> strip_bom (t @ u) = strip_bom t @ u"
proof (cases t)
  case (Cons b bs)
  assume "whole_start t" "t \<noteq> []"
  show ?thesis
  proof (cases "b = 0xEF")
    case True
    then have "2 \<le> length bs" using \<open>whole_start t\<close> Cons by (simp add: whole_start_def utf8_lead_def)
    then show ?thesis using Cons by (auto simp: strip_bom_def numeral_3_eq_3 Suc_le_length_iff numeral_2_eq_2)
  qed (simp add: strip_bom_def BOM_def Cons numeral_3_eq_3)
qed simp

definition text_of :: "byte list \<Rightarrow> string" where
  "text_of bs = string_of (strip_bom bs)"

definition text_after :: "decoder \<Rightarrow> byte list \<Rightarrow> string" where
  "text_after dc bs = string_of (if dc_started dc then bs else strip_bom bs)"

lemma string_of_append [simp]: "string_of (a @ b) = string_of a @ string_of b"
  by (simp add: string_of_def)

lemma decode_chunk_valid:
  assumes "utf8_valid (dc_rest dc @ bytes @ ys)"
  shows "\<exists>t dc1. decode_chunk bytes dc = Some (t, dc1) \<and> utf8_valid (dc_rest dc1 @ ys) \<and>
    (ys = [] \<longrightarrow> dc_rest dc1 = []) \<and> text_after dc (dc_rest dc @ bytes @ ys) = t @ text_after dc1 (dc_rest dc1 @ ys)"
proof -
  have "utf8_valid ((dc_rest dc @ bytes) @ ys)" using assms by simp
  from utf8_scan_valid [OF this] obtain t p where scan:
    "utf8_scan (dc_rest dc @ bytes) = Some (t, p)" "dc_rest dc @ bytes = t @ p" "utf8_valid (p @ ys)"
    "ys = [] \<longrightarrow> p = []" "whole_start t" by blast
  have "text_after dc (t @ p @ ys) =
      string_of (if dc_started dc then t else strip_bom t) @
      text_after \<lparr>dc_rest = p, dc_started = dc_started dc \<or> t \<noteq> []\<rparr> (p @ ys)"
  proof (cases "t = []")
    case True
    then show ?thesis by (simp add: text_after_def strip_bom_def BOM_def string_of_def)
  next
    case False
    then show ?thesis using strip_bom_append [OF scan(5) False, of "p @ ys"] by (simp add: text_after_def)
  qed
  then show ?thesis using scan by (simp add: decode_chunk_def append_assoc [symmetric] del: append_assoc)
qed

lemma read_stream_lines_valid:
  assumes "utf8_valid (dc_rest dc @ concat chunks)" "concat chunks = [] \<longrightarrow> dc_rest dc = []" "NL \<notin> set pending"
  shows "read_stream_lines q chunks None dc pending s =
    Inr (Lines (accept_all q (text_lines (pending @ text_after dc (dc_rest dc @ concat chunks))) s))"
  using assms
proof (induction chunks arbitrary: dc pending s)
  case Nil
  then show ?case
    by (auto simp: text_after_def text_lines_last strip_bom_def BOM_def string_of_def split: prod.splits bool.splits)
next
  case (Cons chunk chunks)
  from decode_chunk_valid [of dc chunk "concat chunks"] Cons.prems obtain t dc1 where
    dc1: "decode_chunk chunk dc = Some (t, dc1)" "utf8_valid (dc_rest dc1 @ concat chunks)"
      "concat chunks = [] \<longrightarrow> dc_rest dc1 = []"
      "text_after dc (dc_rest dc @ chunk @ concat chunks) = t @ text_after dc1 (dc_rest dc1 @ concat chunks)"
    by auto
  let ?z = "text_after dc1 (dc_rest dc1 @ concat chunks)"
  obtain b p1 s1 where a: "accept_lines q (pending @ t) s = (b, p1, s1)" by (metis prod_cases3)
  show ?case
  proof (cases b)
    case True
    with a have "NL \<notin> set p1"
      "accept_all q (text_lines ((pending @ t) @ ?z)) s = accept_all q (text_lines (p1 @ ?z)) s1"
      using accept_lines_rest [of q "pending @ t" s p1 s1 ?z] by simp_all
    then show ?thesis using Cons.IH [OF dc1(2,3), of p1 s1] True a dc1 by simp
  next
    case False
    then show ?thesis using accept_lines_stop [of q "pending @ t" s p1 s1 ?z] a dc1 by simp
  qed
qed

lemma stream_text:
  "utf8_valid (concat chunks) \<Longrightarrow>
   read_stream_lines q chunks None new_decoder '''' new_reader =
     Inr (Lines (accept_all q (text_lines (text_of (concat chunks))) new_reader))"
  using read_stream_lines_valid [of new_decoder chunks "''''" q new_reader]
  by (simp add: new_decoder_def text_after_def text_of_def)

subsection \<open>Which lines are taken\<close>

definition numbered :: "line_request \<Rightarrow> nat \<Rightarrow> string list \<Rightarrow> (nat \<times> string) list" where
  "numbered q n lines =
     filter (\<lambda>(i, _). selectedLine (int i) (lq_start q) (lq_ranges q)) (List.enumerate (n + 1) lines)"

text \<open>A page: the lines that were taken are the first of the selected ones, and where some are
  left the next line is the first of those.\<close>

definition page_of :: "(nat \<times> string) list \<Rightarrow> string list \<Rightarrow> nat option \<Rightarrow> bool" where
  "page_of sel lines next =
     (\<exists>k. k \<le> length sel \<and> lines = map snd (take k sel) \<and>
        next = (if k < length sel then Some (fst (sel ! k)) else None))"

definition taken :: "(nat \<times> string) list \<Rightarrow> string list \<Rightarrow> line_reader \<Rightarrow> nat \<Rightarrow> bool" where
  "taken sel before s k \<longleftrightarrow> k \<le> length sel \<and> lr_lines s = before @ map snd (take k sel) \<and>
     lr_nextLine s = (if k < length sel then Some (fst (sel ! k)) else None)"

lemma accept_cases:
  assumes "accept q line s = (b, s1)" "lr_nextLine s = None"
  shows "lr_lineNumber s1 = Suc (lr_lineNumber s)"
    and "\<not> selectedLine (int (Suc (lr_lineNumber s))) (lq_start q) (lq_ranges q) \<Longrightarrow>
      b \<and> lr_lines s1 = lr_lines s \<and> lr_nextLine s1 = None"
    and "selectedLine (int (Suc (lr_lineNumber s))) (lq_start q) (lq_ranges q) \<Longrightarrow> b \<Longrightarrow>
      lr_lines s1 = lr_lines s @ [line] \<and> lr_nextLine s1 = None"
    and "\<not> b \<Longrightarrow> lr_lines s1 = lr_lines s \<and> lr_nextLine s1 = Some (Suc (lr_lineNumber s))"
  using assms by (auto simp: accept_def Let_def split: if_splits)

lemma numbered_Cons:
  "numbered q n (line # lines) =
     (if selectedLine (int (Suc n)) (lq_start q) (lq_ranges q)
      then (Suc n, line) # numbered q (Suc n) lines else numbered q (Suc n) lines)"
  by (simp add: numbered_def)

lemma accept_all_page:
  "lr_nextLine s = None \<Longrightarrow>
   \<exists>k. taken (numbered q (lr_lineNumber s) lines) (lr_lines s) (accept_all q lines s) k"
proof (induction lines arbitrary: s)
  case Nil
  then show ?case by (simp add: numbered_def taken_def)
next
  case (Cons line lines)
  let ?sel = "selectedLine (int (Suc (lr_lineNumber s))) (lq_start q) (lq_ranges q)"
  obtain b s1 where a: "accept q line s = (b, s1)" by force
  note step = accept_cases [OF a Cons.prems]
  show ?case
  proof (cases b)
    case True
    then have "lr_nextLine s1 = None" using step by blast
    from Cons.IH [OF this] obtain k where k:
      "taken (numbered q (Suc (lr_lineNumber s)) lines) (lr_lines s1) (accept_all q lines s1) k"
      using step(1) by auto
    show ?thesis
    proof (cases ?sel)
      case sel: True
      then have "lr_lines s1 = lr_lines s @ [line]" using step(3) True by blast
      with k have "taken (numbered q (lr_lineNumber s) (line # lines)) (lr_lines s) (accept_all q lines s1) (Suc k)"
        using sel by (simp add: taken_def numbered_Cons)
      then show ?thesis using a True by auto
    next
      case False
      then have "lr_lines s1 = lr_lines s" using step(2) by blast
      then show ?thesis using k a True False by (auto simp: numbered_Cons)
    qed
  next
    case False
    then have ?sel using step(2) by blast
    then have "taken (numbered q (lr_lineNumber s) (line # lines)) (lr_lines s) s1 0"
      using step(4) [OF False] by (simp add: taken_def numbered_Cons)
    then show ?thesis using a False by auto
  qed
qed

lemma stream_page:
  assumes "utf8_valid (concat chunks)"
  shows "\<exists>s. read_stream_lines q chunks None new_decoder '''' new_reader = Inr (Lines s) \<and>
    page_of (numbered q 0 (text_lines (text_of (concat chunks)))) (lr_lines s) (lr_nextLine s)"
  using stream_text [OF assms, of q] accept_all_page [of new_reader q "text_lines (text_of (concat chunks))"]
  by (auto simp: page_of_def new_reader_def taken_def)

text \<open>Without ranges the selected lines are those from the start on.\<close>

lemma numbered_no_ranges:
  assumes "lq_ranges q = None" "0 < lq_start q"
  shows "numbered q n lines = drop (nat (lq_start q) - 1 - n) (List.enumerate (n + 1) lines)"
proof (induction lines arbitrary: n)
  case (Cons line lines)
  show ?case
  proof (cases "Suc n < nat (lq_start q)")
    case True
    then have "nat (lq_start q) - 1 - n = Suc (nat (lq_start q) - 1 - Suc n)" by simp
    then show ?thesis using True assms Cons [of "Suc n"] by (simp add: numbered_Cons selectedLine_def)
  next
    case False
    then show ?thesis using assms Cons [of "Suc n"] by (simp add: numbered_Cons selectedLine_def)
  qed
qed (simp add: numbered_def)

end
