(* ===== verification/Artifacts.thy ===== *)
theory Artifacts
  imports Cfs_Safety Repository Agent
begin

text \<open>
  The artifact store (\<open>src/storage/artifacts.ts\<close>): files named by the SHA-256 of their content
  under one directory, with the rows and grants of the database. \<open>io\<close> says which file operations
  fail, \<open>sha\<close> is SHA-256 in hexadecimal, \<open>got\<close> how many bytes a read at a position returns of
  those it asks for.
\<close>

definition STREAM_CHUNK_BYTES :: nat where "STREAM_CHUNK_BYTES = 384 * 1024"

record artifact_ref =
  af_digest :: digest
  af_path :: string
  af_sizeBytes :: int
  af_mediaType :: string

definition EEXIST :: js_error where "EEXIST = PlainError ''EEXIST''"

text \<open>The media type of \<open>parseMetadata\<close>.\<close>

definition stored_media_type :: "artifact_metadata \<Rightarrow> string" where
  "stored_media_type m = (case m_mediaType m of Some t \<Rightarrow> t | None \<Rightarrow> ''application/octet-stream'')"

section \<open>Resolving and opening\<close>

definition file_at :: "fs \<Rightarrow> path \<Rightarrow> byte list option" where
  "file_at f p = (case bodies f p of Some (B_file bs) \<Rightarrow> Some bs | _ \<Rightarrow> None)"

definition resolve_artifact :: "fs \<Rightarrow> db \<Rightarrow> string \<Rightarrow> digest \<Rightarrow> artifact_ref res" where
  "resolve_artifact f d threadId digest =
     (case getGrantedArtifact d threadId digest of
        None \<Rightarrow> Inl (service_err NOT_FOUND ''Artifact not found'')
      | Some row \<Rightarrow>
          (case file_at f (path_parts (a_path row)) of
             Some bs \<Rightarrow>
               if int (length bs) \<noteq> a_sizeBytes row
               then Inl (service_err BACKEND_ERROR ''Artifact storage is inconsistent'')
               else Inr \<lparr>af_digest = a_digest row, af_path = a_path row, af_sizeBytes = a_sizeBytes row,
                         af_mediaType = stored_media_type (a_metadata row)\<rparr>
           | None \<Rightarrow> Inl (service_err BACKEND_ERROR ''Artifact storage is inconsistent'')))"

text \<open>The stream: one read after the other from a position, until nothing remains or the file
  ends.\<close>

function read_file :: "(nat \<Rightarrow> nat \<Rightarrow> nat) \<Rightarrow> byte list \<Rightarrow> nat \<Rightarrow> nat \<Rightarrow> byte_stream" where
  "read_file got content position remaining =
     (if remaining = 0 then ([], None)
      else
        (let want = min STREAM_CHUNK_BYTES remaining;
             available = min want (length content - position)
         in if available = 0
            then ([], Some (service_err BACKEND_ERROR ''Artifact ended before its recorded size''))
            else
              (let bytesRead = max 1 (min available (got position want)) in
               case read_file got content (position + bytesRead) (remaining - bytesRead) of
                 (chunks, err) \<Rightarrow> (slice content position bytesRead # chunks, err))))"
  by pat_completeness auto
termination
proof (relation "measure (\<lambda>(got, content, position, remaining). remaining)", goal_cases)
  case (2 got content position remaining want available bytesRead)
  then have "1 \<le> bytesRead" "0 < remaining" by (simp_all only: max.cobounded1 neq0_conv)
  then show ?case by (simp add: diff_less)
qed (rule wf_measure)

declare read_file.simps [simp del]

definition safe_integer :: "int \<Rightarrow> bool" where
  "safe_integer n \<longleftrightarrow> - (2 ^ 53) < n \<and> n < 2 ^ 53"

record opened_artifact =
  oa_stream :: byte_stream
  oa_sizeBytes :: int
  oa_mediaType :: string

text \<open>\<open>range\<close> is the offset and the limit, if any are given.\<close>

definition open_artifact :: "(nat \<Rightarrow> nat \<Rightarrow> nat) \<Rightarrow> fs \<Rightarrow> db \<Rightarrow> string \<Rightarrow> digest \<Rightarrow> (int \<times> int) option
    \<Rightarrow> opened_artifact res" where
  "open_artifact got f d threadId digest bounds =
     bind_res (resolve_artifact f d threadId digest) (\<lambda>artifact.
       let offset = (case bounds of Some (start, _) \<Rightarrow> start | None \<Rightarrow> 0);
           limit = (case bounds of Some (_, n) \<Rightarrow> n | None \<Rightarrow> af_sizeBytes artifact - offset)
       in if \<not> safe_integer offset \<or> offset < 0 \<or> offset > af_sizeBytes artifact \<or> \<not> safe_integer limit \<or> limit < 0
          then Inl (service_err INVALID_ARGUMENT ''Artifact byte range is invalid'')
          else
            (case file_at f (path_parts (af_path artifact)) of
               None \<Rightarrow> Inl (PlainError ''ENOENT'')
             | Some content \<Rightarrow>
                 Inr \<lparr>oa_stream = read_file got content (nat offset)
                        (nat (min limit (af_sizeBytes artifact - offset))),
                      oa_sizeBytes = af_sizeBytes artifact, oa_mediaType = af_mediaType artifact\<rparr>))"

section \<open>Storing\<close>

definition temporary_name :: "string \<Rightarrow> string" where
  "temporary_name uuid = ''.electrosphere-'' @ uuid @ ''.tmp''"

definition temporary_path :: "string \<Rightarrow> string \<Rightarrow> string" where
  "temporary_path root uuid = path_join [root, temporary_name uuid]"

fun append_chunks :: "(fs_op \<Rightarrow> unit res) \<Rightarrow> string \<Rightarrow> byte list list \<Rightarrow> fs \<Rightarrow> js_error \<times> fs + fs" where
  "append_chunks io temporary [] f = Inr f"
| "append_chunks io temporary (chunk # chunks) f =
     (if chunk = [] then append_chunks io temporary chunks f
      else bind_res (at_state f (fs_run io (Op_append (path_parts temporary) chunk) f))
             (append_chunks io temporary chunks))"

text \<open>Linking the temporary file to its name: a name that exists already is left as it is. The
  result says whether the name was made, also where the \<open>chmod\<close> after it fails.\<close>

definition install :: "(fs_op \<Rightarrow> unit res) \<Rightarrow> string \<Rightarrow> string \<Rightarrow> fs \<Rightarrow> js_error option \<times> bool \<times> fs" where
  "install io temporary destination f =
     (case fs_run io (Op_link (path_parts temporary) (path_parts destination)) f of
        Inl e \<Rightarrow> (if e = EEXIST then None else Some e, False, f)
      | Inr f1 \<Rightarrow>
          (case fs_run io (Op_chmod (path_parts destination) 256) f1 of
             Inl e \<Rightarrow> (if e = EEXIST then None else Some e, True, f1)
           | Inr f2 \<Rightarrow> (None, True, f2)))"

text \<open>The \<open>catch\<close>: the temporary file and the name that was made are removed.\<close>

definition put_failed :: "(fs_op \<Rightarrow> unit res) \<Rightarrow> string \<Rightarrow> string option \<Rightarrow> js_error \<Rightarrow> fs \<Rightarrow> 'a res \<times> fs" where
  "put_failed io temporary installed e f =
     (case fs_run io (Op_rm (path_parts temporary)) f of
        Inl e1 \<Rightarrow> (Inl e1, f)
      | Inr f1 \<Rightarrow>
          (case installed of
             None \<Rightarrow> (Inl e, f1)
           | Some destination \<Rightarrow>
               (case fs_run io (Op_rm (path_parts destination)) f1 of
                  Inl e2 \<Rightarrow> (Inl e2, f1)
                | Inr f2 \<Rightarrow> (Inl e, f2))))"

definition put_stored :: "(fs_op \<Rightarrow> unit res) \<Rightarrow> string \<Rightarrow> string \<Rightarrow> string \<Rightarrow> digest \<Rightarrow> nat \<Rightarrow> artifact_metadata
    \<Rightarrow> fs \<Rightarrow> db \<Rightarrow> artifact_ref res \<times> fs \<times> db" where
  "put_stored io threadId temporary destination digest sizeBytes metadata f d =
     (case install io temporary destination f of
        (Some e, made, f1) \<Rightarrow>
          (case put_failed io temporary (if made then Some destination else None) e f1 of (r, f2) \<Rightarrow> (r, f2, d))
      | (None, made, f1) \<Rightarrow>
          (case fs_run io (Op_rm (path_parts temporary)) f1 of
             Inl e \<Rightarrow>
               (case put_failed io temporary (if made then Some destination else None) e f1 of (r, f2) \<Rightarrow> (r, f2, d))
           | Inr f2 \<Rightarrow>
               (let d1 = putArtifactAndGrant threadId digest destination (int sizeBytes) metadata d in
                (resolve_artifact f2 d1 threadId digest, f2, d1))))"

definition stored_metadata :: "string option \<Rightarrow> string option \<Rightarrow> artifact_metadata" where
  "stored_metadata mediaType filename =
     \<lparr>m_mediaType = Some (case mediaType of Some t \<Rightarrow> t | None \<Rightarrow> ''application/octet-stream''),
      m_filename = truthy filename\<rparr>"

definition putStream :: "(fs_op \<Rightarrow> unit res) \<Rightarrow> (string \<Rightarrow> string) \<Rightarrow> string \<Rightarrow> string \<Rightarrow> string \<Rightarrow> byte_stream
    \<Rightarrow> string option \<Rightarrow> string option \<Rightarrow> fs \<Rightarrow> db \<Rightarrow> artifact_ref res \<times> fs \<times> db" where
  "putStream io sha root uuid threadId source mediaType filename f d =
     (let temporary = temporary_path root uuid in
      case fs_run io (Op_mkdirp (path_parts root) 448) f of
        Inl e \<Rightarrow> (Inl e, f, d)
      | Inr f1 \<Rightarrow>
      (case fs_run io (Op_write (path_parts temporary) [] 384) f1 of
        Inl e \<Rightarrow> (Inl e, f1, d)
      | Inr f2 \<Rightarrow>
      (case append_chunks io temporary (fst source) f2 of
        Inl (e, f3) \<Rightarrow> (case put_failed io temporary None e f3 of (r, f4) \<Rightarrow> (r, f4, d))
      | Inr f3 \<Rightarrow>
      (case snd source of
        Some e \<Rightarrow> (case put_failed io temporary None e f3 of (r, f4) \<Rightarrow> (r, f4, d))
      | None \<Rightarrow>
          (let digest = digest_of sha (string_of (concat (fst source))) in
           put_stored io threadId temporary (path_join [root, drop 7 digest]) digest
             (length (concat (fst source))) (stored_metadata mediaType filename) f3 d)))))"

end
