(* ===== verification/Tools.thy ===== *)
theory Tools
  imports AgentFiles Lines Artifacts Sessions Turns
begin

text \<open>
  What the MCP tools (\<open>src/mcp/server.ts\<close>) share: the turn a call is bound to, the runtime its
  file requests go to, the export of a workspace file as an artifact, and the \<open>read\<close> tool. A
  tool runs in the state of the daemon, which is the world of the guest agents, the file system
  and the database of the daemon, and the session manager.
\<close>

section \<open>The daemon as the tools see it\<close>

record 'w daemon =
  dm_agents :: 'w
  dm_fs :: fs
  dm_db :: db
  dm_sessions :: session_manager

text \<open>
  The turn of the call and what lies outside: \<open>te_send\<close> is the agent transport of a runtime,
  \<open>te_jsonSize\<close> and \<open>te_json\<close> stand for \<open>JSON\<close>, \<open>te_sha\<close> for the hash, \<open>te_io\<close> and \<open>te_got\<close>
  for the file system's answers, \<open>te_sessions\<close> for the backends' executions and \<open>te_decode\<close> for
  the decoding of their output; then clock readings and random ids.
\<close>

record 'w tool_env =
  te_turn :: "bound_turn option"
  te_send :: "backend \<Rightarrow> backend_handle \<Rightarrow> agent_request \<Rightarrow> ('w, agent_response) io"
  te_jsonSize :: "agent_response \<Rightarrow> nat"
  te_json :: "string \<Rightarrow> number option"
  te_sha :: "string \<Rightarrow> string"
  te_io :: "fs_op \<Rightarrow> unit res"
  te_got :: "nat \<Rightarrow> nat \<Rightarrow> nat"
  te_root :: string
  te_uuid :: string
  te_transferId :: string
  te_sessions :: session_backend
  te_decode :: "string \<Rightarrow> string"
  te_now :: int
  te_started :: int
  te_executionId :: string
  te_sessionId :: string

text \<open>A computation on one part of the daemon.\<close>

definition on_agents :: "('w, 'a) io \<Rightarrow> ('w daemon, 'a) io" where
  "on_agents m s = (case m (dm_agents s) of (r, w) \<Rightarrow> (r, s\<lparr>dm_agents := w\<rparr>))"

definition on_sessions :: "(session_manager \<Rightarrow> db \<Rightarrow> 'a session_run) \<Rightarrow> ('w daemon, 'a) io" where
  "on_sessions m s =
     (case m (dm_sessions s) (dm_db s) of (r, sm, d) \<Rightarrow> (r, s\<lparr>dm_sessions := sm, dm_db := d\<rparr>))"

section \<open>The turn and its runtime\<close>

definition requireTurn :: "'w tool_env \<Rightarrow> bound_turn res" where
  "requireTurn env =
     (case te_turn env of
        None \<Rightarrow> Inl (service_err TURN_CLOSED ''Tool call is not bound to an open turn'')
      | Some turn \<Rightarrow> Inr turn)"

record file_context =
  cx_turn :: bound_turn
  cx_backend :: backend
  cx_handle :: backend_handle

definition fileContext :: "'w tool_env \<Rightarrow> db \<Rightarrow> file_context res" where
  "fileContext env d =
     bind_res (requireTurn env) (\<lambda>turn.
     bind_res (getTurnHandle d (b_instanceId turn)) (\<lambda>(row, handle).
       Inr \<lparr>cx_turn = turn, cx_backend = i_backend row, cx_handle = handle\<rparr>))"

definition with_context :: "'w tool_env \<Rightarrow> (file_context \<Rightarrow> ('w daemon, 'a) io) \<Rightarrow> ('w daemon, 'a) io" where
  "with_context env f s =
     (case fileContext env (dm_db s) of Inl e \<Rightarrow> (Inl e, s) | Inr cx \<Rightarrow> f cx s)"

definition sender :: "'w tool_env \<Rightarrow> file_context \<Rightarrow> agent_request \<Rightarrow> ('w, agent_response) io" where
  "sender env cx = te_send env (cx_backend cx) (cx_handle cx)"

section \<open>Exporting a workspace file\<close>

definition MAX_RAW_BYTES :: nat where "MAX_RAW_BYTES = 384 * 1024"

text \<open>The stream that \<open>streamWorkspaceFile\<close> makes, pulled until it ends.\<close>

function stream_file :: "(nat \<Rightarrow> nat \<Rightarrow> ('w, read_bytes_result) io) \<Rightarrow> nat \<Rightarrow> nat \<Rightarrow> 'w \<Rightarrow> byte_stream \<times> 'w" where
  "stream_file read_at fileSize offset w =
     (if fileSize \<le> offset then (([], None), w)
      else
        (case read_at offset MAX_RAW_BYTES w of
           (Inl e, w1) \<Rightarrow> (([], Some e), w1)
         | (Inr r, w1) \<Rightarrow>
             if rb_size r \<noteq> fileSize \<or> rb_data r = []
             then (([], Some (service_err BACKEND_ERROR ''Workspace file changed during artifact export'')), w1)
             else if rb_eof r then (([rb_data r], None), w1)
             else
               (case stream_file read_at fileSize (offset + length (rb_data r)) w1 of
                  ((chunks, err), w2) \<Rightarrow> ((rb_data r # chunks, err), w2))))"
  by pat_completeness auto
termination
proof (relation "measure (\<lambda>(read_at, fileSize, offset, w). fileSize - offset)", goal_cases)
  case (2 read_at fileSize offset w x w1 r)
  then have "0 < length (rb_data r)" "offset < fileSize" by simp_all
  then show ?case by (simp del: length_greater_0_conv)
qed simp

declare stream_file.simps [simp del]

definition streamWorkspaceFile :: "'w tool_env \<Rightarrow> file_context \<Rightarrow> string \<Rightarrow> nat \<Rightarrow> 'w \<Rightarrow> byte_stream \<times> 'w" where
  "streamWorkspaceFile env cx path fileSize = stream_file (readBytes (sender env cx) path) fileSize 0"

definition put_workspace_file :: "'w tool_env \<Rightarrow> file_context \<Rightarrow> string \<Rightarrow> string \<Rightarrow> string option \<Rightarrow> nat
    \<Rightarrow> ('w daemon, artifact_ref) io" where
  "put_workspace_file env cx path mediaType filename fileSize s =
     (case streamWorkspaceFile env cx path fileSize (dm_agents s) of
        (source, w) \<Rightarrow>
          (case putStream (te_io env) (te_sha env) (te_root env) (te_uuid env) (b_threadId (cx_turn cx)) source
                  (Some mediaType) (Some (case filename of Some n \<Rightarrow> n | None \<Rightarrow> basename path))
                  (dm_fs s) (dm_db s) of
             (r, f, d) \<Rightarrow> (r, s\<lparr>dm_agents := w, dm_fs := f, dm_db := d\<rparr>)))"

definition not_a_file :: js_error where
  "not_a_file = service_err INVALID_ARGUMENT ''Only regular files can be exported as artifacts''"

definition exportWorkspaceArtifact :: "'w tool_env \<Rightarrow> file_context \<Rightarrow> string \<Rightarrow> string \<Rightarrow> string option
    \<Rightarrow> ('w daemon, artifact_ref) io" where
  "exportWorkspaceArtifact env cx path mediaType filename =
     io_bind (on_agents (agent_stat (sender env cx) path)) (\<lambda>stat.
     io_bind (io_require (fst_type stat = ET_file) not_a_file) (\<lambda>_.
       put_workspace_file env cx path mediaType filename (fst_size stat)))"

section \<open>Results of \<open>read\<close>\<close>

definition readAll :: "byte_stream \<Rightarrow> byte list res" where
  "readAll source = (case snd source of Some e \<Rightarrow> Inl e | None \<Rightarrow> Inr (concat (fst source)))"

text \<open>The object the \<open>read\<close> tool returns; \<open>None\<close> is a field it does not have.\<close>

record read_object =
  ro_path :: string
  ro_truncated :: bool
  ro_size :: "int option"
  ro_digest :: "digest option"
  ro_media_type :: "string option"
  ro_artifact :: "string option"
  ro_entries :: "file_entry list option"
  ro_is_directory :: "bool option"
  ro_lines :: "(int \<times> string) list option"
  ro_content :: "string option"
  ro_encoding :: "string option"
  ro_offset :: "int option"
  ro_next_offset :: "int option"
  ro_next_cursor :: "string option"

definition read_object :: "string \<Rightarrow> bool \<Rightarrow> read_object" where
  "read_object path truncated =
     \<lparr>ro_path = path, ro_truncated = truncated, ro_size = None, ro_digest = None, ro_media_type = None,
      ro_artifact = None, ro_entries = None, ro_is_directory = None, ro_lines = None, ro_content = None,
      ro_encoding = None, ro_offset = None, ro_next_offset = None, ro_next_cursor = None\<rparr>"

text \<open>The outer \<open>option\<close> is \<open>None\<close> where \<open>lineNumbers\<close> does not return.\<close>

definition workspaceReadResult :: "(string \<Rightarrow> number option) \<Rightarrow> string \<Rightarrow> file_read_result \<Rightarrow> read_arguments
    \<Rightarrow> read_object option" where
  "workspaceReadResult json path result args =
     (if fr_isDirectory result
      then Some ((read_object path (fr_truncated result))
        \<lparr>ro_entries := Some (case fr_entries result of Some es \<Rightarrow> es | None \<Rightarrow> []),
         ro_is_directory := Some True, ro_next_cursor := truthy (fr_nextCursor result)\<rparr>)
      else
        (let startLine = start_line json args (ra_ranges args);
             lines = (case fr_lines result of Some ls \<Rightarrow> ls | None \<Rightarrow> []);
             common = (read_object path (fr_truncated result))
               \<lparr>ro_size := map_option int (fr_size result), ro_digest := fr_digest result,
                ro_media_type := Some ''text/plain'', ro_next_offset := map_option int (fr_nextOffset result),
                ro_next_cursor := truthy (fr_nextCursor result)\<rparr>
         in case ra_ranges args of
              Some rs \<Rightarrow> map_option (\<lambda>ls. common\<lparr>ro_lines := Some ls\<rparr>) (lineNumbers lines startLine (Some rs))
            | None \<Rightarrow> Some (common\<lparr>ro_content := Some (concat lines), ro_offset := Some startLine\<rparr>)))"

section \<open>Reading an artifact\<close>

definition artifact_uri :: "digest \<Rightarrow> string" where
  "artifact_uri digest = ''artifact://'' @ digest"

definition artifact_object :: "artifact_ref \<Rightarrow> digest \<Rightarrow> bool \<Rightarrow> read_object" where
  "artifact_object artifact digest truncated =
     (read_object (artifact_uri digest) truncated)
       \<lparr>ro_artifact := Some (artifact_uri digest), ro_size := Some (af_sizeBytes artifact),
        ro_digest := Some digest, ro_media_type := Some (af_mediaType artifact)\<rparr>"

type_synonym artifact_opener = "(int \<times> int) option \<Rightarrow> opened_artifact res"

definition raw_artifact :: "artifact_opener \<Rightarrow> artifact_ref \<Rightarrow> digest \<Rightarrow> read_arguments \<Rightarrow> read_object res" where
  "raw_artifact open_at artifact digest args =
     (let offset = (case ra_offset args of Some n \<Rightarrow> n | None \<Rightarrow> 1) - 1;
          limit = min (case ra_limit args of Some n \<Rightarrow> n | None \<Rightarrow> 10000) (int MAX_RAW_BYTES)
      in bind_res (open_at (Some (offset, limit))) (\<lambda>opened.
         bind_res (readAll (oa_stream opened)) (\<lambda>bytes.
         (let stop = offset + int (length bytes); more = stop < af_sizeBytes artifact
          in Inr ((artifact_object artifact digest more)
               \<lparr>ro_content := Some (base64 bytes), ro_encoding := Some ''base64'',
                ro_offset := Some (offset + 1),
                ro_next_offset := (if more then Some (stop + 1) else None)\<rparr>)))))"

definition text_artifact :: "artifact_ref \<Rightarrow> digest \<Rightarrow> read_arguments \<Rightarrow> stream_lines_result \<Rightarrow> read_object option" where
  "text_artifact artifact digest args text =
     (let common = (artifact_object artifact digest (sl_nextLine text \<noteq> None))
            \<lparr>ro_next_cursor := map_option line_cursor (sl_nextLine text)\<rparr>
      in case ra_ranges args of
           Some rs \<Rightarrow> map_option (\<lambda>ls. common\<lparr>ro_lines := Some ls\<rparr>)
             (lineNumbers (sl_lines text) (sl_startLine text) (Some rs))
         | None \<Rightarrow> Some (common\<lparr>ro_content := Some (concat (sl_lines text)),
             ro_offset := Some (sl_startLine text), ro_next_offset := map_option int (sl_nextLine text)\<rparr>))"

definition PREFIX_BYTES :: nat where "PREFIX_BYTES = 8192"

definition readArtifact :: "'w tool_env \<Rightarrow> fs \<Rightarrow> db \<Rightarrow> string \<Rightarrow> digest \<Rightarrow> read_arguments
    \<Rightarrow> read_object option res" where
  "readArtifact env f d threadId digest args =
     bind_res (resolve_artifact f d threadId digest) (\<lambda>artifact.
     (let open_at = open_artifact (te_got env) f d threadId digest;
          no_text = Inr (Some (artifact_object artifact digest False))
      in if ra_raw args = Some True
         then bind_res (raw_artifact open_at artifact digest args) (\<lambda>x. Inr (Some x))
         else if \<not> isTextMediaType (af_mediaType artifact) then no_text
         else bind_res (open_at (Some (0, min (int PREFIX_BYTES) (af_sizeBytes artifact)))) (\<lambda>prefix.
           bind_res (readAll (oa_stream prefix)) (\<lambda>bytes.
             if looksBinary bytes then no_text
             else bind_res (streamArtifactLines (te_json env)
                      (\<lambda>_. bind_res (open_at None) (\<lambda>opened. Inr (oa_stream opened))) args) (\<lambda>text.
               case text of
                 None \<Rightarrow> no_text
               | Some t \<Rightarrow> Inr (text_artifact artifact digest args t))))))"

section \<open>The \<open>read\<close> tool\<close>

definition exported_object :: "string \<Rightarrow> artifact_ref \<Rightarrow> read_object" where
  "exported_object path artifact =
     (read_object path False)
       \<lparr>ro_artifact := Some (artifact_uri (af_digest artifact)), ro_size := Some (af_sizeBytes artifact),
        ro_digest := Some (af_digest artifact), ro_media_type := Some (af_mediaType artifact)\<rparr>"

definition digestBytes :: "(string \<Rightarrow> string) \<Rightarrow> byte list \<Rightarrow> digest" where
  "digestBytes sha bytes = digest_of sha (string_of bytes)"

definition raw_object :: "(string \<Rightarrow> string) \<Rightarrow> string \<Rightarrow> read_bytes_result \<Rightarrow> read_object" where
  "raw_object sha path raw =
     (read_object path (\<not> rb_eof raw))
       \<lparr>ro_content := Some (base64 (rb_data raw)), ro_encoding := Some ''base64'',
        ro_size := Some (int (rb_size raw)), ro_digest := Some (digestBytes sha (rb_data raw)),
        ro_offset := Some 1, ro_media_type := Some (mediaTypeForPath path True)\<rparr>"

text \<open>The four ways to read a path of the workspace: a directory, the bytes of a file, a file
  that is not text, and the lines of a file. The first two of them do not use every argument.\<close>

definition read_directory :: "'w tool_env \<Rightarrow> file_context \<Rightarrow> read_arguments \<Rightarrow> string
    \<Rightarrow> ('w daemon, read_object option) io" where
  "read_directory env cx args path =
     io_bind (on_agents (agent_read (te_jsonSize env) (sender env cx)
       \<lparr>ri_path = path, ri_offset = None, ri_limit = ra_limit args, ri_ranges = None,
        ri_cursor = truthy (ra_cursor args)\<rparr>)) (\<lambda>result.
       io_return (workspaceReadResult (te_json env) path result args))"

definition read_exported :: "'w tool_env \<Rightarrow> file_context \<Rightarrow> string \<Rightarrow> string \<Rightarrow> ('w daemon, read_object option) io" where
  "read_exported env cx path mediaType =
     io_bind (exportWorkspaceArtifact env cx path mediaType None) (\<lambda>artifact.
       io_return (Some (exported_object path artifact)))"

definition read_raw :: "'w tool_env \<Rightarrow> file_context \<Rightarrow> read_arguments \<Rightarrow> string \<Rightarrow> nat
    \<Rightarrow> ('w daemon, read_object option) io" where
  "read_raw env cx args path fileSize =
     (if int fileSize > (case ra_limit args of Some n \<Rightarrow> n | None \<Rightarrow> 10000)
      then read_exported env cx path (mediaTypeForPath path True)
      else io_bind (on_agents (readBytes (sender env cx) path 0
               (min (if fileSize = 0 then 1 else fileSize) MAX_RAW_BYTES))) (\<lambda>raw.
             io_return (Some (raw_object (te_sha env) path raw))))"

definition read_prefix :: "'w tool_env \<Rightarrow> file_context \<Rightarrow> string \<Rightarrow> nat \<Rightarrow> ('w daemon, read_bytes_result) io" where
  "read_prefix env cx path fileSize =
     on_agents (readBytes (sender env cx) path 0 (max 1 (min PREFIX_BYTES fileSize)))"

definition read_text :: "'w tool_env \<Rightarrow> file_context \<Rightarrow> read_arguments \<Rightarrow> string \<Rightarrow> nat
    \<Rightarrow> ('w daemon, read_object option) io" where
  "read_text env cx args path fileSize =
     io_bind (read_prefix env cx path fileSize) (\<lambda>prefix.
     (let mediaType = mediaTypeForPath path (looksBinary (rb_data prefix)) in
      if \<not> isTextMediaType mediaType then read_exported env cx path mediaType
      else io_bind (on_agents (agent_read (te_jsonSize env) (sender env cx)
             \<lparr>ri_path = path, ri_offset = ra_offset args, ri_limit = ra_limit args, ri_ranges = ra_ranges args,
              ri_cursor = truthy (ra_cursor args)\<rparr>)) (\<lambda>result.
             io_return (workspaceReadResult (te_json env) path result args))))"

definition read_workspace :: "'w tool_env \<Rightarrow> read_arguments \<Rightarrow> file_context \<Rightarrow> ('w daemon, read_object option) io" where
  "read_workspace env args cx =
     io_bind (io_res (normalizeWorkspacePath (ra_path args) True)) (\<lambda>path.
     io_bind (on_agents (agent_stat (sender env cx) path)) (\<lambda>stat.
       if fst_type stat = ET_directory then read_directory env cx args path
       else if ra_raw args = Some True then read_raw env cx args path (fst_size stat)
       else read_text env cx args path (fst_size stat)))"

definition handleRead :: "'w tool_env \<Rightarrow> read_arguments \<Rightarrow> ('w daemon, read_object option) io" where
  "handleRead env args =
     io_bind (io_res (requireTurn env)) (\<lambda>turn.
       case parseArtifactUri (ra_path args) of
         Some digest \<Rightarrow>
           (\<lambda>s. (readArtifact env (dm_fs s) (dm_db s) (b_threadId turn) digest args, s))
       | None \<Rightarrow>
           if starts_with ''artifact://'' (ra_path args)
           then io_throw (service_err INVALID_ARGUMENT ''Artifact URI is invalid'')
           else with_context env (read_workspace env args))"

end
