(* ===== verification/ToolCalls.thy ===== *)
theory ToolCalls
  imports Tools
begin

text \<open>
  The ten MCP tools (\<open>buildMcpServer\<close> in \<open>src/mcp/server.ts\<close>): their argument schemas, what
  each does, and how a thrown error becomes a tool error. \<open>call_tool\<close> gives \<open>None\<close> where the
  call does not return.
\<close>

section \<open>Arguments\<close>

record exec_args =
  xa_command :: string
  xa_workdir :: "string option"
  xa_tty :: "bool option"
  xa_yield_time_ms :: "int option"
  xa_timeout_ms :: "int option"
  xa_max_output_tokens :: "nat option"

record grep_args =
  ga_pattern :: string
  ga_paths :: "string list option"
  ga_cursor :: "string option"
  ga_limit :: "int option"
  ga_case_sensitive :: "bool option"
  ga_context_before :: "int option"
  ga_context_after :: "int option"
  ga_gitignore :: "bool option"

record glob_args =
  la_pattern :: string
  la_cursor :: "string option"
  la_limit :: "int option"
  la_gitignore :: "bool option"
  la_hidden :: "bool option"
  la_sort :: "sort_key option"

datatype tool_call =
    Shell_exec exec_args
  | Shell_write string string "int option" "nat option"
  | Shell_poll string "int option" "nat option"
  | Shell_kill string
  | Read read_arguments
  | Write string string "bool option"
  | Edit string string "file_edit list"
  | Glob glob_args
  | Grep grep_args
  | Move string string
  | Remove string
  | Artifact_export string "string option" "string option"
  | Artifact_materialize string string "bool option"

text \<open>The schemas. \<open>length\<close> of a JavaScript string counts UTF-16 units; \<open>is_uuid\<close> is the
  validator's test for a UUID.\<close>

definition utf16_units :: "char \<Rightarrow> nat" where
  "utf16_units c = (let n = of_char c :: nat in if n < 0x80 then 1 else if n < 0xC0 then 0 else if n < 0xF0 then 1 else 2)"

definition js_length :: "string \<Rightarrow> nat" where
  "js_length s = sum_list (map utf16_units s)"

definition chars_between :: "nat \<Rightarrow> nat \<Rightarrow> string \<Rightarrow> bool" where
  "chars_between a b s \<longleftrightarrow> a \<le> js_length s \<and> js_length s \<le> b"

definition int_between :: "int \<Rightarrow> int \<Rightarrow> int \<Rightarrow> bool" where
  "int_between a b n \<longleftrightarrow> a \<le> n \<and> n \<le> b"

definition given :: "('a \<Rightarrow> bool) \<Rightarrow> 'a option \<Rightarrow> bool" where
  "given P v = (case v of None \<Rightarrow> True | Some x \<Rightarrow> P x)"

abbreviation path_chars :: "string \<Rightarrow> bool" where
  "path_chars \<equiv> chars_between 1 4096"

definition exec_schema :: "exec_args \<Rightarrow> bool" where
  "exec_schema a \<longleftrightarrow>
     chars_between 1 (128 * 1024) (xa_command a) \<and> given (chars_between 0 4096) (xa_workdir a) \<and>
     given (int_between 250 30000) (xa_yield_time_ms a) \<and> given (int_between 0 86400000) (xa_timeout_ms a) \<and>
     given (\<lambda>n. 1 \<le> n \<and> n \<le> 262144) (xa_max_output_tokens a)"

definition range_schema :: "line_range \<Rightarrow> bool" where
  "range_schema r \<longleftrightarrow> 1 \<le> rg_start r \<and> 1 \<le> rg_end r"

definition read_schema :: "read_arguments \<Rightarrow> bool" where
  "read_schema a \<longleftrightarrow>
     path_chars (ra_path a) \<and> given (\<lambda>n. 1 \<le> n) (ra_offset a) \<and> given (int_between 1 10000) (ra_limit a) \<and>
     given (\<lambda>rs. length rs \<le> 10 \<and> list_all range_schema rs) (ra_ranges a) \<and>
     given (chars_between 0 1024) (ra_cursor a)"

definition edit_schema :: "string \<Rightarrow> string \<Rightarrow> file_edit list \<Rightarrow> bool" where
  "edit_schema path expected_digest edits \<longleftrightarrow>
     path_chars path \<and> is_digest expected_digest \<and> 1 \<le> length edits \<and> length edits \<le> 100 \<and>
     list_all (\<lambda>e. 1 \<le> ed_startLine e \<and> given (\<lambda>n. 1 \<le> n) (ed_endLine e)) edits"

definition glob_schema :: "glob_args \<Rightarrow> bool" where
  "glob_schema a \<longleftrightarrow>
     chars_between 1 1024 (la_pattern a) \<and> given (chars_between 0 1024) (la_cursor a) \<and>
     given (int_between 1 10000) (la_limit a)"

definition grep_schema :: "grep_args \<Rightarrow> bool" where
  "grep_schema a \<longleftrightarrow>
     chars_between 1 4096 (ga_pattern a) \<and>
     given (\<lambda>ps. length ps \<le> 50 \<and> list_all path_chars ps) (ga_paths a) \<and>
     given (chars_between 0 1024) (ga_cursor a) \<and> given (int_between 1 10000) (ga_limit a) \<and>
     given (int_between 0 10) (ga_context_before a) \<and> given (int_between 0 10) (ga_context_after a)"

fun valid_call :: "(string \<Rightarrow> bool) \<Rightarrow> tool_call \<Rightarrow> bool" where
  "valid_call is_uuid (Shell_exec a) = exec_schema a"
| "valid_call is_uuid (Shell_write sid chars yield_time tokens) =
     (is_uuid sid \<and> chars_between 0 (64 * 1024) chars \<and> given (int_between 250 300000) yield_time \<and>
      given (\<lambda>n. 1 \<le> n \<and> n \<le> 262144) tokens)"
| "valid_call is_uuid (Shell_poll sid yield_time tokens) =
     (is_uuid sid \<and> given (int_between 5000 300000) yield_time \<and> given (\<lambda>n. 1 \<le> n \<and> n \<le> 262144) tokens)"
| "valid_call is_uuid (Shell_kill sid) = is_uuid sid"
| "valid_call is_uuid (Read a) = read_schema a"
| "valid_call is_uuid (Write path content create_parents) =
     (path_chars path \<and> chars_between 0 (10 * 1024 * 1024) content)"
| "valid_call is_uuid (Edit path expected_digest edits) = edit_schema path expected_digest edits"
| "valid_call is_uuid (Glob a) = glob_schema a"
| "valid_call is_uuid (Grep a) = grep_schema a"
| "valid_call is_uuid (Move source destination) = (path_chars source \<and> path_chars destination)"
| "valid_call is_uuid (Remove path) = path_chars path"
| "valid_call is_uuid (Artifact_export path media_type filename) =
     (path_chars path \<and> given (chars_between 1 256) media_type \<and> given (chars_between 1 255) filename)"
| "valid_call is_uuid (Artifact_materialize artifact path create_parents) =
     (parseArtifactUri artifact \<noteq> None \<and> path_chars path)"

section \<open>Results\<close>

datatype tool_value =
    Shell_value shell_result
  | Read_value read_object
  | Write_value string nat digest
  | Edit_value string nat nat digest
  | Glob_value file_glob_result
  | Grep_value file_grep_result
  | Move_value string string
  | Remove_value string
  | Export_value string digest int string

datatype tool_answer =
    Tool_success tool_value
  | Tool_error error_code string "error_details option"

fun toolError :: "js_error \<Rightarrow> tool_answer" where
  "toolError (ServiceError c m det) = Tool_error c m det"
| "toolError (PlainError m) = Tool_error BACKEND_ERROR m None"

section \<open>\<open>trim\<close> and \<open>split(';')\<close>\<close>

text \<open>The UTF-8 encodings of the characters that \<open>trim\<close> removes.\<close>

definition js_spaces :: "string list" where
  "js_spaces =
     [[CHR 0x09], [CHR 0x0A], [CHR 0x0B], [CHR 0x0C], [CHR 0x0D], [CHR 0x20], [CHR 0xC2, CHR 0xA0],
      [CHR 0xE1, CHR 0x9A, CHR 0x80]] @
     map (\<lambda>c. [CHR 0xE2, CHR 0x80, c])
       [CHR 0x80, CHR 0x81, CHR 0x82, CHR 0x83, CHR 0x84, CHR 0x85, CHR 0x86, CHR 0x87, CHR 0x88, CHR 0x89,
        CHR 0x8A, CHR 0xA8, CHR 0xA9, CHR 0xAF] @
     [[CHR 0xE2, CHR 0x81, CHR 0x9F], [CHR 0xE3, CHR 0x80, CHR 0x80], [CHR 0xEF, CHR 0xBB, CHR 0xBF]]"

fun trim_with :: "nat \<Rightarrow> string list \<Rightarrow> string \<Rightarrow> string" where
  "trim_with 0 spaces s = s"
| "trim_with (Suc n) spaces s =
     (case find (\<lambda>w. starts_with w s) spaces of None \<Rightarrow> s | Some w \<Rightarrow> trim_with n spaces (drop (length w) s))"

definition trim :: "string \<Rightarrow> string" where
  "trim s =
     (let left = trim_with (length s) js_spaces s
      in rev (trim_with (length left) (map rev js_spaces) (rev left)))"

fun map_res :: "('a \<Rightarrow> 'b res) \<Rightarrow> 'a list \<Rightarrow> 'b list res" where
  "map_res f [] = Inr []"
| "map_res f (x # xs) = bind_res (f x) (\<lambda>y. bind_res (map_res f xs) (\<lambda>ys. Inr (y # ys)))"

definition glob_patterns :: "string \<Rightarrow> string list res" where
  "glob_patterns pattern =
     bind_res (map_res normalizeWorkspacePattern
       (filter (\<lambda>p. p \<noteq> '''') (map trim (split_on (CHR '';'') pattern)))) (\<lambda>patterns.
     if patterns = [] then Inl (service_err INVALID_ARGUMENT ''Glob pattern is empty'') else Inr patterns)"

section \<open>The tools\<close>

definition or_else :: "'a \<Rightarrow> 'a option \<Rightarrow> 'a" where
  "or_else x v = (case v of None \<Rightarrow> x | Some y \<Rightarrow> y)"

definition shell_exec :: "'w tool_env \<Rightarrow> bound_turn \<Rightarrow> exec_args \<Rightarrow> ('w daemon, shell_result) io" where
  "shell_exec env turn a =
     io_bind (io_res (normalizeWorkspacePath (or_else ''/workspace'' (xa_workdir a)) True)) (\<lambda>workdir.
     on_sessions (exec (te_decode env) (te_sessions env) (te_now env) (te_started env)
       (te_executionId env) (te_sessionId env)
       \<lparr>xq_instanceId = b_instanceId turn, xq_command = xa_command a,
        xq_workdir = Some (if workdir = '''' then ''/workspace'' else ''/workspace/'' @ workdir),
        xq_tty = xa_tty a, xq_yieldTimeMs = or_else 10000 (xa_yield_time_ms a),
        xq_timeoutMs = or_else 0 (xa_timeout_ms a), xq_maxOutputTokens = xa_max_output_tokens a\<rparr>))"

text \<open>A tool that answers with a value, and one that may not return.\<close>

definition answers :: "('a \<Rightarrow> tool_value) \<Rightarrow> ('w daemon, 'a) io \<Rightarrow> ('w daemon, tool_value option) io" where
  "answers f m = io_bind m (\<lambda>x. io_return (Some (f x)))"

definition shell_tool :: "'w tool_env \<Rightarrow> (bound_turn \<Rightarrow> ('w daemon, shell_result) io)
    \<Rightarrow> ('w daemon, tool_value option) io" where
  "shell_tool env f = answers Shell_value (io_bind (io_res (requireTurn env)) f)"

definition write_tool :: "'w tool_env \<Rightarrow> string \<Rightarrow> string \<Rightarrow> bool option \<Rightarrow> file_context
    \<Rightarrow> ('w daemon, tool_value) io" where
  "write_tool env path content create_parents cx =
     io_bind (io_res (normalizeWorkspacePath path False)) (\<lambda>path.
     io_bind (on_agents (agent_write (sender env cx) (te_transferId env) path (or_else False create_parents)
       ([bytes_of content], None))) (\<lambda>result.
     io_return (Write_value path (fw_size result) (fw_digest result))))"

definition edit_tool :: "'w tool_env \<Rightarrow> string \<Rightarrow> digest \<Rightarrow> file_edit list \<Rightarrow> file_context
    \<Rightarrow> ('w daemon, tool_value) io" where
  "edit_tool env path expected_digest edits cx =
     io_bind (io_res (normalizeWorkspacePath path False)) (\<lambda>path.
     io_bind (on_agents (agent_edit (sender env cx) path expected_digest edits)) (\<lambda>result.
     io_return (Edit_value path (ef_linesBefore result) (ef_linesAfter result) (ef_digest result))))"

definition glob_tool :: "'w tool_env \<Rightarrow> glob_args \<Rightarrow> file_context \<Rightarrow> ('w daemon, tool_value) io" where
  "glob_tool env a cx =
     io_bind (io_res (glob_patterns (la_pattern a))) (\<lambda>patterns.
     io_bind (on_agents (agent_glob (te_jsonSize env) (sender env cx)
       \<lparr>gi_patterns = patterns, gi_limit = la_limit a, gi_cursor = truthy (la_cursor a),
        gi_gitignore = la_gitignore a, gi_hidden = la_hidden a, gi_sort = la_sort a\<rparr>)) (\<lambda>result.
     io_return (Glob_value result)))"

definition grep_paths :: "string list option \<Rightarrow> string list option res" where
  "grep_paths paths =
     (case paths of
        None \<Rightarrow> Inr None
      | Some ps \<Rightarrow> bind_res (map_res (\<lambda>p. normalizeWorkspacePath p True) ps) (\<lambda>qs. Inr (Some qs)))"

definition grep_tool :: "'w tool_env \<Rightarrow> grep_args \<Rightarrow> file_context \<Rightarrow> ('w daemon, tool_value) io" where
  "grep_tool env a cx =
     io_bind (io_res (grep_paths (ga_paths a))) (\<lambda>paths.
     io_bind (on_agents (agent_grep (te_jsonSize env) (sender env cx)
       \<lparr>gr_pattern = ga_pattern a, gr_paths = paths, gr_limit = ga_limit a, gr_cursor = truthy (ga_cursor a),
        gr_caseSensitive = ga_case_sensitive a, gr_contextBefore = ga_context_before a,
        gr_contextAfter = ga_context_after a, gr_gitignore = ga_gitignore a\<rparr>)) (\<lambda>result.
     io_return (Grep_value result)))"

definition move_tool :: "'w tool_env \<Rightarrow> string \<Rightarrow> string \<Rightarrow> file_context \<Rightarrow> ('w daemon, tool_value) io" where
  "move_tool env source destination cx =
     io_bind (io_res (normalizeWorkspacePath source False)) (\<lambda>source.
     io_bind (io_res (normalizeWorkspacePath destination False)) (\<lambda>destination.
     io_bind (on_agents (agent_move (sender env cx) source destination)) (\<lambda>_.
     io_return (Move_value source destination))))"

definition remove_tool :: "'w tool_env \<Rightarrow> string \<Rightarrow> file_context \<Rightarrow> ('w daemon, tool_value) io" where
  "remove_tool env path cx =
     io_bind (io_res (normalizeWorkspacePath path False)) (\<lambda>path.
     io_bind (on_agents (agent_remove (sender env cx) path)) (\<lambda>_.
     io_return (Remove_value path)))"

definition export_tool :: "'w tool_env \<Rightarrow> string \<Rightarrow> string option \<Rightarrow> string option \<Rightarrow> file_context
    \<Rightarrow> ('w daemon, tool_value) io" where
  "export_tool env path media_type filename cx =
     io_bind (io_res (normalizeWorkspacePath path False)) (\<lambda>path.
     io_bind (on_agents (agent_stat (sender env cx) path)) (\<lambda>stat.
     io_bind (io_require (fst_type stat = ET_file) not_a_file) (\<lambda>_.
     io_bind (read_prefix env cx path (fst_size stat)) (\<lambda>prefix.
     io_bind (exportWorkspaceArtifact env cx path
       (or_else (mediaTypeForPath path (looksBinary (rb_data prefix))) media_type) filename) (\<lambda>artifact.
     io_return (Export_value (artifact_uri (af_digest artifact)) (af_digest artifact) (af_sizeBytes artifact)
       (af_mediaType artifact)))))))"

definition materialize_tool :: "'w tool_env \<Rightarrow> string \<Rightarrow> string \<Rightarrow> bool option \<Rightarrow> file_context
    \<Rightarrow> ('w daemon, tool_value) io" where
  "materialize_tool env artifact path create_parents cx =
     (case parseArtifactUri artifact of
        None \<Rightarrow> io_throw (service_err INVALID_ARGUMENT ''Artifact URI is invalid'')
      | Some digest \<Rightarrow>
          io_bind (io_res (normalizeWorkspacePath path False)) (\<lambda>path.
          io_bind (\<lambda>s. (open_artifact (te_got env) (dm_fs s) (dm_db s) (b_threadId (cx_turn cx)) digest None, s)) (\<lambda>opened.
          io_bind (on_agents (agent_write (sender env cx) (te_transferId env) path (or_else False create_parents)
            (oa_stream opened))) (\<lambda>result.
          io_return (Write_value path (fw_size result) (fw_digest result))))))"

text \<open>The file tools start from the runtime of the turn.\<close>

definition file_tool :: "'w tool_env \<Rightarrow> (file_context \<Rightarrow> ('w daemon, tool_value) io) \<Rightarrow> ('w daemon, tool_value option) io" where
  "file_tool env f = answers id (with_context env f)"

fun run_tool :: "'w tool_env \<Rightarrow> tool_call \<Rightarrow> ('w daemon, tool_value option) io" where
  "run_tool env (Shell_exec a) = shell_tool env (\<lambda>turn. shell_exec env turn a)"
| "run_tool env (Shell_poll sid yield_time tokens) = shell_tool env (\<lambda>turn. on_sessions
     (poll (te_decode env) (te_sessions env) (te_now env) (b_instanceId turn) sid (or_else 10000 yield_time) tokens))"
| "run_tool env (Shell_write sid chars yield_time tokens) = shell_tool env (\<lambda>turn. on_sessions
     (write_session (te_decode env) (te_sessions env) (te_now env) (b_instanceId turn) sid chars
       (or_else 10000 yield_time) tokens))"
| "run_tool env (Shell_kill sid) = shell_tool env (\<lambda>turn. on_sessions
     (kill (te_decode env) (te_sessions env) (te_now env) (b_instanceId turn) sid))"
| "run_tool env (Read args) =
     io_bind (handleRead env args) (\<lambda>object. io_return (map_option Read_value object))"
| "run_tool env (Write path content create_parents) = file_tool env (write_tool env path content create_parents)"
| "run_tool env (Edit path expected_digest edits) = file_tool env (edit_tool env path expected_digest edits)"
| "run_tool env (Glob a) = file_tool env (glob_tool env a)"
| "run_tool env (Grep a) = file_tool env (grep_tool env a)"
| "run_tool env (Move source destination) = file_tool env (move_tool env source destination)"
| "run_tool env (Remove path) = file_tool env (remove_tool env path)"
| "run_tool env (Artifact_export path media_type filename) = file_tool env (export_tool env path media_type filename)"
| "run_tool env (Artifact_materialize artifact path create_parents) =
     file_tool env (materialize_tool env artifact path create_parents)"

definition call_tool :: "'w tool_env \<Rightarrow> tool_call \<Rightarrow> 'w daemon \<Rightarrow> tool_answer option \<times> 'w daemon" where
  "call_tool env c s =
     (case run_tool env c s of
        (Inl e, s1) \<Rightarrow> (Some (toolError e), s1)
      | (Inr v, s1) \<Rightarrow> (map_option Tool_success v, s1))"

end
