(* ===== verification/Http.thy ===== *)
theory Http
  imports ToolCalls System
begin

text \<open>
  The HTTP server of the daemon (\<open>src/daemon/http.ts\<close>): the authentication of a request, the
  reading of its body, the four routes that change state and the lease that an MCP tool call
  holds on its turn. The router, the MCP protocol handler and \<open>JSON.parse\<close> are parameters.
\<close>

section \<open>Requests\<close>

text \<open>A JSON value; the fields of an object have distinct names.\<close>

datatype json =
    J_null
  | J_bool bool
  | J_number number
  | J_string string
  | J_array "json list"
  | J_object "(string \<times> json) list"

text \<open>A request: its method, its headers by lower-case name, and its body.\<close>

record http_request =
  hr_method :: string
  hr_headers :: "string \<Rightarrow> string option"
  hr_body :: "byte list"

text \<open>The routes, with the path parameters as the router hands them over.\<close>

datatype route =
    R_health
  | R_start string string
  | R_finish string string
  | R_fork string string
  | R_mcp
  | R_other

datatype http_body =
    Error_body error_code string "error_details option"
  | Rpc_error json error_code string "error_details option"
  | Health_body string bool host_probe host_probe
  | Turn_body turn_view
  | Fork_body string string digest

text \<open>A JSON response with its status, or what the MCP handler returned.\<close>

datatype 'm http_response = Json nat http_body | Handled 'm

fun errorResponse :: "js_error \<Rightarrow> 'm http_response" where
  "errorResponse (ServiceError c m det) = Json (statusByCode c) (Error_body c m det)"
| "errorResponse (PlainError m) = Json 500 (Error_body BACKEND_ERROR m None)"

fun jsonRpcTurnError :: "json \<Rightarrow> js_error \<Rightarrow> 'm http_response" where
  "jsonRpcTurnError rid (ServiceError c m det) = Json 400 (Rpc_error rid c m det)"
| "jsonRpcTurnError rid (PlainError m) = Json 400 (Rpc_error rid BACKEND_ERROR m None)"

section \<open>Authentication\<close>

definition bearer :: string where "bearer = ''Bearer ''"

definition requireAuth :: "http_request \<Rightarrow> string option \<Rightarrow> unit res" where
  "requireAuth q expectedToken =
     (case truthy expectedToken of
        None \<Rightarrow> Inl (service_err AUTH_REQUIRED ''Harness authentication is not configured'')
      | Some expected \<Rightarrow>
     (case truthy (hr_headers q ''authorization'') of
        None \<Rightarrow> Inl (service_err AUTH_REQUIRED ''Bearer authentication is required'')
      | Some authorization \<Rightarrow>
          if js_length authorization > 8192 \<or> \<not> starts_with bearer authorization
          then Inl (service_err AUTH_REQUIRED ''Bearer authentication is required'')
          else
            (let provided = drop (length bearer) authorization in
             if provided = '''' then Inl (service_err AUTH_REQUIRED ''Bearer authentication is required'')
             else if length expected \<noteq> length provided
             then Inl (service_err FORBIDDEN ''Bearer token is invalid'')
             else if bytes_of expected \<noteq> bytes_of provided
             then Inl (service_err FORBIDDEN ''Bearer token is invalid'')
             else Inr ())))"

section \<open>Identifiers\<close>

definition hex_digit :: "char \<Rightarrow> nat option" where
  "hex_digit c = (let n = of_char c :: nat in
     if 48 \<le> n \<and> n \<le> 57 then Some (n - 48)
     else if 65 \<le> n \<and> n \<le> 70 then Some (n - 55)
     else if 97 \<le> n \<and> n \<le> 102 then Some (n - 87)
     else None)"

text \<open>\<open>decodeURIComponent\<close>: the bytes of the percent escapes, which have to be UTF-8.\<close>

fun percent_bytes :: "string \<Rightarrow> byte list option" where
  "percent_bytes [] = Some []"
| "percent_bytes (c # s) =
     (if c = CHR ''%''
      then (case s of
              a # b # t \<Rightarrow>
                (case (hex_digit a, hex_digit b) of
                   (Some x, Some y) \<Rightarrow> map_option ((#) (word_of_nat (16 * x + y))) (percent_bytes t)
                 | _ \<Rightarrow> None)
            | _ \<Rightarrow> None)
      else map_option ((@) (bytes_of [c])) (percent_bytes s))"

definition decodeURIComponent :: "string \<Rightarrow> string option" where
  "decodeURIComponent s =
     (case percent_bytes s of
        None \<Rightarrow> None
      | Some bs \<Rightarrow> if utf8_valid bs then Some (string_of bs) else None)"

definition decodedIdentifier :: "string \<Rightarrow> string \<Rightarrow> string res" where
  "decodedIdentifier name v =
     (case decodeURIComponent v of
        None \<Rightarrow> Inl (service_err INVALID_ARGUMENT (name @ '' is not valid URL encoding''))
      | Some decoded \<Rightarrow>
          if valid_identifier decoded then Inr decoded
          else Inl (service_err INVALID_ARGUMENT (name @ '' is invalid'')))"

section \<open>Bodies\<close>

definition field :: "json \<Rightarrow> string \<Rightarrow> json option" where
  "field v name = (case v of J_object fs \<Rightarrow> map_of fs name | _ \<Rightarrow> None)"

text \<open>\<open>z.object({...}).strict()\<close>: an object without other keys.\<close>

definition strict_object :: "string list \<Rightarrow> json \<Rightarrow> bool" where
  "strict_object names v = (case v of J_object fs \<Rightarrow> list_all (\<lambda>f. fst f \<in> set names) fs | _ \<Rightarrow> False)"

text \<open>\<open>z.number().int().min(a).max(b)\<close> and \<open>z.enum([...])\<close> on a field; the result is \<open>None\<close> where
  the validation fails.\<close>

definition int_field :: "json \<Rightarrow> string \<Rightarrow> int \<Rightarrow> int \<Rightarrow> int option" where
  "int_field v name a b =
     (case field v name of
        Some (J_number (Num n)) \<Rightarrow> if a \<le> n \<and> n \<le> b then Some n else None
      | _ \<Rightarrow> None)"

definition enum_value :: "(string \<times> 'a) list \<Rightarrow> json \<Rightarrow> 'a option" where
  "enum_value names v = (case v of J_string s \<Rightarrow> map_of names s | _ \<Rightarrow> None)"

text \<open>\<open>.optional()\<close>.\<close>

definition optional_field :: "(json \<Rightarrow> 'a option) \<Rightarrow> json \<Rightarrow> string \<Rightarrow> 'a option option" where
  "optional_field parse v name = (case field v name of None \<Rightarrow> Some None | Some x \<Rightarrow> map_option Some (parse x))"

definition profile_schema :: "json \<Rightarrow> resource_profile option" where
  "profile_schema v =
     (if \<not> strict_object [''memoryMiB'', ''vcpus'', ''diskMiB'', ''pidsMax'', ''timeoutMs''] v then None
      else Option.bind (int_field v ''memoryMiB'' 64 8192) (\<lambda>memory.
        Option.bind (int_field v ''vcpus'' 1 8) (\<lambda>cpus.
        Option.bind (int_field v ''diskMiB'' 64 16384) (\<lambda>disk.
        Option.bind (int_field v ''pidsMax'' 16 1024) (\<lambda>pids.
        Option.bind (int_field v ''timeoutMs'' 0 86400000) (\<lambda>timeout.
          Some \<lparr>memoryMiB = memory, vcpus = cpus, diskMiB = disk, pidsMax = pids, timeoutMs = timeout\<rparr>))))))"

record start_body =
  sy_mode :: sandbox_kind
  sy_backend :: "backend option"
  sy_network :: "network_profile option"
  sy_resourceProfile :: "resource_profile option"

definition startTurnSchema :: "json \<Rightarrow> start_body option" where
  "startTurnSchema v =
     (if \<not> strict_object [''mode'', ''backend'', ''network'', ''resourceProfile''] v then None
      else Option.bind (Option.bind (field v ''mode'')
             (enum_value [(''instant'', Instant), (''durable'', Durable)])) (\<lambda>mode.
        Option.bind (optional_field (enum_value [(''docker'', Docker), (''firecracker'', Firecracker)]) v ''backend'')
          (\<lambda>backend.
        Option.bind (optional_field (enum_value [(''none'', Net_none), (''egress'', Net_egress)]) v ''network'')
          (\<lambda>network.
        Option.bind (optional_field profile_schema v ''resourceProfile'') (\<lambda>profile.
          Some \<lparr>sy_mode = mode, sy_backend = backend, sy_network = network, sy_resourceProfile = profile\<rparr>)))))"

definition digest_value :: "json \<Rightarrow> digest option" where
  "digest_value v = (case v of J_string s \<Rightarrow> if is_digest s then Some s else None | _ \<Rightarrow> None)"

definition harnessForkSchema :: "json \<Rightarrow> digest option option" where
  "harnessForkSchema v =
     (if strict_object [''commitId''] v then optional_field digest_value v ''commitId'' else None)"

text \<open>\<open>Request.text()\<close>, which drops a byte order mark.\<close>

definition request_text :: "http_request \<Rightarrow> string" where
  "request_text q = utf8_string (strip_bom (hr_body q))"

definition body :: "(string \<Rightarrow> json option) \<Rightarrow> http_request \<Rightarrow> (json \<Rightarrow> 'a option) \<Rightarrow> 'a res" where
  "body parse q schema =
     (case parse (request_text q) of
        None \<Rightarrow> Inl (service_err INVALID_ARGUMENT ''Request body must be valid JSON'')
      | Some v \<Rightarrow>
          (case schema v of
             None \<Rightarrow> Inl (ServiceError INVALID_ARGUMENT ''Request validation failed'' (Some ValidationIssues))
           | Some x \<Rightarrow> Inr x))"

definition noBody :: "http_request \<Rightarrow> unit res" where
  "noBody q = ensure_res (request_text q = '''')
     (service_err INVALID_ARGUMENT ''Request body must be empty'') ()"

section \<open>The envelope of an MCP request\<close>

record envelope =
  ev_method :: "string option"
  ev_id :: json

text \<open>The values of a body that are JavaScript objects; arrays are.\<close>

definition is_js_object :: "json \<Rightarrow> bool" where
  "is_js_object v = (case v of J_object _ \<Rightarrow> True | J_array _ \<Rightarrow> True | _ \<Rightarrow> False)"

definition messages_of :: "json option \<Rightarrow> json list" where
  "messages_of value =
     filter is_js_object (case value of None \<Rightarrow> [] | Some (J_array vs) \<Rightarrow> vs | Some v \<Rightarrow> [v])"

definition body_method :: "json list \<Rightarrow> string option" where
  "body_method objects =
     (if list_ex (\<lambda>m. field m ''method'' = Some (J_string ''tools/call'')) objects then Some ''tools/call''
      else (case find (\<lambda>m. case field m ''method'' of Some (J_string _) \<Rightarrow> True | _ \<Rightarrow> False) objects of
              Some m \<Rightarrow> (case field m ''method'' of Some (J_string s) \<Rightarrow> Some s | _ \<Rightarrow> None)
            | None \<Rightarrow> None))"

definition body_id :: "json list \<Rightarrow> json" where
  "body_id objects =
     (case objects of
        [m] \<Rightarrow> (case field m ''id'' of
                  Some (J_string s) \<Rightarrow> J_string s | Some (J_number n) \<Rightarrow> J_number n | _ \<Rightarrow> J_null)
      | _ \<Rightarrow> J_null)"

definition inspectMcpRequest :: "(string \<Rightarrow> json option) \<Rightarrow> http_request \<Rightarrow> envelope" where
  "inspectMcpRequest parse q =
     (let header = hr_headers q ''mcp-method'';
          empty = hr_method q = ''GET'' \<or> hr_method q = ''HEAD'' \<or> hr_body q = [];
          value = (if empty then None else parse (utf8_string (hr_body q)))
      in if \<not> empty \<and> value = None then \<lparr>ev_method = truthy header, ev_id = J_null\<rparr>
         else
           (let objects = messages_of value in
            \<lparr>ev_method = truthy (case header of Some m \<Rightarrow> Some m | None \<Rightarrow> body_method objects),
             ev_id = body_id objects\<rparr>))"

section \<open>The server\<close>

record 'w server =
  sv_turns :: turn_service
  sv_daemon :: "'w daemon"

text \<open>
  The configuration, the probes of the start-up, what lies outside the server, and the random ids
  and clock readings of the request. \<open>he_handler\<close> is the MCP handler: it gets the turn that the
  server factory found for the request.
\<close>

record ('w, 'm) http_env =
  he_token :: "string option"
  he_storageReady :: bool
  he_docker :: host_probe
  he_firecracker :: host_probe
  he_parse :: "string \<Rightarrow> json option"
  he_ex :: externals
  he_sb :: sandbox_service
  he_sessions :: session_backend
  he_handler :: "bound_turn option \<Rightarrow> http_request \<Rightarrow> ('w daemon, 'm) io"
  he_now :: int
  he_later :: int
  he_instanceId :: string
  he_workspaceId :: string
  he_leaseId :: string

abbreviation with_db :: "'w server \<Rightarrow> turn_service \<Rightarrow> db \<Rightarrow> 'w server" where
  "with_db sv ts d \<equiv> sv\<lparr>sv_turns := ts, sv_daemon := (sv_daemon sv)\<lparr>dm_db := d\<rparr>\<rparr>"

definition answer_with :: "nat \<Rightarrow> ('a \<Rightarrow> http_body) \<Rightarrow> 'a res \<Rightarrow> 'm http_response" where
  "answer_with status f r = (case r of Inl e \<Rightarrow> errorResponse e | Inr x \<Rightarrow> Json status (f x))"

section \<open>The harness routes\<close>

definition turn_params :: "('w, 'm) http_env \<Rightarrow> http_request \<Rightarrow> string \<Rightarrow> string \<Rightarrow> (string \<times> string) res" where
  "turn_params env q tid uid =
     bind_res (requireAuth q (he_token env)) (\<lambda>_.
     bind_res (decodedIdentifier ''threadId'' tid) (\<lambda>threadId.
     bind_res (decodedIdentifier ''turnId'' uid) (\<lambda>turnId. Inr (threadId, turnId))))"

definition start_params :: "('w, 'm) http_env \<Rightarrow> http_request \<Rightarrow> string \<Rightarrow> string \<Rightarrow> start_input res" where
  "start_params env q tid uid =
     bind_res (turn_params env q tid uid) (\<lambda>(threadId, turnId).
     bind_res (body (he_parse env) q startTurnSchema) (\<lambda>b.
       Inr \<lparr>si_threadId = threadId, si_turnId = turnId, si_mode = sy_mode b, si_backend = sy_backend b,
            si_network = sy_network b, si_resourceProfile = sy_resourceProfile b\<rparr>))"

definition start_route :: "('w, 'm) http_env \<Rightarrow> http_request \<Rightarrow> string \<Rightarrow> string \<Rightarrow> 'w server
    \<Rightarrow> 'm http_response \<times> 'w server" where
  "start_route env q tid uid sv =
     (case start_params env q tid uid of
        Inl e \<Rightarrow> (errorResponse e, sv)
      | Inr inp \<Rightarrow>
          (case start (he_ex env) (he_sb env) inp (he_instanceId env) (he_workspaceId env) (he_now env)
                  (he_later env) (sv_turns sv) (dm_db (sv_daemon sv)) of
             (r, ts, d) \<Rightarrow> (answer_with 201 Turn_body r, with_db sv ts d)))"

text \<open>The session manager after the \<open>closeInstance\<close> that \<open>finishOpen\<close> starts with.\<close>

definition closed_sessions :: "('w, 'm) http_env \<Rightarrow> turn_service \<Rightarrow> string \<Rightarrow> string \<Rightarrow> 'w daemon \<Rightarrow> session_manager" where
  "closed_sessions env ts threadId turnId dm =
     (case finish_begin ts threadId turnId (dm_db dm) of
        (Finish_runs r, _, d) \<Rightarrow>
          (case truthy (t_instanceId r) of
             None \<Rightarrow> dm_sessions dm
           | Some iid \<Rightarrow> fst (snd (closeInstance (he_sessions env) (he_now env) iid (dm_sessions dm) d)))
      | _ \<Rightarrow> dm_sessions dm)"

text \<open>\<open>None\<close>: the request waits for a lease of the turn.\<close>

definition finish_route :: "('w, 'm) http_env \<Rightarrow> http_request \<Rightarrow> string \<Rightarrow> string \<Rightarrow> 'w server
    \<Rightarrow> 'm http_response option \<times> 'w server" where
  "finish_route env q tid uid sv =
     (case bind_res (turn_params env q tid uid) (\<lambda>ids. bind_res (noBody q) (\<lambda>_. Inr ids)) of
        Inl e \<Rightarrow> (Some (errorResponse e), sv)
      | Inr (threadId, turnId) \<Rightarrow>
          (let dm = sv_daemon sv; cl = closer (he_sessions env) (he_now env) (dm_sessions dm) in
           case finish (he_ex env) (he_sb env) cl threadId turnId (he_later env) (sv_turns sv) (dm_db dm) of
             (r, ts, d) \<Rightarrow>
               (map_option (answer_with 200 Turn_body) r,
                sv\<lparr>sv_turns := ts,
                   sv_daemon := dm\<lparr>dm_db := d,
                     dm_sessions := closed_sessions env (sv_turns sv) threadId turnId dm\<rparr>\<rparr>)))"

definition fork_params :: "('w, 'm) http_env \<Rightarrow> http_request \<Rightarrow> string \<Rightarrow> string
    \<Rightarrow> (string \<times> string \<times> digest option) res" where
  "fork_params env q src dst =
     bind_res (requireAuth q (he_token env)) (\<lambda>_.
     bind_res (decodedIdentifier ''sourceThreadId'' src) (\<lambda>source.
     bind_res (decodedIdentifier ''destinationThreadId'' dst) (\<lambda>destination.
     bind_res (body (he_parse env) q harnessForkSchema) (\<lambda>commitId. Inr (source, destination, commitId)))))"

definition fork_route :: "('w, 'm) http_env \<Rightarrow> http_request \<Rightarrow> string \<Rightarrow> string \<Rightarrow> 'w server
    \<Rightarrow> 'm http_response \<times> 'w server" where
  "fork_route env q src dst sv =
     (case fork_params env q src dst of
        Inl e \<Rightarrow> (errorResponse e, sv)
      | Inr (source, destination, commitId) \<Rightarrow>
          (case fork (sv_turns sv) source destination commitId (he_workspaceId env) (dm_db (sv_daemon sv)) of
             (r, d) \<Rightarrow> (answer_with 201 (\<lambda>(t, w, h). Fork_body t w h) r, with_db sv (sv_turns sv) d)))"

section \<open>The MCP route\<close>

definition lease_header :: string where "lease_header = ''electrosphere-internal-lease-id''"

text \<open>The server factory of the MCP handler: the turn of the lease the request carries.\<close>

definition mcp_turn :: "turn_service \<Rightarrow> http_request \<Rightarrow> bound_turn option" where
  "mcp_turn ts q = Option.bind (truthy (hr_headers q lease_header)) (resolveLease ts)"

definition tool_lease :: "('w, 'm) http_env \<Rightarrow> http_request \<Rightarrow> 'w server \<Rightarrow> (turn_lease \<times> turn_service) res" where
  "tool_lease env q sv =
     (case (truthy (hr_headers q ''electrosphere-thread-id''), truthy (hr_headers q ''electrosphere-turn-id'')) of
        (Some threadId, Some turnId) \<Rightarrow>
          if \<not> valid_identifier threadId \<or> \<not> valid_identifier turnId
          then Inl (service_err INVALID_ARGUMENT ''Electrosphere thread or turn header is invalid'')
          else acquire (sv_turns sv) (dm_db (sv_daemon sv)) threadId turnId (he_leaseId env)
      | _ \<Rightarrow> Inl (service_err INVALID_ARGUMENT ''Electrosphere thread and turn headers are required''))"

definition forwarded :: "http_request \<Rightarrow> string option \<Rightarrow> http_request" where
  "forwarded q lease =
     q\<lparr>hr_headers := (hr_headers q)(lease_header := lease),
       hr_body := (if hr_method q = ''GET'' \<or> hr_method q = ''HEAD'' then [] else bytes_of (utf8_string (hr_body q)))\<rparr>"

definition handler_fetch :: "('w, 'm) http_env \<Rightarrow> http_request \<Rightarrow> 'w server \<Rightarrow> 'm http_response \<times> 'w server" where
  "handler_fetch env q sv =
     (case he_handler env (mcp_turn (sv_turns sv) q) q (sv_daemon sv) of
        (r, dm) \<Rightarrow>
          (case r of Inl e \<Rightarrow> errorResponse e | Inr m \<Rightarrow> Handled m, sv\<lparr>sv_daemon := dm\<rparr>))"

definition mcp_route :: "('w, 'm) http_env \<Rightarrow> http_request \<Rightarrow> 'w server \<Rightarrow> 'm http_response \<times> 'w server" where
  "mcp_route env q sv =
     (let envelope = inspectMcpRequest (he_parse env) q in
      case requireAuth q (he_token env) of
        Inl e \<Rightarrow> (errorResponse e, sv)
      | Inr _ \<Rightarrow>
          if ev_method envelope = Some ''tools/call''
          then
            (case tool_lease env q sv of
               Inl e \<Rightarrow> (jsonRpcTurnError (ev_id envelope) e, sv)
             | Inr (lease, ts) \<Rightarrow>
                 (case handler_fetch env (forwarded q (Some (l_id lease))) (sv\<lparr>sv_turns := ts\<rparr>) of
                    (reply, sv1) \<Rightarrow> (reply, sv1\<lparr>sv_turns := snd (release lease (sv_turns sv1))\<rparr>)))
          else handler_fetch env (forwarded q None) sv)"

definition health :: "('w, 'm) http_env \<Rightarrow> http_body" where
  "health env = Health_body (if he_storageReady env \<and> hp_available (he_docker env) then ''ok'' else ''degraded'')
     (he_storageReady env) (he_docker env) (he_firecracker env)"

fun serve :: "('w, 'm) http_env \<Rightarrow> route \<Rightarrow> http_request \<Rightarrow> 'w server \<Rightarrow> 'm http_response option \<times> 'w server" where
  "serve env R_health q sv = (Some (Json 200 (health env)), sv)"
| "serve env (R_start tid uid) q sv = apfst Some (start_route env q tid uid sv)"
| "serve env (R_finish tid uid) q sv = finish_route env q tid uid sv"
| "serve env (R_fork src dst) q sv = apfst Some (fork_route env q src dst sv)"
| "serve env R_mcp q sv = apfst Some (mcp_route env q sv)"
| "serve env R_other q sv = (Some (Json 404 (Error_body NOT_FOUND ''Route not found'' None)), sv)"

end
