(* ===== verification/Config.thy ===== *)
theory Config
  imports Http
begin

text \<open>
  The configuration of the daemon (\<open>src/daemon/config.ts\<close>): which environment variables are
  read, what they have to look like and which values are refused. \<open>number\<close> is JavaScript's
  \<open>Number(s)\<close>.
\<close>

record config =
  cf_dataDir :: string
  cf_host :: string
  cf_port :: int
  cf_defaultBackend :: backend
  cf_dockerSocket :: string
  cf_maxOutputBytes :: int
  cf_firecrackerBin :: "string option"
  cf_jailerBin :: "string option"
  cf_agentArtifact :: "string option"
  cf_runtimeImage :: "string option"
  cf_firecrackerKernel :: "string option"
  cf_firecrackerRootfs :: "string option"
  cf_authToken :: "string option"

definition loopbackHosts :: "string list" where
  "loopbackHosts = [''127.0.0.1'', ''localhost'', ''::1'']"

text \<open>What the schema's \<open>parse\<close> throws.\<close>

definition invalid_environment :: js_error where
  "invalid_environment = PlainError ''ZodError''"

type_synonym environment = "string \<Rightarrow> string option"

text \<open>\<open>z.string().min(1)\<close>, with a default, optional or neither.\<close>

definition required_text :: "environment \<Rightarrow> string \<Rightarrow> string res" where
  "required_text env name =
     (case truthy (env name) of None \<Rightarrow> Inl invalid_environment | Some v \<Rightarrow> Inr v)"

definition text_or :: "string \<Rightarrow> environment \<Rightarrow> string \<Rightarrow> string res" where
  "text_or fallback env name = (if env name = None then Inr fallback else required_text env name)"

definition optional_text :: "environment \<Rightarrow> string \<Rightarrow> string option res" where
  "optional_text env name =
     (if env name = None then Inr None else bind_res (required_text env name) (\<lambda>v. Inr (Some v)))"

text \<open>\<open>z.coerce.number().int().min(a).max(b).default(n)\<close>: an absent variable is the default,
  because \<open>default\<close> is outermost.\<close>

definition int_or :: "(string \<Rightarrow> number) \<Rightarrow> int \<Rightarrow> int \<Rightarrow> int \<Rightarrow> environment \<Rightarrow> string \<Rightarrow> int res" where
  "int_or number a b fallback env name =
     (case env name of
        None \<Rightarrow> Inr fallback
      | Some v \<Rightarrow>
          (case number v of
             Num n \<Rightarrow> ensure_res (a \<le> n \<and> n \<le> b) invalid_environment n
           | Not_integer \<Rightarrow> Inl invalid_environment))"

definition backend_or :: "backend \<Rightarrow> environment \<Rightarrow> string \<Rightarrow> backend res" where
  "backend_or fallback env name =
     (case env name of
        None \<Rightarrow> Inr fallback
      | Some v \<Rightarrow>
          if v = ''docker'' then Inr Docker
          else if v = ''firecracker'' then Inr Firecracker
          else Inl invalid_environment)"

definition loadConfig :: "(string \<Rightarrow> number) \<Rightarrow> environment \<Rightarrow> config res" where
  "loadConfig number env =
     bind_res (required_text env ''ELECTROSPHERE_DATA_DIR'') (\<lambda>dataDir.
     bind_res (case env ''ELECTROSPHERE_HOST'' of None \<Rightarrow> Inr ''127.0.0.1'' | Some h \<Rightarrow> Inr h) (\<lambda>host.
     bind_res (int_or number 1 65535 8787 env ''ELECTROSPHERE_PORT'') (\<lambda>port.
     bind_res (backend_or Docker env ''ELECTROSPHERE_DEFAULT_BACKEND'') (\<lambda>defaultBackend.
     bind_res (text_or ''/var/run/docker.sock'' env ''ELECTROSPHERE_DOCKER_SOCKET'') (\<lambda>dockerSocket.
     bind_res (optional_text env ''ELECTROSPHERE_FIRECRACKER_BIN'') (\<lambda>firecrackerBin.
     bind_res (optional_text env ''ELECTROSPHERE_JAILER_BIN'') (\<lambda>jailerBin.
     bind_res (optional_text env ''ELECTROSPHERE_AGENT_ARTIFACT'') (\<lambda>agentArtifact.
     bind_res (optional_text env ''ELECTROSPHERE_RUNTIME_IMAGE'') (\<lambda>runtimeImage.
     bind_res (optional_text env ''ELECTROSPHERE_FIRECRACKER_KERNEL'') (\<lambda>kernel.
     bind_res (optional_text env ''ELECTROSPHERE_FIRECRACKER_ROOTFS'') (\<lambda>rootfs.
     bind_res (int_or number 1024 (16 * 1024 * 1024) 1048576 env ''ELECTROSPHERE_MAX_OUTPUT_BYTES'') (\<lambda>maxOutputBytes.
     bind_res (optional_text env ''ELECTROSPHERE_AUTH_TOKEN'') (\<lambda>authToken.
     if \<not> starts_with ''/'' dataDir
     then Inl (PlainError ''ELECTROSPHERE_DATA_DIR must be an absolute path'')
     else if host \<notin> set loopbackHosts
     then Inl (PlainError ''ELECTROSPHERE_HOST must be a loopback address'')
     else Inr \<lparr>cf_dataDir = resolve_path ''/'' dataDir, cf_host = host, cf_port = port,
            cf_defaultBackend = defaultBackend, cf_dockerSocket = dockerSocket, cf_maxOutputBytes = maxOutputBytes,
            cf_firecrackerBin = firecrackerBin, cf_jailerBin = jailerBin, cf_agentArtifact = agentArtifact,
            cf_runtimeImage = runtimeImage, cf_firecrackerKernel = kernel, cf_firecrackerRootfs = rootfs,
            cf_authToken = authToken\<rparr>)))))))))))))"

end
