(* ===== verification/Daemon.thy ===== *)
theory Daemon
  imports Config
begin

text \<open>
  The start of the daemon (\<open>startDaemon\<close> in \<open>src/daemon/index.ts\<close>): configuration, storage,
  the empty commit, recovery, and then the services of the HTTP server in their first state.
\<close>

text \<open>What the start-up awaits: the data directory, the database file with its migrations, the
  probes of the backends, the staging directory's entries, and the rest of \<open>externals\<close>.\<close>

record boot =
  bt_number :: "string \<Rightarrow> number"
  bt_mkdir :: "string \<Rightarrow> unit res"
  bt_openStorage :: "string \<Rightarrow> db res"
  bt_preflight :: "(host_probe \<times> host_probe) res"
  bt_ex :: externals
  bt_staging :: "string list"
  bt_now :: int

record 'w started =
  sd_config :: config
  sd_service :: sandbox_service
  sd_probes :: "host_probe \<times> host_probe"
  sd_server :: "'w server"

definition new_turns :: "backend \<Rightarrow> turn_service" where
  "new_turns defaultBackend = \<lparr>ts_activeLeases = [], ts_leaseCounts = [], ts_leaseWaiters = [], ts_released = [],
     ts_startPromises = [], ts_finishPromises = [], ts_closing = False, ts_defaultBackend = defaultBackend\<rparr>"

definition new_sessions :: "int \<Rightarrow> session_manager" where
  "new_sessions maxOutputBytes =
     \<lparr>sm_sessions = [], sm_closingInstances = [], sm_maxOutputBytes = nat maxOutputBytes\<rparr>"

definition new_server :: "config \<Rightarrow> 'w \<Rightarrow> fs \<Rightarrow> db \<Rightarrow> 'w server" where
  "new_server cfg w f d =
     \<lparr>sv_turns = new_turns (cf_defaultBackend cfg),
      sv_daemon = \<lparr>dm_agents = w, dm_fs = f, dm_db = d, dm_sessions = new_sessions (cf_maxOutputBytes cfg)\<rparr>\<rparr>"

text \<open>The part after the database is open. On an error the process ends; what it wrote stays.\<close>

definition boot_services :: "boot \<Rightarrow> config \<Rightarrow> host_probe \<times> host_probe \<Rightarrow> 'w \<Rightarrow> fs \<Rightarrow> db \<Rightarrow> 'w started run" where
  "boot_services bt cfg probes w f d =
     (case initialize (bt_ex bt) \<lparr>sb_dataDir = cf_dataDir cfg, sb_emptyCommit = None\<rparr> d of
        (Inl e, d1) \<Rightarrow> (Inl e, d1)
      | (Inr sb, d1) \<Rightarrow>
          (case recover (bt_ex bt) (cf_dataDir cfg) (bt_staging bt) (bt_now bt) d1 of
             (Inl e, d2) \<Rightarrow> (Inl e, d2)
           | (Inr _, d2) \<Rightarrow>
               (Inr \<lparr>sd_config = cfg, sd_service = sb, sd_probes = probes, sd_server = new_server cfg w f d2\<rparr>, d2)))"

definition startDaemon :: "boot \<Rightarrow> environment \<Rightarrow> 'w \<Rightarrow> fs \<Rightarrow> 'w started res" where
  "startDaemon bt env w f =
     bind_res (loadConfig (bt_number bt) env) (\<lambda>cfg.
     bind_res (bt_mkdir bt (cf_dataDir cfg)) (\<lambda>_.
     bind_res (bt_openStorage bt (cf_dataDir cfg)) (\<lambda>d.
     bind_res (bt_preflight bt) (\<lambda>probes. fst (boot_services bt cfg probes w f d)))))"

section \<open>What the configuration guarantees\<close>

lemma int_or_bounds:
  "int_or number a b n env name = Inr v \<Longrightarrow> a \<le> n \<Longrightarrow> n \<le> b \<Longrightarrow> a \<le> v \<and> v \<le> b"
  by (auto simp: int_or_def res_simps split: option.splits number.splits)

lemma optional_text_nonempty: "optional_text env name = Inr v \<Longrightarrow> v \<noteq> Some ''''"
  by (auto simp: optional_text_def required_text_def res_simps split: if_splits option.splits)

lemma loadConfig_Inr:
  assumes "loadConfig number env = Inr cfg"
  shows "cf_host cfg \<in> set loopbackHosts \<and> 1 \<le> cf_port cfg \<and> cf_port cfg \<le> 65535 \<and>
    1024 \<le> cf_maxOutputBytes cfg \<and> cf_maxOutputBytes cfg \<le> 16 * 1024 * 1024 \<and>
    (\<exists>parts. cf_dataDir cfg = abs_path parts \<and> list_all plain_part parts) \<and> cf_authToken cfg \<noteq> Some ''''"
proof -
  have plain: "list_all plain_part (foldl add_part acc ps)" if "list_all plain_part acc" for acc ps
    using that
  proof (induction ps arbitrary: acc)
    case (Cons p ps)
    have "list_all plain_part (add_part acc p)"
      using Cons.prems by (auto simp: add_part_def plain_part_def list_all_iff dest: in_set_butlastD)
    then show ?case using Cons.IH by simp
  qed simp
  show ?thesis
    using assms plain [of "[]"] int_or_bounds optional_text_nonempty
    by (auto simp: loadConfig_def res_simps resolve_path_def normal_parts_def split: if_splits)
qed

end
