(* ===== verification/Tools_Inv.thy ===== *)
theory Tools_Inv
  imports ToolCalls
begin

text \<open>
  What the MCP tools do to the outside: every request they send names only paths inside the
  workspace and goes to the runtime of the call's turn.
\<close>

section \<open>A transport that is kept safe by confined requests\<close>

definition confined_request :: "agent_request \<Rightarrow> bool" where
  "confined_request q \<longleftrightarrow> list_all confined_path (request_paths q)"

lemma io_keeps_res_bind [intro]:
  assumes "\<And>x. r = Inr x \<Longrightarrow> io_keeps P (f x)"
  shows "io_keeps P (io_bind (io_res r) f)"
  using assms by (cases r) (auto simp: io_keeps_def io_bind_def io_res_def)

lemma io_keeps_require_bind [intro]:
  assumes "ok \<Longrightarrow> io_keeps P (f ())"
  shows "io_keeps P (io_bind (io_require ok e) f)"
  using assms by (cases ok) (auto simp: io_keeps_def io_bind_def io_require_def)

lemma io_keeps_on_agents: "io_keeps Q m \<Longrightarrow> io_keeps (\<lambda>s. Q (dm_agents s)) (on_agents m)"
  by (auto simp: io_keeps_def on_agents_def split: prod.splits)

lemma io_keeps_pure: "(\<And>s. snd (m s) = s) \<Longrightarrow> io_keeps P m"
  by (simp add: io_keeps_def)

locale confined_sender =
  fixes send :: "agent_request \<Rightarrow> ('w, agent_response) io" and Q :: "'w \<Rightarrow> bool"
  assumes send_keeps: "confined_request q \<Longrightarrow> io_keeps Q (send q)"
begin

lemma send_ok_keeps: "confined_request q \<Longrightarrow> io_keeps Q (send_ok send q m)"
  unfolding send_ok_def by (intro io_keeps_bind io_keeps_basic send_keeps)

lemma transfer_keeps:
  "io_keeps Q (send (A_FileWriteChunk t c))" "io_keeps Q (send_ok send (A_FileWriteChunk t c) m)"
  "io_keeps Q (send_ok send (A_FileWriteCommit t) m)" "io_keeps Q (send (A_FileWriteAbort t))"
  by (intro send_keeps send_ok_keeps; simp add: confined_request_def)+

lemma read_keeps: "confined_path (ri_path i) \<Longrightarrow> io_keeps Q (agent_read jsonSize send i)"
  unfolding agent_read_def by (intro io_keeps_bind io_keeps_basic send_keeps) (simp add: confined_request_def)

lemma readBytes_keeps: "confined_path path \<Longrightarrow> io_keeps Q (readBytes send path offset limit)"
  unfolding readBytes_def by (intro io_keeps_bind io_keeps_basic send_keeps) (simp add: confined_request_def)

lemma edit_keeps: "confined_path path \<Longrightarrow> io_keeps Q (agent_edit send path expected edits)"
  unfolding agent_edit_def by (intro io_keeps_bind io_keeps_basic send_ok_keeps) (simp add: confined_request_def)

lemma glob_keeps: "list_all confined_path (gi_patterns i) \<Longrightarrow> io_keeps Q (agent_glob jsonSize send i)"
  unfolding agent_glob_def by (intro io_keeps_bind io_keeps_basic send_ok_keeps) (simp add: confined_request_def)

lemma grep_keeps:
  "given (list_all confined_path) (gr_paths i) \<Longrightarrow> io_keeps Q (agent_grep jsonSize send i)"
  unfolding agent_grep_def
  by (intro io_keeps_bind io_keeps_basic send_ok_keeps) (auto simp: confined_request_def given_def split: option.splits)

lemma stat_keeps: "confined_path path \<Longrightarrow> io_keeps Q (agent_stat send path)"
  unfolding agent_stat_def by (intro io_keeps_bind io_keeps_basic send_ok_keeps) (simp add: confined_request_def)

lemma move_keeps: "confined_path p \<Longrightarrow> confined_path q \<Longrightarrow> io_keeps Q (agent_move send p q)"
  unfolding agent_move_def by (intro io_keeps_bind io_keeps_basic send_ok_keeps) (simp add: confined_request_def)

lemma remove_keeps: "confined_path path \<Longrightarrow> io_keeps Q (agent_remove send path)"
  unfolding agent_remove_def by (intro io_keeps_bind io_keeps_basic send_ok_keeps) (simp add: confined_request_def)

lemma send_chunks_keeps: "io_keeps Q (send_chunks send t cs)"
  by (induction cs) (auto intro!: transfer_keeps)

lemma write_source_keeps: "io_keeps Q (write_source send t vs err)"
  by (induction vs) (auto intro!: send_chunks_keeps split: option.splits)

lemma write_try_keeps: "confined_path path \<Longrightarrow> io_keeps Q (write_try send t path cp source)"
  unfolding write_try_def
  by (intro io_keeps_bind io_keeps_basic send_ok_keeps write_source_keeps transfer_keeps) (simp add: confined_request_def)

lemma write_keeps: "confined_path path \<Longrightarrow> io_keeps Q (agent_write send t path cp source)"
  using write_try_keeps [of path t cp source] transfer_keeps(4) [of t]
  unfolding io_keeps_def agent_write_def
  by (auto split: prod.splits sum.splits)

lemma stream_file_keeps:
  "confined_path path \<Longrightarrow> Q w \<Longrightarrow> Q (snd (stream_file (readBytes send path) fileSize offset w))"
proof (induction "readBytes send path" fileSize offset w rule: stream_file.induct)
  case (1 fileSize offset w)
  obtain r w1 where step: "readBytes send path offset MAX_RAW_BYTES w = (r, w1)" by fastforce
  then have "Q w1" using 1 readBytes_keeps io_keepsD by metis
  then show ?case using 1 step
    by (subst stream_file.simps) (auto split: sum.splits prod.splits)
qed

end

section \<open>The tools of a runtime\<close>

locale tool_runtime =
  fixes env :: "'w tool_env" and cx :: file_context and Q :: "'w \<Rightarrow> bool"
  assumes confined_keeps: "confined_request q \<Longrightarrow> io_keeps Q (sender env cx q)"

sublocale tool_runtime \<subseteq> confined_sender "sender env cx" Q
  by unfold_locales (rule confined_keeps)

context tool_runtime begin

abbreviation safe :: "('w daemon, 'a) io \<Rightarrow> bool" where
  "safe \<equiv> io_keeps (\<lambda>s. Q (dm_agents s))"

lemmas client_safe = io_keeps_on_agents [OF read_keeps] io_keeps_on_agents [OF readBytes_keeps]
  io_keeps_on_agents [OF edit_keeps] io_keeps_on_agents [OF glob_keeps] io_keeps_on_agents [OF grep_keeps]
  io_keeps_on_agents [OF stat_keeps] io_keeps_on_agents [OF move_keeps] io_keeps_on_agents [OF remove_keeps]
  io_keeps_on_agents [OF write_keeps]

lemma put_safe: "confined_path path \<Longrightarrow> safe (put_workspace_file env cx path mediaType filename fileSize)"
  using stream_file_keeps [of path _ fileSize 0]
  by (intro io_keepsI) (auto simp: put_workspace_file_def streamWorkspaceFile_def split: prod.splits, metis snd_conv)

lemma export_safe: "confined_path path \<Longrightarrow> safe (exportWorkspaceArtifact env cx path mediaType filename)"
  unfolding exportWorkspaceArtifact_def
  by (intro io_keeps_bind io_keeps_basic client_safe put_safe)

lemma read_exported_safe: "confined_path path \<Longrightarrow> safe (read_exported env cx path mediaType)"
  unfolding read_exported_def by (intro io_keeps_bind io_keeps_basic export_safe)

lemma read_prefix_safe: "confined_path path \<Longrightarrow> safe (read_prefix env cx path fileSize)"
  unfolding read_prefix_def by (intro client_safe)

lemma read_directory_safe: "confined_path path \<Longrightarrow> safe (read_directory env cx args path)"
  unfolding read_directory_def by (intro io_keeps_bind io_keeps_basic client_safe) simp

lemma read_raw_safe: "confined_path path \<Longrightarrow> safe (read_raw env cx args path fileSize)"
  unfolding read_raw_def by (auto intro!: io_keeps_bind client_safe read_exported_safe)

lemma read_text_safe: "confined_path path \<Longrightarrow> safe (read_text env cx args path fileSize)"
  unfolding read_text_def
  by (auto simp: Let_def intro!: io_keeps_bind client_safe read_exported_safe read_prefix_safe)

lemma read_workspace_safe: "safe (read_workspace env args cx)"
  unfolding read_workspace_def
  by (auto intro!: io_keeps_res_bind io_keeps_bind client_safe read_directory_safe read_raw_safe read_text_safe
    dest: normalizeWorkspacePath_confined)

lemma write_safe: "safe (write_tool env path content cp cx)"
  unfolding write_tool_def
  by (intro io_keeps_res_bind io_keeps_bind io_keeps_basic client_safe normalizeWorkspacePath_confined)

lemma edit_safe: "safe (edit_tool env path expected edits cx)"
  unfolding edit_tool_def
  by (intro io_keeps_res_bind io_keeps_bind io_keeps_basic client_safe normalizeWorkspacePath_confined)

lemma move_safe: "safe (move_tool env source destination cx)"
  unfolding move_tool_def
  by (intro io_keeps_res_bind io_keeps_bind io_keeps_basic client_safe normalizeWorkspacePath_confined)

lemma remove_safe: "safe (remove_tool env path cx)"
  unfolding remove_tool_def
  by (intro io_keeps_res_bind io_keeps_bind io_keeps_basic client_safe normalizeWorkspacePath_confined)

lemma export_tool_safe: "safe (export_tool env path media_type filename cx)"
  unfolding export_tool_def
  by (intro io_keeps_res_bind io_keeps_bind io_keeps_basic client_safe read_prefix_safe export_safe
    normalizeWorkspacePath_confined)

lemma open_safe:
  "safe (\<lambda>s. (open_artifact (te_got env) (dm_fs s) (dm_db s) (b_threadId (cx_turn cx)) digest None, s))"
  by (rule io_keeps_pure) simp

lemma materialize_safe: "safe (materialize_tool env artifact path cp cx)"
proof (cases "parseArtifactUri artifact")
  case None
  then show ?thesis unfolding materialize_tool_def by (simp add: io_keeps_basic)
next
  case (Some digest)
  show ?thesis unfolding materialize_tool_def Some option.case
    by (intro io_keeps_res_bind io_keeps_bind [OF open_safe] io_keeps_bind io_keeps_basic client_safe
      normalizeWorkspacePath_confined)
qed

end

lemma map_res_all: "map_res f xs = Inr ys \<Longrightarrow> (\<And>x y. f x = Inr y \<Longrightarrow> P y) \<Longrightarrow> list_all P ys"
  by (induction xs arbitrary: ys) (auto simp: res_simps)

lemma glob_patterns_confined: "glob_patterns p = Inr ps \<Longrightarrow> ps \<noteq> [] \<and> list_all confined_path ps"
  by (auto simp: glob_patterns_def res_simps split: if_splits
    dest!: map_res_all [where P = confined_path] dest: normalizeWorkspacePattern_confined)

lemma grep_paths_confined: "grep_paths ps = Inr qs \<Longrightarrow> given (list_all confined_path) qs"
  by (auto simp: grep_paths_def given_def res_simps split: option.splits
    dest!: map_res_all [where P = confined_path] dest: normalizeWorkspacePath_confined)

context tool_runtime begin

lemma glob_safe: "safe (glob_tool env a cx)"
  unfolding glob_tool_def
  by (auto intro!: io_keeps_res_bind io_keeps_bind client_safe dest: glob_patterns_confined)

lemma grep_safe: "safe (grep_tool env a cx)"
  unfolding grep_tool_def
  by (auto intro!: io_keeps_res_bind io_keeps_bind client_safe dest: grep_paths_confined)

lemmas tool_safe = read_workspace_safe write_safe edit_safe glob_safe grep_safe move_safe remove_safe
  export_tool_safe materialize_safe

end

section \<open>The requests of a call\<close>

definition recorded :: "(backend \<Rightarrow> backend_handle \<Rightarrow> agent_request \<Rightarrow> ('w, 'a) io) \<Rightarrow> backend \<Rightarrow> backend_handle
    \<Rightarrow> agent_request \<Rightarrow> ('w \<times> (backend \<times> backend_handle \<times> agent_request) list, 'a) io" where
  "recorded send b h q = (\<lambda>(w, l). (case send b h q w of (r, w') \<Rightarrow> (r, (w', l @ [(b, h, q)]))))"

text \<open>The log is an extension of \<open>l\<close> by confined requests to the runtime of \<open>cx\<close>.\<close>

definition only_confined :: "file_context \<Rightarrow> (backend \<times> backend_handle \<times> agent_request) list
    \<Rightarrow> 'w \<times> (backend \<times> backend_handle \<times> agent_request) list \<Rightarrow> bool" where
  "only_confined cx l s \<longleftrightarrow> (\<exists>new. snd s = l @ new \<and>
     (\<forall>(b, h, q)\<in>set new. b = cx_backend cx \<and> h = cx_handle cx \<and> confined_request q))"

interpretation recorded_tools: tool_runtime
  "env\<lparr>te_send := recorded send\<rparr>" cx "only_confined cx l"
  for env :: "('w \<times> (backend \<times> backend_handle \<times> agent_request) list) tool_env" and send cx l
proof unfold_locales
  fix q assume "confined_request q"
  then show "io_keeps (only_confined cx l) (sender (env\<lparr>te_send := recorded send\<rparr>) cx q)"
    by (intro io_keepsI)
      (auto simp: sender_def recorded_def only_confined_def split: prod.splits
        intro: exI [of _ "new @ [(cx_backend cx, cx_handle cx, q)]" for new])
qed

lemma with_context_keeps:
  assumes "\<And>cx. fileContext env (dm_db s) = Inr cx \<Longrightarrow> io_keeps (\<lambda>s. Q (dm_agents s)) (f cx)" "Q (dm_agents s)"
  shows "Q (dm_agents (snd (with_context env f s)))"
  using assms by (auto simp: with_context_def io_keeps_def split: sum.splits)

lemma snd_io_bind_return: "snd (io_bind m (\<lambda>x. io_return (f x)) s) = snd (m s)"
  by (auto simp: io_bind_def io_return_def split: prod.splits sum.splits)

lemma shell_tool_agents:
  assumes "\<And>turn s. dm_agents (snd (f turn s)) = dm_agents s"
  shows "dm_agents (snd (shell_tool env f s)) = dm_agents s"
  using assms by (auto simp: shell_tool_def answers_def snd_io_bind_return)
    (auto simp: io_bind_def io_res_def split: sum.splits)

lemma on_sessions_agents: "dm_agents (snd (on_sessions m s)) = dm_agents s"
  by (auto simp: on_sessions_def split: prod.splits)

lemma shell_exec_agents: "dm_agents (snd (shell_exec env turn a s)) = dm_agents s"
  using on_sessions_agents by (auto simp: shell_exec_def io_bind_def io_res_def split: sum.splits)

text \<open>What confined requests to the runtime of the turn keep true of the agents, a call keeps true.\<close>

lemma run_tool_keeps:
  assumes safe: "\<And>cx. fileContext env (dm_db s) = Inr cx \<Longrightarrow> tool_runtime env cx Q" and Q: "Q (dm_agents s)"
  shows "Q (dm_agents (snd (run_tool env c s)))"
proof -
  have file_safe: "Q (dm_agents (snd (file_tool env f s)))"
    if "\<And>cx. tool_runtime env cx Q \<Longrightarrow> io_keeps (\<lambda>s. Q (dm_agents s)) (f cx)" for f
    unfolding file_tool_def answers_def snd_io_bind_return
    by (rule with_context_keeps [where Q = Q]) (use that safe Q in blast)+
  have shell: "Q (dm_agents (snd (shell_tool env f s)))"
    if "\<And>turn s. dm_agents (snd (f turn s)) = dm_agents s" for f
    using shell_tool_agents [of f] that Q by metis
  have read: "Q (dm_agents (snd (handleRead env args s)))" for args
  proof -
    have "Q (dm_agents (snd (with_context env (read_workspace env args) s)))"
      by (rule with_context_keeps [where Q = Q]) (use safe Q tool_runtime.read_workspace_safe in blast)+
    then show ?thesis using Q
      by (auto simp: handleRead_def io_bind_def io_res_def io_throw_def split: sum.splits option.splits)
  qed
  show ?thesis
    by (cases c) (auto simp: snd_io_bind_return on_sessions_agents shell_exec_agents intro!: file_safe shell read
      tool_runtime.tool_safe)
qed

lemma snd_call_tool: "snd (call_tool env c s) = snd (run_tool env c s)"
  by (simp add: call_tool_def split: prod.splits sum.splits)

lemma fileContext_Inr:
  "fileContext env d = Inr cx \<longleftrightarrow> te_turn env = Some (cx_turn cx) \<and>
     (\<exists>row. getTurnHandle d (b_instanceId (cx_turn cx)) = Inr (row, cx_handle cx) \<and> i_backend row = cx_backend cx)"
  by (cases cx) (auto simp: fileContext_def requireTurn_def res_simps split: option.splits)

end
