(* ===== verification/Reads_Inv.thy ===== *)
theory Reads_Inv
  imports Tools_Inv
begin

text \<open>
  Reading lines: the numbering of an artifact's lines ends and gives every line its number in the
  file; a call of a tool returns unless the guest sends more lines of a workspace file than were
  asked for by ranges.
\<close>

section \<open>No more lines are taken than are selected\<close>

definition counted :: "line_range list \<Rightarrow> line_request \<Rightarrow> line_reader \<Rightarrow> bool" where
  "counted rs q s \<longleftrightarrow> length (lr_lines s) \<le> card {n \<in> selected rs (lq_start q). n \<le> int (lr_lineNumber s)}"

lemma selected_upto_Suc:
  "card {n \<in> selected rs a. n \<le> int (Suc k)} =
     card {n \<in> selected rs a. n \<le> int k} + (if int (Suc k) \<in> selected rs a then 1 else 0)"
proof -
  have "{n \<in> selected rs a. n \<le> int (Suc k)} =
      (if int (Suc k) \<in> selected rs a then insert (int (Suc k)) {n \<in> selected rs a. n \<le> int k}
       else {n \<in> selected rs a. n \<le> int k})"
    by (auto simp: le_less)
  moreover have "finite {n \<in> selected rs a. n \<le> int k}" by simp
  ultimately show ?thesis by simp
qed

lemma selectedLine_iff: "selectedLine n a (Some rs) \<longleftrightarrow> n \<in> selected rs a"
  by (auto simp: selectedLine_def selected_def)

lemma accept_counted:
  assumes "accept q line s = (b, s1)" "lq_ranges q = Some rs" "counted rs q s"
  shows "counted rs q s1"
  using assms selected_upto_Suc [of rs "lq_start q" "lr_lineNumber s"]
  by (auto simp: accept_def Let_def counted_def selectedLine_iff split: if_splits)

lemma accept_lines_counted:
  "accept_lines q p s = (b, p1, s1) \<Longrightarrow> lq_ranges q = Some rs \<Longrightarrow> counted rs q s \<Longrightarrow> counted rs q s1"
proof (induction q p s rule: accept_lines.induct)
  case (1 q p s)
  show ?case
  proof (cases "cut_line p")
    case None
    then show ?thesis using 1 by (simp add: accept_lines.simps [of q p])
  next
    case (Some lr)
    obtain line rest where cut: "cut_line p = Some (line, rest)" using Some by (cases lr) simp
    obtain b2 s2 where a: "accept q line s = (b2, s2)" by force
    with 1 have "counted rs q s2" by (blast intro: accept_counted)
    then show ?thesis using 1 cut a by (cases b2) (auto simp: accept_lines.simps [of q p])
  qed
qed

lemma read_stream_lines_counted:
  "read_stream_lines q chunks err dc pending s = Inr (Lines s') \<Longrightarrow> lq_ranges q = Some rs \<Longrightarrow>
   counted rs q s \<Longrightarrow> counted rs q s'"
proof (induction q chunks err dc pending s rule: read_stream_lines.induct)
  case (1 q err dc pending s)
  then show ?case
    using accept_counted [of q pending s "fst (accept q pending s)" "snd (accept q pending s)" rs]
    by (auto split: option.splits if_splits)
next
  case (2 q chunk chunks err dc pending s)
  obtain new dc1 where dc: "decode_chunk chunk dc = Some (new, dc1)"
    using 2(2) by (cases "decode_chunk chunk dc") auto
  obtain b p1 s1 where a: "accept_lines q (pending @ new) s = (b, p1, s1)" by (metis prod_cases3)
  with 2 have "counted rs q s1" by (blast intro: accept_lines_counted)
  then show ?case using 2 dc a by (cases b) auto
qed

lemma selected_sort [simp]: "selected (sort_ranges rs) a = selected rs a"
  by (auto simp: selected_def sort_ranges_def list_ex_iff)

lemma case_Lines_Some:
  "(case out of Binary \<Rightarrow> None | Lines s \<Rightarrow> Some (f s)) = Some t \<longleftrightarrow> (\<exists>s. out = Lines s \<and> t = f s)"
  by (cases out) auto

lemma stream_lines_counted:
  assumes "streamArtifactLines json open_stream args = Inr (Some t)" "ra_ranges args = Some rs"
  shows "length (sl_lines t) \<le> card (selected rs (sl_startLine t))"
proof -
  let ?q = "line_request_of json args"
  have q: "lq_ranges ?q = Some (sort_ranges rs)" using assms by (simp add: line_request_of_def Let_def)
  from assms obtain source s where
    run: "read_stream_lines ?q (fst source) (snd source) new_decoder '''' new_reader = Inr (Lines s)"
    and t: "sl_lines t = lr_lines s" "sl_startLine t = lq_start ?q"
    by (auto simp: streamArtifactLines_def Let_def res_simps case_Lines_Some)
  have "counted (sort_ranges rs) ?q s"
    by (rule read_stream_lines_counted [OF run q]) (simp add: counted_def new_reader_def)
  then have "length (lr_lines s) \<le> card {n \<in> selected rs (lq_start ?q). n \<le> int (lr_lineNumber s)}"
    by (simp add: counted_def)
  also have "\<dots> \<le> card (selected rs (lq_start ?q))" by (rule card_mono) auto
  finally show ?thesis using t by simp
qed

lemma text_artifact_returns:
  assumes "streamArtifactLines json open_stream args = Inr (Some t)"
  shows "text_artifact artifact digest args t \<noteq> None"
  using stream_lines_counted [OF assms]
  by (auto simp: text_artifact_def Let_def lineNumbers_def number_in_ranges_eq split: option.splits)

lemma readArtifact_returns: "readArtifact env f d threadId digest args \<noteq> Inr None"
  using text_artifact_returns
  by (auto simp: readArtifact_def Let_def res_simps split: if_splits option.splits)

section \<open>The numbers are those of the file\<close>

lemma sorted_takeWhile: "sorted xs \<Longrightarrow> takeWhile (\<lambda>x. x \<le> b) xs = filter (\<lambda>x. x \<le> (b :: int)) xs"
proof (induction xs)
  case (Cons x xs)
  then show ?case by (auto simp: filter_empty_conv intro!: filter_False [symmetric])
qed simp

lemma map_fst_numbered:
  "map fst (numbered q n lines) =
     filter (\<lambda>i. selectedLine (int i) (lq_start q) (lq_ranges q)) [n + 1 ..< n + 1 + length lines]"
proof -
  let ?P = "\<lambda>i. selectedLine (int i) (lq_start q) (lq_ranges q)"
  have "map fst (filter (?P \<circ> fst) xs) = filter ?P (map fst xs)" for xs :: "(nat \<times> string) list"
    by (simp add: filter_map)
  moreover have "numbered q n lines = filter (?P \<circ> fst) (List.enumerate (n + 1) lines)"
    by (simp add: numbered_def comp_def case_prod_beta')
  ultimately show ?thesis by (metis map_fst_enumerate)
qed

lemma numbered_numbers:
  assumes "lq_ranges q = Some rs" "0 < lq_start q"
  shows "map (\<lambda>x. int (fst x)) (numbered q 0 lines) =
    takeWhile (\<lambda>n. n \<le> int (length lines)) (sorted_list_of_set (selected rs (lq_start q)))"
proof -
  let ?a = "map int (map fst (numbered q 0 lines))"
  let ?b = "filter (\<lambda>n. n \<le> int (length lines)) (sorted_list_of_set (selected rs (lq_start q)))"
  have a: "?a = map int (filter (\<lambda>i. int i \<in> selected rs (lq_start q)) [1 ..< 1 + length lines])"
    using assms by (simp add: map_fst_numbered selectedLine_iff)
  have "n \<in> set ?a \<longleftrightarrow> n \<in> set ?b" for n
  proof -
    have "n \<in> selected rs (lq_start q) \<Longrightarrow> 0 < n" using assms(2) by (auto simp: selected_def)
    then show ?thesis unfolding a by (cases n) (auto simp: image_iff)
  qed
  moreover have "sorted ?a" "distinct ?a"
    unfolding a by (simp_all add: sorted_map distinct_map inj_on_def sorted_wrt_filter del: upt_Suc)
  moreover have "sorted ?b" "distinct ?b" by (simp_all add: sorted_wrt_filter)
  ultimately have "?a = ?b" by (intro sorted_distinct_set_unique) auto
  then show ?thesis by (simp add: sorted_takeWhile comp_def)
qed

lemma zip_takeWhile:
  "map f xs = takeWhile P ns \<Longrightarrow> zip ns (map g (take k xs)) = map (\<lambda>x. (f x, g x)) (take k xs)"
proof (induction xs arbitrary: ns k)
  case (Cons x xs)
  then show ?case by (cases ns; cases k) (auto split: if_splits)
qed simp

lemma numbered_in_ranges:
  assumes "lq_ranges q = Some rs" "0 < lq_start q"
  shows "number_in_ranges rs (lq_start q) (map snd (take k (numbered q 0 lines))) =
    Some (map (\<lambda>(i, x). (int i, x)) (take k (numbered q 0 lines)))"
proof -
  let ?sel = "numbered q 0 lines"
  note num = numbered_numbers [OF assms, of lines]
  have "length (take k ?sel) \<le> length (map (\<lambda>x. int (fst x)) ?sel)" by simp
  also have "\<dots> \<le> card (selected rs (lq_start q))"
    unfolding num by (rule order_trans [OF length_takeWhile_le]) simp
  finally show ?thesis
    using zip_takeWhile [OF num, of snd k] by (simp add: number_in_ranges_eq case_prod_beta')
qed

lemma numbered_mem: "(i, x) \<in> set (numbered q 0 lines) \<Longrightarrow>
    0 < i \<and> i \<le> length lines \<and> x = lines ! (i - 1) \<and> selectedLine (int i) (lq_start q) (lq_ranges q)"
  by (auto simp: numbered_def in_set_enumerate_eq)

lemma number_in_ranges_cong: "selected rs = selected rs' \<Longrightarrow> number_in_ranges rs = number_in_ranges rs'"
  by (intro ext) (simp add: number_in_ranges_eq)

text \<open>The lines of a text that lie in one of the ranges, from a line on, with their numbers.\<close>

definition lines_in_ranges :: "line_range list \<Rightarrow> int \<Rightarrow> string list \<Rightarrow> (int \<times> string) list" where
  "lines_in_ranges rs startLine lines =
     filter (\<lambda>(n, _). startLine \<le> n \<and> list_ex (in_range n) rs) (zip [1..int (length lines)] lines)"

lemma map_int_upt: "map int [a..<b] = [int a..int b - 1]"
  by (induction b) (auto simp: upto_rec2)

lemma numbered_lines_in_ranges:
  assumes "lq_ranges q = Some rs"
  shows "map (\<lambda>(i, x). (int i, x)) (numbered q 0 lines) = lines_in_ranges rs (lq_start q) lines"
proof -
  have "[1..int (length lines)] = map int [1..<1 + length lines]"
    by (simp add: map_int_upt del: upt_Suc)
  then have "zip [1..int (length lines)] lines = map (\<lambda>(i, x). (int i, x)) (List.enumerate 1 lines)"
    by (simp add: enumerate_eq_zip zip_map1 del: upt_Suc)
  then show ?thesis using assms
    by (simp add: lines_in_ranges_def numbered_def filter_map comp_def case_prod_beta' selectedLine_def not_less
      cong: if_cong) (simp add: case_prod_beta' not_less [symmetric] cong: conj_cong)
qed

lemma lines_in_ranges_cong:
  assumes "selected rs = selected rs'"
  shows "lines_in_ranges rs a lines = lines_in_ranges rs' a lines"
proof -
  have "n \<in> selected rs a \<longleftrightarrow> n \<in> selected rs' a" for n using assms by simp
  then show ?thesis by (simp add: lines_in_ranges_def selected_def)
qed

lemma start_line_positive:
  assumes "read_schema args" "ra_ranges args = Some rs"
  shows "0 < lq_start (line_request_of json args)"
proof -
  have "1 \<le> rg_start r" if "r \<in> set (sort_ranges rs)" for r
    using assms that by (auto simp: read_schema_def given_def list_all_iff range_schema_def sort_ranges_def)
  moreover have "0 < n" if "cursorLine json c = Some n" for n c
    using that by (auto simp: cursorLine_def split: option.splits number.splits if_splits)
  ultimately show ?thesis using assms
    by (auto simp: line_request_of_def start_line_def Let_def read_schema_def given_def split: option.splits list.splits)
      (fastforce)+
qed

lemma text_page:
  assumes stream: "streamArtifactLines json open_stream args = Inr (Some t)" and "open_stream () = Inr source"
    and "readAll source = Inr bytes" "utf8_valid bytes" "ra_ranges args = Some rs" "read_schema args"
  shows "\<exists>k. lineNumbers (sl_lines t) (sl_startLine t) (Some rs) =
      Some (take k (lines_in_ranges rs (sl_startLine t) (text_lines (text_of bytes)))) \<and>
    (sl_nextLine t = None \<longleftrightarrow> length (lines_in_ranges rs (sl_startLine t) (text_lines (text_of bytes))) \<le> k)"
proof -
  let ?q = "line_request_of json args" and ?lines = "text_lines (text_of bytes)"
  have q: "lq_ranges ?q = Some (sort_ranges rs)" using assms by (simp add: line_request_of_def Let_def)
  have source: "snd source = None" "concat (fst source) = bytes"
    using assms by (auto simp: readAll_def split: option.splits)
  obtain s where
    run: "read_stream_lines ?q (fst source) (snd source) new_decoder '''' new_reader = Inr (Lines s)"
    and t: "sl_lines t = lr_lines s" "sl_startLine t = lq_start ?q" "sl_nextLine t = lr_nextLine s"
    using stream assms(2) by (auto simp: streamArtifactLines_def Let_def res_simps case_Lines_Some)
  obtain k where k: "lr_lines s = map snd (take k (numbered ?q 0 ?lines))"
    "lr_nextLine s = (if k < length (numbered ?q 0 ?lines) then Some (fst (numbered ?q 0 ?lines ! k)) else None)"
    using stream_page [of "fst source" ?q] run source assms(4) by (auto simp: page_of_def)
  have pos: "0 < lq_start ?q" by (rule start_line_positive) (use assms in auto)
  have sel: "map (\<lambda>(i, x). (int i, x)) (numbered ?q 0 ?lines) = lines_in_ranges rs (lq_start ?q) ?lines"
    using numbered_lines_in_ranges [OF q, of ?lines] lines_in_ranges_cong [of "sort_ranges rs" rs]
    by (simp add: fun_eq_iff)
  have "number_in_ranges rs (lq_start ?q) (lr_lines s) =
      Some (take k (lines_in_ranges rs (lq_start ?q) ?lines))"
    unfolding k sel [symmetric] take_map [symmetric]
    using numbered_in_ranges [OF q pos, of k ?lines] number_in_ranges_cong [of "sort_ranges rs" rs]
    by (simp add: fun_eq_iff take_map)
  moreover have "length (numbered ?q 0 ?lines) = length (lines_in_ranges rs (lq_start ?q) ?lines)"
    unfolding sel [symmetric] by simp
  ultimately show ?thesis using t k by (intro exI [of _ k]) (simp add: lineNumbers_def not_less)
qed

section \<open>When a call returns\<close>

definition line_count :: "file_read_result \<Rightarrow> nat" where
  "line_count r = (case fr_lines r of None \<Rightarrow> 0 | Some ls \<Rightarrow> length ls)"

text \<open>The guest answered a read with more lines than the ranges select.\<close>

definition too_many_lines :: "'w tool_env \<Rightarrow> file_context \<Rightarrow> read_arguments \<Rightarrow> bool" where
  "too_many_lines env cx args \<longleftrightarrow>
     (\<exists>rs i w r w1. ra_ranges args = Some rs \<and> agent_read (te_jsonSize env) (sender env cx) i w = (Inr r, w1) \<and>
        card (selected rs (start_line (te_json env) args (Some rs))) < line_count r)"

lemma workspaceReadResult_None:
  "workspaceReadResult json path r args = None \<longleftrightarrow> \<not> fr_isDirectory r \<and>
     (\<exists>rs. ra_ranges args = Some rs \<and> card (selected rs (start_line json args (Some rs))) < line_count r)"
  by (auto simp: workspaceReadResult_def Let_def lineNumbers_def number_in_ranges_eq line_count_def
    split: option.splits)

lemma agents_read_None:
  assumes "on_agents (agent_read (te_jsonSize env) (sender env cx) i) s = (Inr r, s')"
    and "workspaceReadResult (te_json env) path r args = None"
  shows "too_many_lines env cx args"
proof -
  from assms(1) obtain w w1 where "agent_read (te_jsonSize env) (sender env cx) i w = (Inr r, w1)"
    by (auto simp: on_agents_def split: prod.splits)
  then show ?thesis using assms(2) unfolding workspaceReadResult_None too_many_lines_def by blast
qed

lemma read_exported_None: "read_exported env cx path mediaType s \<noteq> (Inr None, s')"
  by (auto simp: read_exported_def io_simps)

lemma read_workspace_None: "read_workspace env args cx s = (Inr None, s') \<Longrightarrow> too_many_lines env cx args"
  by (auto simp: read_workspace_def read_directory_def read_raw_def read_text_def Let_def read_exported_None
      io_bind_Inr io_return_iff split: if_splits intro: agents_read_None)

lemma handleRead_None:
  assumes "handleRead env args s = (Inr None, s')"
  shows "\<exists>cx. fileContext env (dm_db s) = Inr cx \<and> too_many_lines env cx args"
proof -
  from assms have "with_context env (read_workspace env args) s = (Inr None, s')"
    by (auto simp: handleRead_def io_simps readArtifact_returns split: option.splits if_splits)
  then show ?thesis by (auto simp: with_context_def split: sum.splits dest: read_workspace_None)
qed

lemma run_tool_None:
  assumes "run_tool env c s = (Inr None, s')"
  shows "\<exists>args cx. c = Read args \<and> fileContext env (dm_db s) = Inr cx \<and> too_many_lines env cx args"
  using assms
  by (cases c) (auto simp: io_simps shell_tool_def file_tool_def answers_def dest!: handleRead_None)

end
