(* ===== verification/Artifacts_Inv.thy ===== *)
theory Artifacts_Inv
  imports Artifacts Repository_Inv
begin

text \<open>
  What the artifact store keeps: the names of the store directory are the SHA-256 of the files
  they name, and every artifact row has its file. The lemmas follow \<open>putStream\<close> through its
  file operations, whichever of them fails.
\<close>

section \<open>A file system with a root\<close>

definition root_ok :: "fs \<Rightarrow> bool" where
  "root_ok f \<longleftrightarrow> fs_ok f \<and> is_dir f []"

lemma root_ok_confined: "root_ok f \<longleftrightarrow> confined [] (\<lambda>_. None) f"
  by (auto simp: root_ok_def confined_def sealed_def outside_def)

lemma root_ok_apply: "root_ok f \<Longrightarrow> op_below [] op \<Longrightarrow> fs_apply op f = Inr f' \<Longrightarrow> root_ok f'"
  unfolding root_ok_confined by (rule confined_apply)

lemma fs_run_Inr: "fs_run io op f = Inr f' \<Longrightarrow> fs_apply op f = Inr f'"
  by (auto simp: fs_run_def bind_res_Inr)

lemma bodies_names: "bodies f p = None \<longleftrightarrow> f_names f p = None"
  by (simp add: bodies_def lookup_inode_def)

lemma bodies_mkdirp_other:
  "root_ok f \<Longrightarrow> mkdirp m q ps f = Inr f' \<Longrightarrow> \<not> prefix p (q @ ps) \<Longrightarrow> bodies f' p = bodies f p"
proof (induction m q ps f arbitrary: f' rule: mkdirp.induct)
  case (2 m q x xs f)
  show ?case
  proof (cases "f_names f (q @ [x]) = None")
    case True
    then obtain g where g: "create (q @ [x]) B_dir m f = Inr g" "mkdirp m (q @ [x]) xs g = Inr f'"
      using 2(4) by (auto simp: bind_res_Inr)
    have "root_ok g" using root_ok_apply [of f "Op_mkdir (q @ [x]) m" g] 2(3) g(1) by (simp add: strict_prefix_def)
    moreover have "p \<noteq> q @ [x]" using 2(5) by auto
    moreover have "bodies g = (bodies f)(q @ [x] := Some B_dir)"
      using bodies_create g(1) 2(3) by (simp add: root_ok_def)
    ultimately show ?thesis using 2(1) [OF True _ g(2)] 2(5) by simp
  next
    case False
    then show ?thesis using 2 by (auto split: if_splits)
  qed
qed simp

lemma bodies_rm:
  assumes "fs_apply (Op_rm p) f = Inr f'" "fs_ok f"
  shows "bodies f' q = (if prefix p q then None else bodies f q)"
proof (cases "f_names f p = None")
  case True
  then show ?thesis using assms absent_below [OF assms(2) True] by (auto simp: bodies_names)
next
  case False
  then have "f' = rm_names p (touch_dir (butlast p) f)" using assms(1) by auto
  then have "bodies f' q = (if prefix p q then None else bodies (touch_dir (butlast p) f) q)"
    by (simp add: bodies_def lookup_rm del: bodies_touch)
  then show ?thesis by (simp only: bodies_touch)
qed

lemma root_ok_rm:
  assumes "root_ok f" "p \<noteq> []" "fs_apply (Op_rm p) f = Inr f'"
  shows "root_ok f'"
proof -
  have "fs_ok f'" using assms by (auto simp: root_ok_def intro: fs_ok_rm fs_ok_touch split: if_splits)
  moreover have "bodies f' [] = bodies f []" using bodies_rm [OF assms(3)] assms(1,2) by (simp add: root_ok_def)
  ultimately show ?thesis using assms(1) by (simp add: root_ok_def is_dir_bodies)
qed

section \<open>A file that is being written\<close>

text \<open>The file has one name, and everything else is as in \<open>f0\<close>.\<close>

definition writing :: "path \<Rightarrow> byte list \<Rightarrow> fs \<Rightarrow> fs \<Rightarrow> bool" where
  "writing t bs f0 f \<longleftrightarrow> root_ok f \<and> bodies f = (bodies f0)(t := Some (B_file bs)) \<and>
     (\<exists>i. f_names f t = Some i \<and> (\<forall>q. f_names f q = Some i \<longrightarrow> q = t))"

lemma writing_create:
  assumes "root_ok f0" "t \<noteq> []" "fs_apply (Op_write t [] m) f0 = Inr f"
  shows "writing t [] f0 f" "bodies f0 t = None"
proof -
  have c: "create t (B_file []) m f0 = Inr f" using assms(3) by simp
  have "root_ok f" using root_ok_apply [OF assms(1) _ assms(3)] assms(2) by (simp add: strict_prefix_def)
  moreover have "f_names f = (f_names f0)(t := Some (f_next f0))"
    using c by (auto simp: create_def add_name_def split: if_splits)
  moreover have "f_names f0 q \<noteq> Some (f_next f0)" for q
    using assms(1) by (auto simp: root_ok_def fs_ok_def)
  ultimately show "writing t [] f0 f"
    using bodies_create [OF _ c] assms(1) unfolding writing_def root_ok_def
    by (metis (no_types, lifting) fun_upd_apply)
  show "bodies f0 t = None" using c by (rule create_new)
qed

lemma bodies_change_body:
  assumes "f_names f t = Some i" "\<forall>q. f_names f q = Some i \<longrightarrow> q = t"
  shows "bodies (change_inode i g f) = (bodies f)(t := Some (i_body (g (f_inodes f i))))"
proof
  fix q
  show "bodies (change_inode i g f) q = ((bodies f)(t := Some (i_body (g (f_inodes f i))))) q"
  proof (cases "q = t")
    case True
    then show ?thesis using assms(1) by (simp add: bodies_def lookup_inode_def)
  next
    case False
    then have "f_names f q \<noteq> Some i" using assms(2) by blast
    then show ?thesis using False by (cases "f_names f q") (auto simp: bodies_def lookup_inode_def)
  qed
qed

lemma writing_append:
  assumes "writing t bs f0 f" "fs_apply (Op_append t cs) f = Inr f'"
  shows "writing t (bs @ cs) f0 f'"
proof -
  obtain i where i: "f_names f t = Some i" "\<forall>q. f_names f q = Some i \<longrightarrow> q = t"
    and b: "bodies f = (bodies f0)(t := Some (B_file bs))" "root_ok f"
    using assms(1) unfolding writing_def by blast
  have f': "f' = change_inode i (add_bytes cs) f" using assms(2) i(1) by (simp add: change_at_def)
  have "bodies f t = Some (B_file bs)" using b by simp
  then have "i_body (f_inodes f i) = B_file bs" using i(1) by (simp add: bodies_def lookup_inode_def)
  then have "bodies f' = (bodies f0)(t := Some (B_file (bs @ cs)))"
    unfolding f' bodies_change_body [OF i] b by (simp add: add_bytes_def)
  moreover have "root_ok f'" using root_ok_apply [OF b(2) _ assms(2)] by simp
  moreover have "f_names f' = f_names f" by (simp add: f')
  ultimately show ?thesis using i unfolding writing_def by metis
qed

lemma append_chunks_writing:
  assumes "writing (path_parts t) bs f0 f"
  shows "case append_chunks io t chunks f of
      Inl (e, f') \<Rightarrow> \<exists>cs. writing (path_parts t) cs f0 f'
    | Inr f' \<Rightarrow> writing (path_parts t) (bs @ concat chunks) f0 f'"
  using assms
proof (induction chunks arbitrary: bs f)
  case Nil
  then show ?case by simp
next
  case (Cons c chunks)
  show ?case
  proof (cases "c = []")
    case True
    then show ?thesis using Cons.IH [OF Cons.prems] by (auto split: sum.splits)
  next
    case False
    show ?thesis
    proof (cases "fs_run io (Op_append (path_parts t) c) f")
      case (Inl e)
      then show ?thesis using False Cons.prems by auto
    next
      case (Inr g)
      then have "writing (path_parts t) (bs @ c) f0 g" using writing_append Cons.prems fs_run_Inr by blast
      from Cons.IH [OF this] show ?thesis using False Inr by (auto split: sum.splits)
    qed
  qed
qed

text \<open>Linking the file to a second name.\<close>

lemma writing_link:
  assumes "writing t bs f0 f" "q \<noteq> []" "q \<noteq> t" "fs_apply (Op_link t q) f = Inr f'"
  shows "root_ok f'" "bodies f' = (bodies f0)(t := Some (B_file bs), q := Some (B_file bs))" "bodies f0 q = None"
proof -
  obtain i where i: "f_names f t = Some i" and b: "bodies f = (bodies f0)(t := Some (B_file bs))" "root_ok f"
    using assms(1) unfolding writing_def by blast
  have add: "add_name q i f = Inr f'" using assms(4) i by (auto split: if_splits)
  show "root_ok f'" using root_ok_apply [OF b(2) _ assms(4)] assms(2) by (simp add: strict_prefix_def)
  have "i_body (f_inodes f i) = B_file bs"
    using fun_cong [OF b(1), of t] i by (simp add: bodies_def lookup_inode_def)
  then show "bodies f' = (bodies f0)(t := Some (B_file bs), q := Some (B_file bs))"
    using bodies_add_name [OF add] b by simp
  have "bodies f q = None" using add by (auto simp: add_name_def bodies_names split: if_splits)
  then show "bodies f0 q = None" using b assms(3) by simp
qed

section \<open>What a put may change\<close>

text \<open>Apart from the temporary file \<open>t\<close>, at most the name \<open>q\<close> is new, and then it is the content.\<close>

definition kept :: "path \<Rightarrow> path \<Rightarrow> byte list \<Rightarrow> fs \<Rightarrow> fs \<Rightarrow> bool" where
  "kept t q c f0 f \<longleftrightarrow> root_ok f \<and> (\<forall>p. \<not> prefix t p \<and> p \<noteq> q \<longrightarrow> bodies f p = bodies f0 p) \<and>
     (bodies f q = bodies f0 q \<or> bodies f0 q = None \<and> bodies f q = Some (B_file c))"

lemma writing_kept: "writing t bs f0 f \<Longrightarrow> q \<noteq> t \<Longrightarrow> kept t q c f0 f"
  by (auto simp: writing_def kept_def)

lemma kept_rm:
  assumes "kept t q c f0 f" "t \<noteq> []" "\<not> prefix t q" "fs_run io (Op_rm t) f = Inr f'"
  shows "kept t q c f0 f'" "bodies f' q = bodies f q"
  using assms bodies_rm [OF fs_run_Inr [OF assms(4)]] root_ok_rm [OF _ assms(2) fs_run_Inr [OF assms(4)]]
  by (auto simp: kept_def root_ok_def)

lemma kept_rm_name:
  assumes "kept t q c f0 f" "q \<noteq> []" "\<not> prefix q t" "root_ok f0" "bodies f0 q = None"
    and "fs_run io (Op_rm q) f = Inr f'"
  shows "kept t q c f0 f'"
proof -
  have f': "fs_apply (Op_rm q) f = Inr f'" by (rule fs_run_Inr [OF assms(6)])
  have ok: "fs_ok f" using assms(1) by (simp add: kept_def root_ok_def)
  have below: "bodies f0 p = None" if "prefix q p" for p
    using absent_below [of f0 q p] that assms(4,5) by (simp add: root_ok_def bodies_names)
  have "bodies f' p = bodies f0 p" if "\<not> prefix t p" for p
    using bodies_rm [OF f' ok, of p] below [of p] assms(1) that by (auto simp: kept_def)
  moreover have "bodies f' q = None" using bodies_rm [OF f' ok, of q] by simp
  moreover have "root_ok f'" using root_ok_rm [OF _ assms(2) f'] assms(1) by (simp add: kept_def)
  ultimately show ?thesis using assms(5) by (simp add: kept_def)
qed

definition io_honest :: "(fs_op \<Rightarrow> unit res) \<Rightarrow> bool" where
  "io_honest io \<longleftrightarrow> (\<forall>op. io op \<noteq> Inl EEXIST)"

lemma install_kept:
  assumes w: "writing (path_parts t) c f0 f" and q: "path_parts q \<noteq> []" "path_parts q \<noteq> path_parts t"
    and io: "io_honest io" and run: "install io t q f = (e, made, f')"
  shows "kept (path_parts t) (path_parts q) c f0 f'"
    "made \<Longrightarrow> bodies f0 (path_parts q) = None"
    "e = None \<Longrightarrow> bodies f' (path_parts q) \<noteq> None"
    "e = None \<Longrightarrow> \<not> made \<Longrightarrow> bodies f' (path_parts q) = bodies f0 (path_parts q)"
    "made \<Longrightarrow> bodies f' (path_parts q) = Some (B_file c)"
proof -
  let ?link = "Op_link (path_parts t) (path_parts q)" and ?chmod = "Op_chmod (path_parts q) 256"
  have all: "kept (path_parts t) (path_parts q) c f0 f' \<and> (made \<longrightarrow> bodies f0 (path_parts q) = None) \<and>
    (e = None \<longrightarrow> bodies f' (path_parts q) \<noteq> None) \<and>
    (e = None \<and> \<not> made \<longrightarrow> bodies f' (path_parts q) = bodies f0 (path_parts q)) \<and>
    (made \<longrightarrow> bodies f' (path_parts q) = Some (B_file c))"
  proof (cases "fs_run io ?link f")
    case (Inl x)
    then have r: "e = (if x = EEXIST then None else Some x)" "\<not> made" "f' = f"
      using run by (auto simp: install_def)
    have "bodies f (path_parts q) \<noteq> None" if "x = EEXIST"
    proof -
      have "fs_apply ?link f = Inl EEXIST"
        using Inl io that by (cases "io ?link") (auto simp: fs_run_def io_honest_def)
      then show ?thesis
        by (auto simp: EEXIST_def add_name_def bodies_names split: option.splits if_splits)
    qed
    then show ?thesis using r writing_kept [OF w q(2)] w q(2) by (auto simp: writing_def)
  next
    case (Inr g)
    note g = writing_link [OF w q fs_run_Inr [OF Inr]]
    have chmod: "root_ok h \<and> bodies h = bodies g" if "fs_run io ?chmod g = Inr h" for h
      using that root_ok_apply [OF g(1), of ?chmod h] bodies_change_at [of "path_parts q" _ g h]
      by (auto dest!: fs_run_Inr)
    have "made \<and> root_ok f' \<and> bodies f' = bodies g"
      using run Inr g(1) chmod by (cases "fs_run io ?chmod g") (auto simp: install_def)
    then show ?thesis using g q(2) by (auto simp: kept_def)
  qed
  then show "kept (path_parts t) (path_parts q) c f0 f'"
    "made \<Longrightarrow> bodies f0 (path_parts q) = None" "e = None \<Longrightarrow> bodies f' (path_parts q) \<noteq> None"
    "e = None \<Longrightarrow> \<not> made \<Longrightarrow> bodies f' (path_parts q) = bodies f0 (path_parts q)"
    "made \<Longrightarrow> bodies f' (path_parts q) = Some (B_file c)" by blast+
qed

text \<open>The temporary file and the installed name are siblings.\<close>

definition sibling_names :: "path \<Rightarrow> path \<Rightarrow> bool" where
  "sibling_names t q \<longleftrightarrow> t \<noteq> [] \<and> q \<noteq> [] \<and> \<not> prefix t q \<and> \<not> prefix q t"

lemma put_failed_kept:
  assumes s: "sibling_names (path_parts t) (path_parts q)" and k: "kept (path_parts t) (path_parts q) c f0 f"
    and f0: "root_ok f0" "made \<Longrightarrow> bodies f0 (path_parts q) = None"
    and run: "put_failed io t (if made then Some q else None) e f = (r, f')"
  shows "kept (path_parts t) (path_parts q) c f0 f' \<and> \<not> is_ok r"
proof (cases "fs_run io (Op_rm (path_parts t)) f")
  case (Inl x)
  then show ?thesis using run k by (auto simp: put_failed_def)
next
  case (Inr g)
  have g: "kept (path_parts t) (path_parts q) c f0 g"
    using kept_rm [OF k _ _ Inr] s by (simp add: sibling_names_def)
  show ?thesis
  proof (cases "made \<and> is_ok (fs_run io (Op_rm (path_parts q)) g)")
    case True
    then obtain h where h: "fs_run io (Op_rm (path_parts q)) g = Inr h" by (auto simp: is_ok_def split: sum.splits)
    then have "kept (path_parts t) (path_parts q) c f0 h"
      using kept_rm_name [OF g _ _ f0(1) f0(2) h] s True by (simp add: sibling_names_def)
    then show ?thesis using run Inr h True by (auto simp: put_failed_def)
  next
    case False
    then show ?thesis using run Inr g by (auto simp: put_failed_def is_ok_def split: if_splits sum.splits)
  qed
qed

definition stored_row :: "digest \<Rightarrow> string \<Rightarrow> nat \<Rightarrow> artifact_metadata \<Rightarrow> artifact_row" where
  "stored_row digest path n m = \<lparr>a_digest = digest, a_kind = ''tool'', a_path = path, a_sizeBytes = int n, a_metadata = m\<rparr>"

text \<open>The end of a put: it failed and the database is as before, or the file is there, the row
  is stored and the result is what \<open>resolve\<close> finds.\<close>

definition put_result :: "path \<Rightarrow> path \<Rightarrow> byte list \<Rightarrow> fs \<Rightarrow> (db \<Rightarrow> db) \<Rightarrow> string \<Rightarrow> digest \<Rightarrow> db \<Rightarrow> artifact_ref res \<Rightarrow> fs \<Rightarrow> db \<Rightarrow> bool" where
  "put_result t q c f0 grant threadId digest d r f' d' \<longleftrightarrow> kept t q c f0 f' \<and>
     (\<not> is_ok r \<and> d' = d \<or>
      d' = grant d \<and> bodies f' q \<noteq> None \<and> r = resolve_artifact f' d' threadId digest)"

lemma put_stored_result:
  assumes w: "writing (path_parts t) c f0 f" and s: "sibling_names (path_parts t) (path_parts q)"
    and f0: "root_ok f0" and io: "io_honest io"
    and run: "put_stored io threadId t q digest n m f d = (r, f', d')"
  shows "put_result (path_parts t) (path_parts q) c f0 (putArtifactAndGrant threadId digest q (int n) m)
    threadId digest d r f' d'"
proof -
  obtain e made f1 where i: "install io t q f = (e, made, f1)" by (metis prod_cases3)
  have q: "path_parts q \<noteq> []" "path_parts q \<noteq> path_parts t" using s by (auto simp: sibling_names_def)
  note inst = install_kept [OF w q io i]
  have failed: "kept (path_parts t) (path_parts q) c f0 f2 \<and> \<not> is_ok x"
    if "put_failed io t (if made then Some q else None) e2 f1 = (x, f2)" for e2 and x :: "artifact_ref res" and f2
    using put_failed_kept [OF s inst(1) f0 inst(2) that] by blast
  show ?thesis
  proof (cases e)
    case (Some x)
    then show ?thesis using run i failed by (auto simp: put_stored_def put_result_def split: prod.splits)
  next
    case None
    show ?thesis
    proof (cases "fs_run io (Op_rm (path_parts t)) f1")
      case (Inl x)
      then show ?thesis using None run i failed by (auto simp: put_stored_def put_result_def split: prod.splits)
    next
      case (Inr g)
      have "kept (path_parts t) (path_parts q) c f0 g" "bodies g (path_parts q) \<noteq> None"
        using kept_rm [OF inst(1) _ _ Inr] inst(3) [OF None] s by (simp_all add: sibling_names_def)
      then show ?thesis using None run i Inr by (auto simp: put_stored_def put_result_def Let_def)
    qed
  qed
qed

section \<open>The invariant of the store\<close>

definition hex_name :: "string \<Rightarrow> bool" where
  "hex_name h \<longleftrightarrow> length h = 64 \<and> list_all is_hex h"

definition row_ok :: "path \<Rightarrow> fs \<Rightarrow> artifact_row \<Rightarrow> bool" where
  "row_ok rp f a \<longleftrightarrow> a_kind a = ''tool'' \<and> is_digest (a_digest a) \<and>
     a_path a = abs_path (rp @ [drop 7 (a_digest a)]) \<and>
     (\<exists>bs. bodies f (rp @ [drop 7 (a_digest a)]) = Some (B_file bs) \<and> int (length bs) = a_sizeBytes a)"

definition names_ok :: "(string \<Rightarrow> string) \<Rightarrow> path \<Rightarrow> fs \<Rightarrow> bool" where
  "names_ok sha rp f \<longleftrightarrow> (\<forall>h b. hex_name h \<and> bodies f (rp @ [h]) = Some b \<longrightarrow>
     (\<exists>bs. b = B_file bs \<and> sha (string_of bs) = h))"

definition store_ok :: "(string \<Rightarrow> string) \<Rightarrow> path \<Rightarrow> fs \<Rightarrow> db \<Rightarrow> bool" where
  "store_ok sha rp f d \<longleftrightarrow> root_ok f \<and> names_ok sha rp f \<and> list_all (row_ok rp f) (db_artifacts d)"

text \<open>What the store is configured with: a normal absolute directory, a name without slashes for
  the temporary file, a hash function with 64 hexadecimal digits, and file operations that report
  \<open>EEXIST\<close> only where a name exists.\<close>

definition put_setup :: "(fs_op \<Rightarrow> unit res) \<Rightarrow> (string \<Rightarrow> string) \<Rightarrow> path \<Rightarrow> string \<Rightarrow> bool" where
  "put_setup io sha rp uuid \<longleftrightarrow> good_path rp \<and> rp \<noteq> [] \<and> CHR ''/'' \<notin> set uuid \<and> (\<forall>x. hex_name (sha x)) \<and> io_honest io"

definition no_collision :: "(string \<Rightarrow> string) \<Rightarrow> path \<Rightarrow> fs \<Rightarrow> byte list \<Rightarrow> bool" where
  "no_collision sha rp f c \<longleftrightarrow> (\<forall>bs. bodies f (rp @ [sha (string_of c)]) = Some (B_file bs) \<longrightarrow> bs = c)"

lemma hex_name_plain: "hex_name h \<Longrightarrow> plain_part h \<and> CHR ''/'' \<notin> set h \<and> h \<noteq> temporary_name uuid"
  by (cases h) (auto simp: hex_name_def plain_part_def is_hex_def list_all_iff temporary_name_def)

lemma hex_name_digest: "hex_name h \<longleftrightarrow> is_digest (''sha256:'' @ h)"
  by (simp add: hex_name_def is_digest_def)

lemma is_digest_hex: "is_digest g \<Longrightarrow> hex_name (drop 7 g)"
  by (simp add: hex_name_def is_digest_def)

lemma digest_of_drop [simp]: "drop 7 (digest_of sha x) = sha x"
  by (simp add: digest_of_def)

lemma root_join: "good_path rp \<Longrightarrow> rp \<noteq> [] \<Longrightarrow> plain_part n \<Longrightarrow> CHR ''/'' \<notin> set n \<Longrightarrow>
    path_join [abs_path rp, n] = abs_path (rp @ [n]) \<and> path_parts (abs_path (rp @ [n])) = rp @ [n]"
  by (rule conjI, simp add: path_join_def abs_path_append) (rule path_parts_abs, simp)

lemma setup_paths:
  assumes "put_setup io sha rp uuid"
  shows "path_parts (temporary_path (abs_path rp) uuid) = rp @ [temporary_name uuid]"
    and "path_join [abs_path rp, sha x] = abs_path (rp @ [sha x])"
    and "path_parts (abs_path (rp @ [sha x])) = rp @ [sha x]"
    and "sibling_names (rp @ [temporary_name uuid]) (rp @ [sha x])"
proof -
  have s: "good_path rp" "rp \<noteq> []" "hex_name (sha x)" and u: "CHR ''/'' \<notin> set uuid"
    using assms by (auto simp: put_setup_def)
  note h = hex_name_plain [OF s(3), of uuid]
  show "path_parts (temporary_path (abs_path rp) uuid) = rp @ [temporary_name uuid]"
    using root_join [of rp "temporary_name uuid"] s u by (simp add: temporary_path_def temporary_name_def plain_part_def)
  show "path_join [abs_path rp, sha x] = abs_path (rp @ [sha x])"
    "path_parts (abs_path (rp @ [sha x])) = rp @ [sha x]"
    using root_join [of rp "sha x"] s h by auto
  show "sibling_names (rp @ [temporary_name uuid]) (rp @ [sha x])"
    using h by (auto simp: sibling_names_def)
qed

lemma writing_start: "writing t bs f0 f \<Longrightarrow> sibling_names t q \<Longrightarrow> kept t q c f0 f"
  by (rule writing_kept) (auto simp: sibling_names_def)

text \<open>The whole of \<open>putStream\<close>, relative to the file system after its \<open>mkdir\<close>.\<close>

lemma putStream_result:
  assumes cfg: "put_setup io sha rp uuid" and f: "root_ok f"
    and run: "putStream io sha (abs_path rp) uuid threadId source mediaType filename f d = (r, f', d')"
  defines "c \<equiv> concat (fst source)"
  defines "q \<equiv> rp @ [sha (string_of c)]"
  shows "f' = f \<and> d' = d \<and> \<not> is_ok r \<or>
    (\<exists>f0. root_ok f0 \<and> (\<forall>p. \<not> prefix p rp \<longrightarrow> bodies f0 p = bodies f p) \<and>
      put_result (rp @ [temporary_name uuid]) q c f0
        (putArtifactAndGrant threadId (digest_of sha (string_of c)) (abs_path q) (int (length c)) (stored_metadata mediaType filename))
        threadId (digest_of sha (string_of c)) d r f' d')"
proof (cases "fs_run io (Op_mkdirp (path_parts (abs_path rp)) 448) f")
  case (Inl e)
  then show ?thesis using run by (auto simp: putStream_def Let_def)
next
  case (Inr f0)
  let ?t = "temporary_path (abs_path rp) uuid" and ?q = "abs_path q"
  note paths = setup_paths [OF cfg]
  have t: "path_parts ?t = rp @ [temporary_name uuid]" and sib: "sibling_names (path_parts ?t) (path_parts ?q)"
    and q: "path_parts ?q = q" using paths by (simp_all add: q_def)
  have rp: "good_path rp" using cfg by (simp add: put_setup_def)
  have mk: "mkdirp 448 [] rp f = Inr f0" using fs_run_Inr [OF Inr] rp by simp
  have f0: "root_ok f0" using root_ok_apply [OF f _ fs_run_Inr [OF Inr]] by simp
  have same: "\<not> prefix p rp \<longrightarrow> bodies f0 p = bodies f p" for p
    using bodies_mkdirp_other [OF f mk, of p] by simp
  have "put_result (path_parts ?t) (path_parts ?q) c f0
      (putArtifactAndGrant threadId (digest_of sha (string_of c)) ?q (int (length c)) (stored_metadata mediaType filename))
      threadId (digest_of sha (string_of c)) d r f' d'"
  proof (cases "fs_run io (Op_write (path_parts ?t) [] 384) f0")
    case (Inl e)
    then have "f' = f0" "d' = d" "\<not> is_ok r" using run Inr by (auto simp: putStream_def Let_def)
    then show ?thesis using f0 by (simp add: put_result_def kept_def)
  next
    case w: (Inr f2)
    have "path_parts ?t \<noteq> []" using t by simp
    note new = writing_create [OF f0 this fs_run_Inr [OF w]]
    have failed: "put_result (path_parts ?t) (path_parts ?q) c f0 grant threadId dig d x g d"
      if "writing (path_parts ?t) bs f0 h" "put_failed io ?t None e h = (x, g)" for bs h e and x :: "artifact_ref res" and g grant dig
      using put_failed_kept [OF sib writing_start [OF that(1) sib] f0, of False io e x g] that(2)
      by (simp add: put_result_def)
    show ?thesis
    proof (cases "append_chunks io ?t (fst source) f2")
      case (Inl ef)
      then obtain e g where ef: "append_chunks io ?t (fst source) f2 = Inl (e, g)" by (cases ef) simp
      then obtain cs where "writing (path_parts ?t) cs f0 g"
        using append_chunks_writing [OF new(1), where io = io and chunks = "fst source"] by auto
      from failed [OF this] show ?thesis using run Inr w ef by (auto simp: putStream_def Let_def split: prod.splits)
    next
      case (Inr g)
      then have g: "writing (path_parts ?t) c f0 g"
        using append_chunks_writing [OF new(1), where io = io and chunks = "fst source"] by (simp add: c_def)
      show ?thesis
      proof (cases "snd source")
        case (Some e)
        then show ?thesis using run \<open>fs_run io (Op_mkdirp _ _) f = _\<close> w Inr failed [OF g]
          by (auto simp: putStream_def Let_def split: prod.splits)
      next
        case None
        then have "put_stored io threadId ?t ?q (digest_of sha (string_of c)) (length c)
            (stored_metadata mediaType filename) g d = (r, f', d')"
          using run \<open>fs_run io (Op_mkdirp _ _) f = _\<close> w Inr paths(2) by (simp add: putStream_def Let_def c_def q_def)
        then show ?thesis
          using put_stored_result [OF g sib f0] cfg unfolding put_setup_def by blast
      qed
    qed
  qed
  then show ?thesis using f0 same t q by auto
qed

lemma hex_not_below: "hex_name h \<Longrightarrow> rp \<noteq> [] \<Longrightarrow> \<not> prefix (rp @ [temporary_name uuid]) (rp @ [h]) \<and> \<not> prefix (rp @ [h]) rp"
  using hex_name_plain [of h uuid] by (auto simp: prefix_def)

lemma put_artifacts:
  "a \<in> set (db_artifacts (putArtifactAndGrant threadId dig path n m d)) \<Longrightarrow>
   a \<in> set (db_artifacts d) \<or> a = \<lparr>a_digest = dig, a_kind = ''tool'', a_path = path, a_sizeBytes = n, a_metadata = m\<rparr>"
  by (auto simp: putArtifactAndGrant_def Let_def split: if_splits)

text \<open>The names of the store directory before and after a put: they stay, and the name of the
  new content may be added.\<close>

lemma putStream_names:
  assumes cfg: "put_setup io sha rp uuid" and f: "root_ok f" and h: "hex_name h"
    and run: "putStream io sha (abs_path rp) uuid threadId source mediaType filename f d = (r, f', d')"
  defines "c \<equiv> concat (fst source)"
  shows "root_ok f'" "bodies f' (rp @ [h]) = bodies f (rp @ [h]) \<or>
    h = sha (string_of c) \<and> bodies f (rp @ [h]) = None \<and> bodies f' (rp @ [h]) = Some (B_file c)"
proof -
  have rp: "rp \<noteq> []" using cfg by (simp add: put_setup_def)
  note h' = hex_not_below [OF h rp, of uuid]
  have "root_ok f' \<and> (bodies f' (rp @ [h]) = bodies f (rp @ [h]) \<or>
    h = sha (string_of c) \<and> bodies f (rp @ [h]) = None \<and> bodies f' (rp @ [h]) = Some (B_file c))"
    using putStream_result [OF cfg f run]
  proof (elim disjE exE conjE)
    fix f0 assume f0: "root_ok f0" "\<forall>p. \<not> prefix p rp \<longrightarrow> bodies f0 p = bodies f p"
      and "put_result (rp @ [temporary_name uuid]) (rp @ [sha (string_of (concat (fst source)))]) (concat (fst source)) f0
        (putArtifactAndGrant threadId (digest_of sha (string_of (concat (fst source))))
          (abs_path (rp @ [sha (string_of (concat (fst source)))])) (int (length (concat (fst source)))) (stored_metadata mediaType filename))
        threadId (digest_of sha (string_of (concat (fst source)))) d r f' d'"
    then have k: "kept (rp @ [temporary_name uuid]) (rp @ [sha (string_of c)]) c f0 f'"
      by (simp add: put_result_def c_def)
    have "bodies f0 (rp @ [h]) = bodies f (rp @ [h])" using f0(2) h' by blast
    then show ?thesis using k h' by (cases "h = sha (string_of c)") (auto simp: kept_def)
  qed (use f in auto)
  then show "root_ok f'" "bodies f' (rp @ [h]) = bodies f (rp @ [h]) \<or>
    h = sha (string_of c) \<and> bodies f (rp @ [h]) = None \<and> bodies f' (rp @ [h]) = Some (B_file c)" by blast+
qed

lemma row_ok_keeps:
  assumes "row_ok rp f a" "bodies f' (rp @ [drop 7 (a_digest a)]) = bodies f (rp @ [drop 7 (a_digest a)])"
  shows "row_ok rp f' a"
  using assms by (simp add: row_ok_def)

lemma putStream_store_ok:
  assumes cfg: "put_setup io sha rp uuid" and ok: "store_ok sha rp f d"
    and new: "no_collision sha rp f (concat (fst source))"
    and run: "putStream io sha (abs_path rp) uuid threadId source mediaType filename f d = (r, f', d')"
  shows "store_ok sha rp f' d'"
proof -
  let ?c = "concat (fst source)"
  let ?h = "sha (string_of ?c)"
  have f: "root_ok f" and names: "names_ok sha rp f" and rows: "list_all (row_ok rp f) (db_artifacts d)"
    using ok by (auto simp: store_ok_def)
  have hex: "hex_name ?h" using cfg by (simp add: put_setup_def)
  note at = putStream_names [OF cfg f _ run]
  have "names_ok sha rp f'"
    unfolding names_ok_def
  proof (intro allI impI, elim conjE)
    fix h b assume h: "hex_name h" and b: "bodies f' (rp @ [h]) = Some b"
    show "\<exists>bs. b = B_file bs \<and> sha (string_of bs) = h"
      using at(2) [OF h] b names h by (auto simp: names_ok_def)
  qed
  moreover have old: "row_ok rp f' a" if "a \<in> set (db_artifacts d)" for a
  proof -
    have a: "row_ok rp f a" using that rows by (simp add: list_all_iff)
    then have "hex_name (drop 7 (a_digest a))" by (simp add: row_ok_def is_digest_hex)
    from at(2) [OF this] a show ?thesis by (auto simp: row_ok_def)
  qed
  moreover have "row_ok rp f' a" if a: "a \<in> set (db_artifacts d')" for a
  proof (cases "d' = d")
    case True
    then show ?thesis using a old by simp
  next
    case False
    from putStream_result [OF cfg f run] False obtain f0 where
      d': "d' = putArtifactAndGrant threadId (digest_of sha (string_of ?c)) (abs_path (rp @ [?h])) (int (length ?c)) (stored_metadata mediaType filename) d"
      and there: "bodies f' (rp @ [?h]) \<noteq> None" by (auto simp: put_result_def)
    have "bodies f' (rp @ [?h]) = Some (B_file ?c)"
    proof (cases "bodies f (rp @ [?h])")
      case (Some b)
      then obtain bs where "b = B_file bs" using names hex by (auto simp: names_ok_def)
      then show ?thesis using at(2) [OF hex] Some new by (auto simp: no_collision_def)
    qed (use at(2) [OF hex] there in auto)
    then have "row_ok rp f' \<lparr>a_digest = digest_of sha (string_of ?c), a_kind = ''tool'', a_path = abs_path (rp @ [?h]),
        a_sizeBytes = int (length ?c), a_metadata = stored_metadata mediaType filename\<rparr>"
      using hex by (simp add: row_ok_def hex_name_digest digest_of_def)
    then show ?thesis using put_artifacts [of a] a d' old by blast
  qed
  ultimately show ?thesis using at(1) [OF hex] by (simp add: store_ok_def list_all_iff)
qed

section \<open>Reading an artifact\<close>

lemma slice_split: "m \<le> n \<Longrightarrow> slice bs i m @ slice bs (i + m) (n - m) = slice bs i n"
  using take_add [of m "n - m" "drop i bs"] by (simp add: slice_def add.commute)

lemma read_file_all:
  "position + remaining \<le> length content \<Longrightarrow>
   \<exists>cs. read_file got content position remaining = (cs, None) \<and> concat cs = slice content position remaining"
proof (induction got content position remaining rule: read_file.induct)
  case (1 got content position remaining)
  show ?case
  proof (cases "remaining = 0")
    case True
    then show ?thesis by (simp add: read_file.simps slice_def)
  next
    case False
    define want where "want = min STREAM_CHUNK_BYTES remaining"
    have av: "min want (length content - position) = want" "want \<noteq> 0"
      using 1(2) False by (auto simp: want_def STREAM_CHUNK_BYTES_def min_def)
    define k where "k = max 1 (min want (got position want))"
    have k: "k \<le> remaining" "0 < k" using av False by (auto simp: k_def want_def)
    from 1(1) [OF False want_def av(1) [symmetric] _ k_def] av(2) k 1(2)
    obtain cs where "read_file got content (position + k) (remaining - k) = (cs, None)"
      and cs: "concat cs = slice content (position + k) (remaining - k)" by auto
    moreover have "max (Suc 0) (min want (got position want)) = k" by (simp add: k_def)
    ultimately have "read_file got content position remaining = (slice content position k # cs, None)"
      using False av by (subst read_file.simps) (simp add: Let_def flip: want_def)
    then show ?thesis using cs k slice_split [of k remaining content position] by simp
  qed
qed

lemma granted_row:
  assumes "getGrantedArtifact d t g = Some a"
  shows "a \<in> set (db_artifacts d) \<and> a_digest a = g"
  using assms by (auto simp: getGrantedArtifact_def split: option.splits dest!: select1_Some)

lemma granted_after_put:
  assumes "list_all (\<lambda>a. a_kind a = ''tool'') (db_artifacts (putArtifactAndGrant t g path n m d))"
  shows "\<exists>a. getGrantedArtifact (putArtifactAndGrant t g path n m d) t g = Some a"
proof -
  let ?d = "putArtifactAndGrant t g path n m d"
  have "g \<in> a_digest ` set (db_artifacts ?d)" "(t, g) \<in> grant_key ` set (db_grants ?d)"
    by (auto simp: putArtifactAndGrant_def Let_def grant_key_def image_iff)
  then obtain a x where a: "a \<in> set (db_artifacts ?d)" "a_digest a = g"
    and x: "x \<in> set (db_grants ?d)" "g_threadId x = t \<and> g_digest x = g" by (auto simp: grant_key_def)
  have "a_kind a = ''tool''" using assms a(1) by (simp add: list_all_iff)
  then obtain b where "select1 (\<lambda>a. a_digest a = g \<and> a_kind a = ''tool'') (db_artifacts ?d) = Some b"
    using select1_ex [OF a(1), of "\<lambda>a. a_digest a = g \<and> a_kind a = ''tool''"] a(2) by auto
  moreover obtain y where "select1 (\<lambda>z. g_threadId z = t \<and> g_digest z = g) (db_grants ?d) = Some y"
    using select1_ex [OF x(1), of "\<lambda>z. g_threadId z = t \<and> g_digest z = g"] x(2) by auto
  ultimately show ?thesis using select1_Some [of _ "db_grants ?d" y] by (auto simp: getGrantedArtifact_def)
qed

text \<open>Under the invariant a granted artifact can be resolved and opened, and what the stream
  delivers is the requested part of a file whose hash is the digest.\<close>

lemma resolve_stored:
  assumes ok: "store_ok sha rp f d" and rp: "good_path rp" "rp \<noteq> []" and g: "getGrantedArtifact d t g = Some a"
  shows "\<exists>bs. file_at f (path_parts (a_path a)) = Some bs \<and> digest_of sha (string_of bs) = g \<and> int (length bs) = a_sizeBytes a \<and>
    bodies f (rp @ [drop 7 g]) = Some (B_file bs) \<and>
    resolve_artifact f d t g = Inr \<lparr>af_digest = g, af_path = a_path a, af_sizeBytes = a_sizeBytes a,
      af_mediaType = stored_media_type (a_metadata a)\<rparr>"
proof -
  have a: "row_ok rp f a" "a_digest a = g" using granted_row [OF g] ok by (auto simp: store_ok_def list_all_iff)
  then obtain bs where bs: "bodies f (rp @ [drop 7 g]) = Some (B_file bs)" "int (length bs) = a_sizeBytes a"
    and p: "a_path a = abs_path (rp @ [drop 7 g])" and dig: "is_digest g" by (auto simp: row_ok_def)
  have hex: "hex_name (drop 7 g)" using dig by (rule is_digest_hex)
  have parts: "path_parts (a_path a) = rp @ [drop 7 g]"
    unfolding p using rp hex_name_plain [OF hex] by (intro path_parts_abs) simp
  have "sha (string_of bs) = drop 7 g" using ok hex bs(1) by (auto simp: store_ok_def names_ok_def)
  then have "digest_of sha (string_of bs) = g" using is_digest_drop [OF dig] by (simp add: digest_of_def)
  then show ?thesis using bs g a(2) parts by (auto simp: resolve_artifact_def file_at_def)
qed

lemma open_stored:
  assumes ok: "store_ok sha rp f d" and rp: "good_path rp" "rp \<noteq> []" and op: "open_artifact got f d t g bounds = Inr x"
  shows "\<exists>bs. bodies f (rp @ [drop 7 g]) = Some (B_file bs) \<and> digest_of sha (string_of bs) = g \<and> oa_sizeBytes x = int (length bs) \<and>
    snd (oa_stream x) = None \<and> concat (fst (oa_stream x)) = slice bs (case bounds of None \<Rightarrow> 0 | Some (n, _) \<Rightarrow> nat n)
      (case bounds of None \<Rightarrow> length bs | Some (_, m) \<Rightarrow> nat m)"
proof -
  obtain row where g: "getGrantedArtifact d t g = Some row"
    using op by (auto simp: open_artifact_def resolve_artifact_def split: option.splits)
  from resolve_stored [OF ok rp g] obtain bs where
    bs: "file_at f (path_parts (a_path row)) = Some bs" "digest_of sha (string_of bs) = g"
      "int (length bs) = a_sizeBytes row" "bodies f (rp @ [drop 7 g]) = Some (B_file bs)"
      "resolve_artifact f d t g = Inr \<lparr>af_digest = g, af_path = a_path row, af_sizeBytes = a_sizeBytes row,
        af_mediaType = stored_media_type (a_metadata row)\<rparr>" by blast
  define start where "start = (case bounds of Some (n, _) \<Rightarrow> n | None \<Rightarrow> 0)"
  define limit where "limit = (case bounds of Some (_, m) \<Rightarrow> m | None \<Rightarrow> int (length bs) - start)"
  let ?rest = "nat (min limit (int (length bs) - start))"
  have s: "0 \<le> start" "start \<le> int (length bs)" "0 \<le> limit"
    and x: "oa_stream x = read_file got bs (nat start) ?rest" "oa_sizeBytes x = int (length bs)"
  proof -
    have "open_artifact got f d t g bounds =
        (if \<not> safe_integer start \<or> start < 0 \<or> start > int (length bs) \<or> \<not> safe_integer limit \<or> limit < 0
         then Inl (service_err INVALID_ARGUMENT ''Artifact byte range is invalid'')
         else Inr \<lparr>oa_stream = read_file got bs (nat start) ?rest, oa_sizeBytes = int (length bs),
           oa_mediaType = stored_media_type (a_metadata row)\<rparr>)"
      unfolding open_artifact_def bs(5) bind_res_simps Let_def artifact_ref.simps bs(1) bs(3) [symmetric] option.case
        start_def [symmetric] limit_def [symmetric] ..
    then show "0 \<le> start" "start \<le> int (length bs)" "0 \<le> limit"
      "oa_stream x = read_file got bs (nat start) ?rest" "oa_sizeBytes x = int (length bs)"
      using op by (auto split: if_splits)
  qed
  then have "nat start + ?rest \<le> length bs" by linarith
  from read_file_all [OF this, of got] obtain cs where
    cs: "read_file got bs (nat start) ?rest = (cs, None)" "concat cs = slice bs (nat start) ?rest" by blast
  have "slice bs (nat start) ?rest = slice bs (nat start) (nat limit)"
  proof (cases "limit \<le> int (length bs) - start")
    case False
    then have "length (drop (nat start) bs) \<le> ?rest" "length (drop (nat start) bs) \<le> nat limit" by auto
    then show ?thesis by (simp only: slice_def take_all)
  qed (simp add: min_def)
  moreover have "(case bounds of None \<Rightarrow> 0 | Some (n, _) \<Rightarrow> nat n) = nat start" by (simp add: start_def split: option.splits)
  moreover have "(case bounds of None \<Rightarrow> length bs | Some (_, m) \<Rightarrow> nat m) = nat limit"
    by (simp add: limit_def start_def split: option.splits)
  ultimately show ?thesis using x cs bs by simp
qed

end
