(* ===== verification/Exports_Inv.thy ===== *)
theory Exports_Inv
  imports Reads_Inv Artifacts_Inv
begin

text \<open>
  Exporting a workspace file: the stream over the guest's reads has bounded chunks within the
  size of the file, and over a guest that serves a file it delivers the content of that file.
\<close>

section \<open>The stream of a workspace file\<close>

context byte_source begin

lemma stream_file_bounds:
  "stream_file read_at fileSize offset w = ((cs, err), w') \<Longrightarrow> offset \<le> fileSize \<Longrightarrow>
   offset + length (concat cs) \<le> fileSize \<and> (\<forall>c\<in>set cs. c \<noteq> [] \<and> length c \<le> MAX_RAW_BYTES)"
proof (induction "fileSize - offset" arbitrary: offset w cs err w' rule: less_induct)
  case less
  show ?case
  proof (cases "fileSize \<le> offset")
    case True
    then show ?thesis using less.prems by (auto simp: stream_file.simps [of _ _ offset])
  next
    case False
    obtain r w1 where step: "read_at offset MAX_RAW_BYTES w = (r, w1)" by fastforce
    show ?thesis
    proof (cases "\<exists>b. r = Inr b \<and> rb_size b = fileSize \<and> rb_data b \<noteq> []")
      case True
      then obtain b where b: "r = Inr b" "rb_size b = fileSize" "rb_data b \<noteq> []" by blast
      let ?n = "offset + length (rb_data b)"
      have n: "?n \<le> fileSize" "length (rb_data b) \<le> MAX_RAW_BYTES"
        using read_inside read_limit step b by blast+
      obtain cs1 err1 w2 where rest: "stream_file read_at fileSize ?n w1 = ((cs1, err1), w2)"
        by (metis prod_cases3 surj_pair)
      have "fileSize - ?n < fileSize - offset" using False b(3) by (intro diff_less_mono2) auto
      from less.hyps [OF this rest n(1)] show ?thesis
        using less.prems False step b n rest by (auto simp: stream_file.simps [of _ _ offset] split: if_splits)
    next
      case bad: False
      then show ?thesis using less.prems False step
        by (auto simp: stream_file.simps [of _ _ offset] split: sum.splits if_splits)
    qed
  qed
qed

end

text \<open>A guest that serves a file: what it returns is a piece of the content at the position asked
  for, with the true size, and it reports the end only there.\<close>

definition serves :: "(nat \<Rightarrow> nat \<Rightarrow> ('w, read_bytes_result) io) \<Rightarrow> byte list \<Rightarrow> bool" where
  "serves read_at content \<longleftrightarrow>
     (\<forall>offset limit w b w'. read_at offset limit w = (Inr b, w') \<longrightarrow>
        prefix (rb_data b) (drop offset content) \<and> rb_size b = length content \<and>
        (rb_eof b \<longrightarrow> length content \<le> offset + length (rb_data b)))"

lemma stream_file_serves:
  assumes "serves read_at content"
  shows "stream_file read_at (length content) offset w = ((cs, None), w') \<Longrightarrow> concat cs = drop offset content"
proof (induction "length content - offset" arbitrary: offset w cs w' rule: less_induct)
  case less
  show ?case
  proof (cases "length content \<le> offset")
    case True
    then show ?thesis using less.prems by (auto simp: stream_file.simps [of _ _ offset])
  next
    case False
    obtain r w1 where step: "read_at offset MAX_RAW_BYTES w = (r, w1)" by fastforce
    from less.prems False step obtain b where b: "r = Inr b" "rb_data b \<noteq> []"
      by (auto simp: stream_file.simps [of _ _ offset] split: sum.splits if_splits)
    let ?n = "offset + length (rb_data b)"
    have p: "prefix (rb_data b) (drop offset content)" "rb_size b = length content"
      "rb_eof b \<Longrightarrow> length content \<le> ?n"
      using assms step b unfolding serves_def by blast+
    have content: "drop offset content = rb_data b @ drop ?n content"
    proof -
      obtain zs where zs: "drop offset content = rb_data b @ zs" using p(1) by (auto simp: prefix_def)
      have "drop ?n content = drop (length (rb_data b)) (drop offset content)" by (simp add: add.commute)
      then show ?thesis using zs by simp
    qed
    obtain cs1 err1 w2 where rest: "stream_file read_at (length content) ?n w1 = ((cs1, err1), w2)"
      by (metis prod_cases3 surj_pair)
    show ?thesis
    proof (cases "rb_eof b")
      case True
      then show ?thesis using less.prems False step b p content by (auto simp: stream_file.simps [of _ _ offset])
    next
      case more: False
      have "length content - ?n < length content - offset"
        using False b(2) by (intro diff_less_mono2) auto
      moreover have cs: "cs = rb_data b # cs1" "err1 = None"
        using less.prems False step b p rest more by (auto simp: stream_file.simps [of _ _ offset])
      ultimately have "concat cs1 = drop ?n content" using less.hyps rest by blast
      then show ?thesis using cs content by simp
    qed
  qed
qed

section \<open>The export\<close>

lemma put_failed_Inl: "put_failed io temporary installed e f = (r, f') \<Longrightarrow> \<not> is_ok r"
  by (auto simp: put_failed_def split: sum.splits option.splits)

lemma putStream_no_error:
  "putStream io sha root uuid threadId source mediaType filename f d = (Inr ref, f', d') \<Longrightarrow> snd source = None"
  by (auto simp: putStream_def Let_def split: sum.splits option.splits prod.splits dest: put_failed_Inl)

text \<open>A successful export is a put of the content of the file.\<close>

lemma export_puts_content:
  assumes "serves (readBytes (sender env cx) path) content"
    and "\<And>w st w'. agent_stat (sender env cx) path w = (Inr st, w') \<Longrightarrow> fst_size st = length content"
    and "exportWorkspaceArtifact env cx path mediaType filename s = (Inr ref, s')"
  shows "\<exists>source name. concat (fst source) = content \<and>
    putStream (te_io env) (te_sha env) (te_root env) (te_uuid env) (b_threadId (cx_turn cx)) source
      (Some mediaType) name (dm_fs s) (dm_db s) = (Inr ref, dm_fs s', dm_db s')"
proof -
  from assms(3) obtain st s1 where stat: "on_agents (agent_stat (sender env cx) path) s = (Inr st, s1)"
    and put: "put_workspace_file env cx path mediaType filename (fst_size st) s1 = (Inr ref, s')"
    by (auto simp: exportWorkspaceArtifact_def io_simps split: if_splits)
  have size_eq: "fst_size st = length content" and same: "dm_fs s1 = dm_fs s" "dm_db s1 = dm_db s"
    using stat assms(2) by (auto simp: on_agents_def split: prod.splits)
  obtain source w where source: "streamWorkspaceFile env cx path (fst_size st) (dm_agents s1) = (source, w)"
    by fastforce
  let ?name = "Some (case filename of Some n \<Rightarrow> n | None \<Rightarrow> basename path)"
  have run: "putStream (te_io env) (te_sha env) (te_root env) (te_uuid env) (b_threadId (cx_turn cx)) source
      (Some mediaType) ?name (dm_fs s) (dm_db s) = (Inr ref, dm_fs s', dm_db s')"
    using put source same by (auto simp: put_workspace_file_def split: prod.splits)
  obtain cs where "source = (cs, None)" using putStream_no_error [OF run] by (cases source) simp
  then have "concat (fst source) = content"
    using source stream_file_serves [OF assms(1), of 0 "dm_agents s1" cs w]
    by (simp add: streamWorkspaceFile_def size_eq)
  then show ?thesis using run by blast
qed

end
