(* ===== verification/Props_Artifacts.thy ===== *)
theory Props_Artifacts
  imports Artifacts_Inv
begin

text \<open>
  Properties of the artifact store, each with an application to a concrete store: an empty
  directory, a hash function with one value and a source of two chunks.
\<close>

definition demo_store :: fs where
  "demo_store = \<lparr>f_names = [[] \<mapsto> 0, [''data''] \<mapsto> 1],
     f_inodes = (\<lambda>_. \<lparr>i_body = B_dir, i_mode = 448, i_mtime = None\<rparr>), f_next = 2\<rparr>"

definition demo_hash :: "string \<Rightarrow> string" where
  "demo_hash _ = replicate 64 (CHR ''c'')"

abbreviation no_failures :: "fs_op \<Rightarrow> unit res" where
  "no_failures \<equiv> \<lambda>_. Inr ()"

definition demo_source :: byte_stream where
  "demo_source = ([[104, 105], [], [33]], None)"

definition demo_put :: "artifact_ref res \<times> fs \<times> db" where
  "demo_put = putStream no_failures demo_hash ''/data/artifacts'' ''u1'' ''t1'' demo_source
     (Some ''text/plain'') None demo_store empty_db"

lemma demo_names: "f_names demo_store p = Some i \<longleftrightarrow> p = [] \<and> i = 0 \<or> p = [''data''] \<and> i = 1"
  by (auto simp: demo_store_def)

lemma demo_dirs: "is_dir demo_store p \<longleftrightarrow> p = [] \<or> p = [''data'']"
  by (auto simp: is_dir_def lookup_inode_def demo_store_def)

lemma demo_none: "bodies demo_store ([''data'', ''artifacts''] @ p) = None"
  by (auto simp: bodies_names demo_store_def)

lemma demo_store_ok: "store_ok demo_hash [''data'', ''artifacts''] demo_store empty_db"
proof -
  have "root_ok demo_store"
    by (auto simp: root_ok_def fs_ok_def demo_names demo_dirs) (simp_all add: demo_store_def)
  then show ?thesis
    using demo_none by (simp add: store_ok_def names_ok_def empty_db_def)
qed

lemma demo_setup: "put_setup no_failures demo_hash [''data'', ''artifacts''] ''u1''"
proof -
  have "hex_name (replicate 64 (CHR ''c''))" by code_simp
  then show ?thesis
    by (simp add: put_setup_def io_honest_def demo_hash_def good_path_def plain_part_def)
qed

lemma demo_no_collision: "no_collision demo_hash [''data'', ''artifacts''] demo_store c"
  using demo_none by (simp add: no_collision_def)

lemma demo_put_run:
  "putStream no_failures demo_hash (abs_path [''data'', ''artifacts'']) ''u1'' ''t1'' demo_source
     (Some ''text/plain'') None demo_store empty_db = demo_put"
proof -
  have "abs_path [''data'', ''artifacts''] = ''/data/artifacts''" by code_simp
  then show ?thesis by (simp only: demo_put_def)
qed

lemma demo_put_ok: "\<exists>ref f' d'. demo_put = (Inr ref, f', d')"
proof -
  have ok: "is_ok (fst demo_put)" by code_simp
  obtain r f' d' where run: "demo_put = (r, f', d')" by (metis prod_cases3)
  then show ?thesis using ok unfolding run by (cases r) auto
qed

text \<open>C28: the artifact store keeps its invariant whatever a put does, succeed, fail at any file
  operation or meet a broken source: every file of the store directory is named by the hash of
  its content, and every artifact row has its file with the recorded size.\<close>

theorem artifact_store_invariant:
  assumes "put_setup io sha rp uuid" "store_ok sha rp f d" "no_collision sha rp f (concat (fst source))"
    and "putStream io sha (abs_path rp) uuid threadId source mediaType filename f d = (r, f', d')"
  shows "store_ok sha rp f' d'"
  using assms by (rule putStream_store_ok)

lemma artifact_store_invariant_witness:
  "\<exists>r f' d'. demo_put = (r, f', d') \<and> store_ok demo_hash [''data'', ''artifacts''] f' d'"
proof -
  obtain r f' d' where run: "demo_put = (r, f', d')" by (metis prod_cases3)
  show ?thesis
    using artifact_store_invariant [OF demo_setup demo_store_ok demo_no_collision demo_put_run [unfolded run]] run
    by blast
qed

lemma putStream_content:
  assumes cfg: "put_setup io sha rp uuid" and ok: "store_ok sha rp f d"
    and new: "no_collision sha rp f (concat (fst source))"
    and run: "putStream io sha (abs_path rp) uuid threadId source mediaType filename f d = (Inr ref, f', d')"
  shows "bodies f' (rp @ [sha (string_of (concat (fst source)))]) = Some (B_file (concat (fst source)))"
    and "resolve_artifact f' d' threadId (digest_of sha (string_of (concat (fst source)))) = Inr ref"
proof -
  let ?c = "concat (fst source)"
  have f: "root_ok f" and names: "names_ok sha rp f" using ok by (auto simp: store_ok_def)
  have hex: "hex_name (sha (string_of ?c))" using cfg by (simp add: put_setup_def)
  from putStream_result [OF cfg f run] obtain f0 where there: "bodies f' (rp @ [sha (string_of ?c)]) \<noteq> None"
    and res: "Inr ref = resolve_artifact f' d' threadId (digest_of sha (string_of ?c))"
    by (auto simp: put_result_def)
  show "bodies f' (rp @ [sha (string_of ?c)]) = Some (B_file ?c)"
  proof (cases "bodies f (rp @ [sha (string_of ?c)])")
    case (Some b)
    then obtain bs where "b = B_file bs" using names hex by (auto simp: names_ok_def)
    then show ?thesis using putStream_names(2) [OF cfg f hex run] Some new by (auto simp: no_collision_def)
  qed (use putStream_names(2) [OF cfg f hex run] there in auto)
  show "resolve_artifact f' d' threadId (digest_of sha (string_of ?c)) = Inr ref" using res by simp
qed

lemma put_then_open:
  assumes cfg: "put_setup io sha rp uuid" and ok: "store_ok sha rp f d"
    and new: "no_collision sha rp f (concat (fst source))" and size_ok: "length (concat (fst source)) < 2 ^ 53"
    and run: "putStream io sha (abs_path rp) uuid threadId source mediaType filename f d = (Inr ref, f', d')"
  shows "af_digest ref = digest_of sha (string_of (concat (fst source))) \<and>
    (\<exists>x. open_artifact got f' d' threadId (af_digest ref) None = Inr x \<and> snd (oa_stream x) = None \<and>
      concat (fst (oa_stream x)) = concat (fst source) \<and> oa_sizeBytes x = int (length (concat (fst source))))"
proof -
  let ?c = "concat (fst source)" and ?g = "digest_of sha (string_of (concat (fst source)))"
  have rp: "good_path rp" "rp \<noteq> []" using cfg by (simp_all add: put_setup_def)
  have ok': "store_ok sha rp f' d'" by (rule putStream_store_ok [OF cfg ok new run])
  note content = putStream_content [OF cfg ok new run]
  obtain row where row: "getGrantedArtifact d' threadId ?g = Some row"
    using content(2) by (auto simp: resolve_artifact_def split: option.splits)
  from resolve_stored [OF ok' rp row] content have
    res: "resolve_artifact f' d' threadId ?g = Inr \<lparr>af_digest = ?g, af_path = a_path row,
        af_sizeBytes = int (length ?c), af_mediaType = stored_media_type (a_metadata row)\<rparr>"
    and content_at: "file_at f' (path_parts (a_path row)) = Some ?c" by auto
  have "\<exists>x. open_artifact got f' d' threadId ?g None = Inr x"
    using size_ok by (simp add: open_artifact_def res content_at safe_integer_def Let_def)
  then obtain x where x: "open_artifact got f' d' threadId ?g None = Inr x" by blast
  from open_stored [OF ok' rp x] content(1) have "snd (oa_stream x) = None"
    "concat (fst (oa_stream x)) = slice ?c 0 (length ?c)" "oa_sizeBytes x = int (length ?c)" by auto
  moreover have "af_digest ref = ?g" using res content(2) by simp
  ultimately show ?thesis using x by (simp add: slice_def)
qed

text \<open>C29: an artifact comes back as it was put. After a successful put the reference names the
  SHA-256 of the source, and opening it for the same thread, however the reads are cut, delivers
  exactly the bytes of the source and no error.\<close>

theorem artifact_round_trip:
  assumes cfg: "put_setup io sha rp uuid" and ok: "store_ok sha rp f d"
    and new: "no_collision sha rp f (concat (fst source))" and size_ok: "length (concat (fst source)) < 2 ^ 53"
    and run: "putStream io sha (abs_path rp) uuid threadId source mediaType filename f d = (Inr ref, f', d')"
  shows "af_digest ref = digest_of sha (string_of (concat (fst source))) \<and>
    (\<exists>x. open_artifact got f' d' threadId (af_digest ref) None = Inr x \<and> snd (oa_stream x) = None \<and>
      concat (fst (oa_stream x)) = concat (fst source) \<and> oa_sizeBytes x = int (length (concat (fst source))))"
  by (rule put_then_open [OF assms])

lemma artifact_round_trip_witness:
  "\<exists>ref f' d' x. demo_put = (Inr ref, f', d') \<and>
     open_artifact (\<lambda>_ n. n) f' d' ''t1'' (af_digest ref) None = Inr x \<and>
     concat (fst (oa_stream x)) = [104, 105, 33]"
proof -
  obtain ref f' d' where run: "demo_put = (Inr ref, f', d')" using demo_put_ok by blast
  have "length (concat (fst demo_source)) < 2 ^ 53" by (simp add: demo_source_def)
  moreover have "concat (fst demo_source) = [104, 105, 33]" by (simp add: demo_source_def)
  ultimately show ?thesis
    using artifact_round_trip [OF demo_setup demo_store_ok demo_no_collision _ demo_put_run [unfolded run],
      of "\<lambda>_ n. n"] run by metis
qed

text \<open>C30: an artifact never delivers other bytes. Whoever opens a granted artifact of a store
  that satisfies the invariant, at any range, gets the bytes at that range of a file whose hash is
  the digest asked for, its true size, and no error.\<close>

theorem opened_artifact_is_authentic:
  assumes "store_ok sha rp f d" "good_path rp" "rp \<noteq> []"
    and "open_artifact got f d t g bounds = Inr x"
  shows "\<exists>bs. digest_of sha (string_of bs) = g \<and> oa_sizeBytes x = int (length bs) \<and> snd (oa_stream x) = None \<and>
    concat (fst (oa_stream x)) = slice bs (case bounds of None \<Rightarrow> 0 | Some (start, _) \<Rightarrow> nat start)
      (case bounds of None \<Rightarrow> length bs | Some (_, n) \<Rightarrow> nat n)"
  using open_stored [OF assms] by metis

lemma opened_artifact_is_authentic_witness:
  "\<exists>f' d' x bs. open_artifact (\<lambda>_ n. n) f' d' ''t1'' (digest_of demo_hash []) None = Inr x \<and>
     digest_of demo_hash (string_of bs) = digest_of demo_hash [] \<and> concat (fst (oa_stream x)) = slice bs 0 (length bs)"
proof -
  obtain ref f' d' where run: "demo_put = (Inr ref, f', d')" using demo_put_ok by blast
  note cfg = demo_setup demo_store_ok demo_no_collision
  have ok: "store_ok demo_hash [''data'', ''artifacts''] f' d'"
    by (rule putStream_store_ok [OF cfg demo_put_run [unfolded run]])
  have "length (concat (fst demo_source)) < 2 ^ 53" by (simp add: demo_source_def)
  from put_then_open [OF cfg this demo_put_run [unfolded run], of "\<lambda>_ n. n"] obtain x where
    x: "open_artifact (\<lambda>_ n. n) f' d' ''t1'' (digest_of demo_hash []) None = Inr x"
    by (auto simp: digest_of_def demo_hash_def)
  have "good_path [''data'', ''artifacts'']" by (simp add: good_path_def plain_part_def)
  from opened_artifact_is_authentic [OF ok this _ x] obtain bs where
    "digest_of demo_hash (string_of bs) = digest_of demo_hash []" "concat (fst (oa_stream x)) = slice bs 0 (length bs)"
    by auto
  then show ?thesis using x by blast
qed

end
