(* ===== verification/Props_Tools.thy ===== *)
theory Props_Tools
  imports Exports_Inv Examples Props_Artifacts
begin

text \<open>
  Properties of the file client and of the MCP tools, each with an application to a concrete
  guest: it has one file of three bytes, reads it as one line and accepts every transfer.
\<close>

definition demo_digest :: digest where
  "demo_digest = ''sha256:'' @ replicate 64 (CHR ''c'')"

definition demo_stat :: stat_reply where
  "demo_stat = \<lparr>sr_type = ET_file, sr_size = Num 3, sr_mode = Num 420, sr_modifiedAt = Num 0\<rparr>"

fun demo_reply :: "agent_request \<Rightarrow> agent_response" where
  "demo_reply (A_FileStat p) = empty_response\<lparr>ar_statResult := Some demo_stat\<rparr>"
| "demo_reply (A_FileReadBytes p offset limit) =
     empty_response\<lparr>ar_data := Some (base64 (take limit (drop offset [104, 105, 10]))), ar_size := Some (Num 3),
       ar_eof := Some (3 \<le> offset + limit)\<rparr>"
| "demo_reply (A_FileRead i) =
     empty_response\<lparr>ar_lines := Some [[CHR ''h'', CHR ''i'', NL]], ar_size := Some (Num 3), ar_digest := Some demo_digest\<rparr>"
| "demo_reply (A_FileWriteCommit t) = empty_response\<lparr>ar_size := Some (Num 2), ar_digest := Some demo_digest\<rparr>"
| "demo_reply q = empty_response"

definition demo_send :: "backend \<Rightarrow> backend_handle \<Rightarrow> agent_request \<Rightarrow> (unit, agent_response) io" where
  "demo_send b h q w = (Inr (demo_reply q), w)"

definition demo_bound :: bound_turn where
  "demo_bound = \<lparr>b_threadId = ''alice'', b_turnId = ''t1'', b_mode = Durable, b_instanceId = ''i1'',
     b_workspaceId = Some ''w1'', b_expectedHead = Some (dg (CHR ''a''))\<rparr>"

definition idle_backend :: session_backend where
  "idle_backend = \<lparr>be_exec = (\<lambda>_ _ _. Inl (PlainError ''no'')), be_poll = (\<lambda>_ _ _ _. Inl (PlainError ''no'')),
     be_write = (\<lambda>_ _ _. Inr ()), be_kill = (\<lambda>_ _ _. Inr ())\<rparr>"

definition demo_tools :: "(backend \<Rightarrow> backend_handle \<Rightarrow> agent_request \<Rightarrow> ('w, agent_response) io) \<Rightarrow> 'w tool_env" where
  "demo_tools send = \<lparr>te_turn = Some demo_bound, te_send = send, te_jsonSize = (\<lambda>_. 100), te_json = (\<lambda>_. None),
     te_sha = demo_hash, te_io = no_failures, te_got = (\<lambda>_ n. n), te_root = ''/data/artifacts'', te_uuid = ''u1'',
     te_transferId = ''tr1'', te_sessions = idle_backend, te_decode = id, te_now = 0, te_started = 0,
     te_executionId = ''e1'', te_sessionId = ''s1''\<rparr>"

definition demo_daemon :: "'w \<Rightarrow> 'w daemon" where
  "demo_daemon w = \<lparr>dm_agents = w, dm_fs = demo_store, dm_db = demo_db T_OPEN I_READY,
     dm_sessions = \<lparr>sm_sessions = [], sm_closingInstances = [], sm_maxOutputBytes = 1000\<rparr>\<rparr>"

definition demo_context :: file_context where
  "demo_context = \<lparr>cx_turn = demo_bound, cx_backend = Docker, cx_handle = demo_handle\<rparr>"

lemma demo_fileContext: "fileContext (demo_tools send) (dm_db (demo_daemon w)) = Inr demo_context"
  by (simp add: fileContext_def requireTurn_def demo_tools_def demo_daemon_def getTurnHandle_def getInstance_def
    demo_bound_def demo_defs demo_context_def)

definition demo_read :: "line_range list option \<Rightarrow> read_arguments" where
  "demo_read ranges = \<lparr>ra_path = ''a.txt'', ra_offset = None, ra_limit = None, ra_ranges = ranges,
     ra_cursor = None, ra_raw = None\<rparr>"

lemma demo_normal: "normalizeWorkspacePath ''a.txt'' True = Inr ''a.txt''"
  by code_simp

lemma demo_agent_stat: "agent_stat (sender (demo_tools demo_send) cx) p w =
    (Inr \<lparr>fst_path = p, fst_type = ET_file, fst_size = 3, fst_mode = 420, fst_modifiedAt = 0\<rparr>, w)"
  by (simp add: agent_stat_def send_ok_def io_bind_def io_res_def sender_def demo_tools_def demo_send_def
    demo_stat_def empty_response_def requireOk_def stat_result_def requireNumber_def)

lemma demo_readBytes: "3 \<le> limit \<Longrightarrow> limit \<le> 384 * 1024 \<Longrightarrow> readBytes (sender (demo_tools demo_send) cx) p 0 limit w =
    (Inr \<lparr>rb_data = [104, 105, 10], rb_size = 3, rb_eof = True\<rparr>, w)"
  by (simp add: readBytes_def io_bind_def io_res_def sender_def demo_tools_def demo_send_def
    empty_response_def requireOk_def bytes_result_def requireNumber_def Let_def MAX_CHUNK_BYTES_def)

lemma demo_agent_read: "agent_read (te_jsonSize (demo_tools demo_send)) (sender (demo_tools demo_send) cx) i w =
    (Inr \<lparr>fr_path = ri_path i, fr_lines = Some [[CHR ''h'', CHR ''i'', NL]], fr_entries = None,
       fr_isDirectory = False, fr_size = Some 3, fr_digest = Some demo_digest, fr_nextOffset = None,
       fr_truncated = False, fr_nextCursor = None\<rparr>, w)"
proof -
  have "is_digest demo_digest" by code_simp
  moreover have "demo_digest \<noteq> ''''" by (simp add: demo_digest_def)
  ultimately show ?thesis
    by (simp add: agent_read_def io_bind_def io_res_def sender_def demo_tools_def demo_send_def empty_response_def
      requireOk_def guardEncodedResponse_def MAX_ENCODED_RESPONSE_BYTES_def read_fields_def read_result_def
      requireNumber_def requireDigest_def opt_res_def)
qed

lemmas demo_hang = demo_fileContext demo_normal demo_agent_stat demo_readBytes demo_agent_read

section \<open>The file client\<close>

text \<open>C21: a file is written in one transfer. A write sends the opening of the transfer, then pieces
  of at most 384 KiB that together are a prefix of the source, in order. Where it succeeds the
  pieces are the whole source, the commit is the last request, and the result has a digest. Where
  it fails the last request is the abort, also when the commit itself was refused, and a source
  that broke is never committed.\<close>

theorem file_write_protocol:
  assumes "agent_write (logged send) t path cp (vs, err) (w, l) = (r, (w', l'))"
  shows "\<exists>ds rest. l' = l @ transfer_log t path cp ds rest \<and>
    prefix (concat ds) (concat vs) \<and> (\<forall>d\<in>set ds. d \<noteq> [] \<and> length d \<le> 384 * 1024) \<and>
    (case r of
       Inr v \<Rightarrow> rest = [A_FileWriteCommit t] \<and> concat ds = concat vs \<and> err = None \<and>
         fw_path v = path \<and> is_digest (fw_digest v)
     | Inl e \<Rightarrow> rest = [A_FileWriteAbort t] \<or>
         rest = [A_FileWriteCommit t, A_FileWriteAbort t] \<and> concat ds = concat vs \<and> err = None)"
  using assms
proof (cases rule: agent_write_cases)
  case (1 v)
  with write_try_logged [of send t path cp vs err w l "Inr v" w' l'] write_try_result
  show ?thesis by (fastforce simp: sent_of_def MAX_CHUNK_BYTES_def)
next
  case (2 e w1)
  obtain u m where w1: "w1 = (u, m)" by force
  with 2(2) have "write_try (logged send) t path cp (vs, err) (w, l) = (Inl e, (u, m))" by simp
  from write_try_logged [OF this] obtain ds rest where
    ds: "m = l @ transfer_log t path cp ds rest" "sent_of vs ds"
      "rest = [] \<or> rest = [A_FileWriteCommit t] \<and> concat ds = concat vs \<and> err = None" by auto
  have "l' = m @ [A_FileWriteAbort t]"
    using 2(3) w1 by (auto simp: logged_def split: prod.splits)
  then have "l' = l @ transfer_log t path cp ds (rest @ [A_FileWriteAbort t])"
    using ds(1) by (simp add: transfer_log_def)
  then show ?thesis using ds 2(1)
    by (intro exI [of _ ds] exI [of _ "rest @ [A_FileWriteAbort t]"]) (auto simp: sent_of_def MAX_CHUNK_BYTES_def)
qed

lemma file_write_protocol_witness:
  "\<exists>r w' l' ds rest.
     agent_write (logged (demo_send Docker demo_handle)) ''tr1'' ''a.txt'' False ([[104], [105]], None) ((), []) = (r, (w', l')) \<and>
     l' = transfer_log ''tr1'' ''a.txt'' False ds rest \<and> prefix (concat ds) [104, 105]"
proof -
  obtain r w' l' where run: "agent_write (logged (demo_send Docker demo_handle)) ''tr1'' ''a.txt'' False
      ([[104], [105]], None) ((), []) = (r, (w', l'))" by (metis surj_pair)
  from file_write_protocol [OF run] obtain ds rest where
    "l' = transfer_log ''tr1'' ''a.txt'' False ds rest" "prefix (concat ds) (concat [[104], [105]])" by auto
  then show ?thesis using run by (intro exI conjI) simp_all
qed

section \<open>The tools\<close>



lemma empty_ranges_loop:
  assumes "fileContext env (dm_db s) = Inr cx" "normalizeWorkspacePath (ra_path args) True = Inr path"
    and "ra_ranges args = Some []" "ra_raw args \<noteq> Some True"
    and "agent_stat (sender env cx) path (dm_agents s) = (Inr st, w1)" "fst_type st \<noteq> ET_directory"
    and "readBytes (sender env cx) path 0 (max 1 (min 8192 (fst_size st))) w1 = (Inr pre, w2)"
    and "isTextMediaType (mediaTypeForPath path (looksBinary (rb_data pre)))"
    and "agent_read (te_jsonSize env) (sender env cx)
      \<lparr>ri_path = path, ri_offset = ra_offset args, ri_limit = ra_limit args, ri_ranges = Some [],
       ri_cursor = truthy (ra_cursor args)\<rparr> w2 = (Inr r, w3)"
    and "\<not> fr_isDirectory r" "fr_lines r = Some (l # ls)"
  shows "fst (call_tool env (Read args) s) = None"
proof -
  have no_uri: "\<not> starts_with ''artifact://'' (ra_path args)"
    using assms(2) by (auto simp: normalizeWorkspacePath_def bad_path_def contains_iff starts_with_iff split: if_splits)
      (metis append.assoc append_Cons append_Nil)
  then have no_digest: "parseArtifactUri (ra_path args) = None" by (simp add: parseArtifactUri_def)
  have "te_turn env = Some (cx_turn cx)" using assms(1) by (simp add: fileContext_Inr)
  then have turn: "requireTurn env = Inr (cx_turn cx)" by (simp add: requireTurn_def)
  have stuck: "workspaceReadResult (te_json env) path r args = None"
    using assms by (simp add: workspaceReadResult_None line_count_def selected_def)
  have "read_text env cx args path (fst_size st) (s\<lparr>dm_agents := w1\<rparr>) = (Inr None, s\<lparr>dm_agents := w3\<rparr>)"
    using assms stuck
    by (simp add: read_text_def read_prefix_def PREFIX_BYTES_def io_bind_def on_agents_def io_return_def Let_def)
  then have "read_workspace env args cx s = (Inr None, s\<lparr>dm_agents := w3\<rparr>)"
    using assms by (simp add: read_workspace_def io_bind_def io_res_def on_agents_def)
  then have "run_tool env (Read args) s = (Inr None, s\<lparr>dm_agents := w3\<rparr>)"
    using turn no_uri no_digest assms(1)
    by (simp add: handleRead_def io_bind_def io_res_def io_return_def with_context_def)
  then show ?thesis by (simp add: call_tool_def)
qed




text \<open>C24: a read with an empty list of ranges does not return. If a workspace path is a text file
  of which the guest returns at least one line, the numbering of the lines looks for a line in
  one of no ranges, and the daemon loops.\<close>

theorem empty_ranges_hang:
  assumes "fileContext env (dm_db s) = Inr cx" "normalizeWorkspacePath (ra_path args) True = Inr path"
    and "ra_ranges args = Some []" "ra_raw args \<noteq> Some True"
    and "agent_stat (sender env cx) path (dm_agents s) = (Inr st, w1)" "fst_type st \<noteq> ET_directory"
    and "readBytes (sender env cx) path 0 (max 1 (min 8192 (fst_size st))) w1 = (Inr pre, w2)"
    and "isTextMediaType (mediaTypeForPath path (looksBinary (rb_data pre)))"
    and "agent_read (te_jsonSize env) (sender env cx)
      \<lparr>ri_path = path, ri_offset = ra_offset args, ri_limit = ra_limit args, ri_ranges = Some [],
       ri_cursor = truthy (ra_cursor args)\<rparr> w2 = (Inr r, w3)"
    and "\<not> fr_isDirectory r" "fr_lines r = Some (l # ls)"
  shows "fst (call_tool env (Read args) s) = None"
  by (rule empty_ranges_loop [OF assms])

lemma empty_ranges_hang_witness:
  "fst (call_tool (demo_tools demo_send) (Read (demo_read (Some []))) (demo_daemon ())) = None"
proof -
  have "isTextMediaType (mediaTypeForPath ''a.txt'' (looksBinary [104, 105, 10]))" by code_simp
  then show ?thesis
    by (intro empty_ranges_hang [OF demo_fileContext, where args = "demo_read (Some [])" and path = "''a.txt''"
          and pre = "\<lparr>rb_data = [104, 105, 10], rb_size = 3, rb_eof = True\<rparr>"
          and st = "\<lparr>fst_path = ''a.txt'', fst_type = ET_file, fst_size = 3, fst_mode = 420, fst_modifiedAt = 0\<rparr>"];
        (simp add: demo_read_def demo_normal demo_agent_stat demo_readBytes demo_agent_read)?)
      (simp_all add: demo_read_def demo_agent_read)
qed

lemma text_artifact_lines:
  assumes "ra_ranges args = Some rs" "lineNumbers (sl_lines t) (sl_startLine t) (Some rs) = Some ls"
  shows "\<exists>obj. text_artifact artifact digest args t = Some obj \<and> ro_lines obj = Some ls \<and>
    (ro_next_cursor obj = None \<longleftrightarrow> sl_nextLine t = None)"
  using assms by (simp add: text_artifact_def Let_def)

text \<open>The numbers of an artifact's lines are those of the file. A text artifact read by ranges
  returns the first of the lines that lie in a range from the start line on, in order, each with
  its number in the file; there is a cursor exactly when some of those lines are left.\<close>

lemma artifact_lines_are_numbered:
  assumes "streamArtifactLines json open_stream args = Inr (Some t)" "open_stream () = Inr source"
    and "readAll source = Inr bytes" "utf8_valid bytes" "ra_ranges args = Some rs" "read_schema args"
  shows "\<exists>k obj. text_artifact artifact digest args t = Some obj \<and>
    ro_lines obj = Some (take k (filter (\<lambda>(n, _). sl_startLine t \<le> n \<and> list_ex (in_range n) rs)
      (zip [1..int (length (text_lines (text_of bytes)))] (text_lines (text_of bytes))))) \<and>
    (ro_next_cursor obj = None \<longleftrightarrow>
      length (filter (\<lambda>(n, _). sl_startLine t \<le> n \<and> list_ex (in_range n) rs)
        (zip [1..int (length (text_lines (text_of bytes)))] (text_lines (text_of bytes)))) \<le> k)"
proof -
  let ?sel = "filter (\<lambda>(n, _). sl_startLine t \<le> n \<and> list_ex (in_range n) rs)
    (zip [1..int (length (text_lines (text_of bytes)))] (text_lines (text_of bytes)))"
  from text_page [OF assms, unfolded lines_in_ranges_def] obtain k where
    k: "lineNumbers (sl_lines t) (sl_startLine t) (Some rs) = Some (take k ?sel)"
      "sl_nextLine t = None \<longleftrightarrow> length ?sel \<le> k" by (elim exE conjE)
  from text_artifact_lines [OF assms(5) k(1), where artifact = artifact and digest = digest] obtain obj where
    "text_artifact artifact digest args t = Some obj" "ro_lines obj = Some (take k ?sel)"
    "ro_next_cursor obj = None \<longleftrightarrow> length ?sel \<le> k" unfolding k(2) by (elim exE conjE)
  then show ?thesis by (intro exI conjI)
qed

definition demo_args :: read_arguments where
  "demo_args = demo_read (Some [\<lparr>rg_start = 2, rg_end = 9\<rparr>])"

definition demo_text :: byte_stream where
  "demo_text = ([[97], [10, 98]], None)"

lemma demo_page: "streamArtifactLines (\<lambda>_. None) (\<lambda>_. Inr demo_text) demo_args =
    Inr (Some \<lparr>sl_lines = [''b''], sl_startLine = 2, sl_nextLine = None\<rparr>)"
proof -
  let ?q = "line_request_of (\<lambda>_. None) demo_args"
  have "text_lines (text_of [97, 10, 98]) = [''a'' @ [NL], ''b'']" "utf8_valid [97, 10, 98]" by code_simp+
  then have "read_stream_lines ?q (fst demo_text) None new_decoder '''' new_reader =
      Inr (Lines (accept_all ?q [''a'' @ [NL], ''b''] new_reader))"
    using stream_text [of "fst demo_text" ?q] by (simp add: demo_text_def)
  moreover have "accept_all ?q [''a'' @ [NL], ''b''] new_reader =
      \<lparr>lr_lines = [''b''], lr_lineNumber = 2, lr_nextLine = None\<rparr>"
    by (simp add: accept_def Let_def selectedLine_def line_request_of_def demo_args_def demo_read_def new_reader_def
      sort_ranges_def start_line_def cursorLine_def in_range_def MAX_TEXT_RESPONSE_BYTES_def json_array_size_def
      json_string_size_def json_char_size_def)
  moreover have "lq_start ?q = 2" "ranges_check demo_args = Inr ()"
    by (simp_all add: line_request_of_def demo_args_def demo_read_def sort_ranges_def start_line_def
      cursorLine_def ranges_check_def)
  ultimately show ?thesis by (simp add: streamArtifactLines_def Let_def demo_text_def)
qed

lemma artifact_lines_are_numbered_witness:
  "\<exists>k obj. text_artifact \<lparr>af_digest = demo_digest, af_path = ''p'', af_sizeBytes = 3, af_mediaType = ''text/plain''\<rparr>
       demo_digest demo_args \<lparr>sl_lines = [''b''], sl_startLine = 2, sl_nextLine = None\<rparr> = Some obj \<and>
     ro_lines obj = Some (take k (filter (\<lambda>(n, _). 2 \<le> n \<and> list_ex (in_range n) [\<lparr>rg_start = 2, rg_end = 9\<rparr>])
       (zip [1..int (length (text_lines (text_of [97, 10, 98])))] (text_lines (text_of [97, 10, 98])))))"
    (is "\<exists>k obj. ?run obj \<and> ro_lines obj = Some (take k ?sel)")
proof -
  have valid: "utf8_valid [97, 10, 98]" "read_schema demo_args" by code_simp+
  have args: "readAll demo_text = Inr [97, 10, 98]" "ra_ranges demo_args = Some [\<lparr>rg_start = 2, rg_end = 9\<rparr>]"
    by (simp_all add: readAll_def demo_text_def demo_args_def demo_read_def)
  note page = artifact_lines_are_numbered [OF demo_page refl args(1) valid(1) args(2) valid(2),
    where artifact = "\<lparr>af_digest = demo_digest, af_path = ''p'', af_sizeBytes = 3, af_mediaType = ''text/plain''\<rparr>"
      and digest = demo_digest, unfolded stream_lines_result.select_convs]
  then show ?thesis by (elim exE conjE) (intro exI conjI)
qed

section \<open>Exports\<close>

lemma export_tool_cases:
  assumes "export_tool env p media_type filename cx s = (Inr v, s')" "normalizeWorkspacePath p False = Inr path"
  shows "\<exists>mediaType ref s1. dm_fs s1 = dm_fs s \<and> dm_db s1 = dm_db s \<and>
    exportWorkspaceArtifact env cx path mediaType filename s1 = (Inr ref, s') \<and>
    v = Export_value (artifact_uri (af_digest ref)) (af_digest ref) (af_sizeBytes ref) (af_mediaType ref)"
proof -
  have same: "on_agents m t = (Inr x, t') \<Longrightarrow> dm_fs t' = dm_fs t \<and> dm_db t' = dm_db t"
    for m :: "('a, 'b) io" and t x t'
    by (auto simp: on_agents_def split: prod.splits)
  from assms show ?thesis
    by (auto simp: export_tool_def read_prefix_def io_simps split: if_splits) (metis same)
qed

text \<open>C22: exporting a workspace file stores that file. If the guest serves a file at the path (short
  reads allowed) and the tool succeeds, the digest it returns is the SHA-256 of the file, opening
  it for the thread of the turn delivers exactly the bytes of the file, and the artifact store
  keeps its invariant.\<close>

theorem exported_artifact_is_the_file:
  assumes "export_tool env p media_type filename cx s = (Inr (Export_value uri g n m), s')"
    and "normalizeWorkspacePath p False = Inr path" "serves (readBytes (sender env cx) path) content"
    and "\<And>w st w'. agent_stat (sender env cx) path w = (Inr st, w') \<Longrightarrow> fst_size st = length content"
    and "te_root env = abs_path rp" "put_setup (te_io env) (te_sha env) rp (te_uuid env)"
    and "store_ok (te_sha env) rp (dm_fs s) (dm_db s)" "no_collision (te_sha env) rp (dm_fs s) content"
    and "length content < 2 ^ 53"
  shows "g = digest_of (te_sha env) (string_of content) \<and> store_ok (te_sha env) rp (dm_fs s') (dm_db s') \<and>
    (\<exists>x. open_artifact got (dm_fs s') (dm_db s') (b_threadId (cx_turn cx)) g None = Inr x \<and>
      concat (fst (oa_stream x)) = content \<and> snd (oa_stream x) = None)"
proof -
  from export_tool_cases [OF assms(1,2)] obtain mediaType ref s1 where
    s1: "dm_fs s1 = dm_fs s" "dm_db s1 = dm_db s" "g = af_digest ref"
      "exportWorkspaceArtifact env cx path mediaType filename s1 = (Inr ref, s')" by auto
  have "\<exists>source name. concat (fst source) = content \<and>
    putStream (te_io env) (te_sha env) (te_root env) (te_uuid env) (b_threadId (cx_turn cx)) source
      (Some mediaType) name (dm_fs s1) (dm_db s1) = (Inr ref, dm_fs s', dm_db s')"
    by (rule export_puts_content [OF assms(3) _ s1(4)]) (rule assms(4))
  then obtain source name where
    source: "concat (fst source) = content" and
    run: "putStream (te_io env) (te_sha env) (abs_path rp) (te_uuid env) (b_threadId (cx_turn cx)) source
      (Some mediaType) name (dm_fs s) (dm_db s) = (Inr ref, dm_fs s', dm_db s')"
    unfolding s1 assms(5) by blast
  note cfg = assms(6,7)
  have new: "no_collision (te_sha env) rp (dm_fs s) (concat (fst source))" "length (concat (fst source)) < 2 ^ 53"
    using source assms(8,9) by simp_all
  show ?thesis
    using put_then_open [OF cfg new run, of got] putStream_store_ok [OF cfg new(1) run] source s1(3) by auto
qed

lemma demo_serves: "serves (readBytes (sender (demo_tools demo_send) cx) p) [104, 105, 10]"
proof -
  have "prefix (take n xs) xs" for n and xs :: "byte list" by (metis append_take_drop_id prefixI)
  then show ?thesis
    unfolding serves_def
    by (auto simp: readBytes_def io_simps res_simps sender_def demo_tools_def demo_send_def empty_response_def
      bytes_result_def Let_def split: if_splits)
qed

lemma demo_prefix: "read_prefix (demo_tools demo_send) demo_context ''a.txt'' 3 (demo_daemon ()) =
    (Inr \<lparr>rb_data = [104, 105, 10], rb_size = 3, rb_eof = True\<rparr>, demo_daemon ())"
  by (simp add: read_prefix_def on_agents_def demo_readBytes PREFIX_BYTES_def demo_daemon_def)

lemma demo_on_stat: "on_agents (agent_stat (sender (demo_tools demo_send) cx) p) (demo_daemon ()) =
    (Inr \<lparr>fst_path = p, fst_type = ET_file, fst_size = 3, fst_mode = 420, fst_modifiedAt = 0\<rparr>, demo_daemon ())"
  by (simp add: on_agents_def demo_agent_stat demo_daemon_def)

lemma demo_stream: "streamWorkspaceFile (demo_tools demo_send) demo_context ''a.txt'' 3 () = (([[104, 105, 10]], None), ())"
  by (simp add: streamWorkspaceFile_def stream_file.simps MAX_RAW_BYTES_def demo_readBytes)

lemma demo_export_runs: "\<exists>uri g n m s'. export_tool (demo_tools demo_send) ''/workspace/a.txt'' None None demo_context
    (demo_daemon ()) = (Inr (Export_value uri g n m), s')"
proof -
  let ?put = "putStream no_failures demo_hash ''/data/artifacts'' ''u1'' ''alice'' ([[104, 105, 10]], None)
    (Some ''text/plain'') (Some ''a.txt'') demo_store (demo_db T_OPEN I_READY)"
  have "is_ok (fst ?put)" by code_simp
  then obtain ref f d where put: "?put = (Inr ref, f, d)" by (cases ?put; cases "fst ?put") auto
  have ok: "normalizeWorkspacePath ''/workspace/a.txt'' False = Inr ''a.txt''" "basename ''a.txt'' = ''a.txt''"
    "mediaTypeForPath ''a.txt'' (looksBinary [104, 105, 10]) = ''text/plain''" by code_simp+
  have "exportWorkspaceArtifact (demo_tools demo_send) demo_context ''a.txt'' ''text/plain'' None (demo_daemon ()) =
      (Inr ref, (demo_daemon ())\<lparr>dm_fs := f, dm_db := d\<rparr>)"
    using put ok(2) demo_stream
    by (simp add: exportWorkspaceArtifact_def io_bind_def io_require_def demo_on_stat put_workspace_file_def)
      (simp add: demo_daemon_def demo_tools_def demo_context_def demo_bound_def)
  then show ?thesis using ok demo_prefix
    by (simp add: export_tool_def io_bind_def io_require_def io_res_def io_return_def demo_on_stat or_else_def)
qed

lemma exported_artifact_is_the_file_witness:
  "\<exists>uri g n m s' x. export_tool (demo_tools demo_send) ''/workspace/a.txt'' None None demo_context (demo_daemon ()) =
       (Inr (Export_value uri g n m), s') \<and>
     open_artifact (\<lambda>_ n. n) (dm_fs s') (dm_db s') ''alice'' g None = Inr x \<and>
     concat (fst (oa_stream x)) = [104, 105, 10]"
proof -
  let ?env = "demo_tools demo_send" and ?rp = "[''data'', ''artifacts'']"
  obtain uri g n m s' where run: "export_tool ?env ''/workspace/a.txt'' None None demo_context (demo_daemon ()) =
      (Inr (Export_value uri g n m), s')" using demo_export_runs by blast
  have path: "normalizeWorkspacePath ''/workspace/a.txt'' False = Inr ''a.txt''" by code_simp
  have root: "te_root ?env = abs_path ?rp" by (simp add: demo_tools_def) code_simp
  have cfg: "put_setup (te_io ?env) (te_sha ?env) ?rp (te_uuid ?env)"
    using demo_setup by (simp add: demo_tools_def)
  have ok: "store_ok (te_sha ?env) ?rp (dm_fs (demo_daemon ())) (dm_db (demo_daemon ()))"
    "no_collision (te_sha ?env) ?rp (dm_fs (demo_daemon ())) [104, 105, 10]"
    using demo_store_ok demo_no_collision
    by (simp_all add: demo_tools_def demo_daemon_def store_ok_def demo_db_def)
  have stat: "agent_stat (sender ?env demo_context) ''a.txt'' w = (Inr st, w') \<Longrightarrow> fst_size st = length [104, 105, 10]"
    for w st w' by (auto simp: demo_agent_stat)
  from exported_artifact_is_the_file [OF run path demo_serves stat root cfg ok, where got = "\<lambda>_ n. n"] obtain x where
    "open_artifact (\<lambda>_ n. n) (dm_fs s') (dm_db s') ''alice'' g None = Inr x" "concat (fst (oa_stream x)) = [104, 105, 10]"
    by (auto simp: demo_context_def demo_bound_def)
  then show ?thesis using run by blast
qed

end
