(* ===== verification/Props_Http.thy ===== *)
theory Props_Http
  imports Daemon Props_Tools
begin

text \<open>
  Properties of the HTTP server: only the holder of the token gets past the routes, and a tool
  call runs in the turn it names, under a lease that is given back.
\<close>

section \<open>Authentication\<close>

lemma starts_with_drop: "starts_with p s \<Longrightarrow> s = p @ drop (length p) s"
  by (auto simp: starts_with_iff)

lemma requireAuth_Inr:
  "requireAuth q token = Inr u \<longleftrightarrow>
     (\<exists>t. token = Some t \<and> t \<noteq> '''' \<and> hr_headers q ''authorization'' = Some (bearer @ t) \<and>
        js_length (bearer @ t) \<le> 8192)"
proof
  assume "requireAuth q token = Inr u"
  then show "\<exists>t. token = Some t \<and> t \<noteq> '''' \<and> hr_headers q ''authorization'' = Some (bearer @ t) \<and>
      js_length (bearer @ t) \<le> 8192"
    by (auto simp: requireAuth_def Let_def split: option.splits if_splits dest!: starts_with_drop)
next
  assume "\<exists>t. token = Some t \<and> t \<noteq> '''' \<and> hr_headers q ''authorization'' = Some (bearer @ t) \<and>
      js_length (bearer @ t) \<le> 8192"
  then show "requireAuth q token = Inr u" by (auto simp: requireAuth_def Let_def bearer_def)
qed

lemma requireAuth_Inl:
  "requireAuth q token = Inl e \<Longrightarrow> \<exists>c m. e = ServiceError c m None \<and> c \<in> {AUTH_REQUIRED, FORBIDDEN}"
  by (auto simp: requireAuth_def Let_def split: option.splits if_splits)

lemma refused_route:
  assumes "requireAuth q (he_token env) = Inl e" "route \<notin> {R_health, R_other}"
  shows "serve env route q sv = (Some (errorResponse e), sv)"
  using assms
  by (cases route) (auto simp: start_route_def start_params_def turn_params_def finish_route_def fork_route_def
    fork_params_def mcp_route_def Let_def)

text \<open>C25: nothing happens without the token. A request whose authorization header is not the word
  Bearer followed by the configured token (which is never empty) changes neither the turns nor
  anything else of the daemon; it gets the health report, the 404 of an unknown route, or an
  authentication error with its status.\<close>

theorem requests_need_the_token:
  assumes "serve env route q sv = (r, sv')"
    and "\<nexists>t. he_token env = Some t \<and> t \<noteq> '''' \<and> hr_headers q ''authorization'' = Some (''Bearer '' @ t)"
  shows "sv' = sv \<and>
    (case route of
       R_health \<Rightarrow> r = Some (Json 200 (health env))
     | R_other \<Rightarrow> r = Some (Json 404 (Error_body NOT_FOUND ''Route not found'' None))
     | _ \<Rightarrow> \<exists>c m. r = Some (Json (statusByCode c) (Error_body c m None)) \<and> c \<in> {AUTH_REQUIRED, FORBIDDEN})"
proof -
  obtain e where e: "requireAuth q (he_token env) = Inl e"
    using assms(2) by (cases "requireAuth q (he_token env)") (auto simp: requireAuth_Inr bearer_def)
  from requireAuth_Inl [OF e] obtain c m where "e = ServiceError c m None" "c \<in> {AUTH_REQUIRED, FORBIDDEN}" by blast
  then have "\<exists>c m. Some (errorResponse e) = Some (Json (statusByCode c) (Error_body c m None)) \<and>
      c \<in> {AUTH_REQUIRED, FORBIDDEN}" by auto
  then show ?thesis using assms(1) refused_route [OF e, of route sv] by (cases route) auto
qed

section \<open>Tool calls and leases\<close>

lemma errorResponse_not_handled [simp]: "errorResponse e \<noteq> Handled m" "jsonRpcTurnError i e \<noteq> Handled m"
  by (cases e; simp)+

lemma handler_fetch_turns: "handler_fetch env q sv = (r, sv') \<Longrightarrow> sv_turns sv' = sv_turns sv"
  by (auto simp: handler_fetch_def split: prod.splits)

lemma handler_fetch_Handled:
  "handler_fetch env q sv = (Handled m, sv') \<Longrightarrow>
   he_handler env (mcp_turn (sv_turns sv) q) q (sv_daemon sv) = (Inr m, sv_daemon sv')"
proof -
  show "handler_fetch env q sv = (Handled m, sv') \<Longrightarrow> ?thesis"
    by (auto simp: handler_fetch_def split: prod.splits sum.splits)
qed

definition tools_call :: "('w, 'm) http_env \<Rightarrow> http_request \<Rightarrow> bool" where
  "tools_call env q \<longleftrightarrow> ev_method (inspectMcpRequest (he_parse env) q) = Some ''tools/call''"

text \<open>C26: a tool call runs in the turn it names. When the MCP handler answers a tool call, it was
  given the open turn of the thread and turn headers; for any other message, and whatever
  internal lease header the client sends, it was given none. However the call ended, the lease it
  held is given back: no turn's lease count has changed and the lease resolves to nothing.\<close>

theorem tool_call_runs_in_its_turn:
  assumes ok: "leases_ok (sv_turns sv)" and fresh: "he_leaseId env \<notin> fst ` set (ts_activeLeases (sv_turns sv))"
    "he_leaseId env \<notin> set (ts_released (sv_turns sv))" "he_leaseId env \<noteq> ''''"
    and run: "mcp_route env q sv = (r, sv')"
  shows "leases_ok (sv_turns sv') \<and> (\<forall>key. lease_count (sv_turns sv') key = lease_count (sv_turns sv) key) \<and>
    resolveLease (sv_turns sv') (he_leaseId env) = None \<and>
    (\<forall>m. r = Handled m \<longrightarrow> (\<exists>turn q'. he_handler env turn q' (sv_daemon sv) = (Inr m, sv_daemon sv') \<and>
       (if tools_call env q
        then \<exists>tid uid b. turn = Some b \<and> hr_headers q ''electrosphere-thread-id'' = Some tid \<and>
          hr_headers q ''electrosphere-turn-id'' = Some uid \<and> resolve (dm_db (sv_daemon sv)) tid uid = Inr b
        else turn = None)))"
proof -
  let ?ts = "sv_turns sv"
  have gone: "resolveLease ?ts (he_leaseId env) = None"
    using fresh(1) by (simp add: resolveLease_def map_of_eq_None_iff)
  show ?thesis
  proof (cases "requireAuth q (he_token env)")
    case (Inl e)
    then have "r = errorResponse e" "sv' = sv" using run by (auto simp: mcp_route_def Let_def)
    then show ?thesis using ok gone by simp
  next
    case auth: (Inr u)
    show ?thesis
    proof (cases "tools_call env q")
      case False
      then have "handler_fetch env (forwarded q None) sv = (r, sv')"
        using run auth by (simp add: mcp_route_def Let_def tools_call_def)
      moreover have "mcp_turn ?ts (forwarded q None) = None" by (simp add: mcp_turn_def forwarded_def)
      ultimately show ?thesis
        using ok gone False handler_fetch_turns [of env "forwarded q None" sv r sv']
          handler_fetch_Handled [of env "forwarded q None" sv _ sv'] by auto
    next
      case True
      show ?thesis
      proof (cases "tool_lease env q sv")
        case (Inl e)
        then have "r = jsonRpcTurnError (ev_id (inspectMcpRequest (he_parse env) q)) e" "sv' = sv"
          using run auth True by (auto simp: mcp_route_def Let_def tools_call_def)
        then show ?thesis using ok gone by simp
      next
        case (Inr lt)
        obtain lease ts where lt: "lt = (lease, ts)" by force
        obtain tid uid where hdr: "hr_headers q ''electrosphere-thread-id'' = Some tid"
            "hr_headers q ''electrosphere-turn-id'' = Some uid"
          and acq: "acquire ?ts (dm_db (sv_daemon sv)) tid uid (he_leaseId env) = Inr (lease, ts)"
          using Inr lt by (auto simp: tool_lease_def split: option.splits if_splits)
        note held = leases_ok_acquire [OF ok fresh(1) acq]
        from acq obtain b where b: "resolve (dm_db (sv_daemon sv)) tid uid = Inr b"
          "lease = \<lparr>l_id = he_leaseId env, l_key = turnKey tid uid, l_turn = b\<rparr>"
          by (auto simp: acquire_Inr)
        let ?q = "forwarded q (Some (l_id lease))"
        obtain sv1 where fetch: "handler_fetch env ?q (sv\<lparr>sv_turns := ts\<rparr>) = (r, sv1)"
          and sv': "sv' = sv1\<lparr>sv_turns := snd (release lease (sv_turns sv1))\<rparr>"
          using run auth True Inr lt by (auto simp: mcp_route_def Let_def tools_call_def split: prod.splits)
        have ts1: "sv_turns sv1 = ts" using handler_fetch_turns [OF fetch] by simp
        obtain woken ts' where rel: "release lease ts = (woken, ts')" by force
        have turns': "sv_turns sv' = ts'" using sv' ts1 rel by simp
        have "l_id lease \<notin> set (ts_released ts)" using b(2) fresh(2) acquire_released [OF acq] by simp
        from release_active [OF _ this _ _ rel, of b] held b
        have after: "leases_ok ts'" "resolveLease ts' (he_leaseId env) = None"
          "lease_count ts' key = (if key = turnKey tid uid then lease_count ts key - 1 else lease_count ts key)" for key
          by (auto simp: resolveLease_def)
        have "lease_count ts key = (if key = turnKey tid uid then lease_count ?ts key + 1 else lease_count ?ts key)" for key
          using acq by (auto simp: acquire_Inr lease_count_def map_of_update)
        then have "lease_count ts' key = lease_count ?ts key" for key using after(3) by simp
        moreover have "mcp_turn ts ?q = Some b"
          using held b fresh(3) by (simp add: mcp_turn_def forwarded_def resolveLease_def)
        ultimately show ?thesis
          using after(1,2) True hdr b(1) turns' handler_fetch_Handled [of env ?q "sv\<lparr>sv_turns := ts\<rparr>" _ sv1] fetch sv'
          by auto
      qed
    qed
  qed
qed

section \<open>A concrete server\<close>

definition demo_http :: "(unit, bool) http_env" where
  "demo_http = \<lparr>he_token = Some ''secret'', he_storageReady = True,
     he_docker = \<lparr>hp_available = True, hp_reason = None\<rparr>, he_firecracker = \<lparr>hp_available = False, hp_reason = None\<rparr>,
     he_parse = (\<lambda>_. Some (J_object [(''method'', J_string ''tools/call'')])), he_ex = demo_ex, he_sb = demo_sb,
     he_sessions = idle_backend, he_handler = (\<lambda>turn q dm. (Inr (turn \<noteq> None), dm)), he_now = 0, he_later = 1,
     he_instanceId = ''i2'', he_workspaceId = ''w2'', he_leaseId = ''l1''\<rparr>"

definition demo_server :: "unit server" where
  "demo_server = \<lparr>sv_turns = demo_service, sv_daemon = demo_daemon ()\<rparr>"

definition demo_call :: "string option \<Rightarrow> http_request" where
  "demo_call token = \<lparr>hr_method = ''POST'',
     hr_headers = [''electrosphere-thread-id'' \<mapsto> ''alice'', ''electrosphere-turn-id'' \<mapsto> ''t1'',
       ''electrosphere-internal-lease-id'' \<mapsto> ''forged''](''authorization'' := token), hr_body = [123, 125]\<rparr>"

lemma requests_need_the_token_witness:
  "\<exists>r c m. serve demo_http (R_finish ''alice'' ''t1'') (demo_call (Some ''Bearer wrong'')) demo_server = (r, demo_server) \<and>
     r = Some (Json (statusByCode c) (Error_body c m None)) \<and> c \<in> {AUTH_REQUIRED, FORBIDDEN}"
proof -
  obtain r sv' where run: "serve demo_http (R_finish ''alice'' ''t1'') (demo_call (Some ''Bearer wrong'')) demo_server = (r, sv')"
    by (metis surj_pair)
  have "\<nexists>t. he_token demo_http = Some t \<and> t \<noteq> '''' \<and>
      hr_headers (demo_call (Some ''Bearer wrong'')) ''authorization'' = Some (''Bearer '' @ t)"
    by (auto simp: demo_http_def demo_call_def)
  from requests_need_the_token [OF run this] run show ?thesis by auto
qed

lemma tool_call_runs_in_its_turn_witness:
  "\<exists>sv' turn q'. mcp_route demo_http (demo_call (Some ''Bearer secret'')) demo_server = (Handled True, sv') \<and>
     he_handler demo_http turn q' (sv_daemon demo_server) = (Inr True, sv_daemon sv') \<and>
     resolveLease (sv_turns sv') ''l1'' = None \<and>
     (\<exists>b. turn = Some b \<and> resolve (dm_db (sv_daemon demo_server)) ''alice'' ''t1'' = Inr b)"
proof -
  have "fst (mcp_route demo_http (demo_call (Some ''Bearer secret'')) demo_server) = Handled True" by code_simp
  then obtain sv' where run: "mcp_route demo_http (demo_call (Some ''Bearer secret'')) demo_server = (Handled True, sv')"
    by (metis prod.collapse)
  have call: "tools_call demo_http (demo_call (Some ''Bearer secret''))" unfolding tools_call_def by code_simp
  have ok: "leases_ok (sv_turns demo_server)" "he_leaseId demo_http \<notin> fst ` set (ts_activeLeases (sv_turns demo_server))"
    "he_leaseId demo_http \<notin> set (ts_released (sv_turns demo_server))" "he_leaseId demo_http \<noteq> ''''"
    "he_leaseId demo_http = ''l1''"
    by (simp_all add: leases_ok_def demo_server_def demo_service_def demo_http_def lease_count_def active_leases_def)
  from tool_call_runs_in_its_turn [OF ok(1-4) run] call ok(5) run show ?thesis
    by (fastforce simp: demo_call_def)
qed

section \<open>Start-up\<close>

lemma initialize_commit:
  assumes "initialize ex sb d = (Inr sb', d')"
  shows "\<exists>c. sb_emptyCommit sb' = Some c \<and> c \<in> commit_ids d'"
  using assms
  by (auto simp: initialize_def res_simps Let_def putCommit_def insert_commit_def commit_ids_def commit_exists_def
      split: if_splits option.splits)

text \<open>C27: the daemon starts clean. When the start-up succeeds on a database that satisfies the
  constraints, the daemon listens on a loopback address and a valid port, with a bounded output
  buffer; no turn is active, no instance is live and no operation is running, the constraints
  hold, the canonical empty commit exists, and no lease is held.\<close>

theorem daemon_starts_clean:
  assumes run: "startDaemon bt env w f = Inr st" and storage: "\<And>dir d. bt_openStorage bt dir = Inr d \<Longrightarrow> db_ok d"
  shows "cf_host (sd_config st) \<in> {''127.0.0.1'', ''localhost'', ''::1''} \<and>
    1 \<le> cf_port (sd_config st) \<and> cf_port (sd_config st) \<le> 65535 \<and>
    1024 \<le> cf_maxOutputBytes (sd_config st) \<and> cf_maxOutputBytes (sd_config st) \<le> 16 * 1024 * 1024 \<and>
    (let d = dm_db (sv_daemon (sd_server st)) in
       db_ok d \<and> (\<forall>r\<in>set (db_instances d). i_state r \<notin> set live_states) \<and>
       (\<forall>r\<in>set (db_turns d). \<not> active_state (t_state r)) \<and> (\<forall>r\<in>set (db_operations d). o_status r \<noteq> O_RUNNING) \<and>
       (\<exists>c. getCanonicalEmptyCommit (sd_service st) = Inr c \<and> c \<in> commit_ids d)) \<and>
    leases_ok (sv_turns (sd_server st)) \<and> (\<forall>key. lease_count (sv_turns (sd_server st)) key = 0)"
proof -
  from run obtain cfg d probes where cfg: "loadConfig (bt_number bt) env = Inr cfg"
    and d: "bt_openStorage bt (cf_dataDir cfg) = Inr d" and st: "fst (boot_services bt cfg probes w f d) = Inr st"
    by (auto simp: startDaemon_def res_simps)
  from st obtain sb d1 d2 where init: "initialize (bt_ex bt) \<lparr>sb_dataDir = cf_dataDir cfg, sb_emptyCommit = None\<rparr> d = (Inr sb, d1)"
    and rec: "recover (bt_ex bt) (cf_dataDir cfg) (bt_staging bt) (bt_now bt) d1 = (Inr (), d2)"
    and st: "st = \<lparr>sd_config = cfg, sd_service = sb, sd_probes = probes, sd_server = new_server cfg w f d2\<rparr>"
    by (auto simp: boot_services_def split: prod.splits sum.splits)
  have ok1: "db_ok d1" using db_ok_initialize [OF storage [OF d] init] .
  note out = recover_outcome [OF ok1 rec]
  obtain c where c: "sb_emptyCommit sb = Some c" "c \<in> commit_ids d1" using initialize_commit [OF init] by blast
  moreover have "commit_ids d2 = commit_ids d1" using out by (simp add: commit_ids_def)
  moreover have "c \<noteq> ''''"
    using init c(1) by (auto simp: initialize_def res_simps Let_def commitDigest_def digest_of_def)
  ultimately have "\<exists>c. getCanonicalEmptyCommit sb = Inr c \<and> c \<in> commit_ids d2"
    by (simp add: getCanonicalEmptyCommit_def)
  moreover have "leases_ok (new_turns b) \<and> lease_count (new_turns b) key = 0" for b key
    by (simp add: new_turns_def leases_ok_def lease_count_def active_leases_def)
  ultimately show ?thesis
    using out loadConfig_Inr [OF cfg] by (simp add: st new_server_def Let_def loopbackHosts_def)
qed

definition demo_boot :: boot where
  "demo_boot = \<lparr>bt_number = (\<lambda>_. Not_integer), bt_mkdir = (\<lambda>_. Inr ()),
     bt_openStorage = (\<lambda>_. Inr (demo_db T_OPEN I_RUNNING)),
     bt_preflight = Inr (\<lparr>hp_available = True, hp_reason = None\<rparr>, \<lparr>hp_available = False, hp_reason = None\<rparr>),
     bt_ex = demo_ex, bt_staging = [''left''], bt_now = 9\<rparr>"

lemma daemon_starts_clean_witness:
  "\<exists>st. startDaemon demo_boot [''ELECTROSPHERE_DATA_DIR'' \<mapsto> ''/data''] () demo_store = Inr st \<and>
     cf_host (sd_config st) \<in> {''127.0.0.1'', ''localhost'', ''::1''} \<and>
     (\<forall>r\<in>set (db_turns (dm_db (sv_daemon (sd_server st)))). \<not> active_state (t_state r))"
proof -
  let ?env = "[''ELECTROSPHERE_DATA_DIR'' \<mapsto> ''/data'']"
  have "is_ok (loadConfig (bt_number demo_boot) ?env)"
    by (simp add: loadConfig_def required_text_def int_or_def backend_or_def text_or_def optional_text_def loopbackHosts_def)
  then obtain cfg where cfg: "loadConfig (bt_number demo_boot) ?env = Inr cfg"
    by (cases "loadConfig (bt_number demo_boot) ?env") auto
  have "is_ok (fst (initialize demo_ex \<lparr>sb_dataDir = dir, sb_emptyCommit = None\<rparr> (demo_db T_OPEN I_RUNNING)))" for dir
    by (simp add: initialize_def demo_env Let_def putTreeObject_def putCommit_def insert_commit_def demo_defs
      commitDigest_def digest_of_def commit_id_check_def)
  then obtain sb d1 where init: "initialize demo_ex \<lparr>sb_dataDir = cf_dataDir cfg, sb_emptyCommit = None\<rparr>
      (demo_db T_OPEN I_RUNNING) = (Inr sb, d1)" using run_ok by blast
  have "db_ok d1" using db_ok_initialize [OF demo_db_ok init] .
  then obtain d2 where rec: "recover demo_ex (cf_dataDir cfg) [''left''] 9 d1 = (Inr (), d2)"
    using recover_returns [of d1 demo_ex "cf_dataDir cfg" "[''left'']" 9] by (auto simp: demo_env)
  obtain st where run: "startDaemon demo_boot ?env () demo_store = Inr st"
    using cfg init rec by (simp add: startDaemon_def boot_services_def demo_boot_def)
  have "bt_openStorage demo_boot dir = Inr d \<Longrightarrow> db_ok d" for dir d
    by (auto simp: demo_boot_def)
  from daemon_starts_clean [OF run this] run show ?thesis by (simp add: Let_def)
qed

end
