(* ===== verification/Tar.thy ===== *)
theory Tar
  imports Cfs
begin

text \<open>
  The archive of a workspace that restores it into a container (\<open>src/storage/tar.ts\<close>). The
  generator \<open>chunks\<close> reads a file piece by piece into one buffer and yields views of that buffer,
  so a chunk is either bytes of its own or a view (\<open>subarray\<close>) of a buffer; the buffers are
  part of the state, and what a view shows depends on when it is looked at.
\<close>

section \<open>Header fields\<close>

text \<open>\<open>BigInt(n).toString(8)\<close> and \<open>padStart\<close>.\<close>

function oct_str :: "nat \<Rightarrow> string" where
  "oct_str n = (if n < 8 then [char_of (48 + n)] else oct_str (n div 8) @ [char_of (48 + n mod 8)])"
  by pat_completeness auto
termination
  by (relation "measure id") auto

declare oct_str.simps [simp del]

definition bigint_oct :: "int \<Rightarrow> string" where
  "bigint_oct n = (if n < 0 then CHR ''-'' # oct_str (nat (- n)) else oct_str (nat n))"

definition padStart :: "nat \<Rightarrow> char \<Rightarrow> string \<Rightarrow> string" where
  "padStart n c s = replicate (n - length s) c @ s"

definition octal :: "int \<Rightarrow> nat \<Rightarrow> byte list res" where
  "octal v width =
     (let encoded = padStart (width - 1) (CHR ''0'') (bigint_oct v) in
      if length encoded \<ge> width then Inl (service_err SNAPSHOT_LIMIT ''Tar numeric field exceeds format limit'')
      else Inr (bytes_of (encoded @ [NUL])))"

text \<open>\<open>value.copy(header, offset)\<close>, for a value that fits.\<close>

definition blit :: "byte list \<Rightarrow> nat \<Rightarrow> byte list \<Rightarrow> byte list" where
  "blit h off v = take off h @ v @ drop (off + length v) h"

definition writeField :: "byte list \<Rightarrow> nat \<Rightarrow> nat \<Rightarrow> byte list \<Rightarrow> byte list res" where
  "writeField header off width v =
     (if length v > width then Inl (unsupported ''Tar field exceeds format limit'')
      else Inr (blit header off v))"

definition octal_field :: "nat \<Rightarrow> nat \<Rightarrow> int \<Rightarrow> byte list \<Rightarrow> byte list res" where
  "octal_field off width v header = bind_res (octal v width) (writeField header off width)"

definition text_at :: "nat \<Rightarrow> string \<Rightarrow> byte list \<Rightarrow> byte list" where
  "text_at off s header = blit header off (bytes_of s)"

section \<open>A header\<close>

record tar_input =
  ti_name :: string
  ti_mode :: nat
  ti_size :: int
  ti_mtime :: int
  ti_type :: char
  ti_linkName :: "string option"

definition checksum :: "byte list \<Rightarrow> nat" where
  "checksum header = sum_list (map unat header)"

definition put_checksum :: "byte list \<Rightarrow> byte list" where
  "put_checksum header = text_at 148 (padStart 6 (CHR ''0'') (oct_str (checksum header)) @ [NUL, CHR '' '']) header"

definition tarHeader :: "tar_input \<Rightarrow> byte list res" where
  "tarHeader i =
     (let header = replicate 512 0;
          name = bytes_of (ti_name i);
          linkName = bytes_of (case ti_linkName i of Some l \<Rightarrow> l | None \<Rightarrow> []) in
      if length name > 100 \<or> length linkName > 100 then Inl (unsupported ''Tar path exceeds ustar field limit'')
      else bind_res (writeField header 0 100 name) (\<lambda>header.
      bind_res (octal_field 100 8 (int (ti_mode i AND 4095)) header) (\<lambda>header.
      bind_res (octal_field 108 8 1000 header) (\<lambda>header.
      bind_res (octal_field 116 8 1000 header) (\<lambda>header.
      bind_res (octal_field 124 12 (ti_size i) header) (\<lambda>header.
      bind_res (octal_field 136 12 (ti_mtime i) header) (\<lambda>header.
      let header = blit header 148 (replicate 8 32);
          header = text_at 156 [ti_type i] header in
      bind_res (writeField header 157 100 linkName) (\<lambda>header.
      let header = text_at 257 (''ustar'' @ [NUL]) header;
          header = text_at 263 ''00'' header;
          header = text_at 265 ''code'' header;
          header = text_at 297 ''code'' header in
      Inr (put_checksum header)))))))))"

section \<open>The entries\<close>

definition tar_unsafe :: "string \<Rightarrow> bool" where
  "tar_unsafe p \<longleftrightarrow> p = [] \<or> starts_with ''/'' p \<or>
     list_ex (\<lambda>part. part = [] \<or> part = ''.'' \<or> part = ''..'') (split_on (CHR ''/'') p)"

function tar_walk :: "string \<Rightarrow> (string \<times> node) list \<Rightarrow> entry list res" where
  "tar_walk dir [] = Inr []"
| "tar_walk dir ((name, n) # cs) =
     (let path = child_path dir name in
      if tar_unsafe path then Inl (unsupported (''Unsafe archive path: '' @ path))
      else bind_res (node_stats n) (\<lambda>_.
      bind_res (case n of N_dir st sub \<Rightarrow> tar_walk path (sort_entries sub) | _ \<Rightarrow> Inr []) (\<lambda>inner.
      bind_res (tar_walk dir cs) (\<lambda>rest.
        Inr (\<lparr>en_relative = path, en_node = n\<rparr> # inner @ rest)))))"
  by pat_completeness auto
termination
  by (relation "measure (\<lambda>(_, cs). size_list (size_prod (\<lambda>_. 0) size) cs)") auto

definition tar_collect :: "(string \<times> node) list \<Rightarrow> entry list res" where
  "tar_collect cs = bind_res (tar_walk [] (sort_entries cs)) (\<lambda>es. Inr (sort_key en_relative es))"

section \<open>The generator\<close>

datatype tar_chunk = T_bytes "byte list" | T_view nat nat

text \<open>The chunks yielded so far, each with the buffers as they were then.\<close>

record tar_state =
  ts_hardLinks :: "nat \<times> nat \<Rightarrow> string option"
  ts_buffers :: "byte list list"
  ts_yields :: "(tar_chunk \<times> byte list list) list"

definition tar_start :: tar_state where
  "tar_start = \<lparr>ts_hardLinks = (\<lambda>_. None), ts_buffers = [], ts_yields = []\<rparr>"

definition tar_yield :: "tar_chunk \<Rightarrow> tar_state \<Rightarrow> tar_state" where
  "tar_yield c s = s\<lparr>ts_yields := ts_yields s @ [(c, ts_buffers s)]\<rparr>"

definition yield_header :: "tar_input \<Rightarrow> tar_state \<Rightarrow> js_error \<times> tar_state + tar_state" where
  "yield_header i s = bind_res (at_state s (tarHeader i)) (\<lambda>h. Inr (tar_yield (T_bytes h) s))"

text \<open>\<open>file.read\<close> puts what it returns at the start of the buffer \<open>b\<close>.\<close>

definition fill :: "nat \<Rightarrow> byte list \<Rightarrow> tar_state \<Rightarrow> tar_state" where
  "fill b bytes s = s\<lparr>ts_buffers := (ts_buffers s)[b := blit (ts_buffers s ! b) 0 bytes]\<rparr>"

function tar_read_loop :: "(nat \<Rightarrow> nat \<Rightarrow> byte list) \<Rightarrow> nat \<Rightarrow> nat \<Rightarrow> nat \<Rightarrow> tar_state \<Rightarrow> nat \<times> tar_state" where
  "tar_read_loop rd b len offset s =
     (if offset < len
      then let bytes = rd offset (min (64 * 1024) (len - offset)) in
        if bytes = [] then (offset, s)
        else tar_read_loop rd b len (offset + length bytes) (tar_yield (T_view b (length bytes)) (fill b bytes s))
      else (offset, s))"
  by pat_completeness auto
termination
  by (relation "measure (\<lambda>(rd, b, len, offset, s). len - offset)")
    (auto simp flip: length_greater_0_conv)

declare tar_read_loop.simps [simp del]

definition tar_padding :: "nat \<Rightarrow> nat" where
  "tar_padding n = (512 - n mod 512) mod 512"

definition tar_file :: "string \<Rightarrow> nat \<Rightarrow> int \<Rightarrow> stats \<Rightarrow> (nat \<Rightarrow> nat \<Rightarrow> byte list) \<Rightarrow> tar_state \<Rightarrow> js_error \<times> tar_state + tar_state" where
  "tar_file path mode mtime st rd s =
     (let inode = (st_dev st, st_ino st);
          prior = (if st_nlink st > 1 then truthy (ts_hardLinks s inode) else None) in
      case prior of
        Some l \<Rightarrow> yield_header \<lparr>ti_name = path, ti_mode = mode, ti_size = 0, ti_mtime = mtime,
          ti_type = CHR ''1'', ti_linkName = Some l\<rparr> s
      | None \<Rightarrow>
        (let s = (if st_nlink st > 1 then s\<lparr>ts_hardLinks := (ts_hardLinks s)(inode := Some path)\<rparr> else s) in
         bind_res (yield_header \<lparr>ti_name = path, ti_mode = mode, ti_size = int (st_size st), ti_mtime = mtime,
           ti_type = CHR ''0'', ti_linkName = None\<rparr> s) (\<lambda>s.
         let b = length (ts_buffers s);
             (offset, s) = tar_read_loop rd b (st_size st) 0 (s\<lparr>ts_buffers := ts_buffers s @ [[]]\<rparr>) in
         if offset \<noteq> st_size st then Inl (service_err BACKEND_ERROR (''File changed during archive: '' @ path), s)
         else Inr (if tar_padding (st_size st) > 0 then tar_yield (T_bytes (replicate (tar_padding (st_size st)) 0)) s
                   else s))))"

definition tar_entry :: "entry \<Rightarrow> tar_state \<Rightarrow> js_error \<times> tar_state + tar_state" where
  "tar_entry e s = bind_res (at_state s (node_stats (en_node e))) (\<lambda>st.
     let path = en_relative e; mode = st_mode st AND 4095; mtime = st_mtimeNs st sdiv 1000000000 in
     case en_node e of
       N_dir _ _ \<Rightarrow> yield_header \<lparr>ti_name = path @ ''/'', ti_mode = mode, ti_size = 0, ti_mtime = mtime,
         ti_type = CHR ''5'', ti_linkName = None\<rparr> s
     | N_symlink _ target \<Rightarrow> yield_header \<lparr>ti_name = path, ti_mode = mode, ti_size = 0, ti_mtime = mtime,
         ti_type = CHR ''2'', ti_linkName = Some target\<rparr> s
     | N_file _ rd \<Rightarrow> tar_file path mode mtime st rd s
     | _ \<Rightarrow> Inl (unsupported (''Unsupported archive entry: '' @ path), s))"

fun tar_entries :: "entry list \<Rightarrow> tar_state \<Rightarrow> js_error \<times> tar_state + tar_state" where
  "tar_entries [] s = Inr s"
| "tar_entries (e # es) s = bind_res (tar_entry e s) (tar_entries es)"

definition tar_chunks :: "(string \<times> node) list \<Rightarrow> js_error \<times> tar_state + tar_state" where
  "tar_chunks cs =
     bind_res (at_state tar_start (tar_collect cs)) (\<lambda>es.
     bind_res (tar_entries es tar_start) (\<lambda>s.
       Inr (tar_yield (T_bytes (replicate 1024 0)) s)))"

section \<open>The stream\<close>

text \<open>
  \<open>workspaceTarStream\<close>: taking a chunk out of the stream pulls the next one, so the generator
  runs to its next \<open>yield\<close> while the reader handles the chunk. \<open>lates\<close> says for each chunk
  whether its bytes are looked at only after that.
\<close>

fun chunk_bytes :: "byte list list \<Rightarrow> tar_chunk \<Rightarrow> byte list" where
  "chunk_bytes buffers (T_bytes b) = b"
| "chunk_bytes buffers (T_view b n) = take n (buffers ! b)"

fun streamed :: "bool list \<Rightarrow> (tar_chunk \<times> byte list list) list \<Rightarrow> byte list list" where
  "streamed lates [] = []"
| "streamed lates ((c, buffers) # ys) =
     (case (lates, ys) of
        (True # _, (_, later) # _) \<Rightarrow> chunk_bytes later c
      | _ \<Rightarrow> chunk_bytes buffers c) # streamed (tl lates) ys"

definition workspaceTarStream :: "bool list \<Rightarrow> (string \<times> node) list \<Rightarrow> byte list list \<times> unit res" where
  "workspaceTarStream lates cs =
     (case tar_chunks cs of
        Inr s \<Rightarrow> (streamed lates (ts_yields s), Inr ())
      | Inl (e, s) \<Rightarrow> (streamed lates (ts_yields s), Inl e))"

end
