(* ===== verification/DockerStream.thy ===== *)
theory DockerStream
  imports Frames Agent
begin

text \<open>
  The connection of the Docker backend to the agent of a container
  (\<open>DockerAgentTransport\<close> in \<open>src/backends/docker.ts\<close>): an HTTP upgrade, then a stream of Docker
  frames, each with the number of an output stream and a payload; the payloads of stream 1 are
  the bytes of the agent channel. The events of the socket come in any order, and the data is
  cut into chunks anywhere.
\<close>

section \<open>State\<close>

record 'p attachment =
  at_connected :: bool
  at_closed :: bool
  at_handshake :: "byte list"
  at_frames :: "byte list"
  at_channel :: "'p channel option"
  at_ready :: "unit res option"
  at_writer :: frame_writer

definition new_attachment :: "'p attachment" where
  "new_attachment = \<lparr>at_connected = False, at_closed = False, at_handshake = [], at_frames = [], at_channel = None,
     at_ready = None, at_writer = new_writer\<rparr>"

text \<open>A promise is settled once.\<close>

definition settle_ready :: "unit res \<Rightarrow> 'p attachment \<Rightarrow> 'p attachment" where
  "settle_ready r a = (if at_ready a = None then a\<lparr>at_ready := Some r\<rparr> else a)"

definition attachment_fail :: "js_error \<Rightarrow> 'p attachment \<Rightarrow> 'p attachment" where
  "attachment_fail e a =
     (if at_closed a then a
      else let a = a\<lparr>at_closed := True\<rparr>;
               a = (if \<not> at_connected a then settle_ready (Inl e) a else a)
           in a\<lparr>at_channel := map_option (Frames.fail e) (at_channel a), at_writer := Frames.clear (at_writer a)\<rparr>)"

definition attachment_close :: "'p attachment \<Rightarrow> 'p attachment" where
  "attachment_close a =
     (if at_closed a then a
      else a\<lparr>at_closed := True, at_channel := map_option close_channel (at_channel a),
             at_writer := Frames.clear (at_writer a)\<rparr>)"

section \<open>The frames of the attach stream\<close>

function consumeDockerFrames :: "(byte list \<Rightarrow> 'p res) \<Rightarrow> 'p attachment \<Rightarrow> 'p attachment" where
  "consumeDockerFrames parse a =
     (let frames = at_frames a in
      if length frames < 8 then a
      else
        (let stream = hd frames; len = be_nat (take 4 (drop 4 frames)) in
         if length frames < len + 8 then a
         else
           (let payload = take len (drop 8 frames);
                a = a\<lparr>at_frames := drop (len + 8) frames\<rparr>
            in consumeDockerFrames parse
                 (if stream = 1 then a\<lparr>at_channel := map_option (\<lambda>ch. push parse ch payload) (at_channel a)\<rparr> else a))))"
  by pat_completeness auto
termination
  by (relation "measure (\<lambda>(parse, a). length (at_frames a))") auto

declare consumeDockerFrames.simps [simp del]

definition consume_chunk :: "(byte list \<Rightarrow> 'p res) \<Rightarrow> 'p attachment \<Rightarrow> byte list \<Rightarrow> 'p attachment" where
  "consume_chunk parse a chunk = consumeDockerFrames parse (a\<lparr>at_frames := at_frames a @ chunk\<rparr>)"

section \<open>The handshake\<close>

text \<open>\<open>indexOf\<close>, and \<open>split('\r\n')[0]\<close>.\<close>

fun index_of :: "byte list \<Rightarrow> byte list \<Rightarrow> nat option" where
  "index_of p [] = (if p = [] then Some 0 else None)"
| "index_of p (b # bs) = (if take (length p) (b # bs) = p then Some 0 else map_option Suc (index_of p bs))"

definition CRLF :: string where "CRLF = [CHR 0x0D, CHR 0x0A]"

definition first_line :: "string \<Rightarrow> string" where
  "first_line s = (case index_of (bytes_of CRLF) (bytes_of s) of Some i \<Rightarrow> take i s | None \<Rightarrow> s)"

text \<open>\<open>/^HTTP\/1\.[01] (101|200)\b/\<close>: a word character must not follow the status.\<close>

definition word_char :: "char \<Rightarrow> bool" where
  "word_char c \<longleftrightarrow> c = CHR ''_'' \<or> (let n = (of_char c :: nat) in 48 \<le> n \<and> n \<le> 57 \<or> 65 \<le> n \<and> n \<le> 90 \<or> 97 \<le> n \<and> n \<le> 122)"

definition upgrade_accepted :: "string \<Rightarrow> bool" where
  "upgrade_accepted header \<longleftrightarrow>
     list_ex (\<lambda>p. starts_with p header) [''HTTP/1.0 101'', ''HTTP/1.0 200'', ''HTTP/1.1 101'', ''HTTP/1.1 200''] \<and>
     (case drop 12 header of [] \<Rightarrow> True | c # _ \<Rightarrow> \<not> word_char c)"

definition onData :: "(byte list \<Rightarrow> 'p res) \<Rightarrow> 'p attachment \<Rightarrow> byte list \<Rightarrow> 'p attachment" where
  "onData parse a chunk =
     (if at_connected a then consume_chunk parse a chunk
      else
        (let handshake = at_handshake a @ chunk; a = a\<lparr>at_handshake := handshake\<rparr> in
         case index_of (bytes_of (CRLF @ CRLF)) handshake of
           None \<Rightarrow> a
         | Some boundary \<Rightarrow>
             (let header = string_of (take boundary handshake) in
              if \<not> upgrade_accepted header
              then attachment_fail (PlainError (''Docker attach failed: '' @ first_line header)) a
              else
                (let remainder = drop (boundary + 4) handshake;
                     a = settle_ready (Inr ()) (a\<lparr>at_handshake := [], at_connected := True\<rparr>)
                 in if remainder \<noteq> [] then consume_chunk parse a remainder else a))))"

section \<open>Events and requests\<close>

definition attach_request :: "string \<Rightarrow> string" where
  "attach_request containerId =
     ''POST /v1.47/containers/'' @ containerId @ ''/attach?stream=1&stdin=1&stdout=1&stderr=1 HTTP/1.1'' @ CRLF @
     ''Host: localhost'' @ CRLF @ ''Connection: Upgrade'' @ CRLF @ ''Upgrade: tcp'' @ CRLF @ ''Content-Length: 0'' @ CRLF @ CRLF"

text \<open>What the socket does; the answers are how much of a write it takes.\<close>

datatype socket_event =
    Ev_open
  | Ev_data "byte list"
  | Ev_drain "int list"
  | Ev_error js_error
  | Ev_close

text \<open>The bytes an event writes to the socket, and the state after it.\<close>

fun socket_step :: "(byte list \<Rightarrow> 'p res) \<Rightarrow> string \<Rightarrow> socket_event \<Rightarrow> 'p attachment \<Rightarrow> byte list \<times> 'p attachment" where
  "socket_step parse containerId Ev_open a =
     (bytes_of (attach_request containerId), a\<lparr>at_writer := attach (at_writer a)\<rparr>)"
| "socket_step parse containerId (Ev_data chunk) a = ([], onData parse a chunk)"
| "socket_step parse containerId (Ev_drain answers) a =
     (let (taken, w) = drain answers (at_writer a) in (taken, a\<lparr>at_writer := w\<rparr>))"
| "socket_step parse containerId (Ev_error e) a = ([], attachment_fail e a)"
| "socket_step parse containerId Ev_close a = ([], attachment_fail (PlainError ''Docker agent attach stream closed'') a)"

datatype sent = Waiting | Rejected js_error | Sent "byte list"

text \<open>\<open>request\<close> waits for the handshake, then gives the message to the channel.\<close>

definition attachment_request :: "('q \<Rightarrow> byte list) \<Rightarrow> int list \<Rightarrow> nat \<Rightarrow> 'q \<Rightarrow> 'p attachment \<Rightarrow> sent \<times> 'p attachment" where
  "attachment_request stringify answers i message a =
     (case at_ready a of
        None \<Rightarrow> (Waiting, a)
      | Some (Inl e) \<Rightarrow> (Rejected e, a)
      | Some (Inr _) \<Rightarrow>
         (case (at_closed a, at_channel a) of
            (False, Some ch) \<Rightarrow>
              (let writeFrame = (\<lambda>f. write_frame answers f (at_writer a));
                   ch' = Frames.request stringify (\<lambda>f. bind_res (writeFrame f) (\<lambda>_. Inr ())) i message ch;
                   (taken, w) = (if ch_closed ch then ([], at_writer a)
                     else case bind_res (encodeAgentFrame stringify message) writeFrame of
                       Inr tw \<Rightarrow> tw
                     | Inl _ \<Rightarrow> ([], at_writer a))
               in (Sent taken, a\<lparr>at_channel := Some ch', at_writer := w\<rparr>))
          | _ \<Rightarrow> (Rejected (service_err BACKEND_ERROR ''Guest agent transport is closed''), a)))"

text \<open>After the socket is connected the channel is made; then \<open>connect\<close> waits for the handshake
  and probes the agent with an execution that does not exist.\<close>

definition make_channel :: "'p attachment \<Rightarrow> 'p attachment" where
  "make_channel a = a\<lparr>at_channel := Some new_channel\<rparr>"

definition probe_id :: string where "probe_id = ''00000000-0000-0000-0000-000000000000''"

definition probe_accepted :: "agent_response \<Rightarrow> unit res" where
  "probe_accepted probe =
     (if ar_ok probe \<or> ar_error probe \<noteq> Some ''execution unavailable''
      then Inl (service_err BACKEND_ERROR
        (case ar_error probe of Some m \<Rightarrow> m | None \<Rightarrow> ''Guest agent readiness probe failed''))
      else Inr ())"

definition connect_ready :: "(agent_request \<Rightarrow> ('w, agent_response) io) \<Rightarrow> unit res \<Rightarrow> ('w, unit) io" where
  "connect_ready send ready =
     io_bind (io_res ready) (\<lambda>_.
     io_bind (send (A_Poll probe_id)) (\<lambda>probe. io_res (probe_accepted probe)))"

section \<open>The cuts of the stream do not matter\<close>

definition steady :: "'p attachment \<Rightarrow> bool" where
  "steady a \<longleftrightarrow> (\<not> at_connected a \<longrightarrow> at_frames a = [])"

lemma consume_append:
  "consumeDockerFrames parse (a\<lparr>at_frames := at_frames a @ ys\<rparr>) =
     consume_chunk parse (consumeDockerFrames parse a) ys"
proof (induction parse a rule: consumeDockerFrames.induct)
  case (1 parse a)
  let ?n = "be_nat (take 4 (drop 4 (at_frames a)))"
  show ?case
  proof (cases "length (at_frames a) < 8 \<or> length (at_frames a) < ?n + 8")
    case True
    then have "consumeDockerFrames parse a = a" by (subst consumeDockerFrames.simps) (auto simp: Let_def)
    then show ?thesis by (simp add: consume_chunk_def)
  next
    case False
    let ?b = "a\<lparr>at_frames := drop (?n + 8) (at_frames a)\<rparr>"
    let ?c = "if hd (at_frames a) = 1
      then ?b\<lparr>at_channel := map_option (\<lambda>ch. push parse ch (take ?n (drop 8 (at_frames a)))) (at_channel a)\<rparr> else ?b"
    have l: "consumeDockerFrames parse a = consumeDockerFrames parse ?c"
      using False by (subst consumeDockerFrames.simps) (simp add: Let_def)
    have "at_frames a \<noteq> []" using False by auto
    then have "consumeDockerFrames parse (a\<lparr>at_frames := at_frames a @ ys\<rparr>) =
        consumeDockerFrames parse (?c\<lparr>at_frames := at_frames ?c @ ys\<rparr>)"
      using False by (subst consumeDockerFrames.simps) (cases a, simp add: Let_def)
    also have "\<dots> = consume_chunk parse (consumeDockerFrames parse ?c) ys"
      using "1" [OF refl _ refl refl _ refl refl] False by (cases "hd (at_frames a) = 1") simp_all
    finally show ?thesis unfolding l .
  qed
qed

lemma consume_chunk_append: "consume_chunk parse (consume_chunk parse a xs) ys = consume_chunk parse a (xs @ ys)"
  unfolding consume_chunk_def
  using consume_append [of parse "a\<lparr>at_frames := at_frames a @ xs\<rparr>" ys] by (simp add: consume_chunk_def)

lemma consume_connected [simp]: "at_connected (consumeDockerFrames parse a) = at_connected a"
  by (induction parse a rule: consumeDockerFrames.induct) (subst consumeDockerFrames.simps, simp add: Let_def)

lemma consume_chunk_connected [simp]: "at_connected (consume_chunk parse a chunk) = at_connected a"
  by (simp add: consume_chunk_def)

lemma index_of_append: "index_of p bs = Some i \<Longrightarrow> index_of p (bs @ ys) = Some i \<and> i + length p \<le> length bs"
proof (induction bs arbitrary: i)
  case Nil
  then show ?case by (cases ys) (simp_all split: if_splits)
next
  case (Cons b bs)
  show ?case
  proof (cases "take (length p) (b # bs) = p")
    case True
    then have "length p \<le> length (b # bs)" by (metis length_take min.cobounded1 nat_le_linear min_def)
    then have "take (length p) ((b # bs) @ ys) = p" using True by (simp only: take_append) simp
    then show ?thesis using True Cons(2) \<open>length p \<le> length (b # bs)\<close> by simp
  next
    case False
    then obtain j where j: "index_of p bs = Some j" "i = Suc j" using Cons(2) by auto
    note IH = Cons(1) [OF j(1)]
    have "length p \<le> length (b # bs)" using IH by simp
    then have "take (length p) (b # bs @ ys) \<noteq> p" using False by (cases p) auto
    then show ?thesis using IH j False by simp
  qed
qed

lemma attachment_fail_simps [simp]:
  "at_connected (attachment_fail e a) = at_connected a" "at_handshake (attachment_fail e a) = at_handshake a"
  "at_frames (attachment_fail e a) = at_frames a" "at_closed (attachment_fail e a)"
  by (simp_all add: attachment_fail_def settle_ready_def Let_def)

lemma attachment_fail_again: "at_closed a \<Longrightarrow> attachment_fail e a = a" by (simp add: attachment_fail_def)

lemma attachment_fail_handshake:
  "(attachment_fail e a)\<lparr>at_handshake := h\<rparr> = attachment_fail e (a\<lparr>at_handshake := h\<rparr>)"
  by (simp add: attachment_fail_def settle_ready_def Let_def)

lemma settle_ready_simps [simp]:
  "at_connected (settle_ready r a) = at_connected a" "at_frames (settle_ready r a) = at_frames a"
  "at_channel (settle_ready r a) = at_channel a" "at_handshake (settle_ready r a) = at_handshake a"
  by (simp_all add: settle_ready_def)

lemma consume_nothing: "at_frames a = [] \<Longrightarrow> consume_chunk parse a [] = a"
  by (simp add: consume_chunk_def consumeDockerFrames.simps)

lemma onData_append:
  assumes "steady a"
  shows "onData parse (onData parse a xs) ys = onData parse a (xs @ ys)"
proof (cases "at_connected a")
  case True
  then show ?thesis by (simp add: onData_def consume_chunk_append)
next
  case False
  let ?h = "at_handshake a @ xs" and ?i = "index_of (bytes_of (CRLF @ CRLF))"
  have len: "length (bytes_of (CRLF @ CRLF)) = 4" by (simp add: CRLF_def)
  show ?thesis
  proof (cases "?i ?h")
    case None
    then show ?thesis using False by (simp add: onData_def Let_def)
  next
    case (Some i)
    then have i: "?i (?h @ ys) = Some i" "i + 4 \<le> length ?h" "take i (?h @ ys) = take i ?h"
        "drop (i + 4) (?h @ ys) = drop (i + 4) ?h @ ys"
      using index_of_append [OF Some, of ys] unfolding len by auto
    show ?thesis
    proof (cases "upgrade_accepted (string_of (take i ?h))")
      case no: False
      have "onData parse a xs = attachment_fail (PlainError (''Docker attach failed: '' @ first_line (string_of (take i ?h))))
          (a\<lparr>at_handshake := ?h\<rparr>)"
        using False Some no by (simp add: onData_def Let_def)
      then show ?thesis using False i no
        by (simp add: onData_def Let_def attachment_fail_handshake attachment_fail_again)
    next
      case yes: True
      let ?a = "settle_ready (Inr ()) (a\<lparr>at_handshake := [], at_connected := True\<rparr>)"
      have one: "onData parse a zs = consume_chunk parse ?a (drop (i + 4) (at_handshake a @ zs))"
        if "?i (at_handshake a @ zs) = Some i" "take i (at_handshake a @ zs) = take i ?h" for zs
        using that False yes assms consume_nothing [of ?a] by (auto simp: onData_def Let_def steady_def)
      have "onData parse (onData parse a xs) ys = consume_chunk parse (onData parse a xs) ys"
        using one [of xs] Some by (simp add: onData_def [of _ "consume_chunk _ _ _"])
      also have "\<dots> = onData parse a (xs @ ys)"
        using one [of xs] one [of "xs @ ys"] Some i by (simp add: consume_chunk_append)
      finally show ?thesis .
    qed
  qed
qed

lemma onData_steady: "steady a \<Longrightarrow> steady (onData parse a xs)"
  by (auto simp: steady_def onData_def Let_def split: option.splits)

interpretation attach_stream: chunk_consumer "onData parse" steady for parse
  by unfold_locales (simp_all add: onData_append onData_steady)

section \<open>The payloads of the output stream reach the channel\<close>

definition docker_frame :: "byte \<times> byte list \<Rightarrow> byte list" where
  "docker_frame f = [fst f, 0, 0, 0] @ be_bytes 4 (length (snd f)) @ snd f"

definition stdout_of :: "(byte \<times> byte list) list \<Rightarrow> byte list list" where
  "stdout_of fs = map snd (filter (\<lambda>f. fst f = 1) fs)"

lemma drop_header: "length h = 8 \<Longrightarrow> drop (length p + 8) (h @ p @ r) = r"
  by simp

lemma consume_frames:
  assumes "at_frames a = concat (map docker_frame fs)" "\<And>f. f \<in> set fs \<Longrightarrow> length (snd f) < 2 ^ 32"
  shows "consumeDockerFrames parse a =
    a\<lparr>at_frames := [], at_channel := map_option (\<lambda>ch. foldl (push parse) ch (stdout_of fs)) (at_channel a)\<rparr>"
  using assms
proof (induction fs arbitrary: a)
  case Nil
  then show ?case by (cases a) (simp add: consumeDockerFrames.simps stdout_of_def option.map_ident)
next
  case (Cons f fs)
  obtain s p where f: "f = (s, p)" by force
  have n: "be_nat (be_bytes 4 (length p)) = length p" using Cons(3) [of f] by (intro be_nat_u32) (simp add: f)
  have buf: "at_frames a = [s, 0, 0, 0] @ be_bytes 4 (length p) @ p @ concat (map docker_frame fs)"
    using Cons(2) by (simp add: f docker_frame_def [of "(s, p)"])
  have rest: "drop (length p + 8) (at_frames a) = concat (map docker_frame fs)"
    using drop_header [of "[s, 0, 0, 0] @ be_bytes 4 (length p)"] by (simp only: buf append_assoc) simp
  let ?b = "a\<lparr>at_frames := concat (map docker_frame fs)\<rparr>"
  have "consumeDockerFrames parse a = consumeDockerFrames parse
      (if s = 1 then ?b\<lparr>at_channel := map_option (\<lambda>ch. push parse ch p) (at_channel a)\<rparr> else ?b)"
    using rest by (subst consumeDockerFrames.simps) (simp add: buf Let_def n)
  also have "\<dots> = a\<lparr>at_frames := [], at_channel := map_option (\<lambda>ch. foldl (push parse) ch (stdout_of (f # fs))) (at_channel a)\<rparr>"
    using Cons(3) by (subst Cons(1)) (auto simp: f stdout_of_def option.map_comp comp_def)
  finally show ?case .
qed

lemma feed_settle: "feed_channel parse (settle ch) c = feed_channel parse ch c"
  by (simp add: feed_channel_def settle_def push_def)

lemma settle_pushes: "settle (foldl (push parse) ch ps) = foldl (feed_channel parse) (settle ch) ps"
proof (induction ps arbitrary: ch)
  case (Cons p ps)
  have "settle (push parse ch p) = feed_channel parse (settle ch) p"
    by (simp add: feed_settle) (simp add: feed_channel_def)
  then show ?case using Cons by simp
qed simp

lemma pushes_answer:
  assumes ch: "\<not> ch_closed ch" "ch_buffer ch = []"
    and ps: "concat ps = concat (map frame_of rs)" "\<And>r. r \<in> set rs \<Longrightarrow> length r \<le> max_frame" "length rs \<le> length (ch_pending ch)"
  shows "foldl (push parse) ch ps = ch\<lparr>ch_pending := drop (length rs) (ch_pending ch),
    ch_settled := ch_settled ch @ zip (ch_pending ch) (map parse rs)\<rparr>"
proof -
  let ?last = "ch\<lparr>ch_pending := drop (length rs) (ch_pending ch), ch_settled := ch_settled ch @ zip (ch_pending ch) (map parse rs)\<rparr>"
  have "foldl (feed_channel parse) (settle ch) ps = foldl (feed_channel parse) (feed_channel parse (settle ch) []) ps"
    using ch by (cases ch) (simp add: feed_channel_def settle_def push_def push_loop.simps)
  also have "\<dots> = feed_channel parse (settle ch) (concat (map frame_of rs))"
    by (subst frames.feed_chunks) (simp_all add: ps(1))
  also have "\<dots> = settle (push_loop parse (ch\<lparr>ch_buffer := concat (map frame_of rs)\<rparr>))"
    using ch by (simp add: feed_channel_def settle_def push_def)
  also have "push_loop parse (ch\<lparr>ch_buffer := concat (map frame_of rs)\<rparr>) = ?last"
    using ch ps by (subst push_loop_frames [where ps = rs]) (cases ch, simp_all)
  also have "settle ?last = ?last" using ch by (simp add: settle_def)
  finally have e: "settle (foldl (push parse) ch ps) = ?last" by (simp add: settle_pushes)
  have "ch_closed (settle c) = ch_closed c" for c :: "'a channel" by (simp add: settle_def)
  then have "\<not> ch_closed (foldl (push parse) ch ps)" using arg_cong [OF e, of ch_closed] ch by simp
  with e show ?thesis by (simp add: settle_def)
qed

lemma onData_frames:
  assumes a: "if at_connected a then hello = [] else at_handshake a = [] \<and>
      (\<exists>h. hello = h @ bytes_of (CRLF @ CRLF) \<and> index_of (bytes_of (CRLF @ CRLF)) hello = Some (length h) \<and> upgrade_accepted (string_of h))"
    and "at_frames a = []" "at_channel a = Some ch" "\<not> ch_closed ch" "ch_buffer ch = []"
    and fs: "\<And>f. f \<in> set fs \<Longrightarrow> length (snd f) < 2 ^ 32"
    and rs: "concat (stdout_of fs) = concat (map frame_of rs)" "\<And>r. r \<in> set rs \<Longrightarrow> length r \<le> max_frame"
      "length rs \<le> length (ch_pending ch)"
  shows "onData parse a (hello @ concat (map docker_frame fs)) =
    (if at_connected a then a else settle_ready (Inr ()) (a\<lparr>at_handshake := [], at_connected := True\<rparr>))
      \<lparr>at_channel := Some (ch\<lparr>ch_pending := drop (length rs) (ch_pending ch),
        ch_settled := ch_settled ch @ zip (ch_pending ch) (map parse rs)\<rparr>)\<rparr>"
proof -
  let ?ch = "ch\<lparr>ch_pending := drop (length rs) (ch_pending ch), ch_settled := ch_settled ch @ zip (ch_pending ch) (map parse rs)\<rparr>"
  have frames: "consume_chunk parse b (concat (map docker_frame fs)) = b\<lparr>at_channel := Some ?ch\<rparr>"
    if "at_frames b = []" "at_channel b = Some ch" for b
    using that pushes_answer [OF assms(4,5) rs] fs
    by (cases b) (simp add: consume_chunk_def consume_frames [where fs = fs])
  show ?thesis
  proof (cases "at_connected a")
    case True
    then show ?thesis using a frames [OF assms(2,3)] by (simp add: onData_def)
  next
    case False
    let ?a = "settle_ready (Inr ()) (a\<lparr>at_handshake := [], at_connected := True\<rparr>)"
    obtain h where h: "at_handshake a = []" "hello = h @ bytes_of (CRLF @ CRLF)"
      "index_of (bytes_of (CRLF @ CRLF)) hello = Some (length h)" "upgrade_accepted (string_of h)"
      using a False by auto
    let ?fs = "concat (map docker_frame fs)"
    have cut: "index_of (bytes_of (CRLF @ CRLF)) (hello @ ?fs) = Some (length h)" "take (length h) (hello @ ?fs) = h"
        "drop (length h + 4) (hello @ ?fs) = ?fs"
      using index_of_append [OF h(3), of ?fs] h(2) by (simp_all add: CRLF_def)
    have "onData parse a (hello @ ?fs) = consume_chunk parse ?a ?fs"
      using False h(1,4) cut consume_nothing [of ?a] assms(2)
      by (cases "?fs = []") (simp_all add: onData_def Let_def del: concat_eq_Nil_conv bytes_of_append)
    then show ?thesis using frames [of ?a] assms(2,3) False by simp
  qed
qed

end
