(* ===== verification/Guest.thy ===== *)
theory Guest
  imports Files AgentFiles Sessions
begin

text \<open>
  What the two backends have in common: each runs commands in a guest whose agent it talks to
  over a transport. The state they share is the outside world, the file system and the
  executions; a transport is named by a number. Executions, polls and snapshots are the same code
  in \<open>src/backends/docker.ts\<close> and \<open>src/backends/firecracker.ts\<close>, up to the name of the guest in
  the messages; a computation that may not return has an option as its result.
\<close>

section \<open>State and environment\<close>

record guest_execution =
  de_transport :: nat
  de_startedAt :: int
  de_state :: execution_state
  de_exitCode :: "int option"
  de_finishedAt :: "int option"
  de_output :: string
  de_originalBytes :: nat
  de_outputOmittedBytes :: nat

record 'w guest =
  gs_world :: 'w
  gs_fs :: fs
  gs_executions :: "(string \<times> guest_execution) list"

record 'w guest_env =
  gv_send :: "nat \<Rightarrow> agent_request \<Rightarrow> ('w, agent_response) io"
  gv_clock :: "'w \<Rightarrow> int"
  gv_sleep :: "int \<Rightarrow> 'w \<Rightarrow> 'w"
  gv_uuid :: "'w \<Rightarrow> string \<times> 'w"
  gv_io :: "fs_op \<Rightarrow> unit res"
  gv_sha :: "string \<Rightarrow> string"

fun agent_name :: "backend \<Rightarrow> string" where
  "agent_name Docker = ''Guest agent''"
| "agent_name Firecracker = ''Firecracker guest''"

fun snapshot_name :: "backend \<Rightarrow> string" where
  "snapshot_name Docker = ''Guest''"
| "snapshot_name Firecracker = ''Firecracker guest''"

text \<open>What an instance is created from, and what a failed preflight reports.\<close>

record create_input =
  ci_instanceId :: string
  ci_workspacePath :: string
  ci_resourceProfile :: resource_profile
  ci_network :: network_profile

definition int_str :: "int \<Rightarrow> string" where
  "int_str n = (if n < 0 then CHR ''-'' # nat_str (nat (- n)) else nat_str (nat n))"

definition unavailable_probe :: "string \<Rightarrow> host_probe" where
  "unavailable_probe reason = \<lparr>hp_available = False, hp_reason = Some reason\<rparr>"

fun error_text :: "js_error \<Rightarrow> string" where
  "error_text (ServiceError c m d) = m"
| "error_text (PlainError m) = m"

text \<open>A computation in the outside world, on the file system, and a clean-up that always runs:
  what it throws replaces what was thrown before.\<close>

definition outside_io :: "('w, 'a) io \<Rightarrow> (('w, 'x) guest_scheme, 'a) io" where
  "outside_io m s = (case m (gs_world s) of (r, w) \<Rightarrow> (r, s\<lparr>gs_world := w\<rparr>))"

definition file_io :: "('w, 'e) guest_env_scheme \<Rightarrow> fs_op \<Rightarrow> (('w, 'x) guest_scheme, unit) io" where
  "file_io env op s = (case fs_run (gv_io env) op (gs_fs s) of
     Inl e \<Rightarrow> (Inl e, s) | Inr f \<Rightarrow> (Inr (), s\<lparr>gs_fs := f\<rparr>))"

definition io_finally :: "('s, 'a) io \<Rightarrow> ('s, unit) io \<Rightarrow> ('s, 'a) io" where
  "io_finally m cleanup s = (case m s of (r, s1) \<Rightarrow>
     (case cleanup s1 of (Inl e, s2) \<Rightarrow> (Inl e, s2) | (Inr _, s2) \<Rightarrow> (r, s2)))"

definition new_uuid :: "('w, 'e) guest_env_scheme \<Rightarrow> (('w, 'x) guest_scheme, string) io" where
  "new_uuid env s = (case gv_uuid env (gs_world s) of (u, w) \<Rightarrow> (Inr u, s\<lparr>gs_world := w\<rparr>))"

definition now_io :: "('w, 'e) guest_env_scheme \<Rightarrow> (('w, 'x) guest_scheme, int) io" where
  "now_io env s = (Inr (gv_clock env (gs_world s)), s)"

definition send_io :: "('w, 'e) guest_env_scheme \<Rightarrow> nat \<Rightarrow> agent_request \<Rightarrow> (('w, 'x) guest_scheme, agent_response) io" where
  "send_io env t q = outside_io (gv_send env t q)"

text \<open>\<open>if (!response.ok) throw\<close>.\<close>

definition backend_error :: "string option \<Rightarrow> string \<Rightarrow> js_error" where
  "backend_error message fallback = service_err BACKEND_ERROR (case message of Some m \<Rightarrow> m | None \<Rightarrow> fallback)"

definition accepted :: "string \<Rightarrow> agent_response \<Rightarrow> ('s, unit) io" where
  "accepted fallback r = io_require (ar_ok r) (backend_error (ar_error r) fallback)"

section \<open>Computations that may not return\<close>

type_synonym ('s, 'a) run = "'s \<Rightarrow> ('a res \<times> 's) option"

definition returns :: "('s, 'a) io \<Rightarrow> ('s, 'a) run" where
  "returns m s = Some (m s)"

definition run_bind :: "('s, 'a) run \<Rightarrow> ('a \<Rightarrow> ('s, 'b) run) \<Rightarrow> ('s, 'b) run" where
  "run_bind m f s = (case m s of None \<Rightarrow> None
     | Some (Inl e, s) \<Rightarrow> Some (Inl e, s) | Some (Inr x, s) \<Rightarrow> f x s)"

definition run_finally :: "('s, 'a) run \<Rightarrow> ('s, unit) io \<Rightarrow> ('s, 'a) run" where
  "run_finally m cleanup s = (case m s of None \<Rightarrow> None | Some (r, s) \<Rightarrow> Some (io_finally (\<lambda>s. (r, s)) cleanup s))"

text \<open>\<open>catch (error) { ...; throw error; }\<close>.\<close>

definition run_on_error :: "('s, 'a) run \<Rightarrow> ('s, unit) io \<Rightarrow> ('s, 'a) run" where
  "run_on_error m handler s = (case m s of None \<Rightarrow> None
     | Some (Inl e, s) \<Rightarrow> Some (io_bind handler (\<lambda>_. io_throw e) s) | Some (Inr x, s) \<Rightarrow> Some (Inr x, s))"

definition pause :: "('w, 'e) guest_env_scheme \<Rightarrow> int \<Rightarrow> ('w, 'x) guest_scheme \<Rightarrow> ('w, 'x) guest_scheme" where
  "pause env ms s = s\<lparr>gs_world := gv_sleep env ms (gs_world s)\<rparr>"

section \<open>Executions\<close>

text \<open>\<open>Map.set\<close>: a key keeps its place.\<close>

fun put_assoc :: "'k \<Rightarrow> 'v \<Rightarrow> ('k \<times> 'v) list \<Rightarrow> ('k \<times> 'v) list" where
  "put_assoc k v [] = [(k, v)]"
| "put_assoc k v ((j, u) # m) = (if j = k then (k, v) # m else (j, u) # put_assoc k v m)"

definition set_execution :: "string \<Rightarrow> guest_execution \<Rightarrow> ('w, 'x) guest_scheme \<Rightarrow> ('w, 'x) guest_scheme" where
  "set_execution x d s = s\<lparr>gs_executions := put_assoc x d (gs_executions s)\<rparr>"

definition guest_exec :: "backend \<Rightarrow> ('w, 'e) guest_env_scheme \<Rightarrow> nat \<Rightarrow> backend_handle \<Rightarrow> exec_input \<Rightarrow> (string \<times> string) list \<Rightarrow> (('w, 'x) guest_scheme, execution_handle) io" where
  "guest_exec b env t h i variables =
     io_bind (send_io env t (A_Exec \<lparr>ae_executionId = xi_executionId i, ae_command = xi_command i, ae_cwd = xi_cwd i,
       ae_env = variables, ae_tty = xi_tty i, ae_timeoutMs = xi_timeoutMs i\<rparr>)) (\<lambda>r.
     io_bind (accepted (agent_name b @ '' rejected execution'') r) (\<lambda>_.
     io_bind (now_io env) (\<lambda>now s.
       (Inr \<lparr>xh_backend = b, xh_instanceId = h_instanceId h, xh_executionId = xi_executionId i,
             xh_opaqueId = xi_executionId i, xh_tty = xi_tty i\<rparr>,
        set_execution (xi_executionId i) \<lparr>de_transport = t, de_startedAt = now, de_state = X_RUNNING, de_exitCode = None,
          de_finishedAt = None, de_output = [], de_originalBytes = 0, de_outputOmittedBytes = 0\<rparr> s))))"

text \<open>What a poll says, and the record after it.\<close>

definition poll_checked :: "backend \<Rightarrow> agent_response res \<Rightarrow> agent_response res" where
  "poll_checked b polled = bind_res polled (\<lambda>r.
     if ar_errorCode r = Some AE_STORAGE_EXHAUSTED
     then Inl (service_err STORAGE_EXHAUSTED (case ar_error r of Some m \<Rightarrow> m | None \<Rightarrow> ''Workspace disk is full''))
     else if \<not> ar_ok r then Inl (backend_error (ar_error r) (agent_name b @ '' poll failed''))
     else Inr r)"

definition polled_record :: "agent_response \<Rightarrow> guest_execution \<Rightarrow> guest_execution" where
  "polled_record r d =
     (let output = (case ar_output r of Some o' \<Rightarrow> o' | None \<Rightarrow> []);
          original = (case ar_originalBytes r of Some n \<Rightarrow> n | None \<Rightarrow> length output) in
      d\<lparr>de_state := (case ar_state r of Some st \<Rightarrow> st | None \<Rightarrow> X_LOST), de_output := output, de_originalBytes := original,
        de_outputOmittedBytes := (case ar_outputOmittedBytes r of Some n \<Rightarrow> n | None \<Rightarrow> original - length output),
        de_exitCode := (case ar_exitCode r of Some c \<Rightarrow> Some c | None \<Rightarrow> de_exitCode d)\<rparr>)"

text \<open>The record is an object that the map shares; \<open>d\<close> is its content.\<close>

partial_function (option) poll_wait :: "backend \<Rightarrow> ('w, 'e) guest_env_scheme \<Rightarrow> string \<Rightarrow> int \<Rightarrow> guest_execution \<Rightarrow> (('w, 'x) guest_scheme, guest_execution) run" where
  "poll_wait b env x deadline d s =
     (let polled = send_io env (de_transport d) (A_Poll x) s; checked = poll_checked b (fst polled); s = snd polled in
      if isl checked then Some (Inl (projl checked), s)
      else let d = polled_record (projr checked) d; s = set_execution x d s; now = gv_clock env (gs_world s) in
        if de_state d \<noteq> X_RUNNING
        then let d = d\<lparr>de_finishedAt := Some now\<rparr> in Some (Inr d, set_execution x d s)
        else if now \<ge> deadline then Some (Inr d, s)
        else poll_wait b env x deadline d (pause env (min 25 (max 0 (deadline - now))) s))"

definition execution_view :: "guest_execution \<Rightarrow> execution_result" where
  "execution_view d = \<lparr>xr_state = de_state d, xr_exitCode = de_exitCode d, xr_output = de_output d,
     xr_startedAt = de_startedAt d, xr_finishedAt = de_finishedAt d, xr_originalBytes = Some (de_originalBytes d),
     xr_outputOmittedBytes = Some (de_outputOmittedBytes d)\<rparr>"

definition guest_poll :: "backend \<Rightarrow> ('w, 'e) guest_env_scheme \<Rightarrow> execution_handle \<Rightarrow> int \<Rightarrow> (('w, 'x) guest_scheme, execution_result) run" where
  "guest_poll b env h yieldTimeMs s =
     (case map_of (gs_executions s) (xh_executionId h) of
        None \<Rightarrow> Some (Inl (service_err NOT_FOUND ''Execution is unavailable''), s)
      | Some d \<Rightarrow> run_bind (poll_wait b env (xh_executionId h) (gv_clock env (gs_world s) + yieldTimeMs) d)
          (\<lambda>d. returns (io_return (execution_view d))) s)"

definition guest_write :: "backend \<Rightarrow> ('w, 'e) guest_env_scheme \<Rightarrow> execution_handle \<Rightarrow> string \<Rightarrow> (('w, 'x) guest_scheme, unit) io" where
  "guest_write b env h chars s =
     (case map_of (gs_executions s) (xh_executionId h) of
        None \<Rightarrow> (Inl (service_err NOT_FOUND ''Execution is unavailable''), s)
      | Some d \<Rightarrow> io_bind (send_io env (de_transport d) (A_Write (xh_executionId h) chars))
          (accepted (agent_name b @ '' write failed'')) s)"

definition guest_kill :: "backend \<Rightarrow> ('w, 'e) guest_env_scheme \<Rightarrow> execution_handle \<Rightarrow> (('w, 'x) guest_scheme, unit) io" where
  "guest_kill b env h s =
     (case map_of (gs_executions s) (xh_executionId h) of
        None \<Rightarrow> (Inr (), s)
      | Some d \<Rightarrow>
          if de_state d \<noteq> X_RUNNING then (Inr (), s)
          else io_bind (send_io env (de_transport d) (A_Kill (xh_executionId h) 1000)) (\<lambda>r.
            io_bind (accepted (agent_name b @ '' kill failed'') r) (\<lambda>_.
            io_bind (now_io env) (\<lambda>now s.
              (Inr (), set_execution (xh_executionId h) (d\<lparr>de_state := X_CANCELED, de_finishedAt := Some now\<rparr>) s)))) s)"

section \<open>Snapshots\<close>

definition SNAPSHOT_BYTES :: nat where "SNAPSHOT_BYTES = 1024 * 1024 * 1024"

definition SNAPSHOT_CHUNK :: nat where "SNAPSHOT_CHUNK = 384 * 1024"

definition snapshot_refused :: "backend \<Rightarrow> agent_response \<Rightarrow> js_error" where
  "snapshot_refused b begun = service_err
     (case ar_errorCode begun of Some AE_SNAPSHOT_LIMIT \<Rightarrow> SNAPSHOT_LIMIT
      | Some AE_SNAPSHOT_UNSUPPORTED_ENTRY \<Rightarrow> SNAPSHOT_UNSUPPORTED_ENTRY | _ \<Rightarrow> BACKEND_ERROR)
     (case ar_error begun of Some m \<Rightarrow> m | None \<Rightarrow> (agent_name b @ '' snapshot begin failed''))"

text \<open>The size and the digest the guest announces, when they are acceptable.\<close>

definition begun_snapshot :: "backend \<Rightarrow> agent_response \<Rightarrow> (nat \<times> digest) res" where
  "begun_snapshot b begun =
     (case (ar_ok begun, ar_size begun, truthy (ar_digest begun)) of
        (True, Some (Num n), Some d) \<Rightarrow>
          if 0 \<le> n \<and> n \<le> int SNAPSHOT_BYTES \<and> is_digest d then Inr (nat n, d)
          else Inl (snapshot_refused b begun)
      | _ \<Rightarrow> Inl (snapshot_refused b begun))"

definition snapshot_chunk :: "backend \<Rightarrow> nat \<Rightarrow> nat \<Rightarrow> agent_response \<Rightarrow> byte list res" where
  "snapshot_chunk b whole offset r =
     (case ar_data r of
        Some text \<Rightarrow>
          if \<not> ar_ok r \<or> ar_size r \<noteq> Some (Num (int whole))
          then Inl (backend_error (ar_error r) (agent_name b @ '' snapshot read failed''))
          else let chunk = from_base64 text in
            if chunk = [] \<or> length chunk > SNAPSHOT_CHUNK \<or> offset + length chunk > whole
            then Inl (service_err BACKEND_ERROR (agent_name b @ '' returned an invalid snapshot chunk'')) else Inr chunk
      | None \<Rightarrow> Inl (backend_error (ar_error r) (agent_name b @ '' snapshot read failed'')))"

text \<open>One round of the loop: the chunk it wrote, and whether it was the last.\<close>

definition snapshot_step :: "backend \<Rightarrow> ('w, 'e) guest_env_scheme \<Rightarrow> nat \<Rightarrow> string \<Rightarrow> string \<Rightarrow> nat \<Rightarrow> nat \<Rightarrow> (('w, 'x) guest_scheme, byte list \<times> bool) io" where
  "snapshot_step b env t snapshotId path whole offset =
     io_bind (send_io env t (A_SnapshotRead snapshotId offset SNAPSHOT_CHUNK)) (\<lambda>r.
     io_bind (io_res (snapshot_chunk b whole offset r)) (\<lambda>chunk.
     io_bind (file_io env (Op_append (path_parts path) chunk)) (\<lambda>_. io_return (chunk, ar_eof r = Some True))))"

lemma snapshot_chunk_Inr:
  "snapshot_chunk b whole offset r = Inr c \<Longrightarrow> c \<noteq> [] \<and> length c \<le> SNAPSHOT_CHUNK \<and> offset + length c \<le> whole"
  by (auto simp: snapshot_chunk_def Let_def split: option.splits if_splits)

lemma snapshot_step_Inr:
  "snapshot_step b env t snapshotId path whole offset s = (Inr (c, eof), s') \<Longrightarrow> c \<noteq> [] \<and> offset + length c \<le> whole"
  by (auto simp: snapshot_step_def io_simps dest: snapshot_chunk_Inr)

text \<open>The bytes hashed so far are \<open>hashed\<close>.\<close>

function snapshot_read :: "backend \<Rightarrow> ('w, 'e) guest_env_scheme \<Rightarrow> nat \<Rightarrow> string \<Rightarrow> string \<Rightarrow> nat \<Rightarrow> byte list \<Rightarrow> nat \<Rightarrow> (('w, 'x) guest_scheme, nat \<times> byte list) io" where
  "snapshot_read b env t snapshotId path whole hashed offset s =
     (if offset < whole
      then case snapshot_step b env t snapshotId path whole offset s of
          (Inl e, s) \<Rightarrow> (Inl e, s)
        | (Inr (chunk, eof), s) \<Rightarrow>
            if eof then (Inr (offset + length chunk, hashed @ chunk), s)
            else snapshot_read b env t snapshotId path whole (hashed @ chunk) (offset + length chunk) s
      else (Inr (offset, hashed), s))"
  by pat_completeness auto
termination
  by (relation "measure (\<lambda>(b, env, t, snapshotId, path, whole, hashed, offset, s). whole - offset)")
    (auto dest!: sym [of _ "snapshot_step _ _ _ _ _ _ _ _"] snapshot_step_Inr simp flip: length_greater_0_conv)

declare snapshot_read.simps [simp del]

definition snapshot_transfer :: "backend \<Rightarrow> ('w, 'e) guest_env_scheme \<Rightarrow> nat \<Rightarrow> backend_handle \<Rightarrow> string \<Rightarrow> string \<Rightarrow> string \<Rightarrow> (('w, 'x) guest_scheme, snapshot_result) io" where
  "snapshot_transfer b env t h snapshotId destination path =
     io_bind (send_io env t (A_SnapshotBegin snapshotId)) (\<lambda>begun.
     io_bind (io_res (begun_snapshot b begun)) (\<lambda>(whole, digest).
     io_bind (file_io env (Op_mkdirp (path_parts destination) 448)) (\<lambda>_.
     io_bind (file_io env (Op_write (path_parts path) [] 256)) (\<lambda>_.
     io_bind (snapshot_read b env t snapshotId path whole [] 0) (\<lambda>(offset, hashed).
     io_bind (io_require (offset = whole \<and> digest_of (gv_sha env) (string_of hashed) = digest)
       (service_err BACKEND_ERROR (snapshot_name b @ '' snapshot size or digest mismatch''))) (\<lambda>_.
       io_return \<lparr>sn_workspacePath = h_workspacePath h, sn_cfsPath = Some path, sn_treeDigest = Some digest\<rparr>))))))"

text \<open>\<open>finally\<close>: the guest's transfer is ended, and an incomplete file is removed.\<close>

definition guest_snapshot :: "backend \<Rightarrow> ('w, 'e) guest_env_scheme \<Rightarrow> nat \<Rightarrow> backend_handle \<Rightarrow> string \<Rightarrow> (('w, 'x) guest_scheme, snapshot_result) io" where
  "guest_snapshot b env t h destination =
     io_bind (new_uuid env) (\<lambda>snapshotId.
     let path = path_join [destination, h_instanceId h @ ''-'' @ snapshotId @ ''.cfs''] in
     (\<lambda>s. case snapshot_transfer b env t h snapshotId destination path s of (r, s) \<Rightarrow>
       io_finally (\<lambda>s. (r, s))
         (io_bind (io_ignore (send_io env t (A_SnapshotEnd snapshotId))) (\<lambda>_.
          if is_ok r then io_return () else file_io env (Op_rm (path_parts path)))) s))"

section \<open>Files and the end\<close>

definition guest_file :: "('w, 'e) guest_env_scheme \<Rightarrow> nat \<Rightarrow> ((agent_request \<Rightarrow> ('w, agent_response) io) \<Rightarrow> ('w, 'a) io)
    \<Rightarrow> (('w, 'x) guest_scheme, 'a) io" where
  "guest_file env t op = outside_io (op (gv_send env t))"

text \<open>The executions that use a transport are killed and forgotten.\<close>

fun end_executions :: "('w, 'e) guest_env_scheme \<Rightarrow> nat option \<Rightarrow> (string \<times> guest_execution) list \<Rightarrow> ('w, 'x) guest_scheme \<Rightarrow> ('w, 'x) guest_scheme" where
  "end_executions env t [] s = s"
| "end_executions env t ((x, d) # xs) s =
     (if Some (de_transport d) \<noteq> t then end_executions env t xs s
      else let s = (if de_state d = X_RUNNING then snd (send_io env (de_transport d) (A_Kill x 1000) s) else s) in
        end_executions env t xs (s\<lparr>gs_executions := filter (\<lambda>(y, _). y \<noteq> x) (gs_executions s)\<rparr>))"

end
