(* ===== verification/Docker.thy ===== *)
theory Docker
  imports Tar DockerStream Guest Config
begin

text \<open>
  The Docker backend (\<open>DockerBackend\<close> in \<open>src/backends/docker.ts\<close>). Its state is the last
  preflight result, the transports of the containers and the executions; a transport is named by
  a number, and requests to its agent, the Docker API, the clock and the random identifiers are
  the fields of \<open>docker_env\<close>. An operation that polls may not return; its result is an option.
\<close>

section \<open>What the container is asked to be\<close>

record container_limits =
  cl_networkDisabled :: bool
  cl_networkMode :: string
  cl_readonlyRootfs :: bool
  cl_privileged :: bool
  cl_capDrop :: "string list"
  cl_securityOpt :: "string list"
  cl_tmpfs :: "(string \<times> string) list"
  cl_memory :: int
  cl_memorySwap :: int
  cl_nanoCpus :: int
  cl_pidsLimit :: int
  cl_nofile :: int
  cl_autoRemove :: bool
  cl_publishAllPorts :: bool
  cl_pidMode :: string
  cl_ipcMode :: string
  cl_utsMode :: string

record container_request =
  cr_image :: string
  cr_entrypoint :: "string list"
  cr_cmd :: "string list"
  cr_user :: string
  cr_workingDir :: string
  cr_openStdin :: bool
  cr_stdinOnce :: bool
  cr_attach :: "bool \<times> bool \<times> bool"
  cr_label :: string
  cr_limits :: container_limits

definition agent_path :: string where "agent_path = ''/usr/local/bin/electrosphere-agent''"

definition buildDockerCreateRequest :: "string \<Rightarrow> create_input \<Rightarrow> container_request" where
  "buildDockerCreateRequest img i =
     (let profile = ci_resourceProfile i in
      \<lparr>cr_image = img, cr_entrypoint = [agent_path], cr_cmd = [], cr_user = ''1000:1000'', cr_workingDir = ''/workspace'',
       cr_openStdin = True, cr_stdinOnce = False, cr_attach = (True, True, True), cr_label = ci_instanceId i,
       cr_limits = \<lparr>cl_networkDisabled = (ci_network i = Net_none),
         cl_networkMode = (if ci_network i = Net_none then ''none'' else ''bridge''),
         cl_readonlyRootfs = True, cl_privileged = False, cl_capDrop = [''ALL''],
         cl_securityOpt = [''no-new-privileges:true''],
         cl_tmpfs = [(''/workspace'', ''rw,nosuid,nodev,size='' @ int_str (diskMiB profile * 1024 * 1024) @
                       '',mode=0770,uid=1000,gid=1000''),
                     (''/tmp'', ''rw,noexec,nosuid,nodev,size=67108864,mode=1777''),
                     (''/run'', ''rw,noexec,nosuid,nodev,size=16777216,mode=755'')],
         cl_memory = memoryMiB profile * 1024 * 1024, cl_memorySwap = memoryMiB profile * 1024 * 1024,
         cl_nanoCpus = vcpus profile * 1000000000, cl_pidsLimit = pidsMax profile, cl_nofile = 1024,
         cl_autoRemove = False, cl_publishAllPorts = False, cl_pidMode = [], cl_ipcMode = ''private'', cl_utsMode = []\<rparr>\<rparr>)"

section \<open>State and environment\<close>

record 'w docker = "'w guest" +
  dk_probe :: host_probe
  dk_transports :: "string \<Rightarrow> nat option"

datatype docker_method = M_get | M_post "container_request option" | M_delete

text \<open>A reply of the Docker API: its status and text, and the JSON fields the backend reads of it,
  when the text parses.\<close>

record docker_reply =
  dr_status :: nat
  dr_text :: string
  dr_entrypoint :: "string list option res"
  dr_id :: "string res"

record 'w docker_env = "'w guest_env" +
  dv_config :: config
  dv_fetch :: "string \<Rightarrow> docker_method \<Rightarrow> ('w, docker_reply) io"
  dv_connect :: "string \<Rightarrow> ('w, nat \<times> unit res) io"
  dv_close :: "nat \<Rightarrow> 'w \<Rightarrow> 'w"
  dv_tree :: "string \<Rightarrow> (string \<times> node) list res"
  dv_lates :: "bool list"

definition new_docker :: "'w \<Rightarrow> fs \<Rightarrow> 'w docker" where
  "new_docker w f = \<lparr>gs_world = w, gs_fs = f, gs_executions = [],
     dk_probe = \<lparr>hp_available = False, hp_reason = Some ''preflight not run''\<rparr>, dk_transports = (\<lambda>_. None)\<rparr>"

section \<open>The Docker API\<close>

definition api_request :: "'w docker_env \<Rightarrow> string \<Rightarrow> docker_method \<Rightarrow> ('w docker, docker_reply) io" where
  "api_request env path m =
     io_bind (outside_io (dv_fetch env (''http://localhost/v1.47'' @ path) m)) (\<lambda>reply.
     if 200 \<le> dr_status reply \<and> dr_status reply < 300 then io_return reply
     else io_throw (service_err BACKEND_ERROR (''Docker API '' @ nat_str (dr_status reply) @ '': '' @ dr_text reply)))"

text \<open>\<open>encodeURIComponent\<close>, on the UTF-8 bytes of a string.\<close>

definition uri_plain :: "char \<Rightarrow> bool" where
  "uri_plain c \<longleftrightarrow> word_char c \<or> c \<in> set ''-.!~*()'' \<or> c = CHR 0x27"

definition uri_encode :: "string \<Rightarrow> string" where
  "uri_encode s = concat (map (\<lambda>c. if uri_plain c then [c]
     else (let n = (of_char c :: nat) in [CHR ''%'', ''0123456789ABCDEF'' ! (n div 16), ''0123456789ABCDEF'' ! (n mod 16)])) s)"

text \<open>\<open>/@sha256:[0-9a-f]{64}$/\<close> or \<open>/^sha256:[0-9a-f]{64}$/\<close>.\<close>

definition immutable_image :: "string \<Rightarrow> bool" where
  "immutable_image img \<longleftrightarrow> is_digest img \<or>
     (length img \<ge> 72 \<and> img ! (length img - 72) = CHR ''@'' \<and> is_digest (drop (length img - 71) img))"

definition preflight_try :: "'w docker_env \<Rightarrow> ('w docker, host_probe) io" where
  "preflight_try env =
     io_bind (api_request env ''/_ping'' M_get) (\<lambda>_.
     case truthy (cf_runtimeImage (dv_config env)) of
       None \<Rightarrow> io_return (unavailable_probe
         ''ELECTROSPHERE_RUNTIME_IMAGE must be an immutable image@sha256 digest or local sha256 image ID'')
     | Some img \<Rightarrow>
         if \<not> immutable_image img then io_return (unavailable_probe
           ''ELECTROSPHERE_RUNTIME_IMAGE must be an immutable image@sha256 digest or local sha256 image ID'')
         else io_bind (api_request env (''/images/'' @ uri_encode img @ ''/json'') M_get) (\<lambda>inspected.
           io_bind (io_res (dr_entrypoint inspected)) (\<lambda>entrypoint.
           if (case entrypoint of Some (p # _) \<Rightarrow> p = agent_path | _ \<Rightarrow> False)
           then io_return \<lparr>hp_available = True, hp_reason = None\<rparr>
           else io_return (unavailable_probe ''Runtime image does not use the Electrosphere agent as PID 1''))))"

definition docker_preflight :: "'w docker_env \<Rightarrow> 'w docker \<Rightarrow> host_probe \<times> 'w docker" where
  "docker_preflight env s = (case preflight_try env s of (r, s) \<Rightarrow>
     let probe = (case r of Inr p \<Rightarrow> p | Inl e \<Rightarrow> unavailable_probe (error_text e)) in (probe, s\<lparr>dk_probe := probe\<rparr>))"

definition ensureAvailable :: "('w docker, unit) io" where
  "ensureAvailable s = io_require (hp_available (dk_probe s))
     (service_err BACKEND_UNAVAILABLE
       (case hp_reason (dk_probe s) of Some m \<Rightarrow> m | None \<Rightarrow> ''Docker backend is unavailable'')) s"

section \<open>Restoring the workspace\<close>

fun write_chunks :: "'w docker_env \<Rightarrow> string \<Rightarrow> byte list list \<Rightarrow> ('w docker, unit) io" where
  "write_chunks env path [] = io_return ()"
| "write_chunks env path (c # cs) =
     io_bind (file_io env (Op_append (path_parts path) c)) (\<lambda>_. write_chunks env path cs)"

text \<open>The archive is streamed into the new file; its size is returned.\<close>

definition write_archive :: "'w docker_env \<Rightarrow> string \<Rightarrow> string \<Rightarrow> ('w docker, nat) io" where
  "write_archive env path workspacePath =
     io_bind (io_res (dv_tree env workspacePath)) (\<lambda>cs.
     let (out, finish) = workspaceTarStream (dv_lates env) cs in
     io_bind (write_chunks env path out) (\<lambda>_.
     io_bind (io_res finish) (\<lambda>_. io_return (length (concat out)))))"

definition open_file :: "string \<Rightarrow> ('w docker, byte list) io" where
  "open_file path s = (case lookup_inode (gs_fs s) (path_parts path) of
     Some n \<Rightarrow> (case i_body n of B_file bs \<Rightarrow> (Inr bs, s) | _ \<Rightarrow> (Inl (PlainError ''EISDIR''), s))
   | None \<Rightarrow> (Inl (PlainError ''ENOENT''), s))"

function restore_send :: "'w docker_env \<Rightarrow> nat \<Rightarrow> string \<Rightarrow> byte list \<Rightarrow> nat \<Rightarrow> nat \<Rightarrow> ('w docker, nat) io" where
  "restore_send env t x source tarBytes offset s =
     (if offset < tarBytes
      then let bytes = take (min (192 * 1024) (tarBytes - offset)) (drop offset source) in
        if bytes = [] then (Inr offset, s)
        else (case io_bind (send_io env t (A_Write x (base64 bytes))) (accepted ''Workspace restore write failed'') s of
            (Inl e, s) \<Rightarrow> (Inl e, s)
          | (Inr _, s) \<Rightarrow> restore_send env t x source tarBytes (offset + length bytes) s)
      else (Inr offset, s))"
  by pat_completeness auto
termination
  by (relation "measure (\<lambda>(env, t, x, source, tarBytes, offset, s). tarBytes - offset)")
    (auto simp flip: length_greater_0_conv)

declare restore_send.simps [simp del]

text \<open>What a poll of the restore command decides, if anything.\<close>

definition restore_verdict :: "agent_response res \<Rightarrow> unit res option" where
  "restore_verdict polled = (case polled of
     Inl e \<Rightarrow> Some (Inl e)
   | Inr r \<Rightarrow>
       if \<not> ar_ok r then Some (Inl (backend_error (ar_error r) ''Workspace restore poll failed''))
       else if ar_state r \<noteq> Some X_RUNNING then
         Some (if ar_state r \<noteq> Some X_COMPLETED \<or> ar_exitCode r \<noteq> Some 0
           then Inl (backend_error (ar_output r) ''Workspace restore failed'') else Inr ())
       else None)"

partial_function (option) restore_wait :: "'w docker_env \<Rightarrow> nat \<Rightarrow> string \<Rightarrow> int \<Rightarrow> ('w docker, unit) run" where
  "restore_wait env t x deadline s =
     (let polled = send_io env t (A_Poll x) s; verdict = restore_verdict (fst polled); s = snd polled in
      if verdict \<noteq> None then Some (the verdict, s)
      else if gv_clock env (gs_world s) \<ge> deadline
      then Some (Inl (service_err BACKEND_ERROR ''Workspace restore timed out''), s)
      else restore_wait env t x deadline (pause env 10 s))"

definition restore_command :: "nat \<Rightarrow> string" where
  "restore_command tarBytes =
     ''head -c '' @ nat_str ((tarBytes + 2) div 3 * 4) @ '' | base64 -d | tar -x -C /workspace''"

definition restore_exec :: "string \<Rightarrow> nat \<Rightarrow> agent_request" where
  "restore_exec x tarBytes = A_Exec \<lparr>ae_executionId = x, ae_command = restore_command tarBytes, ae_cwd = ''/workspace'',
     ae_env = [(''PATH'', ''/usr/local/bin:/usr/bin:/bin'')], ae_tty = True, ae_timeoutMs = 30000\<rparr>"

definition restore_transfer :: "'w docker_env \<Rightarrow> nat \<Rightarrow> string \<Rightarrow> string \<Rightarrow> nat \<Rightarrow> ('w docker, unit) io" where
  "restore_transfer env t x tarPath tarBytes =
     io_bind (send_io env t (restore_exec x tarBytes)) (\<lambda>started.
     io_bind (accepted ''Workspace restore command failed to start'' started) (\<lambda>_.
     io_bind (open_file tarPath) (\<lambda>source.
     io_bind (restore_send env t x source tarBytes 0) (\<lambda>offset.
       io_require (offset = tarBytes) (service_err BACKEND_ERROR ''Workspace restore archive changed while reading'')))))"

definition restoreWorkspace :: "'w docker_env \<Rightarrow> nat \<Rightarrow> string \<Rightarrow> ('w docker, unit) run" where
  "restoreWorkspace env t workspacePath =
     (let staging = path_join [cf_dataDir (dv_config env), ''staging''] in
      run_bind (returns (file_io env (Op_mkdirp (path_parts staging) 448))) (\<lambda>_.
      run_bind (returns (new_uuid env)) (\<lambda>u.
      let tarPath = path_join [staging, u @ ''.tar''] in
      run_bind (returns (file_io env (Op_write (path_parts tarPath) [] 384))) (\<lambda>_.
      run_bind (returns (write_archive env tarPath workspacePath)) (\<lambda>tarBytes.
      run_bind (returns (new_uuid env)) (\<lambda>x.
      run_finally
        (run_bind (returns (restore_transfer env t x tarPath tarBytes)) (\<lambda>_.
         run_bind (returns (now_io env)) (\<lambda>now.
           restore_wait env t x (now + 30000))))
        (file_io env (Op_rm (path_parts tarPath)))))))))"

section \<open>Creating a container\<close>

definition connect_io :: "'w docker_env \<Rightarrow> string \<Rightarrow> ('w docker, nat) io" where
  "connect_io env i =
     io_bind (outside_io (dv_connect env i)) (\<lambda>(t, ready).
     io_bind (outside_io (connect_ready (gv_send env t) ready)) (\<lambda>_. io_return t))"

definition set_transport :: "string \<Rightarrow> nat \<Rightarrow> ('w docker, unit) io" where
  "set_transport i t s = (Inr (), s\<lparr>dk_transports := (dk_transports s)(i := Some t)\<rparr>)"

definition delete_container :: "'w docker_env \<Rightarrow> string \<Rightarrow> ('w docker, unit) io" where
  "delete_container env i = io_ignore (api_request env (''/containers/'' @ i @ ''?force=true&v=true'') M_delete)"

definition create_container :: "'w docker_env \<Rightarrow> create_input \<Rightarrow> ('w docker, string) io" where
  "create_container env i =
     io_bind ensureAvailable (\<lambda>_.
     io_bind (io_require (ci_network i \<noteq> Net_egress)
       (service_err BACKEND_UNAVAILABLE ''Docker egress requires an installed host egress policy'')) (\<lambda>_.
     case truthy (cf_runtimeImage (dv_config env)) of
       None \<Rightarrow> io_throw (service_err BACKEND_UNAVAILABLE ''Runtime image is not configured'')
     | Some img \<Rightarrow>
         io_bind (api_request env (''/containers/create?name=electrosphere-'' @ ci_instanceId i)
           (M_post (Some (buildDockerCreateRequest img i)))) (\<lambda>created. io_res (dr_id created))))"

definition docker_create :: "'w docker_env \<Rightarrow> create_input \<Rightarrow> ('w docker, backend_handle) run" where
  "docker_create env i =
     run_bind (returns (create_container env i)) (\<lambda>c.
     run_on_error
       (run_bind (returns (api_request env (''/containers/'' @ c @ ''/start'') (M_post None))) (\<lambda>_.
        run_bind (returns (connect_io env c)) (\<lambda>t.
        run_bind (restoreWorkspace env t (ci_workspacePath i)) (\<lambda>_.
        run_bind (returns (set_transport c t)) (\<lambda>_.
          returns (io_return \<lparr>h_backend = Domain.Docker, h_instanceId = ci_instanceId i, h_opaqueId = c,
            h_workspacePath = ci_workspacePath i\<rparr>))))))
       (delete_container env c))"

section \<open>Executions\<close>

definition transport_of :: "backend_handle \<Rightarrow> ('w docker, nat) io" where
  "transport_of h s = (case dk_transports s (h_opaqueId h) of
     None \<Rightarrow> (Inl (service_err BACKEND_ERROR ''Guest agent transport is unavailable''), s)
   | Some t \<Rightarrow> (Inr t, s))"

definition docker_exec :: "'w docker_env \<Rightarrow> backend_handle \<Rightarrow> exec_input \<Rightarrow> (string \<times> string) list \<Rightarrow> ('w docker, execution_handle) io" where
  "docker_exec env h i variables = io_bind (transport_of h) (\<lambda>t. guest_exec Domain.Docker env t h i variables)"

definition docker_poll :: "'w docker_env \<Rightarrow> execution_handle \<Rightarrow> int \<Rightarrow> ('w docker, execution_result) run" where
  "docker_poll env = guest_poll Domain.Docker env"

definition docker_write :: "'w docker_env \<Rightarrow> execution_handle \<Rightarrow> string \<Rightarrow> ('w docker, unit) io" where
  "docker_write env = guest_write Domain.Docker env"

definition docker_kill :: "'w docker_env \<Rightarrow> execution_handle \<Rightarrow> ('w docker, unit) io" where
  "docker_kill env = guest_kill Domain.Docker env"

definition docker_snapshot :: "'w docker_env \<Rightarrow> backend_handle \<Rightarrow> string \<Rightarrow> ('w docker, snapshot_result) io" where
  "docker_snapshot env h destination = io_bind (transport_of h) (\<lambda>t. guest_snapshot Domain.Docker env t h destination)"

section \<open>Files\<close>

text \<open>\<open>fileTransport(handle).op(request)\<close>.\<close>

definition fileTransport :: "'w docker_env \<Rightarrow> backend_handle \<Rightarrow> ((agent_request \<Rightarrow> ('w, agent_response) io) \<Rightarrow> ('w, 'a) io)
    \<Rightarrow> ('w docker, 'a) io" where
  "fileTransport env h op s = (case dk_transports s (h_opaqueId h) of
     None \<Rightarrow> (Inl (service_err NOT_FOUND ''Docker turn runtime is unavailable''), s)
   | Some t \<Rightarrow> guest_file env t op s)"

definition docker_fileRead :: "(agent_response \<Rightarrow> nat) \<Rightarrow> 'w docker_env \<Rightarrow> backend_handle \<Rightarrow> file_read_input \<Rightarrow> ('w docker, file_read_result) io" where
  "docker_fileRead jsonSize env h i = fileTransport env h (\<lambda>send. agent_read jsonSize send i)"

definition docker_fileReadBytes :: "'w docker_env \<Rightarrow> backend_handle \<Rightarrow> string \<Rightarrow> nat \<Rightarrow> nat \<Rightarrow> ('w docker, read_bytes_result) io" where
  "docker_fileReadBytes env h path offset limit = fileTransport env h (\<lambda>send. readBytes send path offset limit)"

definition docker_fileWrite :: "'w docker_env \<Rightarrow> backend_handle \<Rightarrow> string \<Rightarrow> string \<Rightarrow> bool \<Rightarrow> byte_stream \<Rightarrow> ('w docker, file_write_result) io" where
  "docker_fileWrite env h transferId path createParents source =
     fileTransport env h (\<lambda>send. agent_write send transferId path createParents source)"

definition docker_fileEdit :: "'w docker_env \<Rightarrow> backend_handle \<Rightarrow> string \<Rightarrow> digest \<Rightarrow> file_edit list \<Rightarrow> ('w docker, file_edit_result) io" where
  "docker_fileEdit env h path expectedDigest edits = fileTransport env h (\<lambda>send. agent_edit send path expectedDigest edits)"

definition docker_fileGlob :: "(agent_response \<Rightarrow> nat) \<Rightarrow> 'w docker_env \<Rightarrow> backend_handle \<Rightarrow> file_glob_input \<Rightarrow> ('w docker, file_glob_result) io" where
  "docker_fileGlob jsonSize env h i = fileTransport env h (\<lambda>send. agent_glob jsonSize send i)"

definition docker_fileGrep :: "(agent_response \<Rightarrow> nat) \<Rightarrow> 'w docker_env \<Rightarrow> backend_handle \<Rightarrow> file_grep_input \<Rightarrow> ('w docker, file_grep_result) io" where
  "docker_fileGrep jsonSize env h i = fileTransport env h (\<lambda>send. agent_grep jsonSize send i)"

definition docker_fileStat :: "'w docker_env \<Rightarrow> backend_handle \<Rightarrow> string \<Rightarrow> ('w docker, file_stat_result) io" where
  "docker_fileStat env h path = fileTransport env h (\<lambda>send. agent_stat send path)"

definition docker_fileMove :: "'w docker_env \<Rightarrow> backend_handle \<Rightarrow> string \<Rightarrow> string \<Rightarrow> ('w docker, string \<times> string) io" where
  "docker_fileMove env h source destination = fileTransport env h (\<lambda>send. agent_move send source destination)"

definition docker_fileRemove :: "'w docker_env \<Rightarrow> backend_handle \<Rightarrow> string \<Rightarrow> ('w docker, unit) io" where
  "docker_fileRemove env h path = fileTransport env h (\<lambda>send. agent_remove send path)"

section \<open>Destroying a container\<close>

definition close_transport :: "'w docker_env \<Rightarrow> string \<Rightarrow> 'w docker \<Rightarrow> 'w docker" where
  "close_transport env c s = (case dk_transports s c of
     None \<Rightarrow> s
   | Some t \<Rightarrow> s\<lparr>gs_world := dv_close env t (gs_world s)\<rparr>)\<lparr>dk_transports := (dk_transports s)(c := None)\<rparr>"

definition docker_destroy :: "'w docker_env \<Rightarrow> backend_handle \<Rightarrow> ('w docker, unit) io" where
  "docker_destroy env h s =
     (let s = end_executions env (dk_transports s (h_opaqueId h)) (gs_executions s) s in
      delete_container env (h_opaqueId h) (close_transport env (h_opaqueId h) s))"

end
