(* ===== verification/Guest_Inv.thy ===== *)
theory Guest_Inv
  imports Guest
begin

text \<open>
  What the operations shared by the backends leave behind: the file a snapshot is written to, the
  requests the guest gets, and that polling ends when the clock goes on.
\<close>

section \<open>Files\<close>

definition stored_file :: "fs \<Rightarrow> path \<Rightarrow> byte list option" where
  "stored_file f p = (case lookup_inode f p of Some n \<Rightarrow> (case i_body n of B_file bs \<Rightarrow> Some bs | _ \<Rightarrow> None) | None \<Rightarrow> None)"

lemma file_io_Inr:
  "file_io env op s = (Inr u, s') \<longleftrightarrow> (\<exists>f. fs_run (gv_io env) op (gs_fs s) = Inr f \<and> s' = s\<lparr>gs_fs := f\<rparr>)"
  by (auto simp: file_io_def split: sum.splits)

lemma file_io_same [simp]:
  "gs_world (snd (file_io env op s)) = gs_world s"
  by (auto simp: file_io_def split: sum.splits)

lemma file_new:
  "file_io env (Op_write p bs m) s = (Inr u, s') \<Longrightarrow> stored_file (gs_fs s') p = Some bs"
  by (auto simp: file_io_Inr fs_run_def res_simps create_def add_name_def touch_dir_def change_inode_def set_mtime_def
      stored_file_def lookup_inode_def split: if_splits option.splits)

lemma file_appended:
  "file_io env (Op_append p cs) s = (Inr u, s') \<Longrightarrow> stored_file (gs_fs s) p = Some bs \<Longrightarrow>
   stored_file (gs_fs s') p = Some (bs @ cs)"
  by (auto simp: file_io_Inr fs_run_def res_simps change_at_def change_inode_def add_bytes_def
      stored_file_def lookup_inode_def split: option.splits body.splits)

lemma file_removed:
  "file_io env (Op_rm p) s = (Inr u, s') \<Longrightarrow> f_names (gs_fs s') p = None"
  by (auto simp: file_io_Inr fs_run_def res_simps rm_names_def)

lemma outside_io_iff [io_simps]:
  "outside_io m s = (r, s') \<longleftrightarrow> (\<exists>w. m (gs_world s) = (r, w) \<and> s' = s\<lparr>gs_world := w\<rparr>)"
  by (auto simp: outside_io_def split: prod.splits)

lemma send_io_fs [simp]: "gs_fs (snd (send_io env t q s)) = gs_fs s"
  by (simp_all add: send_io_def outside_io_def split: prod.splits)

lemma new_uuid_iff [io_simps]:
  "new_uuid env s = (r, s') \<longleftrightarrow> r = Inr (fst (gv_uuid env (gs_world s))) \<and> s' = s\<lparr>gs_world := snd (gv_uuid env (gs_world s))\<rparr>"
  by (auto simp: new_uuid_def split: prod.splits)

section \<open>A snapshot's file\<close>

lemma snapshot_step_file:
  assumes "snapshot_step b env t i path whole offset s = (Inr (c, eof), s')" "stored_file (gs_fs s) (path_parts path) = Some bs"
  shows "stored_file (gs_fs s') (path_parts path) = Some (bs @ c)"
  using assms by (auto simp: snapshot_step_def send_io_def io_simps dest: file_appended)

lemma snapshot_read_file:
  "snapshot_read b env t i path whole hashed offset s = (Inr (offset', hashed'), s') \<Longrightarrow>
   stored_file (gs_fs s) (path_parts path) = Some hashed \<Longrightarrow> offset = length hashed \<Longrightarrow>
   stored_file (gs_fs s') (path_parts path) = Some hashed' \<and> offset' = length hashed'"
proof (induction b env t i path whole hashed offset s rule: snapshot_read.induct)
  case (1 b env t i path whole hashed offset s)
  show ?case
  proof (cases "offset < whole")
    case False
    then show ?thesis using 1(2-) by (subst (asm) snapshot_read.simps) auto
  next
    case True
    then obtain c eof u where step: "snapshot_step b env t i path whole offset s = (Inr (c, eof), u)"
      using 1(2) by (subst (asm) snapshot_read.simps) (auto split: prod.splits sum.splits)
    note kept = snapshot_step_file [OF step 1(3)]
    show ?thesis
    proof (cases eof)
      case stop: True
      then show ?thesis using 1(2,4) True step kept by (subst (asm) snapshot_read.simps) auto
    next
      case go: False
      then have "snapshot_read b env t i path whole (hashed @ c) (offset + length c) u = (Inr (offset', hashed'), s')"
        using 1(2) True step by (subst (asm) snapshot_read.simps) simp
      from 1(1) [OF True step [symmetric] refl refl go this kept] 1(4) show ?thesis by simp
    qed
  qed
qed

lemma begun_snapshot_Inr:
  "begun_snapshot b begun = Inr (n, d) \<Longrightarrow> n \<le> SNAPSHOT_BYTES \<and> is_digest d"
  by (auto simp: begun_snapshot_def split: bool.splits option.splits number.splits if_splits)

lemma snapshot_transfer_file:
  assumes "snapshot_transfer b env t h i destination path s = (Inr x, s')"
  shows "\<exists>bs d. x = \<lparr>sn_workspacePath = h_workspacePath h, sn_cfsPath = Some path, sn_treeDigest = Some d\<rparr> \<and>
    stored_file (gs_fs s') (path_parts path) = Some bs \<and> digest_of (gv_sha env) (string_of bs) = d \<and> is_digest d \<and>
    length bs \<le> SNAPSHOT_BYTES"
proof -
  obtain begun s1 whole d s2 s3 hashed where run: "begun_snapshot b begun = Inr (whole, d)"
      "file_io env (Op_write (path_parts path) [] 256) s1 = (Inr (), s2)"
      "snapshot_read b env t i path whole [] 0 s2 = (Inr (whole, hashed), s3)"
      "digest_of (gv_sha env) (string_of hashed) = d" "s' = s3"
      "x = \<lparr>sn_workspacePath = h_workspacePath h, sn_cfsPath = Some path, sn_treeDigest = Some d\<rparr>"
    using assms unfolding snapshot_transfer_def by (auto simp: io_simps split: if_splits)
  have "stored_file (gs_fs s') (path_parts path) = Some hashed \<and> whole = length hashed"
    using snapshot_read_file [OF run(3) file_new [OF run(2)]] run(5) by simp
  then show ?thesis using run(4,6) begun_snapshot_Inr [OF run(1)] by (intro exI [of _ hashed] exI [of _ d]) simp
qed

section \<open>The requests of a snapshot\<close>

text \<open>An environment that keeps the requests in a log, which nothing else touches.\<close>

definition recording :: "('w \<times> agent_request list, 'e) guest_env_scheme \<Rightarrow> (nat \<Rightarrow> agent_request \<Rightarrow> ('w, agent_response) io) \<Rightarrow> bool" where
  "recording env send \<longleftrightarrow> (\<forall>t. gv_send env t = logged (send t)) \<and>
     (\<forall>w. snd (snd (gv_uuid env w)) = snd w) \<and> (\<forall>ms w. snd (gv_sleep env ms w) = snd w)"

definition requests :: "('w \<times> agent_request list, 'x) guest_scheme \<Rightarrow> agent_request list" where
  "requests s = snd (gs_world s)"

lemma send_io_logged:
  "recording env send \<Longrightarrow> requests (snd (send_io env t q s)) = requests s @ [q]"
  by (cases "gs_world s") (auto simp: recording_def requests_def send_io_def outside_io_def logged_def split: prod.splits)

lemma file_io_logged [simp]: "requests (snd (file_io env op s)) = requests s"
  by (simp add: requests_def)

lemma guest_snapshot_outcome:
  assumes run: "guest_snapshot b env t h destination s = (r, s')"
    and i: "gv_uuid env (gs_world s) = (i, w)" and path: "path = path_join [destination, h_instanceId h @ ''-'' @ i @ ''.cfs'']"
  shows "(case r of
      Inr x \<Rightarrow> \<exists>bs d. x = \<lparr>sn_workspacePath = h_workspacePath h, sn_cfsPath = Some path, sn_treeDigest = Some d\<rparr> \<and>
        stored_file (gs_fs s') (path_parts path) = Some bs \<and> digest_of (gv_sha env) (string_of bs) = d \<and> is_digest d \<and>
        length bs \<le> SNAPSHOT_BYTES
    | Inl e \<Rightarrow> gv_io env (Op_rm (path_parts path)) = Inr () \<longrightarrow> f_names (gs_fs s') (path_parts path) = None) \<and>
    (recording env send \<longrightarrow> last (requests s') = A_SnapshotEnd i)"
proof -
  obtain r1 s1 where body: "snapshot_transfer b env t h i destination path (s\<lparr>gs_world := w\<rparr>) = (r1, s1)" by force
  define s2 where "s2 = snd (send_io env t (A_SnapshotEnd i) s1)"
  have log: "recording env send \<Longrightarrow> last (requests s2) = A_SnapshotEnd i" by (simp add: s2_def send_io_logged)
  have fs: "gs_fs s2 = gs_fs s1" by (simp add: s2_def)
  have fin: "io_finally (\<lambda>s. (r1, s)) (io_bind (io_ignore (send_io env t (A_SnapshotEnd i))) (\<lambda>_.
      if is_ok r1 then io_return () else file_io env (Op_rm (path_parts path)))) s1 = (r, s')"
    using run i path body
    by (cases "is_ok r1") (simp_all add: guest_snapshot_def new_uuid_def io_bind_def Let_def)
  show ?thesis
  proof (cases r1)
    case (Inr x)
    then have "r = Inr x" "s' = s2" using fin
      by (auto simp: io_finally_def io_bind_def io_ignore_def io_return_def s2_def)
    then show ?thesis using snapshot_transfer_file [OF body [unfolded Inr]] fs log by auto
  next
    case (Inl e)
    obtain q u where rm: "file_io env (Op_rm (path_parts path)) s2 = (q, u)" by force
    have out: "s' = u" "isl r" using fin rm Inl
      by (auto simp: io_finally_def io_bind_def io_ignore_def s2_def split: sum.splits)
    have "recording env send \<Longrightarrow> last (requests s') = A_SnapshotEnd i"
      using log arg_cong [OF rm, of "\<lambda>x. requests (snd x)"] out(1) by simp
    moreover have "f_names (gs_fs s') (path_parts path) = None" if "gv_io env (Op_rm (path_parts path)) = Inr ()"
    proof (cases q)
      case (Inr v)
      then show ?thesis using file_removed [OF rm [unfolded Inr]] out(1) by simp
    next
      case (Inl e')
      then show ?thesis using rm that by (simp add: file_io_def fs_run_def split: sum.splits)
    qed
    ultimately show ?thesis using out(2) by (cases r) auto
  qed
qed

section \<open>The clock ends the waiting\<close>

text \<open>Time does not go back, and a pause takes some.\<close>

definition clock_goes_on :: "('w, 'e) guest_env_scheme \<Rightarrow> bool" where
  "clock_goes_on env \<longleftrightarrow> (\<forall>t q w. gv_clock env w \<le> gv_clock env (snd (gv_send env t q w))) \<and>
     (\<forall>ms w. 0 < ms \<longrightarrow> gv_clock env w < gv_clock env (gv_sleep env ms w))"

abbreviation clock_of :: "('w, 'e) guest_env_scheme \<Rightarrow> ('w, 'x) guest_scheme \<Rightarrow> int" where
  "clock_of env s \<equiv> gv_clock env (gs_world s)"

lemma send_io_clock: "clock_goes_on env \<Longrightarrow> clock_of env s \<le> clock_of env (snd (send_io env t q s))"
  by (auto simp: clock_goes_on_def send_io_def outside_io_def split: prod.splits) (metis snd_conv)

lemma pause_clock: "clock_goes_on env \<Longrightarrow> 0 < ms \<Longrightarrow> clock_of env s < clock_of env (pause env ms s)"
  by (simp add: clock_goes_on_def pause_def)

lemma set_execution_world [simp]: "gs_world (set_execution x d s) = gs_world s"
  by (simp add: set_execution_def)

text \<open>A loop that goes round only before its deadline, and later each time.\<close>

lemma deadline_induct:
  fixes clock :: "'s \<Rightarrow> int"
  assumes "\<And>s. (\<And>s'. clock s < deadline \<Longrightarrow> clock s < clock s' \<Longrightarrow> P s') \<Longrightarrow> P s"
  shows "P s"
proof (induction "nat (deadline - clock s)" arbitrary: s rule: less_induct)
  case less
  show ?case
  proof (rule assms)
    fix s' assume "clock s < deadline" "clock s < clock s'"
    then show "P s'" by (intro less) linarith
  qed
qed

lemma poll_wait_returns:
  assumes "clock_goes_on env"
  shows "\<exists>r s'. poll_wait b env x deadline d s = Some (r, s') \<and>
    (\<forall>d'. r = Inr d' \<longrightarrow> de_state d' = X_RUNNING \<longrightarrow> deadline \<le> clock_of env s')"
proof (induction s arbitrary: d rule: deadline_induct [where clock = "clock_of env" and deadline = deadline])
  case (1 s d)
  define u where "u = snd (send_io env (de_transport d) (A_Poll x) s)"
  define checked where "checked = poll_checked b (fst (send_io env (de_transport d) (A_Poll x) s))"
  define d1 where "d1 = polled_record (projr checked) d"
  define v where "v = set_execution x d1 u"
  have clock: "clock_of env s \<le> clock_of env v" using send_io_clock [OF assms] by (simp add: v_def u_def)
  let ?p = "pause env (min 25 (max 0 (deadline - clock_of env v))) v"
  have step: "poll_wait b env x deadline d s =
     (if isl checked then Some (Inl (projl checked), u)
      else if de_state d1 \<noteq> X_RUNNING
        then Some (Inr (d1\<lparr>de_finishedAt := Some (clock_of env v)\<rparr>), set_execution x (d1\<lparr>de_finishedAt := Some (clock_of env v)\<rparr>) v)
      else if clock_of env v \<ge> deadline then Some (Inr d1, v)
      else poll_wait b env x deadline d1 ?p)"
    by (subst poll_wait.simps) (simp add: Let_def u_def checked_def d1_def v_def)
  show ?case
  proof (cases "isl checked \<or> de_state d1 \<noteq> X_RUNNING \<or> clock_of env v \<ge> deadline")
    case True
    then show ?thesis unfolding step by auto
  next
    case False
    have "clock_of env v < clock_of env ?p" using False by (intro pause_clock [OF assms]) simp
    then have "clock_of env s < deadline" "clock_of env s < clock_of env ?p" using False clock by linarith+
    from 1 [OF this, of d1] show ?thesis using False unfolding step by simp
  qed
qed

text \<open>A poll returns; one that reports a running execution has used up its time.\<close>

lemma guest_poll_returns:
  assumes "clock_goes_on env"
  shows "\<exists>r s'. guest_poll b env h ms s = Some (r, s') \<and>
    (\<forall>x. r = Inr x \<longrightarrow> xr_state x = X_RUNNING \<longrightarrow> clock_of env s + ms \<le> clock_of env s')"
proof (cases "map_of (gs_executions s) (xh_executionId h)")
  case None
  then show ?thesis by (simp add: guest_poll_def)
next
  case (Some d)
  from poll_wait_returns [OF assms] obtain r s' where
    "poll_wait b env (xh_executionId h) (clock_of env s + ms) d s = Some (r, s')"
    "\<forall>d'. r = Inr d' \<longrightarrow> de_state d' = X_RUNNING \<longrightarrow> clock_of env s + ms \<le> clock_of env s'" by blast
  then show ?thesis using Some
    by (cases r) (auto simp: guest_poll_def run_bind_def returns_def io_return_def execution_view_def)
qed

lemma run_bind_returns: "\<exists>y. m s = Some y \<Longrightarrow> (\<And>x s. \<exists>y. f x s = Some y) \<Longrightarrow> \<exists>y. run_bind m f s = Some y"
  by (auto simp: run_bind_def split: sum.splits)

lemma returns_returns [simp]: "\<exists>y. returns m s = Some y" by (simp add: returns_def)

lemma run_finally_returns: "\<exists>y. m s = Some y \<Longrightarrow> \<exists>y. run_finally m c s = Some y"
  by (auto simp: run_finally_def)

lemma run_on_error_returns: "\<exists>y. m s = Some y \<Longrightarrow> \<exists>y. run_on_error m c s = Some y"
  by (auto simp: run_on_error_def split: sum.splits)

lemma run_bind_Some:
  "run_bind m f s = Some (Inr y, s') \<longleftrightarrow> (\<exists>x s1. m s = Some (Inr x, s1) \<and> f x s1 = Some (Inr y, s'))"
  by (auto simp: run_bind_def split: option.splits prod.splits sum.splits)

lemma returns_iff: "returns m s = Some y \<longleftrightarrow> m s = y" by (simp add: returns_def)

lemma file_io_kept: "file_io env op s = (r, s') \<Longrightarrow> gs_world s' = gs_world s"
  by (metis file_io_same(1) snd_conv)

lemma send_io_kept: "send_io env t q s = (r, s') \<Longrightarrow> gs_fs s' = gs_fs s"
  by (metis send_io_fs(1) snd_conv)

lemma send_io_request: "recording env send \<Longrightarrow> send_io env t q s = (r, s') \<Longrightarrow> requests s' = requests s @ [q]"
  by (metis send_io_logged snd_conv)

lemma run_finally_Inr:
  "run_finally m c s = Some (Inr x, s') \<Longrightarrow> \<exists>s1 u. m s = Some (Inr x, s1) \<and> c s1 = (Inr u, s')"
  by (auto simp: run_finally_def io_finally_def split: option.splits prod.splits sum.splits)

end
