(* ===== verification/Tar_Inv.thy ===== *)
theory Tar_Inv
  imports Tar Cfs_Roundtrip
begin

text \<open>
  A reader of the archives of \<open>Tar\<close>, and what it reads: the header fields are read back, with
  the checksum checked; the chunks of a workspace are the records of its entries. The views of
  a buffer show the bytes that were read as long as the buffer is not filled again, which is so
  for files that fit into one.
\<close>

section \<open>Numbers in octal\<close>

definition oct_val :: "byte list \<Rightarrow> nat" where
  "oct_val bs = foldl (\<lambda>a b. a * 8 + (unat b - 48)) 0 bs"

lemma below_8: "(d :: nat) < 8 \<Longrightarrow> d = 0 \<or> d = 1 \<or> d = 2 \<or> d = 3 \<or> d = 4 \<or> d = 5 \<or> d = 6 \<or> d = 7"
  by linarith

lemma unat_oct [simp]: "d < 8 \<Longrightarrow> unat (48 + word_of_nat d :: byte) = 48 + d"
  by (drule below_8) (elim disjE; simp)

lemma bytes_of_Nil [simp]: "bytes_of [] = []" by (simp add: bytes_of_def)

lemma bytes_of_Cons: "bytes_of (c # s) = word_of_nat (of_char c) # bytes_of s" by (simp add: bytes_of_def)

lemma oct_val_snoc [simp]: "oct_val (bs @ [b]) = oct_val bs * 8 + (unat b - 48)"
  by (simp add: oct_val_def)

lemma oct_val_oct_str [simp]: "oct_val (bytes_of (oct_str n)) = n"
proof (induction n rule: oct_str.induct)
  case (1 n)
  show ?case
  proof (cases "n < 8")
    case True
    then show ?thesis
      by (simp add: oct_str.simps [of n] oct_val_def bytes_of_Cons unat_byte)
  next
    case False
    have "oct_val (bytes_of (oct_str n)) = oct_val (bytes_of (oct_str (n div 8))) * 8 + n mod 8"
      using False by (subst oct_str.simps) (simp add: bytes_of_Cons unat_byte)
    then show ?thesis using 1 [OF False] by simp
  qed
qed

lemma oct_val_zeros: "oct_val (replicate k 48 @ bs) = oct_val bs"
  by (induction k) (simp_all add: oct_val_def)

lemma bytes_of_zeros: "bytes_of (replicate k (CHR ''0'')) = replicate k 48"
  by (simp add: bytes_of_def)

lemma oct_val_padStart [simp]: "oct_val (bytes_of (padStart k (CHR ''0'') (oct_str n))) = n"
  by (simp add: padStart_def bytes_of_zeros oct_val_zeros)

lemma oct_str_set: "c \<in> set (oct_str n) \<Longrightarrow> c \<in> set ''01234567''"
proof (induction n rule: oct_str.induct)
  case (1 n)
  have digit: "char_of (48 + d) \<in> set ''01234567''" if "d < 8" for d :: nat
    using below_8 [OF that] by (elim disjE) (simp_all add: char_of_def bit_0)
  show ?case
  proof (cases "n < 8")
    case True
    then show ?thesis using 1(2) digit [of n] by (simp add: oct_str.simps [of n])
  next
    case False
    then show ?thesis using 1 digit [of "n mod 8"] by (auto simp: oct_str.simps [of n])
  qed
qed

lemma oct_str_no_NUL: "NUL \<notin> set (padStart k (CHR ''0'') (oct_str n))"
  using oct_str_set [of NUL n] by (auto simp: padStart_def NUL_def)

lemma length_oct_str: "n < 8 ^ k \<Longrightarrow> 0 < k \<Longrightarrow> length (oct_str n) \<le> k"
proof (induction n arbitrary: k rule: oct_str.induct)
  case (1 n)
  show ?case
  proof (cases "n < 8")
    case False
    then have k: "1 < k" using 1(2,3) by (cases "k = 1") auto
    then have "n div 8 < 8 ^ (k - 1)" using 1(2) by (simp add: less_mult_imp_div_less power_eq_if mult.commute)
    then have "length (oct_str (n div 8)) \<le> k - 1" using 1(1) [OF False] k by simp
    then show ?thesis using False k by (subst oct_str.simps) simp
  qed (use 1 in \<open>simp add: oct_str.simps [of n]\<close>)
qed

lemma octal_Inr:
  assumes "octal v w = Inr bs" "0 \<le> v"
  shows "length bs = w \<and> (\<exists>ds. bs = bytes_of (ds @ [NUL]) \<and> NUL \<notin> set ds \<and> oct_val (bytes_of ds) = nat v)"
proof -
  let ?ds = "padStart (w - 1) (CHR ''0'') (oct_str (nat v))"
  have "length ?ds < w" "bs = bytes_of (?ds @ [NUL])"
    using assms by (auto simp: octal_def bigint_oct_def Let_def split: if_splits)
  moreover have "w - 1 \<le> length ?ds" by (simp add: padStart_def)
  ultimately show ?thesis using oct_str_no_NUL oct_val_padStart by (auto intro!: exI [of _ ?ds])
qed

section \<open>Writing at an offset\<close>

lemma length_blit [simp]: "off + length v \<le> length h \<Longrightarrow> length (blit h off v) = length h"
  by (simp add: blit_def)

lemma length_slice [simp]: "a + n \<le> length h \<Longrightarrow> length (slice h a n) = n"
  by (simp add: slice_def)

lemma nth_slice: "i < n \<Longrightarrow> a + n \<le> length h \<Longrightarrow> slice h a n ! i = h ! (a + i)"
  by (simp add: slice_def)

lemma nth_blit:
  "off + length v \<le> length h \<Longrightarrow> i < length h \<Longrightarrow>
   blit h off v ! i = (if off \<le> i \<and> i < off + length v then v ! (i - off) else h ! i)"
  by (auto simp: blit_def nth_append min_def)

lemma slice_blit_other:
  "off + length v \<le> length h \<Longrightarrow> a + n \<le> length h \<Longrightarrow> a + n \<le> off \<or> off + length v \<le> a \<Longrightarrow>
   slice (blit h off v) a n = slice h a n"
  by (rule nth_equalityI) (auto simp: nth_slice nth_blit)

lemma slice_blit:
  "off + length v \<le> length h \<Longrightarrow> off + n \<le> length h \<Longrightarrow> length v \<le> n \<Longrightarrow>
   slice (blit h off v) off n = v @ slice h (off + length v) (n - length v)"
  by (rule nth_equalityI) (auto simp: nth_slice nth_blit nth_append)

lemma slice_blit_same:
  "off + length v \<le> length h \<Longrightarrow> length v = n \<Longrightarrow> slice (blit h off v) off n = v"
  by (rule nth_equalityI) (auto simp: nth_slice nth_blit)

lemma slice_replicate: "a + n \<le> k \<Longrightarrow> slice (replicate k x) a n = replicate n x"
  by (simp add: slice_def)

lemma blit_blit: "length v = length w \<Longrightarrow> off + length v \<le> length h \<Longrightarrow> blit (blit h off v) off w = blit h off w"
  by (rule nth_equalityI) (auto simp: nth_blit)

lemma blit_id: "off + length v \<le> length h \<Longrightarrow> slice h off (length v) = v \<Longrightarrow> blit h off v = h"
  by (rule nth_equalityI) (auto simp: nth_blit, metis add_diff_inverse_nat leD less_diff_conv2 nat_add_left_cancel_less nth_slice)

section \<open>Reading a header\<close>

record tar_member =
  tm_name :: string
  tm_mode :: nat
  tm_mtime :: nat
  tm_type :: char
  tm_linkName :: string
  tm_content :: "byte list"

definition until_nul :: "byte list \<Rightarrow> byte list" where
  "until_nul bs = takeWhile (\<lambda>b. b \<noteq> 0) bs"

definition text_field :: "byte list \<Rightarrow> nat \<Rightarrow> nat \<Rightarrow> string" where
  "text_field h off w = string_of (until_nul (slice h off w))"

definition number_field :: "byte list \<Rightarrow> nat \<Rightarrow> nat \<Rightarrow> nat" where
  "number_field h off w = oct_val (until_nul (slice h off w))"

definition header_valid :: "byte list \<Rightarrow> bool" where
  "header_valid h \<longleftrightarrow> slice h 257 8 = bytes_of (''ustar'' @ [NUL] @ ''00'') \<and>
     number_field h 148 8 = checksum (blit h 148 (replicate 8 32))"

definition header_member :: "byte list \<Rightarrow> byte list \<Rightarrow> tar_member" where
  "header_member h c = \<lparr>tm_name = text_field h 0 100, tm_mode = number_field h 100 8, tm_mtime = number_field h 136 12,
     tm_type = hd (string_of (slice h 156 1)), tm_linkName = text_field h 157 100, tm_content = c\<rparr>"

lemma NUL_byte: "word_of_nat (of_char c) = (0 :: byte) \<longleftrightarrow> c = NUL"
proof
  assume "word_of_nat (of_char c) = (0 :: byte)"
  then have "bytes_of [c] = bytes_of [NUL]" by (simp add: bytes_of_def NUL_def)
  then show "c = NUL" using bytes_of_inject [of "[c]" "[NUL]"] by simp
qed (simp add: NUL_def)

lemma NUL_byte_0 [simp]: "word_of_nat (of_char NUL) = (0 :: byte)"
  by (simp add: NUL_byte)

lemma bytes_of_NUL: "bytes_of [NUL] = [0]" by (simp add: bytes_of_def NUL_def)

lemma zero_in_bytes_of: "0 \<in> set (bytes_of s) \<longleftrightarrow> NUL \<in> set s"
  by (simp add: bytes_of_def image_iff eq_commute [of "0 :: byte"] NUL_byte)

lemma until_nul_append: "NUL \<notin> set s \<Longrightarrow> until_nul (bytes_of s @ replicate k 0) = bytes_of s"
  using zero_in_bytes_of [of s]
  by (auto simp: until_nul_def takeWhile_append takeWhile_eq_all_conv takeWhile_replicate)

lemma until_nul_terminated: "NUL \<notin> set s \<Longrightarrow> until_nul (bytes_of s @ 0 # bs) = bytes_of s"
  using zero_in_bytes_of [of s] by (auto simp: until_nul_def takeWhile_append takeWhile_eq_all_conv)

lemma until_nul_whole: "NUL \<notin> set s \<Longrightarrow> until_nul (bytes_of s) = bytes_of s"
  using until_nul_append [of s 0] by simp

text \<open>The header before its checksum: seven fields and four constants, written over zeros.\<close>

lemma checksum_less: "length h = 512 \<Longrightarrow> checksum h < 8 ^ 6"
proof -
  assume h: "length h = 512"
  have "unat b < 2 ^ LENGTH(8)" for b :: byte by (rule unsigned_less)
  then have "unat b \<le> 255" for b :: byte by (simp add: less_Suc_eq_le [symmetric])
  then have "checksum h \<le> sum_list (map (\<lambda>_. 255) h)" unfolding checksum_def by (intro sum_list_mono)
  then show ?thesis using h by (simp add: sum_list_triv)
qed

lemma put_checksum_valid:
  assumes h: "length h = 512" "slice h 148 8 = replicate 8 32"
  shows "length (put_checksum h) = 512" "number_field (put_checksum h) 148 8 = checksum (blit (put_checksum h) 148 (replicate 8 32))"
    and "a + n \<le> 148 \<or> 156 \<le> a \<and> a + n \<le> 512 \<Longrightarrow> slice (put_checksum h) a n = slice h a n"
proof -
  let ?ds = "padStart 6 (CHR ''0'') (oct_str (checksum h))"
  let ?cs = "bytes_of (?ds @ [NUL, CHR '' ''])"
  have ds: "length ?ds = 6" using length_oct_str [OF checksum_less [OF h(1)]] by (simp add: padStart_def)
  then have cs: "length ?cs = 8" by simp
  have p: "put_checksum h = blit h 148 ?cs" by (simp add: put_checksum_def text_at_def)
  show "length (put_checksum h) = 512" unfolding p using h cs by simp
  have "slice (put_checksum h) 148 8 = ?cs" unfolding p using h(1) cs by (intro slice_blit_same) simp_all
  moreover have "until_nul ?cs = bytes_of ?ds"
    using until_nul_terminated [OF oct_str_no_NUL, of 6 "checksum h" "bytes_of '' ''"]
    by (simp add: bytes_of_Cons [of NUL])
  ultimately have n: "number_field (put_checksum h) 148 8 = checksum h" by (simp add: number_field_def)
  have "blit (put_checksum h) 148 (replicate 8 32) = blit h 148 (replicate 8 32)"
    unfolding p using h(1) cs by (intro blit_blit) simp_all
  also have "\<dots> = h" using h by (intro blit_id) simp_all
  finally show "number_field (put_checksum h) 148 8 = checksum (blit (put_checksum h) 148 (replicate 8 32))" using n by simp
  show "slice (put_checksum h) a n = slice h a n" if "a + n \<le> 148 \<or> 156 \<le> a \<and> a + n \<le> 512"
    unfolding p using that h(1) cs by (intro slice_blit_other) auto
qed

definition put_fields :: "(nat \<times> byte list) list \<Rightarrow> byte list \<Rightarrow> byte list" where
  "put_fields fs h = foldl (\<lambda>h f. blit h (fst f) (snd f)) h fs"

definition field_outside :: "nat \<Rightarrow> nat \<Rightarrow> nat \<times> byte list \<Rightarrow> bool" where
  "field_outside a n f \<longleftrightarrow> a + n \<le> fst f \<or> fst f + length (snd f) \<le> a"

definition field_in :: "nat \<Rightarrow> nat \<times> byte list \<Rightarrow> bool" where
  "field_in k f \<longleftrightarrow> fst f + length (snd f) \<le> k"

lemma length_put_fields: "list_all (field_in (length h)) fs \<Longrightarrow> length (put_fields fs h) = length h"
  unfolding put_fields_def by (induction fs arbitrary: h) (simp_all add: field_in_def)

lemma slice_put_fields_other:
  "list_all (field_in (length h)) fs \<Longrightarrow> list_all (field_outside a n) fs \<Longrightarrow> a + n \<le> length h \<Longrightarrow>
   slice (put_fields fs h) a n = slice h a n"
proof (induction fs arbitrary: h)
  case (Cons f fs)
  then have "slice (put_fields fs (blit h (fst f) (snd f))) a n = slice (blit h (fst f) (snd f)) a n"
    by (simp add: field_in_def)
  then show ?case using Cons(2-4) by (simp add: put_fields_def field_in_def field_outside_def slice_blit_other)
qed (simp add: put_fields_def)

lemma put_fields_split:
  "k < length fs \<Longrightarrow> put_fields fs h = put_fields (drop (Suc k) fs) (blit (put_fields (take k fs) h) (fst (fs ! k)) (snd (fs ! k)))"
proof -
  assume k: "k < length fs"
  have "foldl g h fs = foldl g (g (foldl g h (take k fs)) (fs ! k)) (drop (Suc k) fs)" for g :: "byte list \<Rightarrow> nat \<times> byte list \<Rightarrow> byte list"
    by (simp only: foldl_append [symmetric] foldl_Cons [symmetric] id_take_nth_drop [OF k, symmetric])
  then show ?thesis unfolding put_fields_def by simp
qed

text \<open>A field shows what was written there, with what was below it after its end.\<close>

lemma slice_put_fields:
  assumes k: "k < length fs" "fs ! k = (off, v)" and fits: "list_all (field_in (length h)) fs" "off + n \<le> length h" "length v \<le> n"
    and later: "list_all (field_outside off n) (drop (Suc k) fs)"
    and earlier: "list_all (field_outside (off + length v) (n - length v)) (take k fs)"
  shows "slice (put_fields fs h) off n = v @ slice h (off + length v) (n - length v)"
proof -
  have parts: "list_all (field_in (length h)) (take k fs)" "list_all (field_in (length h)) (drop (Suc k) fs)" "field_in (length h) (off, v)"
  proof -
    show "list_all (field_in (length h)) (take k fs)" using fits(1) unfolding list_all_iff by (meson in_set_takeD)
    show "list_all (field_in (length h)) (drop (Suc k) fs)" using fits(1) unfolding list_all_iff by (meson in_set_dropD)
    show "field_in (length h) (off, v)" using fits(1) nth_mem [OF k(1)] unfolding list_all_iff k(2) by blast
  qed
  let ?h = "put_fields (take k fs) h"
  have len: "length ?h = length h" by (rule length_put_fields [OF parts(1)])
  have "slice (put_fields fs h) off n = slice (blit ?h off v) off n"
    unfolding put_fields_split [OF k(1)] k(2) using parts len fits later
    by (subst slice_put_fields_other) (simp_all add: field_in_def)
  also have "\<dots> = v @ slice ?h (off + length v) (n - length v)"
    using len parts(3) fits by (intro slice_blit) (simp_all add: field_in_def)
  also have "slice ?h (off + length v) (n - length v) = slice h (off + length v) (n - length v)"
    using parts(1) earlier fits by (intro slice_put_fields_other) simp_all
  finally show ?thesis .
qed

lemma tarHeader_read:
  assumes run: "tarHeader i = Inr h" and names: "NUL \<notin> set (ti_name i)" "\<And>l. ti_linkName i = Some l \<Longrightarrow> NUL \<notin> set l"
    and numbers: "0 \<le> ti_size i" "0 \<le> ti_mtime i"
  shows "length h = 512 \<and> header_valid h \<and> number_field h 124 12 = nat (ti_size i) \<and>
    header_member h c = \<lparr>tm_name = ti_name i, tm_mode = ti_mode i AND 4095, tm_mtime = nat (ti_mtime i), tm_type = ti_type i,
      tm_linkName = (case ti_linkName i of Some l \<Rightarrow> l | None \<Rightarrow> []), tm_content = c\<rparr>"
proof -
  let ?l = "case ti_linkName i of Some l \<Rightarrow> l | None \<Rightarrow> []"
  obtain m u g z t where oct: "octal (int (ti_mode i AND 4095)) 8 = Inr m" "octal 1000 8 = Inr u" "octal 1000 8 = Inr g"
      "octal (ti_size i) 12 = Inr z" "octal (ti_mtime i) 12 = Inr t"
    and len: "length (ti_name i) \<le> 100" "length ?l \<le> 100"
    and h: "h = put_checksum (put_fields [(0, bytes_of (ti_name i)), (100, m), (108, u), (116, g), (124, z), (136, t),
      (148, replicate 8 32), (156, bytes_of [ti_type i]), (157, bytes_of ?l), (257, bytes_of (''ustar'' @ [NUL])),
      (263, bytes_of ''00''), (265, bytes_of ''code''), (297, bytes_of ''code'')] (replicate 512 0))"
      (is "h = put_checksum (put_fields ?fs ?zeros)")
    using run unfolding tarHeader_def Let_def octal_field_def writeField_def text_at_def put_fields_def
    by (auto simp: bind_res_Inr split: if_splits)
  have m: "length m = 8 \<and> oct_val (until_nul m) = ti_mode i AND 4095"
    using octal_Inr [OF oct(1)] by (auto simp: until_nul_terminated bytes_of_NUL)
  have z: "length z = 12 \<and> oct_val (until_nul z) = nat (ti_size i)"
    using octal_Inr [OF oct(4) numbers(1)] by (auto simp: until_nul_terminated bytes_of_NUL)
  have t: "length t = 12 \<and> oct_val (until_nul t) = nat (ti_mtime i)"
    using octal_Inr [OF oct(5) numbers(2)] by (auto simp: until_nul_terminated bytes_of_NUL)
  have ug: "length u = 8" "length g = 8" using octal_Inr [OF oct(2)] octal_Inr [OF oct(3)] by simp_all
  have fits: "list_all (field_in (length ?zeros)) ?fs" using m z t ug len by (simp add: field_in_def)
  have at: "slice (put_fields ?fs ?zeros) off n = v @ replicate (n - length v) 0"
    if "k < 13" "?fs ! k = (off, v)" "off + n \<le> 512" "length v \<le> n" "list_all (field_outside off n) (drop (Suc k) ?fs)"
      "list_all (field_outside (off + length v) (n - length v)) (take k ?fs)" for k off v n
    using slice_put_fields [where k = k, OF _ that(2) fits, of n] that by (simp add: slice_replicate)
  note lens = m z t ug len
  let ?f = "put_fields ?fs ?zeros"
  have lh: "length ?f = 512" using length_put_fields [OF fits] by simp
  have spaces: "slice ?f 148 8 = replicate 8 32" using at [of 6] lens by (simp add: field_outside_def)
  note valid = put_checksum_valid [OF lh spaces, folded h]
  have "slice ?f 0 100 = bytes_of (ti_name i) @ replicate (100 - length (ti_name i)) 0"
    using at [of 0] lens by (simp add: field_outside_def)
  moreover have "slice ?f 100 8 = m" using at [of 1] lens by (simp add: field_outside_def)
  moreover have "slice ?f 124 12 = z" using at [of 4] lens by (simp add: field_outside_def)
  moreover have "slice ?f 136 12 = t" using at [of 5] lens by (simp add: field_outside_def)
  moreover have "slice ?f 156 1 = bytes_of [ti_type i]" using at [of 7] lens by (simp add: field_outside_def)
  moreover have "slice ?f 157 100 = bytes_of ?l @ replicate (100 - length ?l) 0"
    using at [of 8] lens by (simp add: field_outside_def)
  moreover have "slice ?f 257 8 = bytes_of (''ustar'' @ [NUL] @ ''00'')"
  proof -
    have "slice ?f 257 6 = bytes_of (''ustar'' @ [NUL])" using at [of 9] lens by (simp add: field_outside_def)
    moreover have "slice ?f 263 2 = bytes_of ''00''" using at [of 10] lens by (simp add: field_outside_def)
    moreover have "slice ?f 257 8 = slice ?f 257 6 @ slice ?f 263 2"
      using take_add [of 6 2 "drop 257 ?f"] by (simp add: slice_def)
    ultimately show ?thesis by (simp add: bytes_of_def)
  qed
  ultimately have read: "slice h 0 100 = bytes_of (ti_name i) @ replicate (100 - length (ti_name i)) 0"
      "slice h 100 8 = m" "slice h 124 12 = z" "slice h 136 12 = t" "slice h 156 1 = bytes_of [ti_type i]"
      "slice h 157 100 = bytes_of ?l @ replicate (100 - length ?l) 0" "slice h 257 8 = bytes_of (''ustar'' @ [NUL] @ ''00'')"
    using valid(3) by simp_all
  have l: "NUL \<notin> set ?l" using names(2) by (simp split: option.splits)
  have "text_field h 0 100 = ti_name i" "text_field h 157 100 = ?l"
    unfolding text_field_def read by (simp_all only: until_nul_append [OF l] until_nul_append [OF names(1)] string_of_bytes_of)
  moreover have "number_field h 100 8 = ti_mode i AND 4095" "number_field h 124 12 = nat (ti_size i)"
      "number_field h 136 12 = nat (ti_mtime i)"
    unfolding number_field_def read using m z t by simp_all
  moreover have "hd (string_of (slice h 156 1)) = ti_type i" unfolding read by simp
  moreover have "header_valid h" unfolding header_valid_def read using valid(2) by simp
  ultimately show ?thesis using valid(1) by (simp add: header_member_def)
qed

section \<open>A reader\<close>

definition stored_size :: "byte list \<Rightarrow> nat" where
  "stored_size h = (if hd (string_of (slice h 156 1)) = CHR ''0'' then number_field h 124 12 else 0)"

definition end_blocks :: "byte list" where
  "end_blocks = replicate 1024 0"

function untar :: "byte list \<Rightarrow> tar_member list option" where
  "untar bs =
     (if take 1024 bs = end_blocks then Some []
      else if length bs < 512 then None
      else let h = take 512 bs; n = stored_size h in
        if \<not> header_valid h \<or> length bs < 512 + n + tar_padding n then None
        else map_option (Cons (header_member h (take n (drop 512 bs)))) (untar (drop (512 + n + tar_padding n) bs)))"
  by pat_completeness auto
termination
  by (relation "measure length") auto

declare untar.simps [simp del]

definition record_of :: "byte list \<Rightarrow> byte list \<Rightarrow> byte list" where
  "record_of h c = h @ c @ replicate (tar_padding (length c)) 0"

lemma untar_record:
  assumes "length h = 512" "header_valid h" "stored_size h = length c"
  shows "untar (record_of h c @ rest) = map_option (Cons (header_member h c)) (untar rest)"
proof -
  have "take 1024 (record_of h c @ rest) \<noteq> end_blocks"
  proof
    assume "take 1024 (record_of h c @ rest) = end_blocks"
    from arg_cong [OF this, of "take 512"] have "h = take 512 end_blocks"
      using assms(1) by (simp add: record_of_def)
    then have "slice h 257 8 = replicate 8 0" by (simp add: slice_def end_blocks_def)
    then have "slice h 257 8 ! 0 = 0" by simp
    then show False using assms(2) by (simp add: header_valid_def bytes_of_def)
  qed
  moreover have "take 512 (record_of h c @ rest) = h" "512 + length c + tar_padding (length c) = length (record_of h c)"
      "take (length c) (drop 512 (record_of h c @ rest)) = c"
    using assms(1) by (simp_all add: record_of_def)
  ultimately show ?thesis using assms
    by (subst untar.simps) (simp add: Let_def)
qed

lemma untar_end: "untar end_blocks = Some []"
  by (subst untar.simps) (simp add: end_blocks_def)

section \<open>What the generator yields\<close>

text \<open>The bytes yielded, each chunk looked at when it is yielded.\<close>

definition yielded :: "(tar_chunk \<times> byte list list) list \<Rightarrow> byte list" where
  "yielded ys = concat (map (\<lambda>(c, buffers). chunk_bytes buffers c) ys)"

lemma yielded_yield [simp]:
  "yielded (ts_yields (tar_yield c s)) = yielded (ts_yields s) @ chunk_bytes (ts_buffers s) c"
  "ts_buffers (tar_yield c s) = ts_buffers s" "ts_hardLinks (tar_yield c s) = ts_hardLinks s"
  by (simp_all add: yielded_def tar_yield_def)

lemma fill_simps [simp]:
  "ts_yields (fill b bytes s) = ts_yields s" "ts_hardLinks (fill b bytes s) = ts_hardLinks s"
  "length (ts_buffers (fill b bytes s)) = length (ts_buffers s)"
  "b < length (ts_buffers s) \<Longrightarrow> take (length bytes) (ts_buffers (fill b bytes s) ! b) = bytes"
  by (simp_all add: fill_def blit_def)

lemma tar_read_loop_yields:
  assumes "tar_read_loop rd b len off s = (off', s')" "off' = len" "off \<le> len" "b < length (ts_buffers s)"
    and "length c = len" "\<And>a m. rd a m = take m (drop a c)"
  shows "yielded (ts_yields s') = yielded (ts_yields s) @ drop off c \<and> ts_hardLinks s' = ts_hardLinks s"
  using assms
proof (induction rd b len off s arbitrary: off' s' rule: tar_read_loop.induct)
  case (1 rd b len off s)
  show ?case
  proof (cases "off < len")
    case False
    then show ?thesis using 1(2-) unfolding tar_read_loop.simps [of rd b len off s] by simp
  next
    case True
    let ?bytes = "rd off (min (64 * 1024) (len - off))"
    have ne: "?bytes \<noteq> []" using True 1(6,7) by auto
    let ?s = "tar_yield (T_view b (length ?bytes)) (fill b ?bytes s)"
    have run: "tar_read_loop rd b len (off + length ?bytes) ?s = (off', s')"
      using 1(2) True ne unfolding tar_read_loop.simps [of rd b len off s] by (simp add: Let_def)
    have "yielded (ts_yields s') = yielded (ts_yields ?s) @ drop (off + length ?bytes) c \<and> ts_hardLinks s' = ts_hardLinks ?s"
      using 1(1) [OF True refl ne run 1(3) _ _ 1(6,7)] 1(5-7) True by simp
    moreover have "?bytes @ drop (off + length ?bytes) c = drop off c"
    proof -
      have "?bytes @ drop (length ?bytes) (drop off c) = drop off c"
        using 1(6,7) by (simp add: append_eq_conv_conj min.commute)
      then show ?thesis by (simp add: add.commute)
    qed
    ultimately show ?thesis using 1(5) by simp
  qed
qed

section \<open>The records of the entries\<close>

definition archive_member :: "string \<Rightarrow> stats \<Rightarrow> char \<Rightarrow> string \<Rightarrow> byte list \<Rightarrow> tar_member" where
  "archive_member name st ty l c = \<lparr>tm_name = name, tm_mode = st_mode st AND 4095,
     tm_mtime = nat (st_mtimeNs st div 1000000000), tm_type = ty, tm_linkName = l, tm_content = c\<rparr>"

text \<open>The member of an entry, when the files with the links \<open>l\<close> came before it.\<close>

fun entry_member :: "links \<Rightarrow> entry \<Rightarrow> tar_member" where
  "entry_member l e = (case en_node e of
     N_dir st cs \<Rightarrow> archive_member (en_relative e @ ''/'') st (CHR ''5'') [] []
   | N_symlink st t \<Rightarrow> archive_member (en_relative e) st (CHR ''2'') t []
   | N_file st rd \<Rightarrow> (case if st_nlink st > 1 then l (link_key st) else None of
        Some t \<Rightarrow> archive_member (en_relative e) st (CHR ''1'') t []
      | None \<Rightarrow> archive_member (en_relative e) st (CHR ''0'') [] (content rd (st_size st)))
   | _ \<Rightarrow> undefined)"

fun entry_members :: "links \<Rightarrow> entry list \<Rightarrow> tar_member list" where
  "entry_members l [] = []"
| "entry_members l (e # es) = entry_member l e # entry_members (entry_links l e) es"

definition archivable :: "entry \<Rightarrow> bool" where
  "archivable e \<longleftrightarrow> stable (en_node e) \<and> en_relative e \<noteq> [] \<and> NUL \<notin> set (en_relative e) \<and>
     (case en_node e of N_symlink st t \<Rightarrow> NUL \<notin> set t | _ \<Rightarrow> True) \<and>
     (case node_stats (en_node e) of Inr st \<Rightarrow> 0 \<le> st_mtimeNs st | Inl _ \<Rightarrow> True)"

definition links_clean :: "links \<Rightarrow> bool" where
  "links_clean l \<longleftrightarrow> (\<forall>k t. l k = Some t \<longrightarrow> t \<noteq> [] \<and> NUL \<notin> set t)"

text \<open>\<open>s'\<close> is \<open>s\<close> after the record of a member.\<close>

definition record_added :: "tar_member \<Rightarrow> tar_state \<Rightarrow> tar_state \<Rightarrow> bool" where
  "record_added m s s' \<longleftrightarrow> (\<exists>h c. yielded (ts_yields s') = yielded (ts_yields s) @ record_of h c \<and> length h = 512 \<and>
     header_valid h \<and> stored_size h = length c \<and> header_member h c = m)"

lemma stored_size_read:
  "header_member h c = m \<Longrightarrow> stored_size h = (if tm_type m = CHR ''0'' then number_field h 124 12 else 0)"
  by (auto simp: header_member_def stored_size_def)

lemma sdiv_nonneg: "0 \<le> (n :: int) \<Longrightarrow> n sdiv 1000000000 = n div 1000000000"
  by (cases "n = 0") (auto simp: signed_divide_int_def sgn_if)

lemma mode_and: "(m AND 4095) AND 4095 = (m AND 4095 :: nat)"
  by (simp add: and.assoc)

lemma archive_header:
  assumes "tarHeader \<lparr>ti_name = name, ti_mode = st_mode st AND 4095, ti_size = sz, ti_mtime = st_mtimeNs st sdiv 1000000000,
      ti_type = ty, ti_linkName = l\<rparr> = Inr h"
    and "NUL \<notin> set name" "\<And>t. l = Some t \<Longrightarrow> NUL \<notin> set t" "0 \<le> st_mtimeNs st" "0 \<le> sz"
  shows "length h = 512 \<and> header_valid h \<and> number_field h 124 12 = nat sz \<and>
    header_member h c = archive_member name st ty (case l of Some t \<Rightarrow> t | None \<Rightarrow> []) c"
  using tarHeader_read [OF assms(1), of c] assms(2-5)
  by (simp add: archive_member_def sdiv_nonneg mode_and)

lemma yield_header_recorded:
  assumes "yield_header \<lparr>ti_name = name, ti_mode = st_mode st AND 4095, ti_size = 0, ti_mtime = st_mtimeNs st sdiv 1000000000,
      ti_type = ty, ti_linkName = l\<rparr> s = Inr s'"
    and "NUL \<notin> set name" "\<And>t. l = Some t \<Longrightarrow> NUL \<notin> set t" "0 \<le> st_mtimeNs st" "ty \<noteq> CHR ''0''"
  shows "record_added (archive_member name st ty (case l of Some t \<Rightarrow> t | None \<Rightarrow> []) []) s s' \<and> ts_hardLinks s' = ts_hardLinks s"
proof -
  obtain h where h: "tarHeader \<lparr>ti_name = name, ti_mode = st_mode st AND 4095, ti_size = 0,
      ti_mtime = st_mtimeNs st sdiv 1000000000, ti_type = ty, ti_linkName = l\<rparr> = Inr h" and s': "s' = tar_yield (T_bytes h) s"
    using assms(1) by (auto simp: yield_header_def res_simps)
  note read = archive_header [OF h assms(2,3,4), where c = "[]"]
  then have "stored_size h = 0" using stored_size_read [of h "[]"] assms(5) by (auto simp: archive_member_def)
  then show ?thesis unfolding record_added_def s' using read
    by (intro conjI exI [of _ h] exI [of _ "[]"]) (auto simp: record_of_def tar_padding_def)
qed

definition linked_first :: "string \<Rightarrow> stats \<Rightarrow> tar_state \<Rightarrow> tar_state" where
  "linked_first path st s =
     (if st_nlink st > 1 then s\<lparr>ts_hardLinks := (ts_hardLinks s)(link_key st := Some path)\<rparr> else s)"

lemma tar_file_new:
  assumes none: "(if st_nlink st > 1 then truthy (ts_hardLinks s (link_key st)) else None) = None"
    and run: "tar_file path mode mtime st rd s = Inr s'"
  obtains h s3 where "tarHeader \<lparr>ti_name = path, ti_mode = mode, ti_size = int (st_size st), ti_mtime = mtime,
        ti_type = CHR ''0'', ti_linkName = None\<rparr> = Inr h"
    and "tar_read_loop rd (length (ts_buffers s)) (st_size st) 0
        ((tar_yield (T_bytes h) (linked_first path st s))\<lparr>ts_buffers := ts_buffers s @ [[]]\<rparr>) = (st_size st, s3)"
    and "s' = (if tar_padding (st_size st) > 0 then tar_yield (T_bytes (replicate (tar_padding (st_size st)) 0)) s3 else s3)"
proof -
  have b: "ts_buffers (linked_first path st s) = ts_buffers s" by (simp add: linked_first_def)
  have eqn: "tar_file path mode mtime st rd s =
     bind_res (yield_header \<lparr>ti_name = path, ti_mode = mode, ti_size = int (st_size st), ti_mtime = mtime,
       ti_type = CHR ''0'', ti_linkName = None\<rparr> (linked_first path st s)) (\<lambda>s.
     let (offset, s) = tar_read_loop rd (length (ts_buffers s)) (st_size st) 0 (s\<lparr>ts_buffers := ts_buffers s @ [[]]\<rparr>) in
     if offset \<noteq> st_size st then Inl (service_err BACKEND_ERROR (''File changed during archive: '' @ path), s)
     else Inr (if tar_padding (st_size st) > 0 then tar_yield (T_bytes (replicate (tar_padding (st_size st)) 0)) s else s))"
    unfolding tar_file_def Let_def linked_first_def link_key_def [symmetric] by (simp only: none option.case)
  obtain h where h: "tarHeader \<lparr>ti_name = path, ti_mode = mode, ti_size = int (st_size st), ti_mtime = mtime,
        ti_type = CHR ''0'', ti_linkName = None\<rparr> = Inr h"
    and k: "(let (offset, s) = tar_read_loop rd (length (ts_buffers s)) (st_size st) 0
        ((tar_yield (T_bytes h) (linked_first path st s))\<lparr>ts_buffers := ts_buffers s @ [[]]\<rparr>) in
     if offset \<noteq> st_size st then Inl (service_err BACKEND_ERROR (''File changed during archive: '' @ path), s)
     else Inr (if tar_padding (st_size st) > 0 then tar_yield (T_bytes (replicate (tar_padding (st_size st)) 0)) s else s)) = Inr s'"
    using run [unfolded eqn yield_header_def bind_res_Inr at_state_iff] by (auto simp: b simp del: split_paired_Ex)
  obtain off s3 where loop: "tar_read_loop rd (length (ts_buffers s)) (st_size st) 0
        ((tar_yield (T_bytes h) (linked_first path st s))\<lparr>ts_buffers := ts_buffers s @ [[]]\<rparr>) = (off, s3)" by force
  have "off = st_size st" using k by (simp add: loop split: if_splits)
  with k loop that [OF h, of s3] show thesis by simp
qed

lemma tar_file_recorded:
  assumes run: "tar_file (en_relative e) (st_mode st AND 4095) (st_mtimeNs st sdiv 1000000000) st rd s = Inr s'"
    and e: "en_node e = N_file st rd" "archivable e" "links_clean (ts_hardLinks s)"
  shows "record_added (entry_member (ts_hardLinks s) e) s s' \<and> ts_hardLinks s' = entry_links (ts_hardLinks s) e"
proof -
  let ?l = "ts_hardLinks s" and ?c = "content rd (st_size st)"
  have c: "length ?c = st_size st" "\<And>a m. rd a m = take m (drop a ?c)"
    and names: "en_relative e \<noteq> []" "NUL \<notin> set (en_relative e)" "0 \<le> st_mtimeNs st"
    using e(1,2) by (auto simp: archivable_def stable_def)
  show ?thesis
  proof (cases "if st_nlink st > 1 then truthy (?l (link_key st)) else None")
    case (Some t)
    then have t: "st_nlink st > 1" "?l (link_key st) = Some t" by (simp_all split: if_splits)
    then have "NUL \<notin> set t" using e(3) unfolding links_clean_def by blast
    then show ?thesis
      using yield_header_recorded [where name = "en_relative e" and st = st and ty = "CHR ''1''" and l = "Some t" and s = s and s' = s'] run t e(1) names Some
      by (simp add: tar_file_def link_key_def)
  next
    case None
    have "?l (link_key st) \<noteq> Some []" using e(3) unfolding links_clean_def by blast
    with None have fresh: "\<not> (st_nlink st > 1 \<and> ?l (link_key st) \<noteq> None)"
      by (auto simp: truthy_None split: if_splits)
    obtain h s3 where h: "tarHeader \<lparr>ti_name = en_relative e, ti_mode = st_mode st AND 4095, ti_size = int (st_size st),
        ti_mtime = st_mtimeNs st sdiv 1000000000, ti_type = CHR ''0'', ti_linkName = None\<rparr> = Inr h"
      and loop: "tar_read_loop rd (length (ts_buffers s)) (st_size st) 0
        ((tar_yield (T_bytes h) (linked_first (en_relative e) st s))\<lparr>ts_buffers := ts_buffers s @ [[]]\<rparr>) = (st_size st, s3)"
        (is "tar_read_loop _ _ _ _ ?s2 = _")
      and s': "s' = (if tar_padding (st_size st) > 0 then tar_yield (T_bytes (replicate (tar_padding (st_size st)) 0)) s3 else s3)"
      by (rule tar_file_new [OF None run])
    have s1: "ts_hardLinks (linked_first (en_relative e) st s) = entry_links ?l e"
        "ts_yields (linked_first (en_relative e) st s) = ts_yields s"
      using fresh e(1) by (auto simp: linked_first_def)
    have "yielded (ts_yields s3) = yielded (ts_yields ?s2) @ ?c \<and> ts_hardLinks s3 = ts_hardLinks ?s2"
      using tar_read_loop_yields [OF loop refl _ _ c] by simp
    then have y: "yielded (ts_yields s') = yielded (ts_yields s) @ record_of h ?c" "ts_hardLinks s' = entry_links ?l e"
      using s' s1 c(1) by (auto simp: record_of_def)
    note read = archive_header [OF h names(2) _ names(3), where c = ?c]
    then have "stored_size h = length ?c" using stored_size_read [of h ?c] c(1) by (auto simp: archive_member_def)
    moreover have "entry_member ?l e = archive_member (en_relative e) st (CHR ''0'') [] ?c" using e(1) fresh by auto
    ultimately show ?thesis unfolding record_added_def using y read c(1)
      by (intro conjI exI [of _ h] exI [of _ ?c]) auto
  qed
qed

lemma tar_entry_recorded:
  assumes run: "tar_entry e s = Inr s'" and e: "archivable e" "links_clean (ts_hardLinks s)"
  shows "record_added (entry_member (ts_hardLinks s) e) s s' \<and> ts_hardLinks s' = entry_links (ts_hardLinks s) e"
proof (cases "en_node e")
  case (N_dir st cs)
  then show ?thesis using run e
    yield_header_recorded [where name = "en_relative e @ ''/''" and st = st and ty = "CHR ''5''" and l = None and s = s and s' = s']
    by (simp add: tar_entry_def Let_def archivable_def NUL_def)
next
  case (N_symlink st t)
  then show ?thesis using run e
    yield_header_recorded [where name = "en_relative e" and st = st and ty = "CHR ''2''" and l = "Some t" and s = s and s' = s']
    by (simp add: tar_entry_def Let_def archivable_def)
next
  case (N_file st rd)
  then show ?thesis using run e tar_file_recorded [where st = st and rd = rd] by (simp add: tar_entry_def Let_def)
qed (use run in \<open>simp_all add: tar_entry_def Let_def\<close>)

lemma links_clean_entry: "links_clean l \<Longrightarrow> archivable e \<Longrightarrow> links_clean (entry_links l e)"
  by (auto simp: links_clean_def archivable_def split: node.splits if_splits)

lemma tar_entries_recorded:
  "tar_entries es s = Inr s' \<Longrightarrow> list_all archivable es \<Longrightarrow> links_clean (ts_hardLinks s) \<Longrightarrow>
   \<exists>bs. yielded (ts_yields s') = yielded (ts_yields s) @ bs \<and>
     (\<forall>rest. untar (bs @ rest) = map_option (\<lambda>ms. entry_members (ts_hardLinks s) es @ ms) (untar rest))"
proof (induction es arbitrary: s)
  case Nil
  then show ?case by (auto simp: option.map_ident)
next
  case (Cons e es)
  then obtain t where t: "tar_entry e s = Inr t" "tar_entries es t = Inr s'" by (auto simp: res_simps)
  have e: "archivable e" "list_all archivable es" using Cons(3) by simp_all
  obtain h c where r: "yielded (ts_yields t) = yielded (ts_yields s) @ record_of h c" "length h = 512"
      "header_valid h" "stored_size h = length c" "header_member h c = entry_member (ts_hardLinks s) e"
    and l: "ts_hardLinks t = entry_links (ts_hardLinks s) e"
    using tar_entry_recorded [OF t(1) e(1) Cons(4)] unfolding record_added_def by blast
  obtain bs where bs: "yielded (ts_yields s') = yielded (ts_yields t) @ bs"
      "\<forall>rest. untar (bs @ rest) = map_option (\<lambda>ms. entry_members (entry_links (ts_hardLinks s) e) es @ ms) (untar rest)"
    using Cons(1) [OF t(2) e(2)] links_clean_entry [OF Cons(4) e(1)] l by metis
  have "untar ((record_of h c @ bs) @ rest) =
      map_option (\<lambda>ms. entry_members (ts_hardLinks s) (e # es) @ ms) (untar rest)" for rest
    using untar_record [OF r(2-4), of "bs @ rest"] bs(2) r(5) by (simp add: option.map_comp comp_def)
  then show ?case using r(1) bs(1) by (intro exI [of _ "record_of h c @ bs"]) simp
qed

section \<open>When a view is looked at\<close>

text \<open>
  No chunk yielded before changes: it is the same in the buffers of every later chunk and in
  the buffers now. So it does not matter when the reader looks at it.
\<close>

definition chunk_stays :: "tar_chunk \<times> byte list list \<Rightarrow> byte list list \<Rightarrow> bool" where
  "chunk_stays y buffers \<longleftrightarrow> chunk_bytes buffers (fst y) = chunk_bytes (snd y) (fst y) \<and>
     (case fst y of T_view b n \<Rightarrow> b < length buffers | _ \<Rightarrow> True)"

definition calm :: "tar_state \<Rightarrow> bool" where
  "calm s \<longleftrightarrow> sorted_wrt (\<lambda>y z. chunk_stays y (snd z)) (ts_yields s) \<and> (\<forall>y\<in>set (ts_yields s). chunk_stays y (ts_buffers s))"

lemma chunk_stays_now: "chunk_stays (c, bs) bs \<longleftrightarrow> (case c of T_view b n \<Rightarrow> b < length bs | _ \<Rightarrow> True)"
  by (simp add: chunk_stays_def)

lemma calm_streamed: "sorted_wrt (\<lambda>y z. chunk_stays y (snd z)) ys \<Longrightarrow> concat (streamed lates ys) = yielded ys"
proof (induction ys arbitrary: lates)
  case (Cons y ys)
  obtain c bs where y: "y = (c, bs)" by force
  have "hd (streamed lates (y # ys)) = chunk_bytes bs c"
    using Cons(2) by (cases ys) (auto simp: y chunk_stays_def split: list.splits bool.splits)
  then show ?case using Cons by (simp add: y yielded_def)
qed (simp add: yielded_def)

lemma streamed_at_once: "concat (streamed [] ys) = yielded ys"
  by (induction "[] :: bool list" ys rule: streamed.induct) (auto simp: yielded_def)

lemma calm_yield:
  "calm s \<Longrightarrow> (case c of T_view b n \<Rightarrow> b < length (ts_buffers s) | _ \<Rightarrow> True) \<Longrightarrow> calm (tar_yield c s)"
  by (auto simp: calm_def tar_yield_def sorted_wrt_append chunk_stays_now)

lemma calm_new_buffer: "calm s \<Longrightarrow> calm (s\<lparr>ts_buffers := ts_buffers s @ [bs]\<rparr>)"
  by (auto simp: calm_def chunk_stays_def nth_append split: tar_chunk.splits)

lemma calm_hardLinks: "calm (s\<lparr>ts_hardLinks := l\<rparr>) = calm s" by (simp add: calm_def)

text \<open>A file that fits into the buffer is read once.\<close>

definition fits_buffer :: "entry \<Rightarrow> bool" where
  "fits_buffer e \<longleftrightarrow> (case en_node e of N_file st rd \<Rightarrow> st_size st \<le> 64 * 1024 | _ \<Rightarrow> True)"

lemma tar_read_loop_calm:
  assumes "len \<le> 64 * 1024" "\<And>a m. rd a m = take m (drop a c)" "length c = len" "calm s"
    and "tar_read_loop rd (length (ts_buffers s)) len 0 (s\<lparr>ts_buffers := ts_buffers s @ [[]]\<rparr>) = (off, s')"
  shows "calm s'"
proof (cases "len = 0")
  case True
  then show ?thesis using assms(4,5) by (subst (asm) tar_read_loop.simps) (auto intro: calm_new_buffer)
next
  case False
  let ?b = "length (ts_buffers s)" and ?t = "s\<lparr>ts_buffers := ts_buffers s @ [[]]\<rparr>"
  have rd: "rd 0 (min (64 * 1024) (len - 0)) = c" using assms(1-3) by simp
  have fill: "fill ?b c ?t = s\<lparr>ts_buffers := ts_buffers s @ [c]\<rparr>" by (simp add: fill_def blit_def list_update_append)
  have "tar_read_loop rd ?b len 0 ?t = tar_read_loop rd ?b len len (tar_yield (T_view ?b len) (fill ?b c ?t))"
    using False assms(3) rd by (subst tar_read_loop.simps) (auto simp: Let_def)
  also have "\<dots> = (len, tar_yield (T_view ?b len) (fill ?b c ?t))" by (subst tar_read_loop.simps) simp
  finally have "s' = tar_yield (T_view ?b len) (s\<lparr>ts_buffers := ts_buffers s @ [c]\<rparr>)" using assms(5) fill by simp
  then show ?thesis using calm_new_buffer [OF assms(4)] by (auto intro: calm_yield)
qed

lemma yield_header_calm: "yield_header i s = Inr s' \<Longrightarrow> calm s \<Longrightarrow> calm s'"
  by (auto simp: yield_header_def res_simps intro: calm_yield)

lemma tar_file_calm:
  assumes run: "tar_file path mode mtime st rd s = Inr s'" and s: "calm s"
    and rd: "stable (N_file st rd)" "st_size st \<le> 64 * 1024"
  shows "calm s'"
proof (cases "if st_nlink st > 1 then truthy (ts_hardLinks s (link_key st)) else None")
  case (Some t)
  then show ?thesis using run s by (auto simp: tar_file_def link_key_def intro: yield_header_calm split: if_splits)
next
  case None
  obtain h s3 where loop: "tar_read_loop rd (length (ts_buffers s)) (st_size st) 0
        ((tar_yield (T_bytes h) (linked_first path st s))\<lparr>ts_buffers := ts_buffers s @ [[]]\<rparr>) = (st_size st, s3)"
      and s': "s' = (if tar_padding (st_size st) > 0 then tar_yield (T_bytes (replicate (tar_padding (st_size st)) 0)) s3 else s3)"
    by (rule tar_file_new [OF None run])
  let ?t = "tar_yield (T_bytes h) (linked_first path st s)"
  have "calm ?t" using s by (auto simp: linked_first_def calm_hardLinks intro: calm_yield)
  moreover have "ts_buffers ?t = ts_buffers s" by (simp add: linked_first_def)
  ultimately have "calm s3"
    using tar_read_loop_calm [OF rd(2), of rd "content rd (st_size st)" ?t] loop rd(1) by (auto simp: stable_def)
  then show ?thesis by (auto simp: s' intro: calm_yield)
qed

lemma tar_entry_calm: "tar_entry e s = Inr s' \<Longrightarrow> calm s \<Longrightarrow> stable (en_node e) \<Longrightarrow> fits_buffer e \<Longrightarrow> calm s'"
  by (cases "en_node e") (auto simp: tar_entry_def Let_def fits_buffer_def intro: yield_header_calm tar_file_calm)

lemma tar_entries_calm:
  "tar_entries es s = Inr s' \<Longrightarrow> calm s \<Longrightarrow> list_all archivable es \<Longrightarrow> list_all fits_buffer es \<Longrightarrow> calm s'"
  by (induction es arbitrary: s) (auto simp: res_simps archivable_def dest: tar_entry_calm)

section \<open>The archive of a workspace\<close>

lemma workspace_archive:
  assumes run: "workspaceTarStream lates cs = (out, Inr ())" and es: "tar_collect cs = Inr es"
    and ok: "list_all archivable es" and early: "lates = [] \<or> list_all fits_buffer es"
  shows "untar (concat out) = Some (entry_members (\<lambda>_. None) es)"
proof -
  obtain s where s: "tar_entries es tar_start = Inr s"
    and out: "out = streamed lates (ts_yields (tar_yield (T_bytes end_blocks) s))"
    using run es by (auto simp: workspaceTarStream_def tar_chunks_def end_blocks_def bind_res_Inr split: sum.splits)
  have none: "links_clean (ts_hardLinks tar_start)" by (simp add: links_clean_def tar_start_def)
  have "concat out = yielded (ts_yields (tar_yield (T_bytes end_blocks) s))"
  proof (cases "lates = []")
    case True
    then show ?thesis by (simp add: out streamed_at_once)
  next
    case False
    have "calm tar_start" by (simp add: calm_def tar_start_def)
    then have "calm (tar_yield (T_bytes end_blocks) s)" using tar_entries_calm [OF s _ ok] early False by (auto intro: calm_yield)
    then show ?thesis using calm_streamed out by (simp add: calm_def)
  qed
  then have c: "concat out = yielded (ts_yields s) @ end_blocks" by simp
  from tar_entries_recorded [OF s ok none] c show ?thesis
    by (auto simp: tar_start_def yielded_def untar_end)
qed

end
