(* ===== verification/Docker_Inv.thy ===== *)
theory Docker_Inv
  imports Docker Guest_Inv Tar_Inv
begin

text \<open>
  What the operations of the Docker backend leave behind: the requests a restore sends, and that
  creating a container returns.
\<close>

section \<open>The clock ends the waiting\<close>

lemma restore_wait_returns:
  fixes env :: "'w docker_env"
  assumes "clock_goes_on env"
  shows "\<exists>y. restore_wait env t x deadline s = Some y"
proof (rule deadline_induct [where clock = "clock_of env" and deadline = deadline])
  fix s :: "'w docker"
  assume IH: "\<And>s' :: 'w docker. clock_of env s < deadline \<Longrightarrow> clock_of env s < clock_of env s' \<Longrightarrow> \<exists>y. restore_wait env t x deadline s' = Some y"
  define u where "u = snd (send_io env t (A_Poll x) s)"
  have clock: "clock_of env s \<le> clock_of env u" using send_io_clock [OF assms] by (simp add: u_def)
  show "\<exists>y. restore_wait env t x deadline s = Some y"
  proof (cases "restore_verdict (fst (send_io env t (A_Poll x) s)) = None \<and> clock_of env u < deadline")
    case False
    then show ?thesis by (subst restore_wait.simps) (auto simp: Let_def u_def)
  next
    case True
    have "clock_of env u < clock_of env (pause env 10 u)" by (intro pause_clock [OF assms]) simp
    then have "\<exists>y. restore_wait env t x deadline (pause env 10 u) = Some y" using IH True clock by simp
    then show ?thesis using True by (subst restore_wait.simps) (simp add: Let_def u_def)
  qed
qed

lemma restoreWorkspace_returns: "clock_goes_on env \<Longrightarrow> \<exists>y. restoreWorkspace env t p s = Some y"
  unfolding restoreWorkspace_def Let_def
  by (intro run_bind_returns run_finally_returns returns_returns restore_wait_returns)

lemma docker_create_returns: "clock_goes_on env \<Longrightarrow> \<exists>y. docker_create env i s = Some y"
  unfolding docker_create_def
  by (intro run_bind_returns run_on_error_returns returns_returns restoreWorkspace_returns)

section \<open>The requests of a restore\<close>

lemma length_sextets: "length (sextets bs) = (4 * length bs + 2) div 3"
  by (induction bs rule: sextets.induct) simp_all

lemma third_round: "(5 + n) div 3 = Suc (Suc (Suc n) div 3)" for n :: nat
  by presburger

lemma length_base64: "length (base64 bs) = (length bs + 2) div 3 * 4"
  by (induction bs rule: sextets.induct) (simp_all add: base64_def Suc3_eq_add_3 third_round)

lemma sextets_append: "length a mod 3 = 0 \<Longrightarrow> sextets (a @ b) = sextets a @ sextets b"
  by (induction a rule: sextets.induct) simp_all

lemma base64_append:
  assumes "length a mod 3 = 0"
  shows "base64 (a @ b) = base64 a @ base64 b"
proof -
  have "(length a + length b) mod 3 = length b mod 3" using assms by (metis mod_add_left_eq add_0)
  then show ?thesis using assms by (simp add: base64_def sextets_append [OF assms])
qed

lemma write_chunks_file:
  "write_chunks env path cs s = (Inr u, s') \<Longrightarrow> stored_file (gs_fs s) (path_parts path) = Some bs \<Longrightarrow>
   stored_file (gs_fs s') (path_parts path) = Some (bs @ concat cs) \<and> gs_world s' = gs_world s"
proof (induction cs arbitrary: s bs)
  case (Cons c cs)
  then obtain s1 where s1: "file_io env (Op_append (path_parts path) c) s = (Inr (), s1)" "write_chunks env path cs s1 = (Inr u, s')"
    by (auto simp: io_simps)
  from Cons(1) [OF s1(2) file_appended [OF s1(1) Cons(3)]] file_io_kept [OF s1(1)] show ?case by simp
qed (simp add: io_simps)

lemma write_archive_file:
  assumes "write_archive env path p s = (Inr n, s')" "stored_file (gs_fs s) (path_parts path) = Some []"
  shows "\<exists>cs out. dv_tree env p = Inr cs \<and> workspaceTarStream (dv_lates env) cs = (out, Inr ()) \<and>
    stored_file (gs_fs s') (path_parts path) = Some (concat out) \<and> n = length (concat out) \<and> gs_world s' = gs_world s"
proof -
  obtain cs where cs: "dv_tree env p = Inr cs" using assms(1) by (auto simp: write_archive_def io_simps)
  obtain out e where out: "workspaceTarStream (dv_lates env) cs = (out, e)" by force
  have "write_chunks env path out s = (Inr (), s')" "e = Inr ()" "n = length (concat out)"
    using assms(1) cs out by (auto simp: write_archive_def io_simps)
  then show ?thesis using cs out write_chunks_file assms(2) by fastforce
qed

lemma restore_send_pieces:
  assumes "restore_send env t x source whole offset s = (Inr n, s')" "recording env send"
    and "whole = length source" "offset \<le> whole" "offset mod 3 = 0"
  shows "\<exists>ps. requests s' = requests s @ map (A_Write x) ps \<and> concat ps = base64 (drop offset source) \<and> gs_fs s' = gs_fs s"
  using assms
proof (induction env t x source whole offset s rule: restore_send.induct)
  case (1 env t x source whole offset s)
  show ?case
  proof (cases "offset < whole")
    case False
    then have "s' = s" using 1(2) by (subst (asm) restore_send.simps) simp
    then show ?thesis using False 1(4,5) by (intro exI [of _ "[]"]) (simp add: base64_def)
  next
    case True
    let ?b = "take (min (192 * 1024) (whole - offset)) (drop offset source)"
    have b: "?b \<noteq> []" "length ?b = min (192 * 1024) (whole - offset)" using True 1(4) by auto
    have step: "restore_send env t x source whole offset s =
        (case io_bind (send_io env t (A_Write x (base64 ?b))) (accepted ''Workspace restore write failed'') s of
            (Inl e, s) \<Rightarrow> (Inl e, s)
          | (Inr _, s) \<Rightarrow> restore_send env t x source whole (offset + length ?b) s)"
      by (subst restore_send.simps) (simp only: True b(1) Let_def if_True if_False)
    obtain q u where acc: "io_bind (send_io env t (A_Write x (base64 ?b))) (accepted ''Workspace restore write failed'') s = (q, u)"
      by force
    then have q: "q = Inr ()" and rest: "restore_send env t x source whole (offset + length ?b) u = (Inr n, s')"
      using 1(2) unfolding step by (cases q; simp)+
    note acc = acc [unfolded q]
    from acc obtain r where u: "send_io env t (A_Write x (base64 ?b)) s = (Inr r, u)"
      by (auto simp only: io_bind_Inr accepted_def io_require_iff)
    note log = send_io_request [OF 1(3) u(1)] send_io_kept [OF u(1)]
    have split: "drop offset source = ?b @ drop (offset + length ?b) source"
    proof -
      have "take (length ?b) (drop offset source) = ?b" using b(2) by simp
      moreover have "drop (length ?b) (drop offset source) = drop (offset + length ?b) source" by (simp only: drop_drop add.commute)
      ultimately show ?thesis using append_take_drop_id [of "length ?b" "drop offset source"] by simp
    qed
    show ?thesis
    proof (cases "192 * 1024 < whole - offset")
      case more: True
      then have len: "length ?b = 192 * 1024" using b(2) by simp
      have "(offset + length ?b) mod 3 = 0" "offset + length ?b \<le> whole"
        unfolding len using 1(6) more by ((subst mod_add_left_eq [symmetric])?, simp)+
      from 1(1) [OF True refl b(1) acc [symmetric] refl rest 1(3,4) this(2,1)] obtain ps where ps: "requests s' = requests u @ map (A_Write x) ps"
          "concat ps = base64 (drop (offset + length ?b) source)" "gs_fs s' = gs_fs u" by blast
      have "base64 (drop offset source) = base64 ?b @ base64 (drop (offset + length ?b) source)"
        by (subst split, rule base64_append) (subst len, simp)
      then show ?thesis using ps log by (intro exI [of _ "base64 ?b # ps"]) simp
    next
      case False
      then have len: "offset + length ?b = whole" using b(2) True by simp
      then have "s' = u" using rest by (subst (asm) restore_send.simps) simp
      moreover have "?b = drop offset source" using len 1(4) True by simp
      ultimately show ?thesis using log by (intro exI [of _ "[base64 ?b]"]) simp
    qed
  qed
qed

lemma restore_wait_polls:
  assumes run: "restore_wait env t x deadline s = Some y" and rec: "recording env send"
  shows "\<exists>n. requests (snd y) = requests s @ replicate n (A_Poll x) \<and> gs_fs (snd y) = gs_fs s"
proof -
  have "recording env send \<longrightarrow> (\<exists>n. requests (snd y) = requests s @ replicate n (A_Poll x) \<and> gs_fs (snd y) = gs_fs s)"
  proof (rule restore_wait.raw_induct [where P = "\<lambda>env t x deadline s y. recording env send \<longrightarrow>
      (\<exists>n. requests (snd y) = requests s @ replicate n (A_Poll x) \<and> gs_fs (snd y) = gs_fs s)"
      and xa = "((((env, t), x), deadline), s)" and y = y, unfolded prod.case, OF _ run])
    fix wait env t x deadline s and y :: "unit res \<times> ('a \<times> agent_request list) docker"
    assume IH: "\<And>env t x deadline s y. wait env t x deadline s = Some y \<Longrightarrow> recording env send \<longrightarrow>
        (\<exists>n. requests (snd y) = requests s @ replicate n (A_Poll x) \<and> gs_fs (snd y) = gs_fs s)"
      and body: "(let polled = send_io env t (A_Poll x) s; verdict = restore_verdict (fst polled); s = snd polled in
        if verdict \<noteq> None then Some (the verdict, s)
        else if gv_clock env (gs_world s) \<ge> deadline
        then Some (Inl (service_err BACKEND_ERROR ''Workspace restore timed out''), s)
        else wait env t x deadline (pause env 10 s)) = Some y"
    let ?u = "snd (send_io env t (A_Poll x) s)"
    show "recording env send \<longrightarrow>
        (\<exists>n. requests (snd y) = requests s @ replicate n (A_Poll x) \<and> gs_fs (snd y) = gs_fs s)"
    proof
      assume rec: "recording env send"
      have u: "requests ?u = requests s @ [A_Poll x]" by (rule send_io_logged [OF rec])
      consider "snd y = ?u" | "wait env t x deadline (pause env 10 ?u) = Some y"
        using body by (auto simp: Let_def split: if_splits)
      then show "\<exists>n. requests (snd y) = requests s @ replicate n (A_Poll x) \<and> gs_fs (snd y) = gs_fs s"
      proof cases
        case 1
        then show ?thesis using u by (intro exI [of _ 1]) simp
      next
        case 2
        have p: "requests (pause env 10 ?u) = requests ?u" "gs_fs (pause env 10 ?u) = gs_fs s"
          using rec by (simp_all add: pause_def requests_def recording_def del: split_paired_All)
        from IH [OF 2] rec obtain n where "requests (snd y) = requests (pause env 10 ?u) @ replicate n (A_Poll x)"
            "gs_fs (snd y) = gs_fs (pause env 10 ?u)" by blast
        then show ?thesis using u p by (intro exI [of _ "Suc n"]) simp
      qed
    qed
  qed
  then show ?thesis using rec by blast
qed

lemma restore_transfer_requests:
  assumes run: "restore_transfer env t x path n s = (Inr u, s')" and rec: "recording env send"
    and kept: "stored_file (gs_fs s) (path_parts path) = Some bytes" "n = length bytes"
  shows "\<exists>ps. requests s' = requests s @ restore_exec x n # map (A_Write x) ps \<and> concat ps = base64 bytes"
proof -
  obtain started s1 source s2 where s1: "send_io env t (restore_exec x n) s = (Inr started, s1)"
    and s2: "open_file path s1 = (Inr source, s2)" "restore_send env t x source n 0 s2 = (Inr n, s')"
    using run by (auto simp: restore_transfer_def accepted_def io_simps split: if_splits)
  have source: "source = bytes" "s2 = s1"
    using s2(1) kept(1) send_io_kept [OF s1] by (auto simp: open_file_def stored_file_def split: option.splits body.splits)
  then show ?thesis
    using restore_send_pieces [OF s2(2) rec] kept(2) send_io_request [OF rec s1] by auto
qed

lemma restoreWorkspace_requests:
  assumes run: "restoreWorkspace env t p s = Some (Inr u, s')" and rec: "recording env send"
  shows "\<exists>cs out x ps n. dv_tree env p = Inr cs \<and> workspaceTarStream (dv_lates env) cs = (out, Inr ()) \<and>
    requests s' = requests s @ restore_exec x (length (concat out)) # map (A_Write x) ps @ replicate n (A_Poll x) \<and>
    concat ps = base64 (concat out)"
proof -
  let ?staging = "path_join [cf_dataDir (dv_config env), ''staging'']"
  obtain s1 i s2 s3 n s4 x s5 s6 s7 where s1: "file_io env (Op_mkdirp (path_parts ?staging) 448) s = (Inr (), s1)"
    and s2: "new_uuid env s1 = (Inr i, s2)"
    and s3: "file_io env (Op_write (path_parts (path_join [?staging, i @ ''.tar''])) [] 384) s2 = (Inr (), s3)"
    and s4: "write_archive env (path_join [?staging, i @ ''.tar'']) p s3 = (Inr n, s4)"
    and s5: "new_uuid env s4 = (Inr x, s5)"
    and s6: "restore_transfer env t x (path_join [?staging, i @ ''.tar'']) n s5 = (Inr (), s6)"
    and s7: "restore_wait env t x (clock_of env s6 + 30000) s6 = Some (Inr (), s7)"
    and s': "file_io env (Op_rm (path_parts (path_join [?staging, i @ ''.tar'']))) s7 = (Inr (), s')"
    using run unfolding restoreWorkspace_def Let_def
    by (auto simp: run_bind_Some returns_iff now_io_def dest!: run_finally_Inr)
  obtain cs out where out: "dv_tree env p = Inr cs" "workspaceTarStream (dv_lates env) cs = (out, Inr ())"
      "stored_file (gs_fs s4) (path_parts (path_join [?staging, i @ ''.tar''])) = Some (concat out)"
      "n = length (concat out)" "gs_world s4 = gs_world s3"
    using write_archive_file [OF s4 file_new [OF s3]] by blast
  have uuid: "requests v = requests w" "gs_fs v = gs_fs w" if "new_uuid env w = (Inr j, v)" for v w j
    using that rec by (auto simp: io_simps requests_def recording_def simp del: split_paired_All)
  have log: "requests s5 = requests s"
    using uuid [OF s2] uuid [OF s5] file_io_kept [OF s1] file_io_kept [OF s3] out(5) by (simp add: requests_def)
  obtain ps where ps: "requests s6 = requests s5 @ restore_exec x n # map (A_Write x) ps" "concat ps = base64 (concat out)"
    using restore_transfer_requests [OF s6 rec] uuid [OF s5] out(3,4) by auto
  obtain k where "requests s7 = requests s6 @ replicate k (A_Poll x)" using restore_wait_polls [OF s7 rec] by auto
  then have "requests s' = requests s @ restore_exec x n # map (A_Write x) ps @ replicate k (A_Poll x)"
    using ps(1) log file_io_kept [OF s'] by (simp add: requests_def)
  then show ?thesis using out ps(2) by blast
qed

end
