(* ===== verification/Props_Docker.thy ===== *)
theory Props_Docker
  imports Docker_Inv
begin

text \<open>
  The properties of the Docker backend and of the archive that restores a workspace, each with a
  concrete run at which it applies.
\<close>

section \<open>A guest for the concrete runs\<close>

text \<open>Its clock moves with every pause, it accepts every request, and its snapshots are empty.\<close>

definition zero_digest :: digest where
  "zero_digest = digest_of (\<lambda>_. replicate 64 (CHR ''0'')) []"

fun guest_answer :: "agent_request \<Rightarrow> agent_response" where
  "guest_answer (A_SnapshotBegin i) = empty_response\<lparr>ar_size := Some (Num 0), ar_digest := Some zero_digest\<rparr>"
| "guest_answer (A_Poll x) = empty_response\<lparr>ar_state := Some X_COMPLETED, ar_exitCode := Some 0\<rparr>"
| "guest_answer q = empty_response"

definition docker_example :: "(int \<times> agent_request list) docker_env" where
  "docker_example = \<lparr>gv_send = (\<lambda>_. logged (\<lambda>q. io_return (guest_answer q))), gv_clock = fst,
     gv_sleep = (\<lambda>ms (n, l). (n + ms, l)), gv_uuid = (\<lambda>w. (''u'', w)), gv_io = (\<lambda>_. Inr ()),
     gv_sha = (\<lambda>_. replicate 64 (CHR ''0'')),
     dv_config = \<lparr>cf_dataDir = ''/d'', cf_host = [], cf_port = 0, cf_defaultBackend = Domain.Docker,
       cf_dockerSocket = [], cf_maxOutputBytes = 0, cf_firecrackerBin = None, cf_jailerBin = None, cf_agentArtifact = None,
       cf_runtimeImage = None, cf_firecrackerKernel = None, cf_firecrackerRootfs = None, cf_authToken = None\<rparr>,
     dv_fetch = (\<lambda>_ _. io_throw (PlainError [])), dv_connect = (\<lambda>_. io_throw (PlainError [])),
     dv_close = (\<lambda>_ w. w), dv_tree = (\<lambda>_. Inr []), dv_lates = []\<rparr>"

definition bare_fs :: fs where
  "bare_fs = \<lparr>f_names = [[] \<mapsto> 0, [''d''] \<mapsto> 0, [''d'', ''staging''] \<mapsto> 0], f_inodes = (\<lambda>_. \<lparr>i_body = B_dir, i_mode = 448, i_mtime = None\<rparr>), f_next = 1\<rparr>"

definition docker_start :: "(int \<times> agent_request list) docker" where
  "docker_start = (new_docker (0, []) bare_fs)\<lparr>dk_transports := [''c'' \<mapsto> 7],
     gs_executions := [(''e'', \<lparr>de_transport = 7, de_startedAt = 0, de_state = X_RUNNING, de_exitCode = None,
       de_finishedAt = None, de_output = [], de_originalBytes = 0, de_outputOmittedBytes = 0\<rparr>)]\<rparr>"

definition docker_handle :: backend_handle where
  "docker_handle = \<lparr>h_backend = Domain.Docker, h_instanceId = ''i'', h_opaqueId = ''c'', h_workspacePath = ''/w''\<rparr>"

lemma docker_example_recording: "recording docker_example (\<lambda>_ q. io_return (guest_answer q))"
  by (simp add: recording_def docker_example_def)

lemma docker_example_clock: "clock_goes_on docker_example"
  by (auto simp: clock_goes_on_def docker_example_def logged_def io_return_def)

section \<open>The attach stream\<close>

text \<open>C31: what the socket of a container delivers is understood, however it is cut. When the bytes
  are an accepted HTTP upgrade (unless the handshake is over) followed by Docker frames, the
  transport is connected and ready, and if the payloads of the output stream make up answers of
  the agent, as many as are awaited or fewer, the oldest requests are settled with them in order.
  What the container writes to its other streams has no effect.\<close>

theorem docker_stream_is_demultiplexed:
  assumes "if at_connected a then hello = [] else at_handshake a = [] \<and>
      (\<exists>h. hello = h @ bytes_of (CRLF @ CRLF) \<and> index_of (bytes_of (CRLF @ CRLF)) hello = Some (length h) \<and>
        upgrade_accepted (string_of h))"
    and "at_frames a = []" "at_channel a = Some ch" "\<not> ch_closed ch" "ch_buffer ch = []"
    and "\<And>f. f \<in> set fs \<Longrightarrow> length (snd f) < 2 ^ 32"
    and "concat (stdout_of fs) = concat (map frame_of rs)" "\<And>r. r \<in> set rs \<Longrightarrow> length r \<le> max_frame"
    and "length rs \<le> length (ch_pending ch)"
    and "concat (c # cs) = hello @ concat (map docker_frame fs)"
  shows "foldl (onData parse) a (c # cs) =
    (if at_connected a then a else settle_ready (Inr ()) (a\<lparr>at_handshake := [], at_connected := True\<rparr>))
      \<lparr>at_channel := Some (ch\<lparr>ch_pending := drop (length rs) (ch_pending ch),
        ch_settled := ch_settled ch @ zip (ch_pending ch) (map parse rs)\<rparr>)\<rparr>"
proof -
  have "steady a" using assms(2) by (simp add: steady_def)
  then have "foldl (onData parse) a (c # cs) = onData parse a (concat (c # cs))"
    using attach_stream.feed_chunks [of a parse c cs] by simp
  also have "concat (c # cs) = hello @ concat (map docker_frame fs)" by (rule assms(10))
  finally show ?thesis using onData_frames [OF assms(1-9)] by simp
qed

definition example_attachment :: "byte list attachment" where
  "example_attachment = new_attachment\<lparr>at_channel := Some (new_channel\<lparr>ch_pending := [4, 5]\<rparr>)\<rparr>"

definition example_hello :: "byte list" where
  "example_hello = bytes_of (''HTTP/1.1 101'' @ CRLF @ CRLF)"

definition example_frames :: "(byte \<times> byte list) list" where
  "example_frames = [(1, [0, 0]), (2, [9]), (1, [0, 1, 8])]"

lemma docker_stream_is_demultiplexed_witness:
  "map_option ch_settled (at_channel (foldl (onData Inr) example_attachment
     [take 5 example_hello, drop 5 example_hello @ concat (map docker_frame example_frames)])) = Some [(4, Inr [8])]"
proof (subst docker_stream_is_demultiplexed [where fs = example_frames and rs = "[[8]]" and hello = example_hello
      and ch = "new_channel\<lparr>ch_pending := [4, 5]\<rparr>"])
  show "if at_connected example_attachment then example_hello = [] else at_handshake example_attachment = [] \<and>
      (\<exists>h. example_hello = h @ bytes_of (CRLF @ CRLF) \<and> index_of (bytes_of (CRLF @ CRLF)) example_hello = Some (length h) \<and>
        upgrade_accepted (string_of h))"
  proof -
    have "index_of (bytes_of (CRLF @ CRLF)) example_hello = Some 12" by code_simp
    moreover have "upgrade_accepted ''HTTP/1.1 101''" by code_simp
    moreover have "example_hello = bytes_of ''HTTP/1.1 101'' @ bytes_of (CRLF @ CRLF)" by code_simp
    ultimately show ?thesis
      by (auto simp: example_attachment_def new_attachment_def simp del: bytes_of_append intro!: exI [of _ "bytes_of ''HTTP/1.1 101''"])
  qed
  show "concat (stdout_of example_frames) = concat (map frame_of [[8]])" by code_simp
  show "concat [take 5 example_hello, drop 5 example_hello @ concat (map docker_frame example_frames)] =
      example_hello @ concat (map docker_frame example_frames)" by simp
qed (auto simp: example_attachment_def new_attachment_def new_channel_def example_frames_def max_frame_def)

section \<open>Snapshots\<close>

text \<open>C32: a snapshot is verified or leaves nothing. For both backends, and however the guest answers: when a snapshot
  succeeds its file holds exactly the bytes whose digest the result names, at most 1 GiB of them;
  when it fails there is no file at the path, if it can be removed. In both cases the guest is
  told at last that the transfer is over.\<close>

theorem snapshot_is_verified_or_removed:
  assumes "guest_snapshot b env t h destination s = (r, s')" "gv_uuid env (gs_world s) = (i, w)"
    and "path = path_join [destination, h_instanceId h @ ''-'' @ i @ ''.cfs'']" "recording env send"
  shows "last (requests s') = A_SnapshotEnd i \<and> (case r of
      Inr x \<Rightarrow> \<exists>bs d. x = \<lparr>sn_workspacePath = h_workspacePath h, sn_cfsPath = Some path, sn_treeDigest = Some d\<rparr> \<and>
        stored_file (gs_fs s') (path_parts path) = Some bs \<and> digest_of (gv_sha env) (string_of bs) = d \<and> is_digest d \<and>
        length bs \<le> SNAPSHOT_BYTES
    | Inl e \<Rightarrow> gv_io env (Op_rm (path_parts path)) = Inr () \<longrightarrow> f_names (gs_fs s') (path_parts path) = None)"
  using guest_snapshot_outcome [OF assms(1-3), of send] assms(4) by blast

lemma snapshot_is_verified_or_removed_witness:
  "last (requests (snd (guest_snapshot Domain.Docker docker_example 7 docker_handle ''/d/s'' docker_start))) = A_SnapshotEnd ''u''"
  by (rule snapshot_is_verified_or_removed [where w = "(0, [])", THEN conjunct1, OF prod.collapse [symmetric] _ refl docker_example_recording])
    (simp_all add: docker_start_def docker_example_def new_docker_def)

section \<open>Restoring a workspace\<close>




lemma end_blocks_size [simp]: "length end_blocks = 1024" "end_blocks \<noteq> []"
proof -
  show l: "length end_blocks = 1024" by (simp add: end_blocks_def)
  then show "end_blocks \<noteq> []" by auto
qed




lemma example_config [simp]:
  "cf_dataDir (dv_config docker_example) = ''/d''" "gv_io docker_example = (\<lambda>_. Inr ())" "dv_tree docker_example = (\<lambda>_. Inr [])"
  "dv_lates docker_example = []" "gv_uuid docker_example = (\<lambda>w. (''u'', w))"
  by (simp_all add: docker_example_def)





section \<open>Chunks that change in the reader's hands\<close>

lemma rd_pieces:
  assumes "\<And>i n. rd i n = take n (drop i (a @ b))" "length a = 65536" "length b = 65536"
  shows "rd 0 65536 = a" "rd 65536 65536 = b"
  using assms by simp_all

text \<open>C39: the chunks of a file that does not fit into the buffer are not stable. The generator reads
  the second piece of a file of two buffers into the buffer that the chunk with the first piece
  still shows; taking a chunk out of the stream starts the next read. So if the bytes of the first
  piece are looked at after that read, the archive contains the second piece twice and the first
  one never, with a valid header, and no error is reported.\<close>

theorem large_file_is_archived_wrong:
  assumes "\<And>i n. rd i n = take n (drop i (a @ b))" "length a = 65536" "length b = 65536"
    and "st_size st = 131072" "st_nlink st = 1" "\<not> tar_unsafe name"
    and "tarHeader \<lparr>ti_name = name, ti_mode = st_mode st AND 4095, ti_size = 131072,
        ti_mtime = st_mtimeNs st sdiv 1000000000, ti_type = CHR ''0'', ti_linkName = None\<rparr> = Inr h"
  shows "workspaceTarStream [False, True] [(name, N_file st rd)] = ([h, b, b, end_blocks], Inr ())"
proof -
  define s1 where "s1 = tar_yield (T_bytes h) tar_start"
  let ?s2 = "s1\<lparr>ts_buffers := [[]]\<rparr>"
  have rd: "rd 0 (min (64 * 1024) (131072 - 0)) = a" "rd 65536 (min (64 * 1024) (131072 - 65536)) = b"
    using rd_pieces [OF assms(1-3)] by simp_all
  have ab: "a \<noteq> []" "b \<noteq> []" using assms(2,3) by auto
  let ?s3 = "tar_yield (T_view 0 65536) (fill 0 a ?s2)"
  let ?s4 = "tar_yield (T_view 0 65536) (fill 0 b ?s3)"
  have "tar_read_loop rd 0 131072 0 ?s2 = tar_read_loop rd 0 131072 65536 ?s3"
    using rd(1) ab assms(2) by (subst tar_read_loop.simps) (simp add: Let_def)
  also have "\<dots> = tar_read_loop rd 0 131072 131072 ?s4"
    using rd(2) ab assms(3) by (subst tar_read_loop.simps) (simp add: Let_def)
  also have "\<dots> = (131072, ?s4)" by (subst tar_read_loop.simps) simp
  finally have loop: "tar_read_loop rd 0 131072 0 ?s2 = (131072, ?s4)" .
  have b0: "ts_buffers s1 = []" by (simp add: s1_def tar_start_def)
  have "tar_file name (st_mode st AND 4095) (st_mtimeNs st sdiv 1000000000) st rd tar_start = Inr ?s4"
    using assms(4,5,7) loop b0 by (simp add: tar_file_def Let_def yield_header_def s1_def tar_padding_def)
  then have "tar_chunks [(name, N_file st rd)] = Inr (tar_yield (T_bytes end_blocks) ?s4)"
    using assms(6) by (simp add: tar_chunks_def tar_collect_def sort_entries_def child_path_def Let_def tar_entry_def end_blocks_def)
  then show ?thesis using assms(2,3)
    by (simp add: workspaceTarStream_def s1_def tar_yield_def tar_start_def fill_def blit_def)
qed

definition large_stats :: stats where
  "large_stats = \<lparr>st_mode = 420, st_mtimeNs = 0, st_size = 131072, st_dev = 1, st_ino = 1, st_nlink = 1\<rparr>"

lemma small_octal: "n < 8 ^ 7 \<Longrightarrow> is_ok (octal (int n) 8)" "n < 8 ^ 11 \<Longrightarrow> is_ok (octal (int n) 12)"
  using length_oct_str [of n 7] length_oct_str [of n 11] by (simp_all add: octal_def bigint_oct_def padStart_def Let_def)

lemma is_ok_iff: "is_ok r \<longleftrightarrow> (\<exists>x. r = Inr x)" by (cases r) simp_all

lemma large_header:
  "\<exists>h. tarHeader \<lparr>ti_name = ''f'', ti_mode = st_mode large_stats AND 4095, ti_size = 131072,
     ti_mtime = st_mtimeNs large_stats sdiv 1000000000, ti_type = CHR ''0'', ti_linkName = None\<rparr> = Inr h"
proof -
  obtain m u z t where "octal 420 8 = Inr m" "octal 1000 8 = Inr u" "octal 131072 12 = Inr z" "octal 0 12 = Inr t"
    using small_octal(1) [of 420] small_octal(1) [of 1000] small_octal(2) [of 131072] small_octal(2) [of 0]
    by (auto simp: is_ok_iff)
  moreover from this have "length m = 8" "length u = 8" "length z = 12" "length t = 12"
    using octal_Inr by fastforce+
  ultimately show ?thesis
    by (simp add: tarHeader_def octal_field_def writeField_def large_stats_def Let_def)
qed

lemma large_file_is_archived_wrong_witness:
  "\<exists>h. workspaceTarStream [False, True] [(''f'', N_file large_stats (\<lambda>i n. take n (drop i (replicate 65536 0 @ replicate 65536 1))))] =
     ([h, replicate 65536 1, replicate 65536 1, end_blocks], Inr ())"
proof -
  obtain h where "tarHeader \<lparr>ti_name = ''f'', ti_mode = st_mode large_stats AND 4095, ti_size = 131072,
     ti_mtime = st_mtimeNs large_stats sdiv 1000000000, ti_type = CHR ''0'', ti_linkName = None\<rparr> = Inr h"
    using large_header by blast
  moreover have "\<not> tar_unsafe ''f''" by code_simp
  ultimately have "workspaceTarStream [False, True] [(''f'', N_file large_stats (\<lambda>i n. take n (drop i (replicate 65536 0 @ replicate 65536 1))))] =
     ([h, replicate 65536 1, replicate 65536 1, end_blocks], Inr ())"
    by (intro large_file_is_archived_wrong [where a = "replicate 65536 0"]) (simp_all only: length_replicate large_stats_def stats.simps not_False_eq_True)
  then show ?thesis by (rule exI)
qed

end
