(* ===== verification/Initramfs.thy ===== *)
theory Initramfs
  imports Tar
begin

text \<open>
  The initial file system of a virtual machine (\<open>cpioEntry\<close> and \<open>createInitramfs\<close> in
  \<open>src/backends/firecracker.ts\<close>): a newc archive with a console and the agent as the first
  process, and a reader of such archives, which finds in it what was written.
\<close>

section \<open>Writing\<close>

definition pad4 :: "nat \<Rightarrow> nat" where "pad4 n = (4 - n mod 4) mod 4"

text \<open>\<open>value.toString(16)\<close>.\<close>

definition hex_char :: "nat \<Rightarrow> char" where "hex_char d = ''0123456789abcdef'' ! d"

function hex_str :: "nat \<Rightarrow> string" where
  "hex_str n = (if n < 16 then [hex_char n] else hex_str (n div 16) @ [hex_char (n mod 16)])"
  by pat_completeness auto
termination
  by (relation "measure id") auto

declare hex_str.simps [simp del]

definition hex_field :: "nat \<Rightarrow> string" where "hex_field v = padStart 8 (CHR ''0'') (hex_str v)"

definition cpioEntry :: "string \<Rightarrow> nat \<Rightarrow> byte list \<Rightarrow> nat \<Rightarrow> nat \<Rightarrow> nat \<Rightarrow> byte list" where
  "cpioEntry name mode content inode rdevMajor rdevMinor =
     (let nameBytes = bytes_of name @ [0];
          fields = concat (map hex_field [inode, mode, 0, 0, 1, 0, length content, 0, 0, rdevMajor, rdevMinor,
            length nameBytes, 0]);
          header = bytes_of (''070701'' @ fields)
      in header @ nameBytes @ replicate (pad4 (length header + length nameBytes)) 0 @ content @
         replicate (pad4 (length content)) 0)"

definition initramfs :: "byte list \<Rightarrow> byte list" where
  "initramfs agent =
     cpioEntry ''dev'' 0x41ED [] 1 0 0 @
     cpioEntry ''dev/console'' 0x2180 [] 2 5 1 @
     cpioEntry ''init'' 0x81ED agent 3 0 0 @
     cpioEntry ''TRAILER!!!'' 0 [] 4 0 0"

section \<open>Reading\<close>

record cpio_member =
  cm_name :: string
  cm_mode :: nat
  cm_inode :: nat
  cm_owner :: "nat \<times> nat"
  cm_links :: nat
  cm_rdev :: "nat \<times> nat"
  cm_content :: "byte list"

definition hex_value :: "byte \<Rightarrow> nat" where
  "hex_value b = (if b < 58 then unat b - 48 else unat b - 87)"

definition read_hex :: "byte list \<Rightarrow> nat" where "read_hex bs = foldl (\<lambda>n b. 16 * n + hex_value b) 0 bs"

definition cpio_field :: "byte list \<Rightarrow> nat \<Rightarrow> nat" where
  "cpio_field bs i = read_hex (take 8 (drop (6 + 8 * i) bs))"

text \<open>The archive from \<open>bs\<close> on, which are its bytes after the first \<open>off\<close>: names and contents are
  followed by NULs up to a multiple of four.\<close>

function cpio_read :: "nat \<Rightarrow> byte list \<Rightarrow> cpio_member list option" where
  "cpio_read off bs =
     (if length bs < 110 \<or> take 6 bs \<noteq> bytes_of ''070701'' then None
      else
        (let namesize = cpio_field bs 11; filesize = cpio_field bs 6;
             p = 110 + namesize + pad4 (off + 110 + namesize);
             q = p + filesize + pad4 (off + p + filesize);
             name = string_of (take (namesize - 1) (drop 110 bs))
         in if length bs < q then None
            else if name = ''TRAILER!!!'' then Some []
            else map_option (Cons \<lparr>cm_name = name, cm_mode = cpio_field bs 1, cm_inode = cpio_field bs 0,
                cm_owner = (cpio_field bs 2, cpio_field bs 3), cm_links = cpio_field bs 4,
                cm_rdev = (cpio_field bs 9, cpio_field bs 10), cm_content = take filesize (drop p bs)\<rparr>)
              (cpio_read (off + q) (drop q bs))))"
  by pat_completeness auto
termination
  by (relation "measure (\<lambda>(off, bs). length bs)") (auto simp: Let_def)

declare cpio_read.simps [simp del]

section \<open>Numbers\<close>

lemma below_16: "d < 16 \<Longrightarrow> d \<in> set [0..<16]" for d :: nat by simp

lemma hex_char_value [simp]: "d < 16 \<Longrightarrow> hex_value (word_of_nat (of_char (hex_char d))) = d"
  by (drule below_16) (auto simp: upt_rec hex_char_def hex_value_def)

lemma bytes_Cons: "bytes_of (c # s) = word_of_nat (of_char c) # bytes_of s" by (simp add: bytes_of_def)

lemma read_hex_snoc [simp]: "read_hex (bs @ [b]) = 16 * read_hex bs + hex_value b" by (simp add: read_hex_def)

lemma read_hex_str [simp]: "read_hex (bytes_of (hex_str n)) = n"
proof (induction n rule: hex_str.induct)
  case (1 n)
  show ?case
  proof (cases "n < 16")
    case True
    then show ?thesis by (simp add: hex_str.simps [of n] read_hex_def bytes_of_def)
  next
    case False
    then have "bytes_of (hex_str n) = bytes_of (hex_str (n div 16)) @ [word_of_nat (of_char (hex_char (n mod 16)))]"
      by (subst hex_str.simps) (simp add: bytes_of_def)
    then show ?thesis using 1 [OF False] by simp
  qed
qed

lemma length_hex_str: "n < 16 ^ k \<Longrightarrow> 0 < k \<Longrightarrow> length (hex_str n) \<le> k"
proof (induction n arbitrary: k rule: hex_str.induct)
  case (1 n)
  then show ?case
  proof (cases "n < 16")
    case False
    then have k: "1 < k" using 1(2,3) by (cases "k = 1") auto
    then have "n div 16 < 16 ^ (k - 1)" using 1(2) by (simp add: less_mult_imp_div_less power_eq_if mult.commute)
    then have "length (hex_str (n div 16)) \<le> k - 1" using 1(1) [OF False] k by simp
    then show ?thesis using False k by (subst hex_str.simps) simp
  qed (use 1 in \<open>simp add: hex_str.simps [of n]\<close>)
qed

lemma read_hex_zeros: "read_hex (replicate k 48 @ bs) = read_hex bs"
  by (induction k) (simp_all add: read_hex_def hex_value_def)

lemma hex_field_value:
  assumes "v < 2 ^ 32"
  shows "length (bytes_of (hex_field v)) = 8 \<and> read_hex (bytes_of (hex_field v)) = v"
proof -
  have "v < 16 ^ 8" using assms by simp
  then have "length (hex_str v) \<le> 8" using length_hex_str [of v 8] by linarith
  moreover have "bytes_of (replicate k (CHR ''0'')) = replicate k 48" for k by (simp add: bytes_of_def)
  ultimately show ?thesis by (simp add: hex_field_def padStart_def read_hex_zeros)
qed

lemma fields_at:
  assumes "\<And>f. f \<in> set fs \<Longrightarrow> length f = (8 :: nat)" "i < length fs"
  shows "take 8 (drop (8 * i) (concat fs @ r)) = fs ! i"
  using assms
proof (induction fs arbitrary: i)
  case (Cons f fs)
  then show ?case by (cases i) simp_all
qed simp

section \<open>An entry is read back\<close>

lemma pad4_less: "pad4 n < 4" by (simp add: pad4_def)

lemma pad4_aligned: "(n + pad4 n) mod 4 = 0"
proof -
  have "n mod 4 = 0 \<or> n mod 4 = 1 \<or> n mod 4 = 2 \<or> n mod 4 = 3" by linarith
  then show ?thesis by (elim disjE) (simp_all add: pad4_def, presburger+)
qed

lemma pad4_shift: "off mod 4 = 0 \<Longrightarrow> pad4 (off + n) = pad4 n"
  by (simp add: pad4_def mod_add_eq [symmetric, of off])

text \<open>What a reader finds of an entry.\<close>

definition member_of :: "string \<Rightarrow> nat \<Rightarrow> byte list \<Rightarrow> nat \<Rightarrow> nat \<Rightarrow> nat \<Rightarrow> cpio_member" where
  "member_of name mode content inode rdevMajor rdevMinor =
     \<lparr>cm_name = name, cm_mode = mode, cm_inode = inode, cm_owner = (0, 0), cm_links = 1,
      cm_rdev = (rdevMajor, rdevMinor), cm_content = content\<rparr>"

lemma cpio_read_entry:
  assumes small: "mode < 2 ^ 32" "inode < 2 ^ 32" "rdevMajor < 2 ^ 32" "rdevMinor < 2 ^ 32" "length content < 2 ^ 32"
      "length name + 1 < 2 ^ 32"
    and off: "off mod 4 = 0"
  shows "cpio_read off (cpioEntry name mode content inode rdevMajor rdevMinor @ rest) =
      (if name = ''TRAILER!!!'' then Some []
       else map_option (Cons (member_of name mode content inode rdevMajor rdevMinor))
         (cpio_read (off + length (cpioEntry name mode content inode rdevMajor rdevMinor)) rest))" (is ?read)
    and "length (cpioEntry name mode content inode rdevMajor rdevMinor) mod 4 = 0" (is ?aligned)
proof -
  let ?vs = "[inode, mode, 0, 0, 1, 0, length content, 0, 0, rdevMajor, rdevMinor, length name + 1, 0]"
  define fs where "fs = map (bytes_of \<circ> hex_field) ?vs"
  define e where "e = cpioEntry name mode content inode rdevMajor rdevMinor"
  define names where "names = bytes_of name @ [0]"
  define p where "p = 110 + (length name + 1) + pad4 (110 + (length name + 1))"
  define q where "q = p + length content + pad4 (length content)"
  have vs: "v \<in> set ?vs \<Longrightarrow> v < 2 ^ 32" for v using small by auto
  have f8: "length f = 8" if "f \<in> set fs" for f
  proof -
    obtain v where "v \<in> set ?vs" "f = bytes_of (hex_field v)" using \<open>f \<in> set fs\<close> unfolding fs_def set_map comp_def by blast
    then show ?thesis using hex_field_value [OF vs] by simp
  qed
  have fs13: "length fs = 13" by (simp add: fs_def)
  have "length (concat gs) = 8 * length gs" if "\<And>f. f \<in> set gs \<Longrightarrow> length f = 8" for gs :: "byte list list"
    using that by (induction gs) simp_all
  from this [of fs] have len: "length (concat fs) = 104" using f8 fs13 by simp
  have e: "e = bytes_of ''070701'' @ concat fs @ names @ replicate (pad4 (110 + (length name + 1))) 0 @ content @
      replicate (pad4 (length content)) 0"
  proof -
    have c: "bytes_of (concat (map hex_field ?vs)) = concat fs"
      by (simp only: fs_def bytes_of_def map_concat map_map comp_def)
    have n: "length (bytes_of name @ [0]) = length name + 1" by simp
    have h: "length (bytes_of ''070701'' @ concat fs) + (length name + 1) = 110 + (length name + 1)"
      using len by (simp add: bytes_of_def)
    show ?thesis unfolding e_def cpioEntry_def Let_def n names_def by (simp only: bytes_of_append c h append_assoc n)
  qed
  have p4: "p mod 4 = 0" using pad4_aligned [of "110 + (length name + 1)"] by (simp only: p_def)
  have le: "length e = q" using len by (simp add: e q_def p_def names_def)
  have q4: "q mod 4 = 0" using p4 pad4_aligned [of "length content"]
    by (simp only: q_def add.assoc) (metis mod_add_eq mod_0 add_0)
  show ?aligned using le q4 by (simp add: e_def)
  have field: "cpio_field (e @ rest) i = ?vs ! i" if "i < 13" for i
  proof -
    define r where "r = names @ replicate (pad4 (110 + (length name + 1))) 0 @ content @ replicate (pad4 (length content)) 0 @ rest"
    have "e @ rest = bytes_of ''070701'' @ concat fs @ r" by (simp only: e r_def append_assoc)
    then have "drop (6 + 8 * i) (e @ rest) = drop (8 * i) (drop 6 (bytes_of ''070701'' @ concat fs @ r))"
      by (simp only: drop_drop add.commute)
    also have "drop 6 (bytes_of ''070701'' @ concat fs @ r) = concat fs @ r" by (simp add: bytes_of_def)
    finally have "take 8 (drop (6 + 8 * i) (e @ rest)) = fs ! i"
      using fields_at [of fs i r] f8 fs13 that by simp
    also have "\<dots> = bytes_of (hex_field (?vs ! i))"
      using that by (simp only: fs_def) (subst nth_map, simp, simp only: comp_def)
    finally have t: "take 8 (drop (6 + 8 * i) (e @ rest)) = bytes_of (hex_field (?vs ! i))" .
    have "?vs ! i \<in> set ?vs" by (rule nth_mem) (use that in simp)
    from hex_field_value [OF vs [OF this]] show ?thesis by (simp only: cpio_field_def t)
  qed
  have magic: "take 6 (e @ rest) = bytes_of ''070701''" by (simp add: e)
  have name: "string_of (take (length name + 1 - 1) (drop 110 (e @ rest))) = name"
    using len by (simp add: e names_def)
  have content: "take (length content) (drop p (e @ rest)) = content"
    using len by (simp add: e p_def names_def)
  have pads: "pad4 (off + 110 + (length name + 1)) = pad4 (110 + (length name + 1))"
      "pad4 (off + p + length content) = pad4 (length content)"
  proof -
    have "(off + p) mod 4 = 0" using off p4 by (simp add: mod_eq_0_iff_dvd)
    then show "pad4 (off + p + length content) = pad4 (length content)" by (rule pad4_shift)
    show "pad4 (off + 110 + (length name + 1)) = pad4 (110 + (length name + 1))"
      using pad4_shift [OF off, of "110 + (length name + 1)"] by (simp only: add.assoc)
  qed
  have fields: "cpio_field (e @ rest) 0 = inode" "cpio_field (e @ rest) 1 = mode" "cpio_field (e @ rest) 2 = 0"
      "cpio_field (e @ rest) 3 = 0" "cpio_field (e @ rest) 4 = 1" "cpio_field (e @ rest) 6 = length content"
      "cpio_field (e @ rest) 9 = rdevMajor" "cpio_field (e @ rest) 10 = rdevMinor" "cpio_field (e @ rest) 11 = length name + 1"
    using field [of 0] field [of 1] field [of 2] field [of 3] field [of 4] field [of 6] field [of 9] field [of 10] field [of 11]
    by simp_all
  have ends: "\<not> length (e @ rest) < 110" "\<not> length (e @ rest) < q" "drop q (e @ rest) = rest"
    using le by (simp_all add: q_def p_def)
  have q: "p + length content + pad4 (off + p + length content) = q" by (simp only: pads(2) q_def)
  have p: "110 + (length name + 1) + pad4 (off + 110 + (length name + 1)) = p" by (simp only: pads(1) p_def)
  have "cpio_read off (e @ rest) =
      (if name = ''TRAILER!!!'' then Some []
       else map_option (Cons (member_of name mode content inode rdevMajor rdevMinor)) (cpio_read (off + q) rest))"
    by (subst cpio_read.simps) (simp only: Let_def fields magic simp_thms if_False p q ends name content member_of_def)
  then show ?read using le by (simp add: e_def)
qed

lemma initramfs_read:
  assumes "length agent < 2 ^ 32"
  shows "cpio_read 0 (initramfs agent) =
    Some [member_of ''dev'' 0x41ED [] 1 0 0, member_of ''dev/console'' 0x2180 [] 2 5 1, member_of ''init'' 0x81ED agent 3 0 0]"
proof -
  note dev = cpio_read_entry [where mode = "0x41ED" and inode = "1" and rdevMajor = "0" and rdevMinor = "0" and content = "[]"
    and name = "''dev''"]
  note console = cpio_read_entry [where mode = "0x2180" and inode = "2" and rdevMajor = "5" and rdevMinor = "1" and content = "[]"
    and name = "''dev/console''"]
  note init = cpio_read_entry [where mode = "0x81ED" and inode = "3" and rdevMajor = "0" and rdevMinor = "0" and content = agent
    and name = "''init''"]
  note trailer = cpio_read_entry(1) [where mode = "0" and inode = "4" and rdevMajor = "0" and rdevMinor = "0" and content = "[]"
    and name = "''TRAILER!!!''" and rest = "[]", simplified]
  let ?d = "length (cpioEntry ''dev'' 0x41ED [] 1 0 0)" and ?c = "length (cpioEntry ''dev/console'' 0x2180 [] 2 5 1)"
    and ?i = "length (cpioEntry ''init'' 0x81ED agent 3 0 0)"
  have "?d mod 4 = 0" "?c mod 4 = 0" "?i mod 4 = 0" 
    using dev(2) [of 0] console(2) [of 0] init(2) [of 0] assms by simp_all
  then have "?d mod 4 = 0" "(?d + ?c) mod 4 = 0" "(?d + ?c + ?i) mod 4 = 0" by (simp_all add: mod_eq_0_iff_dvd)
  then show ?thesis using assms
    by (simp add: initramfs_def dev(1) console(1) init(1) trailer del: One_nat_def)
qed

end
