(* ===== verification/Vsock.thy ===== *)
theory Vsock
  imports DockerStream
begin

text \<open>
  The connection of the Firecracker backend to the agent of a virtual machine
  (\<open>FirecrackerVsockTransport\<close> in \<open>src/backends/firecracker.ts\<close>): Firecracker answers the
  request for a port with one line; what follows it are the bytes of the agent channel. The
  events of the socket are those of \<open>DockerStream\<close>.
\<close>

section \<open>State\<close>

record 'p vsock =
  vs_connected :: bool
  vs_handshake :: "byte list"
  vs_channel :: "'p channel option"
  vs_ready :: "unit res option"
  vs_writer :: frame_writer

definition new_vsock :: "'p vsock" where
  "new_vsock = \<lparr>vs_connected = False, vs_handshake = [], vs_channel = None, vs_ready = None, vs_writer = new_writer\<rparr>"

definition vsock_ready :: "unit res \<Rightarrow> 'p vsock \<Rightarrow> 'p vsock" where
  "vsock_ready r v = (if vs_ready v = None then v\<lparr>vs_ready := Some r\<rparr> else v)"

text \<open>There is no flag for a closed transport: the channel and the promise ignore a second call.\<close>

definition vsock_fail :: "js_error \<Rightarrow> 'p vsock \<Rightarrow> 'p vsock" where
  "vsock_fail e v = (let v = (if \<not> vs_connected v then vsock_ready (Inl e) v else v) in
     v\<lparr>vs_channel := map_option (Frames.fail e) (vs_channel v), vs_writer := Frames.clear (vs_writer v)\<rparr>)"

definition vsock_close :: "'p vsock \<Rightarrow> 'p vsock" where
  "vsock_close v = v\<lparr>vs_channel := map_option close_channel (vs_channel v), vs_writer := Frames.clear (vs_writer v)\<rparr>"

section \<open>The handshake\<close>

text \<open>\<open>/^OK \d+$/\<close>.\<close>

definition is_digit :: "char \<Rightarrow> bool" where
  "is_digit c \<longleftrightarrow> (let n = (of_char c :: nat) in 48 \<le> n \<and> n \<le> 57)"

definition vsock_accepted :: "string \<Rightarrow> bool" where
  "vsock_accepted line \<longleftrightarrow> take 3 line = ''OK '' \<and> drop 3 line \<noteq> [] \<and> list_all is_digit (drop 3 line)"

definition push_bytes :: "(byte list \<Rightarrow> 'p res) \<Rightarrow> byte list \<Rightarrow> 'p vsock \<Rightarrow> 'p vsock" where
  "push_bytes parse chunk v = v\<lparr>vs_channel := map_option (\<lambda>ch. push parse ch chunk) (vs_channel v)\<rparr>"

definition vsock_data :: "(byte list \<Rightarrow> 'p res) \<Rightarrow> 'p vsock \<Rightarrow> byte list \<Rightarrow> 'p vsock" where
  "vsock_data parse v chunk =
     (if vs_connected v then push_bytes parse chunk v
      else
        (let handshake = vs_handshake v @ chunk; v = v\<lparr>vs_handshake := handshake\<rparr> in
         case index_of [10] handshake of
           None \<Rightarrow> v
         | Some newline \<Rightarrow>
             (let line = string_of (take newline handshake) in
              if \<not> vsock_accepted line
              then vsock_fail (PlainError (''Firecracker vsock handshake failed: '' @ line)) v
              else
                (let remainder = drop (newline + 1) handshake;
                     v = vsock_ready (Inr ()) (v\<lparr>vs_handshake := [], vs_connected := True\<rparr>)
                 in if remainder \<noteq> [] then push_bytes parse remainder v else v))))"

section \<open>Events and requests\<close>

definition connect_request :: string where "connect_request = ''CONNECT 5000'' @ [CHR 0x0A]"

fun vsock_step :: "(byte list \<Rightarrow> 'p res) \<Rightarrow> socket_event \<Rightarrow> 'p vsock \<Rightarrow> byte list \<times> 'p vsock" where
  "vsock_step parse Ev_open v = (bytes_of connect_request, v\<lparr>vs_writer := attach (vs_writer v)\<rparr>)"
| "vsock_step parse (Ev_data chunk) v = ([], vsock_data parse v chunk)"
| "vsock_step parse (Ev_drain answers) v =
     (let (taken, w) = drain answers (vs_writer v) in (taken, v\<lparr>vs_writer := w\<rparr>))"
| "vsock_step parse (Ev_error e) v = ([], vsock_fail e v)"
| "vsock_step parse Ev_close v = ([], vsock_fail (PlainError ''Firecracker vsock connection closed'') v)"

definition vsock_channel :: "'p vsock \<Rightarrow> 'p vsock" where
  "vsock_channel v = v\<lparr>vs_channel := Some new_channel\<rparr>"

definition vsock_request :: "('q \<Rightarrow> byte list) \<Rightarrow> int list \<Rightarrow> nat \<Rightarrow> 'q \<Rightarrow> 'p vsock \<Rightarrow> sent \<times> 'p vsock" where
  "vsock_request stringify answers i message v =
     (case vs_ready v of
        None \<Rightarrow> (Waiting, v)
      | Some (Inl e) \<Rightarrow> (Rejected e, v)
      | Some (Inr _) \<Rightarrow>
         (case vs_channel v of
            Some ch \<Rightarrow>
              (let writeFrame = (\<lambda>f. write_frame answers f (vs_writer v));
                   ch' = Frames.request stringify (\<lambda>f. bind_res (writeFrame f) (\<lambda>_. Inr ())) i message ch;
                   (taken, w) = (if ch_closed ch then ([], vs_writer v)
                     else case bind_res (encodeAgentFrame stringify message) writeFrame of
                       Inr tw \<Rightarrow> tw
                     | Inl _ \<Rightarrow> ([], vs_writer v))
               in (Sent taken, v\<lparr>vs_channel := Some ch', vs_writer := w\<rparr>))
          | None \<Rightarrow> (Rejected (service_err BACKEND_ERROR ''Firecracker agent transport is unavailable''), v)))"

text \<open>\<open>connectOnce\<close>, once the socket is connected and the promise has been settled with \<open>ready\<close>.\<close>

definition vsock_probe :: "agent_response \<Rightarrow> unit res" where
  "vsock_probe probe =
     (if ar_ok probe \<or> ar_error probe \<noteq> Some ''execution unavailable''
      then Inl (PlainError (case ar_error probe of Some m \<Rightarrow> m | None \<Rightarrow> ''Guest agent readiness probe failed''))
      else Inr ())"

definition vsock_connected :: "(agent_request \<Rightarrow> ('w, agent_response) io) \<Rightarrow> unit res \<Rightarrow> ('w, unit) io" where
  "vsock_connected send ready =
     io_bind (io_res ready) (\<lambda>_. io_bind (send (A_Poll probe_id)) (\<lambda>probe. io_res (vsock_probe probe)))"

section \<open>The cuts of the stream do not matter\<close>

text \<open>Up to the bytes a closed channel still holds, which nothing reads.\<close>

definition vs_settle :: "'p vsock \<Rightarrow> 'p vsock" where
  "vs_settle v = v\<lparr>vs_channel := map_option settle (vs_channel v)\<rparr>"

definition vsock_feed :: "(byte list \<Rightarrow> 'p res) \<Rightarrow> 'p vsock \<Rightarrow> byte list \<Rightarrow> 'p vsock" where
  "vsock_feed parse v chunk = vs_settle (vsock_data parse v chunk)"

text \<open>Before the handshake is over the channel has got no bytes.\<close>

definition quiet :: "'p vsock \<Rightarrow> bool" where
  "quiet v \<longleftrightarrow> (\<not> vs_connected v \<longrightarrow> (\<forall>ch. vs_channel v = Some ch \<longrightarrow> ch_buffer ch = []))"

lemma settle_settle [simp]: "settle (settle ch) = settle ch" by (simp add: settle_def)

lemma vs_settle_simps [simp]:
  "vs_connected (vs_settle v) = vs_connected v" "vs_handshake (vs_settle v) = vs_handshake v"
  "vs_settle (vs_settle v) = vs_settle v"
  "(vs_settle v)\<lparr>vs_handshake := h\<rparr> = vs_settle (v\<lparr>vs_handshake := h\<rparr>)"
  by (simp_all add: vs_settle_def option.map_comp comp_def)

lemma vsock_ready_simps [simp]:
  "vs_connected (vsock_ready r v) = vs_connected v" "vs_channel (vsock_ready r v) = vs_channel v"
  "vs_handshake (vsock_ready r v) = vs_handshake v"
  by (simp_all add: vsock_ready_def)

lemma vs_settle_push: "vs_settle (push_bytes parse ys (vs_settle v)) = vs_settle (push_bytes parse ys v)"
  by (cases "vs_channel v") (simp_all add: vs_settle_def push_bytes_def feed_channel_def [symmetric] feed_settle)

lemma vs_settle_push_append:
  "vs_settle (push_bytes parse ys (push_bytes parse xs v)) = vs_settle (push_bytes parse (xs @ ys) v)"
proof (cases "vs_channel v")
  case (Some ch)
  have "feed_channel parse (push parse ch xs) ys = feed_channel parse ch (xs @ ys)"
    using feed_settle [of parse "push parse ch xs" ys] feed_channel_append [of parse ch xs ys] by (simp add: feed_channel_def)
  then show ?thesis using Some by (simp add: vs_settle_def push_bytes_def feed_channel_def)
qed (simp add: vs_settle_def push_bytes_def)

lemma vs_settle_push_nothing:
  "(\<And>ch. vs_channel v = Some ch \<Longrightarrow> ch_buffer ch = []) \<Longrightarrow> push_bytes parse [] v = v"
  by (cases v; cases "vs_channel v") (auto simp: push_bytes_def push_def push_loop.simps)

lemma vsock_fail_again: "vs_settle (vsock_fail e (vsock_fail e v)) = vs_settle (vsock_fail e v)"
  by (cases "vs_channel v")
    (auto simp: vs_settle_def vsock_fail_def vsock_ready_def Let_def Frames.clear_def settle_def Frames.fail_def reject_all_def)

lemma vsock_fail_settle: "vs_settle (vsock_fail e (vs_settle v)) = vs_settle (vsock_fail e v)"
  by (cases "vs_channel v")
    (auto simp: vs_settle_def vsock_fail_def vsock_ready_def Let_def settle_def Frames.fail_def reject_all_def)

lemma vsock_fail_simps [simp]:
  "(vsock_fail e v)\<lparr>vs_handshake := h\<rparr> = vsock_fail e (v\<lparr>vs_handshake := h\<rparr>)"
  "vs_connected (vsock_fail e v) = vs_connected v" "vs_handshake (vsock_fail e v) = vs_handshake v"
  by (simp_all add: vsock_fail_def vsock_ready_def Let_def)

abbreviation shaken :: "'p vsock \<Rightarrow> 'p vsock" where
  "shaken v \<equiv> vsock_ready (Inr ()) (v\<lparr>vs_handshake := [], vs_connected := True\<rparr>)"

lemma shaken_settle: "shaken (vs_settle v) = vs_settle (shaken v)"
  by (simp add: vs_settle_def vsock_ready_def)

lemma vs_settle_push_shaken: "vs_settle (push_bytes parse c (shaken (vs_settle v))) = vs_settle (push_bytes parse c (shaken v))"
  unfolding shaken_settle by (rule vs_settle_push)

lemma vsock_data_line:
  assumes "\<not> vs_connected v" "quiet v" "index_of [10] (vs_handshake v @ chunk) = Some i"
    "line = take i (vs_handshake v @ chunk)"
  shows "vsock_data parse v chunk =
    (if vsock_accepted (string_of line) then push_bytes parse (drop (i + 1) (vs_handshake v @ chunk)) (shaken v)
     else vsock_fail (PlainError (''Firecracker vsock handshake failed: '' @ string_of line)) (v\<lparr>vs_handshake := vs_handshake v @ chunk\<rparr>))"
  using assms vs_settle_push_nothing [of "shaken v" parse] by (auto simp: vsock_data_def Let_def quiet_def)

lemma quiet_settle [simp]: "quiet (vs_settle v) = quiet v" if "quiet v"
  using that by (auto simp: quiet_def vs_settle_def settle_def)

lemma vsock_feed_settle:
  assumes "quiet v"
  shows "vsock_feed parse (vs_settle v) c = vsock_feed parse v c"
proof (cases "vs_connected v")
  case True
  then show ?thesis by (simp add: vsock_feed_def vsock_data_def vs_settle_push)
next
  case False
  show ?thesis
  proof (cases "index_of [10] (vs_handshake v @ c)")
    case None
    then show ?thesis using False by (simp add: vsock_feed_def vsock_data_def Let_def)
  next
    case (Some i)
    let ?line = "take i (vs_handshake v @ c)"
    have "vsock_data parse (vs_settle v) c =
      (if vsock_accepted (string_of ?line) then push_bytes parse (drop (i + 1) (vs_handshake v @ c)) (shaken (vs_settle v))
       else vsock_fail (PlainError (''Firecracker vsock handshake failed: '' @ string_of ?line))
         (vs_settle (v\<lparr>vs_handshake := vs_handshake v @ c\<rparr>)))"
      using vsock_data_line [of "vs_settle v" c i ?line parse] False assms Some by (simp only: vs_settle_simps quiet_settle simp_thms)
    then show ?thesis
      unfolding vsock_feed_def vsock_data_line [OF False assms Some refl]
      by (simp only: if_distrib [of vs_settle] vs_settle_push_shaken vsock_fail_settle)
  qed
qed

lemma vsock_feed_append:
  assumes "quiet v"
  shows "vsock_feed parse (vsock_data parse v xs) ys = vsock_feed parse v (xs @ ys)"
proof (cases "vs_connected v")
  case True
  have "vs_connected (push_bytes parse xs v)" using True by (simp add: push_bytes_def)
  then show ?thesis using True by (simp add: vsock_feed_def vsock_data_def vs_settle_push_append)
next
  case False
  let ?h = "vs_handshake v @ xs"
  show ?thesis
  proof (cases "index_of [10] ?h")
    case None
    then show ?thesis using False by (simp add: vsock_feed_def vsock_data_def Let_def)
  next
    case (Some i)
    then have i: "index_of [10] (vs_handshake v @ xs @ ys) = Some i" "i + 1 \<le> length ?h"
      using index_of_append [OF Some, of ys] by simp_all
    note xs = vsock_data_line [OF False assms Some refl] and both = vsock_data_line [OF False assms i(1) refl]
    have line: "take i (vs_handshake v @ xs @ ys) = take i ?h"
        "drop (i + 1) (vs_handshake v @ xs @ ys) = drop (i + 1) ?h @ ys"
      using i(2) by (simp_all flip: append_assoc)
    show ?thesis
    proof (cases "vsock_accepted (string_of (take i ?h))")
      case True
      have "vs_connected (push_bytes parse zs (shaken v))" for zs by (simp add: push_bytes_def)
      then have "vsock_feed parse (push_bytes parse zs (shaken v)) ys = vs_settle (push_bytes parse (zs @ ys) (shaken v))" for zs
        by (simp add: vsock_feed_def vsock_data_def vs_settle_push_append)
      then show ?thesis using True xs both unfolding line by (simp only: if_True) (simp only: vsock_feed_def)
    next
      case bad: False
      define e where "e = PlainError (''Firecracker vsock handshake failed: '' @ string_of (take i ?h))"
      define w where "w = vsock_fail e (v\<lparr>vs_handshake := ?h\<rparr>)"
      have w: "vsock_data parse v xs = w" using bad xs by (simp only: if_False w_def e_def)
      have simps: "vs_handshake w = ?h" "\<not> vs_connected w"
          "w\<lparr>vs_handshake := ?h @ ys\<rparr> = vsock_fail e (v\<lparr>vs_handshake := ?h @ ys\<rparr>)"
        using False by (simp_all add: w_def)
      have q: "quiet w" using assms False
        by (auto simp: w_def quiet_def vsock_fail_def vsock_ready_def Let_def Frames.fail_def reject_all_def)
      have "vsock_data parse w ys = vsock_fail e (vsock_fail e (v\<lparr>vs_handshake := ?h @ ys\<rparr>))"
        using vsock_data_line [of w ys i "take i ?h" parse] simps q bad i(1) line(1) by (simp only: append_assoc if_False e_def simp_thms)
      then have "vsock_feed parse w ys = vs_settle (vsock_fail e (v\<lparr>vs_handshake := ?h @ ys\<rparr>))"
        by (simp only: vsock_feed_def vsock_fail_again)
      then show ?thesis using bad both unfolding w line by (simp only: vsock_feed_def if_False append_assoc e_def)
    qed
  qed
qed

lemma vsock_data_quiet: "quiet v \<Longrightarrow> quiet (vsock_data parse v xs)"
  by (auto simp: quiet_def vsock_data_def Let_def push_bytes_def vsock_fail_def vsock_ready_def Frames.fail_def reject_all_def
      split: option.splits)

interpretation vsock_stream: chunk_consumer "vsock_feed parse" quiet for parse
proof
  fix v :: "'a vsock" and xs ys and parse :: "byte list \<Rightarrow> 'a res"
  assume v: "quiet v"
  have "vsock_feed parse (vsock_feed parse v xs) ys = vsock_feed parse (vs_settle (vsock_data parse v xs)) ys"
    by (simp only: vsock_feed_def)
  also have "\<dots> = vsock_feed parse (vsock_data parse v xs) ys" by (rule vsock_feed_settle [OF vsock_data_quiet [OF v]])
  also have "\<dots> = vsock_feed parse v (xs @ ys)" by (rule vsock_feed_append [OF v])
  finally show "vsock_feed parse (vsock_feed parse v xs) ys = vsock_feed parse v (xs @ ys)" .
  show "quiet (vsock_feed parse v xs)" 
    by (simp only: vsock_feed_def quiet_settle [OF vsock_data_quiet [OF v]] vsock_data_quiet [OF v])
qed

lemma vs_settle_chunks:
  "quiet v \<Longrightarrow> vs_settle (foldl (vsock_data parse) v cs) = foldl (vsock_feed parse) (vs_settle v) cs"
proof (induction cs arbitrary: v)
  case (Cons c cs)
  have "vsock_feed parse (vs_settle v) c = vs_settle (vsock_data parse v c)"
    unfolding vsock_feed_settle [OF Cons(2)] by (simp only: vsock_feed_def)
  then show ?case using Cons(1) [OF vsock_data_quiet [OF Cons(2)]] by simp
qed simp

text \<open>After the line that accepts the connection, the answers of the agent reach the channel.\<close>

lemma vsock_data_answers:
  assumes v: "if vs_connected v then hello = [] else vs_handshake v = [] \<and>
      (\<exists>h. hello = h @ [10] \<and> 10 \<notin> set h \<and> vsock_accepted (string_of h))"
    and ch: "vs_channel v = Some ch" "\<not> ch_closed ch" "ch_buffer ch = []"
    and rs: "\<And>r. r \<in> set rs \<Longrightarrow> length r \<le> max_frame" "length rs \<le> length (ch_pending ch)"
  shows "vsock_data parse v (hello @ concat (map frame_of rs)) =
    (if vs_connected v then v else shaken v)
      \<lparr>vs_channel := Some (ch\<lparr>ch_pending := drop (length rs) (ch_pending ch),
        ch_settled := ch_settled ch @ zip (ch_pending ch) (map parse rs)\<rparr>)\<rparr>"
proof -
  have push: "push parse ch (concat (map frame_of rs)) = ch\<lparr>ch_pending := drop (length rs) (ch_pending ch),
        ch_settled := ch_settled ch @ zip (ch_pending ch) (map parse rs)\<rparr>"
    using pushes_answer [OF ch(2,3), of "[concat (map frame_of rs)]"] rs by simp
  have index: "index_of [10] (h @ 10 # zs) = Some (length h)" if "10 \<notin> set h" for h :: "byte list" and zs
    using that by (induction h) auto
  show ?thesis
  proof (cases "vs_connected v")
    case True
    then show ?thesis using v ch(1) push by (simp add: vsock_data_def push_bytes_def)
  next
    case False
    then obtain h where h: "vs_handshake v = []" "hello = h @ [10]" "10 \<notin> set h" "vsock_accepted (string_of h)"
      using v by auto
    have q: "quiet v" using ch by (simp add: quiet_def)
    have "vsock_data parse v (hello @ concat (map frame_of rs)) = push_bytes parse (concat (map frame_of rs)) (shaken v)"
      using vsock_data_line [OF False q, of "hello @ concat (map frame_of rs)" "length h" h] index [OF h(3)] h
      by simp
    then show ?thesis using False ch(1) push by (simp add: push_bytes_def)
  qed
qed

end
