(* ===== verification/Firecracker.thy ===== *)
theory Firecracker
  imports Initramfs Vsock Guest Config
begin

text \<open>
  The Firecracker backend (\<open>FirecrackerBackend\<close> in \<open>src/backends/firecracker.ts\<close>). Its state is
  the last preflight result, the running machines and the executions. What it does to the host
  (the jail directory, control groups, tools, processes, sockets) is the outside world: the
  fields of \<open>fire_env\<close> say what it answers. Calls that \<open>Promise.all\<close> starts together run one after
  the other in the model.
\<close>

section \<open>The host\<close>

datatype access_mode = Acc_exists | Acc_read | Acc_write | Acc_execute | Acc_read_write

text \<open>Calls that change the host: the recursive directory with its mode, a copy, a new file, its size,
  a file with its content and mode, modes and owners, the content of an existing file, a signal
  to a process, a recursive removal.\<close>

datatype host_op =
    H_mkdir string "nat option"
  | H_copy string string
  | H_new_file string nat
  | H_truncate string int
  | H_write string "byte list" nat
  | H_chmod string nat
  | H_chown string int int
  | H_overwrite string string
  | H_kill nat
  | H_rm string

record host_stat =
  hs_uid :: int
  hs_dev :: int

record tool_result =
  tr_stdout :: string
  tr_stderr :: string
  tr_exitCode :: int

text \<open>The bodies of the requests to the API of a machine, with all their fields.\<close>

datatype vm_request =
    V_machine_config int int bool bool
  | V_boot_source string string string
  | V_drive string string bool bool
  | V_vsock nat string
  | V_action string

record 'w fire_env = "'w guest_env" +
  fv_config :: config
  fv_linux :: bool
  fv_uid :: "int option"
  fv_gid :: "int option"
  fv_which :: "string \<Rightarrow> string option"
  fv_host :: "host_op \<Rightarrow> ('w, unit) io"
  fv_access :: "string \<Rightarrow> access_mode \<Rightarrow> ('w, unit) io"
  fv_text :: "string \<Rightarrow> ('w, string) io"
  fv_bytes :: "string \<Rightarrow> ('w, byte list) io"
  fv_stat :: "string \<Rightarrow> ('w, host_stat) io"
  fv_exists :: "string \<Rightarrow> ('w, bool) io"
  fv_tool :: "string \<Rightarrow> string list \<Rightarrow> ('w, tool_result) io"
  fv_spawn :: "string list \<Rightarrow> ('w, nat) io"
  fv_exitCode :: "nat \<Rightarrow> 'w \<Rightarrow> int option"
  fv_exit_within :: "nat \<Rightarrow> int \<Rightarrow> 'w \<Rightarrow> 'w"
  fv_put :: "string \<Rightarrow> string \<Rightarrow> vm_request \<Rightarrow> ('w, nat \<times> string) io"
  fv_connect :: "string \<Rightarrow> ('w, nat \<times> unit res) io"
  fv_close :: "nat \<Rightarrow> 'w \<Rightarrow> 'w"

section \<open>State\<close>

record fire_instance =
  fi_id :: string
  fi_process :: nat
  fi_apiSocket :: string
  fi_jailRoot :: string
  fi_transport :: nat

record 'w firecracker = "'w guest" +
  fk_probe :: host_probe
  fk_instances :: "string \<Rightarrow> fire_instance option"

definition new_firecracker :: "'w \<Rightarrow> fs \<Rightarrow> 'w firecracker" where
  "new_firecracker w f = \<lparr>gs_world = w, gs_fs = f, gs_executions = [],
     fk_probe = \<lparr>hp_available = False, hp_reason = Some ''preflight not run''\<rparr>, fk_instances = (\<lambda>_. None)\<rparr>"

definition host :: "'w fire_env \<Rightarrow> host_op \<Rightarrow> ('w firecracker, unit) io" where
  "host env op = outside_io (fv_host env op)"

text \<open>\<open>Promise.all\<close>: everything runs, and the first error is thrown.\<close>

fun io_all :: "('s, unit) io list \<Rightarrow> ('s, unit) io" where
  "io_all [] s = (Inr (), s)"
| "io_all (m # ms) s = (case m s of (r, s) \<Rightarrow> (case io_all ms s of (q, s) \<Rightarrow> (if is_ok r then q else r, s)))"

text \<open>The path of an artifact; \<open>undefined\<close> is no path.\<close>

definition configured :: "string option \<Rightarrow> ('s, string) io" where
  "configured v = (case v of Some p \<Rightarrow> io_return p | None \<Rightarrow> io_throw (PlainError ''TypeError''))"

section \<open>Tools\<close>

definition runTool :: "'w fire_env \<Rightarrow> string \<Rightarrow> string list \<Rightarrow> ('w firecracker, string) io" where
  "runTool env command args =
     io_bind (outside_io (fv_tool env command args)) (\<lambda>r.
     if tr_exitCode r \<noteq> 0
     then io_throw (service_err BACKEND_ERROR (basename command @ '' failed: '' @ trim (tr_stderr r)))
     else io_return (trim (tr_stdout r @ tr_stderr r)))"

text \<open>\<open>/\b(?:v)?(\d+\.\d+\.\d+)\b/\<close>: the first match, where a word begins; the last number takes all
  its digits, for no boundary lies between two digits.\<close>

definition digits :: "string \<Rightarrow> string \<times> string" where
  "digits s = (takeWhile is_digit s, dropWhile is_digit s)"

definition version_here :: "string \<Rightarrow> string option" where
  "version_here s =
     (let (a, s1) = digits (case s of c # cs \<Rightarrow> if c = CHR ''v'' then cs else s | [] \<Rightarrow> s);
          (b, s2) = digits (tl s1); (c, s3) = digits (tl s2)
      in if a \<noteq> [] \<and> take 1 s1 = ''.'' \<and> b \<noteq> [] \<and> take 1 s2 = ''.'' \<and> c \<noteq> [] \<and>
           (case s3 of [] \<Rightarrow> True | d # _ \<Rightarrow> \<not> word_char d)
         then Some (a @ ''.'' @ b @ ''.'' @ c) else None)"

fun version_from :: "bool \<Rightarrow> string \<Rightarrow> string option" where
  "version_from inWord [] = None"
| "version_from inWord (c # cs) =
     (case if inWord then None else version_here (c # cs) of
        Some v \<Rightarrow> Some v
      | None \<Rightarrow> version_from (word_char c) cs)"

definition versionOf :: "string \<Rightarrow> string option" where
  "versionOf s = version_from False s"

text \<open>The bit operators take a number as 32 bits with a sign.\<close>

definition majorMinor :: "int \<Rightarrow> string" where
  "majorMinor device =
     (let d = (word_of_int device :: 32 word);
          major = and (signed_drop_bit 8 d) 0xFFF;
          minor = or (and d 0xFF) (and (signed_drop_bit 12 d) 0xFFF00)
      in int_str (sint major) @ '':'' @ int_str (sint minor))"

text \<open>\<open>split(/\s+/)\<close>.\<close>

fun split_spaces :: "nat \<Rightarrow> string \<Rightarrow> string list" where
  "split_spaces 0 s = [s]"
| "split_spaces (Suc n) s =
     (case s of [] \<Rightarrow> [[]]
      | c # cs \<Rightarrow>
          (case find (\<lambda>w. starts_with w s) js_spaces of
             Some w \<Rightarrow> [] # split_spaces n (trim_with n js_spaces (drop (length w) s))
           | None \<Rightarrow> (case split_spaces n cs of [] \<Rightarrow> [[c]] | x # xs \<Rightarrow> (c # x) # xs)))"

definition words :: "string \<Rightarrow> string list" where
  "words s = split_spaces (length s) s"

section \<open>Preflight\<close>

text \<open>\<open>failures.join('; ')\<close>.\<close>

fun join_strings :: "string \<Rightarrow> string list \<Rightarrow> string" where
  "join_strings sep [] = []"
| "join_strings sep [p] = p"
| "join_strings sep (p # q # ps) = p @ sep @ join_strings sep (q # ps)"

text \<open>A check adds what it misses to the failures and never throws.\<close>

type_synonym 's check = "'s \<Rightarrow> string list \<times> 's"

fun run_checks :: "'s check list \<Rightarrow> 's check" where
  "run_checks [] s = ([], s)"
| "run_checks (c # cs) s = (case c s of (fs, s) \<Rightarrow> (case run_checks cs s of (gs, s) \<Rightarrow> (fs @ gs, s)))"

definition check_that :: "bool \<Rightarrow> string \<Rightarrow> 's check" where
  "check_that b m s = (if b then [] else [m], s)"

definition check_access :: "'w fire_env \<Rightarrow> string \<Rightarrow> access_mode \<Rightarrow> string \<Rightarrow> 'w firecracker check" where
  "check_access env path mode m s = (case outside_io (fv_access env path mode) s of (r, s) \<Rightarrow> (if is_ok r then [] else [m], s))"

definition check_controllers :: "'w fire_env \<Rightarrow> 'w firecracker check" where
  "check_controllers env s =
     (case outside_io (fv_text env ''/sys/fs/cgroup/cgroup.controllers'') s of (r, s) \<Rightarrow>
       let controllers = (case r of Inr t \<Rightarrow> t | Inl _ \<Rightarrow> '''') in
       (map (\<lambda>c. ''cgroup v2 '' @ c @ '' controller is unavailable'')
          (filter (\<lambda>c. c \<notin> set (words controllers)) [''cpu'', ''io'', ''memory'', ''pids'']), s))"

definition check_artifact :: "'w fire_env \<Rightarrow> string \<times> string option \<times> access_mode \<Rightarrow> 'w firecracker check" where
  "check_artifact env a = (case a of (label, path, mode) \<Rightarrow>
     (case truthy path of
        None \<Rightarrow> check_that False (label @ '' artifact is not configured'')
      | Some p \<Rightarrow> check_access env p mode (label @ '' artifact is inaccessible'')))"

definition artifacts_of :: "config \<Rightarrow> (string \<times> string option \<times> access_mode) list" where
  "artifacts_of cf =
     [(''firecracker'', cf_firecrackerBin cf, Acc_execute), (''jailer'', cf_jailerBin cf, Acc_execute),
      (''agent'', cf_agentArtifact cf, Acc_read), (''kernel'', cf_firecrackerKernel cf, Acc_read),
      (''rootfs'', cf_firecrackerRootfs cf, Acc_read)]"

text \<open>\<open>runTool(bin, ['--version']).catch(...)\<close>: the output, or nothing and a failure.\<close>

definition version_text :: "'w fire_env \<Rightarrow> string \<Rightarrow> 'w firecracker \<Rightarrow> string \<times> string list \<times> 'w firecracker" where
  "version_text env bin s = (case runTool env bin [''--version''] s of
     (Inr t, s) \<Rightarrow> (t, [], s)
   | (Inl e, s) \<Rightarrow> ('''', [error_text e], s))"

definition check_versions :: "'w fire_env \<Rightarrow> string list \<Rightarrow> 'w firecracker check" where
  "check_versions env failures s =
     (case (failures, truthy (cf_firecrackerBin (fv_config env)), truthy (cf_jailerBin (fv_config env))) of
        ([], Some f, Some j) \<Rightarrow>
          (case version_text env f s of (v, es, s) \<Rightarrow>
          (case version_text env j s of (u, ds, s) \<Rightarrow>
            (es @ ds @ (if versionOf v \<noteq> versionOf u then [''Firecracker and jailer versions do not match''] else []), s)))
      | _ \<Rightarrow> ([], s))"

definition check_owner :: "'w fire_env \<Rightarrow> string option \<Rightarrow> 'w firecracker check" where
  "check_owner env path s = (case truthy path of
     None \<Rightarrow> ([], s)
   | Some p \<Rightarrow> (case outside_io (fv_stat env p) s of
       (Inl _, s) \<Rightarrow> ([], s)
     | (Inr st, s) \<Rightarrow> check_that (hs_uid st = 0 \<or> Some (hs_uid st) = fv_uid env)
         (basename p @ '' is not owned by root or the daemon user'') s))"

definition fire_checks :: "'w fire_env \<Rightarrow> 'w firecracker check" where
  "fire_checks env s =
     (case run_checks
        ([check_that (fv_linux env) ''Linux x86_64 is required'',
          check_access env ''/dev/kvm'' Acc_read_write ''/dev/kvm is not readable and writable'',
          check_controllers env,
          check_access env ''/sys/fs/cgroup'' Acc_write ''cgroup v2 root is not writable''] @
         map (check_artifact env) (artifacts_of (fv_config env)) @
         [check_that (truthy (fv_which env ''mkfs.ext4'') \<noteq> None) ''mkfs.ext4 is unavailable'']) s of (failures, s) \<Rightarrow>
      (case check_versions env failures s of (vs, s) \<Rightarrow>
      (case run_checks (map (check_owner env) [cf_firecrackerBin (fv_config env), cf_jailerBin (fv_config env)]) s of
         (owners, s) \<Rightarrow> (failures @ vs @ owners, s))))"

definition fire_preflight :: "'w fire_env \<Rightarrow> 'w firecracker \<Rightarrow> host_probe \<times> 'w firecracker" where
  "fire_preflight env s = (case fire_checks env s of (failures, s) \<Rightarrow>
     let probe = (if failures = [] then \<lparr>hp_available = True, hp_reason = None\<rparr>
       else unavailable_probe (join_strings ''; '' failures))
     in (probe, s\<lparr>fk_probe := probe\<rparr>))"

definition fire_ensureAvailable :: "('w firecracker, unit) io" where
  "fire_ensureAvailable s = io_require (hp_available (fk_probe s))
     (service_err BACKEND_UNAVAILABLE
       (case hp_reason (fk_probe s) of Some m \<Rightarrow> m | None \<Rightarrow> ''Firecracker backend is unavailable'')) s"

section \<open>The machine's API and its socket\<close>

definition vm_api :: "'w fire_env \<Rightarrow> string \<Rightarrow> string \<Rightarrow> vm_request \<Rightarrow> ('w firecracker, unit) io" where
  "vm_api env socket path q =
     io_bind (outside_io (fv_put env socket path q)) (\<lambda>(status, text).
       io_require (200 \<le> status \<and> status < 300)
         (service_err BACKEND_ERROR (''Firecracker API '' @ path @ '' failed: '' @ nat_str status @ '' '' @ text)))"

partial_function (option) wait_socket :: "'w fire_env \<Rightarrow> string \<Rightarrow> nat \<Rightarrow> int \<Rightarrow> ('w firecracker, unit) run" where
  "wait_socket env path p deadline s =
     (if gv_clock env (gs_world s) \<ge> deadline
      then Some (Inl (service_err BACKEND_ERROR ''Firecracker API socket did not become ready''), s)
      else let found = outside_io (fv_access env path Acc_exists) s; s = snd found; code = fv_exitCode env p (gs_world s) in
        if is_ok (fst found) then Some (Inr (), s)
        else if code \<noteq> None
        then Some (Inl (service_err BACKEND_ERROR (''jailer exited with code '' @ int_str (the code))), s)
        else wait_socket env path p deadline (pause env 25 s))"

definition waitForSocket :: "'w fire_env \<Rightarrow> string \<Rightarrow> nat \<Rightarrow> ('w firecracker, unit) run" where
  "waitForSocket env path p s = wait_socket env path p (gv_clock env (gs_world s) + 10000) s"

text \<open>\<open>connectOnce\<close> and \<open>connect\<close>.\<close>

definition connect_once :: "'w fire_env \<Rightarrow> string \<Rightarrow> ('w firecracker, nat) io" where
  "connect_once env path =
     io_bind (outside_io (fv_connect env path)) (\<lambda>(t, ready).
     io_bind (outside_io (vsock_connected (gv_send env t) ready)) (\<lambda>_. io_return t))"

partial_function (option) connect_until :: "'w fire_env \<Rightarrow> string \<Rightarrow> int \<Rightarrow> js_error option \<Rightarrow> ('w firecracker, nat) run" where
  "connect_until env path deadline lastError s =
     (if gv_clock env (gs_world s) \<ge> deadline
      then Some (Inl (service_err BACKEND_ERROR (''Firecracker guest agent did not become ready: '' @
        (case lastError of Some e \<Rightarrow> error_text e | None \<Rightarrow> ''undefined''))), s)
      else let r = connect_once env path s in
        if is_ok (fst r) then Some r
        else connect_until env path deadline (Some (projl (fst r))) (pause env 50 (snd r)))"

definition fire_connect :: "'w fire_env \<Rightarrow> string \<Rightarrow> int \<Rightarrow> ('w firecracker, nat) run" where
  "fire_connect env path ms s = connect_until env path (gv_clock env (gs_world s) + ms) None s"

section \<open>Control groups\<close>

definition writeCgroupFile :: "'w fire_env \<Rightarrow> string \<Rightarrow> string \<Rightarrow> ('w firecracker, unit) io" where
  "writeCgroupFile env path content = host env (H_overwrite path content)"

definition cgroup_parent :: string where "cgroup_parent = path_join [''/sys/fs/cgroup'', ''electrosphere'']"

definition configureCgroup :: "'w fire_env \<Rightarrow> string \<Rightarrow> create_input \<Rightarrow> string \<Rightarrow> ('w firecracker, unit) io" where
  "configureCgroup env iid i workspaceImage =
     (let path = path_join [cgroup_parent, iid]; profile = ci_resourceProfile i; period = 100000 in
      io_bind (host env (H_mkdir cgroup_parent None)) (\<lambda>_.
      io_bind (writeCgroupFile env (path_join [cgroup_parent, ''cgroup.subtree_control'']) ''+cpu +io +memory +pids'') (\<lambda>_.
      io_bind (host env (H_mkdir path None)) (\<lambda>_.
      io_bind (outside_io (fv_stat env workspaceImage)) (\<lambda>st.
      let device = majorMinor (hs_dev st) in
      io_bind (outside_io (fv_exists env (path_join [''/sys/dev/block'', device]))) (\<lambda>known.
      io_all
        [if known then writeCgroupFile env (path_join [path, ''io.max'']) (device @ '' rbps=268435456 wbps=268435456'')
           else io_return (),
         writeCgroupFile env (path_join [path, ''memory.max'']) (int_str (memoryMiB profile * 1024 * 1024)),
         writeCgroupFile env (path_join [path, ''memory.swap.max'']) ''0'',
         writeCgroupFile env (path_join [path, ''cpu.max'']) (int_str (vcpus profile * period) @ '' '' @ int_str period),
         writeCgroupFile env (path_join [path, ''pids.max'']) (int_str (pidsMax profile))]))))))"

section \<open>Creating a machine\<close>

text \<open>\<open>process.getuid?.() === 0 ? 65534 : process.getuid?.() ?? 65534\<close>.\<close>

definition unprivileged :: "int option \<Rightarrow> int" where
  "unprivileged i = (if i = Some 0 then 65534 else case i of Some n \<Rightarrow> n | None \<Rightarrow> 65534)"

record jail =
  j_base :: string
  j_root :: string
  j_run :: string
  j_image :: string
  j_kernel :: string
  j_rootfs :: string
  j_initramfs :: string

definition jail_paths :: "config \<Rightarrow> string \<Rightarrow> string \<Rightarrow> jail" where
  "jail_paths cf bin iid =
     (let base = path_join [cf_dataDir cf, ''firecracker'', ''jailer''];
          root = path_join [base, basename bin, iid, ''root'']
      in \<lparr>j_base = base, j_root = root, j_run = path_join [root, ''run''], j_image = path_join [root, ''workspace.ext4''],
          j_kernel = path_join [root, ''kernel''], j_rootfs = path_join [root, ''rootfs.ext4''],
          j_initramfs = path_join [root, ''initramfs'']\<rparr>)"

definition createInitramfs :: "'w fire_env \<Rightarrow> string \<Rightarrow> string \<Rightarrow> ('w firecracker, unit) io" where
  "createInitramfs env agentPath destination =
     io_bind (outside_io (fv_bytes env agentPath)) (\<lambda>agent. host env (H_write destination (initramfs agent) 288))"

definition copy_artifact :: "'w fire_env \<Rightarrow> string option \<Rightarrow> string \<Rightarrow> ('w firecracker, unit) io" where
  "copy_artifact env artifact path = io_bind (configured artifact) (\<lambda>p. host env (H_copy p path))"

definition disk_bytes :: "create_input \<Rightarrow> int" where
  "disk_bytes i = diskMiB (ci_resourceProfile i) * 1024 * 1024"

definition owners_and_modes :: "'w fire_env \<Rightarrow> jail \<Rightarrow> ('w firecracker, unit) io list" where
  "owners_and_modes env j =
     (let uid = unprivileged (fv_uid env); gid = unprivileged (fv_gid env) in
      map (\<lambda>(p, m). host env (H_chmod p m)) [(j_kernel j, 288), (j_rootfs j, 288), (j_initramfs j, 288), (j_image j, 432)] @
      map (\<lambda>p. host env (H_chown p uid gid)) [j_run j, j_kernel j, j_rootfs j, j_initramfs j, j_image j])"

text \<open>What comes before the jailer is started.\<close>

definition prepare_jail :: "'w fire_env \<Rightarrow> create_input \<Rightarrow> jail \<Rightarrow> ('w firecracker, unit) io" where
  "prepare_jail env i j = (let cf = fv_config env in
     io_bind (host env (H_mkdir (j_run j) (Some 504))) (\<lambda>_.
     io_bind (io_all [copy_artifact env (cf_firecrackerKernel cf) (j_kernel j),
       copy_artifact env (cf_firecrackerRootfs cf) (j_rootfs j)]) (\<lambda>_.
     io_bind (host env (H_new_file (j_image j) 384)) (\<lambda>_.
     io_bind (host env (H_truncate (j_image j) (disk_bytes i))) (\<lambda>_.
     io_bind (configured (fv_which env ''mkfs.ext4'')) (\<lambda>mkfs.
     io_bind (runTool env mkfs [''-q'', ''-F'', ''-d'', ci_workspacePath i, ''-L'', ''workspace'', j_image j]) (\<lambda>_.
     io_bind (configured (cf_agentArtifact cf)) (\<lambda>agent.
     io_bind (createInitramfs env agent (j_initramfs j)) (\<lambda>_.
     io_bind (io_all (owners_and_modes env j)) (\<lambda>_.
       configureCgroup env (ci_instanceId i) i (j_image j)))))))))))"

definition jailer_command :: "'w fire_env \<Rightarrow> create_input \<Rightarrow> jail \<Rightarrow> string \<Rightarrow> string \<Rightarrow> string list" where
  "jailer_command env i j bin jailer =
     [jailer, ''--id'', ci_instanceId i, ''--exec-file'', bin,
      ''--uid'', int_str (unprivileged (fv_uid env)), ''--gid'', int_str (unprivileged (fv_gid env)),
      ''--cgroup-version'', ''2'', ''--parent-cgroup'', ''electrosphere/'' @ ci_instanceId i,
      ''--chroot-base-dir'', j_base j, ''--resource-limit'', ''fsize='' @ int_str (disk_bytes i),
      ''--resource-limit'', ''no-file=1024'', ''--'', ''--api-sock'', ''/run/firecracker.socket'']"

definition api_socket :: "jail \<Rightarrow> string" where "api_socket j = path_join [j_run j, ''firecracker.socket'']"

text \<open>The requests that configure and start the machine, in their order.\<close>

definition guest_cid :: "(string \<Rightarrow> string) \<Rightarrow> string \<Rightarrow> nat" where
  "guest_cid sha iid = 3 + read_hex (bytes_of (take 6 (sha iid)))"

definition boot_requests :: "(string \<Rightarrow> string) \<Rightarrow> create_input \<Rightarrow> (string \<times> vm_request) list" where
  "boot_requests sha i =
     [(''/machine-config'', V_machine_config (vcpus (ci_resourceProfile i)) (memoryMiB (ci_resourceProfile i)) False False),
      (''/boot-source'', V_boot_source ''/kernel'' ''/initramfs''
         ''console=ttyS0 reboot=k panic=1 pci=off electrosphere.firecracker=1''),
      (''/drives/rootfs'', V_drive ''rootfs'' ''/rootfs.ext4'' True True),
      (''/drives/workspace'', V_drive ''workspace'' ''/workspace.ext4'' False False),
      (''/vsock'', V_vsock (guest_cid sha (ci_instanceId i)) ''/run/vsock.socket''),
      (''/actions'', V_action ''InstanceStart'')]"

fun put_all :: "'w fire_env \<Rightarrow> string \<Rightarrow> (string \<times> vm_request) list \<Rightarrow> ('w firecracker, unit) io" where
  "put_all env socket [] = io_return ()"
| "put_all env socket ((path, q) # rs) = io_bind (vm_api env socket path q) (\<lambda>_. put_all env socket rs)"

definition set_instance :: "fire_instance \<Rightarrow> ('w firecracker, unit) io" where
  "set_instance x s = (Inr (), s\<lparr>fk_instances := (fk_instances s)(fi_id x \<mapsto> x)\<rparr>)"

definition boot_machine :: "'w fire_env \<Rightarrow> create_input \<Rightarrow> jail \<Rightarrow> nat \<Rightarrow> ('w firecracker, backend_handle) run" where
  "boot_machine env i j p =
     run_bind (waitForSocket env (api_socket j) p) (\<lambda>_.
     run_bind (returns (put_all env (api_socket j) (boot_requests (gv_sha env) i))) (\<lambda>_.
     run_bind (fire_connect env (path_join [j_run j, ''vsock.socket'']) 15000) (\<lambda>t.
     run_bind (returns (set_instance \<lparr>fi_id = ci_instanceId i, fi_process = p, fi_apiSocket = api_socket j,
       fi_jailRoot = j_root j, fi_transport = t\<rparr>)) (\<lambda>_.
       returns (io_return \<lparr>h_backend = Firecracker, h_instanceId = ci_instanceId i, h_opaqueId = ci_instanceId i,
         h_workspacePath = ci_workspacePath i\<rparr>)))))"

text \<open>What is removed of a machine: the directory of its jail and its control group.\<close>

definition remove_machine :: "'w fire_env \<Rightarrow> string \<Rightarrow> string \<Rightarrow> ('w firecracker, unit) io" where
  "remove_machine env jailRoot iid =
     io_bind (host env (H_rm (dirname jailRoot))) (\<lambda>_.
       io_ignore (host env (H_rm (path_join [cgroup_parent, iid]))))"

definition fire_create :: "'w fire_env \<Rightarrow> create_input \<Rightarrow> ('w firecracker, backend_handle) run" where
  "fire_create env i =
     run_bind (returns (io_bind fire_ensureAvailable (\<lambda>_.
       io_require (ci_network i \<noteq> Net_egress)
         (service_err BACKEND_UNAVAILABLE ''Firecracker egress requires an installed nftables policy'')))) (\<lambda>_.
     run_bind (returns (configured (cf_firecrackerBin (fv_config env)))) (\<lambda>bin.
     let j = jail_paths (fv_config env) bin (ci_instanceId i) in
     run_bind (returns (prepare_jail env i j)) (\<lambda>_.
     run_bind (returns (configured (cf_jailerBin (fv_config env)))) (\<lambda>jailer.
     run_bind (returns (outside_io (fv_spawn env (jailer_command env i j bin jailer)))) (\<lambda>p.
       run_on_error (boot_machine env i j p)
         (io_bind (io_ignore (host env (H_kill p))) (\<lambda>_. remove_machine env (j_root j) (ci_instanceId i))))))))"

section \<open>The operations of a machine\<close>

definition instance_of :: "backend_handle \<Rightarrow> ('w firecracker, fire_instance) io" where
  "instance_of h s = (case fk_instances s (h_opaqueId h) of
     None \<Rightarrow> (Inl (service_err BACKEND_ERROR ''Firecracker instance is unavailable''), s)
   | Some x \<Rightarrow> (Inr x, s))"

definition fire_exec :: "'w fire_env \<Rightarrow> backend_handle \<Rightarrow> exec_input \<Rightarrow> (string \<times> string) list \<Rightarrow> ('w firecracker, execution_handle) io" where
  "fire_exec env h i variables = io_bind (instance_of h) (\<lambda>x. guest_exec Firecracker env (fi_transport x) h i variables)"

definition fire_poll :: "'w fire_env \<Rightarrow> execution_handle \<Rightarrow> int \<Rightarrow> ('w firecracker, execution_result) run" where
  "fire_poll env = guest_poll Firecracker env"

definition fire_write :: "'w fire_env \<Rightarrow> execution_handle \<Rightarrow> string \<Rightarrow> ('w firecracker, unit) io" where
  "fire_write env = guest_write Firecracker env"

definition fire_kill :: "'w fire_env \<Rightarrow> execution_handle \<Rightarrow> ('w firecracker, unit) io" where
  "fire_kill env = guest_kill Firecracker env"

definition fire_snapshot :: "'w fire_env \<Rightarrow> backend_handle \<Rightarrow> string \<Rightarrow> ('w firecracker, snapshot_result) io" where
  "fire_snapshot env h destination = io_bind (instance_of h) (\<lambda>x. guest_snapshot Firecracker env (fi_transport x) h destination)"

text \<open>\<open>fileTransport(handle).op(request)\<close>.\<close>

definition fire_file :: "'w fire_env \<Rightarrow> backend_handle \<Rightarrow> ((agent_request \<Rightarrow> ('w, agent_response) io) \<Rightarrow> ('w, 'a) io)
    \<Rightarrow> ('w firecracker, 'a) io" where
  "fire_file env h op s = (case fk_instances s (h_opaqueId h) of
     None \<Rightarrow> (Inl (service_err NOT_FOUND ''Firecracker turn runtime is unavailable''), s)
   | Some x \<Rightarrow> guest_file env (fi_transport x) op s)"

definition fire_fileRead :: "(agent_response \<Rightarrow> nat) \<Rightarrow> 'w fire_env \<Rightarrow> backend_handle \<Rightarrow> file_read_input \<Rightarrow> ('w firecracker, file_read_result) io" where
  "fire_fileRead jsonSize env h i = fire_file env h (\<lambda>send. agent_read jsonSize send i)"

definition fire_fileReadBytes :: "'w fire_env \<Rightarrow> backend_handle \<Rightarrow> string \<Rightarrow> nat \<Rightarrow> nat \<Rightarrow> ('w firecracker, read_bytes_result) io" where
  "fire_fileReadBytes env h path offset limit = fire_file env h (\<lambda>send. readBytes send path offset limit)"

definition fire_fileWrite :: "'w fire_env \<Rightarrow> backend_handle \<Rightarrow> string \<Rightarrow> string \<Rightarrow> bool \<Rightarrow> byte_stream \<Rightarrow> ('w firecracker, file_write_result) io" where
  "fire_fileWrite env h transferId path createParents source =
     fire_file env h (\<lambda>send. agent_write send transferId path createParents source)"

definition fire_fileEdit :: "'w fire_env \<Rightarrow> backend_handle \<Rightarrow> string \<Rightarrow> digest \<Rightarrow> file_edit list \<Rightarrow> ('w firecracker, file_edit_result) io" where
  "fire_fileEdit env h path expectedDigest edits = fire_file env h (\<lambda>send. agent_edit send path expectedDigest edits)"

definition fire_fileGlob :: "(agent_response \<Rightarrow> nat) \<Rightarrow> 'w fire_env \<Rightarrow> backend_handle \<Rightarrow> file_glob_input \<Rightarrow> ('w firecracker, file_glob_result) io" where
  "fire_fileGlob jsonSize env h i = fire_file env h (\<lambda>send. agent_glob jsonSize send i)"

definition fire_fileGrep :: "(agent_response \<Rightarrow> nat) \<Rightarrow> 'w fire_env \<Rightarrow> backend_handle \<Rightarrow> file_grep_input \<Rightarrow> ('w firecracker, file_grep_result) io" where
  "fire_fileGrep jsonSize env h i = fire_file env h (\<lambda>send. agent_grep jsonSize send i)"

definition fire_fileStat :: "'w fire_env \<Rightarrow> backend_handle \<Rightarrow> string \<Rightarrow> ('w firecracker, file_stat_result) io" where
  "fire_fileStat env h path = fire_file env h (\<lambda>send. agent_stat send path)"

definition fire_fileMove :: "'w fire_env \<Rightarrow> backend_handle \<Rightarrow> string \<Rightarrow> string \<Rightarrow> ('w firecracker, string \<times> string) io" where
  "fire_fileMove env h source destination = fire_file env h (\<lambda>send. agent_move send source destination)"

definition fire_fileRemove :: "'w fire_env \<Rightarrow> backend_handle \<Rightarrow> string \<Rightarrow> ('w firecracker, unit) io" where
  "fire_fileRemove env h path = fire_file env h (\<lambda>send. agent_remove send path)"

section \<open>Destroying a machine\<close>

definition stop_process :: "'w fire_env \<Rightarrow> nat \<Rightarrow> 'w firecracker \<Rightarrow> 'w firecracker" where
  "stop_process env p s =
     (let s = s\<lparr>gs_world := fv_exit_within env p 1000 (gs_world s)\<rparr> in
      if fv_exitCode env p (gs_world s) = None then snd (host env (H_kill p) s) else s)"

definition fire_destroy :: "'w fire_env \<Rightarrow> backend_handle \<Rightarrow> ('w firecracker, unit) io" where
  "fire_destroy env h s = (case fk_instances s (h_opaqueId h) of
     None \<Rightarrow> (Inr (), s)
   | Some x \<Rightarrow>
       (let s = end_executions env (Some (fi_transport x)) (gs_executions s) s;
            s = s\<lparr>gs_world := fv_close env (fi_transport x) (gs_world s)\<rparr>;
            s = snd (vm_api env (fi_apiSocket x) ''/actions'' (V_action ''SendCtrlAltDel'') s);
            s = stop_process env (fi_process x) s;
            s = s\<lparr>fk_instances := (fk_instances s)(h_opaqueId h := None)\<rparr>
        in remove_machine env (fi_jailRoot x) (fi_id x) s))"

end
