(* ===== verification/Firecracker_Inv.thy ===== *)
theory Firecracker_Inv
  imports Firecracker Guest_Inv
begin

text \<open>
  What the operations of the Firecracker backend leave behind: creating a machine returns, and
  what it did to the host when it succeeds and when it fails.
\<close>

section \<open>The clock ends the waiting\<close>

definition fire_clock_goes_on :: "'w fire_env \<Rightarrow> bool" where
  "fire_clock_goes_on env \<longleftrightarrow> clock_goes_on env \<and>
     (\<forall>p m w. gv_clock env w \<le> gv_clock env (snd (fv_access env p m w))) \<and>
     (\<forall>p w. gv_clock env w \<le> gv_clock env (snd (fv_connect env p w)))"

lemma outside_clock:
  "(\<And>w. gv_clock env w \<le> gv_clock env (snd (m w))) \<Longrightarrow> clock_of env s \<le> clock_of env (snd (outside_io m s))"
  by (simp add: outside_io_def split: prod.splits) (metis snd_conv)

lemma vsock_connected_clock:
  assumes "clock_goes_on env"
  shows "gv_clock env w \<le> gv_clock env (snd (vsock_connected (gv_send env t) ready w))"
  using assms unfolding clock_goes_on_def vsock_connected_def io_bind_def io_res_def
  by (auto split: sum.splits prod.splits) (metis snd_conv)+

lemma connect_once_clock:
  assumes "fire_clock_goes_on env"
  shows "clock_of env s \<le> clock_of env (snd (connect_once env path s))"
proof -
  obtain r s1 where c: "outside_io (fv_connect env path) s = (r, s1)" by force
  have s1: "clock_of env s \<le> clock_of env s1"
    using outside_clock [of env "fv_connect env path" s] assms c by (simp add: fire_clock_goes_on_def)
  show ?thesis
  proof (cases r)
    case (Inl e)
    then show ?thesis using c s1 by (simp add: connect_once_def io_bind_def)
  next
    case (Inr x)
    obtain t ready where x: "x = (t, ready)" by force
    obtain q s2 where v: "outside_io (vsock_connected (gv_send env t) ready) s1 = (q, s2)" by force
    have "clock_of env s1 \<le> clock_of env s2"
      using outside_clock [of env "vsock_connected (gv_send env t) ready" s1, OF vsock_connected_clock] assms v
      by (simp add: fire_clock_goes_on_def)
    then show ?thesis using c s1 v Inr x by (cases q) (simp_all add: connect_once_def io_bind_def io_return_def)
  qed
qed

text \<open>The loops end, and what their calls and pauses keep is kept.\<close>

lemma wait_socket_ends:
  fixes env :: "'w fire_env"
  assumes clock: "fire_clock_goes_on env" and start: "J s"
    and access: "\<And>s. J s \<Longrightarrow> J (snd (outside_io (fv_access env path Acc_exists) s))" and pause: "\<And>ms s. J s \<Longrightarrow> J (pause env ms s)"
  shows "\<exists>y. wait_socket env path p deadline s = Some y \<and> J (snd y)"
  using start
proof (induction s rule: deadline_induct [where clock = "clock_of env" and deadline = deadline])
  case (1 s)
  let ?u = "snd (outside_io (fv_access env path Acc_exists) s)"
  have "clock_of env s \<le> clock_of env ?u" using clock by (intro outside_clock) (simp add: fire_clock_goes_on_def)
  also have "\<dots> < clock_of env (pause env 25 ?u)" using clock by (intro pause_clock) (simp_all add: fire_clock_goes_on_def)
  finally show ?case
    using 1 access pause [of ?u 25] by (subst wait_socket.simps) (simp add: Let_def)
qed

lemma connect_until_ends:
  fixes env :: "'w fire_env"
  assumes clock: "fire_clock_goes_on env" and start: "J s"
    and once: "\<And>s. J s \<Longrightarrow> J (snd (connect_once env path s))" and pause: "\<And>ms s. J s \<Longrightarrow> J (pause env ms s)"
  shows "\<exists>y. connect_until env path deadline e s = Some y \<and> J (snd y)"
  using start
proof (induction s arbitrary: e rule: deadline_induct [where clock = "clock_of env" and deadline = deadline])
  case (1 s e)
  let ?u = "snd (connect_once env path s)"
  have "clock_of env s \<le> clock_of env ?u" by (rule connect_once_clock [OF clock])
  also have "\<dots> < clock_of env (pause env 50 ?u)" using clock by (intro pause_clock) (simp_all add: fire_clock_goes_on_def)
  finally show ?case using 1 once pause [of ?u 50]
    by (cases "connect_once env path s") (subst connect_until.simps, force simp: Let_def)
qed

lemma fire_create_returns:
  assumes "fire_clock_goes_on env"
  shows "\<exists>y. fire_create env i s = Some y"
proof -
  have "\<exists>y. wait_socket env path p deadline s = Some y" "\<exists>y. connect_until env path deadline e s = Some y" for path p deadline e s
    using wait_socket_ends [OF assms, of "\<lambda>_. True"] connect_until_ends [OF assms, of "\<lambda>_. True"] by blast+
  then show ?thesis unfolding fire_create_def boot_machine_def waitForSocket_def fire_connect_def Let_def
    by (intro run_bind_returns run_on_error_returns returns_returns) blast+
qed

section \<open>A log of what is done to the host\<close>

datatype host_event = E_host host_op | E_spawn "string list" nat | E_put string string vm_request

type_synonym 'w logged_machine = "('w \<times> host_event list) firecracker"

text \<open>The log has every change of the host, every process that was started and every request to a
  machine; the other calls leave it as it is.\<close>

definition host_recording :: "('w \<times> host_event list) fire_env \<Rightarrow> bool" where
  "host_recording env \<longleftrightarrow>
     (\<forall>op w. snd (snd (fv_host env op w)) = snd w @ [E_host op]) \<and>
     (\<forall>c w. snd (snd (fv_spawn env c w)) = snd w @ (case fst (fv_spawn env c w) of Inr p \<Rightarrow> [E_spawn c p] | Inl _ \<Rightarrow> [])) \<and>
     (\<forall>k p q w. snd (snd (fv_put env k p q w)) = snd w @ [E_put k p q]) \<and>
     (\<forall>p m w. snd (snd (fv_access env p m w)) = snd w) \<and> (\<forall>p w. snd (snd (fv_bytes env p w)) = snd w) \<and>
     (\<forall>p w. snd (snd (fv_stat env p w)) = snd w) \<and> (\<forall>p w. snd (snd (fv_exists env p w)) = snd w) \<and>
     (\<forall>c a w. snd (snd (fv_tool env c a w)) = snd w) \<and> (\<forall>p w. snd (snd (fv_connect env p w)) = snd w) \<and>
     (\<forall>t q w. snd (snd (gv_send env t q w)) = snd w) \<and> (\<forall>ms w. snd (gv_sleep env ms w) = snd w)"

lemma recorded_events:
  assumes "host_recording env"
  shows "snd (snd (fv_host env op w)) = snd w @ [E_host op]"
    "snd (snd (fv_spawn env c w)) = snd w @ (case fst (fv_spawn env c w) of Inr p \<Rightarrow> [E_spawn c p] | Inl _ \<Rightarrow> [])"
    "snd (snd (fv_put env k p q w)) = snd w @ [E_put k p q]"
    "snd (snd (fv_access env p m w)) = snd w" "snd (snd (fv_bytes env p w)) = snd w" "snd (snd (fv_stat env p w)) = snd w"
    "snd (snd (fv_exists env p w)) = snd w" "snd (snd (fv_tool env f a w)) = snd w" "snd (snd (fv_connect env p w)) = snd w"
    "snd (snd (gv_send env t r w)) = snd w" "snd (gv_sleep env ms w) = snd w"
  using assms unfolding host_recording_def by (simp_all del: split_paired_All)

definition events :: "'w logged_machine \<Rightarrow> host_event list" where "events s = snd (gs_world s)"

text \<open>A computation that only adds events of one kind to the log; the instances stay.\<close>

definition adds_only :: "(host_event \<Rightarrow> bool) \<Rightarrow> ('w logged_machine, 'a) io \<Rightarrow> bool" where
  "adds_only P m \<longleftrightarrow> (\<forall>s r s'. m s = (r, s') \<longrightarrow>
     fk_instances s' = fk_instances s \<and> (\<exists>es. events s' = events s @ es \<and> list_all P es))"

lemma adds_only_outside:
  fixes m :: "('w \<times> host_event list, 'a) io"
  assumes "\<And>w. \<exists>es. snd (snd (m w)) = snd w @ es \<and> list_all P es"
  shows "adds_only P (outside_io m)"
  unfolding adds_only_def
proof (intro allI impI conjI)
  fix s s' :: "'w logged_machine" and r assume run: "outside_io m s = (r, s')"
  then show "fk_instances s' = fk_instances s" by (auto simp: outside_io_iff)
  show "\<exists>es. events s' = events s @ es \<and> list_all P es"
    using run assms [of "gs_world s"] by (auto simp: outside_io_iff events_def)
qed

lemma adds_only_host: "host_recording env \<Longrightarrow> P (E_host op) \<Longrightarrow> adds_only P (host env op)"
  unfolding host_def by (rule adds_only_outside) (simp add: recorded_events)

lemma adds_only_silent: "(\<And>w. snd (snd (m w)) = snd w) \<Longrightarrow> adds_only P (outside_io m)"
  by (rule adds_only_outside) simp

lemma adds_only_bind:
  assumes "adds_only P m" "\<And>x. adds_only P (f x)"
  shows "adds_only P (io_bind m f)"
  unfolding adds_only_def
proof (intro allI impI)
  fix s r s' assume run: "io_bind m f s = (r, s')"
  obtain q s1 where m: "m s = (q, s1)" by force
  obtain es where es: "fk_instances s1 = fk_instances s" "events s1 = events s @ es" "list_all P es"
    using assms(1) m unfolding adds_only_def by blast
  show "fk_instances s' = fk_instances s \<and> (\<exists>es. events s' = events s @ es \<and> list_all P es)"
  proof (cases q)
    case (Inl e)
    then show ?thesis using run m es by (auto simp: io_bind_def)
  next
    case (Inr x)
    then have "f x s1 = (r, s')" using run m by (simp add: io_bind_def)
    then obtain ds where "fk_instances s' = fk_instances s1" "events s' = events s1 @ ds" "list_all P ds"
      using assms(2) [of x] unfolding adds_only_def by blast
    then show ?thesis using es by (intro conjI exI [of _ "es @ ds"]) simp_all
  qed
qed

lemma adds_only_res [simp]:
  "adds_only P (io_return x)" "adds_only P (io_throw e)" "adds_only P (io_require c e)" "adds_only P (configured v)"
  by (auto simp: adds_only_def io_return_def io_throw_def io_require_def configured_def split: if_splits option.splits)

lemma adds_only_all: "list_all (adds_only P) ms \<Longrightarrow> adds_only P (io_all ms)"
proof (induction ms)
  case (Cons m ms)
  have "adds_only P m" "adds_only P (io_all ms)" using Cons by simp_all
  note both = this
  show ?case unfolding adds_only_def
  proof (intro allI impI)
    fix s r s' assume run: "io_all (m # ms) s = (r, s')"
    obtain q s1 where m: "m s = (q, s1)" by force
    obtain q2 where rest: "io_all ms s1 = (q2, s')" using run m by (auto split: prod.splits)
    obtain es ds where "fk_instances s1 = fk_instances s" "events s1 = events s @ es" "list_all P es"
        "fk_instances s' = fk_instances s1" "events s' = events s1 @ ds" "list_all P ds"
      using both m rest unfolding adds_only_def by meson
    then show "fk_instances s' = fk_instances s \<and> (\<exists>es. events s' = events s @ es \<and> list_all P es)"
      by (intro conjI exI [of _ "es @ ds"]) simp_all
  qed
qed (simp add: adds_only_def)

lemma adds_only_if: "adds_only P m \<Longrightarrow> adds_only P n \<Longrightarrow> adds_only P (if c then m else n)" by simp

lemma runTool_adds: "host_recording env \<Longrightarrow> adds_only P (runTool env c a)"
  unfolding runTool_def
  by (intro adds_only_bind adds_only_silent adds_only_if adds_only_res) (rule recorded_events)

text \<open>Preparing the jail changes files only, and removes nothing.\<close>

definition preparing :: "host_event \<Rightarrow> bool" where
  "preparing e \<longleftrightarrow> (case e of E_host op \<Rightarrow> (case op of H_rm p \<Rightarrow> False | H_kill p \<Rightarrow> False | _ \<Rightarrow> True) | _ \<Rightarrow> False)"

lemma preparing_host [simp]:
  "preparing (E_host (H_mkdir p m))" "preparing (E_host (H_copy p q))" "preparing (E_host (H_new_file p n))"
  "preparing (E_host (H_truncate p i))" "preparing (E_host (H_write p bs n))" "preparing (E_host (H_chmod p n))"
  "preparing (E_host (H_chown p u g))" "preparing (E_host (H_overwrite p c))"
  by (simp_all add: preparing_def)

lemma configureCgroup_adds: "host_recording env \<Longrightarrow> adds_only preparing (configureCgroup env iid i w)"
  unfolding configureCgroup_def writeCgroupFile_def Let_def
  by (intro adds_only_bind adds_only_host adds_only_silent adds_only_all)
    (auto simp: recorded_events intro!: adds_only_host)

lemma prepare_jail_adds: "host_recording env \<Longrightarrow> adds_only preparing (prepare_jail env i j)"
  unfolding prepare_jail_def createInitramfs_def Let_def
  by (intro adds_only_bind adds_only_host adds_only_silent adds_only_all adds_only_res runTool_adds configureCgroup_adds)
    (auto simp: recorded_events owners_and_modes_def copy_artifact_def Let_def list_all_iff
      intro!: adds_only_host adds_only_bind)

section \<open>What a successful preparation has done\<close>

definition leaves :: "host_event \<Rightarrow> ('w logged_machine, 'a) io \<Rightarrow> bool" where
  "leaves e m \<longleftrightarrow> (\<forall>s x s'. m s = (Inr x, s') \<longrightarrow> (\<exists>es. events s' = events s @ es \<and> e \<in> set es))"

lemma leaves_host: "host_recording env \<Longrightarrow> leaves (E_host op) (host env op)"
  unfolding leaves_def host_def outside_io_iff events_def
  by (auto simp del: split_paired_All intro!: exI [of _ "[E_host op]"]) (metis recorded_events(1) snd_conv)

lemma io_bind_run:
  "io_bind m f s = (Inr x, s') \<Longrightarrow> \<exists>y s1. m s = (Inr y, s1) \<and> f y s1 = (Inr x, s')"
  by (auto simp: io_bind_def split: prod.splits sum.splits)

lemma leaves_later:
  assumes "adds_only preparing m" "\<And>x. leaves e (f x)"
  shows "leaves e (io_bind m f)"
  unfolding leaves_def
proof (intro allI impI)
  fix s x s' assume "io_bind m f s = (Inr x, s')"
  then obtain y s1 where run: "m s = (Inr y, s1)" "f y s1 = (Inr x, s')" by (blast dest: io_bind_run)
  then obtain es ds where "events s1 = events s @ es" "events s' = events s1 @ ds" "e \<in> set ds"
    using assms unfolding adds_only_def leaves_def by meson
  then show "\<exists>es. events s' = events s @ es \<and> e \<in> set es" by (intro exI [of _ "es @ ds"]) simp
qed

lemma leaves_now:
  assumes "leaves e m" "\<And>x. adds_only preparing (f x)"
  shows "leaves e (io_bind m f)"
  unfolding leaves_def
proof (intro allI impI)
  fix s x s' assume "io_bind m f s = (Inr x, s')"
  then obtain y s1 where run: "m s = (Inr y, s1)" "f y s1 = (Inr x, s')" by (blast dest: io_bind_run)
  then obtain es ds where "events s1 = events s @ es" "events s' = events s1 @ ds" "e \<in> set es"
    using assms unfolding adds_only_def leaves_def by meson
  then show "\<exists>es. events s' = events s @ es \<and> e \<in> set es" by (intro exI [of _ "es @ ds"]) simp
qed

lemma leaves_all:
  assumes "m \<in> set ms" "leaves e m" "list_all (adds_only preparing) ms"
  shows "leaves e (io_all ms)"
  using assms(1,3)
proof (induction ms)
  case (Cons n ms)
  show ?case unfolding leaves_def
  proof (intro allI impI)
    fix s x s' assume run: "io_all (n # ms) s = (Inr x, s')"
    obtain q s1 r s2 where q: "n s = (q, s1)" "io_all ms s1 = (r, s2)" by force
    then have "s2 = s'" "(if is_ok q then r else q) = Inr x" using run by simp_all
    then obtain y where n: "n s = (Inr y, s1)" and ms: "io_all ms s1 = (Inr x, s')"
      using q by (cases q) simp_all
    have "adds_only preparing n" "adds_only preparing (io_all ms)" using Cons(3) by (auto intro: adds_only_all)
    then obtain es ds where es: "events s1 = events s @ es" "events s' = events s1 @ ds"
      using n ms unfolding adds_only_def by meson
    have "e \<in> set es \<or> e \<in> set ds"
    proof (cases "m = n")
      case True
      then show ?thesis using assms(2) n es(1) unfolding leaves_def by (metis same_append_eq)
    next
      case False
      then have "leaves e (io_all ms)" using Cons by simp
      then show ?thesis using ms es(2) unfolding leaves_def by (metis same_append_eq)
    qed
    then show "\<exists>es. events s' = events s @ es \<and> e \<in> set es" using es by (intro exI [of _ "es @ ds"]) auto
  qed
qed simp

text \<open>What confines a machine: the size of its disk, the owners and modes of its files, its limits.\<close>

definition confinement :: "'w fire_env \<Rightarrow> create_input \<Rightarrow> jail \<Rightarrow> host_op list" where
  "confinement env i j =
     (let profile = ci_resourceProfile i; uid = unprivileged (fv_uid env); gid = unprivileged (fv_gid env);
          path = path_join [cgroup_parent, ci_instanceId i] in
      [H_truncate (j_image j) (diskMiB profile * 1024 * 1024),
       H_chmod (j_kernel j) 288, H_chmod (j_rootfs j) 288, H_chmod (j_initramfs j) 288, H_chmod (j_image j) 432,
       H_chown (j_run j) uid gid, H_chown (j_kernel j) uid gid, H_chown (j_rootfs j) uid gid,
       H_chown (j_initramfs j) uid gid, H_chown (j_image j) uid gid,
       H_overwrite (path_join [path, ''memory.max'']) (int_str (memoryMiB profile * 1024 * 1024)),
       H_overwrite (path_join [path, ''memory.swap.max'']) ''0'',
       H_overwrite (path_join [path, ''cpu.max'']) (int_str (vcpus profile * 100000) @ '' '' @ int_str 100000),
       H_overwrite (path_join [path, ''pids.max'']) (int_str (pidsMax profile))])"

lemma owners_leave:
  assumes "host_recording env" "host env op \<in> set (owners_and_modes env j)"
  shows "leaves (E_host op) (io_all (owners_and_modes env j))"
  using assms by (intro leaves_all [OF assms(2) leaves_host])
    (auto simp: owners_and_modes_def Let_def intro!: adds_only_host)

lemma cgroup_leaves:
  assumes rec: "host_recording env"
    and op: "op \<in> {H_overwrite (path_join [path_join [cgroup_parent, iid], ''memory.max'']) (int_str (memoryMiB (ci_resourceProfile i) * 1024 * 1024)),
      H_overwrite (path_join [path_join [cgroup_parent, iid], ''memory.swap.max'']) ''0'',
      H_overwrite (path_join [path_join [cgroup_parent, iid], ''cpu.max'']) (int_str (vcpus (ci_resourceProfile i) * 100000) @ '' '' @ int_str 100000),
      H_overwrite (path_join [path_join [cgroup_parent, iid], ''pids.max'']) (int_str (pidsMax (ci_resourceProfile i)))}"
  shows "leaves (E_host op) (configureCgroup env iid i w)"
  unfolding configureCgroup_def writeCgroupFile_def Let_def
  by (intro leaves_later adds_only_host adds_only_silent leaves_all [where m = "host env op"] leaves_host rec)
    (use op in \<open>auto simp: recorded_events [OF rec] intro!: adds_only_host rec\<close>)

lemma confinement_leaves:
  assumes rec: "host_recording env" and op: "op \<in> set (confinement env i j)"
  shows "leaves (E_host op) (prepare_jail env i j)"
proof -
  have copies: "adds_only preparing (io_all [copy_artifact env a (j_kernel j), copy_artifact env b (j_rootfs j)])" for a b
    using rec by (intro adds_only_all) (auto simp: copy_artifact_def intro!: adds_only_bind adds_only_host)
  have ram: "adds_only preparing (createInitramfs env a f)" for a f
    unfolding createInitramfs_def by (intro adds_only_bind adds_only_silent adds_only_host rec) (simp_all add: recorded_events [OF rec])
  have owners: "adds_only preparing (io_all (owners_and_modes env j))"
    using rec by (intro adds_only_all) (auto simp: owners_and_modes_def Let_def intro!: adds_only_host)
  note adds = adds_only_host [OF rec] copies runTool_adds [OF rec] ram owners adds_only_res configureCgroup_adds [OF rec]
  consider "op = H_truncate (j_image j) (disk_bytes i)" | "host env op \<in> set (owners_and_modes env j)"
    | "leaves (E_host op) (configureCgroup env (ci_instanceId i) i (j_image j))"
    using op cgroup_leaves [OF rec, of _ "ci_instanceId i" i "j_image j"]
    by (auto simp: confinement_def owners_and_modes_def Let_def disk_bytes_def)
  then show ?thesis
  proof cases
    case 1
    show ?thesis unfolding prepare_jail_def Let_def 1
      by (rule leaves_later, intro adds, simp, rule leaves_later, intro adds, rule leaves_later, intro adds, simp,
          rule leaves_now, intro leaves_host rec, intro adds_only_bind adds)
  next
    case 2
    show ?thesis unfolding prepare_jail_def Let_def
      by (intro leaves_later adds leaves_now owners_leave rec 2) simp_all
  next
    case 3
    show ?thesis unfolding prepare_jail_def Let_def
      by (intro leaves_later adds 3) simp_all
  qed
qed

section \<open>Booting\<close>

definition put_events :: "string \<Rightarrow> (string \<times> vm_request) list \<Rightarrow> host_event list" where
  "put_events k rs = map (\<lambda>(path, q). E_put k path q) rs"

lemma put_all_events:
  assumes "host_recording env" "put_all env k rs s = (r, s')"
  shows "fk_instances s' = fk_instances s \<and> (\<exists>n. events s' = events s @ put_events k (take n rs) \<and> (is_ok r \<longrightarrow> n = length rs))"
  using assms(2)
proof (induction rs arbitrary: s)
  case Nil
  then show ?case by (auto simp: io_return_def put_events_def)
next
  case (Cons x rs)
  obtain path q where x: "x = (path, q)" by force
  obtain a s1 where a: "vm_api env k path q s = (a, s1)" by force
  obtain z w where put: "fv_put env k path q (gs_world s) = (z, w)" by (rule prod.exhaust)
  have "s1 = s\<lparr>gs_world := w\<rparr>"
    using a put by (auto simp: vm_api_def outside_io_def io_bind_def io_require_def split: sum.splits if_splits)
  then have s1: "events s1 = events s @ [E_put k path q]" "fk_instances s1 = fk_instances s"
    using recorded_events(3) [OF assms(1), of k path q "gs_world s"] put by (simp_all add: events_def)
  show ?case
  proof (cases a)
    case (Inl e)
    then have "r = Inl e" "s' = s1" using Cons(2) a by (simp_all add: x io_bind_def)
    then show ?thesis using s1 by (intro conjI exI [of _ 1]) (simp_all add: x put_events_def)
  next
    case (Inr u)
    then have "put_all env k rs s1 = (r, s')" using Cons(2) a by (simp add: x io_bind_def)
    then obtain n where "fk_instances s' = fk_instances s1" "events s' = events s1 @ put_events k (take n rs)" "is_ok r \<longrightarrow> n = length rs"
      using Cons(1) by blast
    then show ?thesis using s1 by (intro conjI exI [of _ "Suc n"]) (simp_all add: x put_events_def)
  qed
qed

text \<open>The waits leave the log and the instances as they are.\<close>

lemma waits_silent:
  assumes "fire_clock_goes_on env" "host_recording env"
  shows "\<exists>y. wait_socket env path p deadline s = Some y \<and> events (snd y) = events s \<and> fk_instances (snd y) = fk_instances s"
    and "\<exists>y. connect_until env path deadline e s = Some y \<and> events (snd y) = events s \<and> fk_instances (snd y) = fk_instances s"
proof -
  let ?J = "\<lambda>u. events u = events s \<and> fk_instances u = fk_instances s"
  have "es = []" if "list_all (\<lambda>_. False) es" for es :: "host_event list" using that by (cases es) simp_all
  then have silent: "?J u \<Longrightarrow> adds_only (\<lambda>_. False) m \<Longrightarrow> ?J (snd (m u))" for u and m :: "('a logged_machine, 'z) io"
    unfolding adds_only_def by (metis append_Nil2 surjective_pairing)
  have pause: "?J u \<Longrightarrow> ?J (pause env ms u)" for ms u
    by (simp add: pause_def events_def recorded_events(11) [OF assms(2)])
  have "adds_only (\<lambda>_. False) (outside_io (fv_access env path Acc_exists))"
    by (rule adds_only_silent) (rule recorded_events [OF assms(2)])
  then show "\<exists>y. wait_socket env path p deadline s = Some y \<and> events (snd y) = events s \<and> fk_instances (snd y) = fk_instances s"
    using silent by (intro wait_socket_ends [where J = ?J] assms(1) pause) simp_all
  have "snd (snd (vsock_connected (gv_send env t) ready w)) = snd w" for t ready w
    using recorded_events(10) [OF assms(2)] by (simp add: vsock_connected_def io_bind_def io_res_def split: sum.splits prod.splits) (metis snd_conv)
  then have "adds_only (\<lambda>_. False) (connect_once env path)"
    unfolding connect_once_def by (intro adds_only_bind adds_only_silent) (auto simp: recorded_events [OF assms(2)] intro!: adds_only_bind adds_only_silent)
  then show "\<exists>y. connect_until env path deadline e s = Some y \<and> events (snd y) = events s \<and> fk_instances (snd y) = fk_instances s"
    using silent by (intro connect_until_ends [where J = ?J] assms(1) pause) simp_all
qed

definition booted :: "create_input \<Rightarrow> jail \<Rightarrow> nat \<Rightarrow> 'w firecracker \<Rightarrow> backend_handle \<Rightarrow> 'w firecracker \<Rightarrow> bool" where
  "booted i j p s h s' \<longleftrightarrow>
     h = \<lparr>h_backend = Firecracker, h_instanceId = ci_instanceId i, h_opaqueId = ci_instanceId i, h_workspacePath = ci_workspacePath i\<rparr> \<and>
     (\<exists>t. fk_instances s' = (fk_instances s)(ci_instanceId i \<mapsto> \<lparr>fi_id = ci_instanceId i, fi_process = p,
        fi_apiSocket = api_socket j, fi_jailRoot = j_root j, fi_transport = t\<rparr>))"

lemma boot_machine_outcome:
  assumes "fire_clock_goes_on env" "host_recording env"
  shows "\<exists>r s' n. boot_machine env i j p s = Some (r, s') \<and>
    events s' = events s @ put_events (api_socket j) (take n (boot_requests (gv_sha env) i)) \<and>
    (case r of Inl e \<Rightarrow> fk_instances s' = fk_instances s
     | Inr h \<Rightarrow> n = length (boot_requests (gv_sha env) i) \<and> booted i j p s h s')"
proof -
  let ?k = "api_socket j" and ?rs = "boot_requests (gv_sha env) i"
  obtain r1 s1 where w: "waitForSocket env ?k p s = Some (r1, s1)" "events s1 = events s" "fk_instances s1 = fk_instances s"
    unfolding waitForSocket_def using waits_silent(1) [OF assms] by (metis surjective_pairing)
  show ?thesis
  proof (cases r1)
    case (Inl e)
    then show ?thesis using w by (intro exI [of _ "Inl e"] exI [of _ s1] exI [of _ 0])
      (simp add: boot_machine_def run_bind_def put_events_def)
  next
    case r1: (Inr u)
    obtain r2 s2 where put: "put_all env ?k ?rs s1 = (r2, s2)" by force
    from put_all_events [OF assms(2) put] obtain n where
      n: "fk_instances s2 = fk_instances s" "events s2 = events s @ put_events ?k (take n ?rs)" "is_ok r2 \<longrightarrow> n = length ?rs"
      using w by auto
    show ?thesis
    proof (cases r2)
      case (Inl e)
      then show ?thesis using w r1 put n by (intro exI [of _ "Inl e"] exI [of _ s2] exI [of _ n])
        (simp add: boot_machine_def run_bind_def returns_def)
    next
      case r2: (Inr u)
      obtain r3 s3 where c: "fire_connect env (path_join [j_run j, ''vsock.socket'']) 15000 s2 = Some (r3, s3)"
          "events s3 = events s2" "fk_instances s3 = fk_instances s2"
        unfolding fire_connect_def using waits_silent(2) [OF assms] by (metis surjective_pairing)
      show ?thesis
      proof (cases r3)
        case (Inl e)
        then show ?thesis using w r1 put n r2 c by (intro exI [of _ "Inl e"] exI [of _ s3] exI [of _ n])
          (simp add: boot_machine_def run_bind_def returns_def)
      next
        case (Inr t)
        let ?x = "\<lparr>fi_id = ci_instanceId i, fi_process = p, fi_apiSocket = ?k, fi_jailRoot = j_root j, fi_transport = t\<rparr>"
        let ?h = "\<lparr>h_backend = Firecracker, h_instanceId = ci_instanceId i, h_opaqueId = ci_instanceId i, h_workspacePath = ci_workspacePath i\<rparr>"
        have "boot_machine env i j p s = Some (Inr ?h, s3\<lparr>fk_instances := (fk_instances s3)(ci_instanceId i \<mapsto> ?x)\<rparr>)"
          using w r1 put r2 c Inr by (simp add: boot_machine_def run_bind_def returns_def set_instance_def io_return_def)
        moreover have "n = length ?rs" using n r2 by simp
        ultimately show ?thesis using n c w
          by (intro exI [of _ "Inr ?h"] exI [of _ "s3\<lparr>fk_instances := (fk_instances s3)(ci_instanceId i \<mapsto> ?x)\<rparr>"] exI [of _ n])
            (auto simp: booted_def events_def)
      qed
    qed
  qed
qed

section \<open>Creating a machine, and removing it again\<close>

lemma adds_only_run:
  "adds_only P m \<Longrightarrow> m s = (r, s') \<Longrightarrow> fk_instances s' = fk_instances s \<and> (\<exists>es. events s' = events s @ es \<and> list_all P es)"
  unfolding adds_only_def by blast

text \<open>What comes before the jailer is started.\<close>

definition before_jailer :: "'w fire_env \<Rightarrow> create_input \<Rightarrow> ('w firecracker, string \<times> string \<times> jail) io" where
  "before_jailer env i =
     io_bind (io_bind fire_ensureAvailable (\<lambda>_. io_require (ci_network i \<noteq> Net_egress)
       (service_err BACKEND_UNAVAILABLE ''Firecracker egress requires an installed nftables policy''))) (\<lambda>_.
     io_bind (configured (cf_firecrackerBin (fv_config env))) (\<lambda>bin.
     let j = jail_paths (fv_config env) bin (ci_instanceId i) in
     io_bind (prepare_jail env i j) (\<lambda>_.
     io_bind (configured (cf_jailerBin (fv_config env))) (\<lambda>jailer. io_return (bin, jailer, j)))))"

definition clean_up :: "'w fire_env \<Rightarrow> create_input \<Rightarrow> jail \<Rightarrow> nat \<Rightarrow> ('w firecracker, unit) io" where
  "clean_up env i j p = io_bind (io_ignore (host env (H_kill p))) (\<lambda>_. remove_machine env (j_root j) (ci_instanceId i))"

lemma fire_create_parts:
  "fire_create env i s = (case before_jailer env i s of
     (Inl e, s) \<Rightarrow> Some (Inl e, s)
   | (Inr (bin, jailer, j), s) \<Rightarrow> (case outside_io (fv_spawn env (jailer_command env i j bin jailer)) s of
       (Inl e, s) \<Rightarrow> Some (Inl e, s)
     | (Inr p, s) \<Rightarrow> run_on_error (boot_machine env i j p) (clean_up env i j p) s))"
  by (auto simp: fire_create_def before_jailer_def clean_up_def run_bind_def returns_def io_bind_def io_return_def Let_def
      split: prod.splits sum.splits option.splits)

lemma io_bind_return: "io_bind (io_return x) f = f x" by (simp add: io_bind_def io_return_def fun_eq_iff)

lemma before_jailer_adds:
  assumes rec: "host_recording env"
  shows "adds_only preparing (before_jailer env i)"
proof -
  have "adds_only preparing fire_ensureAvailable"
    by (auto simp: adds_only_def fire_ensureAvailable_def io_require_def)
  then show ?thesis unfolding before_jailer_def Let_def
    by (intro adds_only_bind adds_only_res prepare_jail_adds rec)
qed

lemma before_jailer_Inr:
  assumes rec: "host_recording env" and run: "before_jailer env i s = (Inr (bin, jailer, j), s')"
  shows "cf_firecrackerBin (fv_config env) = Some bin" "cf_jailerBin (fv_config env) = Some jailer"
    "j = jail_paths (fv_config env) bin (ci_instanceId i)"
    "\<exists>es. events s' = events s @ es \<and> list_all preparing es \<and> E_host ` set (confinement env i j) \<subseteq> set es"
proof -
  show bin: "cf_firecrackerBin (fv_config env) = Some bin" and "cf_jailerBin (fv_config env) = Some jailer"
    and j: "j = jail_paths (fv_config env) bin (ci_instanceId i)"
    using run by (auto simp: before_jailer_def Let_def configured_def io_return_def io_throw_def
        dest!: io_bind_run split: option.splits)
  have "leaves (E_host op) (before_jailer env i)" if "op \<in> set (confinement env i j)" for op
  proof -
    have "before_jailer env i = io_bind (io_bind fire_ensureAvailable (\<lambda>_. io_require (ci_network i \<noteq> Net_egress)
       (service_err BACKEND_UNAVAILABLE ''Firecracker egress requires an installed nftables policy''))) (\<lambda>_.
       io_bind (prepare_jail env i j) (\<lambda>_. io_bind (configured (cf_jailerBin (fv_config env))) (\<lambda>jailer. io_return (bin, jailer, j))))"
      by (simp add: before_jailer_def bin j configured_def Let_def io_bind_return)
    moreover have "adds_only preparing fire_ensureAvailable"
      by (auto simp: adds_only_def fire_ensureAvailable_def io_require_def)
    ultimately show ?thesis
      by (simp only:) (intro leaves_later [OF adds_only_bind] leaves_now confinement_leaves rec that adds_only_bind adds_only_res)
  qed
  then have all: "\<exists>es. events s' = events s @ es \<and> E_host op \<in> set es" if "op \<in> set (confinement env i j)" for op
    using run that unfolding leaves_def by blast
  obtain es where es: "events s' = events s @ es" "list_all preparing es"
    using adds_only_run [OF before_jailer_adds [OF rec] run] by blast
  have "E_host op \<in> set es" if "op \<in> set (confinement env i j)" for op using all [OF that] es(1) by auto
  then show "\<exists>es. events s' = events s @ es \<and> list_all preparing es \<and> E_host ` set (confinement env i j) \<subseteq> set es"
    using es by (intro exI [of _ es]) auto
qed

text \<open>The clean-up kills the process and removes the jail and the control group.\<close>

lemma host_run:
  assumes "host_recording env" "host env op s = (r, s')"
  shows "events s' = events s @ [E_host op]" "fk_instances s' = fk_instances s" "r = fst (fv_host env op (gs_world s))"
  using assms recorded_events(1) [OF assms(1), of op "gs_world s"] by (auto simp: host_def outside_io_iff events_def)

lemma clean_up_outcome:
  assumes rec: "host_recording env" and run: "clean_up env i j p s = (r, s')"
  shows "fk_instances s' = fk_instances s"
    "\<exists>tl. events s' = events s @ [E_host (H_kill p), E_host (H_rm (dirname (j_root j)))] @ tl \<and>
      (if is_ok r then tl = [E_host (H_rm (path_join [cgroup_parent, ci_instanceId i]))]
       else tl = [] \<and> (\<exists>w. \<not> is_ok (fst (fv_host env (H_rm (dirname (j_root j))) w))))"
proof -
  obtain a s1 b s2 where k: "host env (H_kill p) s = (a, s1)" and rm: "host env (H_rm (dirname (j_root j))) s1 = (b, s2)" by force
  obtain c s3 where g: "host env (H_rm (path_join [cgroup_parent, ci_instanceId i])) s2 = (c, s3)" by force
  note kills = host_run [OF rec k] and rms = host_run [OF rec rm] and gs = host_run [OF rec g]
  have out: "r = b \<and> s' = (if is_ok b then s3 else s2)"
    using run k rm g by (cases b) (auto simp: clean_up_def remove_machine_def io_bind_def io_ignore_def)
  then show "fk_instances s' = fk_instances s" using kills(2) rms(2) gs(2) by simp
  show "\<exists>tl. events s' = events s @ [E_host (H_kill p), E_host (H_rm (dirname (j_root j)))] @ tl \<and>
      (if is_ok r then tl = [E_host (H_rm (path_join [cgroup_parent, ci_instanceId i]))]
       else tl = [] \<and> (\<exists>w. \<not> is_ok (fst (fv_host env (H_rm (dirname (j_root j))) w))))"
    using out kills(1) rms(1,3) gs(1) by (cases "is_ok b") (auto simp del: split_paired_Ex)
qed

text \<open>How the log of a machine that was started begins.\<close>

definition started_events :: "'w fire_env \<Rightarrow> create_input \<Rightarrow> jail \<Rightarrow> nat \<Rightarrow> nat \<Rightarrow> host_event list \<Rightarrow> bool" where
  "started_events env i j p n es \<longleftrightarrow> (\<exists>bin jailer prep.
     cf_firecrackerBin (fv_config env) = Some bin \<and> cf_jailerBin (fv_config env) = Some jailer \<and>
     j = jail_paths (fv_config env) bin (ci_instanceId i) \<and>
     es = prep @ E_spawn (jailer_command env i j bin jailer) p # put_events (api_socket j) (take n (boot_requests (gv_sha env) i)) \<and>
     list_all preparing prep \<and> E_host ` set (confinement env i j) \<subseteq> set prep)"

text \<open>How it ends when starting the machine failed.\<close>

definition removed_events :: "('w \<times> host_event list) fire_env \<Rightarrow> create_input \<Rightarrow> host_event list \<Rightarrow> bool" where
  "removed_events env i es \<longleftrightarrow> (\<exists>j p n run tl. started_events env i j p n run \<and>
     es = run @ [E_host (H_kill p), E_host (H_rm (dirname (j_root j)))] @ tl \<and>
     (tl = [E_host (H_rm (path_join [cgroup_parent, ci_instanceId i]))] \<or>
      tl = [] \<and> (\<exists>w. \<not> is_ok (fst (fv_host env (H_rm (dirname (j_root j))) w)))))"

lemma fire_create_outcome:
  assumes clock: "fire_clock_goes_on env" and rec: "host_recording env"
  shows "\<exists>r s' es. fire_create env i s = Some (r, s') \<and> events s' = events s @ es \<and>
    (case r of
       Inr h \<Rightarrow> \<exists>j p. started_events env i j p (length (boot_requests (gv_sha env) i)) es \<and> booted i j p s h s'
     | Inl e \<Rightarrow> fk_instances s' = fk_instances s \<and>
         (list_all preparing es \<or>
          removed_events env i es))"
proof -
  obtain q s1 where b: "before_jailer env i s = (q, s1)" by force
  obtain es where es: "fk_instances s1 = fk_instances s" "events s1 = events s @ es" "list_all preparing es"
    using adds_only_run [OF before_jailer_adds [OF rec] b] by blast
  show ?thesis
  proof (cases q)
    case (Inl e)
    then show ?thesis using b es
      by (intro exI [of _ "Inl e"] exI [of _ s1] exI [of _ es]) (simp add: fire_create_parts)
  next
    case (Inr x)
    obtain bin jailer j where x: "x = (bin, jailer, j)" by (metis prod.exhaust)
    note cfg = before_jailer_Inr [OF rec b [unfolded Inr x]]
    let ?cmd = "jailer_command env i j bin jailer"
    obtain a s2 where spawn: "outside_io (fv_spawn env ?cmd) s1 = (a, s2)" by force
    then have s2: "fk_instances s2 = fk_instances s1" "events s2 = events s1 @ (case a of Inr p \<Rightarrow> [E_spawn ?cmd p] | Inl _ \<Rightarrow> [])"
      using recorded_events(2) [OF rec, of ?cmd "gs_world s1"] by (auto simp: outside_io_iff events_def)
    show ?thesis
    proof (cases a)
      case (Inl e)
      then show ?thesis using b Inr x spawn s2 es
        by (intro exI [of _ "Inl e"] exI [of _ s2] exI [of _ es]) (simp add: fire_create_parts)
    next
      case a: (Inr p)
      obtain r s3 n where boot: "boot_machine env i j p s2 = Some (r, s3)"
          "events s3 = events s2 @ put_events (api_socket j) (take n (boot_requests (gv_sha env) i))"
          "case r of Inl e \<Rightarrow> fk_instances s3 = fk_instances s2
           | Inr h \<Rightarrow> n = length (boot_requests (gv_sha env) i) \<and> booted i j p s2 h s3"
        using boot_machine_outcome [OF clock rec] by blast
      let ?run = "es @ E_spawn ?cmd p # put_events (api_socket j) (take n (boot_requests (gv_sha env) i))"
      have started: "started_events env i j p n ?run"
        unfolding started_events_def using cfg es(2,3) by auto
      have run: "events s3 = events s @ ?run" using boot(2) s2(2) a es(2) by simp
      have create: "fire_create env i s = run_on_error (boot_machine env i j p) (clean_up env i j p) s2"
        using b Inr x spawn a by (simp add: fire_create_parts)
      show ?thesis
      proof (cases r)
        case r: (Inr h)
        then have "fire_create env i s = Some (Inr h, s3)" using create boot(1) by (simp add: run_on_error_def)
        moreover have "booted i j p s h s3" using boot(3) r s2(1) es(1) by (simp add: booted_def)
        ultimately show ?thesis using started run boot(3) r
          by (intro exI [of _ "Inr h"] exI [of _ s3] exI [of _ ?run]) auto
      next
        case r: (Inl e)
        obtain c s4 where clean: "clean_up env i j p s3 = (c, s4)" by force
        obtain e' where out: "fire_create env i s = Some (Inl e', s4)"
          using create boot(1) r clean by (cases c) (simp_all add: run_on_error_def io_bind_def io_throw_def)
        from clean_up_outcome [OF rec clean] obtain tl where tl:
          "events s4 = events s3 @ [E_host (H_kill p), E_host (H_rm (dirname (j_root j)))] @ tl"
          "tl = [E_host (H_rm (path_join [cgroup_parent, ci_instanceId i]))] \<or>
           tl = [] \<and> (\<exists>w. \<not> is_ok (fst (fv_host env (H_rm (dirname (j_root j))) w)))"
          by (metis (no_types, lifting))
        have "removed_events env i (?run @ [E_host (H_kill p), E_host (H_rm (dirname (j_root j)))] @ tl)"
          unfolding removed_events_def using started tl(2) by blast
        moreover have "fk_instances s4 = fk_instances s"
          using clean_up_outcome(1) [OF rec clean] boot(3) r s2(1) es(1) by simp
        moreover have "events s4 = events s @ ?run @ [E_host (H_kill p), E_host (H_rm (dirname (j_root j)))] @ tl"
          using tl(1) run by simp
        ultimately show ?thesis using out
          by (intro exI [of _ "Inl e'"] exI [of _ s4] exI [of _ "?run @ [E_host (H_kill p), E_host (H_rm (dirname (j_root j)))] @ tl"])
            simp
      qed
    qed
  qed
qed

end
