(* ===== verification/Machines.thy ===== *)
theory Machines
  imports Firecracker_Inv
begin

text \<open>
  The operations of the Firecracker backend as steps, and what is true between them: an
  execution belongs to a machine that runs, and a destroyed machine leaves none behind.
\<close>

section \<open>Executions of the transports in a set\<close>

definition bound_to :: "nat set \<Rightarrow> ('w, 'x) guest_scheme \<Rightarrow> bool" where
  "bound_to L s \<longleftrightarrow> distinct (map fst (gs_executions s)) \<and> (\<forall>x d. (x, d) \<in> set (gs_executions s) \<longrightarrow> de_transport d \<in> L)"

abbreviation held :: "nat set \<Rightarrow> 'x \<Rightarrow> ('w, 'x) guest_scheme \<Rightarrow> bool" where
  "held L M s \<equiv> bound_to L s \<and> guest.more s = M"

lemma bound_to_same [simp]: "bound_to L (s\<lparr>gs_world := w\<rparr>) = bound_to L s" "bound_to L (s\<lparr>gs_fs := f\<rparr>) = bound_to L s"
  by (simp_all add: bound_to_def)

lemma io_keeps_snd: "io_keeps P m \<Longrightarrow> P s \<Longrightarrow> P (snd (m s))" by (simp add: io_keeps_def)

lemma outside_stays: "io_keeps (held L M) (outside_io m)"
  by (auto simp: io_keeps_def outside_io_def split: prod.splits)

lemma file_stays: "io_keeps (held L M) (file_io env op)"
  by (auto simp: io_keeps_def file_io_def split: sum.splits)

lemma new_uuid_stays: "io_keeps (held L M) (new_uuid env)"
  by (auto simp: io_keeps_def new_uuid_def split: prod.splits)

lemma send_stays: "io_keeps (held L M) (send_io env t q)"
  unfolding send_io_def by (rule outside_stays)

lemma accepted_stays: "io_keeps P (accepted m r)" unfolding accepted_def by (rule io_keeps_basic)

lemma put_assoc_keys: "set (map fst (put_assoc k v m)) = insert k (set (map fst m))"
  by (induction k v m rule: put_assoc.induct) auto

lemma put_assoc_set: "set (put_assoc k v m) \<subseteq> insert (k, v) (set m)"
  by (induction k v m rule: put_assoc.induct) auto

lemma put_assoc_distinct: "distinct (map fst m) \<Longrightarrow> distinct (map fst (put_assoc k v m))"
proof (induction m)
  case (Cons p m)
  obtain j u where p: "p = (j, u)" by force
  show ?case
  proof (cases "j = k")
    case False
    have "j \<notin> set (map fst (put_assoc k v m))" using Cons(2) False by (simp only: put_assoc_keys) (simp add: p)
    then show ?thesis using Cons False by (simp add: p)
  qed (use Cons in \<open>simp add: p\<close>)
qed simp

lemma set_execution_more [simp]: "guest.more (set_execution x d s) = guest.more s" by (simp add: set_execution_def)

lemma set_execution_bound: "bound_to L s \<Longrightarrow> de_transport d \<in> L \<Longrightarrow> bound_to L (set_execution x d s)"
  using put_assoc_set [of x d "gs_executions s"]
  by (auto simp: bound_to_def set_execution_def put_assoc_distinct)

lemma pause_stays: "held L M s \<Longrightarrow> held L M (pause env ms s)" by (simp add: pause_def)

lemma bound_to_lookup: "bound_to L s \<Longrightarrow> map_of (gs_executions s) x = Some d \<Longrightarrow> de_transport d \<in> L"
  by (auto simp: bound_to_def dest: map_of_SomeD)

lemma now_set_stays:
  assumes "\<And>now. de_transport (d now) \<in> L"
  shows "io_keeps (held L M) (io_bind (now_io env) (\<lambda>now s. (Inr (y now), set_execution x (d now) s)))"
  using assms by (auto simp: io_keeps_def io_bind_def now_io_def intro: set_execution_bound)

lemma guest_exec_stays: "t \<in> L \<Longrightarrow> io_keeps (held L M) (guest_exec b env t h i v)"
  unfolding guest_exec_def by (intro io_keeps_bind send_stays accepted_stays now_set_stays) simp

lemma guest_write_stays: "io_keeps (held L M) (guest_write b env h chars)"
proof (rule io_keepsI)
  fix s :: "('a, 'b) guest_scheme" assume s: "held L M s"
  have "io_keeps (held L M) (io_bind (send_io env t (A_Write (xh_executionId h) chars)) (accepted m))" for t m
    by (intro io_keeps_bind send_stays accepted_stays)
  then show "held L M (snd (guest_write b env h chars s))"
    using s by (simp add: guest_write_def io_keeps_def split: option.split)
qed

lemma guest_kill_stays: "io_keeps (held L M) (guest_kill b env h)"
proof (rule io_keepsI)
  fix s :: "('a, 'b) guest_scheme" assume s: "held L M s"
  show "held L M (snd (guest_kill b env h s))"
  proof (cases "map_of (gs_executions s) (xh_executionId h)")
    case None
    then show ?thesis using s by (simp add: guest_kill_def)
  next
    case (Some d)
    have "io_keeps (held L M) (io_bind (send_io env (de_transport d) (A_Kill (xh_executionId h) 1000)) (\<lambda>r.
            io_bind (accepted (agent_name b @ '' kill failed'') r) (\<lambda>_.
            io_bind (now_io env) (\<lambda>now s.
              (Inr (), set_execution (xh_executionId h) (d\<lparr>de_state := X_CANCELED, de_finishedAt := Some now\<rparr>) s)))))"
      using bound_to_lookup [OF conjunct1 [OF s] Some] by (intro io_keeps_bind send_stays accepted_stays now_set_stays) simp
    then show ?thesis using s Some by (simp add: guest_kill_def io_keeps_def)
  qed
qed

lemma polled_transport [simp]: "de_transport (polled_record r d) = de_transport d"
  by (simp add: polled_record_def Let_def)

lemma poll_wait_stays:
  assumes run: "poll_wait b env x deadline d s = Some y" and "de_transport d \<in> L" "held L M s"
  shows "held L M (snd y)"
proof -
  let ?P = "\<lambda>b env x deadline d s y. de_transport d \<in> L \<longrightarrow> held L M s \<longrightarrow> held L M (snd y)"
  have "?P b env x deadline d s y"
  proof (rule poll_wait.raw_induct [where P = ?P and xa = "(((((b, env), x), deadline), d), s)" and y = y,
      unfolded prod.case, OF _ run])
    fix wait b env x deadline d s and y :: "guest_execution res \<times> ('a, 'b) guest_scheme"
    assume IH: "\<And>b env x deadline d s y. wait b env x deadline d s = Some y \<Longrightarrow> ?P b env x deadline d s y"
      and body: "(let polled = send_io env (de_transport d) (A_Poll x) s; checked = poll_checked b (fst polled); s = snd polled in
        if isl checked then Some (Inl (projl checked), s)
        else let d = polled_record (projr checked) d; s = set_execution x d s; now = gv_clock env (gs_world s) in
          if de_state d \<noteq> X_RUNNING
          then let d = d\<lparr>de_finishedAt := Some now\<rparr> in Some (Inr d, set_execution x d s)
          else if now \<ge> deadline then Some (Inr d, s)
          else wait b env x deadline d (pause env (min 25 (max 0 (deadline - now))) s)) = Some y"
    show "?P b env x deadline d s y"
    proof (intro impI)
      assume d: "de_transport d \<in> L" and s: "held L M s"
      define u where "u = snd (send_io env (de_transport d) (A_Poll x) s)"
      define d1 where "d1 = polled_record (projr (poll_checked b (fst (send_io env (de_transport d) (A_Poll x) s)))) d"
      define v where "v = set_execution x d1 u"
      have u: "held L M u" unfolding u_def by (rule io_keeps_snd [OF send_stays s])
      have d1: "de_transport d1 \<in> L" using d by (simp add: d1_def)
      have v: "held L M v" using u d1 by (simp add: v_def set_execution_bound)
      consider "snd y = u" | n where "snd y = set_execution x (d1\<lparr>de_finishedAt := n\<rparr>) v" | "snd y = v"
        | ms where "wait b env x deadline d1 (pause env ms v) = Some y"
      proof -
        let ?c = "poll_checked b (fst (send_io env (de_transport d) (A_Poll x) s))"
        have "(if isl ?c then Some (Inl (projl ?c), u)
          else if de_state d1 \<noteq> X_RUNNING
            then Some (Inr (d1\<lparr>de_finishedAt := Some (clock_of env v)\<rparr>), set_execution x (d1\<lparr>de_finishedAt := Some (clock_of env v)\<rparr>) v)
          else if clock_of env v \<ge> deadline then Some (Inr d1, v)
          else wait b env x deadline d1 (pause env (min 25 (max 0 (deadline - clock_of env v))) v)) = Some y"
          using body by (simp only: Let_def u_def d1_def v_def)
        then show ?thesis using that by (cases "isl ?c"; cases "de_state d1 \<noteq> X_RUNNING"; cases "clock_of env v \<ge> deadline") auto
      qed
      then show "held L M (snd y)"
      proof cases
        case (2 n)
        then show ?thesis using v d1 by (simp add: set_execution_bound)
      next
        case (4 ms)
        show ?thesis by (rule IH [OF 4, THEN mp, THEN mp, OF d1 pause_stays [OF v]])
      qed (use u v in simp_all)
    qed
  qed
  then show ?thesis using assms(2,3) by blast
qed

lemma guest_poll_stays:
  assumes "guest_poll b env h ms s = Some (r, s')" "held L M s"
  shows "held L M s'"
proof (cases "map_of (gs_executions s) (xh_executionId h)")
  case None
  then show ?thesis using assms by (simp add: guest_poll_def)
next
  case (Some d)
  then obtain y where y: "poll_wait b env (xh_executionId h) (clock_of env s + ms) d s = Some y" "s' = snd y"
    using assms(1) by (auto simp: guest_poll_def run_bind_def returns_def io_return_def split: option.splits sum.splits prod.splits)
  from poll_wait_stays [OF y(1) bound_to_lookup [OF conjunct1 [OF assms(2)] Some] assms(2)] show ?thesis by (simp only: y(2))
qed

lemma snapshot_read_stays:
  assumes "held L M s" "snapshot_read b env t i path whole hashed offset s = (r, s')"
  shows "held L M s'"
  using assms
proof (induction b env t i path whole hashed offset s rule: snapshot_read.induct)
  case (1 b env t i path whole hashed offset s)
  obtain q u where step: "snapshot_step b env t i path whole offset s = (q, u)" by force
  have "io_keeps (held L M) (snapshot_step b env t i path whole offset)"
    unfolding snapshot_step_def by (intro io_keeps_bind send_stays file_stays io_keeps_basic)
  from io_keepsD [OF this 1(2) step] have u: "held L M u" .
  show ?case
  proof (cases "offset < whole")
    case False
    then show ?thesis using 1(2,3) by (subst (asm) snapshot_read.simps) auto
  next
    case True
    show ?thesis
    proof (cases q)
      case (Inl e)
      then show ?thesis using 1(3) True step u by (subst (asm) snapshot_read.simps) auto
    next
      case (Inr x)
      obtain c eof where x: "x = (c, eof)" by force
      show ?thesis
      proof (cases eof)
        case stop: True
        then show ?thesis using 1(3) True step Inr x u by (subst (asm) snapshot_read.simps) auto
      next
        case go: False
        then have "snapshot_read b env t i path whole (hashed @ c) (offset + length c) u = (r, s')"
          using 1(3) True step Inr x by (subst (asm) snapshot_read.simps) simp
        from 1(1) [OF True step [unfolded Inr x, symmetric] refl refl go u this] show ?thesis .
      qed
    qed
  qed
qed

lemma snapshot_transfer_stays: "io_keeps (held L M) (snapshot_transfer b env t h i destination path)"
proof -
  have "io_keeps (held L M) (snapshot_read b env t i path whole [] 0)" for whole
    by (rule io_keepsI) (metis snapshot_read_stays surjective_pairing)
  then show ?thesis unfolding snapshot_transfer_def
    by (auto intro!: io_keeps_bind send_stays file_stays simp: case_prod_beta)
qed

section \<open>Creating a machine adds it\<close>

definition run_keeps :: "('s \<Rightarrow> bool) \<Rightarrow> ('s, 'a) run \<Rightarrow> bool" where
  "run_keeps P m \<longleftrightarrow> (\<forall>s y. P s \<longrightarrow> m s = Some y \<longrightarrow> P (snd y))"

lemma run_keeps_returns: "io_keeps P m \<Longrightarrow> run_keeps P (returns m)"
  by (auto simp: run_keeps_def io_keeps_def returns_def dest: sym)

lemma run_keeps_bind:
  assumes "run_keeps P m" "\<And>x. run_keeps P (f x)"
  shows "run_keeps P (run_bind m f)"
  unfolding run_keeps_def
proof (intro allI impI)
  fix s y assume "P s" "run_bind m f s = Some y"
  moreover from this(2) obtain r s1 where "m s = Some (r, s1)" by (auto simp: run_bind_def split: option.splits)
  ultimately show "P (snd y)"
  proof (cases r)
    case (Inl e)
    then show ?thesis using \<open>P s\<close> \<open>m s = Some (r, s1)\<close> \<open>run_bind m f s = Some y\<close> assms(1)
      by (auto simp: run_keeps_def run_bind_def)
  next
    case (Inr x)
    have "P s1" using \<open>P s\<close> \<open>m s = Some (r, s1)\<close> assms(1) unfolding run_keeps_def by (metis snd_conv)
    moreover have "f x s1 = Some y" using \<open>m s = Some (r, s1)\<close> \<open>run_bind m f s = Some y\<close> Inr by (simp add: run_bind_def)
    ultimately show ?thesis using assms(2) unfolding run_keeps_def by blast
  qed
qed

lemma run_keeps_on_error:
  assumes "run_keeps P m" "io_keeps P c"
  shows "run_keeps P (run_on_error m c)"
  unfolding run_keeps_def
proof (intro allI impI)
  fix s y assume s: "P s" and y: "run_on_error m c s = Some y"
  from y obtain r s1 where m: "m s = Some (r, s1)" by (auto simp: run_on_error_def split: option.splits)
  then have s1: "P s1" using assms(1) s unfolding run_keeps_def by (metis snd_conv)
  have "io_keeps P (io_bind c (\<lambda>_. io_throw e))" for e by (intro io_keeps_bind assms(2) io_keeps_basic)
  from io_keeps_snd [OF this s1] show "P (snd y)" using y m s1 by (cases r) (auto simp: run_on_error_def)
qed

text \<open>The executions stay, and the only machine that may be new has the given id.\<close>

definition grown :: "(string \<times> guest_execution) list \<Rightarrow> (string \<Rightarrow> fire_instance option) \<Rightarrow> string \<Rightarrow> 'w firecracker \<Rightarrow> bool" where
  "grown E I iid s \<longleftrightarrow> gs_executions s = E \<and>
     (fk_instances s = I \<or> (\<exists>m. fi_id m = iid \<and> fk_instances s = I(iid \<mapsto> m)))"

lemma grown_world [simp]: "grown E I iid (s\<lparr>gs_world := w\<rparr>) = grown E I iid s" by (simp add: grown_def)

lemma outside_grown: "io_keeps (grown E I iid) (outside_io m)"
  by (auto simp: io_keeps_def outside_io_def split: prod.splits)

lemma host_grown: "io_keeps (grown E I iid) (host env op)" unfolding host_def by (rule outside_grown)

lemma io_keeps_all: "list_all (io_keeps P) ms \<Longrightarrow> io_keeps P (io_all ms)"
proof (induction ms)
  case (Cons m ms)
  show ?case
  proof (rule io_keepsI)
    fix s assume "P s"
    then have "P (snd (m s))" using Cons(2) by (simp add: io_keeps_def)
    then have "P (snd (io_all ms (snd (m s))))" using Cons by (simp add: io_keeps_def)
    then show "P (snd (io_all (m # ms) s))" by (simp add: case_prod_beta)
  qed
qed (simp add: io_keeps_def)

lemma configured_keeps: "io_keeps P (configured v)"
  by (auto simp: configured_def split: option.split)

lemma io_keeps_if: "io_keeps P m \<Longrightarrow> io_keeps P n \<Longrightarrow> io_keeps P (if c then m else n)" by simp

lemma runTool_grown: "io_keeps (grown E I iid) (runTool env c a)"
  unfolding runTool_def by (intro io_keeps_bind outside_grown io_keeps_if io_keeps_basic)

lemma configureCgroup_grown: "io_keeps (grown E I iid) (configureCgroup env c i w)"
  unfolding configureCgroup_def writeCgroupFile_def Let_def
  by (intro io_keeps_bind host_grown outside_grown io_keeps_all) (simp add: host_grown io_keeps_basic)

lemma prepare_grown: "io_keeps (grown E I iid) (prepare_jail env i j)"
  unfolding prepare_jail_def createInitramfs_def copy_artifact_def owners_and_modes_def Let_def
  by (intro io_keeps_bind host_grown outside_grown runTool_grown configureCgroup_grown configured_keeps io_keeps_all)
    (auto simp: list_all_iff intro!: io_keeps_bind host_grown configured_keeps)

lemma put_all_grown: "io_keeps (grown E I iid) (put_all env k rs)"
proof (induction rs)
  case (Cons r rs)
  obtain path q where r: "r = (path, q)" by force
  have "io_keeps (grown E I iid) (vm_api env k path q)"
    unfolding vm_api_def case_prod_beta by (intro io_keeps_bind outside_grown io_keeps_basic)
  then show ?case using Cons by (simp add: r io_keeps_bind)
qed (simp add: io_keeps_basic)

lemma pause_grown: "grown E I iid s \<Longrightarrow> grown E I iid (pause env ms s)" by (simp add: pause_def)

lemma wait_socket_grown: "run_keeps (grown E I iid) (wait_socket env path p deadline)"
  unfolding run_keeps_def
proof (intro allI impI)
  fix s y assume s: "grown E I iid s" and run: "wait_socket env path p deadline s = Some y"
  let ?P = "\<lambda>env path p deadline s y. grown E I iid s \<longrightarrow> grown E I iid (snd y)"
  have "?P env path p deadline s y"
  proof (rule wait_socket.raw_induct [where P = ?P, OF _ run])
    fix wait env path p deadline s and y :: "unit res \<times> 'a firecracker"
    assume IH: "\<And>env path p deadline s y. wait env path p deadline s = Some y \<Longrightarrow> ?P env path p deadline s y"
      and body: "(if gv_clock env (gs_world s) \<ge> deadline
        then Some (Inl (service_err BACKEND_ERROR ''Firecracker API socket did not become ready''), s)
        else let found = outside_io (fv_access env path Acc_exists) s; s = snd found; code = fv_exitCode env p (gs_world s) in
          if is_ok (fst found) then Some (Inr (), s)
          else if code \<noteq> None
          then Some (Inl (service_err BACKEND_ERROR (''jailer exited with code '' @ int_str (the code))), s)
          else wait env path p deadline (pause env 25 s)) = Some y"
    show "?P env path p deadline s y"
    proof
      assume s: "grown E I iid s"
      let ?u = "snd (outside_io (fv_access env path Acc_exists) s)"
      have u: "grown E I iid ?u" by (rule io_keeps_snd [OF outside_grown s])
      consider "snd y = s" | "snd y = ?u" | "wait env path p deadline (pause env 25 ?u) = Some y"
        using body by (auto simp: Let_def split: if_splits)
      then show "grown E I iid (snd y)" using s u IH pause_grown by cases (simp_all add: pause_grown)
    qed
  qed
  then show "grown E I iid (snd y)" using s by simp
qed

lemma connect_once_grown: "io_keeps (grown E I iid) (connect_once env path)"
  unfolding connect_once_def case_prod_beta by (intro io_keeps_bind outside_grown io_keeps_basic)

lemma connect_until_grown: "run_keeps (grown E I iid) (connect_until env path deadline e)"
  unfolding run_keeps_def
proof (intro allI impI)
  fix s y assume s: "grown E I iid s" and run: "connect_until env path deadline e s = Some y"
  let ?P = "\<lambda>env path deadline e s y. grown E I iid s \<longrightarrow> grown E I iid (snd y)"
  have "?P env path deadline e s y"
  proof (rule connect_until.raw_induct [where P = ?P, OF _ run])
    fix conn env path deadline e s and y :: "nat res \<times> 'a firecracker"
    assume IH: "\<And>env path deadline e s y. conn env path deadline e s = Some y \<Longrightarrow> ?P env path deadline e s y"
      and body: "(if gv_clock env (gs_world s) \<ge> deadline
        then Some (Inl (service_err BACKEND_ERROR (''Firecracker guest agent did not become ready: '' @
          (case e of Some e \<Rightarrow> error_text e | None \<Rightarrow> ''undefined''))), s)
        else let r = connect_once env path s in
          if is_ok (fst r) then Some r
          else conn env path deadline (Some (projl (fst r))) (pause env 50 (snd r))) = Some y"
    show "?P env path deadline e s y"
    proof
      assume s: "grown E I iid s"
      let ?r = "connect_once env path s"
      have u: "grown E I iid (snd ?r)" by (rule io_keeps_snd [OF connect_once_grown s])
      consider "snd y = s" | "y = ?r" | "conn env path deadline (Some (projl (fst ?r))) (pause env 50 (snd ?r)) = Some y"
        using body unfolding Let_def by (cases "deadline \<le> clock_of env s"; cases "is_ok (fst ?r)") auto
      then show "grown E I iid (snd y)"
      proof cases
        case 3
        show ?thesis by (rule IH [OF 3, THEN mp, OF pause_grown [OF u]])
      qed (use s u in simp_all)
    qed
  qed
  then show "grown E I iid (snd y)" using s by simp
qed

lemma fire_create_grown:
  fixes env :: "'w fire_env"
  shows "run_keeps (grown E I (ci_instanceId i)) (fire_create env i)"
proof -
  let ?G = "grown E I (ci_instanceId i) :: 'w firecracker \<Rightarrow> bool"
  have "io_keeps ?G fire_ensureAvailable" by (auto simp: io_keeps_def fire_ensureAvailable_def io_require_def)
  moreover have "io_keeps ?G (set_instance x)" if "fi_id x = ci_instanceId i" for x
    using that by (auto simp: io_keeps_def set_instance_def grown_def)
  moreover have "io_keeps ?G (remove_machine env r (ci_instanceId i))" for r
    unfolding remove_machine_def by (intro io_keeps_bind host_grown io_keeps_ignore)
  moreover have "run_keeps ?G (waitForSocket env k p)" "run_keeps ?G (fire_connect env k n)" for k p n
    using wait_socket_grown [of E I "ci_instanceId i" env k p] connect_until_grown [of E I "ci_instanceId i" env k]
    unfolding run_keeps_def waitForSocket_def fire_connect_def by blast+
  ultimately show ?thesis
    unfolding fire_create_def boot_machine_def Let_def
    by (intro run_keeps_bind run_keeps_returns run_keeps_on_error io_keeps_bind io_keeps_basic io_keeps_ignore
        configured_keeps prepare_grown outside_grown put_all_grown host_grown) simp_all
qed

section \<open>Steps of the backend\<close>

text \<open>What a file operation returns does not matter here.\<close>

inductive fire_step :: "'w fire_env \<Rightarrow> 'w firecracker \<Rightarrow> 'w firecracker \<Rightarrow> bool" for env where
  preflight_step: "fire_step env s (snd (fire_preflight env s))"
| create_step: "fk_instances s (ci_instanceId i) = None \<Longrightarrow> fire_create env i s = Some (r, s') \<Longrightarrow> fire_step env s s'"
| exec_step: "fire_step env s (snd (fire_exec env h i v s))"
| poll_step: "fire_poll env x ms s = Some (r, s') \<Longrightarrow> fire_step env s s'"
| write_step: "fire_step env s (snd (fire_write env x chars s))"
| kill_step: "fire_step env s (snd (fire_kill env x s))"
| file_step: "fire_step env s (snd (fire_file env h (op :: (agent_request \<Rightarrow> ('w, agent_response) io) \<Rightarrow> ('w, unit) io) s))"
| snapshot_step: "fire_step env s (snd (fire_snapshot env h destination s))"
| destroy_step: "fire_step env s (snd (fire_destroy env h s))"

definition live :: "'w firecracker \<Rightarrow> nat set" where
  "live s = {fi_transport m | k m. fk_instances s k = Some m}"

text \<open>Every execution uses the transport of a machine that runs, and a machine is known by its id.\<close>

definition machines_ok :: "'w firecracker \<Rightarrow> bool" where
  "machines_ok s \<longleftrightarrow> bound_to (live s) s \<and> (\<forall>k m. fk_instances s k = Some m \<longrightarrow> fi_id m = k)"

lemma more_instances: "guest.more s' = guest.more s \<Longrightarrow> fk_instances s' = fk_instances s"
  by (cases s; cases s') simp

lemma stays_ok: "machines_ok s \<Longrightarrow> held (live s) (guest.more s) s' \<Longrightarrow> machines_ok s'"
  using more_instances [of s' s] by (auto simp: machines_ok_def live_def)

lemma keeps_ok: "machines_ok s \<Longrightarrow> io_keeps (held (live s) (guest.more s)) m \<Longrightarrow> machines_ok (snd (m s))"
  using stays_ok [of s "snd (m s)"] io_keeps_snd [of "held (live s) (guest.more s)" m s] by (simp add: machines_ok_def)

lemma grown_ok:
  assumes s: "machines_ok s" and new: "fk_instances s iid = None" and g: "grown (gs_executions s) (fk_instances s) iid s'"
  shows "machines_ok s'"
proof -
  have "\<exists>k m'. fk_instances s' k = Some m' \<and> fi_transport m' = fi_transport m" if "fk_instances s k = Some m" for k m
    using g new that by (auto simp: grown_def intro!: exI [of _ k] exI [of _ m])
  then have "live s \<subseteq> live s'" by (auto simp: live_def) metis
  then show ?thesis using s g by (auto simp: machines_ok_def bound_to_def grown_def split: if_splits)
qed

text \<open>Destroying a machine.\<close>

lemma end_executions_spec:
  "gs_executions (end_executions env t xs s) =
     filter (\<lambda>(y, _). \<not> (\<exists>d. (y, d) \<in> set xs \<and> Some (de_transport d) = t)) (gs_executions s)"
  "guest.more (end_executions env t xs s) = guest.more s"
proof (induction env t xs s rule: end_executions.induct)
  case (2 env t x d xs s)
  let ?u = "if de_state d = X_RUNNING then snd (send_io env (de_transport d) (A_Kill x 1000) s) else s"
  have u: "gs_executions ?u = gs_executions s" "guest.more ?u = guest.more s"
    by (simp_all add: send_io_def outside_io_def split: prod.splits)
  {
    case 1
    show ?case
    proof (cases "Some (de_transport d) = t")
      case True
      then show ?thesis using "2.IH"(3) u by (auto simp: Let_def intro!: filter_cong)
    next
      case False
      then show ?thesis using "2.IH"(1) by (auto intro!: filter_cong)
    qed
  next
    case 2
    show ?case using "2.IH"(2,4) u by (cases "Some (de_transport d) = t") (simp_all add: Let_def)
  }
qed simp_all

definition still :: "(string \<times> guest_execution) list \<Rightarrow> (string \<Rightarrow> fire_instance option) \<Rightarrow> 'w firecracker \<Rightarrow> bool" where
  "still E I s \<longleftrightarrow> gs_executions s = E \<and> fk_instances s = I"

lemma outside_still: "io_keeps (still E I) (outside_io m)"
  by (auto simp: io_keeps_def still_def outside_io_def split: prod.splits)

lemma stop_process_keeps:
  assumes "\<And>s w. P s \<Longrightarrow> P (s\<lparr>gs_world := w\<rparr>)" "io_keeps P (host env (H_kill p))" "P s"
  shows "P (stop_process env p s)"
  using assms by (simp add: stop_process_def Let_def io_keeps_def)

lemma fire_destroy_outcome:
  fixes env :: "'a fire_env"
  assumes "fk_instances s (h_opaqueId h) = Some x"
  shows "still (filter (\<lambda>(y, _). \<not> (\<exists>d. (y, d) \<in> set (gs_executions s) \<and> de_transport d = fi_transport x)) (gs_executions s))
    ((fk_instances s)(h_opaqueId h := None)) (snd (fire_destroy env h s))"
proof -
  let ?E = "filter (\<lambda>(y, _). \<not> (\<exists>d. (y, d) \<in> set (gs_executions s) \<and> de_transport d = fi_transport x)) (gs_executions s)"
  let ?I = "fk_instances s"
  have host: "io_keeps (still E I) (host env op)" for E I op unfolding host_def by (rule outside_still)
  define s1 where "s1 = end_executions env (Some (fi_transport x)) (gs_executions s) s"
  have s1: "still ?E ?I s1"
    using end_executions_spec [of env "Some (fi_transport x)" "gs_executions s" s] more_instances [of s1 s]
    by (simp add: still_def s1_def)
  define s2 where "s2 = snd (vm_api env (fi_apiSocket x) ''/actions'' (V_action ''SendCtrlAltDel'')
    (s1\<lparr>gs_world := fv_close env (fi_transport x) (gs_world s1)\<rparr>))"
  have "io_keeps (still ?E ?I) (vm_api env (fi_apiSocket x) ''/actions'' (V_action ''SendCtrlAltDel''))"
    unfolding vm_api_def case_prod_beta by (intro io_keeps_bind outside_still io_keeps_basic)
  moreover have "still ?E ?I (s1\<lparr>gs_world := fv_close env (fi_transport x) (gs_world s1)\<rparr>)"
    using s1 by (simp add: still_def)
  ultimately have s2: "still ?E ?I s2" unfolding s2_def by (rule io_keeps_snd)
  define s3 where "s3 = stop_process env (fi_process x) s2"
  have world: "still E I u \<Longrightarrow> still E I (u\<lparr>gs_world := w\<rparr>)" for E I w and u :: "'a firecracker" by (simp add: still_def)
  have s3: "still ?E ?I s3" unfolding s3_def by (rule stop_process_keeps [OF world host s2])
  have "still ?E (?I(h_opaqueId h := None)) (s3\<lparr>fk_instances := (fk_instances s3)(h_opaqueId h := None)\<rparr>)"
    using s3 by (simp add: still_def)
  moreover have "io_keeps (still E I) (remove_machine env r c)" for E I r c
    unfolding remove_machine_def by (intro io_keeps_bind host io_keeps_ignore)
  ultimately have "still ?E (?I(h_opaqueId h := None))
    (snd (remove_machine env (fi_jailRoot x) (fi_id x) (s3\<lparr>fk_instances := (fk_instances s3)(h_opaqueId h := None)\<rparr>)))"
    by (rule io_keeps_snd [rotated])
  then show ?thesis using assms by (simp add: fire_destroy_def Let_def s1_def s2_def s3_def)
qed

lemma destroyed_ok:
  assumes s: "machines_ok s" and x: "fk_instances s k = Some x"
    and after: "still (filter (\<lambda>(y, _). \<not> (\<exists>d. (y, d) \<in> set (gs_executions s) \<and> de_transport d = fi_transport x)) (gs_executions s))
      ((fk_instances s)(k := None)) s'"
  shows "machines_ok s' \<and> fi_transport x \<notin> de_transport ` snd ` set (gs_executions s')"
proof -
  have e: "de_transport d \<noteq> fi_transport x \<and> (y, d) \<in> set (gs_executions s)" if "(y, d) \<in> set (gs_executions s')" for y d
    using that after by (auto simp: still_def)
  have "de_transport d \<in> live s'" if "(y, d) \<in> set (gs_executions s')" for y d
  proof -
    have "de_transport d \<in> live s" using s e [OF that] by (auto simp: machines_ok_def bound_to_def)
    then obtain j m where j: "fk_instances s j = Some m" "fi_transport m = de_transport d" by (auto simp: live_def)
    then have "j \<noteq> k" using x e [OF that] by auto
    then show ?thesis using j after by (force simp: live_def still_def)
  qed
  moreover have "distinct (map fst (gs_executions s'))"
    using s after by (simp add: machines_ok_def bound_to_def still_def distinct_map_filter)
  ultimately show ?thesis using s after e by (auto simp: machines_ok_def bound_to_def still_def split: if_splits)
qed

section \<open>The invariant\<close>

lemma still_ok: "machines_ok s \<Longrightarrow> still (gs_executions s) (fk_instances s) s' \<Longrightarrow> machines_ok s'"
  by (simp add: machines_ok_def bound_to_def live_def still_def)

definition check_keeps :: "('s \<Rightarrow> bool) \<Rightarrow> 's check \<Rightarrow> bool" where
  "check_keeps P c \<longleftrightarrow> (\<forall>s. P s \<longrightarrow> P (snd (c s)))"

lemma check_keeps_run: "list_all (check_keeps P) cs \<Longrightarrow> check_keeps P (run_checks cs)"
proof (induction cs)
  case (Cons c cs)
  then show ?case by (simp add: check_keeps_def case_prod_beta)
qed (simp add: check_keeps_def)

lemma check_keeps_then:
  assumes "check_keeps P c" "\<And>f. check_keeps P (d f)"
  shows "check_keeps P (\<lambda>s. case c s of (f, s) \<Rightarrow> d f s)"
  using assms by (simp add: check_keeps_def case_prod_beta)

lemma check_keeps_done: "check_keeps P (\<lambda>s. (x, s))" by (simp add: check_keeps_def)

lemma outside_still_snd: "still E I s \<Longrightarrow> still E I (snd (outside_io m s))"
  by (rule io_keeps_snd [OF outside_still])

lemma check_that_still: "check_keeps P (check_that b m)"
  unfolding check_that_def [abs_def] by (rule check_keeps_done)

lemma check_access_still: "check_keeps (still E I) (check_access env p mode m)"
  by (simp add: check_keeps_def check_access_def case_prod_beta outside_still_snd)

lemma check_controllers_still: "check_keeps (still E I) (check_controllers env)"
  by (simp add: check_keeps_def check_controllers_def case_prod_beta Let_def outside_still_snd)

lemma check_artifact_still: "check_keeps (still E I) (check_artifact env a)"
  by (cases a) (simp add: check_artifact_def check_access_still check_that_still split: option.split)

lemma check_owner_still:
  fixes env :: "'w fire_env"
  shows "check_keeps (still E I) (check_owner env path)"
  unfolding check_keeps_def
proof (intro allI impI)
  fix s :: "'w firecracker" assume s: "still E I s"
  show "still E I (snd (check_owner env path s))"
  proof (cases "truthy path")
    case None
    then show ?thesis using s by (simp add: check_owner_def)
  next
    case (Some p)
    obtain r s1 where st: "outside_io (fv_stat env p) s = (r, s1)" by force
    then have "still E I s1" using outside_still_snd [OF s, of "fv_stat env p"] by simp
    then show ?thesis using Some st by (cases r) (simp_all add: check_owner_def check_that_def)
  qed
qed

lemma version_still: "still E I s \<Longrightarrow> still E I (snd (snd (version_text env bin s)))"
proof -
  assume s: "still E I s"
  have "io_keeps (still E I) (runTool env bin [''--version''])"
    unfolding runTool_def by (intro io_keeps_bind outside_still io_keeps_if io_keeps_basic)
  from io_keeps_snd [OF this s] show ?thesis
    by (cases "runTool env bin [''--version''] s"; cases "fst (runTool env bin [''--version''] s)") (auto simp: version_text_def)
qed

lemma versions_still: "check_keeps (still E I) (check_versions env fs)"
  by (simp add: check_keeps_def check_versions_def case_prod_beta version_still split: list.split option.split)

lemma preflight_still: "still E I s \<Longrightarrow> still E I (snd (fire_preflight env s))"
proof -
  assume s: "still E I s"
  have "check_keeps (still E I) (fire_checks env)"
    unfolding fire_checks_def [abs_def]
    by (intro check_keeps_then check_keeps_run versions_still check_keeps_done)
      (simp_all add: list_all_iff check_that_still check_access_still check_controllers_still check_artifact_still check_owner_still)
  then have "still E I (snd (fire_checks env s))" using s by (simp add: check_keeps_def)
  then show ?thesis by (simp add: fire_preflight_def case_prod_beta Let_def still_def)
qed

lemma instance_of_bind:
  assumes s: "machines_ok s" and m: "\<And>x. fi_transport x \<in> live s \<Longrightarrow> io_keeps (held (live s) (guest.more s)) (m x)"
  shows "machines_ok (snd (io_bind (instance_of h) m s))"
proof (cases "fk_instances s (h_opaqueId h)")
  case None
  then show ?thesis using s by (simp add: io_bind_def instance_of_def)
next
  case (Some x)
  then have "fi_transport x \<in> live s" by (auto simp: live_def)
  from keeps_ok [OF s m [OF this]] show ?thesis using Some by (simp add: io_bind_def instance_of_def)
qed

lemma io_keeps_finally:
  assumes "io_keeps P m" "\<And>r. io_keeps P (c r)"
  shows "io_keeps P (\<lambda>s. case m s of (r, s) \<Rightarrow> io_finally (Pair r) (c r) s)"
proof (rule io_keepsI)
  fix s assume "P s"
  then have "P (snd (m s))" by (rule io_keeps_snd [OF assms(1)])
  then have "P (snd (c (fst (m s)) (snd (m s))))" by (rule io_keeps_snd [OF assms(2)])
  then show "P (snd (case m s of (r, s) \<Rightarrow> io_finally (Pair r) (c r) s))"
    by (simp add: io_finally_def case_prod_beta split: sum.split)
qed

lemma guest_snapshot_stays: "io_keeps (held L M) (guest_snapshot b env t h destination)"
  unfolding guest_snapshot_def Let_def
  by (rule io_keeps_bind [OF new_uuid_stays], rule io_keeps_finally [OF snapshot_transfer_stays])
    (intro io_keeps_bind io_keeps_ignore send_stays io_keeps_if io_keeps_basic file_stays)

lemma fire_step_ok: "fire_step env s s' \<Longrightarrow> machines_ok s \<Longrightarrow> machines_ok s'"
proof (induction rule: fire_step.induct)
  case (preflight_step s)
  have "still (gs_executions s) (fk_instances s) s" by (simp add: still_def)
  from still_ok [OF preflight_step preflight_still [OF this]] show ?case .
next
  case (create_step s i r s')
  have "grown (gs_executions s) (fk_instances s) (ci_instanceId i) s" by (simp add: grown_def)
  then have "grown (gs_executions s) (fk_instances s) (ci_instanceId i) s'"
    using fire_create_grown [of "gs_executions s" "fk_instances s" i env] create_step(2)
    unfolding run_keeps_def by (metis snd_conv)
  then show ?case by (rule grown_ok [OF create_step(3,1)])
next
  case (exec_step s h i v)
  then show ?case unfolding fire_exec_def by (intro instance_of_bind guest_exec_stays)
next
  case (poll_step x ms s r s')
  then show ?case using guest_poll_stays [of Firecracker env x ms s r s' "live s" "guest.more s"]
    by (intro stays_ok [of s s']) (simp_all add: fire_poll_def machines_ok_def)
next
  case (write_step s x chars)
  then show ?case unfolding fire_write_def by (intro keeps_ok guest_write_stays)
next
  case (kill_step s x)
  then show ?case unfolding fire_kill_def by (intro keeps_ok guest_kill_stays)
next
  case (file_step s h op)
  have "machines_ok (snd (outside_io (op (gv_send env t)) s))" for t by (rule keeps_ok [OF file_step outside_stays])
  then show ?case using file_step by (simp add: fire_file_def guest_file_def split: option.split)
next
  case (snapshot_step s h destination)
  then show ?case unfolding fire_snapshot_def by (intro instance_of_bind guest_snapshot_stays)
next
  case (destroy_step s h)
  show ?case
  proof (cases "fk_instances s (h_opaqueId h)")
    case None
    then show ?thesis using destroy_step by (simp add: fire_destroy_def)
  next
    case (Some x)
    from destroyed_ok [OF destroy_step Some fire_destroy_outcome [OF Some]] show ?thesis by simp
  qed
qed

lemma new_firecracker_ok: "machines_ok (new_firecracker w f)"
  by (simp add: machines_ok_def bound_to_def new_firecracker_def)

lemma machines_reachable: "(fire_step env)\<^sup>*\<^sup>* (new_firecracker w f) s \<Longrightarrow> machines_ok s"
  by (induction rule: rtranclp_induct) (auto intro: new_firecracker_ok fire_step_ok)

end
