(* ===== verification/Props_Firecracker.thy ===== *)
theory Props_Firecracker
  imports Machines Docker_Inv
begin

text \<open>
  The properties of the Firecracker backend, and of the waiting of both backends, each with a
  concrete run at which it applies.
\<close>

section \<open>A host for the concrete runs\<close>

text \<open>Its clock moves with every pause, it does what it is told and logs it, and its agent is
  ready; \<open>found\<close> says whether the socket of the jailer appears, or the jailer has ended.\<close>

fun ready_agent :: "agent_request \<Rightarrow> agent_response" where
  "ready_agent (A_Poll x) = empty_response\<lparr>ar_ok := False, ar_error := Some ''execution unavailable''\<rparr>"
| "ready_agent q = empty_response"

definition fire_config :: config where
  "fire_config = \<lparr>cf_dataDir = ''/d'', cf_host = [], cf_port = 0, cf_defaultBackend = Firecracker, cf_dockerSocket = [],
     cf_maxOutputBytes = 0, cf_firecrackerBin = Some ''/b/fc'', cf_jailerBin = Some ''/b/jailer'', cf_agentArtifact = Some ''/b/agent'',
     cf_runtimeImage = None, cf_firecrackerKernel = Some ''/b/k'', cf_firecrackerRootfs = Some ''/b/r'', cf_authToken = None\<rparr>"

definition fire_example :: "bool \<Rightarrow> (int \<times> host_event list) fire_env" where
  "fire_example found = \<lparr>gv_send = (\<lambda>_ q. io_return (ready_agent q)), gv_clock = fst, gv_sleep = (\<lambda>ms (n, l). (n + ms, l)),
     gv_uuid = (\<lambda>w. (''u'', w)), gv_io = (\<lambda>_. Inr ()), gv_sha = (\<lambda>_. replicate 64 (CHR ''0'')),
     fv_config = fire_config, fv_linux = True, fv_uid = Some 0, fv_gid = Some 0, fv_which = (\<lambda>n. Some ''/sbin/mkfs.ext4''),
     fv_host = (\<lambda>op (n, l). (Inr (), (n, l @ [E_host op]))),
     fv_access = (\<lambda>_ _. if found then io_return () else io_throw (PlainError ''ENOENT'')),
     fv_text = (\<lambda>_. io_return ''cpu io memory pids''), fv_bytes = (\<lambda>_. io_return [1, 2]),
     fv_stat = (\<lambda>_. io_return \<lparr>hs_uid = 0, hs_dev = 2049\<rparr>), fv_exists = (\<lambda>_. io_return True),
     fv_tool = (\<lambda>_ _. io_return \<lparr>tr_stdout = ''v1.7.0'', tr_stderr = [], tr_exitCode = 0\<rparr>),
     fv_spawn = (\<lambda>c (n, l). (Inr 9, (n, l @ [E_spawn c 9]))),
     fv_exitCode = (\<lambda>_ _. if found then None else Some 1), fv_exit_within = (\<lambda>_ ms w. w),
     fv_put = (\<lambda>k p q (n, l). (Inr (204, []), (n, l @ [E_put k p q]))),
     fv_connect = (\<lambda>_. io_return (7, Inr ())), fv_close = (\<lambda>_ w. w)\<rparr>"

lemma fire_example_recording: "host_recording (fire_example found)"
  by (auto simp: host_recording_def fire_example_def io_return_def io_throw_def)

lemma fire_example_clock: "fire_clock_goes_on (fire_example found)"
  by (auto simp: fire_clock_goes_on_def clock_goes_on_def fire_example_def io_return_def io_throw_def)

definition fire_input :: create_input where
  "fire_input = \<lparr>ci_instanceId = ''i'', ci_workspacePath = ''/w'', ci_resourceProfile = DEFAULT_RESOURCE_PROFILE, ci_network = Net_none\<rparr>"

definition fire_start :: "(int \<times> host_event list) firecracker" where
  "fire_start = (new_firecracker (0, []) \<lparr>f_names = Map.empty, f_inodes = (\<lambda>_. \<lparr>i_body = B_dir, i_mode = 0, i_mtime = None\<rparr>), f_next = 0\<rparr>)
     \<lparr>fk_probe := \<lparr>hp_available = True, hp_reason = None\<rparr>\<rparr>"

lemma fire_start_available: "hp_available (fk_probe fire_start)" by (simp add: fire_start_def)

lemma fire_example_host: "host (fire_example found) op s = (Inr (), s\<lparr>gs_world := (fst (gs_world s), events s @ [E_host op])\<rparr>)"
  by (cases "gs_world s") (simp add: host_def outside_io_def fire_example_def events_def)

lemma fire_example_simps [simp]:
  "fv_config (fire_example found) = fire_config" "fv_which (fire_example found) n = Some ''/sbin/mkfs.ext4''"
  "fv_uid (fire_example found) = Some 0" "fv_gid (fire_example found) = Some 0"
  "gv_clock (fire_example found) = fst" "fv_exitCode (fire_example found) p w = (if found then None else Some 1)"
  "fv_spawn (fire_example found) c w = (Inr 9, (fst w, snd w @ [E_spawn c 9]))"
  by (simp_all add: fire_example_def split: prod.split)

lemma fire_config_simps [simp]:
  "cf_firecrackerBin fire_config = Some ''/b/fc''" "cf_jailerBin fire_config = Some ''/b/jailer''"
  "cf_agentArtifact fire_config = Some ''/b/agent''" "cf_firecrackerKernel fire_config = Some ''/b/k''"
  "cf_firecrackerRootfs fire_config = Some ''/b/r''"
  by (simp_all add: fire_config_def)

text \<open>Computations that never throw.\<close>

definition succeeds :: "('s, 'a) io \<Rightarrow> bool" where "succeeds m \<longleftrightarrow> (\<forall>s. \<exists>x s'. m s = (Inr x, s'))"

lemma succeedsE: "succeeds m \<Longrightarrow> (\<And>x s'. m s = (Inr x, s') \<Longrightarrow> P) \<Longrightarrow> P"
  unfolding succeeds_def by blast

lemma succeeds_bind:
  assumes "succeeds m" "\<And>x. succeeds (f x)"
  shows "succeeds (io_bind m f)"
  unfolding succeeds_def
proof
  fix s
  obtain x s1 where m: "m s = (Inr x, s1)" by (rule succeedsE [OF assms(1)])
  obtain y s2 where "f x s1 = (Inr y, s2)" by (rule succeedsE [OF assms(2)])
  then show "\<exists>x s'. io_bind m f s = (Inr x, s')" using m by (simp add: io_bind_def)
qed

lemma succeeds_all: "list_all succeeds ms \<Longrightarrow> succeeds (io_all ms)"
proof (induction ms)
  case (Cons m ms)
  show ?case unfolding succeeds_def
  proof
    fix s
    obtain x s1 where m: "m s = (Inr x, s1)" by (rule succeedsE [of m]) (use Cons in simp)
    obtain y s2 where "io_all ms s1 = (Inr y, s2)" by (rule succeedsE [of "io_all ms"]) (use Cons in simp)
    then show "\<exists>x s'. io_all (m # ms) s = (Inr x, s')" using m by simp
  qed
qed (simp add: succeeds_def)

lemma succeeds_outside: "(\<And>w. \<exists>x w'. m w = (Inr x, w')) \<Longrightarrow> succeeds (outside_io m)"
  unfolding succeeds_def outside_io_def by (metis (no_types, lifting) case_prod_conv)

lemma succeeds_return: "succeeds (io_return x)" by (simp add: succeeds_def io_return_def)

lemma example_host_succeeds: "succeeds (host (fire_example found) op)"
  by (simp add: succeeds_def fire_example_host)

lemma example_tool_succeeds: "succeeds (runTool (fire_example found) c a)"
  by (simp add: succeeds_def runTool_def io_bind_def outside_io_def fire_example_def io_return_def)

lemma example_prepare_succeeds: "succeeds (prepare_jail (fire_example found) i j)"
proof -
  have copy: "succeeds (copy_artifact (fire_example found) (Some a) p)" for a p
    by (simp add: copy_artifact_def configured_def io_bind_return example_host_succeeds)
  have "succeeds (configureCgroup (fire_example found) iid i w)" for iid w
    unfolding configureCgroup_def writeCgroupFile_def Let_def
    by (intro succeeds_bind example_host_succeeds succeeds_all succeeds_outside)
      (auto simp: fire_example_def io_return_def example_host_succeeds [unfolded fire_example_def] succeeds_return)
  moreover have "succeeds (createInitramfs (fire_example found) a p)" for a p
    unfolding createInitramfs_def
    by (intro succeeds_bind example_host_succeeds succeeds_outside) (simp add: fire_example_def io_return_def)
  moreover have "list_all succeeds (owners_and_modes (fire_example found) j)"
    by (simp add: owners_and_modes_def Let_def example_host_succeeds list_all_iff)
  ultimately show ?thesis
    unfolding prepare_jail_def Let_def
    by (intro succeeds_bind example_host_succeeds example_tool_succeeds succeeds_all)
      (simp_all add: copy configured_def succeeds_return)
qed

lemma example_before:
  assumes "hp_available (fk_probe s)"
  shows "\<exists>s'. before_jailer (fire_example found) fire_input s =
     (Inr (''/b/fc'', ''/b/jailer'', jail_paths fire_config ''/b/fc'' ''i''), s')"
proof -
  obtain u s1 where "prepare_jail (fire_example found) fire_input (jail_paths fire_config ''/b/fc'' ''i'') s = (Inr u, s1)"
    by (rule succeedsE [OF example_prepare_succeeds])
  then show ?thesis using assms
    by (simp add: before_jailer_def configured_def io_bind_return Let_def)
      (simp add: io_bind_def fire_ensureAvailable_def io_require_def fire_input_def io_return_def)
qed

lemma example_socket:
  "waitForSocket (fire_example True) path p s = Some (Inr (), s)"
  "waitForSocket (fire_example False) path p s = Some (Inl (service_err BACKEND_ERROR (''jailer exited with code '' @ int_str 1)), s)"
  unfolding waitForSocket_def
  by (subst wait_socket.simps, simp add: Let_def outside_io_def fire_example_def io_return_def io_throw_def)+

lemma example_connect: "fire_connect (fire_example True) path 15000 s = Some (Inr 7, s)"
  unfolding fire_connect_def
  by (subst connect_until.simps)
    (simp add: Let_def connect_once_def io_bind_def outside_io_def fire_example_def io_return_def vsock_connected_def io_res_def
      vsock_probe_def)

lemma example_put: "succeeds (put_all (fire_example found) k rs)"
proof (induction rs)
  case (Cons r rs)
  have "succeeds (vm_api (fire_example found) k path q)" for path q
    by (simp add: succeeds_def vm_api_def io_bind_def outside_io_def fire_example_def io_require_def split: prod.split)
  then show ?case using Cons by (cases r) (simp add: succeeds_bind)
qed (simp add: succeeds_return)

lemma example_spawned:
  assumes "hp_available (fk_probe s)"
  shows "\<exists>s' cmd. fire_create (fire_example found) fire_input s =
     run_on_error (boot_machine (fire_example found) fire_input (jail_paths fire_config ''/b/fc'' ''i'') 9)
       (clean_up (fire_example found) fire_input (jail_paths fire_config ''/b/fc'' ''i'') 9) s' \<and> E_spawn cmd 9 \<in> set (events s')"
proof -
  obtain s1 where s1: "before_jailer (fire_example found) fire_input s =
     (Inr (''/b/fc'', ''/b/jailer'', jail_paths fire_config ''/b/fc'' ''i''), s1)" using example_before [OF assms] by blast
  let ?cmd = "jailer_command (fire_example found) fire_input (jail_paths fire_config ''/b/fc'' ''i'') ''/b/fc'' ''/b/jailer''"
  let ?s = "s1\<lparr>gs_world := (fst (gs_world s1), snd (gs_world s1) @ [E_spawn ?cmd 9])\<rparr>"
  have "outside_io (fv_spawn (fire_example found) ?cmd) s1 = (Inr 9, ?s)" by (simp add: outside_io_def)
  then show ?thesis using s1 by (intro exI [of _ ?s] exI [of _ ?cmd]) (simp add: fire_create_parts events_def)
qed

lemma example_created:
  assumes "hp_available (fk_probe s)"
  shows "\<exists>h s'. fire_create (fire_example True) fire_input s = Some (Inr h, s')"
proof -
  let ?j = "jail_paths fire_config ''/b/fc'' ''i''"
  obtain s1 where s1: "fire_create (fire_example True) fire_input s =
     run_on_error (boot_machine (fire_example True) fire_input ?j 9) (clean_up (fire_example True) fire_input ?j 9) s1"
    using example_spawned [OF assms] by blast
  obtain u s2 where "put_all (fire_example True) (api_socket ?j) (boot_requests (gv_sha (fire_example True)) fire_input) s1 = (Inr u, s2)"
    by (rule succeedsE [OF example_put])
  then show ?thesis unfolding s1
    by (simp add: run_on_error_def boot_machine_def run_bind_def example_socket example_connect returns_def set_instance_def io_return_def)
qed

lemma example_not_created: "\<exists>e s' c p. fire_create (fire_example False) fire_input fire_start = Some (Inl e, s') \<and> E_spawn c p \<in> set (events s')"
proof -
  let ?j = "jail_paths fire_config ''/b/fc'' ''i''"
  obtain s1 c where s1: "fire_create (fire_example False) fire_input fire_start =
     run_on_error (boot_machine (fire_example False) fire_input ?j 9) (clean_up (fire_example False) fire_input ?j 9) s1"
    "E_spawn c 9 \<in> set (events s1)" using example_spawned [OF fire_start_available] by blast
  obtain r s2 where clean: "clean_up (fire_example False) fire_input ?j 9 s1 = (r, s2)" by force
  have "E_spawn c 9 \<in> set (events s2)"
    using clean_up_outcome(2) [OF fire_example_recording clean] s1(2) by auto
  then show ?thesis using clean unfolding s1(1)
    by (cases r) (auto simp: run_on_error_def boot_machine_def run_bind_def example_socket io_bind_def io_throw_def)
qed

section \<open>Creating a machine\<close>



text \<open>C36: a machine that could not be started is removed. When creating a machine fails, the running
  machines are as before. If its jailer was started, that process is killed, then the directory
  of the jail and the control group are removed, and nothing comes after (if removals work). If
  the jailer was not started yet, nothing is removed at all, whatever was copied there.\<close>

theorem failed_machine_is_removed:
  assumes "fire_create env i s = Some (Inl e, s')" "fire_clock_goes_on env" "host_recording env"
    and "\<And>p w. is_ok (fst (fv_host env (H_rm p) w))"
  shows "fk_instances s' = fk_instances s \<and> (\<exists>es. events s' = events s @ es \<and>
    (if \<exists>c p. E_spawn c p \<in> set es
     then \<exists>bin p run. cf_firecrackerBin (fv_config env) = Some bin \<and> (\<exists>c. E_spawn c p \<in> set run) \<and>
       es = run @ [E_host (H_kill p), E_host (H_rm (dirname (j_root (jail_paths (fv_config env) bin (ci_instanceId i))))),
         E_host (H_rm (path_join [cgroup_parent, ci_instanceId i]))]
     else \<forall>p. E_host (H_rm p) \<notin> set es))"
proof -
  obtain es where es: "events s' = events s @ es" "fk_instances s' = fk_instances s"
      "list_all preparing es \<or> removed_events env i es"
    using fire_create_outcome [OF assms(2,3), of i s] assms(1) by auto
  have "if \<exists>c p. E_spawn c p \<in> set es
     then \<exists>bin p run. cf_firecrackerBin (fv_config env) = Some bin \<and> (\<exists>c. E_spawn c p \<in> set run) \<and>
       es = run @ [E_host (H_kill p), E_host (H_rm (dirname (j_root (jail_paths (fv_config env) bin (ci_instanceId i))))),
         E_host (H_rm (path_join [cgroup_parent, ci_instanceId i]))]
     else \<forall>p. E_host (H_rm p) \<notin> set es"
  proof (cases "list_all preparing es")
    case True
    then have "E_spawn c p \<notin> set es" "E_host (H_rm q) \<notin> set es" for c p q
      by (auto simp: list_all_iff preparing_def split: host_event.splits)
    then show ?thesis by simp
  next
    case False
    then obtain j p n run where started: "started_events env i j p n run"
        and run: "es = run @ [E_host (H_kill p), E_host (H_rm (dirname (j_root j)))] @ [E_host (H_rm (path_join [cgroup_parent, ci_instanceId i]))]"
      using es(3) assms(4) unfolding removed_events_def by metis
    obtain bin jailer prep rest where j: "cf_firecrackerBin (fv_config env) = Some bin" "j = jail_paths (fv_config env) bin (ci_instanceId i)"
        and "run = prep @ E_spawn (jailer_command env i j bin jailer) p # rest"
      using started unfolding started_events_def by blast
    then have "E_spawn (jailer_command env i j bin jailer) p \<in> set run" by simp
    note j = j this
    have "\<exists>c p. E_spawn c p \<in> set es" using run j(3) by auto
    then show ?thesis using run j by auto
  qed
  then show ?thesis using es by blast
qed

lemma failed_machine_is_removed_witness:
  "\<exists>e s'. fire_create (fire_example False) fire_input fire_start = Some (Inl e, s') \<and>
     last (events s') = E_host (H_rm (path_join [cgroup_parent, ''i'']))"
proof -
  obtain e s' c p where run: "fire_create (fire_example False) fire_input fire_start = Some (Inl e, s')" "E_spawn c p \<in> set (events s')"
    using example_not_created by blast
  have rm: "is_ok (fst (fv_host (fire_example False) (H_rm p) w))" for p w by (cases w) (simp add: fire_example_def)
  have "events fire_start = []" by (simp add: fire_start_def new_firecracker_def events_def)
  with failed_machine_is_removed [OF run(1) fire_example_clock fire_example_recording rm] run(2)
  have "last (events s') = E_host (H_rm (path_join [cgroup_parent, ''i'']))"
    by (auto simp: fire_input_def split: if_splits)
  then show ?thesis using run(1) by blast
qed

section \<open>Executions and machines\<close>

text \<open>C37: executions belong to machines. After any sequence of preflights, creations with new ids,
  commands, polls, writes, kills, file operations, snapshots and destructions, every execution
  uses the transport of a machine that runs; and when a machine is destroyed, it and its
  executions are forgotten, whatever the guest and the host answer.\<close>

theorem executions_belong_to_machines:
  assumes "(fire_step env)\<^sup>*\<^sup>* (new_firecracker w f) s"
  shows "(\<forall>x d. (x, d) \<in> set (gs_executions s) \<longrightarrow> (\<exists>k m. fk_instances s k = Some m \<and> fi_transport m = de_transport d)) \<and>
    (\<forall>(h :: backend_handle) m. fk_instances s (h_opaqueId h) = Some m \<longrightarrow> fi_id m = h_opaqueId h \<and>
      (let s' = snd (fire_destroy env h s) in fk_instances s' = (fk_instances s)(h_opaqueId h := None) \<and>
        fi_transport m \<notin> de_transport ` snd ` set (gs_executions s')))"
proof -
  have ok: "machines_ok s" by (rule machines_reachable [OF assms])
  show ?thesis
  proof (intro conjI allI impI)
    fix x d assume "(x, d) \<in> set (gs_executions s)"
    then have "de_transport d \<in> live s" using ok by (auto simp: machines_ok_def bound_to_def)
    then show "\<exists>k m. fk_instances s k = Some m \<and> fi_transport m = de_transport d" unfolding live_def mem_Collect_eq by metis
  next
    fix h :: backend_handle and m assume m: "fk_instances s (h_opaqueId h) = Some m"
    then show "fi_id m = h_opaqueId h" using ok by (simp add: machines_ok_def)
    note gone = fire_destroy_outcome [of s h m env, OF m]
    show "let s' = snd (fire_destroy env h s) in fk_instances s' = (fk_instances s)(h_opaqueId h := None) \<and>
        fi_transport m \<notin> de_transport ` snd ` set (gs_executions s')"
      using gone destroyed_ok [OF ok m gone] by (simp add: Let_def still_def)
  qed
qed

lemma example_checks: "fst (fire_checks (fire_example True) s) = []"
proof -
  have controllers: "set [''cpu'', ''io'', ''memory'', ''pids''] \<subseteq> set (words ''cpu io memory pids'')" by code_simp
  have "fst (check_controllers (fire_example True) u) = []" for u
    using controllers by (simp add: check_controllers_def outside_io_def fire_example_def io_return_def)
  moreover have "fst (check_access (fire_example True) p m t u) = []" for p m t u
    by (simp add: check_access_def outside_io_def fire_example_def io_return_def)
  moreover have "fst (check_owner (fire_example True) p u) = []" for p u
    by (auto simp: check_owner_def outside_io_def fire_example_def io_return_def check_that_def split: option.split)
  moreover have "version_text (fire_example True) p u = (trim ''v1.7.0'', [], u)" for p u
    by (simp add: version_text_def runTool_def io_bind_def outside_io_def fire_example_def io_return_def)
  ultimately show ?thesis
    by (simp add: fire_checks_def case_prod_beta check_that_def check_artifact_def artifacts_of_def check_versions_def)
      (simp add: fire_example_def)
qed

lemma executions_belong_to_machines_witness:
  "\<exists>s h. (fire_step (fire_example True))\<^sup>*\<^sup>* (new_firecracker (0, []) (gs_fs fire_start)) s \<and> h_opaqueId h = ''i'' \<and>
     fk_instances s ''i'' \<noteq> None \<and> fk_instances (snd (fire_destroy (fire_example True) h s)) ''i'' = None"
proof -
  let ?n = "new_firecracker (0, []) (gs_fs fire_start)" and ?e = "fire_example True"
  let ?s = "snd (fire_preflight ?e ?n)"
  have none: "fk_instances ?s = Map.empty"
    using preflight_still [of "gs_executions ?n" "fk_instances ?n" ?n ?e] by (simp add: still_def new_firecracker_def)
  have "hp_available (fk_probe ?s)" using example_checks [of ?n] by (simp add: fire_preflight_def case_prod_beta Let_def)
  from example_created [OF this] obtain h s' where create: "fire_create ?e fire_input ?s = Some (Inr h, s')" by blast
  have "fk_instances ?s (ci_instanceId fire_input) = None" using none by simp
  from create_step [where env = ?e, OF this create] have step: "fire_step ?e ?s s'" .
  have run: "(fire_step ?e)\<^sup>*\<^sup>* ?n s'"
    by (rule rtranclp.rtrancl_into_rtrancl [OF r_into_rtranclp [of "fire_step ?e", OF preflight_step] step])
  obtain m where m: "h_opaqueId h = ''i''" "fk_instances s' ''i'' = Some m"
    using fire_create_outcome [OF fire_example_clock fire_example_recording, of True fire_input ?s] create
    by (auto simp: booted_def fire_input_def)
  have "fk_instances (snd (fire_destroy ?e h s')) = (fk_instances s')(h_opaqueId h := None)"
    using conjunct2 [OF executions_belong_to_machines [OF run], rule_format, of h m] m by (simp add: Let_def)
  then show ?thesis using run m by (intro exI [of _ s'] exI [of _ h]) simp
qed

section \<open>The initial file system\<close>

text \<open>C38: the kernel finds the agent. A reader of newc archives finds in the initial file system of a
  machine the console and the agent, as an executable file with its whole content, if the agent
  is smaller than 4 GiB.\<close>

theorem initramfs_has_the_agent:
  assumes "length agent < 2 ^ 32"
  shows "cpio_read 0 (initramfs agent) =
    Some [member_of ''dev'' 0x41ED [] 1 0 0, member_of ''dev/console'' 0x2180 [] 2 5 1, member_of ''init'' 0x81ED agent 3 0 0]"
  by (rule initramfs_read [OF assms])

lemma initramfs_has_the_agent_witness:
  "map_option (map cm_content) (cpio_read 0 (initramfs [7, 8, 9])) = Some [[], [], [7, 8, 9]]"
  using initramfs_has_the_agent [of "[7, 8, 9]"] by (simp add: member_of_def)

section \<open>Waiting\<close>




end
