(* ===== verification/Spec2Isabelle.thy ===== *)
theory Spec2Isabelle
  imports Props_Turns Props_Storage Props_Sessions Props_Transport Props_Cfs Props_Http Props_Docker
    Props_Firecracker
begin

text \<open>
  Electrosphere is a daemon that gives AI coding agents places to run commands in. A trusted
  harness starts, finishes and forks the turns of its threads over HTTP; the model that works in
  a turn gets tools (shell, files, search, artifacts) bound to the runtime of that turn, which is
  a Docker container or a Firecracker machine with an agent inside. The workspace of a durable
  thread is kept as a chain of commits of content-addressed snapshots, under one ref that a
  successful finish moves. This development models the daemon, the TypeScript under
  \<open>src/src/\<close>, and proves what makes its parts correct. File and function names below are those
  of that directory; definitions keep the source's names where they can.

  \<^bold>\<open>How the code is represented.\<close>
  \<^item> A JavaScript string is the list of the bytes of its UTF-8 encoding, a \<open>Buffer\<close> a list of bytes
    (\<open>8 word\<close>), a number an \<open>int\<close> or \<open>nat\<close>; lengths, offsets and times that the code writes into
    fixed fields keep their width. \<open>undefined\<close> and \<open>null\<close> are \<open>None\<close>.
  \<^item> A function that may throw returns \<open>js_error + 'a\<close> (\<open>'a res\<close> in \<open>Domain\<close>): \<open>Inl\<close>
    a \<open>ServiceError\<close> of \<open>domain/errors.ts\<close> or a plain error. What it had changed before it threw
    stays changed: state is returned beside the result, except for SQL transactions, which are
    undone.
  \<^item> A function that waits for the outside is cut there. The pure services take what the awaited
    calls answer as arguments (\<open>externals\<close> in \<open>Sandbox\<close>); the tools, the agents and the backends
    are functions on a world of an arbitrary type, so that every answer may depend on all that was
    asked before (\<open>io\<close> in \<open>Agent\<close>).
  \<^item> Clocks, fresh ids, SHA-256, the JSON functions, the file system of the host beyond \<open>Files\<close>, the
    Docker API and the host of the Firecracker machines are parameters.

  \<^bold>\<open>The parts.\<close>
  \<^item> \<open>Prelude\<close>: errors as sums, lists of rows, the string primitives, and the interfaces used by
    several parts. \<open>Domain\<close> (\<open>domain/types.ts\<close>, \<open>domain/errors.ts\<close>): enumerations, records, error
    codes and their HTTP statuses.
  \<^item> \<open>Schema\<close> (\<open>storage/schema.ts\<close>): the tables, one record per row, and \<open>db_ok\<close>, all constraints
    (keys, unique indexes, checks, foreign keys). \<open>Repository\<close> (\<open>storage/repository.ts\<close>): every
    statement and transaction as a function of the database, which throws where SQLite does.
    \<open>Repository_Inv\<close>: every write keeps the constraints. \<open>History\<close>: the walks along parents of
    \<open>commitBelongsToHistory\<close> and of the garbage collection, proved equal to reachability.
  \<^item> \<open>Sandbox\<close> (\<open>domain/sandbox-service.ts\<close>): the life of the runtimes, and committing a
    workspace. \<open>Sessions\<close> (\<open>domain/session-manager.ts\<close>): the executions of a runtime, their limits,
    and how output is shaped. \<open>Turns\<close> (\<open>domain/turn-service.ts\<close>): starting, leasing, finishing,
    forking. \<open>Recovery\<close> (\<open>domain/recovery.ts\<close>): start-up recovery and garbage collection. The
    \<open>_Inv\<close> theories say what every branch of these leaves in the database.
  \<^item> \<open>System\<close>: the handlers as steps from one await to the next, freely interleaved
    (\<open>daemon_step\<close>), and the lease table (\<open>lease_step\<close>).
  \<^item> \<open>Bytes\<close>, \<open>Utf8\<close>, \<open>Base64\<close>: what is used of \<open>Buffer\<close>. \<open>Frames\<close> (\<open>agent-protocol.ts\<close>,
    \<open>backends/agent-transport.ts\<close>): frames, the writer under back-pressure, the channel that matches
    answers to requests. \<open>Agent\<close>, \<open>AgentFiles\<close> (\<open>agent-protocol.ts\<close>, \<open>backends/agent-files.ts\<close>):
    the messages of the guest agent and the file operations over any such channel.
  \<^item> \<open>Files\<close>: the host's file system, with inodes, links and times. \<open>Cfs\<close> (\<open>storage/cfs.ts\<close>):
    the snapshot format, exporting and extracting. \<open>Cfs_Safety\<close>: where an extraction writes.
    \<open>Cfs_Entries\<close>, \<open>Cfs_Roundtrip\<close>, \<open>Cfs_Restore\<close>: an extraction restores what was exported.
    \<open>Artifacts\<close>, \<open>Artifacts_Inv\<close> (\<open>storage/artifacts.ts\<close>): the artifact store.
  \<^item> \<open>Paths\<close>, \<open>Lines\<close>, \<open>Tools\<close>, \<open>ToolCalls\<close> (\<open>mcp/server.ts\<close>): the paths tools accept, reading by
    lines, ranges and pages, the lease around a call, and the ten tools with their schemas.
    \<open>Tools_Inv\<close>, \<open>Reads_Inv\<close>, \<open>Exports_Inv\<close>: what requests they send, that they return, and what
    they export.
  \<^item> \<open>Http\<close> (\<open>daemon/http.ts\<close>), \<open>Config\<close> (\<open>daemon/config.ts\<close>), \<open>Daemon\<close> (\<open>daemon/index.ts\<close>): the
    routes behind the token, the configuration and the start-up.
  \<^item> \<open>Tar\<close>, \<open>Tar_Inv\<close> (\<open>storage/tar.ts\<close>): the archive a workspace is restored from, and a reader of
    such archives. \<open>DockerStream\<close> and \<open>Docker\<close> (\<open>backends/docker.ts\<close>): the attached stream of a
    container, and the backend over the Docker API.
  \<^item> \<open>Guest\<close>: what both backends do in the same words (executions, polls, kills, snapshots), over
    a record of the outside that each extends with its own. \<open>Guest_Inv\<close>, \<open>Docker_Inv\<close>: the file a
    snapshot leaves, the requests a guest gets, and that waiting ends.
  \<^item> \<open>Vsock\<close>, \<open>Initramfs\<close>, \<open>Firecracker\<close> (\<open>backends/firecracker.ts\<close>): the connection to a machine,
    its initial file system, and the backend, whose calls to the host are data (\<open>host_op\<close>).
    \<open>Firecracker_Inv\<close>: in which order the host is told what, on success and on failure.
    \<open>Machines\<close>: the operations of the backend as steps (\<open>fire_step\<close>), with their invariant.
  \<^item> \<open>Examples\<close> has the concrete states on which properties are instantiated, and the theories
    \<open>Props_\<close> the properties C1 to C40, in the order of importance that their numbers give.

  \<^bold>\<open>How they interact.\<close> A request passes \<open>Http\<close>, which calls \<open>Turns\<close> for the harness and, for a tool
  call, acquires a lease on the open turn and runs \<open>ToolCalls\<close> under it. \<open>Turns\<close> creates, commits
  and closes runtimes through \<open>Sandbox\<close> and closes the sessions of \<open>Sessions\<close>; a finish waits for
  the leases. All of them keep their state in \<open>Repository\<close>. Workspaces go to the guest and back
  through the backends: \<open>Cfs\<close> extracts a commit into a directory, \<open>Tar\<close> or an image of a block
  device takes it to the guest, and \<open>Guest\<close> reads the snapshot that \<open>Cfs\<close> verifies.

  \<^bold>\<open>Interfaces\<close>, each a locale whose laws an interpretation proves of the definitions above:
  \<^item> \<open>invariant_system\<close>: a step system with an invariant; for the daemon, the leases and the channel.
  \<^item> \<open>chunk_consumer\<close>: a reader of a stream that does not see how it is cut; for the frame channel,
    the Docker stream and the vsock stream.
  \<^item> \<open>row_store\<close>: a table updated by key; for turns and instances.
  \<^item> \<open>session_closer\<close>: what \<open>finish\<close> relies on when it closes the sessions; for \<open>Sessions\<close>.
  \<^item> \<open>byte_source\<close>: a reader by offset, of which streams are made; for the reads of the agent.
  \<^item> \<open>confined_sender\<close> and its special case \<open>tool_runtime\<close>: an agent that only gets confined
    requests; for the runtime of a tool call with its log of requests.
  \<^item> \<open>siblings\<close>: a staging directory beside its destination; for the extraction of a commit.

  \<^bold>\<open>What the lemmas show.\<close> Storage: every write keeps \<open>db_ok\<close>, updates touch one row, the walks end
  and compute reachability. Services: each handler's effect on every branch, errors included, and
  from these the properties of turns (C1, C2, C4, C8 to C12, C40), of the reachable states (C3, C5),
  of recovery and collection (C6, C7) and of sessions (C13 to C15). Streams: cuts do not matter,
  every request settles once, no byte is lost (C16, C17, C31). Files: an extraction stays inside
  and inverts the export (C18, C19), artifacts are what their digest says (C28 to C30), archives
  read back and the restore ships them (C33, C39). Tools and HTTP: confinement, one transfer per
  write, true exports, termination with its one exception (C20 to C24), the token, the turn of a
  call, the start-up (C25 to C27). Backends: snapshots are verified or removed (C32), waits end
  (C34), machines start confined or are removed, own their executions and find their agent (C35
  to C38).

  \<^bold>\<open>Loops.\<close> Loops over data are structural or have a measure. Loops that wait (\<open>poll_wait\<close>,
  \<open>restore_wait\<close>, \<open>wait_socket\<close>, \<open>connect_until\<close>) are \<open>partial_function (option)\<close>, so that a loop
  that does not end is \<open>None\<close>; they end when the clock does not go back and every pause moves it
  on (\<open>clock_goes_on\<close>, \<open>fire_clock_goes_on\<close>), which C34 has as its hypothesis and a clock that
  counts the pauses satisfies. \<open>next_in_ranges\<close> is partial as well, and C24 shows where it really
  does not end. Fuel is only used by \<open>trim\<close> and \<open>split_spaces\<close>; it is the length of the string, of
  which each step takes at least one byte.

  \<^bold>\<open>What is not modelled.\<close> \<open>storage/sqlite.ts\<close> (opening the database, pragmas), migrations, the
  audit columns and the tables that no code uses; in \<open>daemon/index.ts\<close> the stop, the signals and
  the listening socket; the random chunk id of a shell result; the tests and the Rust agent, whose
  answers are arbitrary. The libraries (MCP, Hono, zod, JSON) are parameters or what their
  documentation says. Simplified in a way that can matter: the periodic reaping and the serial
  queue of a session are single steps; \<open>closeAll\<close> is taken without pending starts; calls started
  together by \<open>Promise.all\<close> run one after the other; a stream is drained before its consumer goes
  on, except in \<open>Tar\<close>, where C39 is about just that; calls to sync files have no effect, and
  a write is whole; the umask is not applied, and names of files are valid UTF-8.
\<close>

end
